(* ===== verification/Prelude.thy ===== *)
theory Prelude
  imports Complex_Main "HOL-Library.AList" "HOL-Library.List_Lexorder" "HOL-Library.Char_ord"
    "HOL-Library.Multiset"
begin

text \<open>
  Shared ground of the development: the Python values that travel in JSON payloads, the
  dictionary operations on them, the two predicates of \<^verbatim>\<open>common/protocol.py\<close> that every
  component uses to recognise numbers, and the generic list and map lemmas of the component
  theories. A Python float is an exact real or one of the three special values; rounding of
  binary64 arithmetic is not modelled. A dictionary is an association list in insertion order
  (\<^verbatim>\<open>d[k] = v\<close> overwrites in place or appends, which is \<^const>\<open>AList.update\<close>).
\<close>

named_theorems dict_simps \<open>look-ups after dictionary updates\<close>
named_theorems model_defs \<open>definitions that evaluate concrete inputs\<close>

section \<open>Python values\<close>

datatype pyfloat = Fin real | PosInf | NegInf | NaN

datatype pyval =
    PNone
  | PBool bool
  | PInt int
  | PFloat pyfloat
  | PStr string
  | PList "pyval list"
  | PDict "(string \<times> pyval) list"

type_synonym dict = "(string \<times> pyval) list"

text \<open>
  \<^verbatim>\<open>math.isfinite\<close> of an int converts it to a float, and raises \<^verbatim>\<open>OverflowError\<close>
  when it rounds beyond the largest binary64 value, which is the case from the midpoint
  \<open>2 ^ 1024 - 2 ^ 970\<close> on.
\<close>

text \<open>
  The exceptions of the sources as values. Each carries the text that \<^verbatim>\<open>str(exc)\<close> would
  give where the code puts it into a message; \<open>StorageErr\<close> stands for
  \<^verbatim>\<open>sqlite3.Error\<close> and \<^verbatim>\<open>OSError\<close>.
\<close>

datatype py_error =
    MessageErr string
  | ValueErr string
  | StateErr string
  | BackpressureErr string
  | CapacityErr string
  | KeyErr
  | TypeErr string
  | AttributeErr
  | FeatureErr string
  | OverflowErr
  | StorageErr

definition int_finite :: "int \<Rightarrow> bool" where
  "int_finite i \<longleftrightarrow> \<bar>i\<bar> < 2 ^ 1024 - 2 ^ 970"

definition integer :: "pyval \<Rightarrow> int \<Rightarrow> bool" where
  "integer value minimum = (case value of PInt i \<Rightarrow> minimum \<le> i | _ \<Rightarrow> False)"

definition number :: "pyval \<Rightarrow> bool" where
  "number value = (case value of PInt i \<Rightarrow> int_finite i | PFloat (Fin _) \<Rightarrow> True | _ \<Rightarrow> False)"

definition num_of :: "pyval \<Rightarrow> real" where
  "num_of v = (case v of PInt i \<Rightarrow> of_int i | PFloat (Fin r) \<Rightarrow> r | PBool True \<Rightarrow> 1 | _ \<Rightarrow> 0)"

primrec finite_json :: "pyval \<Rightarrow> bool" where
  "finite_json PNone = True"
| "finite_json (PBool b) = True"
| "finite_json (PInt i) = int_finite i"
| "finite_json (PFloat f) = (case f of Fin _ \<Rightarrow> True | _ \<Rightarrow> False)"
| "finite_json (PStr s) = True"
| "finite_json (PList xs) = list_all (\<lambda>b. b) (map finite_json xs)"
| "finite_json (PDict d) = list_all snd (map (map_prod id finite_json) d)"

text \<open>
  \<^verbatim>\<open>json.dumps(allow_nan=False)\<close> rejects special floats only; big ints have a text.
\<close>

primrec json_ok :: "pyval \<Rightarrow> bool" where
  "json_ok PNone = True"
| "json_ok (PBool b) = True"
| "json_ok (PInt i) = True"
| "json_ok (PFloat f) = (case f of Fin _ \<Rightarrow> True | _ \<Rightarrow> False)"
| "json_ok (PStr s) = True"
| "json_ok (PList xs) = list_all (\<lambda>b. b) (map json_ok xs)"
| "json_ok (PDict d) = list_all snd (map (map_prod id json_ok) d)"

definition is_str :: "pyval \<Rightarrow> bool" where
  "is_str v = (case v of PStr _ \<Rightarrow> True | _ \<Rightarrow> False)"

definition is_int :: "pyval \<Rightarrow> bool" where
  "is_int v = (case v of PInt _ \<Rightarrow> True | _ \<Rightarrow> False)"

definition is_dict :: "pyval \<Rightarrow> bool" where
  "is_dict v = (case v of PDict _ \<Rightarrow> True | _ \<Rightarrow> False)"

text \<open>Dictionary keys must be hashable; a list or a dict as a key raises \<^verbatim>\<open>TypeError\<close>.\<close>

definition hashable :: "pyval \<Rightarrow> bool" where
  "hashable v = (case v of PList _ \<Rightarrow> False | PDict _ \<Rightarrow> False | _ \<Rightarrow> True)"

definition str_of :: "pyval \<Rightarrow> string" where
  "str_of v = (case v of PStr s \<Rightarrow> s | _ \<Rightarrow> [])"

definition int_of :: "pyval \<Rightarrow> int" where
  "int_of v = (case v of PInt i \<Rightarrow> i | _ \<Rightarrow> 0)"

definition dict_of :: "pyval \<Rightarrow> dict" where
  "dict_of v = (case v of PDict d \<Rightarrow> d | _ \<Rightarrow> [])"

primrec opt_str :: "string option \<Rightarrow> pyval" where
  "opt_str None = PNone"
| "opt_str (Some s) = PStr s"

primrec opt_int :: "int option \<Rightarrow> pyval" where
  "opt_int None = PNone"
| "opt_int (Some i) = PInt i"

text \<open>Python truth of a value: the \<^verbatim>\<open>if x\<close> of the sources.\<close>

fun truthy :: "pyval \<Rightarrow> bool" where
  "truthy PNone = False"
| "truthy (PBool b) = b"
| "truthy (PInt i) = (i \<noteq> 0)"
| "truthy (PFloat (Fin r)) = (r \<noteq> 0)"
| "truthy (PFloat f) = True"
| "truthy (PStr s) = (s \<noteq> [])"
| "truthy (PList xs) = (xs \<noteq> [])"
| "truthy (PDict d) = (d \<noteq> [])"

section \<open>Dictionaries\<close>

abbreviation dget :: "('k \<times> 'v) list \<Rightarrow> 'k \<Rightarrow> 'v option" where
  "dget \<equiv> map_of"

definition dgetn :: "dict \<Rightarrow> string \<Rightarrow> pyval" where
  "dgetn d k = (case map_of d k of None \<Rightarrow> PNone | Some v \<Rightarrow> v)"

definition dgetd :: "dict \<Rightarrow> string \<Rightarrow> pyval \<Rightarrow> pyval" where
  "dgetd d k dflt = (case map_of d k of None \<Rightarrow> dflt | Some v \<Rightarrow> v)"

definition dhas :: "('k \<times> 'v) list \<Rightarrow> 'k \<Rightarrow> bool" where
  "dhas d k \<longleftrightarrow> k \<in> set (map fst d)"

definition dset :: "('k \<times> 'v) list \<Rightarrow> 'k \<Rightarrow> 'v \<Rightarrow> ('k \<times> 'v) list" where
  "dset d k v = AList.update k v d"

definition ddel :: "('k \<times> 'v) list \<Rightarrow> 'k \<Rightarrow> ('k \<times> 'v) list" where
  "ddel d k = AList.delete k d"

text \<open>\<^verbatim>\<open>{**d, **e}\<close> and \<^verbatim>\<open>d.update(e)\<close>.\<close>

primrec dmerge :: "('k \<times> 'v) list \<Rightarrow> ('k \<times> 'v) list \<Rightarrow> ('k \<times> 'v) list" where
  "dmerge d [] = d"
| "dmerge d (p # ps) = dmerge (dset d (fst p) (snd p)) ps"

text \<open>\<^verbatim>\<open>d.items()\<close>: every key with the value it looks up.\<close>

definition items :: "('k \<times> 'v) list \<Rightarrow> ('k \<times> 'v) list" where
  "items d = map (\<lambda>k. (k, the (map_of d k))) (map fst d)"

text \<open>Key order of \<^verbatim>\<open>json.dumps(sort_keys=True)\<close>, at every level.\<close>

primrec canon :: "pyval \<Rightarrow> pyval" where
  "canon PNone = PNone"
| "canon (PBool b) = PBool b"
| "canon (PInt i) = PInt i"
| "canon (PFloat f) = PFloat f"
| "canon (PStr s) = PStr s"
| "canon (PList xs) = PList (map canon xs)"
| "canon (PDict d) = PDict (sort_key fst (map (map_prod id canon) d))"

definition canon_dict :: "dict \<Rightarrow> dict" where
  "canon_dict d = sort_key fst (map (map_prod id canon) d)"

text \<open>
  Equality of Python values: dictionaries compare without order, \<^verbatim>\<open>1 == 1.0 == True\<close>.
  The special float values compare by constructor; \<^const>\<open>finite_json\<close> keeps them out of
  every value that is compared.
\<close>

primrec py_norm :: "pyval \<Rightarrow> pyval" where
  "py_norm PNone = PNone"
| "py_norm (PBool b) = PFloat (Fin (if b then 1 else 0))"
| "py_norm (PInt i) = PFloat (Fin (of_int i))"
| "py_norm (PFloat f) = PFloat f"
| "py_norm (PStr s) = PStr s"
| "py_norm (PList xs) = PList (map py_norm xs)"
| "py_norm (PDict d) = PDict (sort_key fst (map (map_prod id py_norm) d))"

definition py_eq :: "pyval \<Rightarrow> pyval \<Rightarrow> bool" where
  "py_eq a b \<longleftrightarrow> py_norm a = py_norm b"


section \<open>Lemmas on dictionaries\<close>

lemma map_of_dset [simp, dict_simps]: "map_of (dset d k v) j = (if j = k then Some v else map_of d j)"
  by (simp add: dset_def update_conv')

lemma map_of_ddel [simp, dict_simps]: "map_of (ddel d k) j = (if j = k then None else map_of d j)"
  by (simp add: ddel_def delete_conv')

lemma dhas_iff [simp]: "dhas d k \<longleftrightarrow> map_of d k \<noteq> None"
  by (simp add: dhas_def map_of_eq_None_iff)

lemma keys_dset: "set (map fst (dset d k v)) = insert k (set (map fst d))"
  by (auto simp: dset_def update_keys)

lemma keys_ddel: "set (map fst (ddel d k)) = set (map fst d) - {k}"
  unfolding ddel_def by (induction d) auto

lemma distinct_dset [intro, simp]: "distinct (map fst d) \<Longrightarrow> distinct (map fst (dset d k v))"
  by (simp add: dset_def distinct_update)

lemma distinct_ddel [intro, simp]: "distinct (map fst d) \<Longrightarrow> distinct (map fst (ddel d k))"
  by (simp add: ddel_def distinct_delete)

lemma length_dset: "length (dset d k v) = (if map_of d k = None then Suc (length d) else length d)"
  unfolding dset_def by (induction d) auto

lemma length_ddel_le: "length (ddel d k) \<le> length d"
  unfolding ddel_def by (simp add: length_delete_le)

lemma length_ddel_less: "map_of d k \<noteq> None \<Longrightarrow> length (ddel d k) < length d"
  unfolding ddel_def by (induction d) (auto simp: delete_simps split: if_splits intro: le_imp_less_Suc length_delete_le)

lemma set_ddel: "set (ddel d k) = {p \<in> set d. fst p \<noteq> k}"
  unfolding ddel_def by (induction d) auto

lemma set_dset_subset: "set (dset d k v) \<subseteq> insert (k, v) (set d)"
  unfolding dset_def by (induction d) auto

lemma dset_fresh: "map_of d k = None \<Longrightarrow> dset d k v = d @ [(k, v)]"
  unfolding dset_def by (induction d) (auto split: if_splits)

lemma keys_dset_present: "map_of d k = Some w \<Longrightarrow> map fst (dset d k v) = map fst d"
  unfolding dset_def by (induction d) (auto split: if_splits)

lemma keys_items [simp]: "map fst (items d) = map fst d"
  by (simp add: items_def comp_def)

lemma mem_items: "(k, v) \<in> set (items d) \<longleftrightarrow> map_of d k = Some v"
proof
  assume "(k, v) \<in> set (items d)"
  then have "k \<in> fst ` set d" "v = the (map_of d k)" by (auto simp: items_def)
  then show "map_of d k = Some v" by (cases "map_of d k") (auto simp: map_of_eq_None_iff)
next
  assume *: "map_of d k = Some v"
  then have "k \<in> fst ` set d" by (force dest: map_of_SomeD)
  with * show "(k, v) \<in> set (items d)" by (force simp: items_def)
qed

lemma items_distinct: "distinct (map fst d) \<Longrightarrow> items d = d"
  by (auto simp: items_def comp_def intro!: map_idI)

lemma set_dset:
  assumes "distinct (map fst d)"
  shows "set (dset d k v) = insert (k, v) {p \<in> set d. fst p \<noteq> k}"
  using assms unfolding dset_def by (induction d) (auto simp: rev_image_eqI)

lemma map_of_dmerge: "map_of (dmerge d e) k = (case map_of (rev e) k of None \<Rightarrow> map_of d k | Some v \<Rightarrow> Some v)"
  by (induction e arbitrary: d) (auto simp: map_add_def split: option.splits)

lemma map_of_rev_distinct: "distinct (map fst d) \<Longrightarrow> map_of (rev d) k = map_of d k"
  by (induction d) (force simp: map_add_def dest: map_of_SomeD split: option.splits)+

lemma map_of_dmerge_distinct:
  "distinct (map fst e) \<Longrightarrow> map_of (dmerge d e) k = (case map_of e k of None \<Rightarrow> map_of d k | Some v \<Rightarrow> Some v)"
  by (simp add: map_of_dmerge map_of_rev_distinct)

lemma dmerge_Nil [simp]: "dmerge d [] = d"
  by simp

lemma distinct_dmerge: "distinct (map fst d) \<Longrightarrow> distinct (map fst (dmerge d e))"
  by (induction e arbitrary: d) auto

lemma dgetn_Some [simp]: "map_of d k = Some v \<Longrightarrow> dgetn d k = v"
  by (simp add: dgetn_def)

lemma dgetn_None [simp]: "map_of d k = None \<Longrightarrow> dgetn d k = PNone"
  by (simp add: dgetn_def)

lemma dgetn_dset [simp, dict_simps]: "dgetn (dset d k v) j = (if j = k then v else dgetn d j)"
  by (simp add: dgetn_def)

section \<open>Canonical order keeps look-ups\<close>

lemma map_of_filter_key: "map_of d k = map_of (filter (\<lambda>p. fst p = k) d) k"
  by (induction d) auto

lemma map_of_sort_key [simp]: "map_of (sort_key fst d) k = map_of d k"
proof -
  have "filter (\<lambda>p. fst p = k) (sort_key fst d) = filter (\<lambda>p. fst p = k) d"
    by (rule sort_key_stable)
  then show ?thesis
    by (metis map_of_filter_key)
qed

lemma map_of_map_prod: "map_of (map (map_prod id f) d) k = map_option f (map_of d k)"
  by (induction d) auto

lemma map_of_canon_dict [simp, dict_simps]: "map_of (canon_dict d) k = map_option canon (map_of d k)"
  by (simp add: canon_dict_def map_of_map_prod)

lemma canon_PDict [simp]: "canon (PDict d) = PDict (canon_dict d)"
  by (simp add: canon_dict_def)

declare canon.simps(7) [simp del]

lemma mset_keys_canon_dict: "mset (map fst (canon_dict d)) = mset (map fst d)"
proof -
  have "map fst (map (map_prod id canon) d) = map fst d"
    by (induction d) auto
  then show ?thesis
    by (metis canon_dict_def mset_map mset_sort)
qed

lemma keys_canon_dict: "set (map fst (canon_dict d)) = set (map fst d)"
  by (metis mset_keys_canon_dict mset_eq_setD)

lemma distinct_canon_dict [simp]: "distinct (map fst (canon_dict d)) = distinct (map fst d)"
  by (metis mset_keys_canon_dict mset_eq_imp_distinct_iff)

lemma length_canon_dict [simp]: "length (canon_dict d) = length d"
  by (simp add: canon_dict_def)

lemma canon_eq_iff [simp]:
  "canon v = PStr s \<longleftrightarrow> v = PStr s" "canon v = PInt i \<longleftrightarrow> v = PInt i"
  "canon v = PFloat f \<longleftrightarrow> v = PFloat f" "canon v = PBool b \<longleftrightarrow> v = PBool b"
  "canon v = PNone \<longleftrightarrow> v = PNone"
  by (cases v; auto)+

lemma finite_json_PDict: "finite_json (PDict d) \<longleftrightarrow> (\<forall>(k, v) \<in> set d. finite_json v)"
  by (auto simp: list_all_iff)

declare finite_json.simps(7) [simp del]

lemma json_ok_PDict: "json_ok (PDict d) \<longleftrightarrow> (\<forall>(k, v) \<in> set d. json_ok v)"
  by (auto simp: list_all_iff)

declare json_ok.simps(7) [simp del]

lemma finite_json_map_of: "finite_json (PDict d) \<Longrightarrow> map_of d k = Some v \<Longrightarrow> finite_json v"
  by (auto simp: finite_json_PDict dest!: map_of_SomeD)

lemma finite_json_json_ok: "finite_json v \<Longrightarrow> json_ok v"
proof (induction v)
  case (PDict d)
  have "json_ok w" if "(k, w) \<in> set d" for k w
    using PDict.IH [OF that, of w] PDict.prems that by (auto simp: finite_json_PDict)
  then show ?case by (auto simp: json_ok_PDict)
qed (auto simp: list_all_iff)

lemma insort_key_map_prod:
  "insort_key fst (map_prod id f x) (map (map_prod id f) xs) = map (map_prod id f) (insort_key fst x xs)"
  by (induction xs) auto

lemma sort_key_map_prod:
  "sort_key fst (map (map_prod id f) xs) = map (map_prod id f) (sort_key fst xs)"
proof (induction xs)
  case (Cons x xs)
  then show ?case by (simp only: list.map sort_key_simps insort_key_map_prod)
qed simp

lemma sort_key_idem: "sort_key fst (sort_key fst xs) = sort_key fst xs"
  by (simp add: sort_key_id_if_sorted)

lemma py_norm_canon [simp]: "py_norm (canon v) = py_norm v"
proof (induction v)
  case (PDict d)
  have elems: "map (map_prod id py_norm) (map (map_prod id canon) d) = map (map_prod id py_norm) d"
    using PDict.IH by (fastforce intro: snds.intros)
  have "sort_key fst (map (map_prod id py_norm) (sort_key fst (map (map_prod id canon) d))) =
      map (map_prod id py_norm) (sort_key fst (map (map_prod id canon) d))"
    by (simp only: sort_key_map_prod sort_key_idem)
  also have "\<dots> = sort_key fst (map (map_prod id py_norm) d)"
    by (metis elems sort_key_map_prod)
  finally show ?case by (simp add: canon_dict_def)
qed (auto simp: comp_def)

lemma py_eq_canon [simp]: "py_eq (canon v) w = py_eq v w" "py_eq w (canon v) = py_eq w v"
  by (simp_all add: py_eq_def)

lemma py_eq_canon_dict [simp]: "py_eq (PDict (canon_dict d)) w = py_eq (PDict d) w"
  "py_eq w (PDict (canon_dict d)) = py_eq w (PDict d)"
  using py_eq_canon [where v = "PDict d" and w = w] by auto

lemma set_canon_dict: "set (canon_dict d) = map_prod id canon ` set d"
  by (simp add: canon_dict_def)

lemma finite_json_canon [simp]: "finite_json (canon v) = finite_json v"
proof (induction v)
  case (PDict d)
  then have "(k, w) \<in> set d \<Longrightarrow> finite_json (canon w) = finite_json w" for k w
    by (metis snds.intros snd_conv)
  then show ?case by (fastforce simp: finite_json_PDict set_canon_dict)
qed (auto simp: list_all_iff)

lemma json_ok_canon [simp]: "json_ok (canon v) = json_ok v"
proof (induction v)
  case (PDict d)
  then have "(k, w) \<in> set d \<Longrightarrow> json_ok (canon w) = json_ok w" for k w
    by (metis snds.intros snd_conv)
  then show ?case by (fastforce simp: json_ok_PDict set_canon_dict)
qed (auto simp: list_all_iff)

lemma json_ok_canon_dict [simp]: "json_ok (PDict (canon_dict d)) = json_ok (PDict d)"
  using json_ok_canon [of "PDict d"] by simp

lemma finite_json_canon_dict [simp]: "finite_json (PDict (canon_dict d)) = finite_json (PDict d)"
  using finite_json_canon [of "PDict d"] by simp

lemma py_eq_refl [simp]: "py_eq a a"
  by (simp add: py_eq_def)

lemma py_eq_sym: "py_eq a b \<Longrightarrow> py_eq b a"
  by (simp add: py_eq_def)

lemma py_eq_trans: "py_eq a b \<Longrightarrow> py_eq b c \<Longrightarrow> py_eq a c"
  by (simp add: py_eq_def)

text \<open>Dictionaries with the same look-ups are equal values, whatever their key order.\<close>

lemma sorted_dict_unique:
  assumes "distinct (map fst d)" "distinct (map fst e)" "map_of d = map_of e"
  shows "sort_key fst d = sort_key fst e"
proof -
  have "set d = set e"
    using assms by (simp add: map_of_inject_set)
  then have "mset d = mset (sort_key fst e)"
    using assms by (simp add: set_eq_iff_mset_eq_distinct distinct_map)
  moreover have "inj_on fst (set d)"
    using assms(1) by (simp add: distinct_map)
  ultimately show ?thesis
    by (rule sort_key_inj_key_eq) simp
qed

lemma norm_dict_eqI:
  assumes "distinct (map fst d)" "distinct (map fst e)"
    "\<And>k. map_option py_norm (map_of d k) = map_option py_norm (map_of e k)"
  shows "py_norm (PDict d) = py_norm (PDict e)"
proof -
  have "map fst (map (map_prod id py_norm) x) = map fst x" for x :: dict
    by (induction x) auto
  with assms have "sort_key fst (map (map_prod id py_norm) d) = sort_key fst (map (map_prod id py_norm) e)"
    by (intro sorted_dict_unique) (simp_all add: fun_eq_iff map_of_map_prod)
  then show ?thesis by simp
qed

lemma py_eq_lookup:
  assumes "py_eq (PDict d) (PDict e)"
  shows "map_option py_norm (map_of d k) = map_option py_norm (map_of e k)"
proof -
  from assms have "sort_key fst (map (map_prod id py_norm) d) = sort_key fst (map (map_prod id py_norm) e)"
    by (simp add: py_eq_def)
  then have "map_of (map (map_prod id py_norm) d) k = map_of (map (map_prod id py_norm) e) k"
    by (metis map_of_sort_key)
  then show ?thesis by (simp add: map_of_map_prod)
qed

declare py_norm.simps(7) [simp del]

lemma py_eq_PStr [simp]: "py_eq (PStr s) v \<longleftrightarrow> v = PStr s"
  by (cases v) (auto simp: py_eq_def py_norm.simps(7))

lemma py_eq_PInt [simp]: "py_eq (PInt i) (PInt j) \<longleftrightarrow> i = j"
  by (simp add: py_eq_def)

lemma integer_PInt [simp]: "integer (PInt i) m \<longleftrightarrow> m \<le> i"
  by (simp add: integer_def)

lemma int_finite_small: "\<bar>i\<bar> < 2 ^ 64 \<Longrightarrow> int_finite i"
proof -
  assume i: "\<bar>i\<bar> < 2 ^ 64"
  have "(2::int) ^ 1024 - 2 ^ 970 = 2 ^ 970 * (2 ^ 54 - 1)"
    by (simp only: right_diff_distrib power_add [symmetric]) simp
  moreover have "(2::int) ^ 64 \<le> 2 ^ 970 * 1"
    by (simp only: mult_1_right) (rule power_increasing, simp_all)
  moreover have "(2::int) ^ 970 * 1 \<le> 2 ^ 970 * (2 ^ 54 - 1)"
    by (rule mult_left_mono) simp_all
  ultimately show ?thesis
    using i unfolding int_finite_def by linarith
qed

lemma number_PInt_small [simp]: "\<bar>i\<bar> < 2 ^ 64 \<Longrightarrow> number (PInt i)"
  by (simp add: number_def int_finite_small)

lemma number_numeral [simp]: "number (PInt 0)" "number (PInt 1)"
  "numeral k < (2::int) ^ 64 \<Longrightarrow> number (PInt (numeral k))"
  by (rule number_PInt_small, simp)+

lemma number_Fin [simp]: "number (PFloat (Fin r))"
  by (simp add: number_def)

lemma num_of_simps [simp]: "num_of (PInt i) = of_int i" "num_of (PFloat (Fin r)) = r"
  by (simp_all add: num_of_def)

lemma of_simps [simp]: "int_of (PInt i) = i" "str_of (PStr s) = s" "dict_of (PDict d) = d"
  "is_str (PStr s)" "is_int (PInt i)" "is_dict (PDict d)"
  by (simp_all add: int_of_def str_of_def dict_of_def is_str_def is_int_def is_dict_def)

lemma is_str_iff: "is_str v \<longleftrightarrow> (\<exists>s. v = PStr s)"
  by (cases v) (auto simp: is_str_def)

lemma is_int_iff: "is_int v \<longleftrightarrow> (\<exists>i. v = PInt i)"
  by (cases v) (auto simp: is_int_def)

lemma is_dict_iff: "is_dict v \<longleftrightarrow> (\<exists>d. v = PDict d)"
  by (cases v) (auto simp: is_dict_def)

lemma dgetn_canon [simp, dict_simps]: "dgetn (canon_dict d) k = canon (dgetn d k)"
  by (simp add: dgetn_def split: option.splits)

lemma number_canon [simp]: "number (canon v) = number v" "num_of (canon v) = num_of v"
  "integer (canon v) m = integer v m" "is_str (canon v) = is_str v" "str_of (canon v) = str_of v"
  "is_int (canon v) = is_int v" "int_of (canon v) = int_of v"
  by (cases v; simp add: number_def num_of_def integer_def is_str_def str_of_def is_int_def int_of_def)+

lemma canon_canon_dict_lookup: "map_of (canon_dict (canon_dict d)) k = map_option (canon \<circ> canon) (map_of d k)"
  by (simp add: option.map_comp)

lemma integer_iff: "integer v m \<longleftrightarrow> (\<exists>i. v = PInt i \<and> m \<le> i)"
  by (cases v) (auto simp: integer_def)

lemma dgetn_eq_PStr: "dgetn d k = PStr s \<longleftrightarrow> map_of d k = Some (PStr s)"
  by (auto simp: dgetn_def split: option.splits)

lemma dgetn_eq_PInt: "dgetn d k = PInt i \<longleftrightarrow> map_of d k = Some (PInt i)"
  by (auto simp: dgetn_def split: option.splits)

lemma dgetn_eq_PDict: "dgetn d k = PDict e \<longleftrightarrow> map_of d k = Some (PDict e)"
  by (auto simp: dgetn_def split: option.splits)

lemmas dgetn_eq = dgetn_eq_PStr dgetn_eq_PInt dgetn_eq_PDict

end
