(* ===== verification/Interfaces.thy ===== *)
theory Interfaces
  imports Prelude
begin

text \<open>
  The contracts that several components share, each as a locale: an epoch that never goes
  back, a receiver that admits an identity at most once, a durable medium that returns what
  was saved last, a store that stays within its capacity. The components interpret them on
  their own operations; what follows from the laws alone is proved here once.
\<close>

section \<open>Runs\<close>

fun run :: "('s \<Rightarrow> 'e \<Rightarrow> 's) \<Rightarrow> 's \<Rightarrow> 'e list \<Rightarrow> 's" where
  "run f s [] = s"
| "run f s (e # es) = run f (f s e) es"

text \<open>The inputs that a receiver with a yes/no answer admits, in order.\<close>

fun admitted :: "('s \<Rightarrow> 'm \<Rightarrow> bool \<times> 's) \<Rightarrow> 's \<Rightarrow> 'm list \<Rightarrow> 'm list" where
  "admitted f s [] = []"
| "admitted f s (m # ms) = (if fst (f s m) then [m] else []) @ admitted f (snd (f s m)) ms"

lemma run_append: "run f s (xs @ ys) = run f (run f s xs) ys"
  by (induction xs arbitrary: s) auto

section \<open>An epoch that never goes back\<close>

locale epoch_register =
  fixes epoch :: "'s \<Rightarrow> int" and step :: "'s \<Rightarrow> 'e \<Rightarrow> 's"
  assumes step_mono: "epoch s \<le> epoch (step s e)"
begin

lemma run_mono: "epoch s \<le> epoch (run step s es)"
proof (induction es arbitrary: s)
  case (Cons e es)
  show ?case
    using step_mono [of s e] Cons.IH [of "step s e"] by simp
qed simp

lemma stale_stays_stale: "g < epoch s \<Longrightarrow> g < epoch (run step s es)"
  using run_mono [of s es] by simp

end

section \<open>A receiver that admits an identity at most once\<close>

locale admit_once =
  fixes seen :: "'s \<Rightarrow> 'i \<Rightarrow> bool" and ident :: "'m \<Rightarrow> 'i" and recv :: "'s \<Rightarrow> 'm \<Rightarrow> bool \<times> 's"
  assumes fresh: "fst (recv s m) \<Longrightarrow> \<not> seen s (ident m)"
    and marks: "fst (recv s m) \<Longrightarrow> seen (snd (recv s m)) (ident m)"
    and keeps: "seen s i \<Longrightarrow> seen (snd (recv s m)) i"
begin

lemma seen_not_admitted: "seen s i \<Longrightarrow> i \<notin> ident ` set (admitted recv s ms)"
proof (induction ms arbitrary: s)
  case (Cons m ms)
  show ?case
    using Cons.IH [OF keeps [OF Cons.prems, of m]] fresh [of s m] Cons.prems by auto
qed simp

lemma distinct_admitted: "distinct (map ident (admitted recv s ms))"
proof (induction ms arbitrary: s)
  case (Cons m ms)
  then show ?case
    using seen_not_admitted [OF marks, of s m ms] by auto
qed simp

lemma run_keeps: "seen s i \<Longrightarrow> seen (run (\<lambda>s m. snd (recv s m)) s ms) i"
  by (induction ms arbitrary: s) (auto intro: keeps)

end

section \<open>A durable medium\<close>

locale durable_medium =
  fixes fetch :: "'d \<Rightarrow> 'n \<Rightarrow> 'w option" and put :: "'d \<Rightarrow> 'n \<times> 'v \<Rightarrow> 'd"
    and image_of :: "'v \<Rightarrow> 'w" and valid :: "'v \<Rightarrow> bool"
  assumes fetch_put: "valid v \<Longrightarrow> fetch (put d (n, v)) n = Some (image_of v)"
    and fetch_other: "n \<noteq> n' \<Longrightarrow> fetch (put d (n', v)) n = fetch d n"
begin

lemma fetch_after_run:
  "\<forall>w \<in> set ws. valid (snd w) \<Longrightarrow> fetch (run put d ws) n =
     (case map_of (rev ws) n of Some v \<Rightarrow> Some (image_of v) | None \<Rightarrow> fetch d n)"
proof (induction ws arbitrary: d)
  case (Cons w ws)
  obtain n' v where w: "w = (n', v)" by force
  with Cons show ?case
    by (cases "n' = n")
      (auto simp: fetch_put fetch_other map_add_def split: option.splits)
qed simp

end

section \<open>A store within its capacity\<close>

locale bounded_store =
  fixes used :: "'s \<Rightarrow> nat" and limit :: "'s \<Rightarrow> nat" and inv :: "'s \<Rightarrow> bool"
    and step :: "'s \<Rightarrow> 'e \<Rightarrow> 's"
  assumes inv_step: "inv s \<Longrightarrow> inv (step s e)"
    and limit_step: "inv s \<Longrightarrow> limit (step s e) = limit s"
    and inv_used: "inv s \<Longrightarrow> used s \<le> limit s"
begin

lemma inv_run: "inv s \<Longrightarrow> inv (run step s es)"
  by (induction es arbitrary: s) (auto intro: inv_step)

lemma limit_run: "inv s \<Longrightarrow> limit (run step s es) = limit s"
  by (induction es arbitrary: s) (auto simp: limit_step inv_step)

lemma used_run: "inv s \<Longrightarrow> used (run step s es) \<le> limit s"
  using inv_used [OF inv_run] limit_run by metis

end

section \<open>A first-in first-out queue\<close>

datatype 'a q_event = EPut 'a real | EGet real

text \<open>What a run puts in, as it is stored, what it takes out, and the final state.\<close>

fun fifo_run :: "('s \<Rightarrow> 'a \<Rightarrow> real \<Rightarrow> 'a option \<times> 's) \<Rightarrow> ('s \<Rightarrow> real \<Rightarrow> 'a option \<times> 's) \<Rightarrow> 's \<Rightarrow> 'a q_event list \<Rightarrow>
    'a list \<times> 'a list \<times> 's" where
  "fifo_run put get s [] = ([], [], s)"
| "fifo_run put get s (EPut x t # es) =
     (let (ins, outs, s') = fifo_run put get (snd (put s x t)) es
      in (case fst (put s x t) of None \<Rightarrow> ins | Some y \<Rightarrow> y # ins, outs, s'))"
| "fifo_run put get s (EGet t # es) =
     (let (ins, outs, s') = fifo_run put get (snd (get s t)) es
      in (ins, case fst (get s t) of None \<Rightarrow> outs | Some x \<Rightarrow> x # outs, s'))"

locale fifo =
  fixes contents :: "'s \<Rightarrow> 'a list" and put :: "'s \<Rightarrow> 'a \<Rightarrow> real \<Rightarrow> 'a option \<times> 's" and get :: "'s \<Rightarrow> real \<Rightarrow> 'a option \<times> 's"
  assumes put_contents: "contents (snd (put s x t)) = contents s @ (case fst (put s x t) of None \<Rightarrow> [] | Some y \<Rightarrow> [y])"
    and get_contents: "contents s = (case fst (get s t) of None \<Rightarrow> [] | Some x \<Rightarrow> [x]) @ contents (snd (get s t))"
begin

lemma in_order: "fifo_run put get s es = (ins, outs, s') \<Longrightarrow> contents s @ ins = outs @ contents s'"
proof (induction es arbitrary: s ins outs)
  case (Cons e es)
  show ?case
  proof (cases e)
    case (EPut x t)
    obtain ins1 outs1 where r: "fifo_run put get (snd (put s x t)) es = (ins1, outs1, s')"
      using Cons.prems EPut by (auto simp: Let_def split: prod.splits)
    then show ?thesis
      using Cons.IH [OF r] Cons.prems EPut put_contents [of s x t] by (auto split: option.splits)
  next
    case (EGet t)
    obtain ins1 outs1 where r: "fifo_run put get (snd (get s t)) es = (ins1, outs1, s')"
      using Cons.prems EGet by (auto simp: Let_def split: prod.splits)
    then show ?thesis
      using Cons.IH [OF r] Cons.prems EGet get_contents [of s t] by (auto split: option.splits)
  qed
qed simp

end

section \<open>A system that keeps an invariant and never goes back\<close>

locale steady =
  fixes inv :: "'s \<Rightarrow> bool" and later :: "'s \<Rightarrow> 's \<Rightarrow> bool" and step :: "'s \<Rightarrow> 'e \<Rightarrow> 's"
  assumes step_inv: "inv s \<Longrightarrow> inv (step s e)" and step_later: "inv s \<Longrightarrow> later s (step s e)"
    and later_refl: "later s s" and later_trans: "later a b \<Longrightarrow> later b c \<Longrightarrow> later a c"
begin

lemma steady_run: "inv s \<Longrightarrow> inv (run step s es) \<and> later s (run step s es)"
proof (induction es arbitrary: s)
  case (Cons e es)
  from Cons.IH [OF step_inv [OF Cons.prems, of e]] step_later [OF Cons.prems, of e] later_trans show ?case
    by auto
qed (simp add: later_refl)

end

end
