(* ===== verification/Config.thy ===== *)
theory Config
  imports Prelude
begin

text \<open>
  The constants of \<^verbatim>\<open>config/software.json\<close> that the modelled code reads through
  \<^verbatim>\<open>common/config.py\<close>: topology, timeouts, safety limits, sensor ranges and the default
  policy. The reading of the file itself is not modelled.
\<close>

definition GATEWAY_PORTS :: "(string \<times> int) list" where
  [model_defs]: "GATEWAY_PORTS = [(''A1'', 9201), (''A2'', 9202)]"

definition PEER_OF :: "(string \<times> string) list" where
  [model_defs]: "PEER_OF = [(''A1'', ''A2''), (''A2'', ''A1'')]"

definition SENSOR_OF :: "(string \<times> string) list" where
  [model_defs]: "SENSOR_OF = [(''A1'', ''B1''), (''A2'', ''B2'')]"

definition CONTROLLER_OF :: "(string \<times> string) list" where
  [model_defs]: "CONTROLLER_OF = [(''A1'', ''C1''), (''A2'', ''C2'')]"

definition CONTROLLER_OF_SENSOR :: "(string \<times> string) list" where
  [model_defs]: "CONTROLLER_OF_SENSOR = [(''B1'', ''C1''), (''B2'', ''C2'')]"

definition GATEWAY_OF_SENSOR :: "(string \<times> string) list" where
  [model_defs]: "GATEWAY_OF_SENSOR = [(''B1'', ''A1''), (''B2'', ''A2'')]"

definition GATEWAY_OF_CONTROLLER :: "(string \<times> string) list" where
  [model_defs]: "GATEWAY_OF_CONTROLLER = [(''C1'', ''A1''), (''C2'', ''A2'')]"

definition gateway_ids :: "string list" where
  [model_defs]: "gateway_ids = map fst GATEWAY_PORTS"

definition COMMAND_TTL :: real where [model_defs]: "COMMAND_TTL = 10"
definition ACK_TIMEOUT :: real where [model_defs]: "ACK_TIMEOUT = 2"
definition NODE_TIMEOUT :: real where [model_defs]: "NODE_TIMEOUT = 15"
definition HEARTBEAT_TIMEOUT :: real where [model_defs]: "HEARTBEAT_TIMEOUT = 10"
definition MAX_RETRIES :: nat where [model_defs]: "MAX_RETRIES = 3"
definition INITIAL_POLICY_VERSION :: int where [model_defs]: "INITIAL_POLICY_VERSION = 1"
definition INITIAL_GENERATION :: int where [model_defs]: "INITIAL_GENERATION = 1"
definition RECENT_COMMAND_CAPACITY :: nat where [model_defs]: "RECENT_COMMAND_CAPACITY = 64"

definition MAX_DURATION :: "(string \<times> real) list" where
  [model_defs]: "MAX_DURATION = [(''IRRIGATION'', 30), (''VENTILATION'', 30)]"

definition COOLDOWN :: "(string \<times> real) list" where
  [model_defs]: "COOLDOWN = [(''IRRIGATION'', 60), (''VENTILATION'', 30)]"

definition SENSOR_RANGES :: "(string \<times> real \<times> real) list" where
  [model_defs]: "SENSOR_RANGES = [(''temperature'', -10, 60), (''humidity'', 0, 100),
     (''soil_moisture'', 0, 100), (''light'', 0, 120000)]"

definition in_sensor_range :: "string \<Rightarrow> real \<Rightarrow> bool" where
  "in_sensor_range field x =
     (case map_of SENSOR_RANGES field of Some (low, high) \<Rightarrow> low \<le> x \<and> x \<le> high | None \<Rightarrow> False)"

definition DEFAULT_POLICY :: dict where
  [model_defs]: "DEFAULT_POLICY =
     [(''soil_moisture_threshold'', PFloat (Fin 25)), (''temperature_threshold'', PFloat (Fin 32)),
      (''irrigation_duration'', PInt 10), (''ventilation_duration'', PInt 5)]"

text \<open>Node roles and health states (\<^verbatim>\<open>ACTIVE\<close>, \<^verbatim>\<open>STANDBY\<close>, \<^verbatim>\<open>ONLINE\<close>, \<dots>).\<close>

datatype gw_role = ACTIVE | STANDBY
datatype health = ONLINE | OFFLINE | UNKNOWN
datatype node_kind = SENSOR | CONTROLLER

fun role_name :: "gw_role \<Rightarrow> string" where
  "role_name ACTIVE = ''ACTIVE''"
| "role_name STANDBY = ''STANDBY''"

fun health_name :: "health \<Rightarrow> string" where
  "health_name ONLINE = ''ONLINE''"
| "health_name OFFLINE = ''OFFLINE''"
| "health_name UNKNOWN = ''UNKNOWN''"

fun kind_name :: "node_kind \<Rightarrow> string" where
  "kind_name SENSOR = ''SENSOR''"
| "kind_name CONTROLLER = ''CONTROLLER''"

lemma role_name_inj [simp]: "role_name a = role_name b \<longleftrightarrow> a = b"
  by (cases a; cases b) auto

lemma kind_name_inj [simp]: "kind_name a = kind_name b \<longleftrightarrow> a = b"
  by (cases a; cases b) auto

lemma pairs_of_sensor: "(s, c) \<in> set CONTROLLER_OF_SENSOR \<longleftrightarrow>
    (s = ''B1'' \<and> c = ''C1'') \<or> (s = ''B2'' \<and> c = ''C2'')"
  by (auto simp: CONTROLLER_OF_SENSOR_def)

end
