(* ===== verification/Messages.thy ===== *)
theory Messages
  imports Prelude Config
begin

text \<open>
  \<^verbatim>\<open>common/messages.py\<close>: the envelope that every node speaks, its validation
  (\<^verbatim>\<open>Message.from_dict\<close>), its dictionary form and the two reply constructors. The JSON
  text and the TCP framing around the dictionary are not modelled; a value of type
  \<^typ>\<open>pyval\<close> stands for what \<^verbatim>\<open>json.loads\<close> returned.
\<close>

section \<open>The envelope\<close>

datatype msg_type =
    SENSOR_DATA | CONTROL_COMMAND | CONTROL_RESULT | HEARTBEAT | ALERT | SERVER_POLICY
  | NODE_REGISTER | NODE_REGISTER_ACK | NODE_STATUS | ACK | PERSISTED_ACK

definition MESSAGE_TYPES :: "msg_type list" where
  "MESSAGE_TYPES = [SENSOR_DATA, CONTROL_COMMAND, CONTROL_RESULT, HEARTBEAT, ALERT, SERVER_POLICY,
     NODE_REGISTER, NODE_REGISTER_ACK, NODE_STATUS, ACK, PERSISTED_ACK]"

fun type_name :: "msg_type \<Rightarrow> string" where
  "type_name SENSOR_DATA = ''SENSOR_DATA''"
| "type_name CONTROL_COMMAND = ''CONTROL_COMMAND''"
| "type_name CONTROL_RESULT = ''CONTROL_RESULT''"
| "type_name HEARTBEAT = ''HEARTBEAT''"
| "type_name ALERT = ''ALERT''"
| "type_name SERVER_POLICY = ''SERVER_POLICY''"
| "type_name NODE_REGISTER = ''NODE_REGISTER''"
| "type_name NODE_REGISTER_ACK = ''NODE_REGISTER_ACK''"
| "type_name NODE_STATUS = ''NODE_STATUS''"
| "type_name ACK = ''ACK''"
| "type_name PERSISTED_ACK = ''PERSISTED_ACK''"

definition type_of_name :: "string \<Rightarrow> msg_type option" where
  "type_of_name s = find (\<lambda>t. type_name t = s) MESSAGE_TYPES"

definition REQUIRED_FIELDS :: "string list" where
  "REQUIRED_FIELDS = [''type'', ''source'', ''target'', ''timestamp'', ''message_id'', ''payload'']"

record message =
  m_type :: msg_type
  m_source :: string
  m_target :: string
  m_payload :: dict
  m_timestamp :: real
  m_id :: string
  m_protocol_version :: "int option"
  m_sequence :: "int option"
  m_attempt :: "int option"
  m_generation :: "int option"

text \<open>The dataclass constructor with its defaults; the clock and the fresh id are inputs.\<close>

definition new_message :: "msg_type \<Rightarrow> string \<Rightarrow> string \<Rightarrow> dict \<Rightarrow> real \<Rightarrow> string \<Rightarrow> message" where
  "new_message t src tgt p now i =
     \<lparr>m_type = t, m_source = src, m_target = tgt, m_payload = p, m_timestamp = now, m_id = i,
      m_protocol_version = None, m_sequence = None, m_attempt = None, m_generation = None\<rparr>"

section \<open>Dictionary form\<close>

definition opt_entry :: "string \<Rightarrow> int option \<Rightarrow> dict" where
  "opt_entry key v = (case v of None \<Rightarrow> [] | Some i \<Rightarrow> [(key, PInt i)])"

definition to_dict :: "message \<Rightarrow> dict" where
  "to_dict m =
     [(''type'', PStr (type_name (m_type m))), (''source'', PStr (m_source m)),
      (''target'', PStr (m_target m)), (''timestamp'', PFloat (Fin (m_timestamp m))),
      (''message_id'', PStr (m_id m)), (''payload'', PDict (m_payload m))]
     @ opt_entry ''protocol_version'' (m_protocol_version m)
     @ opt_entry ''sequence'' (m_sequence m)
     @ opt_entry ''attempt'' (m_attempt m)
     @ opt_entry ''generation'' (m_generation m)"

text \<open>
  The loop over the four optional keys: a present key must be an int (not a bool) of at least
  1 for \<^verbatim>\<open>protocol_version\<close> and \<^verbatim>\<open>attempt\<close>, of at least 0 otherwise, and the version
  must be 1.
\<close>

definition opt_minimum :: "string \<Rightarrow> int" where
  "opt_minimum key = (if key = ''protocol_version'' \<or> key = ''attempt'' then 1 else 0)"

definition opt_field :: "dict \<Rightarrow> string \<Rightarrow> py_error + int option" where
  "opt_field d key =
     (case map_of d key of
        None \<Rightarrow> Inr None
      | Some v \<Rightarrow>
          if \<not> integer v (opt_minimum key) then Inl (MessageErr (''invalid '' @ key))
          else if key = ''protocol_version'' \<and> int_of v \<noteq> 1
            then Inl (MessageErr ''unsupported protocol version'')
          else Inr (Some (int_of v)))"

definition nonempty_str :: "pyval \<Rightarrow> bool" where
  "nonempty_str v = (case v of PStr s \<Rightarrow> s \<noteq> [] | _ \<Rightarrow> False)"

definition from_fields :: "dict \<Rightarrow> msg_type \<Rightarrow> py_error + message" where
  "from_fields d t =
     (if \<not> number (dgetn d ''timestamp'') then Inl (MessageErr ''timestamp must be a number'')
      else if \<not> is_dict (dgetn d ''payload'') then Inl (MessageErr ''payload must be an object'')
      else if \<not> nonempty_str (dgetn d ''source'') then Inl (MessageErr ''source must be a non-empty string'')
      else if \<not> nonempty_str (dgetn d ''target'') then Inl (MessageErr ''target must be a non-empty string'')
      else if \<not> nonempty_str (dgetn d ''message_id'')
        then Inl (MessageErr ''message_id must be a non-empty string'')
      else case opt_field d ''protocol_version'' of Inl e \<Rightarrow> Inl e | Inr pv \<Rightarrow>
           case opt_field d ''sequence'' of Inl e \<Rightarrow> Inl e | Inr sq \<Rightarrow>
           case opt_field d ''attempt'' of Inl e \<Rightarrow> Inl e | Inr att \<Rightarrow>
           case opt_field d ''generation'' of Inl e \<Rightarrow> Inl e | Inr gen \<Rightarrow>
             if \<not> finite_json (dgetn d ''payload'')
             then Inl (MessageErr ''payload contains nonfinite number'')
             else Inr \<lparr>m_type = t, m_source = str_of (dgetn d ''source''),
                    m_target = str_of (dgetn d ''target''), m_payload = dict_of (dgetn d ''payload''),
                    m_timestamp = num_of (dgetn d ''timestamp''),
                    m_id = str_of (dgetn d ''message_id''),
                    m_protocol_version = pv, m_sequence = sq, m_attempt = att, m_generation = gen\<rparr>)"

definition from_dict :: "pyval \<Rightarrow> py_error + message" where
  "from_dict data =
     (case data of
        PDict d \<Rightarrow>
          if \<exists>name \<in> set REQUIRED_FIELDS. map_of d name = None
            then Inl (MessageErr ''missing required field(s)'')
          else (case dgetn d ''type'' of
              PStr s \<Rightarrow> (case type_of_name s of
                  None \<Rightarrow> Inl (MessageErr ''unknown message type'')
                | Some t \<Rightarrow> from_fields d t)
            | _ \<Rightarrow> Inl (MessageErr ''unknown message type''))
      | _ \<Rightarrow> Inl (MessageErr ''message must be a JSON object''))"

section \<open>Replies\<close>

definition reply :: "message \<Rightarrow> msg_type \<Rightarrow> dict \<Rightarrow> real \<Rightarrow> string \<Rightarrow> message" where
  "reply m t p now i = new_message t (m_target m) (m_source m) p now i"

text \<open>\<^verbatim>\<open>source or self.target\<close>: an absent or empty source falls back to the target.\<close>

definition ack :: "message \<Rightarrow> string option \<Rightarrow> real \<Rightarrow> string \<Rightarrow> message" where
  "ack m src now i =
     new_message ACK (case src of Some s \<Rightarrow> if s = [] then m_target m else s | None \<Rightarrow> m_target m)
       (m_source m) [(''ack_message_id'', PStr (m_id m))] now i"

section \<open>Well-formed envelopes\<close>

definition wf_opt :: "int \<Rightarrow> int option \<Rightarrow> bool" where
  "wf_opt lo v = (case v of None \<Rightarrow> True | Some i \<Rightarrow> lo \<le> i)"

definition wf_message :: "message \<Rightarrow> bool" where
  "wf_message m \<longleftrightarrow> m_source m \<noteq> [] \<and> m_target m \<noteq> [] \<and> m_id m \<noteq> [] \<and>
     finite_json (PDict (m_payload m)) \<and>
     m_protocol_version m \<in> {None, Some 1} \<and> wf_opt 0 (m_sequence m) \<and>
     wf_opt 1 (m_attempt m) \<and> wf_opt 0 (m_generation m)"

lemma type_of_name_name [simp]: "type_of_name (type_name t) = Some t"
  by (cases t) (simp_all add: type_of_name_def MESSAGE_TYPES_def)

lemma type_of_nameD: "type_of_name s = Some t \<Longrightarrow> type_name t = s"
  by (auto simp: type_of_name_def find_Some_iff)

lemma map_of_opt_entry: "map_of (opt_entry key v) k = (if k = key then map_option PInt v else None)"
  by (simp add: opt_entry_def split: option.splits)

lemma map_of_to_dict [simp]:
  "map_of (to_dict m) ''type'' = Some (PStr (type_name (m_type m)))"
  "map_of (to_dict m) ''source'' = Some (PStr (m_source m))"
  "map_of (to_dict m) ''target'' = Some (PStr (m_target m))"
  "map_of (to_dict m) ''timestamp'' = Some (PFloat (Fin (m_timestamp m)))"
  "map_of (to_dict m) ''message_id'' = Some (PStr (m_id m))"
  "map_of (to_dict m) ''payload'' = Some (PDict (m_payload m))"
  "map_of (to_dict m) ''protocol_version'' = map_option PInt (m_protocol_version m)"
  "map_of (to_dict m) ''sequence'' = map_option PInt (m_sequence m)"
  "map_of (to_dict m) ''attempt'' = map_option PInt (m_attempt m)"
  "map_of (to_dict m) ''generation'' = map_option PInt (m_generation m)"
  by (auto simp: to_dict_def map_add_def map_of_opt_entry split: option.splits)

text \<open>
  What validation makes of any dictionary with the look-ups of a well-formed message: the
  order of the keys does not matter, so it applies to the canonical JSON order as well.
\<close>

lemma from_dict_lookups:
  assumes wf: "wf_message m"
    and look: "\<And>k. map_of d k = map_option f (map_of (to_dict m) k)"
    and f: "\<And>s. f (PStr s) = PStr s" "\<And>i. f (PInt i) = PInt i" "\<And>x. f (PFloat x) = PFloat x"
      "f (PDict (m_payload m)) = PDict p" "finite_json (PDict p)"
  shows "from_dict (PDict d) = Inr (m\<lparr>m_payload := p\<rparr>)"
proof -
  have req: "\<not> (\<exists>name \<in> set REQUIRED_FIELDS. map_of d name = None)"
    by (simp add: REQUIRED_FIELDS_def look)
  have opts: "opt_field d ''protocol_version'' = Inr (m_protocol_version m)"
    "opt_field d ''sequence'' = Inr (m_sequence m)" "opt_field d ''attempt'' = Inr (m_attempt m)"
    "opt_field d ''generation'' = Inr (m_generation m)"
    using wf by (auto simp: opt_field_def look f wf_message_def wf_opt_def opt_minimum_def
        split: option.splits)
  have vals: "dgetn d ''type'' = PStr (type_name (m_type m))" "dgetn d ''source'' = PStr (m_source m)"
    "dgetn d ''target'' = PStr (m_target m)" "dgetn d ''timestamp'' = PFloat (Fin (m_timestamp m))"
    "dgetn d ''message_id'' = PStr (m_id m)" "dgetn d ''payload'' = PDict p"
    by (simp_all add: dgetn_def look f)
  show ?thesis
    using wf f(5) req by (simp add: from_dict_def from_fields_def vals opts nonempty_str_def wf_message_def)
qed

lemma from_to_dict: "wf_message m \<Longrightarrow> from_dict (PDict (to_dict m)) = Inr m"
  using from_dict_lookups [of m "to_dict m" "\<lambda>v. v" "m_payload m"]
  by (simp add: wf_message_def option.map_ident)

lemma from_canon_to_dict:
  assumes "wf_message m"
  shows "from_dict (canon (PDict (to_dict m))) = Inr (m\<lparr>m_payload := canon_dict (m_payload m)\<rparr>)"
  using assms from_dict_lookups [of m "canon_dict (to_dict m)" canon "canon_dict (m_payload m)"]
  by (simp add: wf_message_def)

lemma nonempty_str_iff: "nonempty_str v \<longleftrightarrow> (\<exists>s. v = PStr s \<and> s \<noteq> [])"
  by (cases v) (auto simp: nonempty_str_def)

lemma opt_field_wf:
  "opt_field d key = Inr v \<Longrightarrow> wf_opt (opt_minimum key) v \<and> (key = ''protocol_version'' \<longrightarrow> v \<in> {None, Some 1})"
  by (auto simp: opt_field_def wf_opt_def integer_iff split: option.splits if_splits)

text \<open>What a successful validation read from the dictionary.\<close>

lemma from_fieldsD:
  assumes "from_fields d t = Inr m"
  shows "wf_message m" "m_type m = t" "map_of d ''message_id'' = Some (PStr (m_id m))"
    "map_of d ''source'' = Some (PStr (m_source m))" "map_of d ''target'' = Some (PStr (m_target m))"
    "map_of d ''payload'' = Some (PDict (m_payload m))"
proof -
  from assms obtain p s g i pv sq att gen
    where look: "dgetn d ''payload'' = PDict p" "dgetn d ''source'' = PStr s" "s \<noteq> []"
      "dgetn d ''target'' = PStr g" "g \<noteq> []" "dgetn d ''message_id'' = PStr i" "i \<noteq> []"
      and opts: "opt_field d ''protocol_version'' = Inr pv" "opt_field d ''sequence'' = Inr sq"
      "opt_field d ''attempt'' = Inr att" "opt_field d ''generation'' = Inr gen"
      and fin: "finite_json (PDict p)"
      and m: "m = \<lparr>m_type = t, m_source = s, m_target = g, m_payload = p,
        m_timestamp = num_of (dgetn d ''timestamp''), m_id = i,
        m_protocol_version = pv, m_sequence = sq, m_attempt = att, m_generation = gen\<rparr>"
    unfolding from_fields_def
    by (auto simp: is_dict_iff nonempty_str_iff
        split: if_splits sum.splits)
  show "wf_message m"
    using look fin opts [THEN opt_field_wf]
    by (auto simp: m wf_message_def opt_minimum_def)
  show "m_type m = t" "map_of d ''message_id'' = Some (PStr (m_id m))"
    "map_of d ''source'' = Some (PStr (m_source m))" "map_of d ''target'' = Some (PStr (m_target m))"
    "map_of d ''payload'' = Some (PDict (m_payload m))"
    using look by (simp_all add: m dgetn_eq)
qed

lemma from_dictD:
  assumes "from_dict v = Inr m"
  obtains d where "v = PDict d" "from_fields d (m_type m) = Inr m"
    "dgetn d ''type'' = PStr (type_name (m_type m))"
  using assms unfolding from_dict_def
  by (auto split: pyval.splits if_splits option.splits dest!: type_of_nameD dest: from_fieldsD(2))

lemma from_dict_wf: "from_dict v = Inr m \<Longrightarrow> wf_message m"
  by (erule from_dictD) (rule from_fieldsD(1))

lemma from_dict_lookup:
  assumes "from_dict (PDict d) = Inr m"
  shows "map_of d ''message_id'' = Some (PStr (m_id m))" "map_of d ''source'' = Some (PStr (m_source m))"
    "map_of d ''payload'' = Some (PDict (m_payload m))" "map_of d ''type'' = Some (PStr (type_name (m_type m)))"
  using assms by (auto elim!: from_dictD simp: dgetn_eq dest: from_fieldsD)

text \<open>Validation does not depend on the key order: it commutes with the canonical form.\<close>

lemma opt_field_canon: "opt_field (canon_dict d) key = opt_field d key"
proof (cases "map_of d key")
  case (Some v)
  then show ?thesis
    by (cases v) (simp_all add: opt_field_def integer_def)
qed (simp add: opt_field_def)

lemma from_dict_canon:
  assumes "from_dict (PDict d) = Inr m"
  shows "from_dict (PDict (canon_dict d)) = Inr (m\<lparr>m_payload := canon_dict (m_payload m)\<rparr>)"
proof -
  have req: "\<not> (\<exists>name \<in> set REQUIRED_FIELDS. map_of d name = None)"
    using assms unfolding from_dict_def by (simp split: if_splits)
  have ty: "dgetn d ''type'' = PStr (type_name (m_type m))" and ff: "from_fields d (m_type m) = Inr m"
    using assms by (auto elim!: from_dictD)
  have "from_fields (canon_dict d) (m_type m) = Inr (m\<lparr>m_payload := canon_dict (m_payload m)\<rparr>)"
    using ff unfolding from_fields_def dgetn_canon number_canon opt_field_canon
    by (cases m) (auto simp: is_dict_iff nonempty_str_iff split: if_splits sum.splits)
  with req ty show ?thesis
    by (simp add: from_dict_def)
qed

lemma new_message_simps [simp]:
  "m_type (new_message t s g p n i) = t" "m_source (new_message t s g p n i) = s"
  "m_target (new_message t s g p n i) = g" "m_payload (new_message t s g p n i) = p"
  "m_timestamp (new_message t s g p n i) = n" "m_id (new_message t s g p n i) = i"
  "m_sequence (new_message t s g p n i) = None" "m_generation (new_message t s g p n i) = None"
  by (simp_all add: new_message_def)

lemma wf_new_message:
  "s \<noteq> [] \<Longrightarrow> g \<noteq> [] \<Longrightarrow> i \<noteq> [] \<Longrightarrow> finite_json (PDict p) \<Longrightarrow> wf_message (new_message t s g p n i)"
  by (simp add: wf_message_def new_message_def wf_opt_def)


definition demo_envelope :: dict where
  [model_defs]: "demo_envelope =
     [(''payload'', PDict [(''b'', PInt 1), (''a'', PNone)]), (''type'', PStr ''ALERT''), (''source'', PStr ''B1''),
      (''target'', PStr ''A1''), (''timestamp'', PInt 5), (''message_id'', PStr ''m1''), (''attempt'', PInt 2)]"


end
