(* ===== verification/Protocol.thy ===== *)
theory Protocol
  imports Prelude Interfaces Config Messages
begin

text \<open>
  \<^verbatim>\<open>common/protocol.py\<close>: the sample-order guard and the policy validator
  (\<^const>\<open>number\<close> and \<^const>\<open>integer\<close> of the same file are in the prelude).
\<close>

section \<open>SequenceGuard\<close>

record seq_guard =
  latest :: "string \<times> string \<Rightarrow> int option"

definition seq_guard_init :: seq_guard where
  "seq_guard_init = \<lparr>latest = (\<lambda>_. None)\<rparr>"

definition boot_of :: "message \<Rightarrow> pyval" where
  "boot_of m = dgetd (m_payload m) ''boot_id'' (PStr ''legacy'')"

definition seq_accept :: "seq_guard \<Rightarrow> message \<Rightarrow> bool \<times> seq_guard" where
  "seq_accept g m =
     (case m_sequence m of
        None \<Rightarrow> (True, g)
      | Some sq \<Rightarrow>
          if \<not> nonempty_str (boot_of m) then (False, g)
          else let key = (m_source m, str_of (boot_of m));
                   previous = (case latest g key of None \<Rightarrow> -1 | Some p \<Rightarrow> p)
               in if sq \<le> previous then (False, g)
                  else (True, g\<lparr>latest := (latest g)(key := Some sq)\<rparr>))"

text \<open>The key and number under which a sequenced message is remembered.\<close>

definition seq_ident :: "message \<Rightarrow> (string \<times> string) \<times> int option" where
  "seq_ident m = ((m_source m, str_of (boot_of m)), m_sequence m)"

definition seq_seen :: "seq_guard \<Rightarrow> (string \<times> string) \<times> int option \<Rightarrow> bool" where
  "seq_seen g i = (case snd i of None \<Rightarrow> False
     | Some sq \<Rightarrow> (case latest g (fst i) of None \<Rightarrow> False | Some p \<Rightarrow> sq \<le> p))"

definition seq_recv :: "seq_guard \<Rightarrow> message \<Rightarrow> bool \<times> seq_guard" where
  "seq_recv g m = (let r = seq_accept g m in (m_sequence m \<noteq> None \<and> fst r, snd r))"

lemma seq_accept_mono:
  "latest g k = Some p \<Longrightarrow> \<exists>q. latest (snd (seq_accept g m)) k = Some q \<and> p \<le> q"
  by (auto simp: seq_accept_def Let_def split: option.splits)

lemma seq_accept_Some:
  assumes "m_sequence m = Some sq" "fst (seq_accept g m)"
  shows "latest (snd (seq_accept g m)) (m_source m, str_of (boot_of m)) = Some sq"
    "latest g (m_source m, str_of (boot_of m)) = Some p \<Longrightarrow> p < sq"
  using assms by (auto simp: seq_accept_def Let_def split: if_splits option.splits)

interpretation seqg: admit_once seq_seen seq_ident seq_recv
proof
  fix g m i
  show "fst (seq_recv g m) \<Longrightarrow> \<not> seq_seen g (seq_ident m)"
    by (auto simp: seq_recv_def seq_seen_def seq_ident_def Let_def dest!: seq_accept_Some(2)
        split: option.splits)
  show "fst (seq_recv g m) \<Longrightarrow> seq_seen (snd (seq_recv g m)) (seq_ident m)"
    by (auto simp: seq_recv_def seq_seen_def seq_ident_def Let_def seq_accept_Some)
  show "seq_seen g i \<Longrightarrow> seq_seen (snd (seq_recv g m)) i"
    using seq_accept_mono [of g "fst i" _ m]
    by (fastforce simp: seq_recv_def seq_seen_def Let_def split: option.splits)
qed

text \<open>
  of any sequence of telemetry messages, the sample numbers that the guard accepts for one
  source and boot are pairwise different: a replayed or reordered sample is never fresh again.
\<close>

theorem seq_guard_no_replay:
  "distinct (map seq_ident (admitted seq_recv g ms))"
  by (rule seqg.distinct_admitted)

section \<open>validate_policy\<close>

definition policy_candidate :: "dict \<Rightarrow> dict \<Rightarrow> dict" where
  "policy_candidate payload current =
     dmerge current (filter (\<lambda>p. dhas payload (fst p))
       (map (\<lambda>k. (k, dgetn payload k)) (map fst DEFAULT_POLICY)))"

definition policy_duration_ok :: "dict \<Rightarrow> string \<Rightarrow> string \<Rightarrow> bool" where
  "policy_duration_ok c label key \<longleftrightarrow>
     (case map_of MAX_DURATION label of None \<Rightarrow> False | Some mx \<Rightarrow> num_of (dgetn c key) \<le> mx)"

definition validate_policy :: "dict \<Rightarrow> dict \<Rightarrow> py_error + dict" where
  "validate_policy payload current =
     (let version = dgetn payload ''policy_version'';
          c = policy_candidate payload current
      in if version \<noteq> PNone \<and> \<not> integer version 0 then Inl (MessageErr ''invalid policy_version'')
         else if \<not> list_all (\<lambda>(key, v). number v \<and> 0 < num_of v) c
           then Inl (MessageErr ''invalid policy value'')
         else if \<not> in_sensor_range ''soil_moisture'' (num_of (dgetn c ''soil_moisture_threshold''))
           then Inl (MessageErr ''policy threshold outside range'')
         else if \<not> in_sensor_range ''temperature'' (num_of (dgetn c ''temperature_threshold''))
           then Inl (MessageErr ''policy threshold outside range'')
         else if \<not> policy_duration_ok c ''IRRIGATION'' ''irrigation_duration''
           then Inl (MessageErr ''policy duration exceeds safety'')
         else if \<not> policy_duration_ok c ''VENTILATION'' ''ventilation_duration''
           then Inl (MessageErr ''policy duration exceeds safety'')
         else Inr c)"

text \<open>A policy that satisfies every limit; \<^verbatim>\<open>config.DEFAULT_POLICY\<close> does.\<close>

definition safe_policy :: "dict \<Rightarrow> bool" where
  "safe_policy p \<longleftrightarrow>
     (\<forall>k \<in> set (map fst DEFAULT_POLICY). \<exists>v. map_of p k = Some v \<and> number v \<and> 0 < num_of v) \<and>
     in_sensor_range ''soil_moisture'' (num_of (dgetn p ''soil_moisture_threshold'')) \<and>
     in_sensor_range ''temperature'' (num_of (dgetn p ''temperature_threshold'')) \<and>
     policy_duration_ok p ''IRRIGATION'' ''irrigation_duration'' \<and>
     policy_duration_ok p ''VENTILATION'' ''ventilation_duration''"

lemma safe_default: "safe_policy DEFAULT_POLICY"
proof -
  have "\<forall>k \<in> set (map fst DEFAULT_POLICY). \<exists>v. map_of DEFAULT_POLICY k = Some v \<and> number v \<and> 0 < num_of v"
    by (simp add: DEFAULT_POLICY_def)
  moreover have "in_sensor_range ''soil_moisture'' (num_of (dgetn DEFAULT_POLICY ''soil_moisture_threshold''))"
    "in_sensor_range ''temperature'' (num_of (dgetn DEFAULT_POLICY ''temperature_threshold''))"
    by (simp_all add: DEFAULT_POLICY_def in_sensor_range_def SENSOR_RANGES_def dgetn_def)
  moreover have "policy_duration_ok DEFAULT_POLICY ''IRRIGATION'' ''irrigation_duration''"
    "policy_duration_ok DEFAULT_POLICY ''VENTILATION'' ''ventilation_duration''"
    by (simp_all add: DEFAULT_POLICY_def policy_duration_ok_def MAX_DURATION_def dgetn_def)
  ultimately show ?thesis
    unfolding safe_policy_def by blast
qed

lemma map_of_restricted:
  "map_of (filter (\<lambda>p. Q (fst p)) (map (\<lambda>k. (k, f k)) ks)) k = (if k \<in> set ks \<and> Q k then Some (f k) else None)"
  by (induction ks) auto

lemma map_of_candidate:
  "map_of (policy_candidate payload current) k =
     (if k \<in> set (map fst DEFAULT_POLICY) \<and> dhas payload k then map_of payload k else map_of current k)"
proof -
  let ?upd = "filter (\<lambda>p. dhas payload (fst p)) (map (\<lambda>k. (k, dgetn payload k)) (map fst DEFAULT_POLICY))"
  have "distinct (map fst ?upd)"
    by (simp add: DEFAULT_POLICY_def)
  then have "map_of (policy_candidate payload current) k =
      (case map_of ?upd k of None \<Rightarrow> map_of current k | Some v \<Rightarrow> Some v)"
    unfolding policy_candidate_def by (rule map_of_dmerge_distinct)
  also have "map_of ?upd k = (if k \<in> set (map fst DEFAULT_POLICY) \<and> dhas payload k then Some (dgetn payload k) else None)"
    by (rule map_of_restricted)
  finally show ?thesis
    by (auto simp del: dhas_iff) (auto simp: dhas_iff)
qed

lemma validate_policy_safe:
  assumes ok: "validate_policy payload current = Inr c"
    and total: "set (map fst DEFAULT_POLICY) \<subseteq> set (map fst current)"
  shows "safe_policy c"
proof -
  from ok have c: "c = policy_candidate payload current"
    and all: "list_all (\<lambda>(key, v). number v \<and> 0 < num_of v) c"
    and rest: "in_sensor_range ''soil_moisture'' (num_of (dgetn c ''soil_moisture_threshold''))"
      "in_sensor_range ''temperature'' (num_of (dgetn c ''temperature_threshold''))"
      "policy_duration_ok c ''IRRIGATION'' ''irrigation_duration''"
      "policy_duration_ok c ''VENTILATION'' ''ventilation_duration''"
    by (auto simp: validate_policy_def Let_def split: if_splits)
  have "\<exists>v. map_of c k = Some v \<and> number v \<and> 0 < num_of v" if k: "k \<in> set (map fst DEFAULT_POLICY)" for k
  proof -
    from k total have "map_of current k \<noteq> None"
      by (auto simp: map_of_eq_None_iff)
    with k obtain v where "map_of c k = Some v"
      unfolding c map_of_candidate dhas_iff by (metis not_None_eq)
    moreover from this all have "number v \<and> 0 < num_of v"
      by (auto simp: list_all_iff dest!: map_of_SomeD)
    ultimately show ?thesis by blast
  qed
  with rest show ?thesis by (simp add: safe_policy_def)
qed

lemma safe_policy_keys: "safe_policy p \<Longrightarrow> set (map fst DEFAULT_POLICY) \<subseteq> set (map fst p)"
  by (auto simp: safe_policy_def DEFAULT_POLICY_def dest: map_of_SomeD intro: rev_image_eqI)

end
