(* ===== verification/Checkpoint.thy ===== *)
theory Checkpoint
  imports Prelude Interfaces
begin

text \<open>
  \<^verbatim>\<open>common/state_store.py\<close>: two slots per namespace in one SQLite table, a checksum per
  row, atomic transactions. The text of a value is \<open>JText v\<close>, up to insignificant
  white space; any other text is \<open>Junk\<close>. The checksum function (SHA-256 over the text) is
  the field \<open>st_digest\<close>: nothing is assumed of it but that it is a function. Whether a
  storage call succeeds is an input \<open>io\<close>; a call that fails leaves the table as it was
  (SQLite's documented atomicity).
\<close>

datatype jtext = JText pyval | Junk string

record row =
  r_raw :: jtext
  r_checksum :: string
  r_updated :: real

record store =
  st_digest :: "jtext \<Rightarrow> string"
  st_rows :: "string \<times> nat \<Rightarrow> row option"

definition store_init :: "(jtext \<Rightarrow> string) \<Rightarrow> store" where
  "store_init h = \<lparr>st_digest = h, st_rows = (\<lambda>_. None)\<rparr>"

definition dumps :: "pyval \<Rightarrow> py_error + jtext" where
  "dumps v = (if json_ok v then Inr (JText (canon v))
     else Inl (ValueErr ''Out of range float values are not JSON compliant''))"

definition loads :: "jtext \<Rightarrow> py_error + pyval" where
  "loads t = (case t of JText v \<Rightarrow> Inr v | Junk _ \<Rightarrow> Inl (ValueErr ''invalid JSON''))"

section \<open>load\<close>

text \<open>
  The validator returns whether it accepts; a rejection is the \<^verbatim>\<open>ValueError\<close>,
  \<^verbatim>\<open>TypeError\<close>, \<^verbatim>\<open>KeyError\<close> or \<^verbatim>\<open>OverflowError\<close> that \<^verbatim>\<open>load\<close> skips a row for.
\<close>

definition row_value :: "store \<Rightarrow> (pyval \<Rightarrow> bool) \<Rightarrow> row \<Rightarrow> pyval option" where
  "row_value st validator r =
     (if r_checksum r \<noteq> st_digest st (r_raw r) then None
      else case loads (r_raw r) of Inl _ \<Rightarrow> None
        | Inr v \<Rightarrow> if validator v then Some v else None)"

definition load :: "store \<Rightarrow> string \<Rightarrow> (pyval \<Rightarrow> bool) \<Rightarrow> bool \<Rightarrow> bool \<Rightarrow> py_error + pyval option" where
  "load st ns validator allow_previous io =
     (if \<not> io then Inl StorageErr
      else let slot = (\<lambda>n. st_rows st (ns, n));
               slots = (if allow_previous then [0, 1] else [0]);
               candidates = List.map_filter slot slots
           in if slot 0 = None \<and> slot 1 = None then Inr None
              else case List.map_filter (row_value st validator) candidates of
                  v # _ \<Rightarrow> Inr (Some v)
                | [] \<Rightarrow> Inl (StateErr ''no valid checkpoint''))"

section \<open>save\<close>

definition save :: "store \<Rightarrow> string \<Rightarrow> pyval \<Rightarrow> real \<Rightarrow> bool \<Rightarrow> py_error + store" where
  "save st ns value now io =
     (case dumps value of
        Inl e \<Rightarrow> Inl e
      | Inr raw \<Rightarrow>
          if \<not> io then Inl StorageErr
          else let current = st_rows st (ns, 0);
                   fresh = \<lparr>r_raw = raw, r_checksum = st_digest st raw, r_updated = now\<rparr>
               in case current of
                    None \<Rightarrow> Inr (st\<lparr>st_rows := (st_rows st)((ns, 0) := Some fresh)\<rparr>)
                  | Some c \<Rightarrow>
                      if r_raw c = raw \<and> r_checksum c = st_digest st raw then Inr st
                      else let rows = (if st_digest st (r_raw c) = r_checksum c
                                       then (st_rows st)((ns, 1) := Some c) else st_rows st)
                           in Inr (st\<lparr>st_rows := rows((ns, 0) := Some fresh)\<rparr>))"

lemma save_digest: "save st ns v now io = Inr st' \<Longrightarrow> st_digest st' = st_digest st"
  by (auto simp: save_def Let_def split: sum.splits if_splits option.splits)

lemma save_slot0:
  assumes "save st ns v now io = Inr st'"
  obtains r where "st_rows st' (ns, 0) = Some r" "r_raw r = JText (canon v)"
    "r_checksum r = st_digest st' (JText (canon v))" "json_ok v"
  using assms
  by (auto simp: save_def dumps_def Let_def split: if_splits option.splits)

lemma save_other: "save st ns v now io = Inr st' \<Longrightarrow> n \<noteq> ns \<Longrightarrow> st_rows st' (n, s) = st_rows st (n, s)"
  by (auto simp: save_def Let_def split: sum.splits if_splits option.splits)

lemma load_other:
  "save st ns v now io = Inr st' \<Longrightarrow> n \<noteq> ns \<Longrightarrow> load st' n vd ap io' = load st n vd ap io'"
  using save_digest [of st ns v now io st'] save_other [of st ns v now io st' n]
  by (simp add: load_def row_value_def [abs_def] cong: if_cong)

lemma load_saved:
  assumes "save st ns v now io = Inr st'" "validator (canon v)"
  shows "load st' ns validator ap True = Inr (Some (canon v))"
  using assms(2)
  by (rule_tac save_slot0 [OF assms(1)])
    (auto simp: load_def Let_def row_value_def loads_def List.map_filter_def)

lemma save_ok: "json_ok v \<Longrightarrow> \<exists>st'. save st ns v now True = Inr st'"
  by (auto simp: save_def dumps_def Let_def split: option.splits)

lemma save_fail: "save st ns v now False = Inl e \<Longrightarrow> e = StorageErr \<or> (\<exists>t. e = ValueErr t)"
  by (auto simp: save_def dumps_def split: if_splits)

lemma save_not_io [simp]: "save st ns v now False \<noteq> Inr st'"
  by (auto simp: save_def split: sum.splits)

text \<open>The store as a durable medium: a value is read back as its canonical form.\<close>

definition read_ns :: "store \<Rightarrow> string \<Rightarrow> pyval option" where
  "read_ns st ns = (case load st ns (\<lambda>_. True) False True of Inr v \<Rightarrow> v | Inl _ \<Rightarrow> None)"

definition put_ns :: "store \<Rightarrow> string \<times> pyval \<times> real \<Rightarrow> store" where
  "put_ns st w = (case save st (fst w) (fst (snd w)) (snd (snd w)) True of
     Inr st' \<Rightarrow> st' | Inl _ \<Rightarrow> st)"

interpretation medium: durable_medium read_ns put_ns "\<lambda>w. canon (fst w)" "\<lambda>w. json_ok (fst w)"
proof
  fix w :: "pyval \<times> real" and st n n'
  assume "json_ok (fst w)"
  then obtain st' where "save st n (fst w) (snd w) True = Inr st'"
    using save_ok by blast
  then show "read_ns (put_ns st (n, w)) n = Some (canon (fst w))"
    by (simp add: put_ns_def read_ns_def load_saved)
next
  fix w :: "pyval \<times> real" and st and n n' :: string
  assume "n \<noteq> n'"
  then show "read_ns (put_ns st (n', w)) n = read_ns st n"
    by (auto simp: put_ns_def read_ns_def load_other split: sum.splits)
qed

text \<open>
  after any sequence of successful saves, a namespace reads back the value saved to it last
  (in canonical key order), or what it held before when the sequence never saved to it.
\<close>

theorem checkpoint_last_save_wins:
  assumes "\<forall>w \<in> set ws. json_ok (fst (snd w))"
  shows "read_ns (run put_ns st ws) ns =
    (case map_of (rev ws) ns of Some w \<Rightarrow> Some (canon (fst w)) | None \<Rightarrow> read_ns st ns)"
  using assms by (rule medium.fetch_after_run)

theorem checkpoint_last_save_wins_witness:
  "read_ns (run put_ns (store_init (\<lambda>_. ''h'')) [(''a'', PInt 1, 0), (''b'', PInt 2, 1), (''a'', PInt 3, 2)]) ''a''
     = Some (PInt 3)"
  by (subst checkpoint_last_save_wins) simp_all

section \<open>Fail closed\<close>

definition slot_good :: "store \<Rightarrow> string \<Rightarrow> bool" where
  "slot_good st ns = (case st_rows st (ns, 0) of None \<Rightarrow> False
     | Some r \<Rightarrow> r_checksum r = st_digest st (r_raw r) \<and> (\<exists>v. r_raw r = JText v))"

lemma load_strict_slot0:
  "load st ns vd False io = Inr (Some v) \<Longrightarrow>
     \<exists>r. st_rows st (ns, 0) = Some r \<and> r_raw r = JText v \<and> r_checksum r = st_digest st (r_raw r) \<and> vd v"
  by (auto simp: load_def Let_def row_value_def loads_def List.map_filter_def
      split: if_splits option.splits list.splits sum.splits jtext.splits)

lemma load_strict_missing:
  "st_rows st (ns, 0) = None \<Longrightarrow> st_rows st (ns, 1) \<noteq> None \<Longrightarrow>
     load st ns vd False True = Inl (StateErr ''no valid checkpoint'')"
  by (auto simp: load_def Let_def List.map_filter_def)

lemma save_previous:
  assumes "save st ns v now io = Inr st'" "st_rows st (ns, 0) = Some c"
    "r_raw c \<noteq> JText (canon v)" "st_digest st (r_raw c) = r_checksum c"
  shows "st_rows st' (ns, 1) = Some c"
  using assms by (auto simp: save_def dumps_def Let_def split: if_splits)

text \<open>
  a strict load (every namespace but the policy) answers from slot 0 or not at all. When
  slot 0 is lost or its checksum, text or content is bad while the previous slot still holds a
  row, it reports the error instead of promoting the older checkpoint.
\<close>

theorem strict_load_never_promotes_previous:
  "(load st ns vd False io = Inr (Some v) \<longrightarrow>
      (\<exists>r. st_rows st (ns, 0) = Some r \<and> r_raw r = JText v \<and> r_checksum r = st_digest st (r_raw r) \<and> vd v))
   \<and> (st_rows st (ns, 0) = None \<and> st_rows st (ns, 1) \<noteq> None \<longrightarrow>
        load st ns vd False True = Inl (StateErr ''no valid checkpoint''))"
  using load_strict_slot0 load_strict_missing by blast

text \<open>
  the policy namespace recovers: after two saves of different values, damaging the current
  row in any way that breaks its checksum makes a load that allows the previous slot return the
  value saved before, and the strict load fails.
\<close>

theorem policy_load_recovers_previous:
  assumes s1: "save st ns v1 t1 True = Inr st1" and s2: "save st1 ns v2 t2 True = Inr st2"
    and ne: "canon v1 \<noteq> canon v2" and ok: "vd (canon v1)"
    and bad: "r_checksum junk \<noteq> st_digest st2 (r_raw junk)"
  defines "damaged \<equiv> st2\<lparr>st_rows := (st_rows st2)((ns, 0) := Some junk)\<rparr>"
  shows "load damaged ns vd True True = Inr (Some (canon v1))
    \<and> load damaged ns vd False True = Inl (StateErr ''no valid checkpoint'')"
proof -
  obtain r where r: "st_rows st1 (ns, 0) = Some r" "r_raw r = JText (canon v1)"
    "r_checksum r = st_digest st1 (JText (canon v1))"
    by (rule save_slot0 [OF s1])
  have prev: "st_rows st2 (ns, 1) = Some r"
    using save_previous [OF s2 r(1)] r ne by simp
  show ?thesis
    using r prev ok bad save_digest [OF s2]
    by (simp add: damaged_def load_def Let_def List.map_filter_def row_value_def loads_def)
qed

definition demo_hash :: "jtext \<Rightarrow> string" where
  "demo_hash t = (case t of JText (PInt i) \<Rightarrow> if i = 1 then ''one'' else ''two'' | _ \<Rightarrow> ''junk'')"

theorem policy_load_recovers_previous_witness:
  "\<exists>st1 st2 junk. save (store_init demo_hash) ''policy'' (PInt 1) 0 True = Inr st1 \<and>
     save st1 ''policy'' (PInt 2) 1 True = Inr st2 \<and>
     load (st2\<lparr>st_rows := (st_rows st2)((''policy'', 0) := Some junk)\<rparr>) ''policy'' (\<lambda>_. True) True True
       = Inr (Some (PInt 1))"
proof -
  obtain st1 where s1: "save (store_init demo_hash) ''policy'' (PInt 1) 0 True = Inr st1"
    using save_ok [of "PInt 1" "store_init demo_hash" "''policy''" 0] by auto
  obtain st2 where s2: "save st1 ''policy'' (PInt 2) 1 True = Inr st2"
    using save_ok [of "PInt 2" st1 "''policy''" 1] by auto
  let ?junk = "\<lparr>r_raw = Junk ''x'', r_checksum = ''bad'', r_updated = 5\<rparr>"
  have "st_digest st2 = demo_hash"
    using save_digest [OF s1] save_digest [OF s2] by (simp add: store_init_def)
  then have "load (st2\<lparr>st_rows := (st_rows st2)((''policy'', 0) := Some ?junk)\<rparr>) ''policy'' (\<lambda>_. True) True True
      = Inr (Some (PInt 1))"
    using policy_load_recovers_previous [OF s1 s2, of "\<lambda>_. True" ?junk] by (simp add: demo_hash_def)
  with s1 s2 show ?thesis by blast
qed

theorem strict_load_never_promotes_previous_witness:
  "\<exists>st r. st_rows st (''ownership'', 1) = Some r \<and>
     load st ''ownership'' (\<lambda>_. True) False True = Inl (StateErr ''no valid checkpoint'')"
proof -
  define r where "r = \<lparr>r_raw = JText (PInt 1), r_checksum = ''one'', r_updated = 0\<rparr>"
  define st where "st = (store_init demo_hash)\<lparr>st_rows := (\<lambda>_. None)((''ownership'', 1) := Some r)\<rparr>"
  have "st_rows st (''ownership'', 0) = None \<and> st_rows st (''ownership'', 1) \<noteq> None"
    by (simp add: st_def)
  with strict_load_never_promotes_previous [of st "''ownership''" "\<lambda>_. True" True PNone]
  have "load st ''ownership'' (\<lambda>_. True) False True = Inl (StateErr ''no valid checkpoint'')"
    by blast
  moreover have "st_rows st (''ownership'', 1) = Some r"
    by (simp add: st_def)
  ultimately show ?thesis by blast
qed

end
