(* ===== verification/Reliability.thy ===== *)
theory Reliability
  imports Prelude Interfaces Config Messages
begin

text \<open>
  \<^verbatim>\<open>common/reliability.py\<close>: the tracker of unacknowledged commands with its retry budget,
  the named counters, and the bookkeeping that keeps receipt and execution outcome apart.
  Clock readings are inputs. A message object shared between the tracker and a queue is
  modelled by value: where the code re-sends the object it has just marked, the model re-sends
  the tracker's copy.
\<close>

section \<open>AckTracker\<close>

record pending_message =
  pm_message :: message
  pm_attempts :: nat
  pm_retries :: nat
  pm_expires :: real

record ack_tracker =
  at_timeout :: real
  at_max_retries :: nat
  at_pending :: "(string \<times> pending_message) list"

definition ack_tracker_init :: "real \<Rightarrow> nat \<Rightarrow> ack_tracker" where
  "ack_tracker_init timeout retries =
     \<lparr>at_timeout = timeout, at_max_retries = retries, at_pending = []\<rparr>"

definition track :: "ack_tracker \<Rightarrow> message \<Rightarrow> real \<Rightarrow> ack_tracker" where
  "track t m now = t\<lparr>at_pending := dset (at_pending t) (m_id m)
     \<lparr>pm_message = m, pm_attempts = 1, pm_retries = 0, pm_expires = now + at_timeout t\<rparr>\<rparr>"

definition acknowledge :: "ack_tracker \<Rightarrow> string \<Rightarrow> bool \<times> ack_tracker" where
  "acknowledge t i = (dhas (at_pending t) i, t\<lparr>at_pending := ddel (at_pending t) i\<rparr>)"

definition discard :: "ack_tracker \<Rightarrow> string \<Rightarrow> ack_tracker" where
  "discard t i = t\<lparr>at_pending := ddel (at_pending t) i\<rparr>"

definition due :: "ack_tracker \<Rightarrow> real \<Rightarrow> message list" where
  "due t now = map (pm_message \<circ> snd)
     (filter (\<lambda>e. pm_expires (snd e) \<le> now \<and> pm_retries (snd e) < at_max_retries t) (at_pending t))"

text \<open>The entry after one more retransmission: counters, attempt stamp and a new deadline.\<close>

definition renewed :: "real \<Rightarrow> pending_message \<Rightarrow> pending_message" where
  "renewed expires p =
     (let r = Suc (pm_retries p)
      in \<lparr>pm_message = (pm_message p)\<lparr>m_attempt := Some (int r + 1)\<rparr>,
          pm_attempts = Suc (pm_attempts p), pm_retries = r, pm_expires = expires\<rparr>)"

definition mark_retry :: "ack_tracker \<Rightarrow> string \<Rightarrow> real \<Rightarrow> ack_tracker" where
  "mark_retry t i now =
     (case map_of (at_pending t) i of
        None \<Rightarrow> t
      | Some p \<Rightarrow> t\<lparr>at_pending := dset (at_pending t) i (renewed (now + at_timeout t) p)\<rparr>)"

definition exhausted :: "ack_tracker \<Rightarrow> real \<Rightarrow> message list" where
  "exhausted t now = map (pm_message \<circ> snd)
     (filter (\<lambda>e. pm_expires (snd e) \<le> now \<and> at_max_retries t \<le> pm_retries (snd e)) (at_pending t))"

text \<open>The keys of the tracker are the ids of the messages it holds.\<close>

definition tracker_inv :: "ack_tracker \<Rightarrow> bool" where
  "tracker_inv t \<longleftrightarrow> distinct (map fst (at_pending t)) \<and>
     (\<forall>(i, p) \<in> set (at_pending t). m_id (pm_message p) = i \<and> pm_retries p \<le> at_max_retries t \<and>
        pm_attempts p = Suc (pm_retries p))"

lemma tracker_inv_init: "tracker_inv (ack_tracker_init a n)"
  by (simp add: tracker_inv_def ack_tracker_init_def)

lemma tracker_inv_track: "tracker_inv t \<Longrightarrow> tracker_inv (track t m now)"
  by (auto simp: tracker_inv_def track_def set_dset)

lemma tracker_inv_discard: "tracker_inv t \<Longrightarrow> tracker_inv (discard t i)"
  by (auto simp: tracker_inv_def discard_def set_ddel)

lemma tracker_inv_acknowledge: "tracker_inv t \<Longrightarrow> tracker_inv (snd (acknowledge t i))"
  by (auto simp: tracker_inv_def acknowledge_def set_ddel)

lemma tracker_inv_mark_retry:
  assumes "tracker_inv t" and "\<And>p. map_of (at_pending t) i = Some p \<Longrightarrow> pm_retries p < at_max_retries t"
  shows "tracker_inv (mark_retry t i now)"
proof (cases "map_of (at_pending t) i")
  case (Some p)
  have "m_id (pm_message p) = i" "pm_attempts p = Suc (pm_retries p)"
    using assms(1) map_of_SomeD [OF Some] by (auto simp: tracker_inv_def)
  with assms Some show ?thesis
    by (auto simp: tracker_inv_def mark_retry_def renewed_def Let_def set_dset)
qed (simp add: mark_retry_def assms)

text \<open>One pass of the retry scan over the messages that are due: mark each and re-send it.\<close>

definition retry_scan :: "ack_tracker \<Rightarrow> real \<Rightarrow> ack_tracker" where
  "retry_scan t now = fold (\<lambda>m t. mark_retry t (m_id m) now) (due t now) t"

lemma mark_retry_other: "j \<noteq> i \<Longrightarrow> map_of (at_pending (mark_retry t i now)) j = map_of (at_pending t) j"
  by (simp add: mark_retry_def split: option.splits)

lemma mark_retry_same:
  "map_of (at_pending (mark_retry t i now)) i = map_option (renewed (now + at_timeout t)) (map_of (at_pending t) i)"
  by (simp add: mark_retry_def split: option.splits)

lemma mark_retry_params [simp]: "at_max_retries (mark_retry t i now) = at_max_retries t"
  "at_timeout (mark_retry t i now) = at_timeout t"
  by (simp_all add: mark_retry_def split: option.splits)

lemma fold_mark_other:
  "i \<notin> m_id ` set ms \<Longrightarrow> map_of (at_pending (fold (\<lambda>m t. mark_retry t (m_id m) now) ms t)) i = map_of (at_pending t) i"
  by (induction ms arbitrary: t) (auto simp: mark_retry_other)

lemma fold_mark_params [simp]:
  "at_max_retries (fold (\<lambda>m t. mark_retry t (m_id m) now) ms t) = at_max_retries t"
  "at_timeout (fold (\<lambda>m t. mark_retry t (m_id m) now) ms t) = at_timeout t"
  by (induction ms arbitrary: t) auto

lemma due_ids: "tracker_inv t \<Longrightarrow> distinct (map m_id (due t now))"
proof -
  assume inv: "tracker_inv t"
  have "map m_id (due t now) =
      map fst (filter (\<lambda>e. pm_expires (snd e) \<le> now \<and> pm_retries (snd e) < at_max_retries t) (at_pending t))"
    using inv by (auto simp: due_def tracker_inv_def intro!: map_cong)
  then show ?thesis
    using inv by (simp add: tracker_inv_def distinct_map_filter)
qed

lemma due_iff:
  assumes "tracker_inv t" "map_of (at_pending t) i = Some p"
  shows "i \<in> m_id ` set (due t now) \<longleftrightarrow> pm_expires p \<le> now \<and> pm_retries p < at_max_retries t"
proof
  assume "i \<in> m_id ` set (due t now)"
  then obtain j q where q: "(j, q) \<in> set (at_pending t)" "m_id (pm_message q) = i"
    "pm_expires q \<le> now" "pm_retries q < at_max_retries t"
    by (auto simp: due_def)
  then have "j = i"
    using assms(1) by (auto simp: tracker_inv_def)
  with q assms have "q = p"
    by (metis map_of_eq_Some_iff option.inject tracker_inv_def)
  with q show "pm_expires p \<le> now \<and> pm_retries p < at_max_retries t" by simp
next
  assume "pm_expires p \<le> now \<and> pm_retries p < at_max_retries t"
  then have "pm_message p \<in> set (due t now)"
    using map_of_SomeD [OF assms(2)] by (auto simp: due_def intro!: image_eqI [of _ _ "(i, p)"])
  moreover have "m_id (pm_message p) = i"
    using assms map_of_SomeD [OF assms(2)] by (auto simp: tracker_inv_def)
  ultimately show "i \<in> m_id ` set (due t now)" by auto
qed

lemma retry_scan_entry:
  assumes inv: "tracker_inv t" and p: "map_of (at_pending t) i = Some p"
  shows "map_of (at_pending (retry_scan t now)) i =
    (if pm_expires p \<le> now \<and> pm_retries p < at_max_retries t
     then Some (renewed (now + at_timeout t) p) else Some p)"
proof (cases "i \<in> m_id ` set (due t now)")
  case False
  then show ?thesis
    using due_iff [OF inv p] p by (auto simp: retry_scan_def fold_mark_other)
next
  case True
  then obtain m where m: "m \<in> set (due t now)" "m_id m = i" by auto
  then obtain xs ys where split: "due t now = xs @ m # ys" by (meson split_list)
  with due_ids [OF inv, of now] m have "i \<notin> m_id ` set xs" "i \<notin> m_id ` set ys" by auto
  then have "map_of (at_pending (fold (\<lambda>m t. mark_retry t (m_id m) now) xs t)) i = Some p"
    by (simp add: fold_mark_other p)
  with \<open>i \<notin> m_id ` set ys\<close> show ?thesis
    using due_iff [OF inv p, THEN iffD1, OF True]
    by (simp add: retry_scan_def split m fold_mark_other mark_retry_same)
qed

lemma tracker_inv_fold:
  assumes "tracker_inv t" "distinct (map m_id ms)"
    "\<forall>m \<in> set ms. \<forall>p. map_of (at_pending t) (m_id m) = Some p \<longrightarrow> pm_retries p < at_max_retries t"
  shows "tracker_inv (fold (\<lambda>m t. mark_retry t (m_id m) now) ms t)"
  using assms
proof (induction ms arbitrary: t)
  case (Cons m ms)
  have "m_id m \<noteq> m_id n" if "n \<in> set ms" for n
    using Cons.prems(2) that by force
  then have "map_of (at_pending (mark_retry t (m_id m) now)) (m_id n) = map_of (at_pending t) (m_id n)"
    if "n \<in> set ms" for n
    using that by (metis mark_retry_other)
  with Cons show ?case
    by (auto intro!: Cons.IH tracker_inv_mark_retry)
qed simp

lemma tracker_inv_scan: "tracker_inv t \<Longrightarrow> tracker_inv (retry_scan t now)"
  unfolding retry_scan_def
  by (rule tracker_inv_fold) (auto simp: due_ids dest: due_iff [THEN iffD1, OF _ _ imageI])

text \<open>The times of successive scans, each at which the message is overdue again.\<close>

fun scans :: "ack_tracker \<Rightarrow> real list \<Rightarrow> ack_tracker" where
  "scans t [] = t"
| "scans t (now # ts) = scans (retry_scan t now) ts"

fun spaced :: "real \<Rightarrow> real \<Rightarrow> real list \<Rightarrow> bool" where
  "spaced expires timeout [] = True"
| "spaced expires timeout (now # ts) = (expires \<le> now \<and> spaced (now + timeout) timeout ts)"

lemma scans_retries:
  assumes "tracker_inv t" "map_of (at_pending t) i = Some p" "spaced (pm_expires p) (at_timeout t) ts"
    "pm_retries p + length ts \<le> at_max_retries t"
  shows "tracker_inv (scans t ts) \<and> at_max_retries (scans t ts) = at_max_retries t \<and>
    (\<exists>q. map_of (at_pending (scans t ts)) i = Some q \<and> pm_retries q = pm_retries p + length ts \<and>
      m_id (pm_message q) = m_id (pm_message p) \<and> m_payload (pm_message q) = m_payload (pm_message p) \<and>
      pm_expires q = (if ts = [] then pm_expires p else last ts + at_timeout t))"
  using assms
proof (induction ts arbitrary: t p)
  case (Cons now ts)
  let ?q = "renewed (now + at_timeout t) p"
  have "map_of (at_pending (retry_scan t now)) i = Some ?q"
    using retry_scan_entry [OF Cons.prems(1,2), of now] Cons.prems by simp
  moreover have "at_max_retries (retry_scan t now) = at_max_retries t" "at_timeout (retry_scan t now) = at_timeout t"
    by (simp_all add: retry_scan_def)
  moreover have "pm_retries ?q = Suc (pm_retries p)" "pm_expires ?q = now + at_timeout t"
    "m_id (pm_message ?q) = m_id (pm_message p)" "m_payload (pm_message ?q) = m_payload (pm_message p)"
    by (simp_all add: renewed_def Let_def)
  ultimately show ?case
    using Cons.IH [of "retry_scan t now" ?q] tracker_inv_scan [OF Cons.prems(1)] Cons.prems by auto
qed simp

lemma exhausted_iff:
  assumes "map_of (at_pending t) i = Some p" "pm_expires p \<le> now" "at_max_retries t \<le> pm_retries p"
  shows "pm_message p \<in> set (exhausted t now)"
  using assms map_of_SomeD [OF assms(1)] by (force simp: exhausted_def)

text \<open>
  the retry protocol of a command ends. A tracked command that is never acknowledged and is
  overdue at each scan is re-sent by exactly \<open>at_max_retries\<close> scans, keeps its id and
  payload throughout, and is then reported exhausted at every later time past its deadline,
  when it is not due any more.
\<close>

theorem retries_are_bounded:
  assumes "tracker_inv t" and "length ts = at_max_retries t"
    and "spaced (now + at_timeout t) (at_timeout t) ts"
    and "later \<ge> last (now # ts) + at_timeout t"
  shows "\<exists>m' \<in> set (exhausted (scans (track t m now) ts) later).
      m_id m' = m_id m \<and> m_payload m' = m_payload m \<and> m_id m \<notin> m_id ` set (due (scans (track t m now) ts) later)"
proof -
  let ?p = "\<lparr>pm_message = m, pm_attempts = 1, pm_retries = 0, pm_expires = now + at_timeout t\<rparr>"
  have t: "map_of (at_pending (track t m now)) (m_id m) = Some ?p" "at_timeout (track t m now) = at_timeout t"
    "at_max_retries (track t m now) = at_max_retries t"
    by (simp_all add: track_def)
  obtain q where q: "tracker_inv (scans (track t m now) ts)"
    "at_max_retries (scans (track t m now) ts) = at_max_retries t"
    "map_of (at_pending (scans (track t m now) ts)) (m_id m) = Some q" "pm_retries q = length ts"
    "m_id (pm_message q) = m_id m" "m_payload (pm_message q) = m_payload m"
    "pm_expires q = last (now # ts) + at_timeout t"
    using scans_retries [OF tracker_inv_track [OF assms(1)] t(1), of ts] assms(2,3) t by auto
  then have "pm_message q \<in> set (exhausted (scans (track t m now) ts) later)"
    using assms by (intro exhausted_iff) auto
  moreover have "m_id m \<notin> m_id ` set (due (scans (track t m now) ts) later)"
    using due_iff [OF q(1,3)] q assms(2) by simp
  ultimately show ?thesis using q by blast
qed

theorem retries_are_bounded_witness:
  "\<exists>m' \<in> set (exhausted (scans (track (ack_tracker_init 2 3)
       (new_message CONTROL_COMMAND ''A1'' ''C1'' [] 0 ''cmd'') 0) [2, 4, 6]) 9). m_id m' = ''cmd''"
proof -
  let ?t = "ack_tracker_init 2 3"
  have "tracker_inv ?t" "length [2, 4, 6::real] = at_max_retries ?t"
    "spaced (0 + at_timeout ?t) (at_timeout ?t) [2, 4, 6]" "last [0, 2, 4, 6] + at_timeout ?t \<le> 9"
    by (simp_all add: tracker_inv_init) (simp_all add: ack_tracker_init_def)
  from retries_are_bounded [OF this, of "new_message CONTROL_COMMAND ''A1'' ''C1'' [] 0 ''cmd''"]
  show ?thesis by auto
qed

section \<open>Counters\<close>

type_synonym counters = "(string \<times> int) list"

definition counter_get :: "counters \<Rightarrow> string \<Rightarrow> int" where
  "counter_get c name = (case map_of c name of None \<Rightarrow> 0 | Some n \<Rightarrow> n)"

definition inc_by :: "counters \<Rightarrow> string \<Rightarrow> int \<Rightarrow> counters" where
  "inc_by c name n = dset c name (counter_get c name + n)"

abbreviation inc :: "counters \<Rightarrow> string \<Rightarrow> counters" where
  "inc c name \<equiv> inc_by c name 1"

lemma counter_get_inc [simp]:
  "counter_get (inc_by c a n) b = counter_get c b + (if a = b then n else 0)"
  by (simp add: counter_get_def inc_by_def)

section \<open>CommandOutcomes\<close>

record outcome_entry =
  oe_message :: message
  oe_deadline :: real
  oe_acked :: bool

record outcomes =
  oc_timeout :: real
  oc_pending :: "(string \<times> outcome_entry) list"
  oc_unknown :: "string set"
  oc_resolved :: "string set"

definition outcomes_init :: "real \<Rightarrow> outcomes" where
  "outcomes_init timeout = \<lparr>oc_timeout = timeout, oc_pending = [], oc_unknown = {}, oc_resolved = {}\<rparr>"

definition command_id_of :: "message \<Rightarrow> string" where
  "command_id_of m = str_of (dgetn (m_payload m) ''command_id'')"

definition oc_track :: "outcomes \<Rightarrow> message \<Rightarrow> real \<Rightarrow> outcomes" where
  "oc_track o1 m now = o1\<lparr>oc_pending := dset (oc_pending o1) (command_id_of m)
     \<lparr>oe_message = m, oe_deadline = now + oc_timeout o1, oe_acked = False\<rparr>\<rparr>"

definition oc_ack :: "outcomes \<Rightarrow> string \<Rightarrow> outcomes" where
  "oc_ack o1 cid = (case map_of (oc_pending o1) cid of None \<Rightarrow> o1
     | Some e \<Rightarrow> o1\<lparr>oc_pending := dset (oc_pending o1) cid (e\<lparr>oe_acked := True\<rparr>)\<rparr>)"

datatype outcome = Duplicate | Late | Resolved

definition oc_result :: "outcomes \<Rightarrow> string \<Rightarrow> outcome \<times> outcomes" where
  "oc_result o1 cid =
     (if cid \<in> oc_resolved o1 then (Duplicate, o1)
      else (if cid \<in> oc_unknown o1 then Late else Resolved,
            o1\<lparr>oc_pending := ddel (oc_pending o1) cid, oc_unknown := oc_unknown o1 - {cid},
               oc_resolved := insert cid (oc_resolved o1)\<rparr>))"

definition oc_expired :: "real \<Rightarrow> string \<times> outcome_entry \<Rightarrow> bool" where
  "oc_expired now e \<longleftrightarrow> oe_acked (snd e) \<and> oe_deadline (snd e) \<le> now"

definition oc_expire :: "outcomes \<Rightarrow> real \<Rightarrow> message list \<times> outcomes" where
  "oc_expire o1 now =
     (let gone = filter (oc_expired now) (oc_pending o1)
      in (map (oe_message \<circ> snd) gone,
          o1\<lparr>oc_pending := filter (\<lambda>e. \<not> oc_expired now e) (oc_pending o1),
             oc_unknown := oc_unknown o1 \<union> fst ` set gone\<rparr>))"

definition oc_drop :: "outcomes \<Rightarrow> string \<Rightarrow> outcomes" where
  "oc_drop o1 cid = o1\<lparr>oc_pending := ddel (oc_pending o1) cid\<rparr>"

text \<open>The events of one command's bookkeeping, in any order.\<close>

datatype oc_event = OTrack message real | OAck string | OResult string | OExpire real | ODrop string

fun oc_step :: "outcomes \<Rightarrow> oc_event \<Rightarrow> outcomes" where
  "oc_step o1 (OTrack m now) = oc_track o1 m now"
| "oc_step o1 (OAck cid) = oc_ack o1 cid"
| "oc_step o1 (OResult cid) = snd (oc_result o1 cid)"
| "oc_step o1 (OExpire now) = snd (oc_expire o1 now)"
| "oc_step o1 (ODrop cid) = oc_drop o1 cid"

fun oc_recv :: "outcomes \<Rightarrow> oc_event \<Rightarrow> bool \<times> outcomes" where
  "oc_recv o1 (OResult cid) = (fst (oc_result o1 cid) \<noteq> Duplicate, snd (oc_result o1 cid))"
| "oc_recv o1 e = (False, oc_step o1 e)"

fun oc_ident :: "oc_event \<Rightarrow> string" where
  "oc_ident (OResult cid) = cid"
| "oc_ident _ = []"

lemma oc_step_resolved: "i \<in> oc_resolved o1 \<Longrightarrow> i \<in> oc_resolved (oc_step o1 e)"
  by (cases e) (auto simp: oc_track_def oc_ack_def oc_result_def oc_expire_def oc_drop_def Let_def
      split: option.splits)

lemma oc_recv_step: "snd (oc_recv o1 e) = oc_step o1 e"
  by (cases e) auto

interpretation ocr: admit_once "\<lambda>o1 i. i \<in> oc_resolved o1" oc_ident oc_recv
proof
  fix o1 e i
  show "fst (oc_recv o1 e) \<Longrightarrow> oc_ident e \<notin> oc_resolved o1"
    by (cases e) (auto simp: oc_result_def)
  show "fst (oc_recv o1 e) \<Longrightarrow> oc_ident e \<in> oc_resolved (snd (oc_recv o1 e))"
    by (cases e) (auto simp: oc_result_def)
  show "i \<in> oc_resolved o1 \<Longrightarrow> i \<in> oc_resolved (snd (oc_recv o1 e))"
    by (simp add: oc_recv_step oc_step_resolved)
qed

text \<open>
  whatever the order of dispatches, receipts, results, time-outs and give-ups, the outcome
  of one command id is resolved at most once (as \<open>Resolved\<close> or \<open>Late\<close>); every
  further result for it is a duplicate.
\<close>

theorem outcome_resolved_once:
  "distinct (map oc_ident (admitted oc_recv o1 es))
   \<and> (cid \<in> oc_resolved o1 \<longrightarrow> fst (oc_result (run oc_step o1 es) cid) = Duplicate)"
proof
  show "distinct (map oc_ident (admitted oc_recv o1 es))"
    by (rule ocr.distinct_admitted)
  have "(\<lambda>o1 e. snd (oc_recv o1 e)) = oc_step"
    by (simp add: fun_eq_iff oc_recv_step)
  then show "cid \<in> oc_resolved o1 \<longrightarrow> fst (oc_result (run oc_step o1 es) cid) = Duplicate"
    using ocr.run_keeps [of cid o1 es] by (auto simp: oc_result_def)
qed

theorem outcome_resolved_once_witness:
  "fst (oc_result (run oc_step \<lparr>oc_timeout = 10, oc_pending = [], oc_unknown = {}, oc_resolved = {''cmd''}\<rparr>
      [OAck ''cmd'', OExpire 20, OResult ''other'']) ''cmd'') = Duplicate"
proof -
  have "''cmd'' \<in> oc_resolved \<lparr>oc_timeout = 10, oc_pending = [], oc_unknown = {}, oc_resolved = {''cmd''}\<rparr>"
    by simp
  then show ?thesis
    using outcome_resolved_once by blast
qed

end
