(* ===== verification/Registry.thy ===== *)
theory Registry
  imports Prelude Config
begin

text \<open>
  \<^verbatim>\<open>gateway/registry.py\<close>: the node table of a gateway, a dictionary in insertion order.
  An entry is mutated in place, so an update keeps its position. An explicit \<open>timestamp\<close>
  stands for both clocks, otherwise the wall clock and the monotonic clock are read.
\<close>

record node_entry =
  n_kind :: node_kind
  n_owner :: string
  n_status :: health
  n_last_seen :: real
  n_seen_mono :: real
  n_generation :: int

type_synonym registry = "(string \<times> node_entry) list"

record clocks =
  wall :: real
  mono_clock :: real

definition stamp :: "clocks \<Rightarrow> real option \<Rightarrow> node_entry \<Rightarrow> node_entry" where
  "stamp now timestamp e =
     e\<lparr>n_last_seen := (case timestamp of None \<Rightarrow> wall now | Some t \<Rightarrow> t),
       n_seen_mono := (case timestamp of None \<Rightarrow> mono_clock now | Some t \<Rightarrow> t)\<rparr>"

definition entry_dict :: "string \<Rightarrow> node_entry \<Rightarrow> dict" where
  "entry_dict node e =
     [(''node_id'', PStr node), (''node_type'', PStr (kind_name (n_kind e))), (''owner_gateway'', PStr (n_owner e)),
      (''status'', PStr (health_name (n_status e))), (''last_seen'', PFloat (Fin (n_last_seen e))),
      (''generation'', PInt (n_generation e))]"

section \<open>Operations\<close>

definition upsert :: "registry \<Rightarrow> string \<Rightarrow> node_kind \<Rightarrow> string \<Rightarrow> int \<Rightarrow> health \<Rightarrow> real option \<Rightarrow> clocks \<Rightarrow> registry" where
  "upsert reg node kind owner generation status timestamp now =
     (let e = (case map_of reg node of
          Some e \<Rightarrow> e
        | None \<Rightarrow> \<lparr>n_kind = kind, n_owner = owner, n_status = OFFLINE, n_last_seen = wall now,
            n_seen_mono = mono_clock now, n_generation = INITIAL_GENERATION\<rparr>)
      in dset reg node (stamp now timestamp
           (e\<lparr>n_kind := kind, n_owner := owner, n_generation := generation, n_status := status\<rparr>)))"

definition touch :: "registry \<Rightarrow> string \<Rightarrow> real option \<Rightarrow> clocks \<Rightarrow> registry" where
  "touch reg node timestamp now =
     (case map_of reg node of
        None \<Rightarrow> reg
      | Some e \<Rightarrow> dset reg node ((stamp now timestamp e)\<lparr>n_status := ONLINE\<rparr>))"

definition set_status :: "registry \<Rightarrow> string \<Rightarrow> health \<Rightarrow> registry" where
  "set_status reg node status =
     (case map_of reg node of None \<Rightarrow> reg | Some e \<Rightarrow> dset reg node (e\<lparr>n_status := status\<rparr>))"

definition owned_by :: "registry \<Rightarrow> string \<Rightarrow> string list" where
  "owned_by reg gateway = map fst (filter (\<lambda>(k, e). n_owner e = gateway) reg)"

definition transfer1 :: "string \<Rightarrow> int \<Rightarrow> registry \<Rightarrow> string \<Rightarrow> registry" where
  "transfer1 owner generation reg node =
     (case map_of reg node of
        None \<Rightarrow> reg
      | Some e \<Rightarrow> dset reg node (e\<lparr>n_owner := owner, n_generation := generation\<rparr>))"

definition transfer :: "registry \<Rightarrow> string list \<Rightarrow> string \<Rightarrow> int \<Rightarrow> string list \<times> registry" where
  "transfer reg nodes owner generation =
     (filter (dhas reg) nodes, foldl (transfer1 owner generation) reg nodes)"

definition generation_of :: "registry \<Rightarrow> string \<Rightarrow> int" where
  "generation_of reg node = (case map_of reg node of None \<Rightarrow> INITIAL_GENERATION | Some e \<Rightarrow> n_generation e)"

definition silent :: "real \<Rightarrow> real \<Rightarrow> node_entry \<Rightarrow> bool" where
  "silent now timeout e \<longleftrightarrow> n_status e \<noteq> OFFLINE \<and> now - n_seen_mono e > timeout"

definition expire :: "registry \<Rightarrow> real \<Rightarrow> real \<Rightarrow> string list \<times> registry" where
  "expire reg now timeout =
     (map fst (filter (\<lambda>(k, e). silent now timeout e) reg),
      map (\<lambda>(k, e). (k, if silent now timeout e then e\<lparr>n_status := OFFLINE\<rparr> else e)) reg)"

definition snapshot :: "registry \<Rightarrow> dict" where
  "snapshot reg = map (\<lambda>(k, e). (k, PDict (entry_dict k e))) reg"

section \<open>Look-ups after an update\<close>

text \<open>Owner and epoch of a node: the part of a row that decides who may drive it.\<close>

definition claim_of :: "registry \<Rightarrow> string \<Rightarrow> (string \<times> int) option" where
  "claim_of reg node = map_option (\<lambda>e. (n_owner e, n_generation e)) (map_of reg node)"

lemma stamp_simps [simp]:
  "n_owner (stamp now t e) = n_owner e" "n_generation (stamp now t e) = n_generation e"
  "n_kind (stamp now t e) = n_kind e" "n_status (stamp now t e) = n_status e"
  by (simp_all add: stamp_def)

lemma claim_upsert [simp]:
  "claim_of (upsert reg node kind owner g st t now) k = (if k = node then Some (owner, g) else claim_of reg k)"
  by (simp add: claim_of_def upsert_def Let_def split: option.splits)

lemma claim_touch [simp]: "claim_of (touch reg node t now) k = claim_of reg k"
  by (auto simp: claim_of_def touch_def split: option.splits)

lemma claim_set_status [simp]: "claim_of (set_status reg node st) k = claim_of reg k"
  by (auto simp: claim_of_def set_status_def split: option.splits)

lemma claim_transfer1 [simp]:
  "claim_of (transfer1 owner g reg node) k = (if k = node \<and> claim_of reg k \<noteq> None then Some (owner, g) else claim_of reg k)"
  by (auto simp: claim_of_def transfer1_def split: option.splits)

lemma claim_transfer [simp]:
  "claim_of (snd (transfer reg nodes owner g)) k = (if k \<in> set nodes \<and> claim_of reg k \<noteq> None then Some (owner, g) else claim_of reg k)"
proof -
  have "claim_of (foldl (transfer1 owner g) reg nodes) k =
      (if k \<in> set nodes \<and> claim_of reg k \<noteq> None then Some (owner, g) else claim_of reg k)"
    by (induction nodes arbitrary: reg) auto
  then show ?thesis by (simp add: transfer_def)
qed

lemma expire_lookup:
  "map_of (snd (expire reg now timeout)) k =
     map_option (\<lambda>e. if silent now timeout e then e\<lparr>n_status := OFFLINE\<rparr> else e) (map_of reg k)"
  by (induction reg) (auto simp: expire_def)

lemma claim_expire [simp]: "claim_of (snd (expire reg now timeout)) k = claim_of reg k"
  by (auto simp: claim_of_def expire_lookup option.map_comp comp_def intro!: option.map_cong)

lemma claim_None: "claim_of reg k = None \<longleftrightarrow> k \<notin> fst ` set reg"
  by (auto simp: claim_of_def map_of_eq_None_iff)

lemma generation_of_claim: "generation_of reg k = (case claim_of reg k of None \<Rightarrow> INITIAL_GENERATION | Some (_, g) \<Rightarrow> g)"
  by (simp add: generation_of_def claim_of_def split: option.splits)

lemma owned_by_claim:
  assumes "distinct (map fst reg)"
  shows "k \<in> set (owned_by reg g) \<longleftrightarrow> (\<exists>i. claim_of reg k = Some (g, i))"
  using assms by (force simp: owned_by_def claim_of_def map_of_eq_Some_iff)

lemma keys_transfer [simp]: "map fst (snd (transfer reg nodes owner g)) = map fst reg"
proof -
  have one: "map fst (transfer1 owner g r n) = map fst r" for r n
    by (auto simp: transfer1_def keys_dset_present split: option.splits)
  have "map fst (foldl (transfer1 owner g) reg nodes) = map fst reg"
    by (induction nodes arbitrary: reg) (simp_all add: one)
  then show ?thesis by (simp add: transfer_def)
qed

end
