(* ===== verification/Ownership.thy ===== *)
theory Ownership
  imports Prelude Interfaces Config Registry
begin

text \<open>
  \<^verbatim>\<open>gateway/ownership.py\<close>: role and epoch of one gateway, over the registry that the
  gateway shares with it.
\<close>

record ownership =
  o_id :: string
  o_peer :: string
  o_generation :: int
  o_role :: gw_role
  o_health :: health
  o_peer_health :: health
  o_peer_generation :: int

definition ownership_init :: "string \<Rightarrow> string \<Rightarrow> int \<Rightarrow> ownership" where
  "ownership_init gateway peer generation =
     \<lparr>o_id = gateway, o_peer = peer, o_generation = generation, o_role = ACTIVE, o_health = ONLINE,
      o_peer_health = UNKNOWN, o_peer_generation = 0\<rparr>"

definition claim :: "ownership \<Rightarrow> registry \<Rightarrow> string list \<Rightarrow> node_kind \<Rightarrow> clocks \<Rightarrow> int \<times> registry" where
  "claim o' reg nodes kind now =
     (o_generation o',
      foldl (\<lambda>r n. upsert r n kind (o_id o') (o_generation o') ONLINE None now) reg nodes)"

definition kind_known :: "registry \<Rightarrow> string \<Rightarrow> node_kind \<Rightarrow> node_kind" where
  "kind_known reg node kind = (case map_of reg node of Some e \<Rightarrow> n_kind e | None \<Rightarrow> kind)"

definition own_takeover :: "ownership \<Rightarrow> registry \<Rightarrow> string list \<Rightarrow> node_kind \<Rightarrow> clocks \<Rightarrow> ownership \<times> registry" where
  "own_takeover o' reg nodes kind now =
     (let g = max (o_generation o') (o_peer_generation o') + 1
      in (o'\<lparr>o_generation := g, o_role := ACTIVE\<rparr>,
          foldl (\<lambda>r n. upsert r n (kind_known r n kind) (o_id o') g ONLINE None now) reg nodes))"

definition owns :: "ownership \<Rightarrow> registry \<Rightarrow> string \<Rightarrow> bool" where
  "owns o' reg node = (case map_of reg node of None \<Rightarrow> False | Some e \<Rightarrow> n_owner e = o_id o')"

definition may_control :: "ownership \<Rightarrow> registry \<Rightarrow> string \<Rightarrow> bool" where
  "may_control o' reg node \<longleftrightarrow> o_role o' = ACTIVE \<and> owns o' reg node"

definition observe_peer :: "ownership \<Rightarrow> health \<Rightarrow> int option \<Rightarrow> ownership" where
  "observe_peer o' health generation =
     (let p = (case generation of None \<Rightarrow> o_peer_generation o' | Some g \<Rightarrow> max (o_peer_generation o') g);
          o1 = o'\<lparr>o_peer_health := health, o_peer_generation := p\<rparr>
      in if health = OFFLINE then o1
         else if o_generation o1 < p then o1\<lparr>o_role := STANDBY\<rparr> else o1)"

definition ownership_dict :: "ownership \<Rightarrow> dict" where
  "ownership_dict o' =
     [(''gateway_id'', PStr (o_id o')), (''role'', PStr (role_name (o_role o'))),
      (''health'', PStr (health_name (o_health o'))), (''generation'', PInt (o_generation o')),
      (''peer_id'', PStr (o_peer o')), (''peer_health'', PStr (health_name (o_peer_health o'))),
      (''peer_generation'', PInt (o_peer_generation o'))]"

section \<open>Claims\<close>

lemma owns_claim: "owns o' reg k \<longleftrightarrow> (\<exists>g. claim_of reg k = Some (o_id o', g))"
  by (auto simp: owns_def claim_of_def split: option.splits)

lemma claim_upserts:
  "claim_of (foldl (\<lambda>r n. upsert r n (f r n) owner g st t now) reg nodes) k =
     (if k \<in> set nodes then Some (owner, g) else claim_of reg k)"
  by (induction nodes arbitrary: reg) auto

lemma claim_takeover:
  "claim_of (snd (own_takeover o' reg nodes kind now)) k =
     (if k \<in> set nodes then Some (o_id o', max (o_generation o') (o_peer_generation o') + 1) else claim_of reg k)"
  by (simp add: own_takeover_def Let_def claim_upserts)

lemma keys_upsert_present: "claim_of reg k \<noteq> None \<Longrightarrow> map fst (upsert reg k kd ow g st t now) = map fst reg"
  by (auto simp: upsert_def Let_def claim_of_def keys_dset_present split: option.splits)

lemma keys_takeover:
  "\<forall>n \<in> set nodes. claim_of reg n \<noteq> None \<Longrightarrow> map fst (snd (own_takeover o' reg nodes kind now)) = map fst reg"
proof -
  have "\<forall>n \<in> set nodes. claim_of r n \<noteq> None \<Longrightarrow>
    map fst (foldl (\<lambda>r n. upsert r n (kind_known r n kind) ow g ONLINE None now) r nodes) = map fst r" for ow g r
    by (induction nodes arbitrary: r) (simp_all add: keys_upsert_present)
  then show "\<forall>n \<in> set nodes. claim_of reg n \<noteq> None \<Longrightarrow> ?thesis"
    by (simp add: own_takeover_def Let_def)
qed

lemma own_takeover_fields [simp]:
  "o_generation (fst (own_takeover o' reg nodes kind now)) = max (o_generation o') (o_peer_generation o') + 1"
  "o_role (fst (own_takeover o' reg nodes kind now)) = ACTIVE"
  "o_id (fst (own_takeover o' reg nodes kind now)) = o_id o'"
  "o_peer (fst (own_takeover o' reg nodes kind now)) = o_peer o'"
  "o_peer_generation (fst (own_takeover o' reg nodes kind now)) = o_peer_generation o'"
  by (simp_all add: own_takeover_def Let_def)

lemma observe_fields [simp]:
  "o_generation (observe_peer o' h g) = o_generation o'" "o_id (observe_peer o' h g) = o_id o'"
  "o_peer (observe_peer o' h g) = o_peer o'"
  "o_peer_generation (observe_peer o' h g) = (case g of None \<Rightarrow> o_peer_generation o' | Some i \<Rightarrow> max (o_peer_generation o') i)"
  by (simp_all add: observe_peer_def Let_def)

section \<open>The epoch\<close>

datatype own_op = OwnTake registry "string list" clocks | OwnObserve health "int option"

fun own_step :: "ownership \<Rightarrow> own_op \<Rightarrow> ownership" where
  "own_step o' (OwnTake reg nodes now) = fst (own_takeover o' reg nodes SENSOR now)"
| "own_step o' (OwnObserve h g) = observe_peer o' h g"

interpretation own_epoch: epoch_register o_generation own_step
proof
  fix s :: ownership and e
  show "o_generation s \<le> o_generation (own_step s e)"
    by (cases e) simp_all
qed

text \<open>
  an epoch is only ever replaced by a higher one. A takeover chooses an epoch above its own and
  above everything the peer was heard to claim, and no later takeover or observation brings the
  gateway back to an epoch that this one has already left behind.
\<close>

theorem takeover_epoch_is_fresh:
  "max (o_generation o') (o_peer_generation o')
     < o_generation (run own_step (fst (own_takeover o' reg nodes kind now)) ops)"
  by (rule order.strict_trans2 [OF _ own_epoch.run_mono]) simp

lemma observe_role: "o_role (observe_peer o' h g) = ACTIVE \<Longrightarrow>
   o_role o' = ACTIVE \<and> (h \<noteq> OFFLINE \<longrightarrow> o_peer_generation (observe_peer o' h g) \<le> o_generation o')"
  by (simp add: observe_peer_def Let_def split: if_splits)

text \<open>
  there is no automatic failback. Whatever health reports and epochs a gateway observes after it
  was demoted, it stays \<^verbatim>\<open>STANDBY\<close> and may control no node; only a takeover makes it active.
\<close>

theorem observation_never_promotes:
  assumes "o_role o' = STANDBY"
  shows "\<not> may_control (run own_step o' (map (\<lambda>(h, g). OwnObserve h g) obs)) reg node"
proof -
  have "o_role (run own_step s (map (\<lambda>(h, g). OwnObserve h g) obs)) = STANDBY" if "o_role s = STANDBY" for s
    using that
  proof (induction obs arbitrary: s)
    case (Cons x obs)
    obtain h g where x: "x = (h, g)" by force
    have "o_role (observe_peer s h g) = STANDBY"
      using Cons.prems observe_role [of s h g] by (cases "o_role (observe_peer s h g)") auto
    with Cons.IH x show ?case by simp
  qed simp
  with assms show ?thesis by (simp add: may_control_def)
qed

theorem observation_never_promotes_witness:
  "\<not> may_control (run own_step (observe_peer (ownership_init ''A1'' ''A2'' 1) ONLINE (Some 5))
       (map (\<lambda>(h, g). OwnObserve h g) [(ONLINE, Some 1), (OFFLINE, None)])) [] ''B1''"
  by (rule observation_never_promotes) (simp add: observe_peer_def ownership_init_def)

end
