(* ===== verification/Failover.thy ===== *)
theory Failover
  imports Prelude Interfaces Config Messages Checkpoint Reliability Registry Ownership
begin

text \<open>
  The failover part of \<^verbatim>\<open>gateway/gateway.py\<close>: the seeded registry, the durable ownership
  checkpoint, registration of nodes, the peer's heartbeats, the watchdog and the takeover.
  Clock readings and storage outcomes are inputs. The messages that a takeover sends are its
  result; the tasks that send them are modelled with the gateway.
\<close>

record failover =
  f_own :: ownership
  f_reg :: registry
  f_store :: "store option"
  f_fault :: bool
  f_recovery :: bool
  f_saved_role :: gw_role
  f_metrics :: counters
  f_last_seen :: "real option"
  f_started :: "real option"
  f_peer_status :: health
  f_last_tick :: "real option"
  f_resume :: "real option"
  f_standby_logged :: bool
  f_timeout :: real

abbreviation gw_id :: "failover \<Rightarrow> string" where
  "gw_id f \<equiv> o_id (f_own f)"

abbreviation peer_id :: "failover \<Rightarrow> string" where
  "peer_id f \<equiv> o_peer (f_own f)"

section \<open>The ownership checkpoint\<close>

definition seed_registry :: "string \<Rightarrow> string \<Rightarrow> string \<Rightarrow> string \<Rightarrow> string \<Rightarrow> string \<Rightarrow> int \<Rightarrow> clocks \<Rightarrow> registry" where
  "seed_registry gateway peer sensor controller peer_sensor peer_controller generation now =
     upsert (upsert (upsert (upsert []
       sensor SENSOR gateway generation OFFLINE None now)
       controller CONTROLLER gateway generation OFFLINE None now)
       peer_sensor SENSOR peer INITIAL_GENERATION OFFLINE None now)
       peer_controller CONTROLLER peer INITIAL_GENERATION OFFLINE None now"

definition claim_row :: "node_entry \<Rightarrow> pyval" where
  "claim_row e = PDict [(''owner_gateway'', PStr (n_owner e)), (''generation'', PInt (n_generation e))]"

definition ownership_value :: "failover \<Rightarrow> dict" where
  "ownership_value f =
     [(''gateway_id'', PStr (gw_id f)), (''generation'', PInt (o_generation (f_own f))),
      (''peer_generation'', PInt (o_peer_generation (f_own f))),
      (''role'', PStr (role_name (o_role (f_own f)))),
      (''ownership'', PDict (map (\<lambda>(k, e). (k, claim_row e)) (f_reg f)))]"

definition row_claim_ok :: "string \<Rightarrow> pyval \<Rightarrow> pyval \<Rightarrow> bool" where
  "row_claim_ok gateway generation row =
     (case row of
        PDict r \<Rightarrow>
          (case (map_of r ''owner_gateway'', map_of r ''generation'') of
             (Some (PStr own), Some g) \<Rightarrow>
               dhas GATEWAY_PORTS own \<and> integer g 1 \<and> (own = gateway \<longrightarrow> g = generation)
           | _ \<Rightarrow> False)
      | _ \<Rightarrow> False)"

text \<open>
  The rows of a zone are compared as Python compares the dictionaries. The generations have passed
  \<^verbatim>\<open>integer\<close> by then, so they are equal exactly when they are the same number.
\<close>

definition rows_pair_ok :: "dict \<Rightarrow> string \<times> string \<Rightarrow> bool" where
  "rows_pair_ok rows pair =
     (case (map_of rows (fst pair), map_of rows (snd pair)) of (Some a, Some b) \<Rightarrow> py_eq a b | _ \<Rightarrow> False)"

definition ownership_validate :: "string \<Rightarrow> string set \<Rightarrow> pyval \<Rightarrow> bool" where
  "ownership_validate gateway nodes saved =
     (case saved of
        PDict d \<Rightarrow>
          (case (map_of d ''gateway_id'', map_of d ''generation'', map_of d ''role'',
                 map_of d ''peer_generation'', map_of d ''ownership'') of
             (Some i, Some g, Some r, Some p, Some (PDict rows)) \<Rightarrow>
               i = PStr gateway \<and> integer g 1 \<and> r \<in> {PStr ''ACTIVE'', PStr ''STANDBY''} \<and> integer p 0 \<and>
               fst ` set rows = nodes \<and> list_all (\<lambda>(k, row). row_claim_ok gateway g row) (items rows) \<and>
               list_all (rows_pair_ok rows) CONTROLLER_OF_SENSOR
           | _ \<Rightarrow> False)
      | _ \<Rightarrow> False)"

definition persist_ownership :: "failover \<Rightarrow> real \<Rightarrow> bool \<Rightarrow> failover" where
  "persist_ownership f now io =
     (case f_store f of
        None \<Rightarrow> f
      | Some s \<Rightarrow>
          if f_fault f then f
          else (case save s ''ownership'' (PDict (ownership_value f)) now io of
              Inr s' \<Rightarrow> f\<lparr>f_store := Some s'\<rparr>
            | Inl _ \<Rightarrow> f\<lparr>f_fault := True, f_own := (f_own f)\<lparr>o_role := STANDBY\<rparr>\<rparr>))"

definition role_of :: "pyval \<Rightarrow> gw_role" where
  "role_of v = (if v = PStr ''ACTIVE'' then ACTIVE else STANDBY)"

definition restore_rows :: "registry \<Rightarrow> dict \<Rightarrow> registry" where
  "restore_rows reg rows =
     foldl (\<lambda>r (node, row). snd (transfer r [node] (str_of (dgetn (dict_of row) ''owner_gateway''))
              (int_of (dgetn (dict_of row) ''generation'')))) reg (items rows)"

definition restore_ownership :: "failover \<Rightarrow> real \<Rightarrow> bool \<Rightarrow> bool \<Rightarrow> failover" where
  "restore_ownership f now io_load io_save =
     (case f_store f of
        None \<Rightarrow> f
      | Some s \<Rightarrow>
          (case load s ''ownership'' (ownership_validate (gw_id f) (fst ` set (f_reg f))) False io_load of
             Inl _ \<Rightarrow> f\<lparr>f_fault := True, f_own := (f_own f)\<lparr>o_role := STANDBY\<rparr>\<rparr>
           | Inr None \<Rightarrow> persist_ownership f now io_save
           | Inr (Some saved) \<Rightarrow>
               let d = dict_of saved
               in f\<lparr>f_own := (f_own f)\<lparr>o_generation := int_of (dgetn d ''generation''),
                                        o_peer_generation := int_of (dgetn d ''peer_generation''),
                                        o_role := STANDBY\<rparr>,
                    f_saved_role := role_of (dgetn d ''role''), f_recovery := True,
                    f_reg := restore_rows (f_reg f) (dict_of (dgetn d ''ownership''))\<rparr>))"

definition failover_init :: "string \<Rightarrow> string \<Rightarrow> string \<Rightarrow> string \<Rightarrow> string \<Rightarrow> string \<Rightarrow> real \<Rightarrow> store option \<Rightarrow>
    clocks \<Rightarrow> bool \<Rightarrow> bool \<Rightarrow> failover" where
  "failover_init gateway peer sensor controller peer_sensor peer_controller timeout st now io_load io_save =
     restore_ownership
       \<lparr>f_own = ownership_init gateway peer INITIAL_GENERATION,
        f_reg = seed_registry gateway peer sensor controller peer_sensor peer_controller INITIAL_GENERATION now,
        f_store = st, f_fault = False, f_recovery = False, f_saved_role = STANDBY, f_metrics = [],
        f_last_seen = None, f_started = None, f_peer_status = UNKNOWN, f_last_tick = None,
        f_resume = None, f_standby_logged = False, f_timeout = timeout\<rparr>
       (wall now) io_load io_save"

section \<open>Registration of nodes\<close>

definition node_known :: "string \<Rightarrow> bool" where
  "node_known node \<longleftrightarrow> dhas GATEWAY_OF_SENSOR node \<or> dhas GATEWAY_OF_CONTROLLER node"

definition expected_kind :: "string \<Rightarrow> node_kind" where
  "expected_kind node = (if dhas GATEWAY_OF_SENSOR node then SENSOR else CONTROLLER)"

definition register_reason :: "failover \<Rightarrow> node_entry option \<Rightarrow> string \<Rightarrow> pyval \<Rightarrow> string" where
  "register_reason f entry node g =
     (case entry of
        Some e \<Rightarrow>
          if \<not> may_control (f_own f) (f_reg f) node then ''NOT_OWNER''
          else if integer g 0 \<and> int_of g > n_generation e then ''STALE_GENERATION''
          else ''INVALID_REPLY''
      | None \<Rightarrow> ''INVALID_REPLY'')"

text \<open>
  \<^verbatim>\<open>_handle_register\<close>: \<open>None\<close> when the message is dropped without an answer, else whether
  the node was accepted, with the payload of the answer.
\<close>

definition handle_register :: "failover \<Rightarrow> message \<Rightarrow> clocks \<Rightarrow> (bool \<times> dict) option \<times> failover" where
  "handle_register f m now =
     (let node = m_source m;
          kind = dgetd (m_payload m) ''node_type'' (PStr (kind_name SENSOR));
          g = dgetd (m_payload m) ''generation'' (PInt 0);
          entry = map_of (f_reg f) node
      in if \<not> node_known node \<or> kind \<notin> {PStr (kind_name SENSOR), PStr (kind_name CONTROLLER)} \<or>
            m_target m \<noteq> gw_id f
         then (None, f)
         else let accepted = (entry \<noteq> None \<and> kind = PStr (kind_name (expected_kind node)) \<and>
                    may_control (f_own f) (f_reg f) node \<and> integer g 0 \<and>
                    int_of g \<le> n_generation (the entry));
                  owner = (case entry of None \<Rightarrow> PNone | Some e \<Rightarrow> PStr (n_owner e));
                  answer = [(''node_id'', PStr node), (''node_type'', PStr (kind_name (expected_kind node))),
                    (''assigned_gateway'', owner), (''owner_gateway'', owner),
                    (''generation'', PInt (case entry of None \<Rightarrow> o_generation (f_own f) | Some e \<Rightarrow> n_generation e)),
                    (''accepted'', PBool accepted),
                    (''reason'', if accepted then PNone else PStr (register_reason f entry node g))]
              in (Some (accepted, answer),
                  if accepted then f\<lparr>f_reg := touch (f_reg f) node None now\<rparr>
                  else f\<lparr>f_metrics := inc (f_metrics f) ''registration_rejected''\<rparr>))"

section \<open>Heartbeats of the peer\<close>

definition snapshot_pairs_ok :: "dict \<Rightarrow> bool" where
  "snapshot_pairs_ok snap =
     list_all (\<lambda>(s, c). (map_of snap s \<noteq> None) = (map_of snap c \<noteq> None) \<and>
        (case map_of snap s of None \<Rightarrow> True | Some a \<Rightarrow> py_eq a (dgetn snap c))) CONTROLLER_OF_SENSOR"

definition snapshot_row_ok :: "string \<Rightarrow> int \<Rightarrow> pyval \<Rightarrow> bool" where
  "snapshot_row_ok peer generation row =
     (case row of
        PDict r \<Rightarrow> dgetn r ''owner_gateway'' = PStr peer \<and> integer (dgetn r ''generation'') 1 \<and>
          int_of (dgetn r ''generation'') \<le> generation
      | _ \<Rightarrow> False)"

definition heartbeat_valid :: "failover \<Rightarrow> message \<Rightarrow> bool" where
  "heartbeat_valid f m =
     (let p = m_payload m;
          g = dgetn p ''generation''
      in m_type m = HEARTBEAT \<and> m_source m = peer_id f \<and> m_target m = gw_id f \<and>
         integer g 1 \<and> o_peer_generation (f_own f) \<le> int_of g \<and>
         dgetd p ''role'' (PStr ''ACTIVE'') \<in> {PStr ''ACTIVE'', PStr ''STANDBY''} \<and>
         (case dgetd p ''ownership'' (PDict []) of
            PDict snap \<Rightarrow>
              fst ` set snap \<subseteq> fst ` set (f_reg f) \<and> snapshot_pairs_ok snap \<and>
              list_all (\<lambda>(k, row). snapshot_row_ok (peer_id f) (int_of g) row) (items snap)
          | _ \<Rightarrow> False))"

definition row_generation :: "pyval \<Rightarrow> int" where
  "row_generation row = int_of (dgetn (dict_of row) ''generation'')"

text \<open>Peer evidence advances a known node to the peer's newer epoch.\<close>

definition advance_row :: "string \<Rightarrow> int \<Rightarrow> registry \<Rightarrow> string \<times> pyval \<Rightarrow> registry" where
  "advance_row peer generation reg entry =
     (case map_of reg (fst entry) of
        None \<Rightarrow> reg
      | Some e \<Rightarrow>
          if n_generation e < row_generation (snd entry) \<and> row_generation (snd entry) \<le> generation
          then snd (transfer reg [fst entry] peer (row_generation (snd entry))) else reg)"

definition peer_conflict :: "ownership \<Rightarrow> registry \<Rightarrow> dict \<Rightarrow> dict \<Rightarrow> bool" where
  "peer_conflict o' reg p snap \<longleftrightarrow>
     dgetd p ''role'' (PStr ''ACTIVE'') = PStr ''ACTIVE'' \<and>
     list_ex (\<lambda>(node, row). owns o' reg node \<and> generation_of reg node = row_generation row) (items snap)"

text \<open>The first validated heartbeat after a restart decides whether the saved role is resumed.\<close>

definition resume_role :: "failover \<Rightarrow> bool \<Rightarrow> gw_role" where
  "resume_role f conflict =
     (if f_recovery f \<and> \<not> conflict \<and> \<not> f_fault f \<and> f_saved_role f = ACTIVE \<and>
         o_peer_generation (f_own f) \<le> o_generation (f_own f)
      then ACTIVE else o_role (f_own f))"

definition on_heartbeat :: "failover \<Rightarrow> message \<Rightarrow> clocks \<Rightarrow> bool \<Rightarrow> bool \<times> failover" where
  "on_heartbeat f m now io =
     (if \<not> heartbeat_valid f m
      then (False, f\<lparr>f_metrics := inc (f_metrics f) ''malformed_peer_heartbeat''\<rparr>)
      else let p = m_payload m;
               g = int_of (dgetn p ''generation'');
               snap = dict_of (dgetd p ''ownership'' (PDict []));
               reg = foldl (advance_row (peer_id f) g) (f_reg f) (items snap);
               conflict = peer_conflict (f_own f) reg p snap;
               o1 = observe_peer (f_own f) ONLINE (Some g);
               f1 = f\<lparr>f_last_seen := Some (mono_clock now), f_resume := None, f_reg := reg,
                      f_own := (if conflict then o1\<lparr>o_role := STANDBY\<rparr> else o1),
                      f_metrics := (if conflict then inc (f_metrics f) ''peer_ownership_conflicts'' else f_metrics f)\<rparr>;
               f2 = f1\<lparr>f_own := (f_own f1)\<lparr>o_role := resume_role f1 conflict\<rparr>, f_recovery := False\<rparr>;
               f3 = persist_ownership f2 (wall now) io
           in (True, if o_role (f_own f2) = STANDBY then f3\<lparr>f_standby_logged := True\<rparr> else f3))"

section \<open>The watchdog\<close>

definition monitor_tick :: "failover \<Rightarrow> real \<Rightarrow> failover" where
  "monitor_tick f now =
     (let f' = f\<lparr>f_last_tick := Some now\<rparr>
      in case f_last_tick f of
           None \<Rightarrow> f'
         | Some previous \<Rightarrow>
             if now - previous > f_timeout f
             then f'\<lparr>f_resume := Some (now + f_timeout f), f_metrics := inc (f_metrics f) ''peer_monitor_stalls''\<rparr>
             else f')"

definition peer_health_now :: "failover \<Rightarrow> real \<Rightarrow> health" where
  "peer_health_now f now =
     (let raw = (case f_last_seen f of
            None \<Rightarrow> (case f_started f of
                Some t \<Rightarrow> if now - t > f_timeout f then OFFLINE else UNKNOWN
              | None \<Rightarrow> UNKNOWN)
          | Some seen \<Rightarrow> if now - seen > f_timeout f then OFFLINE else ONLINE)
      in case f_resume f of
           Some deadline \<Rightarrow> if raw = OFFLINE \<and> now < deadline then UNKNOWN else raw
         | None \<Rightarrow> raw)"

definition fenced :: "failover \<Rightarrow> bool" where
  "fenced f \<longleftrightarrow> owned_by (f_reg f) (peer_id f) = [] \<and> o_role (f_own f) = ACTIVE \<and>
     o_peer_generation (f_own f) < o_generation (f_own f) \<and> \<not> f_recovery f"

text \<open>
  The takeover and the list of its nodes, for the alert and the notifications; \<open>None\<close> when
  nothing was taken over or the new epoch could not be persisted.
\<close>

definition take_over :: "failover \<Rightarrow> clocks \<Rightarrow> bool \<Rightarrow> string list option \<times> failover" where
  "take_over f now io =
     (if f_fault f \<or> fenced f then (None, f)
      else let nodes = owned_by (f_reg f) (peer_id f);
               (o1, reg1) = own_takeover (f_own f) (f_reg f) nodes SENSOR now;
               mine = sort (owned_by reg1 (o_id o1));
               reg2 = snd (transfer reg1 mine (o_id o1) (o_generation o1));
               f1 = f\<lparr>f_own := o1, f_reg := reg2, f_metrics := inc (f_metrics f) ''failovers'', f_recovery := False\<rparr>;
               f2 = persist_ownership f1 (wall now) io
           in (if f_fault f2 then None else Some mine, f2))"

definition evaluate_peer :: "failover \<Rightarrow> clocks \<Rightarrow> bool \<Rightarrow> health \<times> string list option \<times> failover" where
  "evaluate_peer f now io =
     (let status = peer_health_now f (mono_clock now)
      in if status = f_peer_status f then (status, None, f)
         else let (out, f') = (if status = OFFLINE then take_over f now io else (None, f))
              in (status, out, f'\<lparr>f_peer_status := status\<rparr>))"


section \<open>The ownership invariant\<close>

definition zone_nodes :: "string set" where
  "zone_nodes = {''B1'', ''C1'', ''B2'', ''C2''}"

definition pairs_agree :: "registry \<Rightarrow> bool" where
  "pairs_agree reg \<longleftrightarrow> (\<forall>(s, c) \<in> set CONTROLLER_OF_SENSOR. claim_of reg s = claim_of reg c)"

text \<open>
  Both gateways' nodes are known and nothing else; sensor and controller of a zone have the same
  owner and epoch; every owner is one of the two gateways, every epoch is positive, and what the
  gateway owns it owns at its own current epoch.
\<close>

definition fo_inv :: "failover \<Rightarrow> bool" where
  "fo_inv f \<longleftrightarrow> (gw_id f, peer_id f) \<in> set PEER_OF \<and> distinct (map fst (f_reg f)) \<and>
     fst ` set (f_reg f) = zone_nodes \<and> pairs_agree (f_reg f) \<and>
     1 \<le> o_generation (f_own f) \<and> 0 \<le> o_peer_generation (f_own f) \<and>
     (\<forall>k ow g. claim_of (f_reg f) k = Some (ow, g) \<longrightarrow>
        ow \<in> {gw_id f, peer_id f} \<and> 1 \<le> g \<and> (ow = gw_id f \<longrightarrow> g = o_generation (f_own f)))"

lemma peer_ids: "(a, b) \<in> set PEER_OF \<Longrightarrow> a \<noteq> b \<and> dhas GATEWAY_PORTS a \<and> dhas GATEWAY_PORTS b"
  by (auto simp: PEER_OF_def GATEWAY_PORTS_def)

lemma fo_invD:
  assumes "fo_inv f"
  shows "gw_id f \<noteq> peer_id f" "distinct (map fst (f_reg f))" "fst ` set (f_reg f) = zone_nodes" "pairs_agree (f_reg f)"
    "claim_of (f_reg f) k = Some (ow, g) \<Longrightarrow> ow \<in> {gw_id f, peer_id f} \<and> 1 \<le> g \<and> (ow = gw_id f \<longrightarrow> g = o_generation (f_own f))"
    "k \<in> zone_nodes \<longleftrightarrow> claim_of (f_reg f) k \<noteq> None"
  using assms peer_ids [of "gw_id f" "peer_id f"] claim_None [of "f_reg f" k] by (auto simp: fo_inv_def)

text \<open>The invariant only looks at identities, epochs and claims.\<close>

lemma fo_inv_frame:
  assumes "fo_inv f" "gw_id f' = gw_id f" "peer_id f' = peer_id f" "o_generation (f_own f') = o_generation (f_own f)"
    "o_peer_generation (f_own f) \<le> o_peer_generation (f_own f')"
    "map fst (f_reg f') = map fst (f_reg f)" "\<And>k. claim_of (f_reg f') k = claim_of (f_reg f) k"
  shows "fo_inv f'"
proof -
  have "fst ` set (f_reg f') = fst ` set (f_reg f)"
    using assms(6) by (metis set_map)
  with assms show ?thesis by (simp add: fo_inv_def pairs_agree_def)
qed

lemma persist_fields [simp]:
  "f_reg (persist_ownership f now io) = f_reg f" "gw_id (persist_ownership f now io) = gw_id f"
  "peer_id (persist_ownership f now io) = peer_id f"
  "o_generation (f_own (persist_ownership f now io)) = o_generation (f_own f)"
  "o_peer_generation (f_own (persist_ownership f now io)) = o_peer_generation (f_own f)"
  "f_recovery (persist_ownership f now io) = f_recovery f"
  "f_saved_role (persist_ownership f now io) = f_saved_role f"
  by (auto simp: persist_ownership_def split: option.splits sum.splits)

lemma persist_inv: "fo_inv f \<Longrightarrow> fo_inv (persist_ownership f now io)"
  by (rule fo_inv_frame) simp_all

lemma touch_keys: "map fst (touch reg k t now) = map fst reg"
  by (auto simp: touch_def keys_dset_present split: option.splits)

lemma register_inv: "fo_inv f \<Longrightarrow> fo_inv (snd (handle_register f m now))"
  by (erule fo_inv_frame) (simp_all add: handle_register_def Let_def touch_keys)

text \<open>What the rows of a heartbeat do to the claims.\<close>

definition advanced :: "string \<Rightarrow> int \<Rightarrow> (string \<times> int) option \<Rightarrow> pyval option \<Rightarrow> (string \<times> int) option" where
  "advanced peer g c row =
     (case (c, row) of
        (Some (ow, h), Some r) \<Rightarrow> if h < row_generation r \<and> row_generation r \<le> g then Some (peer, row_generation r) else c
      | _ \<Rightarrow> c)"

lemma claim_advance_row:
  "claim_of (advance_row peer g reg (k', r)) k = (if k = k' then advanced peer g (claim_of reg k) (Some r) else claim_of reg k)"
proof (cases "map_of reg k'")
  case None
  then show ?thesis by (auto simp: advance_row_def advanced_def claim_of_def)
next
  case (Some e)
  then have "claim_of reg k' = Some (n_owner e, n_generation e)" by (simp add: claim_of_def)
  with Some show ?thesis by (simp add: advance_row_def advanced_def)
qed

lemma advanced_idem: "advanced peer g (advanced peer g c r) r = advanced peer g c r"
  by (auto simp: advanced_def split: option.splits)

lemma claim_advance_rows:
  "claim_of (foldl (advance_row peer g) reg (map (\<lambda>k. (k, the (map_of snap k))) ks)) k =
     (if k \<in> set ks then advanced peer g (claim_of reg k) (Some (the (map_of snap k))) else claim_of reg k)"
  by (induction ks arbitrary: reg) (auto simp: claim_advance_row advanced_idem)

lemma claim_advance:
  "claim_of (foldl (advance_row peer g) reg (items snap)) k = advanced peer g (claim_of reg k) (map_of snap k)"
proof (cases "map_of snap k")
  case None
  then have "k \<notin> set (map fst snap)" by (simp add: map_of_eq_None_iff)
  with None show ?thesis
    unfolding items_def claim_advance_rows by (auto simp: advanced_def split: option.splits)
next
  case (Some r)
  then have "k \<in> set (map fst snap)" by (force dest: map_of_SomeD)
  with Some show ?thesis unfolding items_def claim_advance_rows by simp
qed

lemma keys_advance_row: "map fst (advance_row peer g reg e) = map fst reg"
  by (auto simp: advance_row_def split: option.splits)

lemma keys_advance: "map fst (foldl (advance_row peer g) reg es) = map fst reg"
  by (induction es arbitrary: reg) (simp_all add: keys_advance_row)


lemma row_generation_eq: "py_eq a b \<Longrightarrow> snapshot_row_ok p g a \<Longrightarrow> snapshot_row_ok p g b \<Longrightarrow> row_generation a = row_generation b"
proof -
  assume eq: "py_eq a b" and "snapshot_row_ok p g a" "snapshot_row_ok p g b"
  then obtain r q i j where "a = PDict r" "b = PDict q" "map_of r ''generation'' = Some (PInt i)"
    "map_of q ''generation'' = Some (PInt j)"
    by (auto simp: snapshot_row_ok_def integer_iff dgetn_eq split: pyval.splits)
  with py_eq_lookup [of r q "''generation''"] eq show ?thesis
    by (auto simp: row_generation_def dgetn_def)
qed

lemma heartbeat_snapshot:
  assumes "heartbeat_valid f m"
  obtains g snap where "dgetn (m_payload m) ''generation'' = PInt g" "1 \<le> g" "o_peer_generation (f_own f) \<le> g"
    "dgetd (m_payload m) ''ownership'' (PDict []) = PDict snap" "fst ` set snap \<subseteq> fst ` set (f_reg f)"
    "\<forall>k r. map_of snap k = Some r \<longrightarrow> snapshot_row_ok (peer_id f) g r"
    "\<forall>s c. (s, c) \<in> set CONTROLLER_OF_SENSOR \<longrightarrow> map_option row_generation (map_of snap s) = map_option row_generation (map_of snap c)"
proof -
  from assms obtain g snap where h: "dgetn (m_payload m) ''generation'' = PInt g" "1 \<le> g" "o_peer_generation (f_own f) \<le> g"
    "dgetd (m_payload m) ''ownership'' (PDict []) = PDict snap" "fst ` set snap \<subseteq> fst ` set (f_reg f)"
    "snapshot_pairs_ok snap" and rows: "list_all (\<lambda>(k, row). snapshot_row_ok (peer_id f) g row) (items snap)"
    unfolding heartbeat_valid_def by (auto simp: integer_iff Let_def split: pyval.splits)
  have ok: "snapshot_row_ok (peer_id f) g r" if "map_of snap k = Some r" for k r
    using rows that by (auto simp: list_all_iff mem_items)
  have "map_option row_generation (map_of snap s) = map_option row_generation (map_of snap c)"
    if "(s, c) \<in> set CONTROLLER_OF_SENSOR" for s c
  proof -
    from h(6) that have "(map_of snap s \<noteq> None) = (map_of snap c \<noteq> None) \<and>
        (case map_of snap s of None \<Rightarrow> True | Some a \<Rightarrow> py_eq a (dgetn snap c))"
      unfolding snapshot_pairs_ok_def list_all_iff by blast
    then show ?thesis
      using row_generation_eq [OF _ ok ok] by (cases "map_of snap s"; cases "map_of snap c") (auto simp: dgetn_def)
  qed
  with h ok that show ?thesis by blast
qed

lemma resume_generation [simp]: "o_generation ((f_own f)\<lparr>o_role := r\<rparr>) = o_generation (f_own f)"
  by simp

lemma heartbeat_inv:
  assumes inv: "fo_inv f"
  shows "fo_inv (snd (on_heartbeat f m now io))"
proof (cases "heartbeat_valid f m")
  case False
  show ?thesis
    by (rule fo_inv_frame [OF inv]) (simp_all add: on_heartbeat_def False)
next
  case True
  then obtain g snap where h: "dgetn (m_payload m) ''generation'' = PInt g" "1 \<le> g" "o_peer_generation (f_own f) \<le> g"
    "dgetd (m_payload m) ''ownership'' (PDict []) = PDict snap" "fst ` set snap \<subseteq> fst ` set (f_reg f)"
    "\<forall>k r. map_of snap k = Some r \<longrightarrow> snapshot_row_ok (peer_id f) g r"
    "\<forall>s c. (s, c) \<in> set CONTROLLER_OF_SENSOR \<longrightarrow> map_option row_generation (map_of snap s) = map_option row_generation (map_of snap c)"
    by (rule heartbeat_snapshot)
  let ?reg = "foldl (advance_row (peer_id f) g) (f_reg f) (items snap)"
  let ?f1 = "f\<lparr>f_reg := ?reg, f_own := (f_own f)\<lparr>o_peer_generation := g\<rparr>\<rparr>"
  have "fo_inv ?f1"
  proof -
    have "map fst ?reg = map fst (f_reg f)" by (rule keys_advance)
    then have k: "distinct (map fst ?reg)" "fst ` set ?reg = zone_nodes"
      using fo_invD(2,3) [OF inv] by (simp, metis set_map)
    have p: "pairs_agree ?reg"
    proof -
      have "claim_of ?reg s = claim_of ?reg c" if sc: "(s, c) \<in> set CONTROLLER_OF_SENSOR" for s c
      proof -
        have "claim_of (f_reg f) s = claim_of (f_reg f) c"
          using fo_invD(4) [OF inv] sc by (auto simp: pairs_agree_def)
        moreover have "map_option row_generation (map_of snap s) = map_option row_generation (map_of snap c)"
          using h(7) sc by blast
        ultimately show ?thesis
          unfolding claim_advance by (auto simp: advanced_def split: option.splits)
      qed
      then show ?thesis by (auto simp: pairs_agree_def)
    qed
    have c: "ow \<in> {gw_id f, peer_id f} \<and> 1 \<le> gg \<and> (ow = gw_id f \<longrightarrow> gg = o_generation (f_own f))"
      if "claim_of ?reg k = Some (ow, gg)" for k ow gg
    proof (cases "claim_of (f_reg f) k")
      case (Some x)
      obtain ow0 g0 where x: "x = (ow0, g0)" by force
      note old = fo_invD(5) [OF inv Some [unfolded x]]
      show ?thesis
        using that old fo_invD(1) [OF inv] unfolding claim_advance Some x
        by (auto simp: advanced_def split: option.splits if_splits)
    qed (use that in \<open>simp add: claim_advance advanced_def\<close>)
    show ?thesis
      using inv k p c h(2) by (auto simp: fo_inv_def)
  qed
  then show ?thesis
    by (rule fo_inv_frame) (use True h in \<open>simp_all add: on_heartbeat_def Let_def\<close>)
qed


section \<open>Takeover\<close>

lemma take_over_cases:
  assumes "take_over f now io = (out, f')" "out \<noteq> None \<or> f' \<noteq> f"
  obtains g reg mine where "\<not> f_fault f" "g = max (o_generation (f_own f)) (o_peer_generation (f_own f)) + 1"
    "f' = persist_ownership (f\<lparr>f_own := (f_own f)\<lparr>o_generation := g, o_role := ACTIVE\<rparr>, f_reg := reg,
        f_metrics := inc (f_metrics f) ''failovers'', f_recovery := False\<rparr>) (wall now) io"
    "map fst reg = map fst (f_reg f)" "out = (if f_fault f' then None else Some mine)"
    "distinct (map fst (f_reg f)) \<longrightarrow> (\<forall>k. (k \<in> set mine \<longleftrightarrow>
        (\<exists>h. claim_of (f_reg f) k = Some (gw_id f, h) \<or> claim_of (f_reg f) k = Some (peer_id f, h))) \<and>
       claim_of reg k = (if k \<in> set mine then Some (gw_id f, g) else claim_of (f_reg f) k))"
proof -
  let ?nodes = "owned_by (f_reg f) (peer_id f)"
  let ?g = "max (o_generation (f_own f)) (o_peer_generation (f_own f)) + 1"
  define o1 where "o1 = (f_own f)\<lparr>o_generation := ?g, o_role := ACTIVE\<rparr>"
  define reg1 where "reg1 = snd (own_takeover (f_own f) (f_reg f) ?nodes SENSOR now)"
  have t: "own_takeover (f_own f) (f_reg f) ?nodes SENSOR now = (o1, reg1)"
    by (simp add: o1_def reg1_def own_takeover_def Let_def)
  define mine where "mine = sort (owned_by reg1 (gw_id f))"
  define reg where "reg = snd (transfer reg1 mine (gw_id f) ?g)"
  define f1 where "f1 = f\<lparr>f_own := o1, f_reg := reg, f_metrics := inc (f_metrics f) ''failovers'', f_recovery := False\<rparr>"
  have go: "\<not> (f_fault f \<or> fenced f)"
    using assms by (auto simp: take_over_def)
  have o1s: "o_id o1 = gw_id f" "o_generation o1 = ?g" by (simp_all add: o1_def)
  have "take_over f now io = (if f_fault (persist_ownership f1 (wall now) io) then None else Some mine,
      persist_ownership f1 (wall now) io)"
    using go unfolding take_over_def t Let_def prod.case o1s f1_def reg_def mine_def by simp
  with assms(1) have f': "f' = persist_ownership f1 (wall now) io" and out: "out = (if f_fault f' then None else Some mine)"
    by auto
  have "\<forall>n \<in> set ?nodes. claim_of (f_reg f) n \<noteq> None"
    by (auto simp: owned_by_def claim_None)
  from keys_takeover [OF this, of "f_own f" SENSOR now] have k1: "map fst reg1 = map fst (f_reg f)"
    by (simp add: reg1_def)
  have keys: "map fst reg = map fst (f_reg f)"
    by (simp add: reg_def k1)
  have c1: "claim_of reg1 k = (if k \<in> set ?nodes then Some (gw_id f, ?g) else claim_of (f_reg f) k)" for k
    using claim_takeover [of "f_own f" "f_reg f" ?nodes SENSOR now k] by (simp add: reg1_def)
  have "(k \<in> set mine \<longleftrightarrow>
        (\<exists>h. claim_of (f_reg f) k = Some (gw_id f, h) \<or> claim_of (f_reg f) k = Some (peer_id f, h))) \<and>
       claim_of reg k = (if k \<in> set mine then Some (gw_id f, ?g) else claim_of (f_reg f) k)"
    if d: "distinct (map fst (f_reg f))" for k
  proof -
    have d1: "distinct (map fst reg1)" using d k1 by simp
    have mm: "k \<in> set mine \<longleftrightarrow> (\<exists>h. claim_of reg1 k = Some (gw_id f, h))"
      by (simp add: mine_def owned_by_claim [OF d1])
    show ?thesis
      unfolding reg_def claim_transfer mm unfolding c1 owned_by_claim [OF d] by auto
  qed
  with go keys f' out show thesis
    by (intro that [of ?g reg mine]) (simp_all add: f1_def o1_def)
qed

lemma take_over_inv:
  assumes inv: "fo_inv f" and t: "take_over f now io = (out, f')"
  shows "fo_inv f'"
proof (cases "out \<noteq> None \<or> f' \<noteq> f")
  case True
  obtain g reg mine where nf: "\<not> f_fault f" and g: "g = max (o_generation (f_own f)) (o_peer_generation (f_own f)) + 1"
    and f': "f' = persist_ownership (f\<lparr>f_own := (f_own f)\<lparr>o_generation := g, o_role := ACTIVE\<rparr>, f_reg := reg,
        f_metrics := inc (f_metrics f) ''failovers'', f_recovery := False\<rparr>) (wall now) io"
    and keys: "map fst reg = map fst (f_reg f)" and out: "out = (if f_fault f' then None else Some mine)"
    and cl: "distinct (map fst (f_reg f)) \<longrightarrow> (\<forall>k. (k \<in> set mine \<longleftrightarrow>
        (\<exists>h. claim_of (f_reg f) k = Some (gw_id f, h) \<or> claim_of (f_reg f) k = Some (peer_id f, h))) \<and>
       claim_of reg k = (if k \<in> set mine then Some (gw_id f, g) else claim_of (f_reg f) k))"
    by (rule take_over_cases [OF t True])
  note d = fo_invD [OF inv]
  have all: "claim_of reg k = (if k \<in> zone_nodes then Some (gw_id f, g) else None)" for k
    using cl d(2) d(5,6) [of k] by (cases "claim_of (f_reg f) k") fastforce+
  have "fo_inv (f\<lparr>f_own := (f_own f)\<lparr>o_generation := g, o_role := ACTIVE\<rparr>, f_reg := reg,
        f_metrics := inc (f_metrics f) ''failovers'', f_recovery := False\<rparr>)"
    (is "fo_inv ?f1")
  proof -
    have "fst ` set reg = zone_nodes"
      using keys d(3) by (metis set_map)
    moreover have "pairs_agree reg"
      by (auto simp: all pairs_agree_def pairs_of_sensor zone_nodes_def)
    moreover have "1 \<le> g" "(gw_id f, peer_id f) \<in> set PEER_OF" "0 \<le> o_peer_generation (f_own f)"
      using inv g by (auto simp: fo_inv_def)
    moreover have "distinct (map fst reg)" using keys d(2) by simp
    ultimately show ?thesis by (simp add: fo_inv_def all)
  qed
  then show ?thesis unfolding f' by (rule persist_inv)
qed (use inv in simp)

lemma evaluate_inv: "fo_inv f \<Longrightarrow> fo_inv (snd (snd (evaluate_peer f now io)))"
proof -
  assume inv: "fo_inv f"
  obtain out f' where t: "take_over f now io = (out, f')" by force
  have fr: "fo_inv (x\<lparr>f_peer_status := s\<rparr>)" if "fo_inv x" for x s
    by (rule fo_inv_frame [OF that]) simp_all
  from take_over_inv [OF inv t] fr inv t show ?thesis
    by (simp add: evaluate_peer_def Let_def)
qed


section \<open>Restart\<close>

definition row_claim :: "pyval \<Rightarrow> string \<times> int" where
  "row_claim row = (str_of (dgetn (dict_of row) ''owner_gateway''), int_of (dgetn (dict_of row) ''generation''))"

lemma claim_restore_rows:
  "claim_of (restore_rows reg rows) k =
     (if claim_of reg k = None then None else case map_of rows k of None \<Rightarrow> claim_of reg k | Some row \<Rightarrow> Some (row_claim row))"
proof -
  have "claim_of (foldl (\<lambda>r (node, row). snd (transfer r [node] (fst (row_claim row)) (snd (row_claim row)))) reg
      (map (\<lambda>k. (k, the (map_of rows k))) ks)) k =
     (if claim_of reg k \<noteq> None \<and> k \<in> set ks then Some (row_claim (the (map_of rows k))) else claim_of reg k)" for ks
    by (induction ks arbitrary: reg) auto
  from this [of "map fst rows"] have "claim_of (restore_rows reg rows) k =
     (if claim_of reg k \<noteq> None \<and> k \<in> set (map fst rows) then Some (row_claim (the (map_of rows k))) else claim_of reg k)"
    by (simp add: restore_rows_def items_def row_claim_def comp_def)
  moreover have "k \<in> set (map fst rows) \<longleftrightarrow> map_of rows k \<noteq> None"
    by (simp add: map_of_eq_None_iff)
  ultimately show ?thesis by (auto split: option.splits)
qed

lemma keys_restore_rows [simp]: "map fst (restore_rows reg rows) = map fst reg"
proof -
  have "map fst (foldl (\<lambda>r (node, row). snd (transfer r [node] (fst (row_claim row)) (snd (row_claim row)))) reg es) = map fst reg" for es
    by (induction es arbitrary: reg) auto
  then show ?thesis by (simp add: restore_rows_def row_claim_def)
qed

lemma row_claim_ok_cases:
  "row_claim_ok gw g row \<Longrightarrow> \<exists>r ow i. row = PDict r \<and> map_of r ''owner_gateway'' = Some (PStr ow) \<and>
     map_of r ''generation'' = Some (PInt i) \<and> row_claim row = (ow, i) \<and> dhas GATEWAY_PORTS ow \<and> 1 \<le> i \<and> (ow = gw \<longrightarrow> PInt i = g)"
  by (auto simp: row_claim_ok_def row_claim_def dgetn_def integer_iff split: pyval.splits option.splits)

lemma row_claim_eq:
  assumes "py_eq a b" "row_claim_ok gw g a" "row_claim_ok gw g b"
  shows "row_claim a = row_claim b"
proof -
  obtain r ow i where a: "a = PDict r" "map_of r ''owner_gateway'' = Some (PStr ow)" "map_of r ''generation'' = Some (PInt i)"
    "row_claim a = (ow, i)"
    using row_claim_ok_cases [OF assms(2)] by blast
  obtain q ow' j where b: "b = PDict q" "map_of q ''owner_gateway'' = Some (PStr ow')" "map_of q ''generation'' = Some (PInt j)"
    "row_claim b = (ow', j)"
    using row_claim_ok_cases [OF assms(3)] by blast
  show ?thesis
    using py_eq_lookup [of r q "''generation''"] py_eq_lookup [of r q "''owner_gateway''"] assms(1) a b by simp
qed

lemma ownership_validateD:
  assumes "ownership_validate gw nodes saved"
  obtains d i r p rows where "saved = PDict d" "map_of d ''generation'' = Some (PInt i)" "1 \<le> i"
    "map_of d ''peer_generation'' = Some (PInt p)" "0 \<le> p" "map_of d ''role'' = Some r" "map_of d ''ownership'' = Some (PDict rows)"
    "fst ` set rows = nodes" "\<forall>k row. map_of rows k = Some row \<longrightarrow> row_claim_ok gw (PInt i) row"
    "\<forall>s c. (s, c) \<in> set CONTROLLER_OF_SENSOR \<longrightarrow>
        (\<exists>a b. map_of rows s = Some a \<and> map_of rows c = Some b \<and> row_claim a = row_claim b)"
proof -
  from assms obtain d g r p rows where v: "saved = PDict d" "map_of d ''generation'' = Some g" "integer g 1"
    "map_of d ''peer_generation'' = Some p" "integer p 0" "map_of d ''role'' = Some r" "map_of d ''ownership'' = Some (PDict rows)"
    "fst ` set rows = nodes" and rows: "list_all (\<lambda>(k, row). row_claim_ok gw g row) (items rows)"
    and pairs: "list_all (rows_pair_ok rows) CONTROLLER_OF_SENSOR"
    unfolding ownership_validate_def by (auto split: pyval.splits option.splits)
  obtain i where i: "g = PInt i" "1 \<le> i" using v(3) by (auto simp: integer_iff)
  obtain j where j: "p = PInt j" "0 \<le> j" using v(5) by (auto simp: integer_iff)
  have ok: "row_claim_ok gw g row" if "map_of rows k = Some row" for k row
    using rows that by (auto simp: list_all_iff mem_items)
  have "\<exists>a b. map_of rows s = Some a \<and> map_of rows c = Some b \<and> row_claim a = row_claim b"
    if "(s, c) \<in> set CONTROLLER_OF_SENSOR" for s c
  proof -
    from pairs that have "rows_pair_ok rows (s, c)"
      unfolding list_all_iff by blast
    then obtain a b where "map_of rows s = Some a" "map_of rows c = Some b" "py_eq a b"
      by (auto simp: rows_pair_ok_def split: option.splits)
    with row_claim_eq ok show ?thesis by blast
  qed
  with v i j ok that show ?thesis by blast
qed

lemma dhas_peer: "(a, b) \<in> set PEER_OF \<Longrightarrow> dhas GATEWAY_PORTS ow \<Longrightarrow> ow \<in> {a, b}"
  by (auto simp: PEER_OF_def GATEWAY_PORTS_def split: if_splits)

lemma restore_inv:
  assumes inv: "fo_inv f"
  shows "fo_inv (restore_ownership f now io1 io2)"
proof (cases "f_store f")
  case None
  with inv show ?thesis by (simp add: restore_ownership_def)
next
  case (Some s)
  note d = fo_invD [OF inv]
  show ?thesis
  proof (cases "load s ''ownership'' (ownership_validate (gw_id f) (fst ` set (f_reg f))) False io1")
    case (Inl e)
    with Some fo_inv_frame [OF inv] show ?thesis by (simp add: restore_ownership_def)
  next
    case (Inr r)
    show ?thesis
    proof (cases r)
      case None
      with Inr Some persist_inv [OF inv] show ?thesis by (simp add: restore_ownership_def)
    next
      case r: (Some saved)
      have "ownership_validate (gw_id f) zone_nodes saved"
        using load_strict_slot0 [of s "''ownership''" _ io1 saved] Inr r d(3) by auto
      then obtain dd i rl p rows where v: "saved = PDict dd" "map_of dd ''generation'' = Some (PInt i)" "1 \<le> i"
        "map_of dd ''peer_generation'' = Some (PInt p)" "0 \<le> p" "map_of dd ''role'' = Some rl" "map_of dd ''ownership'' = Some (PDict rows)"
        "fst ` set rows = zone_nodes" "\<forall>k row. map_of rows k = Some row \<longrightarrow> row_claim_ok (gw_id f) (PInt i) row"
        "\<forall>s c. (s, c) \<in> set CONTROLLER_OF_SENSOR \<longrightarrow>
          (\<exists>a b. map_of rows s = Some a \<and> map_of rows c = Some b \<and> row_claim a = row_claim b)"
        by (rule ownership_validateD)
      let ?f = "restore_ownership f now io1 io2"
      have fs: "gw_id ?f = gw_id f" "peer_id ?f = peer_id f" "o_generation (f_own ?f) = i" "o_peer_generation (f_own ?f) = p"
        "f_reg ?f = restore_rows (f_reg f) rows"
        using v Some Inr r by (simp_all add: restore_ownership_def dgetn_def)
      have cl: "claim_of (f_reg ?f) k = (if k \<in> zone_nodes then map_option row_claim (map_of rows k) else None)" for k
      proof (cases "k \<in> zone_nodes")
        case True
        then obtain row where "map_of rows k = Some row"
          using v(8) by (metis map_of_eq_None_iff not_None_eq)
        with True d(6) [of k] show ?thesis by (auto simp: fs claim_restore_rows)
      qed (use d(6) [of k] in \<open>simp add: fs claim_restore_rows\<close>)
      have keys: "map fst (f_reg ?f) = map fst (f_reg f)" by (simp add: fs)
      have k: "distinct (map fst (f_reg ?f))" "fst ` set (f_reg ?f) = zone_nodes"
        using d(2,3) keys by (simp, metis set_map)
      have pa: "pairs_agree (f_reg ?f)"
      proof -
        have "claim_of (f_reg ?f) x = claim_of (f_reg ?f) y" if xy: "(x, y) \<in> set CONTROLLER_OF_SENSOR" for x y
        proof -
          from v(10) xy obtain a b where "map_of rows x = Some a" "map_of rows y = Some b" "row_claim a = row_claim b"
            by blast
          moreover have "x \<in> zone_nodes" "y \<in> zone_nodes"
            using xy by (auto simp: pairs_of_sensor zone_nodes_def)
          ultimately show ?thesis by (simp add: cl)
        qed
        then show ?thesis by (auto simp: pairs_agree_def)
      qed
      have pid: "(gw_id f, peer_id f) \<in> set PEER_OF" using inv by (simp add: fo_inv_def)
      have c: "ow \<in> {gw_id f, peer_id f} \<and> 1 \<le> g \<and> (ow = gw_id f \<longrightarrow> g = i)"
        if "claim_of (f_reg ?f) k = Some (ow, g)" for k ow g
      proof -
        from that obtain row where row: "map_of rows k = Some row" "row_claim row = (ow, g)"
          by (auto simp: cl split: if_splits)
        with v(9) have "row_claim_ok (gw_id f) (PInt i) row" by blast
        from row_claim_ok_cases [OF this] row(2) dhas_peer [OF pid, of ow] show ?thesis by auto
      qed
      show ?thesis
        unfolding fo_inv_def fs(1-4) using c by (intro conjI pid k pa v(3,5) allI impI) blast+
    qed
  qed
qed

lemma seed_claims:
  "claim_of (seed_registry gw peer a b c d g now) k =
     (if k = d \<or> k = c then Some (peer, INITIAL_GENERATION) else if k = b \<or> k = a then Some (gw, g) else None)"
  by (auto simp: seed_registry_def claim_of_def [of "[]"])

definition node_ids_of :: "string \<Rightarrow> string \<times> string" where
  "node_ids_of gw = (the (map_of SENSOR_OF gw), the (map_of CONTROLLER_OF gw))"

text \<open>A gateway with the configured node ids.\<close>

definition gateway_failover :: "string \<Rightarrow> string \<Rightarrow> real \<Rightarrow> store option \<Rightarrow> clocks \<Rightarrow> bool \<Rightarrow> bool \<Rightarrow> failover" where
  "gateway_failover gw peer timeout st now io1 io2 =
     failover_init gw peer (fst (node_ids_of gw)) (snd (node_ids_of gw)) (fst (node_ids_of peer)) (snd (node_ids_of peer))
       timeout st now io1 io2"


lemma peer_of_cases: "(gw, peer) \<in> set PEER_OF \<Longrightarrow> gw = ''A1'' \<and> peer = ''A2'' \<or> gw = ''A2'' \<and> peer = ''A1''"
  by (auto simp: PEER_OF_def)

definition fresh_failover :: "string \<Rightarrow> string \<Rightarrow> real \<Rightarrow> store option \<Rightarrow> clocks \<Rightarrow> failover" where
  "fresh_failover gw peer timeout st now =
     \<lparr>f_own = ownership_init gw peer INITIAL_GENERATION,
      f_reg = seed_registry gw peer (fst (node_ids_of gw)) (snd (node_ids_of gw)) (fst (node_ids_of peer))
        (snd (node_ids_of peer)) INITIAL_GENERATION now,
      f_store = st, f_fault = False, f_recovery = False, f_saved_role = STANDBY, f_metrics = [],
      f_last_seen = None, f_started = None, f_peer_status = UNKNOWN, f_last_tick = None,
      f_resume = None, f_standby_logged = False, f_timeout = timeout\<rparr>"

lemma gateway_failover_restore:
  "gateway_failover gw peer timeout st now io1 io2 = restore_ownership (fresh_failover gw peer timeout st now) (wall now) io1 io2"
  by (simp add: gateway_failover_def failover_init_def fresh_failover_def)

lemma fresh_inv: "(gw, peer) \<in> set PEER_OF \<Longrightarrow> fo_inv (fresh_failover gw peer timeout st now)"
proof -
  assume p: "(gw, peer) \<in> set PEER_OF"
  let ?reg = "f_reg (fresh_failover gw peer timeout st now)"
  have d: "distinct (map fst ?reg)"
    by (simp add: fresh_failover_def seed_registry_def upsert_def Let_def)
  have ids: "node_ids_of ''A1'' = (''B1'', ''C1'')" "node_ids_of ''A2'' = (''B2'', ''C2'')"
    by (simp_all add: node_ids_of_def SENSOR_OF_def CONTROLLER_OF_def)
  have cl: "claim_of ?reg k = (if k \<in> {fst (node_ids_of gw), snd (node_ids_of gw)} then Some (gw, 1)
      else if k \<in> {fst (node_ids_of peer), snd (node_ids_of peer)} then Some (peer, 1) else None)" for k
    using peer_of_cases [OF p] by (auto simp: fresh_failover_def seed_claims ids INITIAL_GENERATION_def)
  have k: "k \<in> fst ` set ?reg \<longleftrightarrow> k \<in> zone_nodes" for k
    using claim_None [of ?reg k] peer_of_cases [OF p] by (auto simp: cl ids zone_nodes_def split: if_splits)
  have own: "f_own (fresh_failover gw peer timeout st now) = ownership_init gw peer 1"
    by (simp add: fresh_failover_def INITIAL_GENERATION_def)
  have "pairs_agree ?reg"
    using peer_of_cases [OF p] by (auto simp: pairs_agree_def pairs_of_sensor cl ids)
  then show ?thesis
    using p d k by (auto simp: fo_inv_def own ownership_init_def cl split: if_splits)
qed

lemma gateway_failover_inv:
  "(gw, peer) \<in> set PEER_OF \<Longrightarrow> fo_inv (gateway_failover gw peer timeout st now io1 io2)"
  unfolding gateway_failover_restore by (intro restore_inv fresh_inv)

section \<open>Events\<close>

datatype fo_op =
    FStart real
  | FRegister message clocks
  | FHeartbeat message clocks bool
  | FTick real
  | FEvaluate clocks bool

fun fo_step :: "failover \<Rightarrow> fo_op \<Rightarrow> failover" where
  "fo_step f (FStart t) = f\<lparr>f_started := Some t\<rparr>"
| "fo_step f (FRegister m now) = snd (handle_register f m now)"
| "fo_step f (FHeartbeat m now io) = snd (on_heartbeat f m now io)"
| "fo_step f (FTick t) = monitor_tick f t"
| "fo_step f (FEvaluate now io) = snd (snd (evaluate_peer f now io))"

lemma tick_fields [simp]:
  "f_reg (monitor_tick f t) = f_reg f" "f_own (monitor_tick f t) = f_own f" "f_store (monitor_tick f t) = f_store f"
  "f_fault (monitor_tick f t) = f_fault f" "f_recovery (monitor_tick f t) = f_recovery f"
  by (auto simp: monitor_tick_def Let_def split: option.splits)

lemma register_fields [simp]:
  "f_own (snd (handle_register f m now)) = f_own f" "f_store (snd (handle_register f m now)) = f_store f"
  "f_fault (snd (handle_register f m now)) = f_fault f"
  "claim_of (f_reg (snd (handle_register f m now))) k = claim_of (f_reg f) k"
  by (simp_all add: handle_register_def Let_def)

lemma fo_step_inv: "fo_inv f \<Longrightarrow> fo_inv (fo_step f op)"
  by (cases op) (auto intro: register_inv heartbeat_inv evaluate_inv elim: fo_inv_frame)

lemma fo_run_inv: "fo_inv f \<Longrightarrow> fo_inv (run fo_step f ops)"
  by (induction ops arbitrary: f) (auto intro: fo_step_inv)

text \<open>Both epochs of a gateway as epoch registers.\<close>

lemma take_over_epochs:
  assumes "take_over f now io = (out, f')"
  shows "o_generation (f_own f) \<le> o_generation (f_own f')" "o_peer_generation (f_own f') = o_peer_generation (f_own f)"
proof -
  have "o_generation (f_own f) \<le> o_generation (f_own f') \<and> o_peer_generation (f_own f') = o_peer_generation (f_own f)"
  proof (cases "out \<noteq> None \<or> f' \<noteq> f")
    case True
    show ?thesis by (rule take_over_cases [OF assms True]) simp
  qed simp
  then show "o_generation (f_own f) \<le> o_generation (f_own f')" "o_peer_generation (f_own f') = o_peer_generation (f_own f)"
    by simp_all
qed

lemma evaluate_cases:
  assumes "evaluate_peer f now io = (st, out, f')"
  shows "f' = f \<or> f' = f\<lparr>f_peer_status := st\<rparr> \<or>
    (st = OFFLINE \<and> (\<exists>f1. take_over f now io = (out, f1) \<and> f' = f1\<lparr>f_peer_status := st\<rparr>))"
  using assms by (auto simp: evaluate_peer_def Let_def split: if_splits prod.splits)

lemma evaluate_epochs:
  "o_generation (f_own f) \<le> o_generation (f_own (snd (snd (evaluate_peer f now io))))"
  "o_peer_generation (f_own (snd (snd (evaluate_peer f now io)))) = o_peer_generation (f_own f)"
proof -
  obtain st out f' where e: "evaluate_peer f now io = (st, out, f')" by (metis prod_cases3)
  have "o_generation (f_own f) \<le> o_generation (f_own f') \<and> o_peer_generation (f_own f') = o_peer_generation (f_own f)"
    using evaluate_cases [OF e] take_over_epochs [of f now io out] by auto
  with e show "o_generation (f_own f) \<le> o_generation (f_own (snd (snd (evaluate_peer f now io))))"
    "o_peer_generation (f_own (snd (snd (evaluate_peer f now io)))) = o_peer_generation (f_own f)" by simp_all
qed

lemma heartbeat_epochs:
  "o_generation (f_own (snd (on_heartbeat f m now io))) = o_generation (f_own f)"
  "o_peer_generation (f_own f) \<le> o_peer_generation (f_own (snd (on_heartbeat f m now io)))"
  by (auto simp: on_heartbeat_def Let_def heartbeat_valid_def)

interpretation fo_epoch: epoch_register "\<lambda>f. o_generation (f_own f)" fo_step
proof
  fix s :: failover and e
  show "o_generation (f_own s) \<le> o_generation (f_own (fo_step s e))"
    by (cases e) (simp_all add: heartbeat_epochs evaluate_epochs)
qed

interpretation peer_epoch: epoch_register "\<lambda>f. o_peer_generation (f_own f)" fo_step
proof
  fix s :: failover and e
  show "o_peer_generation (f_own s) \<le> o_peer_generation (f_own (fo_step s e))"
    by (cases e) (simp_all add: heartbeat_epochs evaluate_epochs)
qed

text \<open>
  C19: sensor and controller of a zone never part. From the start of a gateway, with or without a
  checkpoint, through any registrations, heartbeats, watchdog ticks and takeovers and whatever
  the storage does, both nodes of a zone have the same owner and the same epoch, and everything the
  gateway owns it owns at its own current epoch.
\<close>

theorem zone_pairs_move_together:
  assumes "(gw, peer) \<in> set PEER_OF"
  shows "let f = run fo_step (gateway_failover gw peer timeout st now io1 io2) ops in
    (\<forall>(s, c) \<in> set CONTROLLER_OF_SENSOR. claim_of (f_reg f) s = claim_of (f_reg f) c)
    \<and> (\<forall>k g. claim_of (f_reg f) k = Some (gw_id f, g) \<longrightarrow> g = o_generation (f_own f))"
proof -
  have "fo_inv (run fo_step (gateway_failover gw peer timeout st now io1 io2) ops)"
    by (intro fo_run_inv gateway_failover_inv assms)
  then show ?thesis
    by (simp add: fo_inv_def pairs_agree_def Let_def)
qed

theorem zone_pairs_move_together_witness:
  "let f = run fo_step (gateway_failover ''A1'' ''A2'' 10 None \<lparr>wall = 0, mono_clock = 0\<rparr> True True)
        [FStart 0, FEvaluate \<lparr>wall = 20, mono_clock = 20\<rparr> True] in
    (\<forall>(s, c) \<in> set CONTROLLER_OF_SENSOR. claim_of (f_reg f) s = claim_of (f_reg f) c)
    \<and> (\<forall>k g. claim_of (f_reg f) k = Some (gw_id f, g) \<longrightarrow> g = o_generation (f_own f))"
  by (rule zone_pairs_move_together) (simp add: PEER_OF_def)

text \<open>
  C5: a takeover fences the peer. When a takeover reports success, its epoch is above the gateway's
  own and above every epoch the peer was heard to claim, the gateway is active, the peer owns
  nothing, and the gateway may control every node of both zones, each at the new epoch.
\<close>

theorem takeover_fences_peer:
  assumes "fo_inv f" "take_over f now io = (Some mine, f')"
  shows "max (o_generation (f_own f)) (o_peer_generation (f_own f)) < o_generation (f_own f')
    \<and> set mine = zone_nodes
    \<and> (\<forall>k \<in> zone_nodes. may_control (f_own f') (f_reg f') k \<and> generation_of (f_reg f') k = o_generation (f_own f'))
    \<and> owned_by (f_reg f') (peer_id f') = []"
proof -
  have t: "take_over f now io = (Some mine, f')" "Some mine \<noteq> None \<or> f' \<noteq> f" using assms by simp_all
  obtain g reg mine' where nf: "\<not> f_fault f" and g: "g = max (o_generation (f_own f)) (o_peer_generation (f_own f)) + 1"
    and f': "f' = persist_ownership (f\<lparr>f_own := (f_own f)\<lparr>o_generation := g, o_role := ACTIVE\<rparr>, f_reg := reg,
        f_metrics := inc (f_metrics f) ''failovers'', f_recovery := False\<rparr>) (wall now) io"
    and keys: "map fst reg = map fst (f_reg f)" and out: "Some mine = (if f_fault f' then None else Some mine')"
    and cl: "distinct (map fst (f_reg f)) \<longrightarrow> (\<forall>k. (k \<in> set mine' \<longleftrightarrow>
        (\<exists>h. claim_of (f_reg f) k = Some (gw_id f, h) \<or> claim_of (f_reg f) k = Some (peer_id f, h))) \<and>
       claim_of reg k = (if k \<in> set mine' then Some (gw_id f, g) else claim_of (f_reg f) k))"
    by (rule take_over_cases [OF t])
  note d = fo_invD [OF assms(1)]
  have all: "k \<in> set mine' \<longleftrightarrow> k \<in> zone_nodes" "claim_of reg k = (if k \<in> zone_nodes then Some (gw_id f, g) else None)" for k
    using cl d(2) d(5,6) [of k] by (cases "claim_of (f_reg f) k"; fastforce)+
  have nf': "\<not> f_fault f'" "mine = mine'" using out by (auto split: if_splits)
  have act: "o_role (f_own f') = ACTIVE"
    using nf' nf unfolding f' by (auto simp: persist_ownership_def split: option.splits sum.splits)
  have f's: "f_reg f' = reg" "gw_id f' = gw_id f" "peer_id f' = peer_id f" "o_generation (f_own f') = g"
    by (simp_all add: f')
  have "distinct (map fst (f_reg f'))" using keys d(2) f's by simp
  from owned_by_claim [OF this, of _ "peer_id f"] have "k \<notin> set (owned_by (f_reg f') (peer_id f'))" for k
    using d(1) by (simp add: f's all)
  then have "owned_by (f_reg f') (peer_id f') = []"
    by (metis list.set_intros(1) neq_Nil_conv)
  moreover have "set mine = zone_nodes" using all(1) nf'(2) by blast
  moreover have "may_control (f_own f') (f_reg f') k \<and> generation_of (f_reg f') k = o_generation (f_own f')" if "k \<in> zone_nodes" for k
    using that act by (simp add: may_control_def owns_claim generation_of_claim f's all)
  ultimately show ?thesis
    using g f's by simp
qed

theorem takeover_fences_peer_witness:
  "\<exists>mine f'. take_over (gateway_failover ''A1'' ''A2'' 10 None \<lparr>wall = 0, mono_clock = 0\<rparr> True True)
      \<lparr>wall = 20, mono_clock = 20\<rparr> True = (Some mine, f') \<and> set mine = zone_nodes
      \<and> may_control (f_own f') (f_reg f') ''C2''"
proof -
  let ?f = "gateway_failover ''A1'' ''A2'' 10 None \<lparr>wall = 0, mono_clock = 0\<rparr> True True"
  let ?c = "\<lparr>wall = 20, mono_clock = 20\<rparr>"
  have inv: "fo_inv ?f" by (rule gateway_failover_inv) (simp add: PEER_OF_def)
  have "claim_of (f_reg ?f) ''B2'' = Some (''A2'', 1)"
    by (simp add: gateway_failover_restore restore_ownership_def fresh_failover_def seed_claims node_ids_of_def
        SENSOR_OF_def CONTROLLER_OF_def INITIAL_GENERATION_def)
  then have "''B2'' \<in> set (owned_by (f_reg ?f) ''A2'')"
    using owned_by_claim [OF fo_invD(2) [OF inv]] by blast
  then have nfen: "\<not> fenced ?f"
    by (auto simp: fenced_def gateway_failover_restore restore_ownership_def fresh_failover_def ownership_init_def)
  obtain out f' where t: "take_over ?f ?c True = (out, f')" by force
  then have "out \<noteq> None"
    using nfen by (auto simp: take_over_def Let_def persist_ownership_def gateway_failover_restore
        restore_ownership_def fresh_failover_def split: prod.splits)
  then obtain mine where "take_over ?f ?c True = (Some mine, f')" using t by auto
  with takeover_fences_peer [OF inv this] show ?thesis
    by (auto simp: zone_nodes_def)
qed


section \<open>Fail closed\<close>

text \<open>
  equal epochs have no winner. A validated heartbeat in which the peer is active and claims, at
  the same epoch, a node that the gateway owns, demotes the gateway: afterwards it may control
  nothing, neither gateway id nor arrival order decides.
\<close>

theorem equal_epoch_conflict_demotes:
  assumes "heartbeat_valid f m" "dgetd (m_payload m) ''role'' (PStr ''ACTIVE'') = PStr ''ACTIVE''"
    and "dgetd (m_payload m) ''ownership'' (PDict []) = PDict snap" "map_of snap k = Some row"
    and "claim_of (f_reg f) k = Some (gw_id f, row_generation row)"
  shows "fst (on_heartbeat f m now io) \<and> \<not> may_control (f_own (snd (on_heartbeat f m now io))) reg node"
proof -
  let ?g = "int_of (dgetn (m_payload m) ''generation'')"
  let ?reg = "foldl (advance_row (peer_id f) ?g) (f_reg f) (items snap)"
  have "claim_of ?reg k = Some (gw_id f, row_generation row)"
    using assms(4,5) by (simp add: claim_advance advanced_def)
  then have "owns (f_own f) ?reg k" "generation_of ?reg k = row_generation row"
    by (auto simp: owns_claim generation_of_claim)
  then have c: "peer_conflict (f_own f) ?reg (m_payload m) snap"
    using assms(2,4) by (auto simp: peer_conflict_def list_ex_iff mem_items)
  then have "o_role (f_own (snd (on_heartbeat f m now io))) = STANDBY"
    using assms(1,3) by (auto simp: on_heartbeat_def Let_def resume_role_def persist_ownership_def
        split: option.splits sum.splits)
  with assms(1) show ?thesis
    by (simp add: may_control_def on_heartbeat_def Let_def)
qed

lemma persist_role: "o_role (f_own (persist_ownership f now io)) = ACTIVE \<Longrightarrow> o_role (f_own f) = ACTIVE"
  by (auto simp: persist_ownership_def split: option.splits sum.splits if_splits)

lemma heartbeat_role:
  assumes "o_role (f_own (snd (on_heartbeat f m now io))) = ACTIVE"
  shows "o_role (f_own f) = ACTIVE \<or>
    f_recovery f \<and> f_saved_role f = ACTIVE \<and> \<not> f_fault f \<and>
    o_peer_generation (f_own (snd (on_heartbeat f m now io))) \<le> o_generation (f_own f)"
proof (cases "heartbeat_valid f m")
  case True
  then show ?thesis
    using assms by (auto simp: on_heartbeat_def Let_def resume_role_def observe_peer_def
        dest!: persist_role split: if_splits)
qed (use assms in \<open>simp add: on_heartbeat_def\<close>)

text \<open>
  how a standby gateway becomes active. One event can do it only in two ways: a takeover, which
  needs the peer to be judged offline and gives a new epoch above both; or the first validated
  heartbeat after a restart, when the checkpoint was written while active, storage is healthy and
  the peer claims no epoch above the restored one.
\<close>

theorem only_takeover_or_recovery_promotes:
  assumes "o_role (f_own f) = STANDBY" "o_role (f_own (fo_step f op)) = ACTIVE"
  shows "(\<exists>now io. op = FEvaluate now io \<and> peer_health_now f (mono_clock now) = OFFLINE \<and> \<not> f_fault f
        \<and> max (o_generation (f_own f)) (o_peer_generation (f_own f)) < o_generation (f_own (fo_step f op)))
    \<or> (\<exists>m now io. op = FHeartbeat m now io \<and> f_recovery f \<and> f_saved_role f = ACTIVE \<and> \<not> f_fault f
        \<and> o_peer_generation (f_own (fo_step f op)) \<le> o_generation (f_own f))"
proof (cases op)
  case (FHeartbeat m now io)
  with assms heartbeat_role [of f m now io] show ?thesis by auto
next
  case (FEvaluate now io)
  obtain st out f' where e: "evaluate_peer f now io = (st, out, f')" by (metis prod_cases3)
  with assms FEvaluate have a: "o_role (f_own f') = ACTIVE" by simp
  with evaluate_cases [OF e] assms(1) obtain f1 where t: "st = OFFLINE" "take_over f now io = (out, f1)"
    "f' = f1\<lparr>f_peer_status := st\<rparr>" by auto
  from a t assms(1) have "f1 \<noteq> f" by auto
  then have ne: "out \<noteq> None \<or> f1 \<noteq> f" by simp
  have st: "peer_health_now f (mono_clock now) = st"
    using e by (auto simp: evaluate_peer_def Let_def split: if_splits prod.splits)
  have "\<not> f_fault f \<and> max (o_generation (f_own f)) (o_peer_generation (f_own f)) < o_generation (f_own f1)"
    by (rule take_over_cases [OF t(2) ne]) simp
  with FEvaluate e t st show ?thesis by simp
qed (use assms in simp_all)


end
