(* ===== verification/Recovery.thy ===== *)
theory Recovery
  imports Failover
begin

text \<open>
  Restart of a gateway with a durable ownership checkpoint: what is on disk at every moment, and
  what the next process makes of it. Then the concrete runs for the properties of \<open>Failover\<close>.
\<close>

section \<open>What the checkpoint holds\<close>

definition saved_as :: "failover \<Rightarrow> store \<Rightarrow> bool" where
  "saved_as f s \<longleftrightarrow> (\<exists>d rows. read_ns s ''ownership'' = Some (PDict d) \<and>
     ownership_validate (gw_id f) zone_nodes (PDict d) \<and>
     map_of d ''generation'' = Some (PInt (o_generation (f_own f))) \<and>
     map_of d ''peer_generation'' = Some (PInt (o_peer_generation (f_own f))) \<and>
     map_of d ''ownership'' = Some (PDict rows) \<and>
     (\<forall>k. map_option row_claim (map_of rows k) = claim_of (f_reg f) k))"

text \<open>
  A gateway without a storage fault has exactly its epochs and claims on disk; one with a fault
  is on standby.
\<close>

definition disk_inv :: "failover \<Rightarrow> bool" where
  "disk_inv f \<longleftrightarrow> (f_fault f \<longrightarrow> o_role (f_own f) = STANDBY) \<and>
     (\<not> f_fault f \<longrightarrow> (\<forall>s. f_store f = Some s \<longrightarrow> saved_as f s))"

lemma saved_as_cong:
  assumes "saved_as f s" "gw_id f' = gw_id f" "o_generation (f_own f') = o_generation (f_own f)"
    "o_peer_generation (f_own f') = o_peer_generation (f_own f)" "\<And>k. claim_of (f_reg f') k = claim_of (f_reg f) k"
  shows "saved_as f' s"
  using assms unfolding saved_as_def by simp

lemma claim_row_claim: "row_claim (canon (claim_row e)) = (n_owner e, n_generation e)"
  by (simp add: row_claim_def claim_row_def dgetn_def)

lemma claim_row_ok:
  "dhas GATEWAY_PORTS (n_owner e) \<Longrightarrow> 1 \<le> n_generation e \<Longrightarrow> (n_owner e = gw \<Longrightarrow> n_generation e = g) \<Longrightarrow>
     row_claim_ok gw (PInt g) (canon (claim_row e))"
  by (simp add: row_claim_ok_def claim_row_def)

definition claim_rows :: "registry \<Rightarrow> dict" where
  "claim_rows reg = map (\<lambda>(k, e). (k, claim_row e)) reg"

lemma map_of_claim_rows [simp]: "map_of (claim_rows reg) k = map_option claim_row (map_of reg k)"
  unfolding claim_rows_def by (induction reg) auto

lemma keys_claim_rows [simp]: "map fst (claim_rows reg) = map fst reg"
  by (auto simp: claim_rows_def case_prod_beta)

lemma ownership_value_fields:
  "map_of (canon_dict (ownership_value f)) ''gateway_id'' = Some (PStr (gw_id f))"
  "map_of (canon_dict (ownership_value f)) ''generation'' = Some (PInt (o_generation (f_own f)))"
  "map_of (canon_dict (ownership_value f)) ''role'' = Some (PStr (role_name (o_role (f_own f))))"
  "map_of (canon_dict (ownership_value f)) ''peer_generation'' = Some (PInt (o_peer_generation (f_own f)))"
  "map_of (canon_dict (ownership_value f)) ''ownership'' = Some (PDict (canon_dict (claim_rows (f_reg f))))"
  by (simp_all add: ownership_value_def claim_rows_def)

lemma ownership_value_valid:
  assumes inv: "fo_inv f"
  shows "ownership_validate (gw_id f) zone_nodes (canon (PDict (ownership_value f)))"
proof -
  note d = fo_invD [OF inv]
  let ?rows = "claim_rows (f_reg f)"
  have look: "map_of (canon_dict ?rows) k = map_option (\<lambda>e. canon (claim_row e)) (map_of (f_reg f) k)" for k
    by (simp add: option.map_comp comp_def)
  have pg: "dhas GATEWAY_PORTS (gw_id f)" "dhas GATEWAY_PORTS (peer_id f)"
    using inv peer_ids [of "gw_id f" "peer_id f"] by (simp_all add: fo_inv_def)
  have ok: "row_claim_ok (gw_id f) (PInt (o_generation (f_own f))) row" if r: "map_of (canon_dict ?rows) k = Some row" for k row
  proof -
    obtain e where e: "map_of (f_reg f) k = Some e" "row = canon (claim_row e)"
      using r by (auto simp: look)
    then have "claim_of (f_reg f) k = Some (n_owner e, n_generation e)" by (simp add: claim_of_def)
    from d(5) [OF this] pg show ?thesis
      unfolding e(2) by (intro claim_row_ok) auto
  qed
  have pairs: "rows_pair_ok (canon_dict ?rows) (s, c)"
    if sc: "(s, c) \<in> set CONTROLLER_OF_SENSOR" for s c
  proof -
    have z: "s \<in> zone_nodes" "c \<in> zone_nodes"
      using sc by (auto simp: pairs_of_sensor zone_nodes_def)
    have "claim_of (f_reg f) s = claim_of (f_reg f) c"
      using d(4) sc by (auto simp: pairs_agree_def)
    with z d(6) obtain a b where "map_of (f_reg f) s = Some a" "map_of (f_reg f) c = Some b"
      "n_owner a = n_owner b" "n_generation a = n_generation b"
      by (force simp: claim_of_def)
    then show ?thesis by (simp add: rows_pair_ok_def claim_row_def)
  qed
  have ks: "fst ` set (canon_dict ?rows) = zone_nodes"
  proof -
    have "set (map fst (canon_dict ?rows)) = set (map fst ?rows)"
      by (metis mset_keys_canon_dict set_mset_mset)
    with d(3) show ?thesis by (metis keys_claim_rows set_map)
  qed
  have r: "PStr (role_name (o_role (f_own f))) \<in> {PStr ''ACTIVE'', PStr ''STANDBY''}"
    by (cases "o_role (f_own f)") simp_all
  have g: "1 \<le> o_generation (f_own f)" "0 \<le> o_peer_generation (f_own f)"
    using inv by (simp_all add: fo_inv_def)
  have a1: "list_all (\<lambda>(k, row). row_claim_ok (gw_id f) (PInt (o_generation (f_own f))) row) (items (canon_dict ?rows))"
    unfolding list_all_iff using ok by (auto simp: mem_items simp del: map_of_canon_dict)
  have a2: "list_all (rows_pair_ok (canon_dict ?rows)) CONTROLLER_OF_SENSOR"
    unfolding list_all_iff using pairs by auto
  show ?thesis
    unfolding ownership_validate_def canon_PDict pyval.case ownership_value_fields prod.case option.case
    by (intro conjI refl r ks a1 a2) (simp_all add: g)
qed

lemma ownership_value_json: "json_ok (PDict (ownership_value f))"
  by (auto simp: ownership_value_def json_ok_PDict claim_row_def)

lemma persist_disk:
  assumes inv: "fo_inv f" and fl: "f_fault f \<Longrightarrow> o_role (f_own f) = STANDBY"
  shows "disk_inv (persist_ownership f now io)"
proof (cases "f_store f")
  case (Some s)
  show ?thesis
  proof (cases "f_fault f")
    case True
    with fl Some show ?thesis by (simp add: persist_ownership_def disk_inv_def)
  next
    case False
    show ?thesis
    proof (cases "save s ''ownership'' (PDict (ownership_value f)) now io")
      case (Inl e)
      with Some False show ?thesis by (simp add: persist_ownership_def disk_inv_def)
    next
      case (Inr s')
      let ?rows = "claim_rows (f_reg f)"
      have rd: "read_ns s' ''ownership'' = Some (PDict (canon_dict (ownership_value f)))"
        using Inr by (simp add: read_ns_def load_saved)
      have rows: "map_option row_claim (map_of (canon_dict ?rows) k) = claim_of (f_reg f) k" for k
        by (simp add: option.map_comp comp_def claim_row_claim claim_of_def)
      have "saved_as f s'"
        unfolding saved_as_def rd using ownership_value_valid [OF inv] rows
        by (intro exI [of _ "canon_dict (ownership_value f)"] exI [of _ "canon_dict ?rows"] conjI allI)
          (simp_all only: ownership_value_fields canon_PDict)
      then have "saved_as (f\<lparr>f_store := Some s'\<rparr>) s'" by (rule saved_as_cong) simp_all
      with Some False Inr show ?thesis by (simp add: persist_ownership_def disk_inv_def)
    qed
  qed
qed (use fl in \<open>simp add: persist_ownership_def disk_inv_def\<close>)


section \<open>Every operation keeps it\<close>

lemma disk_inv_frame:
  assumes "disk_inv f" "f_fault f' = f_fault f" "f_store f' = f_store f" "gw_id f' = gw_id f"
    "o_generation (f_own f') = o_generation (f_own f)" "o_peer_generation (f_own f') = o_peer_generation (f_own f)"
    "f_fault f \<Longrightarrow> o_role (f_own f') = STANDBY" "\<And>k. claim_of (f_reg f') k = claim_of (f_reg f) k"
  shows "disk_inv f'"
  using assms saved_as_cong [of f _ f'] by (auto simp: disk_inv_def)

lemma load_of_read:
  "read_ns s ns = Some v \<Longrightarrow> vd v \<Longrightarrow> load s ns vd False True = Inr (Some v)"
  by (auto simp: read_ns_def load_def Let_def row_value_def loads_def List.map_filter_def
      split: if_splits option.splits list.splits sum.splits jtext.splits)

lemma read_of_load: "load s ns vd False io = Inr (Some v) \<Longrightarrow> read_ns s ns = Some v \<and> vd v"
  using load_strict_slot0 [of s ns vd io v]
  by (auto simp: read_ns_def load_def Let_def row_value_def loads_def List.map_filter_def)

lemma restored_fields:
  assumes v: "map_of d ''generation'' = Some (PInt i)" "map_of d ''peer_generation'' = Some (PInt p)"
    "map_of d ''ownership'' = Some (PDict rows)"
    and s: "f_store f = Some s" and l: "load s ''ownership'' (ownership_validate (gw_id f) (fst ` set (f_reg f))) False io1 = Inr (Some (PDict d))"
  shows "o_generation (f_own (restore_ownership f now io1 io2)) = i"
    "o_peer_generation (f_own (restore_ownership f now io1 io2)) = p"
    "f_reg (restore_ownership f now io1 io2) = restore_rows (f_reg f) rows"
    "gw_id (restore_ownership f now io1 io2) = gw_id f" "f_fault (restore_ownership f now io1 io2) = f_fault f"
    "f_store (restore_ownership f now io1 io2) = Some s" "f_recovery (restore_ownership f now io1 io2)"
    "o_role (f_own (restore_ownership f now io1 io2)) = STANDBY"
    "f_saved_role (restore_ownership f now io1 io2) = role_of (dgetn d ''role'')"
  using v s l by (simp_all add: restore_ownership_def dgetn_def)

lemma restored_claims:
  assumes inv: "fo_inv f" and "fst ` set rows = zone_nodes"
  shows "claim_of (restore_rows (f_reg f) rows) k = map_option row_claim (map_of rows k)"
proof (cases "k \<in> zone_nodes")
  case True
  then obtain row where "map_of rows k = Some row"
    using assms(2) by (metis map_of_eq_None_iff not_None_eq)
  with True fo_invD(6) [OF inv, of k] show ?thesis by (auto simp: claim_restore_rows)
next
  case False
  then have "map_of rows k = None" "claim_of (f_reg f) k = None"
    using assms(2) fo_invD(6) [OF inv, of k] by (simp_all add: map_of_eq_None_iff del: not_None_eq)
  then show ?thesis by (simp add: claim_restore_rows)
qed

lemma restore_disk:
  assumes inv: "fo_inv f" and nf: "\<not> f_fault f"
  shows "disk_inv (restore_ownership f now io1 io2)"
proof (cases "f_store f")
  case None
  with nf show ?thesis by (simp add: restore_ownership_def disk_inv_def)
next
  case (Some s)
  let ?vd = "ownership_validate (gw_id f) (fst ` set (f_reg f))"
  show ?thesis
  proof (cases "load s ''ownership'' ?vd False io1")
    case (Inl e)
    with Some show ?thesis by (simp add: restore_ownership_def disk_inv_def)
  next
    case (Inr r)
    show ?thesis
    proof (cases r)
      case None
      with Inr Some persist_disk [OF inv] nf show ?thesis by (simp add: restore_ownership_def)
    next
      case r: (Some saved)
      with Inr have rd: "read_ns s ''ownership'' = Some saved" and val: "ownership_validate (gw_id f) zone_nodes saved"
        using read_of_load [of s _ ?vd io1 saved] fo_invD(3) [OF inv] by auto
      obtain d i p rl rows where v: "saved = PDict d" "map_of d ''generation'' = Some (PInt i)" "1 \<le> i"
        "map_of d ''peer_generation'' = Some (PInt p)" "0 \<le> p" "map_of d ''role'' = Some rl" "map_of d ''ownership'' = Some (PDict rows)"
        "fst ` set rows = zone_nodes" "\<forall>k row. map_of rows k = Some row \<longrightarrow> row_claim_ok (gw_id f) (PInt i) row"
        "\<forall>s c. (s, c) \<in> set CONTROLLER_OF_SENSOR \<longrightarrow>
          (\<exists>a b. map_of rows s = Some a \<and> map_of rows c = Some b \<and> row_claim a = row_claim b)"
        using val by (rule ownership_validateD)
      let ?f = "restore_ownership f now io1 io2"
      note fs = restored_fields [OF v(2,4,7) Some Inr [unfolded r v(1)]]
      have "saved_as ?f s"
        unfolding saved_as_def fs using rd v val restored_claims [OF inv v(8)] by auto
      with fs nf show ?thesis by (simp add: disk_inv_def)
    qed
  qed
qed

lemma gateway_failover_disk: "(gw, peer) \<in> set PEER_OF \<Longrightarrow> disk_inv (gateway_failover gw peer timeout st now io1 io2)"
  unfolding gateway_failover_restore by (intro restore_disk fresh_inv) (simp_all add: fresh_failover_def)

lemma heartbeat_persists:
  assumes "heartbeat_valid f m"
  obtains f2 where "snd (on_heartbeat f m now io) = persist_ownership f2 (wall now) io \<or>
      snd (on_heartbeat f m now io) = (persist_ownership f2 (wall now) io)\<lparr>f_standby_logged := True\<rparr>"
    "f_fault f2 = f_fault f" "f_fault f \<and> o_role (f_own f) = STANDBY \<longrightarrow> o_role (f_own f2) = STANDBY"
proof -
  define p where "p = m_payload m"
  define g where "g = int_of (dgetn p ''generation'')"
  define snap where "snap = dict_of (dgetd p ''ownership'' (PDict []))"
  define reg where "reg = foldl (advance_row (peer_id f) g) (f_reg f) (items snap)"
  define conflict where "conflict = peer_conflict (f_own f) reg p snap"
  define o1 where "o1 = observe_peer (f_own f) ONLINE (Some g)"
  define f1 where "f1 = f\<lparr>f_last_seen := Some (mono_clock now), f_resume := None, f_reg := reg,
     f_own := (if conflict then o1\<lparr>o_role := STANDBY\<rparr> else o1),
     f_metrics := (if conflict then inc (f_metrics f) ''peer_ownership_conflicts'' else f_metrics f)\<rparr>"
  define f2 where "f2 = f1\<lparr>f_own := (f_own f1)\<lparr>o_role := resume_role f1 conflict\<rparr>, f_recovery := False\<rparr>"
  have hb: "snd (on_heartbeat f m now io) = (if o_role (f_own f2) = STANDBY
      then (persist_ownership f2 (wall now) io)\<lparr>f_standby_logged := True\<rparr> else persist_ownership f2 (wall now) io)"
    using assms unfolding on_heartbeat_def Let_def f2_def f1_def o1_def conflict_def reg_def snap_def g_def p_def by simp
  have ft: "f_fault f2 = f_fault f" by (simp add: f2_def f1_def)
  have rl: "f_fault f \<and> o_role (f_own f) = STANDBY \<longrightarrow> o_role (f_own f2) = STANDBY"
    by (simp add: f2_def f1_def o1_def resume_role_def observe_peer_def Let_def)
  show thesis
  proof (rule that [of f2])
    show "snd (on_heartbeat f m now io) = persist_ownership f2 (wall now) io \<or>
      snd (on_heartbeat f m now io) = (persist_ownership f2 (wall now) io)\<lparr>f_standby_logged := True\<rparr>"
      using hb by auto
  qed (rule ft, rule rl)
qed

lemma disk_inv_logged:
  assumes d: "disk_inv f"
  shows "disk_inv (f\<lparr>f_standby_logged := b\<rparr>)"
  by (rule disk_inv_frame [OF d]) (use d in \<open>simp_all add: disk_inv_def\<close>)

lemma fo_inv_persisted:
  assumes "fo_inv (persist_ownership f now io)"
  shows "fo_inv f"
  by (rule fo_inv_frame [OF assms]) simp_all

lemma heartbeat_disk:
  assumes inv: "fo_inv f" and d: "disk_inv f"
  shows "disk_inv (snd (on_heartbeat f m now io))"
proof (cases "heartbeat_valid f m")
  case False
  show ?thesis
    by (rule disk_inv_frame [OF d]) (use d in \<open>simp_all add: on_heartbeat_def False disk_inv_def\<close>)
next
  case True
  obtain f2 where hb: "snd (on_heartbeat f m now io) = persist_ownership f2 (wall now) io \<or>
      snd (on_heartbeat f m now io) = (persist_ownership f2 (wall now) io)\<lparr>f_standby_logged := True\<rparr>"
    and ft: "f_fault f2 = f_fault f" and rl: "f_fault f \<and> o_role (f_own f) = STANDBY \<longrightarrow> o_role (f_own f2) = STANDBY"
    by (rule heartbeat_persists [OF True, where now = now and io = io])
  have "fo_inv (persist_ownership f2 (wall now) io)"
    using heartbeat_inv [OF inv, of m now io] hb
    by (auto elim!: fo_inv_frame)
  then have "fo_inv f2" by (rule fo_inv_persisted)
  then have "disk_inv (persist_ownership f2 (wall now) io)"
    by (rule persist_disk) (use ft rl d in \<open>auto simp: disk_inv_def\<close>)
  with hb disk_inv_logged show ?thesis by auto
qed

lemma take_over_disk:
  assumes inv: "fo_inv f" and d: "disk_inv f" and t: "take_over f now io = (out, f')"
  shows "disk_inv f'"
proof (cases "out \<noteq> None \<or> f' \<noteq> f")
  case True
  have i': "fo_inv f'" by (rule take_over_inv [OF inv t])
  show ?thesis
  proof (rule take_over_cases [OF t True])
    fix g reg mine
    assume "\<not> f_fault f" and f': "f' = persist_ownership (f\<lparr>f_own := (f_own f)\<lparr>o_generation := g, o_role := ACTIVE\<rparr>, f_reg := reg,
        f_metrics := inc (f_metrics f) ''failovers'', f_recovery := False\<rparr>) (wall now) io"
    then show ?thesis
      unfolding f' by (intro persist_disk fo_inv_persisted [OF i' [unfolded f']]) simp
  qed
qed (use d in simp)

lemma evaluate_disk:
  assumes inv: "fo_inv f" and d: "disk_inv f"
  shows "disk_inv (snd (snd (evaluate_peer f now io)))"
proof -
  have fr: "disk_inv (x\<lparr>f_peer_status := s\<rparr>)" if "disk_inv x" for x s
    by (rule disk_inv_frame [OF that]) (use that in \<open>simp_all add: disk_inv_def\<close>)
  obtain st out f' where e: "evaluate_peer f now io = (st, out, f')" by (metis prod_cases3)
  from evaluate_cases [OF e] show ?thesis
    using take_over_disk [OF inv d] fr d e by auto
qed

lemma fo_step_disk: "fo_inv f \<Longrightarrow> disk_inv f \<Longrightarrow> disk_inv (fo_step f op)"
proof (cases op)
  case (FStart t)
  assume "disk_inv f"
  then show ?thesis
    by (rule disk_inv_frame) (use \<open>disk_inv f\<close> in \<open>simp_all add: FStart disk_inv_def\<close>)
next
  case (FRegister m now)
  assume "disk_inv f"
  then show ?thesis
    by (rule disk_inv_frame) (use \<open>disk_inv f\<close> in \<open>simp_all add: FRegister disk_inv_def\<close>)
next
  case (FTick t)
  assume "disk_inv f"
  then show ?thesis
    by (rule disk_inv_frame) (use \<open>disk_inv f\<close> in \<open>simp_all add: FTick disk_inv_def\<close>)
qed (auto intro: heartbeat_disk evaluate_disk)

lemma fo_run_disk: "fo_inv f \<Longrightarrow> disk_inv f \<Longrightarrow> disk_inv (run fo_step f ops)"
  by (induction ops arbitrary: f) (auto intro: fo_step_disk fo_step_inv)

lemma gw_id_step: "gw_id (fo_step f op) = gw_id f"
proof (cases op)
  case (FEvaluate now io)
  obtain st out f' where e: "evaluate_peer f now io = (st, out, f')" by (metis prod_cases3)
  have "gw_id f1 = gw_id f" if t: "take_over f now io = (out, f1)" for f1
  proof (cases "out \<noteq> None \<or> f1 \<noteq> f")
    case True
    show ?thesis by (rule take_over_cases [OF t True]) simp
  qed simp
  with evaluate_cases [OF e] e FEvaluate show ?thesis by auto
qed (simp_all add: on_heartbeat_def Let_def)

lemma gw_id_run: "gw_id (run fo_step (gateway_failover gw peer timeout st now io1 io2) ops) = gw"
proof -
  have "gw_id (gateway_failover gw peer timeout st now io1 io2) = gw"
    by (auto simp: gateway_failover_restore restore_ownership_def fresh_failover_def ownership_init_def Let_def
        split: option.splits sum.splits)
  moreover have "gw_id (run fo_step f ops) = gw_id f" for f
    by (induction ops arbitrary: f) (simp_all add: gw_id_step)
  ultimately show ?thesis by simp
qed

text \<open>
  C4: a restart resumes exactly what was decided. After any run of a gateway with a store, faults of
  the storage included, either the gateway has noticed a fault and is on standby, or a process
  started from the disk at that moment comes up without a fault, on standby, with the same epochs
  and the same owner and epoch for every node, waiting for the peer before it may resume its role.
\<close>

theorem restart_resumes_ownership:
  assumes "(gw, peer) \<in> set PEER_OF"
    and "f = run fo_step (gateway_failover gw peer timeout st now io1 io2) ops" "f_store f = Some s"
    and "f2 = gateway_failover gw peer timeout2 (Some s) now2 True io3"
  shows "f_fault f \<and> o_role (f_own f) = STANDBY
    \<or> \<not> f_fault f2 \<and> o_role (f_own f2) = STANDBY \<and> f_recovery f2
      \<and> o_generation (f_own f2) = o_generation (f_own f) \<and> o_peer_generation (f_own f2) = o_peer_generation (f_own f)
      \<and> (\<forall>k. claim_of (f_reg f2) k = claim_of (f_reg f) k)"
proof (cases "f_fault f")
  case True
  have "disk_inv f"
    unfolding assms(2) by (intro fo_run_disk gateway_failover_inv gateway_failover_disk assms(1))
  with True show ?thesis by (simp add: disk_inv_def)
next
  case False
  have inv: "fo_inv f" and "disk_inv f"
    unfolding assms(2) by (intro fo_run_inv fo_run_disk gateway_failover_inv gateway_failover_disk assms(1))+
  then have sv: "saved_as f s"
    using False assms(3) by (simp add: disk_inv_def)
  have id: "gw_id f = gw"
    unfolding assms(2) by (rule gw_id_run)
  let ?fr = "fresh_failover gw peer timeout2 (Some s) now2"
  have fi: "fo_inv ?fr" by (rule fresh_inv [OF assms(1)])
  obtain d rows where d: "read_ns s ''ownership'' = Some (PDict d)" "ownership_validate gw zone_nodes (PDict d)"
    "map_of d ''generation'' = Some (PInt (o_generation (f_own f)))"
    "map_of d ''peer_generation'' = Some (PInt (o_peer_generation (f_own f)))"
    "map_of d ''ownership'' = Some (PDict rows)" "\<forall>k. map_option row_claim (map_of rows k) = claim_of (f_reg f) k"
    using sv id by (auto simp: saved_as_def)
  have frs: "f_store ?fr = Some s" "gw_id ?fr = gw" "\<not> f_fault ?fr"
    by (simp_all add: fresh_failover_def ownership_init_def)
  have "load s ''ownership'' (ownership_validate (gw_id ?fr) (fst ` set (f_reg ?fr))) False True = Inr (Some (PDict d))"
    unfolding frs fo_invD(3) [OF fi] by (rule load_of_read [where vd = "ownership_validate gw zone_nodes", OF d(1,2)])
  note r = restored_fields [OF d(3,4,5) frs(1) this, of "wall now2" io3, folded gateway_failover_restore, folded assms(4)]
  have "fst ` set rows = zone_nodes"
    using d(2,5) by (auto simp: ownership_validate_def split: option.splits)
  from restored_claims [OF fi this] d(6) r(3) have "\<forall>k. claim_of (f_reg f2) k = claim_of (f_reg f) k"
    by simp
  with r frs show ?thesis by simp
qed


section \<open>Concrete runs\<close>

definition clock_at :: "real \<Rightarrow> clocks" where
  "clock_at t = \<lparr>wall = t, mono_clock = t\<rparr>"

definition demo_gateway :: failover where
  "demo_gateway = gateway_failover ''A1'' ''A2'' 10 None (clock_at 0) True True"

lemma peer_A1: "(''A1'', ''A2'') \<in> set PEER_OF"
  by (simp add: PEER_OF_def)

lemma demo_gateway_fields:
  "f_own demo_gateway = ownership_init ''A1'' ''A2'' 1" "f_store demo_gateway = None" "\<not> f_fault demo_gateway"
  "f_timeout demo_gateway = 10" "f_last_seen demo_gateway = None" "f_peer_status demo_gateway = UNKNOWN"
  "f_resume demo_gateway = None"
  by (simp_all add: demo_gateway_def gateway_failover_restore restore_ownership_def fresh_failover_def INITIAL_GENERATION_def)

lemma demo_gateway_inv: "fo_inv demo_gateway"
  unfolding demo_gateway_def by (rule gateway_failover_inv [OF peer_A1])

lemma demo_gateway_claims:
  "claim_of (f_reg demo_gateway) ''B1'' = Some (''A1'', 1)" "claim_of (f_reg demo_gateway) ''C1'' = Some (''A1'', 1)"
  "claim_of (f_reg demo_gateway) ''B2'' = Some (''A2'', 1)" "claim_of (f_reg demo_gateway) ''C2'' = Some (''A2'', 1)"
  by (simp_all add: demo_gateway_def gateway_failover_restore restore_ownership_def fresh_failover_def seed_claims
      node_ids_of_def SENSOR_OF_def CONTROLLER_OF_def INITIAL_GENERATION_def)

definition demo_claim :: pyval where
  "demo_claim = PDict [(''owner_gateway'', PStr ''A2''), (''generation'', PInt 1)]"

definition demo_heartbeat :: message where
  "demo_heartbeat = new_message HEARTBEAT ''A2'' ''A1''
     [(''generation'', PInt 1), (''role'', PStr ''ACTIVE''),
      (''ownership'', PDict [(''B1'', demo_claim), (''C1'', demo_claim)])] 0 ''hb''"

theorem equal_epoch_conflict_demotes_witness:
  "heartbeat_valid demo_gateway demo_heartbeat
    \<and> \<not> may_control (f_own (snd (on_heartbeat demo_gateway demo_heartbeat (clock_at 1) True))) (f_reg demo_gateway) ''C1''"
proof -
  let ?snap = "[(''B1'', demo_claim), (''C1'', demo_claim)]"
  have snap: "dgetd (m_payload demo_heartbeat) ''ownership'' (PDict []) = PDict ?snap"
    by (simp add: demo_heartbeat_def dgetd_def)
  have keys: "fst ` set ?snap \<subseteq> fst ` set (f_reg demo_gateway)"
    unfolding fo_invD(3) [OF demo_gateway_inv] by (simp add: zone_nodes_def)
  have rows: "snapshot_row_ok ''A2'' 1 demo_claim"
    by (simp add: snapshot_row_ok_def demo_claim_def dgetn_def int_of_def)
  have pairs: "snapshot_pairs_ok ?snap"
    by (simp add: snapshot_pairs_ok_def CONTROLLER_OF_SENSOR_def dgetn_def)
  have v: "heartbeat_valid demo_gateway demo_heartbeat"
    using keys rows pairs unfolding heartbeat_valid_def Let_def snap pyval.case
    by (simp add: demo_gateway_fields ownership_init_def items_def demo_heartbeat_def dgetn_def dgetd_def int_of_def)
  have role: "dgetd (m_payload demo_heartbeat) ''role'' (PStr ''ACTIVE'') = PStr ''ACTIVE''"
    by (simp add: demo_heartbeat_def dgetd_def)
  have cl: "claim_of (f_reg demo_gateway) ''B1'' = Some (gw_id demo_gateway, row_generation demo_claim)"
    by (simp add: demo_gateway_claims demo_gateway_fields ownership_init_def row_generation_def demo_claim_def
        dgetn_def int_of_def dict_of_def)
  have "map_of ?snap ''B1'' = Some demo_claim" by simp
  from equal_epoch_conflict_demotes [OF v role snap this cl] v show ?thesis by blast
qed

theorem only_takeover_or_recovery_promotes_witness:
  "let f = demo_gateway\<lparr>f_own := (f_own demo_gateway)\<lparr>o_role := STANDBY\<rparr>, f_started := Some 0\<rparr> in
    o_role (f_own (fo_step f (FEvaluate (clock_at 20) True))) = ACTIVE
    \<and> max (o_generation (f_own f)) (o_peer_generation (f_own f)) < o_generation (f_own (fo_step f (FEvaluate (clock_at 20) True)))"
proof -
  let ?f = "demo_gateway\<lparr>f_own := (f_own demo_gateway)\<lparr>o_role := STANDBY\<rparr>, f_started := Some 0\<rparr>"
  have s: "o_role (f_own ?f) = STANDBY" by simp
  have a: "o_role (f_own (fo_step ?f (FEvaluate (clock_at 20) True))) = ACTIVE"
    by (simp add: evaluate_peer_def peer_health_now_def Let_def demo_gateway_fields clock_at_def take_over_def fenced_def
        persist_ownership_def case_prod_beta)
  from only_takeover_or_recovery_promotes [OF s a] a show ?thesis
    unfolding Let_def by auto
qed


theorem restart_resumes_ownership_witness:
  "\<exists>f s. f = run fo_step (gateway_failover ''A1'' ''A2'' 10 (Some (store_init demo_hash)) (clock_at 0) True True) [FStart 0]
    \<and> f_store f = Some s
    \<and> (f_fault f \<or> o_generation (f_own (gateway_failover ''A1'' ''A2'' 10 (Some s) (clock_at 9) True True)) = o_generation (f_own f))"
proof -
  let ?f0 = "gateway_failover ''A1'' ''A2'' 10 (Some (store_init demo_hash)) (clock_at 0) True True"
  let ?f = "run fo_step ?f0 [FStart 0]"
  have "f_store ?f0 \<noteq> None"
    by (auto simp: gateway_failover_restore restore_ownership_def persist_ownership_def fresh_failover_def Let_def
        split: sum.splits option.splits)
  then obtain s where s: "f_store ?f = Some s" by auto
  from restart_resumes_ownership [OF peer_A1 refl s refl, of 10 "clock_at 9" True] have
    "f_fault ?f \<or> o_generation (f_own (gateway_failover ''A1'' ''A2'' 10 (Some s) (clock_at 9) True True)) = o_generation (f_own ?f)"
    by blast
  with s show ?thesis by blast
qed

end
