(* ===== verification/SafetyGuard.thy ===== *)
theory SafetyGuard
  imports Prelude Interfaces Config Messages Checkpoint
begin

text \<open>
  \<^verbatim>\<open>controller_node/safety_guard.py\<close>: the check that every command passes before an actuator
  moves, the ownership epoch of the controller and its durable checkpoint. The clocks
  (\<^verbatim>\<open>time.time\<close>, \<^verbatim>\<open>time.monotonic\<close>) and the outcome of a storage call are inputs.
  The node's store object is shared with the command history, so it is passed in and
  returned instead of being a field.
\<close>

datatype reason =
    INVALID_TYPE | INVALID_COMMAND_ID | DUPLICATE_COMMAND_ID | EXPIRED | STALE_GENERATION
  | NOT_OWNER | INVALID_DURATION | DURATION_EXCEEDED | COOLDOWN_ACTIVE | STATE_UNAVAILABLE
  | RESULT_BACKPRESSURE

fun reason_name :: "reason \<Rightarrow> string" where
  "reason_name INVALID_TYPE = ''INVALID_TYPE''"
| "reason_name INVALID_COMMAND_ID = ''INVALID_COMMAND_ID''"
| "reason_name DUPLICATE_COMMAND_ID = ''DUPLICATE_COMMAND_ID''"
| "reason_name EXPIRED = ''EXPIRED''"
| "reason_name STALE_GENERATION = ''STALE_GENERATION''"
| "reason_name NOT_OWNER = ''NOT_OWNER''"
| "reason_name INVALID_DURATION = ''INVALID_DURATION''"
| "reason_name DURATION_EXCEEDED = ''DURATION_EXCEEDED''"
| "reason_name COOLDOWN_ACTIVE = ''COOLDOWN''"
| "reason_name STATE_UNAVAILABLE = ''STATE_UNAVAILABLE''"
| "reason_name RESULT_BACKPRESSURE = ''RESULT_BACKPRESSURE''"

record guard =
  g_max_duration :: "(string \<times> real) list"
  g_cooldown :: "(string \<times> real) list"
  g_ttl :: real
  g_executed :: "string set"
  g_last :: "string \<Rightarrow> real option"
  g_owner :: "string option"
  g_generation :: int
  g_fault :: bool

section \<open>Construction and recovery\<close>

definition guard_validate :: "pyval \<Rightarrow> bool" where
  "guard_validate saved =
     (case saved of
        PDict d \<Rightarrow>
          (case (map_of d ''highest_generation'', map_of d ''owner_gateway'') of
             (Some g, Some own) \<Rightarrow>
               integer g 1 \<and> (own = PNone \<or> own \<in> PStr ` set gateway_ids)
           | _ \<Rightarrow> False)
      | _ \<Rightarrow> False)"

definition guard_value :: "int \<Rightarrow> string \<Rightarrow> dict" where
  "guard_value generation owner =
     [(''highest_generation'', PInt generation), (''owner_gateway'', PStr owner),
      (''restart_actuator_state'', PStr ''OFF''), (''restart_cooldown'', PStr ''full'')]"

definition owner_field :: "pyval \<Rightarrow> string option" where
  "owner_field v = (case v of PStr s \<Rightarrow> Some s | _ \<Rightarrow> None)"

definition guard_init :: "(string \<times> real) list \<Rightarrow> (string \<times> real) list \<Rightarrow> real \<Rightarrow>
    store option \<Rightarrow> real \<Rightarrow> bool \<Rightarrow> guard" where
  "guard_init max_duration cooldown ttl st mclk io =
     (let g = \<lparr>g_max_duration = dmerge MAX_DURATION max_duration,
               g_cooldown = dmerge COOLDOWN cooldown, g_ttl = ttl,
               g_executed = {}, g_last = (\<lambda>_. None), g_owner = None,
               g_generation = INITIAL_GENERATION, g_fault = False\<rparr>
      in case st of
           None \<Rightarrow> g
         | Some s \<Rightarrow>
             (case load s ''controller'' guard_validate False io of
                Inl _ \<Rightarrow> g\<lparr>g_fault := True\<rparr>
              | Inr None \<Rightarrow> g
              | Inr (Some saved) \<Rightarrow>
                  g\<lparr>g_generation := int_of (dgetn (dict_of saved) ''highest_generation''),
                    g_owner := owner_field (dgetn (dict_of saved) ''owner_gateway''),
                    g_last := (\<lambda>l. if dhas (g_cooldown g) l then Some mclk else None)\<rparr>))"

section \<open>Ownership\<close>

definition set_ownership :: "guard \<Rightarrow> store option \<Rightarrow> string \<Rightarrow> pyval \<Rightarrow> real \<Rightarrow> bool \<Rightarrow>
    bool \<times> guard \<times> store option" where
  "set_ownership g st owner generation now io =
     (if \<not> is_int generation \<or> int_of generation < g_generation g \<or>
         (int_of generation = g_generation g \<and> g_owner g \<notin> {None, Some owner})
      then (False, g, st)
      else if g_fault g then (False, g, st)
      else let adopted = g\<lparr>g_owner := Some owner, g_generation := int_of generation\<rparr>
           in case st of
                None \<Rightarrow> (True, adopted, None)
              | Some s \<Rightarrow>
                  (case save s ''controller'' (PDict (guard_value (int_of generation) owner)) now io of
                     Inl _ \<Rightarrow> (False, g\<lparr>g_fault := True\<rparr>, Some s)
                   | Inr s' \<Rightarrow> (True, adopted, Some s')))"

section \<open>The check\<close>

text \<open>
  The clock arguments of \<^verbatim>\<open>check\<close>: an explicit monotonic time, else an explicit wall time,
  else the node's monotonic clock; and an explicit wall time, else the node's wall clock.
\<close>

definition elapsed_now :: "real option \<Rightarrow> real option \<Rightarrow> real \<Rightarrow> real" where
  "elapsed_now monotonic_now now mclk =
     (case monotonic_now of Some m \<Rightarrow> m | None \<Rightarrow> (case now of None \<Rightarrow> mclk | Some n \<Rightarrow> n))"

definition check :: "guard \<Rightarrow> pyval \<Rightarrow> pyval \<Rightarrow> pyval \<Rightarrow> pyval \<Rightarrow> real \<Rightarrow> real \<Rightarrow> pyval \<Rightarrow> string \<Rightarrow>
    reason option" where
  "check g command_id command_type duration issued_at now elapsed gateway_generation source_gateway =
     (if g_fault g then Some STATE_UNAVAILABLE
      else if \<not> is_str command_type \<or> \<not> dhas (g_max_duration g) (str_of command_type)
        then Some INVALID_TYPE
      else if \<not> nonempty_str command_id then Some INVALID_COMMAND_ID
      else if \<not> number issued_at \<or> num_of issued_at > now + g_ttl g \<or> now - num_of issued_at > g_ttl g
        then Some EXPIRED
      else if gateway_generation \<noteq> PNone \<and>
              (\<not> is_int gateway_generation \<or> int_of gateway_generation < g_generation g)
        then Some STALE_GENERATION
      else if source_gateway \<noteq> [] \<and> g_owner g \<notin> {None, Some []} \<and> Some source_gateway \<noteq> g_owner g \<and>
              (gateway_generation = PNone \<or> int_of gateway_generation \<le> g_generation g)
        then Some NOT_OWNER
      else if str_of command_id \<in> g_executed g then Some DUPLICATE_COMMAND_ID
      else if \<not> number duration \<or> num_of duration \<le> 0 then Some INVALID_DURATION
      else if num_of duration > the (map_of (g_max_duration g) (str_of command_type))
        then Some DURATION_EXCEEDED
      else (case g_last g (str_of command_type) of
          None \<Rightarrow> None
        | Some previous \<Rightarrow>
            if elapsed - previous < (case map_of (g_cooldown g) (str_of command_type) of None \<Rightarrow> 0 | Some c \<Rightarrow> c)
            then Some COOLDOWN_ACTIVE else None))"

definition guard_commit :: "guard \<Rightarrow> string \<Rightarrow> string \<Rightarrow> real \<Rightarrow> pyval \<Rightarrow> string \<Rightarrow> guard" where
  "guard_commit g command_id command_type elapsed gateway_generation source_gateway =
     (let g1 = g\<lparr>g_executed := insert command_id (g_executed g),
                 g_last := (g_last g)(command_type := Some elapsed)\<rparr>;
          g2 = (if gateway_generation \<noteq> PNone \<and> g_generation g1 < int_of gateway_generation
                then g1\<lparr>g_generation := int_of gateway_generation\<rparr> else g1)
      in if source_gateway \<noteq> [] \<and>
            (gateway_generation \<noteq> PNone \<and> g_generation g2 \<le> int_of gateway_generation \<or>
             gateway_generation = PNone \<and> g_owner g2 \<in> {None, Some source_gateway})
         then g2\<lparr>g_owner := Some source_gateway\<rparr> else g2)"

section \<open>What an admitted command satisfies\<close>

definition cooldown_of :: "guard \<Rightarrow> string \<Rightarrow> real" where
  "cooldown_of g t = (case map_of (g_cooldown g) t of None \<Rightarrow> 0 | Some c \<Rightarrow> c)"

lemma check_admits:
  assumes "check g cid ctype dur issued now elapsed gen src = None"
  obtains c t mx where "cid = PStr c" "c \<noteq> []" "ctype = PStr t" "map_of (g_max_duration g) t = Some mx"
    "\<not> g_fault g" "c \<notin> g_executed g" "number dur" "0 < num_of dur" "num_of dur \<le> mx"
    "number issued" "now - g_ttl g \<le> num_of issued" "num_of issued \<le> now + g_ttl g"
    "gen = PNone \<or> (\<exists>i. gen = PInt i \<and> g_generation g \<le> i)"
    "src = [] \<or> g_owner g \<in> {None, Some [], Some src} \<or> (\<exists>i. gen = PInt i \<and> g_generation g < i)"
    "\<forall>p. g_last g t = Some p \<longrightarrow> cooldown_of g t \<le> elapsed - p"
proof -
  from assms obtain c t where c: "cid = PStr c" "c \<noteq> []" and t: "ctype = PStr t" "dhas (g_max_duration g) t"
    unfolding check_def
    by (auto simp: is_str_iff nonempty_str_iff simp del: dhas_iff split: if_splits)
  then obtain mx where "map_of (g_max_duration g) t = Some mx" by auto
  with assms c t that show ?thesis
    unfolding check_def cooldown_of_def
    by (auto simp: is_int_iff not_less not_le split: if_splits option.splits)
qed

lemma set_ownership_True:
  assumes "set_ownership g st owner gen now io = (True, g', st')"
  obtains i where "gen = PInt i" "g_generation g \<le> i" "i = g_generation g \<Longrightarrow> g_owner g \<in> {None, Some owner}"
    "\<not> g_fault g" "g' = g\<lparr>g_owner := Some owner, g_generation := i\<rparr>" "(st = None) = (st' = None)"
    "\<forall>s. st = Some s \<longrightarrow> (\<exists>s'. st' = Some s' \<and>
       save s ''controller'' (PDict (guard_value i owner)) now io = Inr s')"
  using assms unfolding set_ownership_def
  by (auto simp: is_int_iff Let_def split: if_splits option.splits sum.splits)

lemma set_ownership_False:
  assumes "set_ownership g st owner gen now io = (False, g', st')"
  shows "st' = st \<and> (g' = g \<or> g' = g\<lparr>g_fault := True\<rparr>)"
  using assms unfolding set_ownership_def
  by (auto simp: Let_def split: if_splits option.splits sum.splits)

lemma set_ownership_generation:
  "g_generation g \<le> g_generation (fst (snd (set_ownership g st owner gen now io)))"
  by (auto simp: set_ownership_def Let_def split: option.splits sum.splits)

lemma commit_generation: "g_generation g \<le> g_generation (guard_commit g cid t e gen src)"
  by (auto simp: guard_commit_def Let_def)

text \<open>The guard's operations as steps, and its epoch as an epoch register.\<close>

datatype guard_op =
    SetOwner string pyval real bool
  | Commit string string real pyval string

fun guard_step :: "guard \<times> store option \<Rightarrow> guard_op \<Rightarrow> guard \<times> store option" where
  "guard_step (g, st) (SetOwner owner gen now io) = snd (set_ownership g st owner gen now io)"
| "guard_step (g, st) (Commit cid t e gen src) = (guard_commit g cid t e gen src, st)"

interpretation guard_epoch: epoch_register "\<lambda>s. g_generation (fst s)" guard_step
proof
  fix s :: "guard \<times> store option" and op
  obtain g st where s: "s = (g, st)" by force
  show "g_generation (fst s) \<le> g_generation (fst (guard_step s op))"
  proof (cases op)
    case (SetOwner owner gen now io)
    then show ?thesis
      using set_ownership_generation [of g st owner gen now io] by (simp add: s)
  qed (simp add: s commit_generation)
qed

text \<open>
  the split-brain guard. Once the controller has an epoch, a command that carries a lower
  gateway generation is refused after any further sequence of ownership changes and
  executions, whatever its other fields, and the only possible verdicts are
  \<open>STALE_GENERATION\<close> or one of the checks made before it.
\<close>

theorem stale_command_refused_forever:
  assumes "gen < g_generation (fst s)"
  shows "check (fst (run guard_step s ops)) cid ctype dur issued now elapsed (PInt gen) src
    \<in> Some ` {STATE_UNAVAILABLE, INVALID_TYPE, INVALID_COMMAND_ID, EXPIRED, STALE_GENERATION}"
proof -
  have "gen < g_generation (fst (run guard_step s ops))"
    using assms by (rule guard_epoch.stale_stays_stale)
  then show ?thesis
    by (simp add: check_def is_int_def)
qed

definition demo_guard :: guard where
  "demo_guard = (guard_init [] [] COMMAND_TTL None 0 True)\<lparr>g_generation := 3, g_owner := Some ''A2''\<rparr>"

theorem stale_command_refused_forever_witness:
  "check (fst (run guard_step (demo_guard, None) [SetOwner ''A2'' (PInt 4) 0 True]))
     (PStr ''c'') (PStr ''IRRIGATION'') (PInt 5) (PFloat (Fin 100)) 100 100 (PInt 2) ''A1''
    \<in> Some ` {STATE_UNAVAILABLE, INVALID_TYPE, INVALID_COMMAND_ID, EXPIRED, STALE_GENERATION}"
  by (rule stale_command_refused_forever) (simp add: demo_guard_def)

text \<open>
  every command the guard admits is safe: a known type, a non-empty id never executed
  before, a finite positive duration within the limit of its type, an issue time within the
  TTL of the wall clock in either direction, a generation that is not older than the accepted
  epoch, an issuer that is the owner or comes with a newer epoch, and the full cooldown since
  the last run of that type.
\<close>

theorem admitted_command_is_safe:
  assumes "check g cid ctype dur issued now elapsed gen src = None"
  shows "\<exists>c t mx. cid = PStr c \<and> c \<noteq> [] \<and> c \<notin> g_executed g \<and>
      ctype = PStr t \<and> map_of (g_max_duration g) t = Some mx \<and> 0 < num_of dur \<and> num_of dur \<le> mx \<and>
      \<bar>now - num_of issued\<bar> \<le> g_ttl g \<and>
      (gen = PNone \<or> (\<exists>i. gen = PInt i \<and> g_generation g \<le> i)) \<and>
      (src = [] \<or> g_owner g \<in> {None, Some [], Some src} \<or> (\<exists>i. gen = PInt i \<and> g_generation g < i)) \<and>
      (\<forall>p. g_last g t = Some p \<longrightarrow> cooldown_of g t \<le> elapsed - p)"
  using assms by (elim check_admits) (auto simp: abs_le_iff)

theorem admitted_command_is_safe_witness:
  "\<exists>c t mx. PStr ''c'' = PStr c \<and> PStr ''IRRIGATION'' = PStr t \<and>
     map_of (g_max_duration demo_guard) t = Some mx \<and> num_of (PInt 5) \<le> mx"
proof -
  have "check demo_guard (PStr ''c'') (PStr ''IRRIGATION'') (PInt 5) (PFloat (Fin 95)) 100 100 (PInt 3) ''A2'' = None"
    by (simp add: check_def demo_guard_def guard_init_def MAX_DURATION_def COMMAND_TTL_def
        nonempty_str_def)
  from admitted_command_is_safe [OF this] show ?thesis by blast
qed

section \<open>Recovery of the epoch\<close>

lemma guard_value_canon:
  "map_of (canon_dict (guard_value i own)) ''highest_generation'' = Some (PInt i)"
  "map_of (canon_dict (guard_value i own)) ''owner_gateway'' = Some (PStr own)"
  by (simp_all add: guard_value_def)

lemma guard_validate_value:
  "1 \<le> i \<Longrightarrow> own \<in> set gateway_ids \<Longrightarrow> guard_validate (canon (PDict (guard_value i own)))"
  using guard_value_canon [of i own] by (simp add: guard_validate_def del: map_of_canon_dict)

lemma guard_init_fault: "g_fault (guard_init md cd ttl (Some s) mclk io) \<longleftrightarrow>
    (\<exists>e. load s ''controller'' guard_validate False io = Inl e)"
  by (auto simp: guard_init_def Let_def split: sum.splits option.splits)

lemma guard_init_limits [simp]:
  "g_max_duration (guard_init md cd ttl st mclk io) = dmerge MAX_DURATION md"
  "g_cooldown (guard_init md cd ttl st mclk io) = dmerge COOLDOWN cd"
  "g_ttl (guard_init md cd ttl st mclk io) = ttl"
  "g_executed (guard_init md cd ttl st mclk io) = {}"
  by (auto simp: guard_init_def Let_def split: sum.splits option.splits)

lemma guard_init_saved:
  assumes sv: "save s ''controller'' (PDict (guard_value i own)) now io = Inr s'"
    and i: "1 \<le> i" and own: "own \<in> set gateway_ids"
  shows "g_generation (guard_init md cd ttl (Some s') mclk True) = i"
    "g_owner (guard_init md cd ttl (Some s') mclk True) = Some own"
    "\<not> g_fault (guard_init md cd ttl (Some s') mclk True)"
    "g_last (guard_init md cd ttl (Some s') mclk True) t =
       (if dhas (dmerge COOLDOWN cd) t then Some mclk else None)"
  using load_saved [where validator = guard_validate and ap = False, OF sv guard_validate_value [OF i own]]
  by (simp_all add: guard_init_def Let_def dgetn_def guard_value_canon owner_field_def
      del: map_of_canon_dict dhas_iff)




text \<open>
  the guard persists an owner that its own validator refuses. A command with a higher epoch
  from a sender that is not one of the configured gateways is adopted and written to the
  checkpoint; the next start reads a checkpoint that is not valid and the controller comes up
  with its persistence fault set, so it refuses every command.
\<close>

theorem foreign_owner_disables_restart:
  assumes "set_ownership g (Some s) owner generation now io = (True, g', Some s')" "owner \<notin> set gateway_ids"
  shows "g_fault (guard_init md cd ttl (Some s') mclk True)
    \<and> check (guard_init md cd ttl (Some s') mclk True) cid ct d ts now2 el gen src = Some STATE_UNAVAILABLE"
proof -
  obtain i where sv: "save s ''controller'' (PDict (guard_value i owner)) now io = Inr s'"
    using assms(1) by (auto elim!: set_ownership_True)
  obtain r where r: "st_rows s' (''controller'', 0) = Some r" "r_raw r = JText (canon (PDict (guard_value i owner)))"
    "r_checksum r = st_digest s' (JText (canon (PDict (guard_value i owner))))"
    by (rule save_slot0 [OF sv])
  have "\<not> guard_validate (canon (PDict (guard_value i owner)))"
    using assms(2) by (auto simp: guard_validate_def guard_value_def)
  with r have "load s' ''controller'' guard_validate False True = Inl (StateErr ''no valid checkpoint'')"
    by (simp add: load_def Let_def List.map_filter_def row_value_def loads_def)
  then show ?thesis
    by (simp add: guard_init_def Let_def check_def)
qed

theorem foreign_owner_disables_restart_witness:
  "\<exists>s' g'. set_ownership demo_guard (Some (store_init demo_hash)) ''X9'' (PInt 7) 0 True = (True, g', Some s')
    \<and> g_fault (guard_init [] [] 10 (Some s') 0 True)"
proof -
  have "json_ok (PDict (guard_value 7 ''X9''))"
    by (simp add: guard_value_def json_ok_PDict)
  from save_ok [OF this] obtain s' where s': "save (store_init demo_hash) ''controller'' (PDict (guard_value 7 ''X9'')) 0 True = Inr s'"
    by blast
  have "\<exists>g'. set_ownership demo_guard (Some (store_init demo_hash)) ''X9'' (PInt 7) 0 True = (True, g', Some s')"
    using s' by (simp add: set_ownership_def demo_guard_def guard_init_def Let_def is_int_def int_of_def INITIAL_GENERATION_def)
  then obtain g' where "set_ownership demo_guard (Some (store_init demo_hash)) ''X9'' (PInt 7) 0 True = (True, g', Some s')"
    by blast
  with foreign_owner_disables_restart [OF this, of "[]" "[]" 10 0] show ?thesis
    by (auto simp: gateway_ids_def GATEWAY_PORTS_def)
qed

end
