(* ===== verification/RecentCommands.thy ===== *)
theory RecentCommands
  imports Prelude Interfaces Config Messages Checkpoint
begin

text \<open>
  \<^verbatim>\<open>controller_node/recent_commands.py\<close>: one bounded checkpoint for command intents,
  outcomes and result delivery. Rows and pending results are the dictionaries of the code;
  entries keep insertion order (\<^verbatim>\<open>OrderedDict\<close>). The shared store object is passed in and
  returned; \<open>None\<close> is a node without durable state. Every operation works on a copy and
  publishes it only after the save, so an error returns no new state.
\<close>

definition RESULT_CONTRACT :: string where
  "RESULT_CONTRACT = ''controller-result-durable-v1''"

record recent =
  rc_capacity :: nat
  rc_retention :: real
  rc_entries :: "(string \<times> dict) list"
  rc_pending :: "(string \<times> dict) list"

section \<open>Validation of a saved checkpoint\<close>

definition with_contract :: "dict \<Rightarrow> dict" where
  "with_contract d = dset d ''delivery_contract'' (PStr RESULT_CONTRACT)"

definition result_wire_ok :: "dict \<Rightarrow> bool" where
  "result_wire_ok r =
     (case dgetn r ''result_message'' of
        PNone \<Rightarrow> True
      | wire \<Rightarrow>
          (case (from_dict wire, dgetn r ''result'') of
             (Inr m, PDict result) \<Rightarrow>
               m_type m = CONTROL_RESULT \<and> py_eq (PDict (m_payload m)) (PDict (with_contract result))
           | _ \<Rightarrow> False))"

definition row_ok :: "pyval \<Rightarrow> bool" where
  "row_ok row =
     (case row of
        PDict r \<Rightarrow>
          (case (map_of r ''command_id'', map_of r ''state'', map_of r ''result'') of
             (Some cid, Some state, Some result) \<Rightarrow>
               is_str cid \<and> 1 \<le> length (str_of cid) \<and> length (str_of cid) \<le> 256 \<and>
               (case map_of r ''retain_until'' of None \<Rightarrow> True | Some u \<Rightarrow> number u \<and> 0 \<le> num_of u) \<and>
               (state = PStr ''INTENT'' \<and> result = PNone \<or>
                state = PStr ''COMPLETED'' \<and> is_dict result \<and>
                  map_of (dict_of result) ''status'' = Some (PStr ''EXECUTED'')) \<and>
               result_wire_ok r
           | _ \<Rightarrow> False)
      | _ \<Rightarrow> False)"

definition row_id :: "pyval \<Rightarrow> string" where
  "row_id row = str_of (dgetn (dict_of row) ''command_id'')"

definition pending_ok :: "string \<Rightarrow> pyval \<Rightarrow> bool" where
  "pending_ok key raw =
     (case from_dict raw of
        Inl _ \<Rightarrow> False
      | Inr m \<Rightarrow> m_id m = key \<and> m_type m = CONTROL_RESULT \<and>
          dgetn (m_payload m) ''delivery_contract'' = PStr RESULT_CONTRACT)"

definition recent_validate :: "pyval \<Rightarrow> bool" where
  "recent_validate saved =
     (case saved of
        PDict d \<Rightarrow>
          (case (map_of d ''schema_version'', map_of d ''capacity'', map_of d ''entries'') of
             (Some sv, Some cap, Some (PList rows)) \<Rightarrow>
               sv \<in> {PInt 1, PInt 2} \<and> integer cap 1 \<and> int_of cap \<le> 1024 \<and>
               int (length rows) \<le> int_of cap \<and> list_all row_ok rows \<and> distinct (map row_id rows) \<and>
               (case dgetd d ''pending_results'' (PDict []) of
                  PDict pending \<Rightarrow>
                    int (length pending) \<le> int_of cap \<and> list_all (\<lambda>(k, raw). pending_ok k raw) pending
                | _ \<Rightarrow> False)
           | _ \<Rightarrow> False)
      | _ \<Rightarrow> False)"

section \<open>Trimming and saving\<close>

definition protected_ids :: "(string \<times> dict) list \<Rightarrow> pyval set" where
  "protected_ids pending = (\<lambda>(k, m). dgetn (dict_of (dgetn m ''payload'')) ''command_id'') ` set pending"

text \<open>
  Building the protected set indexes every pending message: a payload without an id, or with
  one that a set cannot hold, raises.
\<close>

definition pending_error :: "dict \<Rightarrow> py_error option" where
  "pending_error m =
     (case map_of m ''payload'' of
        Some (PDict p) \<Rightarrow>
          (case map_of p ''command_id'' of
             None \<Rightarrow> Some KeyErr
           | Some cid \<Rightarrow> if hashable cid then None else Some (TypeErr ''unhashable type''))
      | Some _ \<Rightarrow> Some (TypeErr ''payload is not a mapping'')
      | None \<Rightarrow> Some KeyErr)"

definition pending_errors :: "(string \<times> dict) list \<Rightarrow> py_error list" where
  "pending_errors pending = List.map_filter (\<lambda>(_, m). pending_error m) pending"

definition evictable :: "pyval set \<Rightarrow> real \<Rightarrow> string \<times> dict \<Rightarrow> bool" where
  "evictable prot now e \<longleftrightarrow>
     dgetn (snd e) ''state'' = PStr ''COMPLETED'' \<and> PStr (fst e) \<notin> prot \<and>
     num_of (dgetd (snd e) ''retain_until'' (PInt 0)) < now"

function trim :: "nat \<Rightarrow> pyval set \<Rightarrow> real \<Rightarrow> (string \<times> dict) list \<Rightarrow>
    py_error + (string \<times> dict) list" where
  "trim capacity prot now entries =
     (if length entries \<le> capacity then Inr entries
      else case find (evictable prot now) entries of
          None \<Rightarrow> Inl (BackpressureErr ''recent command window full of unconfirmed outcomes'')
        | Some victim \<Rightarrow> trim capacity prot now (ddel entries (fst victim)))"
  by pat_completeness auto
termination
proof (relation "measure (\<lambda>(_, _, _, es). length es)")
  fix capacity :: nat and prot and now :: real and entries :: "(string \<times> dict) list" and victim
  assume "find (evictable prot now) entries = Some victim"
  then have "victim \<in> set entries"
    by (auto simp: find_Some_iff)
  then have "map_of entries (fst victim) \<noteq> None"
    by (auto simp: map_of_eq_None_iff)
  then show "((capacity, prot, now, ddel entries (fst victim)), capacity, prot, now, entries)
      \<in> measure (\<lambda>(_, _, _, es). length es)"
    by (simp add: length_ddel_less)
qed simp

declare trim.simps [simp del]

definition rc_trim :: "nat \<Rightarrow> (string \<times> dict) list \<Rightarrow> real \<Rightarrow> (string \<times> dict) list \<Rightarrow>
    py_error + (string \<times> dict) list" where
  "rc_trim capacity pending now entries =
     (case pending_errors pending of
        e # _ \<Rightarrow> Inl e
      | [] \<Rightarrow> trim capacity (protected_ids pending) now entries)"

definition recent_value :: "nat \<Rightarrow> (string \<times> dict) list \<Rightarrow> (string \<times> dict) list \<Rightarrow> dict" where
  "recent_value capacity entries pending =
     [(''schema_version'', PInt 2), (''capacity'', PInt (int capacity)),
      (''entries'', PList (map (PDict \<circ> snd) entries)),
      (''pending_results'', PDict (map (\<lambda>(k, m). (k, PDict m)) pending))]"

definition rc_save :: "recent \<Rightarrow> store option \<Rightarrow> (string \<times> dict) list \<Rightarrow> (string \<times> dict) list \<Rightarrow>
    real \<Rightarrow> bool \<Rightarrow> py_error + store option" where
  "rc_save rc st entries pending now io =
     (case st of
        None \<Rightarrow> Inr None
      | Some s \<Rightarrow>
          (case save s ''recent_commands'' (PDict (recent_value (rc_capacity rc) entries pending)) now io of
             Inl e \<Rightarrow> Inl e | Inr s' \<Rightarrow> Inr (Some s')))"

section \<open>Operations\<close>

definition retain_until :: "recent \<Rightarrow> dict option \<Rightarrow> real \<Rightarrow> pyval" where
  "retain_until rc context now =
     (if rc_retention rc = 0 then PInt 0
      else PFloat (Fin ((case context of
             Some ctx \<Rightarrow> if ctx = [] then now
               else num_of (dgetd ctx ''issued_at'' (PFloat (Fin now)))
           | None \<Rightarrow> now) + rc_retention rc)))"

definition intent_row :: "recent \<Rightarrow> string \<Rightarrow> dict option \<Rightarrow> real \<Rightarrow> dict" where
  "intent_row rc cid context now =
     [(''command_id'', PStr cid), (''state'', PStr ''INTENT''), (''result'', PNone),
      (''context'', case context of None \<Rightarrow> PNone | Some c \<Rightarrow> PDict c),
      (''retain_until'', retain_until rc context now)]"

definition rc_begin :: "recent \<Rightarrow> store option \<Rightarrow> string \<Rightarrow> dict option \<Rightarrow> real \<Rightarrow> bool \<Rightarrow>
    py_error + recent \<times> store option" where
  "rc_begin rc st cid context now io =
     (if \<not> (1 \<le> length cid \<and> length cid \<le> 256) then Inl (StateErr ''invalid durable command id'')
      else if dhas (rc_entries rc) cid then Inl (StateErr ''command already admitted'')
      else if st \<noteq> None \<and> rc_capacity rc \<le> length (rc_pending rc)
        then Inl (BackpressureErr ''result delivery capacity full'')
      else case rc_trim (rc_capacity rc) (rc_pending rc) now
                  (dset (rc_entries rc) cid (intent_row rc cid context now)) of
          Inl e \<Rightarrow> Inl e
        | Inr candidate \<Rightarrow>
            (case rc_save rc st candidate (rc_pending rc) now io of
               Inl e \<Rightarrow> Inl e
             | Inr st' \<Rightarrow> Inr (rc\<lparr>rc_entries := candidate\<rparr>, st')))"

definition with_result :: "recent \<Rightarrow> store option \<Rightarrow> message option \<Rightarrow> py_error + (string \<times> dict) list" where
  "with_result rc st message =
     (case message of
        None \<Rightarrow> Inr (rc_pending rc)
      | Some m \<Rightarrow>
          if st = None then Inr (rc_pending rc)
          else (case map_of (rc_pending rc) (m_id m) of
              Some old \<Rightarrow>
                if \<not> py_eq (PDict old) (PDict (to_dict m)) then Inl (StateErr ''result identity conflict'')
                else Inr (dset (rc_pending rc) (m_id m) (to_dict m))
            | None \<Rightarrow>
                if rc_capacity rc \<le> length (rc_pending rc)
                then Inl (BackpressureErr ''result delivery capacity full'')
                else Inr (dset (rc_pending rc) (m_id m) (to_dict m))))"

definition rc_complete :: "recent \<Rightarrow> store option \<Rightarrow> string \<Rightarrow> dict \<Rightarrow> message option \<Rightarrow> real \<Rightarrow> bool \<Rightarrow>
    py_error + recent \<times> store option" where
  "rc_complete rc st cid result message now io =
     (case map_of (rc_entries rc) cid of
        None \<Rightarrow> Inl KeyErr
      | Some row \<Rightarrow>
          let row' = dset (dset (dset row ''state'' (PStr ''COMPLETED'')) ''result'' (PDict result))
                ''result_message'' (case message of
                    Some m \<Rightarrow> if st \<noteq> None then PDict (to_dict m) else PNone | None \<Rightarrow> PNone);
              candidate = dset (rc_entries rc) cid row'
          in case with_result rc st message of
               Inl e \<Rightarrow> Inl e
             | Inr pending \<Rightarrow>
                 (case rc_save rc st candidate pending now io of
                    Inl e \<Rightarrow> Inl e
                  | Inr st' \<Rightarrow> Inr (rc\<lparr>rc_entries := candidate, rc_pending := pending\<rparr>, st')))"

text \<open>
  \<^verbatim>\<open>queue_result\<close>: an old completed row without a wire form receives one from the first
  reliable delivery of its result.
\<close>

definition upgraded :: "(string \<times> dict) list \<Rightarrow> message \<Rightarrow> (string \<times> dict) list" where
  "upgraded entries m =
     (case dgetn (m_payload m) ''command_id'' of
        PStr cid \<Rightarrow>
          (case map_of entries cid of
             None \<Rightarrow> entries
           | Some row \<Rightarrow>
               if dgetn row ''state'' = PStr ''COMPLETED'' \<and> \<not> truthy (dgetn row ''result_message'') \<and>
                  dgetn (m_payload m) ''status'' = PStr ''EXECUTED''
               then dset entries cid (dset row ''result_message'' (PDict (to_dict m)))
               else entries)
      | _ \<Rightarrow> entries)"

definition rc_queue_result :: "recent \<Rightarrow> store option \<Rightarrow> message \<Rightarrow> real \<Rightarrow> bool \<Rightarrow>
    py_error + recent \<times> store option" where
  "rc_queue_result rc st m now io =
     (case with_result rc st (Some m) of
        Inl e \<Rightarrow> Inl e
      | Inr pending \<Rightarrow>
          if \<not> hashable (dgetn (m_payload m) ''command_id'') then Inl (TypeErr ''unhashable type'')
          else let candidate = upgraded (rc_entries rc) m
               in case rc_save rc st candidate pending now io of
                    Inl e \<Rightarrow> Inl e
                  | Inr st' \<Rightarrow> Inr (rc\<lparr>rc_entries := candidate, rc_pending := pending\<rparr>, st'))"

definition rc_acknowledge :: "recent \<Rightarrow> store option \<Rightarrow> pyval \<Rightarrow> real \<Rightarrow> bool \<Rightarrow>
    py_error + bool \<times> recent \<times> store option" where
  "rc_acknowledge rc st identity now io =
     (if \<not> hashable identity then Inl (TypeErr ''unhashable type'')
      else if \<not> (is_str identity \<and> dhas (rc_pending rc) (str_of identity)) then Inr (False, rc, st)
      else let pending = ddel (rc_pending rc) (str_of identity)
           in case rc_save rc st (rc_entries rc) pending now io of
                Inl e \<Rightarrow> Inl e
              | Inr st' \<Rightarrow> Inr (True, rc\<lparr>rc_pending := pending\<rparr>, st'))"

section \<open>Construction\<close>

definition migrated_row :: "real \<Rightarrow> real \<Rightarrow> pyval \<Rightarrow> dict" where
  "migrated_row retention now row =
     (let r = dict_of row
      in if map_of r ''retain_until'' = None
         then dset r ''retain_until'' (if retention = 0 then PInt 0 else PFloat (Fin (now + retention)))
         else r)"

definition list_of :: "pyval \<Rightarrow> pyval list" where
  "list_of v = (case v of PList xs \<Rightarrow> xs | _ \<Rightarrow> [])"

definition rc_init :: "store option \<Rightarrow> nat \<Rightarrow> real \<Rightarrow> real \<Rightarrow> bool \<Rightarrow> bool \<Rightarrow>
    py_error + recent \<times> store option" where
  "rc_init st capacity retention now io_load io_save =
     (if \<not> (1 \<le> capacity \<and> capacity \<le> 1024) then Inl (ValueErr ''invalid recent command capacity'')
      else if retention < 0 then Inl (ValueErr ''invalid command retention'')
      else let empty = \<lparr>rc_capacity = capacity, rc_retention = retention, rc_entries = [], rc_pending = []\<rparr>
           in case st of
                None \<Rightarrow> Inr (empty, None)
              | Some s \<Rightarrow>
                  (case load s ''recent_commands'' recent_validate False io_load of
                     Inl e \<Rightarrow> Inl e
                   | Inr saved \<Rightarrow>
                       let d = (case saved of None \<Rightarrow> [] | Some v \<Rightarrow> dict_of v);
                           rows = map (migrated_row retention now) (list_of (dgetn d ''entries''));
                           entries = map (\<lambda>r. (str_of (dgetn r ''command_id''), r)) rows;
                           pending = map (\<lambda>(k, m). (k, dict_of m)) (dict_of (dgetn d ''pending_results''))
                       in case (if saved = None then Inr entries else rc_trim capacity pending now entries) of
                            Inl e \<Rightarrow> Inl e
                          | Inr entries' \<Rightarrow>
                              if capacity < length pending
                              then Inl (StateErr ''pending results exceed configured capacity'')
                              else case rc_save empty (Some s) entries' pending now io_save of
                                  Inl e \<Rightarrow> Inl e
                                | Inr st' \<Rightarrow> Inr (empty\<lparr>rc_entries := entries', rc_pending := pending\<rparr>, st')))"


section \<open>Trimming evicts only what may be forgotten\<close>

lemma trim_spec:
  assumes "trim cap prot now es = Inr es'" "distinct (map fst es)"
  shows "length es' \<le> cap \<and> distinct (map fst es') \<and> set es' \<subseteq> set es \<and>
    (\<forall>e \<in> set es. e \<notin> set es' \<longrightarrow> evictable prot now e)"
  using assms
proof (induction cap prot now es rule: trim.induct)
  case (1 cap prot now es)
  show ?case
  proof (cases "length es \<le> cap")
    case True
    with 1 show ?thesis by (simp add: trim.simps)
  next
    case False
    with "1.prems" obtain v where v: "find (evictable prot now) es = Some v"
      by (cases "find (evictable prot now) es") (simp_all add: trim.simps)
    then have ev: "v \<in> set es" "evictable prot now v"
      by (auto simp: find_Some_iff)
    have "trim cap prot now (ddel es (fst v)) = Inr es'"
      using "1.prems"(1) False v by (simp add: trim.simps [of cap prot now es])
    with "1.IH" [OF False v] "1.prems"(2) have IH:
      "length es' \<le> cap \<and> distinct (map fst es') \<and> set es' \<subseteq> set (ddel es (fst v)) \<and>
       (\<forall>e \<in> set (ddel es (fst v)). e \<notin> set es' \<longrightarrow> evictable prot now e)"
      by simp
    have uniq: "e = v" if "e \<in> set es" "fst e = fst v" for e
      using that ev "1.prems"(2) by (metis eq_key_imp_eq_value prod.collapse)
    have "e = v \<or> e \<in> set (ddel es (fst v))" if e: "e \<in> set es" for e
      using uniq [OF e] e by (cases "fst e = fst v") (simp_all add: set_ddel)
    with IH ev have "evictable prot now e" if "e \<in> set es" "e \<notin> set es'" for e
      using that by metis
    moreover have "set es' \<subseteq> set es"
      using IH by (auto simp: set_ddel)
    ultimately show ?thesis using IH by blast
  qed
qed

lemma trim_id: "length es \<le> cap \<Longrightarrow> trim cap prot now es = Inr es"
  by (simp add: trim.simps)

lemma map_of_in_set: "distinct (map fst d) \<Longrightarrow> map_of d k = Some v \<longleftrightarrow> (k, v) \<in> set d"
  by (rule map_of_eq_Some_iff)

section \<open>The window invariant\<close>

definition rc_inv :: "recent \<Rightarrow> bool" where
  "rc_inv rc \<longleftrightarrow> distinct (map fst (rc_entries rc)) \<and> distinct (map fst (rc_pending rc)) \<and>
     length (rc_entries rc) \<le> rc_capacity rc \<and> length (rc_pending rc) \<le> rc_capacity rc"

lemma rc_beginE:
  assumes "rc_begin rc st cid ctx now io = Inr (rc', st')"
  obtains es where "rc' = rc\<lparr>rc_entries := es\<rparr>" "map_of (rc_entries rc) cid = None"
    "trim (rc_capacity rc) (protected_ids (rc_pending rc)) now
       (dset (rc_entries rc) cid (intent_row rc cid ctx now)) = Inr es" "pending_errors (rc_pending rc) = []"
    "rc_save rc st es (rc_pending rc) now io = Inr st'"
    "1 \<le> length cid" "length cid \<le> 256" "st \<noteq> None \<Longrightarrow> length (rc_pending rc) < rc_capacity rc"
  using assms by (auto simp: rc_begin_def rc_trim_def split: if_splits sum.splits list.splits)

lemma intent_not_evictable: "dgetn r ''state'' = PStr ''INTENT'' \<Longrightarrow> \<not> evictable prot now (k, r)"
  by (simp add: evictable_def)

lemma intent_row_fields [simp]:
  "dgetn (intent_row rc cid ctx now) ''state'' = PStr ''INTENT''"
  "dgetn (intent_row rc cid ctx now) ''retain_until'' = retain_until rc ctx now"
  by (simp_all add: intent_row_def dgetn_def)

lemma rc_begin_core:
  assumes "rc_begin rc st cid ctx now io = Inr (rc', st')" "distinct (map fst (rc_entries rc))"
  shows "distinct (map fst (rc_entries rc')) \<and> length (rc_entries rc') \<le> rc_capacity rc" "rc_pending rc' = rc_pending rc" "rc_capacity rc' = rc_capacity rc"
    "rc_retention rc' = rc_retention rc" "map_of (rc_entries rc) cid = None"
    "map_of (rc_entries rc') cid = Some (intent_row rc cid ctx now)"
    "map_of (rc_entries rc') k = Some r \<Longrightarrow> k \<noteq> cid \<Longrightarrow> map_of (rc_entries rc) k = Some r"
    "map_of (rc_entries rc) k = Some r \<Longrightarrow> map_of (rc_entries rc') k = Some r \<or>
       evictable (protected_ids (rc_pending rc)) now (k, r) \<and> map_of (rc_entries rc') k = None"
proof -
  let ?es = "dset (rc_entries rc) cid (intent_row rc cid ctx now)"
  obtain es where rc': "rc' = rc\<lparr>rc_entries := es\<rparr>" and fresh: "map_of (rc_entries rc) cid = None"
    and tr: "trim (rc_capacity rc) (protected_ids (rc_pending rc)) now ?es = Inr es"
    by (rule rc_beginE [OF assms(1)])
  have dist: "distinct (map fst ?es)"
    using assms(2) by simp
  note spec = trim_spec [OF tr dist]
  show "rc_pending rc' = rc_pending rc" "rc_capacity rc' = rc_capacity rc" "rc_retention rc' = rc_retention rc"
    "map_of (rc_entries rc) cid = None"
    "distinct (map fst (rc_entries rc')) \<and> length (rc_entries rc') \<le> rc_capacity rc"
    using spec fresh by (simp_all add: rc')
  have mem: "map_of es j = Some q \<longleftrightarrow> (j, q) \<in> set es" for j q
    using spec by (simp add: map_of_in_set)
  have mem0: "map_of ?es j = Some q \<longleftrightarrow> (j, q) \<in> set ?es" for j q
    by (rule map_of_in_set [OF dist])
  have "(cid, intent_row rc cid ctx now) \<in> set ?es"
    using mem0 [of cid "intent_row rc cid ctx now"] by simp
  then show "map_of (rc_entries rc') cid = Some (intent_row rc cid ctx now)"
    using spec intent_not_evictable [of "intent_row rc cid ctx now"] by (simp add: rc' mem) blast
  show "map_of (rc_entries rc) k = Some r" if "map_of (rc_entries rc') k = Some r" "k \<noteq> cid"
    using that spec mem0 [of k r] by (auto simp: rc' mem)
  show "map_of (rc_entries rc') k = Some r \<or>
      evictable (protected_ids (rc_pending rc)) now (k, r) \<and> map_of (rc_entries rc') k = None"
    if k: "map_of (rc_entries rc) k = Some r"
  proof -
    have "k \<noteq> cid" using k fresh by auto
    then have in0: "(k, r) \<in> set ?es"
      using k mem0 [of k r] by simp
    have "map_of es k = None" if "(k, r) \<notin> set es"
    proof (cases "map_of es k")
      case (Some q)
      then have "map_of ?es k = Some q"
        using spec mem mem0 by blast
      with in0 mem0 [of k r] Some that mem show ?thesis by auto
    qed simp
    with spec in0 mem show ?thesis by (auto simp: rc')
  qed
qed

lemma rc_begin_spec:
  assumes "rc_begin rc st cid ctx now io = Inr (rc', st')" "rc_inv rc"
  shows "rc_inv rc'" "rc_pending rc' = rc_pending rc" "rc_capacity rc' = rc_capacity rc"
    "rc_retention rc' = rc_retention rc" "map_of (rc_entries rc) cid = None"
    "map_of (rc_entries rc') cid = Some (intent_row rc cid ctx now)"
    "map_of (rc_entries rc') k = Some r \<Longrightarrow> k \<noteq> cid \<Longrightarrow> map_of (rc_entries rc) k = Some r"
    "map_of (rc_entries rc) k = Some r \<Longrightarrow> map_of (rc_entries rc') k = Some r \<or>
       evictable (protected_ids (rc_pending rc)) now (k, r) \<and> map_of (rc_entries rc') k = None"
proof -
  have d: "distinct (map fst (rc_entries rc))" using assms(2) by (simp add: rc_inv_def)
  note core = rc_begin_core [OF assms(1) d]
  show "rc_inv rc'"
    using core(1-3) assms(2) by (simp add: rc_inv_def)
  show "rc_pending rc' = rc_pending rc" "rc_capacity rc' = rc_capacity rc" "rc_retention rc' = rc_retention rc"
    "map_of (rc_entries rc) cid = None" "map_of (rc_entries rc') cid = Some (intent_row rc cid ctx now)"
    by (fact core(2-6))+
  show "map_of (rc_entries rc') k = Some r \<Longrightarrow> k \<noteq> cid \<Longrightarrow> map_of (rc_entries rc) k = Some r"
    by (fact core(7))
  show "map_of (rc_entries rc) k = Some r \<Longrightarrow> map_of (rc_entries rc') k = Some r \<or>
       evictable (protected_ids (rc_pending rc)) now (k, r) \<and> map_of (rc_entries rc') k = None"
    by (fact core(8))
qed

lemma with_result_spec:
  assumes "with_result rc st m = Inr p" "rc_inv rc"
  shows "distinct (map fst p)" "length p \<le> rc_capacity rc"
    "map_of (rc_pending rc) k = Some w \<Longrightarrow> (m = None \<or> k \<noteq> m_id (the m)) \<Longrightarrow> map_of p k = Some w"
    "map_of (rc_pending rc) k \<noteq> None \<Longrightarrow> map_of p k \<noteq> None"
  using assms
  by (auto simp: with_result_def rc_inv_def length_dset split: option.splits if_splits)

lemma rc_completeE:
  assumes "rc_complete rc st cid res m now io = Inr (rc', st')"
  obtains row p where "map_of (rc_entries rc) cid = Some row" "with_result rc st m = Inr p"
    "rc' = rc\<lparr>rc_entries := dset (rc_entries rc) cid
        (dset (dset (dset row ''state'' (PStr ''COMPLETED'')) ''result'' (PDict res)) ''result_message''
          (case m of Some m \<Rightarrow> if st \<noteq> None then PDict (to_dict m) else PNone | None \<Rightarrow> PNone)),
      rc_pending := p\<rparr>"
    "rc_save rc st (rc_entries rc') p now io = Inr st'"
  using assms by (auto simp: rc_complete_def Let_def split: option.splits sum.splits)

lemma rc_queueE:
  assumes "rc_queue_result rc st m now io = Inr (rc', st')"
  obtains p where "with_result rc st (Some m) = Inr p"
    "rc' = rc\<lparr>rc_entries := upgraded (rc_entries rc) m, rc_pending := p\<rparr>"
    "rc_save rc st (rc_entries rc') p now io = Inr st'"
  using assms by (auto simp: rc_queue_result_def Let_def split: if_splits sum.splits)

lemma rc_ackE:
  assumes "rc_acknowledge rc st v now io = Inr (b, rc', st')"
  obtains "\<not> b" "rc' = rc" "st' = st"
  | i where "b" "v = PStr i" "map_of (rc_pending rc) i \<noteq> None"
      "rc' = rc\<lparr>rc_pending := ddel (rc_pending rc) i\<rparr>"
      "rc_save rc st (rc_entries rc) (rc_pending rc') now io = Inr st'"
proof (cases "is_str v \<and> dhas (rc_pending rc) (str_of v)")
  case True
  then obtain i where i: "v = PStr i" "map_of (rc_pending rc) i \<noteq> None"
    by (auto simp: is_str_iff)
  with assms have "b" "rc' = rc\<lparr>rc_pending := ddel (rc_pending rc) i\<rparr>"
    "rc_save rc st (rc_entries rc) (ddel (rc_pending rc) i) now io = Inr st'"
    by (auto simp: rc_acknowledge_def hashable_def Let_def split: sum.splits)
  with i that(2) show ?thesis by simp
next
  case False
  with assms have "\<not> b \<and> rc' = rc \<and> st' = st"
    unfolding rc_acknowledge_def by (simp del: dhas_iff split: if_splits)
  with that(1) show ?thesis by blast
qed

lemma upgraded_lookup:
  "map_of es k = Some r \<Longrightarrow> \<exists>r'. map_of (upgraded es m) k = Some r' \<and> dgetn r' ''state'' = dgetn r ''state'' \<and>
     map_of r' ''retain_until'' = map_of r ''retain_until'' \<and>
     (dgetn r ''state'' = PStr ''INTENT'' \<longrightarrow> r' = r)"
  by (auto simp: upgraded_def split: pyval.splits option.splits)

lemma upgraded_keys: "map_of (upgraded es m) k = None \<longleftrightarrow> map_of es k = None"
  by (auto simp: upgraded_def split: pyval.splits option.splits)

lemma upgraded_inv: "distinct (map fst es) \<Longrightarrow> distinct (map fst (upgraded es m)) \<and> length (upgraded es m) = length es"
  by (auto simp: upgraded_def length_dset split: pyval.splits option.splits)

datatype rc_op =
    RBegin string "dict option" real bool
  | RComplete string dict "message option" real bool
  | RQueue message real bool
  | RAck pyval real bool

text \<open>One operation; an operation that raises leaves the window as it was.\<close>

fun rc_step :: "recent \<times> store option \<Rightarrow> rc_op \<Rightarrow> recent \<times> store option" where
  "rc_step (rc, st) (RBegin cid ctx now io) =
     (case rc_begin rc st cid ctx now io of Inl _ \<Rightarrow> (rc, st) | Inr r \<Rightarrow> r)"
| "rc_step (rc, st) (RComplete cid res m now io) =
     (case rc_complete rc st cid res m now io of Inl _ \<Rightarrow> (rc, st) | Inr r \<Rightarrow> r)"
| "rc_step (rc, st) (RQueue m now io) =
     (case rc_queue_result rc st m now io of Inl _ \<Rightarrow> (rc, st) | Inr r \<Rightarrow> r)"
| "rc_step (rc, st) (RAck v now io) =
     (case rc_acknowledge rc st v now io of Inl _ \<Rightarrow> (rc, st) | Inr r \<Rightarrow> snd r)"

lemma rc_complete_inv: "rc_complete rc st cid res m now io = Inr (rc', st') \<Longrightarrow> rc_inv rc \<Longrightarrow>
    rc_inv rc' \<and> rc_capacity rc' = rc_capacity rc"
  by (elim rc_completeE) (use with_result_spec in \<open>auto simp: rc_inv_def length_dset\<close>)

lemma rc_queue_inv: "rc_queue_result rc st m now io = Inr (rc', st') \<Longrightarrow> rc_inv rc \<Longrightarrow>
    rc_inv rc' \<and> rc_capacity rc' = rc_capacity rc"
  by (elim rc_queueE) (use with_result_spec upgraded_inv in \<open>auto simp: rc_inv_def\<close>)

lemma rc_ack_inv: "rc_acknowledge rc st v now io = Inr (b, rc', st') \<Longrightarrow> rc_inv rc \<Longrightarrow>
    rc_inv rc' \<and> rc_capacity rc' = rc_capacity rc"
  by (elim rc_ackE) (auto simp: rc_inv_def intro: order_trans [OF length_ddel_le])

lemma rc_step_inv:
  assumes "rc_inv (fst s)"
  shows "rc_inv (fst (rc_step s op)) \<and> rc_capacity (fst (rc_step s op)) = rc_capacity (fst s)"
proof -
  obtain rc st where s: "s = (rc, st)" by force
  show ?thesis
    using assms rc_begin_spec(1,3) rc_complete_inv rc_queue_inv rc_ack_inv
    by (cases op) (auto simp: s split: sum.splits)
qed


interpretation window: bounded_store
  "\<lambda>s. max (length (rc_entries (fst s))) (length (rc_pending (fst s)))"
  "\<lambda>s. rc_capacity (fst s)" "\<lambda>s. rc_inv (fst s)" rc_step
  by unfold_locales (simp_all add: rc_step_inv, simp add: rc_inv_def)

text \<open>
  the command history stays within its configured window: whatever operations run and
  whichever storage calls fail, neither the entries nor the unconfirmed results ever exceed the
  capacity.
\<close>

theorem recent_window_bounded:
  assumes "rc_inv rc"
  shows "length (rc_entries (fst (run rc_step (rc, st) ops))) \<le> rc_capacity rc
    \<and> length (rc_pending (fst (run rc_step (rc, st) ops))) \<le> rc_capacity rc"
  using window.used_run [of "(rc, st)" ops] assms by simp

definition empty_recent :: "nat \<Rightarrow> real \<Rightarrow> recent" where
  "empty_recent cap ret = \<lparr>rc_capacity = cap, rc_retention = ret, rc_entries = [], rc_pending = []\<rparr>"

lemma rc_inv_empty [simp]: "rc_inv (empty_recent cap ret)"
  by (simp add: rc_inv_def empty_recent_def)

theorem recent_window_bounded_witness:
  "length (rc_entries (fst (run rc_step (empty_recent 1 10, None)
     [RBegin ''a'' None 0 True, RBegin ''b'' None 1 True]))) \<le> 1"
  using recent_window_bounded [OF rc_inv_empty [of 1 10], of None
      "[RBegin ''a'' None 0 True, RBegin ''b'' None 1 True]"]
  by (simp only: empty_recent_def recent.simps)

section \<open>Nothing unresolved is forgotten\<close>

definition completes :: "string \<Rightarrow> rc_op \<Rightarrow> bool" where
  "completes cid op \<longleftrightarrow> (\<exists>res m now io. op = RComplete cid res m now io)"

definition acks :: "string \<Rightarrow> rc_op \<Rightarrow> bool" where
  "acks i op \<longleftrightarrow> (\<exists>now io. op = RAck (PStr i) now io)"

lemma intent_kept_step:
  assumes inv: "rc_inv (fst s)" and row: "map_of (rc_entries (fst s)) cid = Some row"
    and st: "dgetn row ''state'' = PStr ''INTENT''" and nc: "\<not> completes cid op"
  shows "map_of (rc_entries (fst (rc_step s op))) cid = Some row"
proof -
  obtain rc t where s: "s = (rc, t)" by force
  show ?thesis
  proof (cases op)
    case (RBegin c ctx now io)
    show ?thesis
    proof (cases "rc_begin rc t c ctx now io")
      case (Inr r)
      obtain rc' t' where r: "r = (rc', t')" by force
      show ?thesis
        using rc_begin_spec(8) [of rc t c ctx now io rc' t' cid row] Inr inv row
          intent_not_evictable [OF st] by (auto simp: s RBegin r)
    qed (simp add: s RBegin row [unfolded s, simplified])
  next
    case (RComplete c res m now io)
    with nc have "c \<noteq> cid" by (auto simp: completes_def)
    then show ?thesis
      using row by (auto simp: s RComplete split: sum.splits elim!: rc_completeE)
  next
    case (RQueue m now io)
    then show ?thesis
      using row upgraded_lookup [of "rc_entries rc" cid row m] st
      by (auto simp: s split: sum.splits elim!: rc_queueE)
  next
    case (RAck v now io)
    then show ?thesis
      using row by (auto simp: s split: sum.splits elim!: rc_ackE)
  qed
qed

lemma pending_kept_step:
  assumes inv: "rc_inv (fst s)" and p: "map_of (rc_pending (fst s)) i \<noteq> None" and na: "\<not> acks i op"
  shows "map_of (rc_pending (fst (rc_step s op))) i \<noteq> None"
proof -
  obtain rc t where s: "s = (rc, t)" by force
  show ?thesis
  proof (cases op)
    case (RBegin c ctx now io)
    then show ?thesis
      using p rc_begin_spec(2) inv by (fastforce simp: s split: sum.splits)
  next
    case (RComplete c res m now io)
    then show ?thesis
      using p inv with_result_spec(4) by (auto simp: s split: sum.splits elim!: rc_completeE)
  next
    case (RQueue m now io)
    then show ?thesis
      using p inv with_result_spec(4) by (auto simp: s split: sum.splits elim!: rc_queueE)
  next
    case (RAck v now io)
    then show ?thesis
      using p na by (auto simp: s acks_def split: sum.splits elim!: rc_ackE)
  qed
qed

lemma intent_kept:
  "rc_inv (fst s) \<Longrightarrow> map_of (rc_entries (fst s)) cid = Some row \<Longrightarrow> dgetn row ''state'' = PStr ''INTENT'' \<Longrightarrow>
     \<forall>op \<in> set ops. \<not> completes cid op \<Longrightarrow> map_of (rc_entries (fst (run rc_step s ops))) cid = Some row"
  by (induction ops arbitrary: s) (use rc_step_inv intent_kept_step in auto)

lemma pending_kept:
  "rc_inv (fst s) \<Longrightarrow> map_of (rc_pending (fst s)) i \<noteq> None \<Longrightarrow> \<forall>op \<in> set ops. \<not> acks i op \<Longrightarrow>
     map_of (rc_pending (fst (run rc_step s ops))) i \<noteq> None"
  by (induction ops arbitrary: s) (use rc_step_inv pending_kept_step in \<open>auto simp del: not_None_eq\<close>)

text \<open>
  C21: an unfinished intent and an unconfirmed result cannot be evicted. Through any operations,
  storage failures included, the intent of a command stays word for word until that command is
  completed, and a result waits until it is acknowledged under its own id.
\<close>

theorem unresolved_never_evicted:
  assumes "rc_inv rc"
  shows "(map_of (rc_entries rc) cid = Some row \<and> dgetn row ''state'' = PStr ''INTENT'' \<and>
            (\<forall>op \<in> set ops. \<not> completes cid op) \<longrightarrow>
          map_of (rc_entries (fst (run rc_step (rc, st) ops))) cid = Some row)
    \<and> (map_of (rc_pending rc) i \<noteq> None \<and> (\<forall>op \<in> set ops. \<not> acks i op) \<longrightarrow>
          map_of (rc_pending (fst (run rc_step (rc, st) ops))) i \<noteq> None)"
  using intent_kept [of "(rc, st)" cid row ops] pending_kept [of "(rc, st)" i ops] assms by auto

theorem unresolved_never_evicted_witness:
  "let rc = (empty_recent 1 0)\<lparr>rc_entries := [(''a'', [(''state'', PStr ''INTENT'')])]\<rparr> in
     map_of (rc_entries (fst (run rc_step (rc, None) [RBegin ''b'' None 5 True]))) ''a''
       = Some [(''state'', PStr ''INTENT'')]"
proof -
  let ?rc = "(empty_recent 1 0)\<lparr>rc_entries := [(''a'', [(''state'', PStr ''INTENT'')])]\<rparr>"
  have inv: "rc_inv ?rc" by (simp add: rc_inv_def empty_recent_def)
  show ?thesis
    using unresolved_never_evicted [OF inv, of "''a''" "[(''state'', PStr ''INTENT'')]"
        "[RBegin ''b'' None 5 True]" None]
    by (simp add: completes_def dgetn_def empty_recent_def)
qed


section \<open>Recovery after a restart\<close>

text \<open>
  The in-memory invariant that makes every checkpoint of the window a valid one: each row is
  keyed by its own id, carries a retention deadline and passes the row validation, and each
  pending result is keyed by its message id. A Python dictionary has distinct keys.
\<close>

definition rc_row_wf :: "string \<Rightarrow> dict \<Rightarrow> bool" where
  "rc_row_wf k r \<longleftrightarrow> row_ok (PDict r) \<and> row_id (PDict r) = k \<and> map_of r ''retain_until'' \<noteq> None \<and>
     distinct (map fst (dict_of (dgetn r ''result'')))"

definition rc_wf :: "recent \<Rightarrow> bool" where
  "rc_wf rc \<longleftrightarrow> rc_inv rc \<and> 1 \<le> rc_capacity rc \<and> rc_capacity rc \<le> 1024 \<and>
     (\<forall>(k, r) \<in> set (rc_entries rc). rc_row_wf k r) \<and>
     (\<forall>(k, w) \<in> set (rc_pending rc). pending_ok k (PDict w))"

lemma rc_wfI:
  "rc_inv rc \<Longrightarrow> 1 \<le> rc_capacity rc \<Longrightarrow> rc_capacity rc \<le> 1024 \<Longrightarrow>
   (\<And>k r. (k, r) \<in> set (rc_entries rc) \<Longrightarrow> rc_row_wf k r) \<Longrightarrow>
   (\<And>k w. (k, w) \<in> set (rc_pending rc) \<Longrightarrow> pending_ok k (PDict w)) \<Longrightarrow> rc_wf rc"
  by (auto simp: rc_wf_def)

lemma with_contract_canon:
  "distinct (map fst d) \<Longrightarrow> py_norm (PDict (with_contract (canon_dict d))) = py_norm (PDict (with_contract d))"
  by (rule norm_dict_eqI) (auto simp: with_contract_def option.map_comp comp_def)

lemma result_wire_ok_canon:
  assumes ok: "result_wire_ok r" and dist: "distinct (map fst (dict_of (dgetn r ''result'')))"
  shows "result_wire_ok (canon_dict r)"
proof (cases "dgetn r ''result_message''")
  case (PDict w)
  with ok obtain m res where m: "from_dict (PDict w) = Inr m" "dgetn r ''result'' = PDict res"
    "m_type m = CONTROL_RESULT" "py_eq (PDict (m_payload m)) (PDict (with_contract res))"
    by (auto simp: result_wire_ok_def split: sum.splits pyval.splits)
  with PDict from_dict_canon [OF m(1)] with_contract_canon [of res] dist show ?thesis
    by (simp add: result_wire_ok_def) (simp add: py_eq_def)
qed (use ok in \<open>auto simp: result_wire_ok_def from_dict_def split: sum.splits pyval.splits\<close>)

lemma row_ok_canon:
  assumes "row_ok (PDict r)" "distinct (map fst (dict_of (dgetn r ''result'')))"
  shows "row_ok (PDict (canon_dict r))"
proof -
  from assms(1) obtain cid state result where look: "map_of r ''command_id'' = Some cid"
    "map_of r ''state'' = Some state" "map_of r ''result'' = Some result"
    and w: "result_wire_ok r"
    by (auto simp: row_ok_def split: option.splits)
  with assms result_wire_ok_canon [OF w assms(2)] show ?thesis
    by (auto simp: row_ok_def is_dict_iff split: option.splits)
qed

lemma row_id_canon: "row_id (PDict (canon_dict r)) = row_id (PDict r)"
  by (simp add: row_id_def)

lemma pending_ok_canon: "pending_ok k (PDict w) \<Longrightarrow> pending_ok k (PDict (canon_dict w))"
  by (auto simp: pending_ok_def from_dict_canon split: sum.splits)

lemma canon_entries: "canon (PList (map (PDict \<circ> snd) es)) = PList (map (PDict \<circ> canon_dict \<circ> snd) es)"
  by (induction es) auto

lemma recent_validate_saved:
  assumes wf: "rc_wf rc"
  shows "recent_validate (canon (PDict (recent_value (rc_capacity rc) (rc_entries rc) (rc_pending rc))))"
proof -
  let ?es = "rc_entries rc" and ?ps = "map (\<lambda>(k, m). (k, PDict m)) (rc_pending rc)"
  let ?d = "canon_dict (recent_value (rc_capacity rc) ?es (rc_pending rc))"
  have look: "map_of ?d ''schema_version'' = Some (PInt 2)" "map_of ?d ''capacity'' = Some (PInt (int (rc_capacity rc)))"
    "map_of ?d ''entries'' = Some (PList (map (PDict \<circ> canon_dict \<circ> snd) ?es))"
    "map_of ?d ''pending_results'' = Some (PDict (canon_dict ?ps))"
    by (simp_all add: recent_value_def)
  have rows: "rc_row_wf k r" if "(k, r) \<in> set ?es" for k r
    using wf that by (auto simp: rc_wf_def)
  have "list_all row_ok (map (PDict \<circ> canon_dict \<circ> snd) ?es)"
    using rows by (auto simp: list_all_iff rc_row_wf_def intro!: row_ok_canon)
  moreover have "map row_id (map (PDict \<circ> canon_dict \<circ> snd) ?es) = map fst ?es"
    using rows by (auto simp: rc_row_wf_def row_id_canon)
  moreover have "list_all (\<lambda>(k, raw). pending_ok k raw) (canon_dict ?ps)"
    using wf by (fastforce simp: rc_wf_def list_all_iff set_canon_dict intro!: pending_ok_canon)
  moreover have "length (canon_dict ?ps) \<le> rc_capacity rc" "length ?es \<le> rc_capacity rc" "distinct (map fst ?es)"
    using wf by (simp_all add: rc_wf_def rc_inv_def)
  ultimately show ?thesis
    using wf by (simp add: recent_validate_def look dgetd_def rc_wf_def del: map_map map_of_canon_dict)
qed


definition canon_rows :: "(string \<times> dict) list \<Rightarrow> (string \<times> dict) list" where
  "canon_rows es = map (\<lambda>(k, r). (k, canon_dict r)) es"

lemma canon_rows_simps [simp]: "map fst (canon_rows es) = map fst es" "length (canon_rows es) = length es"
  "map_of (canon_rows es) k = map_option canon_dict (map_of es k)"
  by (auto simp: canon_rows_def comp_def case_prod_beta map_of_map [unfolded comp_def, symmetric])
    (induction es; auto)

lemma rc_row_wf_canon: "rc_row_wf k r \<Longrightarrow> rc_row_wf k (canon_dict r)"
  by (cases "dgetn r ''result''") (auto simp: rc_row_wf_def row_ok_canon row_id_canon dict_of_def)

lemma migrated_canon: "rc_row_wf k r \<Longrightarrow> migrated_row ret now (PDict (canon_dict r)) = canon_dict r"
  by (auto simp: migrated_row_def rc_row_wf_def Let_def)

lemma rc_saveE:
  assumes "rc_save rc (Some s) es ps now io = Inr st'"
  obtains s' where "st' = Some s'"
    "save s ''recent_commands'' (PDict (recent_value (rc_capacity rc) es ps)) now io = Inr s'"
  using assms by (auto simp: rc_save_def split: sum.splits)

lemma recent_value_json:
  "json_ok (PDict (recent_value cap es ps)) \<longleftrightarrow> (\<forall>(k, r) \<in> set es. json_ok (PDict r)) \<and> (\<forall>(k, r) \<in> set ps. json_ok (PDict r))"
  by (auto simp: recent_value_def json_ok_PDict list_all_iff case_prod_beta)

lemma pending_errors_iff: "pending_errors ps = [] \<longleftrightarrow> (\<forall>(k, m) \<in> set ps. pending_error m = None)"
  by (induction ps) (auto simp: pending_errors_def List.map_filter_def)

lemma pending_error_canon: "pending_error (canon_dict m) = pending_error m"
proof (cases "map_of m ''payload''")
  case (Some v)
  then show ?thesis
  proof (cases v)
    case (PDict p)
    with Some show ?thesis
      by (cases "map_of p ''command_id''"; cases "the (map_of p ''command_id'')")
        (simp_all add: pending_error_def hashable_def)
  qed (simp_all add: pending_error_def)
qed (simp add: pending_error_def)

text \<open>The window that a restart rebuilds from the checkpoint of a well-formed window.\<close>

lemma rc_init_saved:
  assumes wf: "rc_wf rc" and ret: "0 \<le> ret" and pe: "pending_errors (rc_pending rc) = []"
    and sv: "rc_save rc (Some s) (rc_entries rc) (rc_pending rc) now io = Inr (Some s')"
  obtains rc2 st2 where "rc_init (Some s') (rc_capacity rc) ret now' True True = Inr (rc2, st2)"
    "rc_entries rc2 = canon_rows (rc_entries rc)" "rc_capacity rc2 = rc_capacity rc" "rc_retention rc2 = ret"
    "\<forall>k. map_of (rc_pending rc2) k = map_option canon_dict (map_of (rc_pending rc) k)"
    "rc_wf rc2" "st2 \<noteq> None"
proof -
  let ?v = "PDict (recent_value (rc_capacity rc) (rc_entries rc) (rc_pending rc))"
  let ?ps = "map (\<lambda>(k, m). (k, PDict m)) (rc_pending rc)"
  obtain j where j: "save s ''recent_commands'' ?v now io = Inr s'"
    using sv by (auto elim: rc_saveE)
  have ld: "load s' ''recent_commands'' recent_validate False True = Inr (Some (canon ?v))"
    using load_saved [where validator = recent_validate and ap = False, OF j recent_validate_saved [OF wf]] .
  have rows: "rc_row_wf k r" if "(k, r) \<in> set (rc_entries rc)" for k r
    using wf that by (auto simp: rc_wf_def)
  have es: "map (\<lambda>r. (str_of (dgetn r ''command_id''), r))
      (map (migrated_row ret now') (map (PDict \<circ> canon_dict \<circ> snd) (rc_entries rc))) = canon_rows (rc_entries rc)"
    unfolding canon_rows_def map_map
    by (rule map_cong [OF refl]) (use rows in \<open>auto simp: migrated_canon rc_row_wf_def row_id_def\<close>)
  let ?ps2 = "map (\<lambda>(k, m). (k, dict_of m)) (canon_dict ?ps)"
  have keys2: "map fst ?ps2 = map fst (canon_dict ?ps)"
    by (auto simp: case_prod_beta comp_def)
  have keys: "map fst ?ps = map fst (rc_pending rc)"
    by (auto simp: case_prod_beta comp_def)
  have ps: "map_of ?ps2 k = map_option canon_dict (map_of (rc_pending rc) k)" for k
  proof -
    have "map_of ?ps2 k = map_option dict_of (map_of (canon_dict ?ps) k)"
      using map_of_map_prod [of dict_of "canon_dict ?ps" k] by (simp add: map_prod_def case_prod_beta del: map_of_canon_dict)
    also have "map_of ?ps k = map_option PDict (map_of (rc_pending rc) k)"
      using map_of_map_prod [of PDict "rc_pending rc" k] by (simp add: map_prod_def case_prod_beta)
    ultimately show ?thesis
      by (simp add: option.map_comp comp_def)
  qed
  define rc2 where "rc2 = \<lparr>rc_capacity = rc_capacity rc, rc_retention = ret,
    rc_entries = canon_rows (rc_entries rc), rc_pending = ?ps2\<rparr>"
  have dist2: "distinct (map fst ?ps2)" "length ?ps2 = length (rc_pending rc)"
  proof -
    have "distinct (map fst ?ps)"
      using wf unfolding keys by (simp add: rc_wf_def rc_inv_def)
    then show "distinct (map fst ?ps2)"
      unfolding keys2 by (simp only: distinct_canon_dict)
    show "length ?ps2 = length (rc_pending rc)"
      by simp
  qed
  have wf2: "rc_wf rc2"
  proof -
    have "rc_inv rc2"
      using wf dist2 by (simp add: rc_wf_def rc_inv_def rc2_def)
    moreover have "rc_row_wf k r" if "(k, r) \<in> set (rc_entries rc2)" for k r
      using that rows by (auto simp: rc2_def canon_rows_def intro: rc_row_wf_canon)
    moreover have "pending_ok k (PDict w)" if "(k, w) \<in> set (rc_pending rc2)" for k w
    proof -
      have "map_of ?ps2 k = Some w"
        using that dist2(1) by (simp add: rc2_def map_of_in_set)
      then obtain w0 where "map_of (rc_pending rc) k = Some w0" "w = canon_dict w0"
        by (auto simp: ps)
      with wf show ?thesis
        by (auto simp: rc_wf_def dest!: map_of_SomeD intro!: pending_ok_canon)
    qed
    ultimately show ?thesis
      using wf by (intro rc_wfI) (simp_all add: rc_wf_def rc2_def)
  qed
  have "json_ok ?v"
    by (rule save_slot0 [OF j])
  then have "json_ok (PDict (recent_value (rc_capacity rc) (canon_rows (rc_entries rc)) ?ps2))"
    unfolding recent_value_json
    by (auto simp: canon_rows_def set_canon_dict)
  then obtain s2 where s2: "save s' ''recent_commands'' (PDict (recent_value (rc_capacity rc)
      (canon_rows (rc_entries rc)) ?ps2)) now' True = Inr s2"
    using save_ok by blast
  have pe2: "pending_errors ?ps2 = []"
    using pe unfolding pending_errors_iff
    by (auto simp: set_canon_dict pending_error_canon)
  have look: "dgetn (dict_of (canon ?v)) ''entries'' = PList (map (PDict \<circ> canon_dict \<circ> snd) (rc_entries rc))"
    "dgetn (dict_of (canon ?v)) ''pending_results'' = PDict (canon_dict ?ps)"
    by (simp_all add: recent_value_def dgetn_def)
  have lens: "length (canon_rows (rc_entries rc)) \<le> rc_capacity rc" "\<not> rc_capacity rc < length ?ps2"
    "1 \<le> rc_capacity rc" "rc_capacity rc \<le> 1024"
    using wf dist2 by (simp_all add: rc_wf_def rc_inv_def)
  have "rc_init (Some s') (rc_capacity rc) ret now' True True = Inr (rc2, Some s2)"
    using lens ret unfolding rc_init_def Let_def
    by (simp only: ld option.case sum.case look list_of_def pyval.case es of_simps(3) rc_trim_def pe2 list.case trim_id)
      (simp add: rc_save_def s2 rc2_def)
  with wf2 ps show ?thesis
    by (intro that [of rc2 "Some s2"]) (simp_all add: rc2_def)
qed


lemma intent_row_wf:
  assumes "1 \<le> length cid" "length cid \<le> 256" "0 \<le> num_of (retain_until rc ctx now)"
  shows "rc_row_wf cid (intent_row rc cid ctx now)"
proof -
  have n: "number (retain_until rc ctx now)"
    by (simp add: retain_until_def number_def int_finite_def)
  have "result_wire_ok (intent_row rc cid ctx now)"
    by (simp add: result_wire_ok_def intent_row_def dgetn_def)
  with assms n show ?thesis
    by (simp add: rc_row_wf_def row_ok_def row_id_def) (simp add: intent_row_def dgetn_def dict_of_def)
qed

lemma rc_begin_wf:
  assumes b: "rc_begin rc st cid ctx now io = Inr (rc', st')" and wf: "rc_wf rc"
    and r: "0 \<le> num_of (retain_until rc ctx now)"
  shows "rc_wf rc'"
proof -
  have inv: "rc_inv rc" using wf by (simp add: rc_wf_def)
  note spec = rc_begin_spec [OF b inv]
  have len: "1 \<le> length cid" "length cid \<le> 256"
    using b by (auto elim: rc_beginE)
  have "rc_row_wf k q" if "(k, q) \<in> set (rc_entries rc')" for k q
  proof (cases "k = cid")
    case True
    have "map_of (rc_entries rc') k = Some q"
      using that spec(1) by (simp add: rc_inv_def)
    with True spec(6) intent_row_wf [OF len r] show ?thesis by simp
  next
    case False
    have "map_of (rc_entries rc') k = Some q"
      using that spec(1) by (simp add: rc_inv_def)
    from map_of_SomeD [OF spec(7) [OF this False]] wf show ?thesis
      by (auto simp: rc_wf_def)
  qed
  then show ?thesis
    using wf spec(1-3) by (auto simp: rc_wf_def)
qed

text \<open>
  the admission of a command survives a power cut at any later moment before the next save.
  Once \<^verbatim>\<open>begin\<close> has returned, a process that rebuilds the window from the saved store finds the
  command as an unfinished intent and refuses to admit it a second time, at every later time and
  whatever the storage does.
\<close>

theorem intent_survives_power_cut:
  assumes "rc_wf rc" "0 \<le> num_of (retain_until rc ctx now)" "0 \<le> retention"
    and "rc_begin rc (Some s) cid ctx now io = Inr (rc', Some s')"
  shows "\<exists>rc2 st2. rc_init (Some s') (rc_capacity rc) retention now2 True True = Inr (rc2, st2)
    \<and> map_option (\<lambda>r. dgetn r ''state'') (map_of (rc_entries rc2) cid) = Some (PStr ''INTENT'')
    \<and> (\<forall>st3 ctx3 now3 io3. rc_begin rc2 st3 cid ctx3 now3 io3 = Inl (StateErr ''command already admitted''))"
proof -
  note spec = rc_begin_spec [OF assms(4)]
  have inv: "rc_inv rc" using assms(1) by (simp add: rc_wf_def)
  have cap: "rc_capacity rc' = rc_capacity rc" using spec(3) inv by simp
  have len: "1 \<le> length cid" "length cid \<le> 256"
    using assms(4) by (auto elim: rc_beginE)
  have "rc_save rc' (Some s) (rc_entries rc') (rc_pending rc') now io = Inr (Some s')"
    using assms(4) by (elim rc_beginE) (simp add: rc_save_def)
  moreover have "pending_errors (rc_pending rc') = []"
    using assms(4) by (auto elim: rc_beginE)
  ultimately obtain rc2 st2 where init: "rc_init (Some s') (rc_capacity rc) retention now2 True True = Inr (rc2, st2)"
    and es: "rc_entries rc2 = canon_rows (rc_entries rc')"
    using rc_init_saved [OF rc_begin_wf [OF assms(4,1,2)] assms(3), of s now io s' now2]
    unfolding cap by blast
  have row: "map_of (rc_entries rc2) cid = Some (canon_dict (intent_row rc cid ctx now))"
    using spec(6) inv by (simp add: es)
  then have "rc_begin rc2 st3 cid ctx3 now3 io3 = Inl (StateErr ''command already admitted'')" for st3 ctx3 now3 io3
    using len by (simp add: rc_begin_def)
  with init row show ?thesis by auto
qed

theorem intent_survives_power_cut_witness:
  "\<exists>rc1 s1 rc2 st2. rc_begin (empty_recent 2 10) (Some (store_init demo_hash)) ''c'' None 5 True = Inr (rc1, Some s1)
    \<and> rc_init (Some s1) 2 10 7 True True = Inr (rc2, st2)
    \<and> map_option (\<lambda>r. dgetn r ''state'') (map_of (rc_entries rc2) ''c'') = Some (PStr ''INTENT'')"
proof -
  have wf: "rc_wf (empty_recent 2 10)"
    by (simp add: rc_wf_def rc_inv_def empty_recent_def)
  have r: "0 \<le> num_of (retain_until (empty_recent 2 10) None 5)"
    by (simp add: retain_until_def empty_recent_def)
  have "json_ok (PDict (recent_value 2 [(''c'', intent_row (empty_recent 2 10) ''c'' None 5)] []))"
    by (simp add: recent_value_json) (simp add: intent_row_def json_ok_PDict retain_until_def empty_recent_def)
  from save_ok [OF this, of "store_init demo_hash" "''recent_commands''" 5]
  obtain s1 where s1: "save (store_init demo_hash) ''recent_commands''
      (PDict (recent_value 2 [(''c'', intent_row (empty_recent 2 10) ''c'' None 5)] [])) 5 True = Inr s1"
    by blast
  then have "rc_begin (empty_recent 2 10) (Some (store_init demo_hash)) ''c'' None 5 True =
      Inr ((empty_recent 2 10)\<lparr>rc_entries := [(''c'', intent_row (empty_recent 2 10) ''c'' None 5)]\<rparr>, Some s1)"
    by (simp add: rc_begin_def rc_trim_def pending_errors_def List.map_filter_def trim_id rc_save_def empty_recent_def dset_def)
  from this intent_survives_power_cut [OF wf r _ this, of 10 7] show ?thesis
    by (fastforce simp: empty_recent_def)
qed


text \<open>
  an identity is forgotten only when it can no longer do harm. When admitting a command
  evicts another one, the evicted command was completed, no unconfirmed result refers to it, and
  its retention deadline, the end of its own time to live, lies strictly in the past.
\<close>

theorem evicted_only_after_retention:
  assumes "rc_inv rc" "rc_begin rc st cid ctx now io = Inr (rc', st')"
    and "map_of (rc_entries rc) k = Some r" "map_of (rc_entries rc') k = None"
  shows "dgetn r ''state'' = PStr ''COMPLETED'' \<and> PStr k \<notin> protected_ids (rc_pending rc)
    \<and> num_of (dgetd r ''retain_until'' (PInt 0)) < now"
  using rc_begin_spec(8) [OF assms(2,1,3)] assms(4) by (simp add: evictable_def)

theorem evicted_only_after_retention_witness:
  "let r = [(''command_id'', PStr ''a''), (''state'', PStr ''COMPLETED''), (''retain_until'', PInt 3)];
       rc = (empty_recent 1 0)\<lparr>rc_entries := [(''a'', r)]\<rparr> in
     map_of (rc_entries (fst (run rc_step (rc, None) [RBegin ''b'' None 5 True]))) ''a'' = None \<and>
     num_of (dgetd r ''retain_until'' (PInt 0)) < 5"
proof -
  let ?r = "[(''command_id'', PStr ''a''), (''state'', PStr ''COMPLETED''), (''retain_until'', PInt 3)]"
  let ?rc = "(empty_recent 1 0)\<lparr>rc_entries := [(''a'', ?r)]\<rparr>"
  let ?rc' = "?rc\<lparr>rc_entries := [(''b'', intent_row ?rc ''b'' None 5)]\<rparr>"
  have inv: "rc_inv ?rc" by (simp add: rc_inv_def empty_recent_def)
  have b: "rc_begin ?rc None ''b'' None 5 True = Inr (?rc', None)"
    by (simp add: rc_begin_def rc_trim_def pending_errors_def List.map_filter_def rc_save_def empty_recent_def trim.simps dset_def ddel_def
        evictable_def protected_ids_def dgetn_def dgetd_def)
  have gone: "map_of (rc_entries ?rc') ''a'' = None" by simp
  have row: "map_of (rc_entries ?rc) ''a'' = Some ?r" by simp
  show ?thesis
    using evicted_only_after_retention [OF inv b row gone] gone b by simp
qed

end
