(* ===== verification/Controller.thy ===== *)
theory Controller
  imports Prelude Interfaces Config Messages Checkpoint Reliability SafetyGuard RecentCommands
begin

text \<open>
  \<^verbatim>\<open>controller_node/controller_node.py\<close>: the node that owns the actuators. The coroutine
  \<^verbatim>\<open>_process_command\<close> holds a lock from start to end, so one command is one step; its
  phases are admission (guard, epoch, durable intent), execution and the report of the result.
  Clock readings, fresh ids and the outcome of each storage call are the fields of \<open>cmd_env\<close>;
  the SHA-256 identity of a result is the function \<open>c_ident\<close> of the values it is computed from.
  An operation returns the new state together with the value or the exception that leaves it,
  because state changed before an exception stays changed.
\<close>

record ctrl =
  c_node :: string
  c_host :: string
  c_gateway :: string
  c_primary :: string
  c_preferred :: "string option"
  c_fixed_port :: "int option"
  c_guard :: guard
  c_recent :: "recent option"
  c_store :: "store option"
  c_metrics :: counters
  c_emit :: bool
  c_ident :: "pyval list \<Rightarrow> string"

section \<open>Candidate gateways\<close>

text \<open>\<^verbatim>\<open>a or b\<close> on optional names: a missing or empty name falls through.\<close>

definition or_name :: "string option \<Rightarrow> string \<Rightarrow> string" where
  "or_name a b = (case a of Some s \<Rightarrow> if s = [] then b else s | None \<Rightarrow> b)"

definition candidates :: "ctrl \<Rightarrow> py_error + (string \<times> string \<times> int) list" where
  "candidates c =
     (case c_fixed_port c of
        Some port \<Rightarrow> Inr [(c_gateway c, c_host c, port)]
      | None \<Rightarrow>
          let first = or_name (c_preferred c) (or_name (g_owner (c_guard c)) (c_primary c));
              order = first # filter (\<lambda>n. n \<noteq> first) (sort (map fst GATEWAY_PORTS))
          in if list_all (dhas GATEWAY_PORTS) order
             then Inr (map (\<lambda>n. (n, c_host c, the (map_of GATEWAY_PORTS n))) order)
             else Inl KeyErr)"

section \<open>Registration and ownership\<close>

definition register_message :: "ctrl \<Rightarrow> string \<Rightarrow> real \<Rightarrow> string \<Rightarrow> message" where
  "register_message c gateway now mid =
     new_message NODE_REGISTER (c_node c) gateway
       [(''node_id'', PStr (c_node c)), (''node_type'', PStr (kind_name CONTROLLER)),
        (''generation'', PInt (g_generation (c_guard c)))] now mid"

datatype reg_verdict = RegAgain | RegRefused | RegDone

text \<open>One answer read from the gateway; \<open>None\<close> is a closed connection.\<close>

definition register_reply :: "ctrl \<Rightarrow> string \<Rightarrow> message option \<Rightarrow> real \<Rightarrow> bool \<Rightarrow> reg_verdict \<times> ctrl" where
  "register_reply c gateway answer now io =
     (case answer of
        None \<Rightarrow> (RegRefused, c)
      | Some r \<Rightarrow>
          if m_type r \<noteq> NODE_REGISTER_ACK then (RegAgain, c)
          else let owner = dgetn (m_payload r) ''owner_gateway'';
                   generation = dgetn (m_payload r) ''generation'';
                   accepted = dgetn (m_payload r) ''accepted'';
                   g = c_guard c
               in if m_source r \<noteq> gateway \<or> m_target r \<noteq> c_node c \<or>
                     \<not> is_str owner \<or> \<not> dhas GATEWAY_PORTS (str_of owner) \<or>
                     \<not> is_int generation \<or> int_of generation < 0
                  then (RegRefused, c)
                  else if accepted = PBool False
                  then (RegRefused, if g_generation g \<le> int_of generation
                                    then c\<lparr>c_preferred := Some (str_of owner)\<rparr> else c)
                  else if accepted \<noteq> PBool True \<or> str_of owner \<noteq> gateway \<or>
                          int_of generation < g_generation g \<or>
                          (int_of generation = g_generation g \<and> g_owner g \<notin> {None, Some (str_of owner)})
                  then (RegRefused, c)
                  else let (ok, g', st') = set_ownership g (c_store c) (str_of owner) generation now io;
                           c' = c\<lparr>c_preferred := Some (str_of owner), c_guard := g', c_store := st'\<rparr>
                       in (if ok then RegDone else RegRefused, c'))"

text \<open>
  The attempts of \<^verbatim>\<open>_register\<close>: at most \<open>MAX_RETRIES + 1\<close>. An input is \<open>None\<close> when the
  answer timed out.
\<close>

fun register_attempts :: "nat \<Rightarrow> ctrl \<Rightarrow> string \<Rightarrow> (message option option \<times> real \<times> bool) list \<Rightarrow> bool \<times> ctrl" where
  "register_attempts 0 c gateway inputs = (False, c)"
| "register_attempts (Suc n) c gateway [] = (False, c)"
| "register_attempts (Suc n) c gateway ((answer, now, io) # inputs) =
     (case answer of
        None \<Rightarrow> register_attempts n c gateway inputs
      | Some r \<Rightarrow>
          (case register_reply c gateway r now io of
             (RegDone, c') \<Rightarrow> (True, c')
           | (RegRefused, c') \<Rightarrow> (False, c')
           | (RegAgain, c') \<Rightarrow> register_attempts n c' gateway inputs))"

definition register :: "ctrl \<Rightarrow> string \<Rightarrow> (message option option \<times> real \<times> bool) list \<Rightarrow> bool \<times> ctrl" where
  "register c gateway inputs = register_attempts (MAX_RETRIES + 1) c gateway inputs"

definition keepalive_message :: "ctrl \<Rightarrow> string \<Rightarrow> real \<Rightarrow> string \<Rightarrow> message" where
  "keepalive_message c gateway now mid =
     new_message NODE_STATUS (c_node c) gateway
       [(''node_id'', PStr (c_node c)), (''status'', PStr (health_name ONLINE)),
        (''owner_gateway'', case g_owner (c_guard c) of None \<Rightarrow> PNone | Some o' \<Rightarrow> PStr o'),
        (''generation'', PInt (g_generation (c_guard c)))] now mid"

definition adopt_ownership :: "ctrl \<Rightarrow> message \<Rightarrow> real \<Rightarrow> bool \<Rightarrow> ctrl" where
  "adopt_ownership c m now io =
     (let owner = dgetn (m_payload m) ''owner_gateway'';
          generation = dgetn (m_payload m) ''generation''
      in if owner \<noteq> PStr (c_gateway c) \<or> m_source m \<noteq> c_gateway c \<or> m_target m \<noteq> c_node c \<or>
            \<not> is_int generation \<or> int_of generation < 0
         then c
         else let (_, g', st') = set_ownership (c_guard c) (c_store c) (str_of owner) generation now io
              in c\<lparr>c_guard := g', c_store := st'\<rparr>)"

section \<open>Commands: admission\<close>

text \<open>
  The inputs of one command, in the order they are read: the wall and monotonic clocks of the
  guard's check; time stamp and storage outcome of the epoch checkpoint and of the intent; the
  monotonic clock after the actuator ran; clock, fresh id and storage outcome of the recorded
  and of the reported result; the id of the acknowledgement and the execution event.
\<close>

record cmd_env =
  e_wall :: real
  e_mono :: real
  e_own_at :: real
  e_own_io :: bool
  e_begin :: real
  e_begin_io :: bool
  e_commit :: real
  e_complete :: real
  e_complete_id :: string
  e_complete_io :: bool
  e_report :: real
  e_report_id :: string
  e_report_io :: bool
  e_aux_id :: string

definition storage_caught :: "py_error \<Rightarrow> bool" where
  "storage_caught e = (case e of StateErr _ \<Rightarrow> True | BackpressureErr _ \<Rightarrow> True | StorageErr \<Rightarrow> True | _ \<Rightarrow> False)"

definition fault :: "ctrl \<Rightarrow> string \<Rightarrow> ctrl" where
  "fault c metric = c\<lparr>c_guard := (c_guard c)\<lparr>g_fault := True\<rparr>, c_metrics := inc (c_metrics c) metric\<rparr>"

definition command_context :: "ctrl \<Rightarrow> message \<Rightarrow> dict" where
  "command_context c m =
     [(''source'', PStr (m_source m)), (''generation'', dgetn (m_payload m) ''gateway_generation''),
      (''command_type'', dgetn (m_payload m) ''type''), (''node_id'', PStr (c_node c)),
      (''issued_at'', PFloat (Fin (m_timestamp m)))]"

definition begin_intent :: "ctrl \<Rightarrow> message \<Rightarrow> string \<Rightarrow> cmd_env \<Rightarrow> ctrl \<times> (py_error + reason option)" where
  "begin_intent c m cid e =
     (case c_recent c of
        None \<Rightarrow> (c, Inl AttributeErr)
      | Some rc \<Rightarrow>
          (case rc_begin rc (c_store c) cid (Some (command_context c m)) (e_begin e) (e_begin_io e) of
             Inr (rc', st') \<Rightarrow>
               let gone = fst ` set (rc_entries rc) - fst ` set (rc_entries rc');
                   g = c_guard c
               in (c\<lparr>c_recent := Some rc', c_store := st',
                     c_guard := g\<lparr>g_executed := insert cid (g_executed g - gone)\<rparr>\<rparr>, Inr None)
           | Inl (BackpressureErr t) \<Rightarrow>
               (c\<lparr>c_metrics := inc (c_metrics c) ''result_backpressure''\<rparr>, Inr (Some RESULT_BACKPRESSURE))
           | Inl err \<Rightarrow>
               if storage_caught err
               then (fault c ''command_persistence_failures'', Inr (Some STATE_UNAVAILABLE))
               else (c, Inl err)))"

definition admit :: "ctrl \<Rightarrow> message \<Rightarrow> cmd_env \<Rightarrow> ctrl \<times> (py_error + reason option)" where
  "admit c m e =
     (let p = m_payload m;
          command_id = dgetn p ''command_id'';
          generation = dgetn p ''gateway_generation''
      in case check (c_guard c) command_id (dgetn p ''type'') (dgetn p ''duration'')
               (PFloat (Fin (m_timestamp m))) (e_wall e) (e_mono e) generation (m_source m) of
           Some r \<Rightarrow> (c, Inr (Some r))
         | None \<Rightarrow>
             (case (if generation = PNone then (True, c_guard c, c_store c)
                    else set_ownership (c_guard c) (c_store c) (m_source m) generation (e_own_at e) (e_own_io e)) of
                (ok, g', st') \<Rightarrow>
                  let c' = c\<lparr>c_guard := g', c_store := st'\<rparr>
                  in if \<not> ok then (c', Inr (Some STATE_UNAVAILABLE))
                     else begin_intent c' m (str_of command_id) e))"

section \<open>Commands: results\<close>

definition durable :: "ctrl \<Rightarrow> bool" where
  "durable c \<longleftrightarrow> c_recent c \<noteq> None \<and> c_store c \<noteq> None"

definition executed_result :: "dict \<Rightarrow> dict" where
  "executed_result p =
     [(''command_id'', dgetn p ''command_id''), (''command_type'', dgetn p ''type''),
      (''duration'', dgetn p ''duration''), (''generation'', dgetn p ''gateway_generation''),
      (''status'', PStr ''EXECUTED'')]"

definition refused_result :: "dict \<Rightarrow> string \<Rightarrow> reason \<Rightarrow> dict" where
  "refused_result p status r =
     [(''command_id'', dgetn p ''command_id''), (''command_type'', dgetn p ''type''),
      (''generation'', dgetn p ''gateway_generation''), (''status'', PStr status),
      (''reason'', PStr (reason_name r))]"

definition uncertain :: "dict \<Rightarrow> string \<Rightarrow> dict" where
  "uncertain result reason = dset (dset result ''status'' (PStr ''UNKNOWN'')) ''reason'' (PStr reason)"

definition row_lookup :: "recent \<Rightarrow> pyval \<Rightarrow> dict option" where
  "row_lookup rc cid = (case cid of PStr s \<Rightarrow> map_of (rc_entries rc) s | _ \<Rightarrow> None)"

definition result_identity :: "ctrl \<Rightarrow> dict \<Rightarrow> string" where
  "result_identity c result = ''result-'' @ c_ident c
     [PStr (c_node c), dgetn result ''command_id'', dgetn result ''generation'',
      dgetn result ''status'', dgetn result ''reason'']"

definition result_message :: "ctrl \<Rightarrow> dict \<Rightarrow> string \<Rightarrow> real \<Rightarrow> string \<Rightarrow> py_error + message" where
  "result_message c result target now mid =
     (case (c_recent c, c_store c) of
        (Some rc, Some _) \<Rightarrow>
          let identity = result_identity c result;
              payload = with_contract result;
              fresh = Inr (new_message CONTROL_RESULT (c_node c) target payload now identity);
              existing = (case map_of (rc_pending rc) identity of
                  Some w \<Rightarrow> if w = [] then fresh else from_dict (PDict w)
                | None \<Rightarrow> fresh)
          in if \<not> hashable (dgetn result ''command_id'') then Inl (TypeErr ''unhashable type'')
             else (case row_lookup rc (dgetn result ''command_id'') of
                 None \<Rightarrow> existing
               | Some row \<Rightarrow>
                   (case dgetn row ''result_message'' of
                      PDict w \<Rightarrow>
                        if w = [] then existing
                        else (case map_of w ''payload'' of
                            None \<Rightarrow> Inl KeyErr
                          | Some v \<Rightarrow> if py_eq v (PDict payload) then from_dict (PDict w) else existing)
                    | v \<Rightarrow> if truthy v then Inl (TypeErr ''result_message is not a mapping'') else existing))
      | _ \<Rightarrow> Inr (new_message CONTROL_RESULT (c_node c) target result now mid))"

section \<open>Commands: execution\<close>

definition complete_result :: "ctrl \<Rightarrow> string \<Rightarrow> dict \<Rightarrow> string \<Rightarrow> cmd_env \<Rightarrow> py_error + recent \<times> store option" where
  "complete_result c cid result target e =
     (case c_recent c of
        None \<Rightarrow> Inl AttributeErr
      | Some rc \<Rightarrow>
          (case result_message c result target (e_complete e) (e_complete_id e) of
             Inl err \<Rightarrow> Inl err
           | Inr out \<Rightarrow> rc_complete rc (c_store c) cid result (Some out) (e_complete e) (e_complete_io e)))"

definition execute :: "ctrl \<Rightarrow> message \<Rightarrow> cmd_env \<Rightarrow> ctrl \<times> (py_error + dict)" where
  "execute c m e =
     (let p = m_payload m;
          cid = str_of (dgetn p ''command_id'');
          c1 = c\<lparr>c_guard := guard_commit (c_guard c) cid (str_of (dgetn p ''type'')) (e_commit e)
                              (dgetn p ''gateway_generation'') (m_source m),
                 c_metrics := inc (c_metrics c) ''executed''\<rparr>;
          result = executed_result p
      in case complete_result c1 cid result (m_source m) e of
           Inr (rc', st') \<Rightarrow> (c1\<lparr>c_recent := Some rc', c_store := st'\<rparr>, Inr result)
         | Inl err \<Rightarrow>
             if storage_caught err
             then (fault c1 ''command_persistence_failures'', Inr (uncertain result ''STATE_UNAVAILABLE''))
             else (c1, Inl err))"

section \<open>Commands: the report\<close>

datatype report_step = Stop dict | Send message | Raise py_error

definition original_result :: "dict \<Rightarrow> dict \<Rightarrow> dict" where
  "original_result row result =
     (if truthy (dgetn row ''result'') then dict_of (dgetn row ''result'')
      else uncertain result ''INTERRUPTED_EXECUTION'')"

definition queue_outcome :: "ctrl \<Rightarrow> message \<Rightarrow> dict \<Rightarrow> reason option \<Rightarrow> message \<Rightarrow> cmd_env \<Rightarrow> ctrl \<times> report_step" where
  "queue_outcome c m result verdict out0 e =
     (case (c_recent c, c_store c) of
        (Some rc, Some s) \<Rightarrow>
          let outgoing = (case row_lookup rc (dgetn (m_payload m) ''command_id'') of
                  Some row \<Rightarrow>
                    if verdict = Some DUPLICATE_COMMAND_ID \<and> row \<noteq> []
                    then result_message c (original_result row result) (m_source m) (e_report e) (e_report_id e)
                    else Inr out0
                | None \<Rightarrow> Inr out0)
          in (case outgoing of
                Inl err \<Rightarrow> (c, Raise err)
              | Inr out \<Rightarrow>
                  (case rc_queue_result rc (Some s) out (e_report e) (e_report_io e) of
                     Inr (rc', st') \<Rightarrow> (c\<lparr>c_recent := Some rc', c_store := st'\<rparr>, Send out)
                   | Inl (BackpressureErr t) \<Rightarrow>
                       (c\<lparr>c_metrics := inc (c_metrics c) ''result_backpressure''\<rparr>, Stop result)
                   | Inl err \<Rightarrow>
                       if storage_caught err
                       then (fault c ''result_persistence_failures'', Stop (uncertain result ''STATE_UNAVAILABLE''))
                       else (c, Raise err)))
      | _ \<Rightarrow> (c, Send out0))"

definition execution_event :: "ctrl \<Rightarrow> message \<Rightarrow> cmd_env \<Rightarrow> message" where
  "execution_event c m e =
     new_message NODE_STATUS (c_node c) (m_source m)
       [(''node_id'', PStr (c_node c)), (''status'', PStr (health_name ONLINE)),
        (''event'', PStr ''ACTUATOR_EXECUTED''), (''command_id'', dgetn (m_payload m) ''command_id''),
        (''command_type'', dgetn (m_payload m) ''type''),
        (''generation'', dgetn (m_payload m) ''gateway_generation''),
        (''owner_gateway'', case g_owner (c_guard c) of None \<Rightarrow> PNone | Some o' \<Rightarrow> PStr o')] (e_report e) (e_aux_id e)"

text \<open>
  The result to return and the messages put on the wire, when a writer is given. The report is
  also the last phase of a refused command.
\<close>

definition report :: "ctrl \<Rightarrow> message \<Rightarrow> dict \<Rightarrow> reason option \<Rightarrow> bool \<Rightarrow> cmd_env \<Rightarrow> bool \<Rightarrow>
    ctrl \<times> (py_error + dict) \<times> message list" where
  "report c m result verdict executed_now e writer =
     (case result_message c result (m_source m) (e_report e) (e_report_id e) of
        Inl err \<Rightarrow> (c, Inl err, [])
      | Inr out0 \<Rightarrow>
          (case queue_outcome c m result verdict out0 e of
             (c', Raise err) \<Rightarrow> (c', Inl err, [])
           | (c', Stop r) \<Rightarrow> (c', Inr r, [])
           | (c', Send out) \<Rightarrow>
               if \<not> writer then (c', Inr result, [])
               else (case from_dict (PDict (to_dict out)) of
                   Inl err \<Rightarrow> (c', Inl err, [])
                 | Inr copy \<Rightarrow>
                     (c', Inr result,
                      (if executed_now \<and> c_emit c' then [execution_event c' m e] else []) @
                      [copy\<lparr>m_target := m_source m\<rparr>]))))"

definition process_command :: "ctrl \<Rightarrow> message \<Rightarrow> cmd_env \<Rightarrow> bool \<Rightarrow>
    ctrl \<times> (py_error + dict) \<times> message list" where
  "process_command c m e writer =
     (let acks = (if writer then [ack m (Some (c_node c)) (e_wall e) (e_aux_id e)] else []);
          p = m_payload m
      in case admit c m e of
           (c1, Inl err) \<Rightarrow> (c1, Inl err, acks)
         | (c1, Inr None) \<Rightarrow>
             (case execute c1 m e of
                (c2, Inl err) \<Rightarrow> (c2, Inl err, acks)
              | (c2, Inr result) \<Rightarrow>
                  (case report c2 m result None True e writer of (c3, r, out) \<Rightarrow> (c3, r, acks @ out)))
         | (c1, Inr (Some r)) \<Rightarrow>
             (let dup = (r = DUPLICATE_COMMAND_ID);
                  c2 = c1\<lparr>c_metrics := inc (c_metrics c1) (if dup then ''duplicates'' else ''rejected'')\<rparr>;
                  result = refused_result p (if dup then ''DUPLICATE'' else ''REJECTED'') r
              in case report c2 m result (Some r) False e writer of (c3, v, out) \<Rightarrow> (c3, v, acks @ out)))"

section \<open>Acknowledged and retried results\<close>

definition accept_result_ack :: "ctrl \<Rightarrow> message \<Rightarrow> string \<Rightarrow> real \<Rightarrow> bool \<Rightarrow> py_error + bool \<times> ctrl" where
  "accept_result_ack c m gateway now io =
     (let p = m_payload m
      in case c_recent c of
           None \<Rightarrow> Inr (False, c)
         | Some rc \<Rightarrow>
             if m_type m \<noteq> PERSISTED_ACK \<or> m_source m \<noteq> gateway \<or> m_target m \<noteq> c_node c \<or>
                dgetn p ''persisted'' \<noteq> PBool True \<or> dgetn p ''scope'' \<noteq> PStr ''CONTROL_RESULTS'' \<or>
                dgetn p ''delivery_contract'' \<noteq> PStr RESULT_CONTRACT \<or>
                dgetn p ''result_state'' \<noteq> PStr ''RESULT_DURABLY_STORED''
             then Inr (False, c)
             else (case rc_acknowledge rc (c_store c) (dgetn p ''ack_message_id'') now io of
                 Inr (b, rc', st') \<Rightarrow> Inr (b, c\<lparr>c_recent := Some rc', c_store := st'\<rparr>)
               | Inl err \<Rightarrow>
                   if storage_caught err
                   then Inr (False, c\<lparr>c_metrics := inc (c_metrics c) ''result_ack_persistence_failures''\<rparr>)
                   else Inl err))"

text \<open>One round of \<^verbatim>\<open>_retry_results\<close>: every unconfirmed result, readdressed to the current gateway.\<close>

fun retry_results :: "(string \<times> dict) list \<Rightarrow> string \<Rightarrow> counters \<Rightarrow> py_error + message list \<times> counters" where
  "retry_results [] gateway metrics = Inr ([], metrics)"
| "retry_results ((k, w) # ws) gateway metrics =
     (case from_dict (PDict w) of
        Inl err \<Rightarrow> Inl err
      | Inr m \<Rightarrow>
          (case retry_results ws gateway (inc metrics ''result_retries'') of
             Inl err \<Rightarrow> Inl err
           | Inr (ms, metrics') \<Rightarrow> Inr (m\<lparr>m_target := gateway\<rparr> # ms, metrics')))"

text \<open>
  \<^verbatim>\<open>delay = min(30.0, delay * 2)\<close>, from 1.
\<close>

definition next_delay :: "real \<Rightarrow> real" where
  "next_delay d = min 30 (d * 2)"

section \<open>Start\<close>

definition interrupted_result :: "dict \<Rightarrow> dict \<Rightarrow> dict" where
  "interrupted_result row ctx =
     [(''command_id'', dgetn row ''command_id''), (''command_type'', dgetn ctx ''command_type''),
      (''generation'', dgetn ctx ''generation''), (''status'', PStr ''UNKNOWN''),
      (''reason'', PStr ''INTERRUPTED_EXECUTION'')]"

definition needs_recovery :: "recent \<Rightarrow> dict \<Rightarrow> bool" where
  "needs_recovery rc row \<longleftrightarrow>
     dgetn row ''state'' = PStr ''INTENT'' \<and> truthy (dgetn row ''context'') \<and>
     \<not> list_ex (\<lambda>(k, m). py_eq (dgetn (dict_of (dgetn m ''payload'')) ''command_id'') (dgetn row ''command_id''))
         (rc_pending rc)"

text \<open>
  The rows are those of the window at the start; each queued result replaces the window. The
  fields of a context are written by \<^verbatim>\<open>_process_command\<close> alone and are all present.
\<close>

fun recover_rows :: "(string \<times> dict) list \<Rightarrow> ctrl \<Rightarrow> real \<Rightarrow> bool \<Rightarrow> ctrl \<times> py_error option" where
  "recover_rows [] c now io = (c, None)"
| "recover_rows ((k, row) # rows) c now io =
     (case c_recent c of
        None \<Rightarrow> (c, None)
      | Some rc \<Rightarrow>
          if \<not> needs_recovery rc row then recover_rows rows c now io
          else let ctx = dict_of (dgetn row ''context'')
               in case result_message c (interrupted_result row ctx) (str_of (dgetn ctx ''source'')) now [] of
                    Inl err \<Rightarrow> (c, Some err)
                  | Inr out \<Rightarrow>
                      (case rc_queue_result rc (c_store c) out now io of
                         Inl err \<Rightarrow> (c, Some err)
                       | Inr (rc', st') \<Rightarrow>
                           recover_rows rows (c\<lparr>c_recent := Some rc', c_store := st'\<rparr>) now io))"

definition recover_interrupted :: "ctrl \<Rightarrow> real \<Rightarrow> bool \<Rightarrow> ctrl \<times> py_error option" where
  "recover_interrupted c now io =
     (case (c_recent c, c_store c) of
        (Some rc, Some _) \<Rightarrow>
          (case recover_rows (rc_entries rc) c now io of
             (c', None) \<Rightarrow> (c', None)
           | (c', Some err) \<Rightarrow>
               if storage_caught err then (c'\<lparr>c_guard := (c_guard c')\<lparr>g_fault := True\<rparr>\<rparr>, None)
               else (c', Some err))
      | _ \<Rightarrow> (c, None))"

record boot_env =
  b_mono :: real
  b_wall :: real
  b_guard_io :: bool
  b_load_io :: bool
  b_save_io :: bool
  b_recover_io :: bool

text \<open>
  The constructor: the store it leaves behind, and the node or the exception. A faulty checkpoint
  of the guard or of the command history starts a node that executes nothing.
\<close>

definition ctrl_init :: "string \<Rightarrow> string \<Rightarrow> int option \<Rightarrow> bool \<Rightarrow> (pyval list \<Rightarrow> string) \<Rightarrow> store option \<Rightarrow>
    boot_env \<Rightarrow> store option \<times> (py_error + ctrl)" where
  "ctrl_init node host port emit ident st b =
     (case map_of GATEWAY_OF_CONTROLLER node of
        None \<Rightarrow> (st, Inl (ValueErr ''unknown controller node id''))
      | Some primary \<Rightarrow>
          let g = guard_init [] [] COMMAND_TTL st (b_mono b) (b_guard_io b);
              c = \<lparr>c_node = node, c_host = host, c_gateway = primary, c_primary = primary,
                   c_preferred = None, c_fixed_port = port, c_guard = g, c_recent = None,
                   c_store = st, c_metrics = [], c_emit = emit, c_ident = ident\<rparr>
          in case rc_init st RECENT_COMMAND_CAPACITY (g_ttl g) (b_wall b) (b_load_io b) (b_save_io b) of
               Inr (rc, st') \<Rightarrow>
                 (case recover_interrupted
                    (c\<lparr>c_recent := Some rc, c_store := st',
                       c_guard := g\<lparr>g_executed := g_executed g \<union> fst ` set (rc_entries rc)\<rparr>\<rparr>)
                    (b_wall b) (b_recover_io b) of
                    (c', None) \<Rightarrow> (c_store c', Inr c')
                  | (c', Some err) \<Rightarrow> (c_store c', Inl err))
             | Inl err \<Rightarrow>
                 if storage_caught err then (st, Inr (c\<lparr>c_guard := g\<lparr>g_fault := True\<rparr>\<rparr>)) else (st, Inl err))"


section \<open>Refused commands\<close>

lemma check_None_str: "check g cid ct d ts now el gen src = None \<Longrightarrow> is_str cid"
  by (erule check_admits) (simp add: is_str_def)

lemma admit_refuses: "\<not> is_str (dgetn (m_payload m) ''command_id'') \<Longrightarrow> \<exists>r. admit c m e = (c, Inr (Some r)) \<and> r \<noteq> DUPLICATE_COMMAND_ID"
proof -
  let ?k = "check (c_guard c) (dgetn (m_payload m) ''command_id'') (dgetn (m_payload m) ''type'')
     (dgetn (m_payload m) ''duration'') (PFloat (Fin (m_timestamp m))) (e_wall e) (e_mono e)
     (dgetn (m_payload m) ''gateway_generation'') (m_source m)"
  assume n: "\<not> is_str (dgetn (m_payload m) ''command_id'')"
  then obtain r where r: "?k = Some r" using check_None_str by blast
  have "r \<noteq> DUPLICATE_COMMAND_ID"
    using r n by (auto simp: check_def nonempty_str_iff is_str_def split: if_splits)
  with r show ?thesis by (simp add: admit_def)
qed

text \<open>
  a command whose id is a list or a dictionary is never executed, but a durable controller does
  not answer it with \<open>INVALID_COMMAND_ID\<close>: after counting the rejection the report looks the
  id up in a dictionary and \<^verbatim>\<open>TypeError\<close> leaves the handler, with nothing sent but the
  acknowledgement. Without durable state the same command gets its \<^verbatim>\<open>REJECTED\<close> result.
\<close>

theorem unhashable_id_escapes:
  assumes "\<not> hashable (dgetn (m_payload m) ''command_id'')"
  shows "if durable c
    then \<exists>c'. process_command c m e w = (c', Inl (TypeErr ''unhashable type''),
           if w then [ack m (Some (c_node c)) (e_wall e) (e_aux_id e)] else [])
    else (\<exists>c' r out. process_command c m e False = (c', Inr r, out) \<and> map_of r ''status'' = Some (PStr ''REJECTED''))"
proof -
  have "\<not> is_str (dgetn (m_payload m) ''command_id'')"
    using assms by (auto simp: hashable_def is_str_iff)
  then obtain r where r: "admit c m e = (c, Inr (Some r))" "r \<noteq> DUPLICATE_COMMAND_ID"
    using admit_refuses by blast
  let ?c = "c\<lparr>c_metrics := inc (c_metrics c) ''rejected''\<rparr>"
  let ?res = "refused_result (m_payload m) ''REJECTED'' r"
  have cid: "dgetn ?res ''command_id'' = dgetn (m_payload m) ''command_id''"
    by (simp add: refused_result_def dgetn_def)
  show ?thesis
  proof (cases "durable c")
    case True
    then obtain rc s where rc: "c_recent c = Some rc" "c_store c = Some s"
      by (auto simp: durable_def)
    have "result_message ?c ?res tgt now mid = Inl (TypeErr ''unhashable type'')" for tgt now mid
      using assms by (simp add: result_message_def rc Let_def cid)
    with True r show ?thesis
      by (auto simp: process_command_def Let_def report_def)
  next
    case False
    have "result_message ?c ?res tgt now mid = Inr (new_message CONTROL_RESULT (c_node c) tgt ?res now mid)" for tgt now mid
      using False by (auto simp: result_message_def durable_def split: option.splits)
    moreover have "queue_outcome ?c m ?res (Some r) out0 e = (?c, Send out0)" for out0
      using False by (auto simp: queue_outcome_def durable_def split: option.splits)
    ultimately have "process_command c m e False = (?c, Inr ?res, [])"
      using r by (simp add: process_command_def Let_def report_def)
    with False show ?thesis
      by (simp add: refused_result_def)
  qed
qed

theorem unhashable_id_escapes_witness:
  "let m = new_message CONTROL_COMMAND ''A1'' ''C1'' [(''command_id'', PList [])] 0 ''m'' in
    \<exists>e c c'. durable c \<and> process_command c m e False = (c', Inl (TypeErr ''unhashable type''), [])"
proof -
  define e :: cmd_env where "e = \<lparr>e_wall = 0, e_mono = 0, e_own_at = 0, e_own_io = True, e_begin = 0, e_begin_io = True,
     e_commit = 0, e_complete = 0, e_complete_id = ''r'', e_complete_io = True,
     e_report = 0, e_report_id = ''r'', e_report_io = True, e_aux_id = ''a''\<rparr>"
  define c :: ctrl where "c = \<lparr>c_node = ''C1'', c_host = ''h'', c_gateway = ''A1'', c_primary = ''A1'', c_preferred = None,
    c_fixed_port = None, c_guard = guard_init [] [] COMMAND_TTL None 0 True, c_recent = Some (empty_recent 64 10),
    c_store = Some (store_init demo_hash), c_metrics = [], c_emit = False, c_ident = (\<lambda>_. ''x'')\<rparr>"
  let ?m = "new_message CONTROL_COMMAND ''A1'' ''C1'' [(''command_id'', PList [])] 0 ''m''"
  have "\<not> hashable (dgetn (m_payload ?m) ''command_id'')"
    by (simp add: hashable_def dgetn_def)
  moreover have d: "durable c" by (simp add: durable_def c_def)
  ultimately obtain c' where "process_command c ?m e False = (c', Inl (TypeErr ''unhashable type''), [])"
    using unhashable_id_escapes [of ?m c e False] by auto
  with d show ?thesis unfolding Let_def by blast
qed

end
