(* ===== verification/Actuation.thy ===== *)
theory Actuation
  imports Controller
begin

text \<open>
  The controller as a machine that may lose power at any moment: what the durable command
  history guarantees about the actuator across executions, evictions, storage failures and
  restarts. The steps are the operations of \<open>Controller\<close>; \<open>Down s\<close> is a node without power
  whose disk holds \<open>s\<close>.
\<close>

section \<open>What the history remembers of a command\<close>

definition row_keeps :: "dict \<Rightarrow> string \<Rightarrow> real \<Rightarrow> bool" where
  "row_keeps r cid ts \<longleftrightarrow> map_of r ''command_id'' = Some (PStr cid) \<and>
     map_of r ''retain_until'' = Some (PFloat (Fin (ts + COMMAND_TTL)))"

definition holds :: "recent \<Rightarrow> string \<Rightarrow> real \<Rightarrow> bool" where
  "holds rc cid ts \<longleftrightarrow> (\<exists>r. map_of (rc_entries rc) cid = Some r \<and> row_keeps r cid ts)"

definition kept :: "store \<Rightarrow> string \<Rightarrow> real \<Rightarrow> bool" where
  "kept s cid ts \<longleftrightarrow> (\<exists>d rows r. read_ns s ''recent_commands'' = Some (PDict d) \<and>
     map_of d ''entries'' = Some (PList rows) \<and> PDict r \<in> set rows \<and> row_keeps r cid ts)"

lemma row_keeps_dset [simp]:
  "k \<noteq> ''command_id'' \<Longrightarrow> k \<noteq> ''retain_until'' \<Longrightarrow> row_keeps (dset r k v) cid ts = row_keeps r cid ts"
  by (simp add: row_keeps_def)

lemma row_keeps_canon: "row_keeps r cid ts \<Longrightarrow> row_keeps (canon_dict r) cid ts"
  by (simp add: row_keeps_def)

lemma read_ns_saved: "save s ns v now io = Inr s' \<Longrightarrow> read_ns s' ns = Some (canon v)"
  by (simp add: read_ns_def load_saved)

lemma read_ns_other: "save s ns v now io = Inr s' \<Longrightarrow> n \<noteq> ns \<Longrightarrow> read_ns s' n = read_ns s n"
  by (simp add: read_ns_def load_other)

lemma kept_saved:
  assumes sv: "rc_save rc (Some s) es ps now io = Inr (Some s')" and r: "map_of es cid = Some r" "row_keeps r cid ts"
  shows "kept s' cid ts"
proof -
  let ?d = "canon_dict (recent_value (rc_capacity rc) es ps)"
  have "read_ns s' ''recent_commands'' = Some (PDict ?d)"
    using sv by (elim rc_saveE) (auto dest!: read_ns_saved)
  moreover have "map_of ?d ''entries'' = Some (PList (map (PDict \<circ> canon_dict \<circ> snd) es))"
    by (simp add: recent_value_def)
  moreover have "PDict (canon_dict r) \<in> set (map (PDict \<circ> canon_dict \<circ> snd) es)"
    using map_of_SomeD [OF r(1)] by force
  ultimately show ?thesis
    using row_keeps_canon [OF r(2)] unfolding kept_def by blast
qed

section \<open>The history's operations keep it\<close>

lemma rc_save_Some: "rc_save rc (Some s) es ps now io = Inr st' \<Longrightarrow> \<exists>s'. st' = Some s'"
  by (auto elim: rc_saveE)

lemma begin_holds:
  assumes b: "rc_begin rc (Some s) cid ctx now io = Inr (rc', st')" and inv: "distinct (map fst (rc_entries rc))" and h: "holds rc k ts"
  shows "ts + COMMAND_TTL < now \<or> holds rc' k ts"
proof -
  obtain r where r: "map_of (rc_entries rc) k = Some r" "row_keeps r k ts"
    using h by (auto simp: holds_def)
  show ?thesis
    using rc_begin_core(8) [OF b inv r(1)] r(2)
    by (auto simp: holds_def evictable_def row_keeps_def dgetd_def num_of_def)
qed

lemma begin_new:
  assumes b: "rc_begin rc (Some s) cid (Some ctx) now io = Inr (rc', st')" and inv: "distinct (map fst (rc_entries rc))"
    and ret: "rc_retention rc = COMMAND_TTL" and i: "map_of ctx ''issued_at'' = Some (PFloat (Fin ts))"
  shows "holds rc' cid ts"
proof -
  have "ctx \<noteq> []" using i by auto
  with ret i have "row_keeps (intent_row rc cid (Some ctx) now) cid ts"
    by (simp add: row_keeps_def intent_row_def retain_until_def COMMAND_TTL_def dgetd_def)
  with rc_begin_core(6) [OF b inv] show ?thesis by (auto simp: holds_def)
qed

lemma begin_kept:
  assumes b: "rc_begin rc (Some s) cid ctx now io = Inr (rc', st')" and h: "holds rc' k ts"
  shows "\<exists>s'. st' = Some s' \<and> kept s' k ts"
proof -
  obtain es where es: "rc_entries rc' = es" and sv: "rc_save rc (Some s) es (rc_pending rc) now io = Inr st'"
    using b by (auto elim: rc_beginE)
  then obtain s' where "st' = Some s'" by (auto dest: rc_save_Some)
  with kept_saved sv h es show ?thesis by (auto simp: holds_def)
qed

lemma complete_holds:
  assumes "rc_complete rc st cid res m now io = Inr (rc', st')" "holds rc k ts"
  shows "holds rc' k ts"
  using assms by (elim rc_completeE) (auto simp: holds_def)

lemma complete_kept:
  assumes c: "rc_complete rc (Some s) cid res m now io = Inr (rc', st')" and h: "holds rc' k ts"
  shows "\<exists>s'. st' = Some s' \<and> kept s' k ts"
proof -
  obtain p where sv: "rc_save rc (Some s) (rc_entries rc') p now io = Inr st'"
    using c by (auto elim: rc_completeE)
  then obtain s' where "st' = Some s'" by (auto dest: rc_save_Some)
  with kept_saved sv h show ?thesis by (auto simp: holds_def)
qed

lemma upgraded_keeps:
  "map_of es k = Some r \<Longrightarrow> row_keeps r k ts \<Longrightarrow> \<exists>r'. map_of (upgraded es m) k = Some r' \<and> row_keeps r' k ts"
  by (auto simp: upgraded_def split: pyval.splits option.splits)

lemma queue_holds:
  assumes "rc_queue_result rc st m now io = Inr (rc', st')" "holds rc k ts"
  shows "holds rc' k ts"
  using assms by (elim rc_queueE) (auto simp: holds_def dest: upgraded_keeps)

lemma queue_kept:
  assumes c: "rc_queue_result rc (Some s) m now io = Inr (rc', st')" and h: "holds rc' k ts"
  shows "\<exists>s'. st' = Some s' \<and> kept s' k ts"
proof -
  obtain p where sv: "rc_save rc (Some s) (rc_entries rc') p now io = Inr st'"
    using c by (auto elim: rc_queueE)
  then obtain s' where "st' = Some s'" by (auto dest: rc_save_Some)
  with kept_saved sv h show ?thesis by (auto simp: holds_def)
qed

lemma ack_holds:
  assumes "rc_acknowledge rc st v now io = Inr (b, rc', st')" "holds rc k ts"
  shows "holds rc' k ts"
  using assms by (elim rc_ackE) (auto simp: holds_def)

lemma ack_kept:
  assumes c: "rc_acknowledge rc (Some s) v now io = Inr (b, rc', st')" and h: "holds rc' k ts" and k: "kept s k ts"
  shows "\<exists>s'. st' = Some s' \<and> kept s' k ts"
  using c
proof (cases rule: rc_ackE)
  case 1
  with k show ?thesis by simp
next
  case (2 i)
  then obtain s' where "st' = Some s'" by (auto dest: rc_save_Some)
  with kept_saved [of rc s "rc_entries rc" "rc_pending rc'" now io s'] 2 h show ?thesis
    by (auto simp: holds_def)
qed

section \<open>The invariant of a running node\<close>

definition remembers :: "ctrl \<Rightarrow> string \<Rightarrow> real \<Rightarrow> bool" where
  "remembers c cid ts \<longleftrightarrow> (\<exists>s. c_store c = Some s \<and> kept s cid ts) \<and>
     (c_recent c = None \<or>
      (\<exists>rc. c_recent c = Some rc \<and> holds rc cid ts \<and> cid \<in> g_executed (c_guard c)))"

definition node_ok :: "ctrl \<Rightarrow> bool" where
  "node_ok c \<longleftrightarrow> c_store c \<noteq> None \<and> g_ttl (c_guard c) = COMMAND_TTL \<and>
     (case c_recent c of None \<Rightarrow> g_fault (c_guard c)
      | Some rc \<Rightarrow> distinct (map fst (rc_entries rc)) \<and> rc_retention rc = COMMAND_TTL)"

text \<open>Changes that leave the history alone.\<close>

lemma remembers_cong:
  assumes "remembers c k ts" "c_recent c' = c_recent c"
    "\<forall>s. c_store c = Some s \<longrightarrow> (\<exists>s'. c_store c' = Some s' \<and> read_ns s' ''recent_commands'' = read_ns s ''recent_commands'')"
    "g_executed (c_guard c) \<subseteq> g_executed (c_guard c')"
  shows "remembers c' k ts"
  using assms unfolding remembers_def kept_def by fastforce

lemma node_ok_cong:
  assumes "node_ok c" "c_recent c' = c_recent c" "c_store c' \<noteq> None"
    "g_ttl (c_guard c') = g_ttl (c_guard c)" "g_fault (c_guard c) \<Longrightarrow> g_fault (c_guard c')"
  shows "node_ok c'"
  using assms by (auto simp: node_ok_def split: option.splits)


text \<open>A step up to time \<open>T\<close> carries the memory along: what it forgets has expired before \<open>T\<close>.\<close>

definition carries :: "real \<Rightarrow> ctrl \<Rightarrow> ctrl \<Rightarrow> bool" where
  "carries T c c' \<longleftrightarrow> (node_ok c \<longrightarrow> node_ok c' \<and>
     (\<forall>k ts. remembers c k ts \<longrightarrow> ts + COMMAND_TTL < T \<or> remembers c' k ts))"

lemma carries_refl [simp]: "carries T c c"
  by (simp add: carries_def)

lemma carries_trans: "carries T a b \<Longrightarrow> carries T b c \<Longrightarrow> carries T a c"
  unfolding carries_def by blast

lemma carries_frame:
  assumes "c_recent c' = c_recent c"
    "\<forall>s. c_store c = Some s \<longrightarrow> (\<exists>s'. c_store c' = Some s' \<and> read_ns s' ''recent_commands'' = read_ns s ''recent_commands'')"
    "g_executed (c_guard c) \<subseteq> g_executed (c_guard c')" "g_ttl (c_guard c') = g_ttl (c_guard c)"
    "g_fault (c_guard c) \<Longrightarrow> g_fault (c_guard c')"
  shows "carries T c c'"
proof -
  have "c_store c' \<noteq> None" if "node_ok c"
    using that assms(2) by (auto simp: node_ok_def)
  with node_ok_cong [of c c'] remembers_cong [of c _ _ c'] assms show ?thesis
    unfolding carries_def by blast
qed

lemma carries_fault [simp]: "carries T c (fault c t)"
  by (rule carries_frame) (simp_all add: fault_def)

lemma carries_metrics [simp]: "carries T c (c\<lparr>c_metrics := x\<rparr>)"
  by (rule carries_frame) simp_all

lemma set_ownership_frame:
  assumes "set_ownership g st own gen now io = (b, g', st')"
  shows "g_executed g' = g_executed g" "g_ttl g' = g_ttl g" "g_fault g \<Longrightarrow> g_fault g'"
    "st = Some s \<Longrightarrow> \<exists>s'. st' = Some s' \<and> read_ns s' ''recent_commands'' = read_ns s ''recent_commands''"
  using assms
  by (auto simp: set_ownership_def Let_def read_ns_other split: if_splits option.splits sum.splits)

lemma carries_ownership:
  assumes "set_ownership (c_guard c) (c_store c) own gen now io = (b, g', st')"
    "c' = c\<lparr>c_preferred := p, c_guard := g', c_store := st'\<rparr>"
  shows "carries T c c'"
  using set_ownership_frame [OF assms(1)] by (intro carries_frame) (simp_all add: assms(2))

text \<open>An update of the history that keeps its rows and saves them.\<close>

lemma carries_history:
  assumes rc: "c_recent c = Some rc" and st: "c_store c = Some s"
    and inv: "distinct (map fst (rc_entries rc)) \<Longrightarrow> distinct (map fst (rc_entries rc'))" "rc_retention rc' = rc_retention rc"
    and h: "\<And>k ts. holds rc k ts \<Longrightarrow> holds rc' k ts"
    and k: "\<And>k ts. holds rc' k ts \<Longrightarrow> kept s k ts \<Longrightarrow> \<exists>s'. st' = Some s' \<and> kept s' k ts"
    and sn: "st' \<noteq> None"
  shows "carries T c (c\<lparr>c_recent := Some rc', c_store := st'\<rparr>)"
  using assms unfolding carries_def remembers_def node_ok_def by fastforce


lemma rc_save_not_None: "rc_save rc (Some s) es ps now io = Inr st' \<Longrightarrow> st' \<noteq> None"
  by (auto dest: rc_save_Some)

lemma rc_queue_frame:
  assumes "rc_queue_result rc (Some s) m now io = Inr (rc', st')"
  shows "rc_retention rc' = rc_retention rc" "st' \<noteq> None"
    "distinct (map fst (rc_entries rc)) \<Longrightarrow> distinct (map fst (rc_entries rc'))"
  using assms by (auto simp: upgraded_inv elim!: rc_queueE dest: rc_save_not_None)

lemma rc_complete_frame:
  assumes "rc_complete rc (Some s) cid res m now io = Inr (rc', st')"
  shows "rc_retention rc' = rc_retention rc" "st' \<noteq> None"
    "distinct (map fst (rc_entries rc)) \<Longrightarrow> distinct (map fst (rc_entries rc'))"
  using assms by (auto simp: upgraded_inv elim!: rc_completeE dest: rc_save_not_None)

lemma rc_ack_frame:
  assumes "rc_acknowledge rc (Some s) v now io = Inr (b, rc', st')"
  shows "rc_retention rc' = rc_retention rc" "st' \<noteq> None"
    "distinct (map fst (rc_entries rc)) \<Longrightarrow> distinct (map fst (rc_entries rc'))"
  using assms by (auto simp: upgraded_inv elim!: rc_ackE dest: rc_save_not_None)

lemma carries_queue:
  assumes q: "rc_queue_result rc (Some s) m now io = Inr (rc', st')" and "c_recent c = Some rc" "c_store c = Some s"
  shows "carries T c (c\<lparr>c_recent := Some rc', c_store := st'\<rparr>)"
  using rc_queue_frame [OF q] queue_holds [OF q] queue_kept [OF q] assms
  by (intro carries_history [where rc = rc and s = s]) auto

lemma carries_complete:
  assumes q: "rc_complete rc (Some s) cid res m now io = Inr (rc', st')" and "c_recent c = Some rc" "c_store c = Some s"
  shows "carries T c (c\<lparr>c_recent := Some rc', c_store := st'\<rparr>)"
  using rc_complete_frame [OF q] complete_holds [OF q] complete_kept [OF q] assms
  by (intro carries_history [where rc = rc and s = s]) auto

lemma carries_ack:
  assumes q: "rc_acknowledge rc (Some s) v now io = Inr (b, rc', st')" and "c_recent c = Some rc" "c_store c = Some s"
  shows "carries T c (c\<lparr>c_recent := Some rc', c_store := st'\<rparr>)"
  using rc_ack_frame [OF q] ack_holds [OF q] ack_kept [OF q] assms
  by (intro carries_history [where rc = rc and s = s]) auto

lemma node_ok_store: "node_ok c \<Longrightarrow> \<exists>s. c_store c = Some s"
  by (auto simp: node_ok_def)

section \<open>Every operation carries the memory\<close>

lemma begin_intent_carries:
  assumes "begin_intent c m cid e = (c', v)"
  shows "carries (e_begin e) c c'"
proof (cases "c_recent c")
  case None
  with assms show ?thesis by (simp add: begin_intent_def)
next
  case (Some rc)
  show ?thesis
  proof (cases "rc_begin rc (c_store c) cid (Some (command_context c m)) (e_begin e) (e_begin_io e)")
    case (Inl err)
    with assms Some show ?thesis
      by (cases err) (auto simp: begin_intent_def split: if_splits)
  next
    case (Inr r)
    obtain rc' st' where r: "r = (rc', st')" by force
    let ?gone = "fst ` set (rc_entries rc) - fst ` set (rc_entries rc')"
    have c': "c' = c\<lparr>c_recent := Some rc', c_store := st',
        c_guard := (c_guard c)\<lparr>g_executed := insert cid (g_executed (c_guard c) - ?gone)\<rparr>\<rparr>"
      using assms Some Inr r by (simp add: begin_intent_def Let_def)
    show ?thesis
      unfolding carries_def
    proof (intro impI conjI allI)
      assume ok: "node_ok c"
      then obtain s where s: "c_store c = Some s" by (blast dest: node_ok_store)
      with Inr r have b: "rc_begin rc (Some s) cid (Some (command_context c m)) (e_begin e) (e_begin_io e) = Inr (rc', st')"
        by simp
      have inv: "distinct (map fst (rc_entries rc))" "rc_retention rc = COMMAND_TTL"
        using ok Some by (simp_all add: node_ok_def)
      note spec = rc_begin_core [OF b inv(1)]
      have "st' \<noteq> None"
        using b by (auto elim!: rc_beginE dest: rc_save_not_None)
      with ok spec inv Some show "node_ok c'"
        by (simp add: c' node_ok_def)
      fix k ts
      assume "remembers c k ts"
      with Some have h: "holds rc k ts" and x: "k \<in> g_executed (c_guard c)"
        by (auto simp: remembers_def)
      show "ts + COMMAND_TTL < e_begin e \<or> remembers c' k ts"
        using begin_holds [OF b inv(1) h]
      proof
        assume h': "holds rc' k ts"
        then have "k \<in> fst ` set (rc_entries rc')"
          by (force simp: holds_def dest: map_of_SomeD)
        with x h' begin_kept [OF b h'] show ?thesis
          by (auto simp: remembers_def c')
      qed simp
    qed
  qed
qed

lemma admit_carries:
  assumes "admit c m e = (c', v)"
  shows "carries (e_begin e) c c'"
proof -
  let ?gen = "dgetn (m_payload m) ''gateway_generation''"
  obtain ok g' st' where o': "(if ?gen = PNone then (True, c_guard c, c_store c)
      else set_ownership (c_guard c) (c_store c) (m_source m) ?gen (e_own_at e) (e_own_io e)) = (ok, g', st')"
    by (metis prod_cases3)
  let ?c1 = "c\<lparr>c_guard := g', c_store := st'\<rparr>"
  have "carries T c ?c1" for T
  proof (cases "?gen = PNone")
    case True
    with o' show ?thesis by (intro carries_frame) auto
  next
    case False
    with o' carries_ownership [of c "m_source m" ?gen "e_own_at e" "e_own_io e" ok g' st' ?c1 "c_preferred c"]
    show ?thesis by simp
  qed
  moreover have "c' = c \<or> c' = ?c1 \<or> begin_intent ?c1 m (str_of (dgetn (m_payload m) ''command_id'')) e = (c', v)"
    using assms unfolding admit_def Let_def o' by (auto split: option.splits if_splits)
  ultimately show ?thesis
    using begin_intent_carries carries_trans carries_refl by blast
qed


lemma carries_no_store: "c_store c = None \<Longrightarrow> carries T c c'"
  by (simp add: carries_def node_ok_def)

lemma commit_frame:
  "g_executed g \<subseteq> g_executed (guard_commit g cid t el gen src)"
  "g_ttl (guard_commit g cid t el gen src) = g_ttl g"
  "g_fault (guard_commit g cid t el gen src) = g_fault g"
  by (auto simp: guard_commit_def Let_def)

lemma complete_result_carries:
  assumes "complete_result c cid res tgt e = Inr (rc', st')"
  shows "carries T c (c\<lparr>c_recent := Some rc', c_store := st'\<rparr>)"
proof (cases "c_store c")
  case (Some s)
  with assms obtain rc out where "c_recent c = Some rc"
    "rc_complete rc (Some s) cid res (Some out) (e_complete e) (e_complete_io e) = Inr (rc', st')"
    by (auto simp: complete_result_def split: option.splits sum.splits)
  with Some carries_complete show ?thesis by blast
qed (rule carries_no_store)

lemma execute_carries:
  assumes "execute c m e = (c', v)"
  shows "carries T c c'"
proof -
  define c1 where "c1 = c\<lparr>c_guard := guard_commit (c_guard c) (str_of (dgetn (m_payload m) ''command_id''))
      (str_of (dgetn (m_payload m) ''type'')) (e_commit e) (dgetn (m_payload m) ''gateway_generation'') (m_source m),
    c_metrics := inc (c_metrics c) ''executed''\<rparr>"
  have "carries T c c1"
    by (rule carries_frame) (simp_all add: c1_def commit_frame)
  moreover have "carries T c1 c'"
    using assms complete_result_carries unfolding execute_def Let_def c1_def [symmetric]
    by (auto split: sum.splits if_splits)
  ultimately show ?thesis by (rule carries_trans)
qed

lemma queue_outcome_carries:
  assumes "queue_outcome c m res vd out0 e = (c', r)"
  shows "carries T c c'"
proof (cases "c_recent c")
  case (Some rc)
  show ?thesis
  proof (cases "c_store c")
    case st: (Some s)
    have "c' = c \<or> c' = fault c ''result_persistence_failures'' \<or>
        c' = c\<lparr>c_metrics := inc (c_metrics c) ''result_backpressure''\<rparr> \<or>
        (\<exists>out rc' st'. rc_queue_result rc (Some s) out (e_report e) (e_report_io e) = Inr (rc', st') \<and>
           c' = c\<lparr>c_recent := Some rc', c_store := st'\<rparr>)"
      using assms unfolding queue_outcome_def Some st Let_def
      by (auto split: sum.splits py_error.splits if_splits)
    with carries_queue [OF _ Some st] show ?thesis by auto
  qed (rule carries_no_store)
qed (use assms in \<open>simp add: queue_outcome_def\<close>)

lemma report_carries:
  assumes "report c m res vd ex e w = (c', r)"
  shows "carries T c c'"
proof (cases "result_message c res (m_source m) (e_report e) (e_report_id e)")
  case (Inl err)
  with assms show ?thesis by (simp add: report_def)
next
  case (Inr out0)
  obtain c1 r1 where q: "queue_outcome c m res vd out0 e = (c1, r1)" by force
  then have "c' = c1"
    using assms by (auto simp: report_def Inr split: report_step.splits sum.splits if_splits)
  with queue_outcome_carries [OF q] show ?thesis by simp
qed

lemma process_after_admit:
  assumes "process_command c m e w = (c', r, out)" and a: "admit c m e = (c1, v)"
  shows "carries T c1 c'"
proof -
  note a1 = carries_refl [of T c1]
  show ?thesis
  proof (cases v)
    case (Inl err)
    with assms a a1 show ?thesis by (simp add: process_command_def)
  next
    case (Inr verdict)
    show ?thesis
    proof (cases verdict)
      case None
      obtain c2 x where ex: "execute c1 m e = (c2, x)" by force
      note a2 = carries_trans [OF a1 execute_carries [OF ex]]
      show ?thesis
      proof (cases x)
        case (Inl err)
        with assms a Inr None ex a2 show ?thesis by (simp add: process_command_def)
      next
        case res: (Inr result)
        obtain c3 q o3 where rp: "report c2 m result None True e w = (c3, q, o3)" by (metis prod_cases3)
        with assms a Inr None ex res have "c' = c3" by (simp add: process_command_def)
        with carries_trans [OF a2 report_carries [OF rp]] show ?thesis by simp
      qed
    next
      case (Some rs)
      let ?c2 = "c1\<lparr>c_metrics := inc (c_metrics c1) (if rs = DUPLICATE_COMMAND_ID then ''duplicates'' else ''rejected'')\<rparr>"
      obtain c3 q o3 where rp: "report ?c2 m (refused_result (m_payload m)
          (if rs = DUPLICATE_COMMAND_ID then ''DUPLICATE'' else ''REJECTED'') rs) (Some rs) False e w = (c3, q, o3)"
        by (metis prod_cases3)
      with assms a Inr Some have "c' = c3" by (simp add: process_command_def Let_def)
      with carries_trans [OF carries_trans [OF a1 carries_metrics] report_carries [OF rp]] show ?thesis by simp
    qed
  qed
qed

lemma accept_ack_carries:
  assumes "accept_result_ack c m gw now io = Inr (b, c')"
  shows "carries T c c'"
proof (cases "c_recent c")
  case (Some rc)
  show ?thesis
  proof (cases "c_store c")
    case st: (Some s)
    have "c' = c \<or> c' = c\<lparr>c_metrics := inc (c_metrics c) ''result_ack_persistence_failures''\<rparr> \<or>
        (\<exists>v b rc' st'. rc_acknowledge rc (Some s) v now io = Inr (b, rc', st') \<and>
           c' = c\<lparr>c_recent := Some rc', c_store := st'\<rparr>)"
      using assms unfolding accept_result_ack_def Some st Let_def option.case
      by (auto split: sum.splits if_splits)
    with carries_ack [OF _ Some st] show ?thesis by auto
  qed (rule carries_no_store)
qed (use assms in \<open>simp add: accept_result_ack_def\<close>)

lemma adopt_carries: "carries T c (adopt_ownership c m now io)"
proof (cases "set_ownership (c_guard c) (c_store c) (str_of (dgetn (m_payload m) ''owner_gateway''))
    (dgetn (m_payload m) ''generation'') now io" rule: prod_cases3)
  case (fields b g' st')
  from carries_ownership [OF fields, of "c\<lparr>c_guard := g', c_store := st'\<rparr>" "c_preferred c"] show ?thesis
    unfolding adopt_ownership_def Let_def fields by simp
qed

lemma register_reply_carries: "carries T c (snd (register_reply c gw r now io))"
proof (cases r)
  case (Some a)
  obtain b g' st' where own: "set_ownership (c_guard c) (c_store c) (str_of (dgetn (m_payload a) ''owner_gateway''))
      (dgetn (m_payload a) ''generation'') now io = (b, g', st')"
    by (metis prod_cases3)
  have pref: "carries T c (c\<lparr>c_preferred := p\<rparr>)" for p
    by (rule carries_frame) simp_all
  show ?thesis
    using carries_ownership [OF own refl] pref
    unfolding register_reply_def Some option.case Let_def own prod.case by (simp add: if_distrib [of snd] cong: if_cong)
qed (simp add: register_reply_def)

lemma register_carries: "carries T c (snd (register c gw inputs))"
proof -
  have "carries T c (snd (register_attempts n c gw inputs))" for n
  proof (induction n c gw inputs rule: register_attempts.induct)
    case (3 n c gw answer now io inputs)
    show ?case
    proof (cases answer)
      case (Some r)
      obtain vd c' where rr: "register_reply c gw r now io = (vd, c')" by force
      with register_reply_carries [of T c gw r now io] have "carries T c c'" by simp
      with 3 Some rr show ?thesis by (cases vd) (auto intro: carries_trans)
    qed (use 3 in simp)
  qed simp_all
  then show ?thesis by (simp add: register_def)
qed

lemma recover_rows_carries: "recover_rows rows c now io = (c', err) \<Longrightarrow> carries T c c'"
proof (induction rows c now io arbitrary: c' rule: recover_rows.induct)
  case (2 k row rows c now io)
  show ?case
  proof (cases "c_recent c")
    case (Some rc)
    show ?thesis
    proof (cases "c_store c")
      case st: (Some s)
      show ?thesis
        using "2.prems" "2.IH" [OF Some] carries_trans [OF carries_queue [OF _ Some st]] Some st
        by (auto simp: Let_def split: if_splits sum.splits)
    qed (rule carries_no_store)
  qed (use 2 in simp)
qed simp

lemma recover_carries:
  assumes "recover_interrupted c now io = (c', err)"
  shows "carries T c c'"
proof -
  have flt: "carries T x (x\<lparr>c_guard := (c_guard x)\<lparr>g_fault := True\<rparr>\<rparr>)" for x
    by (rule carries_frame) simp_all
  show ?thesis
    using assms recover_rows_carries [of _ c now io] carries_trans [OF _ flt]
    by (auto simp: recover_interrupted_def split: option.splits prod.splits if_splits)
qed


section \<open>Starting from the disk\<close>

lemma rc_trimD: "rc_trim cap ps now es = Inr es' \<Longrightarrow> trim cap (protected_ids ps) now es = Inr es'"
  by (simp add: rc_trim_def split: list.splits)

lemma recent_validateD:
  "recent_validate v \<Longrightarrow> \<exists>d rows. v = PDict d \<and> map_of d ''entries'' = Some (PList rows) \<and>
     distinct (map row_id rows) \<and> list_all row_ok rows"
  unfolding recent_validate_def by (cases v) (auto split: option.splits pyval.splits simp del: map_map)

lemma rc_init_holds:
  assumes i: "rc_init (Some s) cap COMMAND_TTL now io1 io2 = Inr (rc, st')" and k: "kept s k ts"
  shows "ts + COMMAND_TTL < now \<or> holds rc k ts"
proof -
  obtain d rows r where rd: "read_ns s ''recent_commands'' = Some (PDict d)"
    and rows: "map_of d ''entries'' = Some (PList rows)" and r: "PDict r \<in> set rows" "row_keeps r k ts"
    using k by (auto simp: kept_def)
  define es where "es = map (\<lambda>r. (str_of (dgetn r ''command_id''), r)) (map (migrated_row COMMAND_TTL now) rows)"
  obtain saved where ld: "load s ''recent_commands'' recent_validate False io1 = Inr saved"
    using i by (auto simp: rc_init_def Let_def split: if_splits sum.splits)
  have ioT: "io1" using ld by (auto simp: load_def split: if_splits)
  obtain v where v: "saved = Some v"
    using ld rd ioT by (cases saved) (auto simp: load_def read_ns_def Let_def split: if_splits list.splits)
  then have "read_ns s ''recent_commands'' = Some v" and val: "recent_validate v"
    using load_strict_slot0 [of s "''recent_commands''" recent_validate io1 v] ld
    by (auto simp: read_ns_def load_def Let_def row_value_def loads_def List.map_filter_def)
  with rd have vd: "v = PDict d" by simp
  have dist: "distinct (map row_id rows)" "list_all row_ok rows"
    using recent_validateD [OF val] rows vd by auto
  obtain es' where tr: "rc_trim cap (map (\<lambda>(k, m). (k, dict_of m)) (dict_of (dgetn d ''pending_results''))) now es = Inr es'"
    and rc: "rc_entries rc = es'"
    using i by (auto simp: rc_init_def Let_def ld v vd rows dgetn_def es_def list_of_def split: if_splits sum.splits)
  have idr: "str_of (dgetn (migrated_row COMMAND_TTL now x) ''command_id'') = row_id x" if "x \<in> set rows" for x
    by (simp add: migrated_row_def row_id_def Let_def)
  have keys: "map fst es = map row_id rows"
    using idr by (simp add: es_def)
  have "migrated_row COMMAND_TTL now (PDict r) = r"
    using r(2) by (simp add: migrated_row_def row_keeps_def)
  moreover have "str_of (dgetn r ''command_id'') = k"
    using r(2) by (simp add: row_keeps_def dgetn_def)
  ultimately have mem: "(k, r) \<in> set es"
    using r(1) unfolding es_def by force
  from tr have "length es' \<le> cap \<and> distinct (map fst es') \<and> set es' \<subseteq> set es \<and>
      (\<forall>e \<in> set es. e \<notin> set es' \<longrightarrow> (\<exists>p. evictable p now e))"
    using trim_spec [of cap _ now es es'] dist(1) keys
    by (auto simp: rc_trim_def split: list.splits)
  then show ?thesis
    using mem r(2) by (auto simp: holds_def rc evictable_def row_keeps_def dgetd_def num_of_def)
qed


lemma rc_init_frame:
  assumes i: "rc_init (Some s) cap ret now io1 io2 = Inr (rc, st')"
  shows "distinct (map fst (rc_entries rc))" "rc_retention rc = ret"
    "\<exists>s'. st' = Some s' \<and> (\<forall>k ts. holds rc k ts \<longrightarrow> kept s' k ts)"
proof -
  obtain saved where ld: "load s ''recent_commands'' recent_validate False io1 = Inr saved"
    using i by (auto simp: rc_init_def Let_def split: if_splits sum.splits)
  define d where "d = (case saved of None \<Rightarrow> [] | Some v \<Rightarrow> dict_of v)"
  define rows where "rows = list_of (dgetn d ''entries'')"
  define es where "es = map (\<lambda>r. (str_of (dgetn r ''command_id''), r)) (map (migrated_row ret now) rows)"
  have "distinct (map row_id rows)"
  proof (cases saved)
    case (Some v)
    with ld have "recent_validate v"
      using load_strict_slot0 [of s "''recent_commands''" recent_validate io1 v] by auto
    from recent_validateD [OF this] show ?thesis
      by (auto simp: rows_def d_def Some dgetn_def list_of_def)
  qed (simp add: rows_def d_def list_of_def dgetn_def)
  moreover have "map fst es = map row_id rows"
    by (simp add: es_def row_id_def migrated_row_def Let_def)
  ultimately have dist: "distinct (map fst es)" by simp
  obtain ps es' where tr: "es' = es \<or> (\<exists>ps. rc_trim cap ps now es = Inr es')"
    and rc: "rc = \<lparr>rc_capacity = cap, rc_retention = ret, rc_entries = es', rc_pending = ps\<rparr>"
    and sv: "rc_save \<lparr>rc_capacity = cap, rc_retention = ret, rc_entries = [], rc_pending = []\<rparr> (Some s) es' ps now io2 = Inr st'"
    using i unfolding rc_init_def Let_def option.case ld sum.case d_def [symmetric] rows_def [symmetric] es_def [symmetric]
    by (auto split: if_splits sum.splits)
  show "distinct (map fst (rc_entries rc))"
    using tr dist trim_spec [of cap _ now es es'] rc_trimD by (fastforce simp: rc)
  show "rc_retention rc = ret" by (simp add: rc)
  obtain s' where s': "st' = Some s'" using rc_save_Some [OF sv] by blast
  have "kept s' k ts" if "holds rc k ts" for k ts
    using that kept_saved [OF sv [unfolded s']] by (auto simp: holds_def rc)
  with s' show "\<exists>s'. st' = Some s' \<and> (\<forall>k ts. holds rc k ts \<longrightarrow> kept s' k ts)" by blast
qed

lemma ctrl_init_carries:
  assumes i: "ctrl_init node host port emit ident (Some s) b = (st', r)"
  obtains s' where "st' = Some s'" "\<And>k ts. kept s k ts \<Longrightarrow> ts + COMMAND_TTL < b_wall b \<or> kept s' k ts"
    "\<And>c. r = Inr c \<Longrightarrow> node_ok c \<and> c_store c = st' \<and>
       (\<forall>k ts. kept s k ts \<longrightarrow> ts + COMMAND_TTL < b_wall b \<or> remembers c k ts)"
proof -
  define g where "g = guard_init [] [] COMMAND_TTL (Some s) (b_mono b) (b_guard_io b)"
  have ttl: "g_ttl g = COMMAND_TTL"
    by (auto simp: g_def guard_init_def Let_def split: sum.splits option.splits)
  define c0 where "c0 primary = \<lparr>c_node = node, c_host = host, c_gateway = primary, c_primary = primary,
                   c_preferred = None, c_fixed_port = port, c_guard = g, c_recent = None,
                   c_store = Some s, c_metrics = [], c_emit = emit, c_ident = ident\<rparr>" for primary
  note init = i [unfolded ctrl_init_def Let_def, folded g_def, folded c0_def]
  show ?thesis
  proof (cases "map_of GATEWAY_OF_CONTROLLER node")
    case None
    with i have "st' = Some s" "r = Inl (ValueErr ''unknown controller node id'')"
      by (simp_all add: ctrl_init_def)
    with that [of s] show ?thesis by simp
  next
    case (Some primary)
    define io where "io = rc_init (Some s) RECENT_COMMAND_CAPACITY (g_ttl g) (b_wall b) (b_load_io b) (b_save_io b)"
    show ?thesis
    proof (cases io)
      case (Inl err)
      have "st' = Some s \<and> (r = Inl err \<or> r = Inr (c0 primary\<lparr>c_guard := g\<lparr>g_fault := True\<rparr>\<rparr>))"
        using init Some Inl by (auto simp: io_def split: if_splits)
      then show ?thesis
        by (intro that [of s]) (auto simp: node_ok_def remembers_def c0_def ttl)
    next
      case (Inr x)
      obtain rc st1 where x: "x = (rc, st1)" by force
      then have ri: "rc_init (Some s) RECENT_COMMAND_CAPACITY COMMAND_TTL (b_wall b) (b_load_io b) (b_save_io b) = Inr (rc, st1)"
        using Inr by (simp add: io_def ttl)
      define c1 where "c1 = c0 primary\<lparr>c_recent := Some rc, c_store := st1,
          c_guard := g\<lparr>g_executed := g_executed g \<union> fst ` set (rc_entries rc)\<rparr>\<rparr>"
      obtain c2 e2 where c2: "recover_interrupted c1 (b_wall b) (b_recover_io b) = (c2, e2)" by force
      have res: "st' = c_store c2" "r = Inr c \<Longrightarrow> c = c2" for c
        using init Some Inr x c2 by (auto simp: io_def c1_def c0_def split: option.splits)
      obtain s1 where s1: "st1 = Some s1" and k1: "holds rc k ts \<Longrightarrow> kept s1 k ts" for k ts
        using rc_init_frame(3) [OF ri] by blast
      have ok1: "node_ok c1"
        using rc_init_frame [OF ri] by (auto simp: node_ok_def c1_def c0_def ttl)
      have mem: "k \<in> fst ` set (rc_entries rc)" if "holds rc k ts" for k ts
        using that by (force simp: holds_def dest: map_of_SomeD)
      have rem1: "ts + COMMAND_TTL < b_wall b \<or> remembers c1 k ts" if "kept s k ts" for k ts
        using rc_init_holds [OF ri that] k1 mem s1 by (auto simp: remembers_def c1_def)
      have car: "carries (b_wall b) c1 c2" by (rule recover_carries [OF c2])
      then have ok2: "node_ok c2" and rem2: "ts + COMMAND_TTL < b_wall b \<or> remembers c2 k ts" if "kept s k ts" for k ts
        using ok1 rem1 [OF that] unfolding carries_def by blast+
      have ok2': "node_ok c2" using car ok1 by (simp add: carries_def)
      then obtain s2 where s2: "c_store c2 = Some s2" by (blast dest: node_ok_store)
      show ?thesis
      proof (rule that [of s2])
        show "st' = Some s2" using res(1) s2 by simp
        show "ts + COMMAND_TTL < b_wall b \<or> kept s2 k ts" if "kept s k ts" for k ts
          using rem2 [OF that] s2 by (auto simp: remembers_def)
        show "node_ok c \<and> c_store c = st' \<and> (\<forall>k ts. kept s k ts \<longrightarrow> ts + COMMAND_TTL < b_wall b \<or> remembers c k ts)"
          if "r = Inr c" for c
          using res that ok2' rem2 by auto
      qed
    qed
  qed
qed


section \<open>Power cuts and restarts\<close>

text \<open>
  The runs of one durable node with its disk. A run ends at a wall-clock time and has a log of
  the actuations that were started: the id of the command and the time it was issued. The
  wall clock of the node does not run backwards. A power cut may come between operations,
  after the durable intent was written and the actuator started, or after the outcome was recorded.
\<close>

datatype plant = Up ctrl | Down store

record actuation =
  a_id :: string
  a_issued :: real
  a_generation :: pyval
  a_source :: string

definition started :: "ctrl \<Rightarrow> message \<Rightarrow> cmd_env \<Rightarrow> actuation list" where
  "started c m e = (if snd (admit c m e) = Inr None
     then [\<lparr>a_id = str_of (dgetn (m_payload m) ''command_id''), a_issued = m_timestamp m,
            a_generation = dgetn (m_payload m) ''gateway_generation'', a_source = m_source m\<rparr>]
     else [])"

abbreviation identity_of :: "actuation \<Rightarrow> string \<times> real" where
  "identity_of a \<equiv> (a_id a, a_issued a)"

inductive runs :: "string \<Rightarrow> (pyval list \<Rightarrow> string) \<Rightarrow> store \<Rightarrow> plant \<Rightarrow> real \<Rightarrow> actuation list \<Rightarrow> bool"
  for node :: string and ident :: "pyval list \<Rightarrow> string" and disk :: store
where
  off: "runs node ident disk (Down disk) t []"
| boot: "runs node ident disk (Down s) t acts \<Longrightarrow> t \<le> b_wall b \<Longrightarrow>
    ctrl_init node host port emit ident (Some s) b = (st, Inr c) \<Longrightarrow> runs node ident disk (Up c) (b_wall b) acts"
| boot_fails: "runs node ident disk (Down s) t acts \<Longrightarrow> t \<le> b_wall b \<Longrightarrow>
    ctrl_init node host port emit ident (Some s) b = (Some s', Inl err) \<Longrightarrow> runs node ident disk (Down s') (b_wall b) acts"
| cut: "runs node ident disk (Up c) t acts \<Longrightarrow> c_store c = Some s \<Longrightarrow> runs node ident disk (Down s) t acts"
| command: "runs node ident disk (Up c) t acts \<Longrightarrow> t \<le> e_wall e \<Longrightarrow> e_wall e \<le> e_begin e \<Longrightarrow>
    process_command c m e w = (c', r, out) \<Longrightarrow> runs node ident disk (Up c') (e_begin e) (acts @ started c m e)"
| cut_running: "runs node ident disk (Up c) t acts \<Longrightarrow> t \<le> e_wall e \<Longrightarrow> e_wall e \<le> e_begin e \<Longrightarrow>
    admit c m e = (c', v) \<Longrightarrow> c_store c' = Some s \<Longrightarrow> runs node ident disk (Down s) (e_begin e) (acts @ started c m e)"
| cut_executed: "runs node ident disk (Up c) t acts \<Longrightarrow> t \<le> e_wall e \<Longrightarrow> e_wall e \<le> e_begin e \<Longrightarrow>
    admit c m e = (c', Inr None) \<Longrightarrow> execute c' m e = (c'', v) \<Longrightarrow> c_store c'' = Some s \<Longrightarrow>
    runs node ident disk (Down s) (e_begin e) (acts @ started c m e)"
| result_ack: "runs node ident disk (Up c) t acts \<Longrightarrow> accept_result_ack c m gw now io = Inr (b', c') \<Longrightarrow>
    runs node ident disk (Up c') t acts"
| ownership: "runs node ident disk (Up c) t acts \<Longrightarrow> runs node ident disk (Up (adopt_ownership c m now io)) t acts"
| registration: "runs node ident disk (Up c) t acts \<Longrightarrow> runs node ident disk (Up (snd (register c gw inputs))) t acts"

inductive_cases runs_UpE: "runs node ident disk (Up c) t acts"
inductive_cases runs_DownE: "runs node ident disk (Down s) t acts"

definition plant_ok :: "plant \<Rightarrow> real \<Rightarrow> actuation list \<Rightarrow> bool" where
  "plant_ok p t acts \<longleftrightarrow> distinct (map identity_of acts) \<and>
     (case p of
        Down s \<Rightarrow> (\<forall>a \<in> set acts. a_issued a + COMMAND_TTL < t \<or> kept s (a_id a) (a_issued a))
      | Up c \<Rightarrow> node_ok c \<and>
          (\<forall>a \<in> set acts. a_issued a + COMMAND_TTL < t \<or> remembers c (a_id a) (a_issued a)))"

text \<open>What an admission proves about the history, and what it adds to it.\<close>

lemma admit_fresh:
  assumes a: "admit c m e = (c', Inr None)" and ok: "node_ok c"
  shows "\<not> g_fault (c_guard c)" "str_of (dgetn (m_payload m) ''command_id'') \<notin> g_executed (c_guard c)"
    "e_wall e - COMMAND_TTL \<le> m_timestamp m"
    "remembers c' (str_of (dgetn (m_payload m) ''command_id'')) (m_timestamp m)"
proof -
  let ?p = "m_payload m" and ?gen = "dgetn (m_payload m) ''gateway_generation''"
  let ?cid = "str_of (dgetn (m_payload m) ''command_id'')"
  have chk: "check (c_guard c) (dgetn ?p ''command_id'') (dgetn ?p ''type'') (dgetn ?p ''duration'')
      (PFloat (Fin (m_timestamp m))) (e_wall e) (e_mono e) ?gen (m_source m) = None"
    using a by (auto simp: admit_def Let_def split: option.splits)
  show "\<not> g_fault (c_guard c)" "?cid \<notin> g_executed (c_guard c)" "e_wall e - COMMAND_TTL \<le> m_timestamp m"
    using ok by (rule_tac check_admits [OF chk]; simp add: node_ok_def num_of_def)+
  obtain b g' st' where o': "(if ?gen = PNone then (True, c_guard c, c_store c)
      else set_ownership (c_guard c) (c_store c) (m_source m) ?gen (e_own_at e) (e_own_io e)) = (b, g', st')"
    by (metis prod_cases3)
  let ?c1 = "c\<lparr>c_guard := g', c_store := st'\<rparr>"
  have bi: "begin_intent ?c1 m ?cid e = (c', Inr None)"
    using a chk unfolding admit_def Let_def o' by (auto split: if_splits)
  obtain s1 where s1: "st' = Some s1"
  proof -
    obtain s0 where s0: "c_store c = Some s0" using node_ok_store [OF ok] by blast
    have "\<exists>s1. st' = Some s1"
    proof (cases "?gen = PNone")
      case True
      with o' have "st' = c_store c" by simp
      with s0 show ?thesis by simp
    next
      case False
      with o' have "set_ownership (c_guard c) (c_store c) (m_source m) ?gen (e_own_at e) (e_own_io e) = (b, g', st')"
        by simp
      from set_ownership_frame(4) [OF this s0] show ?thesis by auto
    qed
    then show ?thesis using that by blast
  qed
  obtain rc where rc: "c_recent c = Some rc"
    using bi by (auto simp: begin_intent_def split: option.splits)
  with ok have inv: "distinct (map fst (rc_entries rc))" "rc_retention rc = COMMAND_TTL"
    by (simp_all add: node_ok_def)
  obtain rc' st2 where b: "rc_begin rc (Some s1) ?cid (Some (command_context ?c1 m)) (e_begin e) (e_begin_io e) = Inr (rc', st2)"
    and c': "c_recent c' = Some rc'" "c_store c' = st2" "?cid \<in> g_executed (c_guard c')"
    using bi unfolding begin_intent_def by (auto simp: rc s1 Let_def split: sum.splits py_error.splits if_splits)
  have "holds rc' ?cid (m_timestamp m)"
    by (rule begin_new [OF b inv]) (simp add: command_context_def)
  with begin_kept [OF b this] c' show "remembers c' ?cid (m_timestamp m)"
    by (auto simp: remembers_def)
qed

lemma plant_ok_up: "plant_ok (Up c) t acts \<Longrightarrow> carries T c c' \<Longrightarrow> t \<le> T \<Longrightarrow> plant_ok (Up c') T acts"
  unfolding plant_ok_def carries_def by fastforce

lemma plant_ok_cut: "plant_ok (Up c) t acts \<Longrightarrow> c_store c = Some s \<Longrightarrow> plant_ok (Down s) t acts"
  unfolding plant_ok_def remembers_def by fastforce

lemma plant_ok_admit:
  assumes ok: "plant_ok (Up c) t acts" and t: "t \<le> e_wall e" "e_wall e \<le> e_begin e" and a: "admit c m e = (c', v)"
  shows "plant_ok (Up c') (e_begin e) (acts @ started c m e)"
proof -
  have up: "plant_ok (Up c') (e_begin e) acts"
    using plant_ok_up [OF ok admit_carries [OF a]] t by simp
  show ?thesis
  proof (cases "v = Inr None")
    case False
    with up a show ?thesis by (simp add: started_def)
  next
    case True
    have n: "node_ok c" using ok by (simp add: plant_ok_def)
    note f = admit_fresh [OF a [unfolded True] n]
    let ?id = "str_of (dgetn (m_payload m) ''command_id'')"
    obtain x where st: "started c m e = [x]" and x: "a_id x = ?id" "a_issued x = m_timestamp m"
      using a True by (simp add: started_def)
    have "identity_of b \<noteq> identity_of x" if "b \<in> set acts" for b
    proof
      assume "identity_of b = identity_of x"
      with ok that x have "m_timestamp m + COMMAND_TTL < t \<or> remembers c ?id (m_timestamp m)"
        unfolding plant_ok_def by fastforce
      with f t show False
        using n by (auto simp: remembers_def node_ok_def)
    qed
    with up f(4) x show ?thesis
      by (force simp: plant_ok_def st)
  qed
qed


lemma runs_ok: "runs node ident disk p t acts \<Longrightarrow> plant_ok p t acts"
proof (induction rule: runs.induct)
  case (off t)
  show ?case by (simp add: plant_ok_def)
next
  case (boot s t acts b host port emit st c)
  obtain s' where "st = Some s'" "\<And>k ts. kept s k ts \<Longrightarrow> ts + COMMAND_TTL < b_wall b \<or> kept s' k ts"
    and c: "node_ok c" "\<And>k ts. kept s k ts \<Longrightarrow> ts + COMMAND_TTL < b_wall b \<or> remembers c k ts"
    by (rule ctrl_init_carries [OF boot.hyps(3)]) auto
  with boot show ?case by (fastforce simp: plant_ok_def)
next
  case (boot_fails s t acts b host port emit s' err)
  have "kept s k ts \<Longrightarrow> ts + COMMAND_TTL < b_wall b \<or> kept s' k ts" for k ts
    by (rule ctrl_init_carries [OF boot_fails.hyps(3)]) auto
  with boot_fails show ?case by (fastforce simp: plant_ok_def)
next
  case (cut c t acts s)
  then show ?case by (blast intro: plant_ok_cut)
next
  case (command c t acts e m w c' r out)
  obtain c1 v where a: "admit c m e = (c1, v)" by force
  have "plant_ok (Up c1) (e_begin e) (acts @ started c m e)"
    using plant_ok_admit [OF command.IH command.hyps(2,3) a] .
  moreover have "carries (e_begin e) c1 c'"
    by (rule process_after_admit [OF command.hyps(4) a])
  ultimately show ?case by (rule plant_ok_up) simp
next
  case (cut_running c t acts e m c' v s)
  show ?case
    using plant_ok_cut [OF plant_ok_admit [OF cut_running.IH cut_running.hyps(2-4)]] cut_running.hyps(5) by blast
next
  case (cut_executed c t acts e m c' c'' v s)
  have "plant_ok (Up c'') (e_begin e) (acts @ started c m e)"
    using plant_ok_up [OF plant_ok_admit [OF cut_executed.IH cut_executed.hyps(2-4)]
        execute_carries [OF cut_executed.hyps(5)]] by simp
  then show ?case using cut_executed.hyps(6) by (rule plant_ok_cut)
next
  case (result_ack c t acts m gw now io b' c')
  then show ?case by (blast intro: plant_ok_up accept_ack_carries order_refl)
next
  case (ownership c t acts m now io)
  then show ?case by (blast intro: plant_ok_up adopt_carries order_refl)
next
  case (registration c t acts gw inputs)
  then show ?case by (blast intro: plant_ok_up register_carries order_refl)
qed

text \<open>
  C2: at most one actuation per command. In every run of a durable controller, through any
  commands, retries and duplicates, evictions from the bounded history, storage failures, failed
  starts, restarts and power cuts in the middle of an execution, no command (an id and its issue
  time) starts the actuator twice.
\<close>

theorem at_most_one_actuation:
  assumes "runs node ident disk p t acts"
  shows "distinct (map identity_of acts)"
  using runs_ok [OF assms] by (simp add: plant_ok_def)


definition demo_command :: message where
  "demo_command = new_message CONTROL_COMMAND ''A1'' ''C1''
     [(''command_id'', PStr ''cmd''), (''type'', PStr ''IRRIGATION''), (''duration'', PInt 5),
      (''gateway_generation'', PInt 2)] 100 ''m1''"

definition demo_env :: cmd_env where
  "demo_env = \<lparr>e_wall = 101, e_mono = 1, e_own_at = 101, e_own_io = True, e_begin = 102, e_begin_io = True,
     e_commit = 2, e_complete = 103, e_complete_id = ''r'', e_complete_io = True,
     e_report = 104, e_report_id = ''r'', e_report_io = True, e_aux_id = ''a''\<rparr>"

definition demo_boot :: boot_env where
  "demo_boot = \<lparr>b_mono = 0, b_wall = 99, b_guard_io = True, b_load_io = True, b_save_io = True, b_recover_io = True\<rparr>"

lemma demo_boot_ok:
  "\<exists>c. ctrl_init ''C1'' ''h'' None False ident (Some (store_init demo_hash)) demo_boot = (c_store c, Inr c)
     \<and> c_recent c = Some (empty_recent 64 10) \<and> c_store c \<noteq> None
     \<and> c_guard c = guard_init [] [] COMMAND_TTL None 0 True \<and> c_node c = ''C1''"
proof -
  have "load (store_init demo_hash) ns vd False True = Inr None" for ns vd
    by (simp add: load_def store_init_def)
  moreover obtain s1 where "save (store_init demo_hash) ''recent_commands'' (PDict (recent_value 64 [] [])) 99 True = Inr s1"
  proof -
    have "json_ok (PDict (recent_value 64 [] []))" by (simp add: recent_value_json)
    from save_ok [OF this] show ?thesis using that by blast
  qed
  ultimately show ?thesis
    by (simp add: ctrl_init_def GATEWAY_OF_CONTROLLER_def guard_init_def Let_def rc_init_def rc_save_def
        RECENT_COMMAND_CAPACITY_def COMMAND_TTL_def demo_boot_def empty_recent_def recover_interrupted_def
        list_of_def dgetn_def dict_of_def)
qed


lemma demo_admit:
  assumes "c_recent c = Some (empty_recent 64 10)" "c_store c = Some s"
    "c_guard c = guard_init [] [] COMMAND_TTL None 0 True" "c_node c = ''C1''"
  shows "\<exists>c'. admit c demo_command demo_env = (c', Inr None) \<and> c_store c' \<noteq> None"
proof -
  let ?ctx = "[(''source'', PStr ''A1''), (''generation'', PInt 2), (''command_type'', PStr ''IRRIGATION''),
    (''node_id'', PStr ''C1''), (''issued_at'', PFloat (Fin 100))]"
  let ?row = "intent_row (empty_recent 64 10) ''cmd'' (Some ?ctx) 102"
  let ?g = "(c_guard c)\<lparr>g_owner := Some ''A1'', g_generation := 2\<rparr>"
  have g: "check (c_guard c) (PStr ''cmd'') (PStr ''IRRIGATION'') (PInt 5) (PFloat (Fin 100)) 101 1 (PInt 2) ''A1'' = None"
    unfolding assms(3)
    by (simp add: check_def guard_init_def Let_def is_str_def is_int_def int_of_def INITIAL_GENERATION_def
        COMMAND_TTL_def dmerge_def MAX_DURATION_def nonempty_str_def str_of_def)
  have "json_ok (PDict (guard_value 2 ''A1''))"
    by (simp add: guard_value_def json_ok_PDict)
  from save_ok [OF this] obtain s0 where s0:
    "save s ''controller'' (PDict (guard_value 2 ''A1'')) 101 True = Inr s0"
    by blast
  then have own: "set_ownership (c_guard c) (Some s) ''A1'' (PInt 2) 101 True = (True, ?g, Some s0)"
    unfolding assms(3) by (simp add: set_ownership_def guard_init_def Let_def is_int_def int_of_def INITIAL_GENERATION_def)
  have "json_ok (PDict (recent_value 64 [(''cmd'', ?row)] []))"
    by (simp add: recent_value_json) (simp add: intent_row_def json_ok_PDict retain_until_def empty_recent_def)
  from save_ok [OF this] obtain s1 where s1:
    "save s0 ''recent_commands'' (PDict (recent_value 64 [(''cmd'', ?row)] [])) 102 True = Inr s1"
    by blast
  then have b: "rc_begin (empty_recent 64 10) (Some s0) ''cmd'' (Some ?ctx) 102 True =
      Inr ((empty_recent 64 10)\<lparr>rc_entries := [(''cmd'', ?row)]\<rparr>, Some s1)"
    by (simp add: rc_begin_def rc_trim_def pending_errors_def List.map_filter_def trim_id rc_save_def
        empty_recent_def dset_def)
  let ?c1 = "c\<lparr>c_guard := ?g, c_store := Some s0\<rparr>"
  have fields: "dgetn (m_payload demo_command) ''command_id'' = PStr ''cmd''"
    "dgetn (m_payload demo_command) ''type'' = PStr ''IRRIGATION''"
    "dgetn (m_payload demo_command) ''duration'' = PInt 5"
    "dgetn (m_payload demo_command) ''gateway_generation'' = PInt 2"
    "m_timestamp demo_command = 100" "m_source demo_command = ''A1''"
    by (simp_all add: demo_command_def dgetn_def)
  have ctx: "command_context ?c1 demo_command = ?ctx"
    using assms(4) by (simp add: command_context_def fields)
  have "\<exists>c'. begin_intent ?c1 demo_command ''cmd'' demo_env = (c', Inr None) \<and> c_store c' \<noteq> None"
    unfolding begin_intent_def ctx using b assms(1) by (simp add: demo_env_def Let_def)
  moreover have "admit c demo_command demo_env = begin_intent ?c1 demo_command ''cmd'' demo_env"
    using g own assms(2) by (simp add: admit_def fields demo_env_def)
  ultimately show ?thesis by simp
qed

lemma demo_run:
  "\<exists>p a. runs ''C1'' (\<lambda>_. ''x'') (store_init demo_hash) p 102 [a] \<and> identity_of a = (''cmd'', 100)
     \<and> a_generation a = PInt 2 \<and> a_source a = ''A1''"
proof -
  obtain c s where c: "ctrl_init ''C1'' ''h'' None False (\<lambda>_. ''x'') (Some (store_init demo_hash)) demo_boot = (Some s, Inr c)"
    "c_recent c = Some (empty_recent 64 10)" "c_store c = Some s"
    "c_guard c = guard_init [] [] COMMAND_TTL None 0 True" "c_node c = ''C1''"
    using demo_boot_ok by fastforce
  have up: "runs ''C1'' (\<lambda>_. ''x'') (store_init demo_hash) (Up c) 99 []"
    using runs.boot [OF runs.off [of _ _ _ 0], of demo_boot "''C1''"] c by (simp add: demo_boot_def)
  obtain c' s' where a: "admit c demo_command demo_env = (c', Inr None)" "c_store c' = Some s'"
    using demo_admit [OF c(2,3,4,5)] by auto
  let ?x = "\<lparr>a_id = ''cmd'', a_issued = 100, a_generation = PInt 2, a_source = ''A1''\<rparr>"
  have "started c demo_command demo_env = [?x]"
    using a by (simp add: started_def) (simp add: demo_command_def dgetn_def)
  then have "runs ''C1'' (\<lambda>_. ''x'') (store_init demo_hash) (Down s') 102 [?x]"
    using runs.cut_running [OF up _ _ a] by (simp add: demo_env_def)
  then show ?thesis by (intro exI [of _ "Down s'"] exI [of _ ?x]) simp
qed

theorem at_most_one_actuation_witness:
  "\<exists>p a. runs ''C1'' (\<lambda>_. ''x'') (store_init demo_hash) p 102 [a] \<and> identity_of a = (''cmd'', 100)
     \<and> distinct (map identity_of [a])"
  using demo_run at_most_one_actuation by blast

end
