(* ===== verification/Epochs.thy ===== *)
theory Epochs
  imports Actuation
begin

text \<open>
  One gateway per epoch: what the durable ownership epoch of the controller guarantees about the
  senders of the commands it runs, in the runs of \<open>Actuation\<close>.
\<close>

section \<open>What the guard and its checkpoint remember of an epoch\<close>

definition guard_mem :: "guard \<Rightarrow> int \<Rightarrow> string \<Rightarrow> bool" where
  "guard_mem gd g src \<longleftrightarrow> g < g_generation gd \<or> g = g_generation gd \<and> g_owner gd = Some src"

definition epoch_mem :: "store \<Rightarrow> int \<Rightarrow> string \<Rightarrow> bool" where
  "epoch_mem s g src \<longleftrightarrow> (\<exists>d i own. read_ns s ''controller'' = Some (PDict d) \<and>
     map_of d ''highest_generation'' = Some (PInt i) \<and> map_of d ''owner_gateway'' = Some (PStr own) \<and>
     (g < i \<or> g = i \<and> own = src))"

definition epoch_kept :: "ctrl \<Rightarrow> int \<Rightarrow> string \<Rightarrow> bool" where
  "epoch_kept c g src \<longleftrightarrow> (\<exists>s. c_store c = Some s \<and> epoch_mem s g src) \<and>
     (g_fault (c_guard c) \<or> guard_mem (c_guard c) g src)"

text \<open>Steps that do not touch the ownership.\<close>

definition quiet :: "ctrl \<Rightarrow> ctrl \<Rightarrow> bool" where
  "quiet c c' \<longleftrightarrow> g_generation (c_guard c') = g_generation (c_guard c) \<and> g_owner (c_guard c') = g_owner (c_guard c) \<and>
     (g_fault (c_guard c) \<longrightarrow> g_fault (c_guard c')) \<and>
     (\<forall>s. c_store c = Some s \<longrightarrow>
        (\<exists>s'. c_store c' = Some s' \<and> read_ns s' ''controller'' = read_ns s ''controller''))"

lemma quiet_refl [simp]: "quiet c c"
  by (simp add: quiet_def)

lemma quiet_trans: "quiet a b \<Longrightarrow> quiet b c \<Longrightarrow> quiet a c"
  unfolding quiet_def by fastforce

lemma quiet_kept: "quiet c c' \<Longrightarrow> epoch_kept c g src \<Longrightarrow> epoch_kept c' g src"
  unfolding quiet_def epoch_kept_def guard_mem_def epoch_mem_def by fastforce

lemma quiet_fault [simp]: "quiet c (fault c t)"
  by (simp add: quiet_def fault_def)

lemma quiet_metrics [simp]: "quiet c (c\<lparr>c_metrics := x\<rparr>)"
  by (simp add: quiet_def)

lemma rc_save_quiet:
  "rc_save rc (Some s) es ps now io = Inr st' \<Longrightarrow>
     \<exists>s'. st' = Some s' \<and> read_ns s' ''controller'' = read_ns s ''controller''"
  by (frule rc_save_Some) (auto elim!: rc_saveE dest!: read_ns_other [where n = "''controller''"])

lemma quiet_queue:
  "rc_queue_result rc (c_store c) m now io = Inr (rc', st') \<Longrightarrow> quiet c (c\<lparr>c_recent := Some rc', c_store := st'\<rparr>)"
  by (cases "c_store c") (auto elim!: rc_queueE dest: rc_save_quiet simp: quiet_def)

lemma quiet_complete:
  "rc_complete rc (c_store c) cid r m now io = Inr (rc', st') \<Longrightarrow> quiet c (c\<lparr>c_recent := Some rc', c_store := st'\<rparr>)"
  by (cases "c_store c") (auto elim!: rc_completeE dest: rc_save_quiet simp: quiet_def)

lemma quiet_ack:
  assumes "rc_acknowledge rc (c_store c) v now io = Inr (b, rc', st')"
  shows "quiet c (c\<lparr>c_recent := Some rc', c_store := st'\<rparr>)"
proof (cases "c_store c")
  case (Some s)
  from assms show ?thesis
    by (cases rule: rc_ackE) (auto simp: Some quiet_def dest: rc_save_quiet)
qed (simp add: quiet_def)

lemma begin_intent_quiet:
  assumes "begin_intent c m cid e = (c', v)"
  shows "quiet c c'"
proof (cases "c_recent c")
  case (Some rc)
  show ?thesis
  proof (cases "rc_begin rc (c_store c) cid (Some (command_context c m)) (e_begin e) (e_begin_io e)")
    case (Inl err)
    with assms Some show ?thesis
      by (cases err) (auto simp: begin_intent_def split: if_splits)
  next
    case (Inr r)
    obtain rc' st' where r: "r = (rc', st')" by force
    have "c_store c = Some s \<Longrightarrow> \<exists>s'. st' = Some s' \<and> read_ns s' ''controller'' = read_ns s ''controller''" for s
      using Inr r by (auto elim!: rc_beginE dest: rc_save_quiet)
    with assms Some Inr r show ?thesis
      by (auto simp: begin_intent_def Let_def quiet_def)
  qed
qed (use assms in \<open>simp add: begin_intent_def\<close>)

section \<open>Ownership changes\<close>

lemma set_ownership_kept:
  assumes so: "set_ownership (c_guard c) (c_store c) own gen now io = (b, g', st')" and k: "epoch_kept c g src"
    and c': "c' = c\<lparr>c_preferred := p, c_guard := g', c_store := st'\<rparr>"
  shows "epoch_kept c' g src"
proof (cases b)
  case False
  then show ?thesis
    using set_ownership_False [of "c_guard c" "c_store c" own gen now io g' st'] so k
    by (auto simp: epoch_kept_def guard_mem_def c')
next
  case True
  obtain s where s: "c_store c = Some s" using k by (auto simp: epoch_kept_def)
  obtain i where i: "g_generation (c_guard c) \<le> i" "i = g_generation (c_guard c) \<Longrightarrow> g_owner (c_guard c) \<in> {None, Some own}"
    "\<not> g_fault (c_guard c)" "g' = (c_guard c)\<lparr>g_owner := Some own, g_generation := i\<rparr>"
    and sv: "\<exists>s'. st' = Some s' \<and> save s ''controller'' (PDict (guard_value i own)) now io = Inr s'"
    using so s True by (auto elim!: set_ownership_True)
  from k i(3) have gm: "guard_mem (c_guard c) g src" by (simp add: epoch_kept_def)
  then have new: "g < i \<or> g = i \<and> own = src"
    using i(1,2) by (auto simp: guard_mem_def)
  from sv obtain s' where "st' = Some s'" "read_ns s' ''controller'' = Some (canon (PDict (guard_value i own)))"
    using read_ns_saved by blast
  with new have "\<exists>s'. st' = Some s' \<and> epoch_mem s' g src"
    by (auto simp: epoch_mem_def guard_value_def)
  with new i(4) show ?thesis
    by (auto simp: epoch_kept_def guard_mem_def c')
qed

lemma adopt_kept: "epoch_kept c g src \<Longrightarrow> epoch_kept (adopt_ownership c m now io) g src"
proof (cases "set_ownership (c_guard c) (c_store c) (str_of (dgetn (m_payload m) ''owner_gateway''))
    (dgetn (m_payload m) ''generation'') now io" rule: prod_cases3)
  case (fields b g' st')
  assume "epoch_kept c g src"
  with set_ownership_kept [OF fields this, of "c\<lparr>c_guard := g', c_store := st'\<rparr>" "c_preferred c"] show ?thesis
    unfolding adopt_ownership_def Let_def fields by simp
qed

lemma register_reply_kept:
  assumes k: "epoch_kept c g src"
  shows "epoch_kept (snd (register_reply c gw r now io)) g src"
proof (cases r)
  case (Some a)
  obtain b g' st' where own: "set_ownership (c_guard c) (c_store c) (str_of (dgetn (m_payload a) ''owner_gateway''))
      (dgetn (m_payload a) ''generation'') now io = (b, g', st')"
    by (metis prod_cases3)
  have pref: "epoch_kept (c\<lparr>c_preferred := p\<rparr>) g src" for p
    using k by (simp add: epoch_kept_def)
  show ?thesis
    using set_ownership_kept [OF own k refl] pref k
    unfolding register_reply_def Some option.case Let_def own prod.case by (simp add: if_distrib [of snd] cong: if_cong)
qed (use k in \<open>simp add: register_reply_def\<close>)

lemma register_kept: "epoch_kept c g src \<Longrightarrow> epoch_kept (snd (register c gw inputs)) g src"
proof -
  have "epoch_kept c g src \<Longrightarrow> epoch_kept (snd (register_attempts n c gw inputs)) g src" for n
  proof (induction n c gw inputs rule: register_attempts.induct)
    case (3 n c gw answer now io inputs)
    show ?case
    proof (cases answer)
      case (Some r)
      obtain vd c' where rr: "register_reply c gw r now io = (vd, c')" by force
      with register_reply_kept [OF "3.prems", of gw r now io] have "epoch_kept c' g src" by simp
      with 3 Some rr show ?thesis by (cases vd) auto
    qed (use 3 in simp)
  qed simp_all
  then show "epoch_kept c g src \<Longrightarrow> ?thesis" by (simp add: register_def)
qed


section \<open>Admission and execution\<close>

text \<open>What an admitted command with an epoch says about the ownership before and after.\<close>

lemma admit_epoch:
  assumes a: "admit c m e = (c', Inr None)"
  shows "dgetn (m_payload m) ''gateway_generation'' = PNone \<and> quiet c c' \<or>
    (\<exists>i. dgetn (m_payload m) ''gateway_generation'' = PInt i \<and> \<not> g_fault (c_guard c) \<and>
       g_generation (c_guard c) \<le> i \<and>
       (i = g_generation (c_guard c) \<longrightarrow> g_owner (c_guard c) \<in> {None, Some (m_source m)}) \<and>
       g_generation (c_guard c') = i \<and> g_owner (c_guard c') = Some (m_source m) \<and>
       (c_store c \<noteq> None \<longrightarrow> epoch_kept c' i (m_source m)))"
proof -
  let ?gen = "dgetn (m_payload m) ''gateway_generation''" and ?cid = "str_of (dgetn (m_payload m) ''command_id'')"
  obtain b g' st' where o': "(if ?gen = PNone then (True, c_guard c, c_store c)
      else set_ownership (c_guard c) (c_store c) (m_source m) ?gen (e_own_at e) (e_own_io e)) = (b, g', st')"
    by (metis prod_cases3)
  let ?c1 = "c\<lparr>c_guard := g', c_store := st'\<rparr>"
  have b: "b" and bi: "begin_intent ?c1 m ?cid e = (c', Inr None)"
    using a unfolding admit_def Let_def o' by (auto split: if_splits option.splits)
  note q = begin_intent_quiet [OF bi]
  show ?thesis
  proof (cases "?gen = PNone")
    case True
    with o' have "?c1 = c" by simp
    with q True show ?thesis by simp
  next
    case False
    with o' b have so: "set_ownership (c_guard c) (c_store c) (m_source m) ?gen (e_own_at e) (e_own_io e) = (True, g', st')"
      by simp
    obtain i where i: "?gen = PInt i" "g_generation (c_guard c) \<le> i"
      "i = g_generation (c_guard c) \<Longrightarrow> g_owner (c_guard c) \<in> {None, Some (m_source m)}"
      "\<not> g_fault (c_guard c)" "g' = (c_guard c)\<lparr>g_owner := Some (m_source m), g_generation := i\<rparr>"
      and sv: "\<forall>s. c_store c = Some s \<longrightarrow> (\<exists>s'. st' = Some s' \<and>
        save s ''controller'' (PDict (guard_value i (m_source m))) (e_own_at e) (e_own_io e) = Inr s')"
      using so by (auto elim!: set_ownership_True)
    have "epoch_kept c' i (m_source m)" if "c_store c \<noteq> None"
    proof -
      from that sv obtain s0 s' where s': "st' = Some s'"
        "save s0 ''controller'' (PDict (guard_value i (m_source m))) (e_own_at e) (e_own_io e) = Inr s'"
        by auto
      from s'(1) read_ns_saved [OF s'(2)] have "epoch_kept ?c1 i (m_source m)"
        by (simp add: epoch_kept_def epoch_mem_def guard_mem_def i(5) guard_value_def)
      then show ?thesis by (rule quiet_kept [OF q])
    qed
    moreover have "g_generation (c_guard c') = i" "g_owner (c_guard c') = Some (m_source m)"
      using q i(5) by (simp_all add: quiet_def)
    ultimately show ?thesis using i by blast
  qed
qed

lemma admit_kept:
  assumes a: "admit c m e = (c', v)" and k: "epoch_kept c g src"
  shows "epoch_kept c' g src"
proof -
  let ?gen = "dgetn (m_payload m) ''gateway_generation''"
  obtain b g' st' where o': "(if ?gen = PNone then (True, c_guard c, c_store c)
      else set_ownership (c_guard c) (c_store c) (m_source m) ?gen (e_own_at e) (e_own_io e)) = (b, g', st')"
    by (metis prod_cases3)
  let ?c1 = "c\<lparr>c_guard := g', c_store := st'\<rparr>"
  have "epoch_kept ?c1 g src"
  proof (cases "?gen = PNone")
    case True
    with o' k show ?thesis by auto
  next
    case False
    with o' set_ownership_kept [of c "m_source m" ?gen "e_own_at e" "e_own_io e" b g' st' g src ?c1 "c_preferred c"] k
    show ?thesis by simp
  qed
  moreover have "c' = c \<or> c' = ?c1 \<or> begin_intent ?c1 m (str_of (dgetn (m_payload m) ''command_id'')) e = (c', v)"
    using a unfolding admit_def Let_def o' by (auto split: option.splits if_splits)
  ultimately show ?thesis
    using begin_intent_quiet quiet_kept k by blast
qed

lemma commit_mem:
  assumes gm: "guard_mem gd g src"
    and gen: "gen = PNone \<or> (\<exists>i. gen = PInt i \<and> g_generation gd = i \<and> g_owner gd = Some from)"
  shows "guard_mem (guard_commit gd cid t el gen from) g src"
  using gen gm by (auto simp: guard_commit_def Let_def guard_mem_def)

lemma execute_kept:
  assumes ex: "execute c m e = (c', v)" and k: "epoch_kept c g src"
    and gen: "dgetn (m_payload m) ''gateway_generation'' = PNone \<or>
      (\<exists>i. dgetn (m_payload m) ''gateway_generation'' = PInt i \<and> g_generation (c_guard c) = i \<and>
           g_owner (c_guard c) = Some (m_source m))"
  shows "epoch_kept c' g src"
proof -
  define c1 where "c1 = c\<lparr>c_guard := guard_commit (c_guard c) (str_of (dgetn (m_payload m) ''command_id''))
      (str_of (dgetn (m_payload m) ''type'')) (e_commit e) (dgetn (m_payload m) ''gateway_generation'') (m_source m),
    c_metrics := inc (c_metrics c) ''executed''\<rparr>"
  have k1: "epoch_kept c1 g src"
    using k commit_mem [OF _ gen] by (auto simp: epoch_kept_def c1_def commit_frame)
  have "quiet c1 (c1\<lparr>c_recent := Some rc', c_store := st'\<rparr>)"
    if "complete_result c1 cid res tgt e = Inr (rc', st')" for cid res tgt rc' st'
    using that by (auto simp: complete_result_def split: option.splits sum.splits intro: quiet_complete)
  then have "quiet c1 c'"
    using ex unfolding execute_def Let_def c1_def [symmetric]
    by (auto split: sum.splits if_splits)
  from quiet_kept [OF this k1] show ?thesis .
qed

lemma report_quiet:
  assumes "report c m res vd ex e w = (c', r)"
  shows "quiet c c'"
proof (cases "result_message c res (m_source m) (e_report e) (e_report_id e)")
  case (Inr out0)
  obtain c1 r1 where q: "queue_outcome c m res vd out0 e = (c1, r1)" by force
  then have c': "c' = c1"
    using assms by (auto simp: report_def Inr split: report_step.splits sum.splits if_splits)
  show ?thesis
  proof (cases "c_recent c")
    case (Some rc)
    show ?thesis
    proof (cases "c_store c")
      case st: (Some s)
      have "c1 = c \<or> c1 = fault c ''result_persistence_failures'' \<or>
          c1 = c\<lparr>c_metrics := inc (c_metrics c) ''result_backpressure''\<rparr> \<or>
          (\<exists>out rc' st'. rc_queue_result rc (c_store c) out (e_report e) (e_report_io e) = Inr (rc', st') \<and>
             c1 = c\<lparr>c_recent := Some rc', c_store := st'\<rparr>)"
        using q unfolding queue_outcome_def Some st Let_def
        by (auto split: sum.splits py_error.splits if_splits)
      with quiet_queue show ?thesis by (auto simp: c')
    qed (use q c' Some in \<open>simp add: queue_outcome_def\<close>)
  qed (use q c' in \<open>simp add: queue_outcome_def\<close>)
qed (use assms in \<open>simp add: report_def\<close>)


section \<open>Starting from the disk\<close>

lemma rc_init_quiet:
  assumes "rc_init (Some s) cap ret now io1 io2 = Inr (rc, st')"
  shows "\<exists>s'. st' = Some s' \<and> read_ns s' ''controller'' = read_ns s ''controller''"
  using assms by (auto simp: rc_init_def Let_def split: if_splits sum.splits dest!: rc_save_quiet)

lemma recover_rows_quiet: "recover_rows rows c now io = (c', err) \<Longrightarrow> quiet c c'"
proof (induction rows c now io arbitrary: c' rule: recover_rows.induct)
  case (2 k row rows c now io)
  show ?case
  proof (cases "c_recent c")
    case (Some rc)
    show ?thesis
      using "2.prems" "2.IH" [OF Some] quiet_trans [OF quiet_queue] Some
      by (auto simp: Let_def split: if_splits sum.splits)
  qed (use 2 in simp)
qed simp

lemma recover_quiet:
  assumes "recover_interrupted c now io = (c', err)"
  shows "quiet c c'"
proof -
  have "quiet a x \<Longrightarrow> quiet a (x\<lparr>c_guard := (c_guard x)\<lparr>g_fault := True\<rparr>\<rparr>)" for a x
    by (simp add: quiet_def)
  then show ?thesis
    using assms recover_rows_quiet [of _ c now io]
    by (auto simp: recover_interrupted_def split: option.splits prod.splits if_splits)
qed

lemma guard_init_kept:
  assumes k: "epoch_mem s g src"
  shows "g_fault (guard_init [] [] ttl (Some s) mclk io) \<or> guard_mem (guard_init [] [] ttl (Some s) mclk io) g src"
proof (cases "load s ''controller'' guard_validate False io")
  case (Inl e)
  then show ?thesis by (simp add: guard_init_def Let_def)
next
  case (Inr saved)
  obtain d i own where d: "read_ns s ''controller'' = Some (PDict d)" "map_of d ''highest_generation'' = Some (PInt i)"
    "map_of d ''owner_gateway'' = Some (PStr own)" "g < i \<or> g = i \<and> own = src"
    using k by (auto simp: epoch_mem_def)
  have "saved = Some (PDict d)"
  proof (cases saved)
    case None
    with Inr d(1) show ?thesis
      by (auto simp: load_def read_ns_def Let_def split: if_splits list.splits)
  next
    case (Some v)
    with Inr load_strict_slot0 [of s "''controller''" guard_validate io v] have "read_ns s ''controller'' = Some v"
      by (auto simp: read_ns_def load_def Let_def row_value_def loads_def List.map_filter_def)
    with d(1) Some show ?thesis by simp
  qed
  with Inr d show ?thesis
    by (auto simp: guard_init_def Let_def guard_mem_def owner_field_def dgetn_def)
qed

lemma ctrl_init_kept:
  assumes i: "ctrl_init node host port emit ident (Some s) b = (st', r)" and k: "epoch_mem s g src"
  shows "\<exists>s'. st' = Some s' \<and> epoch_mem s' g src" "r = Inr c \<Longrightarrow> epoch_kept c g src"
proof -
  define gd where "gd = guard_init [] [] COMMAND_TTL (Some s) (b_mono b) (b_guard_io b)"
  define c0 where "c0 primary = \<lparr>c_node = node, c_host = host, c_gateway = primary, c_primary = primary,
                   c_preferred = None, c_fixed_port = port, c_guard = gd, c_recent = None,
                   c_store = Some s, c_metrics = [], c_emit = emit, c_ident = ident\<rparr>" for primary
  note init = i [unfolded ctrl_init_def Let_def, folded gd_def, folded c0_def]
  have gm: "g_fault gd \<or> guard_mem gd g src"
    unfolding gd_def by (rule guard_init_kept [OF k])
  have "(\<exists>s'. st' = Some s' \<and> epoch_mem s' g src) \<and> (\<forall>c. r = Inr c \<longrightarrow> epoch_kept c g src)"
  proof (cases "map_of GATEWAY_OF_CONTROLLER node")
    case None
    with init k show ?thesis by auto
  next
    case (Some primary)
    show ?thesis
    proof (cases "rc_init (Some s) RECENT_COMMAND_CAPACITY (g_ttl gd) (b_wall b) (b_load_io b) (b_save_io b)")
      case (Inl err)
      with init Some k show ?thesis
        by (auto simp: epoch_kept_def c0_def split: if_splits)
    next
      case (Inr x)
      obtain rc st1 where x: "x = (rc, st1)" by force
      define c1 where "c1 = c0 primary\<lparr>c_recent := Some rc, c_store := st1,
          c_guard := gd\<lparr>g_executed := g_executed gd \<union> fst ` set (rc_entries rc)\<rparr>\<rparr>"
      obtain c2 e2 where c2: "recover_interrupted c1 (b_wall b) (b_recover_io b) = (c2, e2)" by force
      have res: "st' = c_store c2" "r = Inr c \<Longrightarrow> c = c2" for c
        using init Some Inr x c2 by (auto simp: c1_def c0_def split: option.splits)
      obtain s1 where "st1 = Some s1" "read_ns s1 ''controller'' = read_ns s ''controller''"
        using rc_init_quiet [OF Inr [unfolded x]] by blast
      with k gm have "epoch_kept c1 g src"
        by (auto simp: epoch_kept_def c1_def epoch_mem_def guard_mem_def)
      from quiet_kept [OF recover_quiet [OF c2] this] have "epoch_kept c2 g src" .
      with res show ?thesis by (auto simp: epoch_kept_def)
    qed
  qed
  then show "\<exists>s'. st' = Some s' \<and> epoch_mem s' g src" "r = Inr c \<Longrightarrow> epoch_kept c g src" by blast+
qed

section \<open>The runs\<close>

definition epochs :: "actuation list \<Rightarrow> int list" where
  "epochs acts = concat (map (\<lambda>a. case a_generation a of PInt g \<Rightarrow> [g] | _ \<Rightarrow> []) acts)"

definition acts_ok :: "(int \<Rightarrow> string \<Rightarrow> bool) \<Rightarrow> actuation list \<Rightarrow> bool" where
  "acts_ok mem acts \<longleftrightarrow>
     sorted (epochs acts) \<and>
     (\<forall>a \<in> set acts. \<forall>b \<in> set acts. \<forall>g. a_generation a = PInt g \<and> a_generation b = PInt g \<longrightarrow> a_source a = a_source b) \<and>
     (\<forall>a \<in> set acts. \<forall>g. a_generation a = PInt g \<longrightarrow> mem g (a_source a))"

definition epoch_ok :: "plant \<Rightarrow> actuation list \<Rightarrow> bool" where
  "epoch_ok p acts = (case p of
     Up c \<Rightarrow> c_store c \<noteq> None \<and> acts_ok (epoch_kept c) acts
   | Down s \<Rightarrow> acts_ok (epoch_mem s) acts)"

lemma acts_ok_mono: "acts_ok k acts \<Longrightarrow> (\<And>g src. k g src \<Longrightarrow> k' g src) \<Longrightarrow> acts_ok k' acts"
  unfolding acts_ok_def by blast

lemma epochs_append: "epochs (xs @ [a]) = epochs xs @ (case a_generation a of PInt g \<Rightarrow> [g] | _ \<Rightarrow> [])"
  by (simp add: epochs_def)

lemma set_epochs: "g \<in> set (epochs acts) \<longleftrightarrow> (\<exists>a \<in> set acts. a_generation a = PInt g)"
  by (induction acts) (auto simp: epochs_def split: pyval.splits)


lemma acts_ok_sorted: "acts_ok mem acts \<Longrightarrow> sorted (epochs acts)"
  unfolding acts_ok_def by (elim conjE)

lemma acts_ok_source:
  "acts_ok mem acts \<Longrightarrow> a \<in> set acts \<Longrightarrow> b \<in> set acts \<Longrightarrow> a_generation a = PInt g \<Longrightarrow> a_generation b = PInt g \<Longrightarrow>
     a_source a = a_source b"
  unfolding acts_ok_def by blast

lemma acts_ok_mem: "acts_ok mem acts \<Longrightarrow> a \<in> set acts \<Longrightarrow> a_generation a = PInt g \<Longrightarrow> mem g (a_source a)"
  unfolding acts_ok_def by blast

lemma acts_ok_new:
  assumes ok: "acts_ok mem acts" and m: "\<And>g src. mem g src \<Longrightarrow> mem' g src"
    and new: "\<And>g. a_generation a = PInt g \<Longrightarrow> mem' g (a_source a) \<and>
      (\<forall>h src. mem h src \<longrightarrow> h < g \<or> h = g \<and> src = a_source a)"
  shows "acts_ok mem' (acts @ [a])"
proof -
  have old: "h < g \<or> h = g \<and> a_source b = a_source a" if "a_generation a = PInt g" "b \<in> set acts" "a_generation b = PInt h" for b g h
    using ok new [OF that(1)] that(2,3) unfolding acts_ok_def by blast
  have "\<forall>h \<in> set (epochs acts). h \<le> g" if "a_generation a = PInt g" for g
  proof
    fix h
    assume "h \<in> set (epochs acts)"
    then obtain b where "b \<in> set acts" "a_generation b = PInt h"
      unfolding set_epochs by blast
    from old [OF that this] show "h \<le> g" by auto
  qed
  then have "sorted (epochs (acts @ [a]))"
    using acts_ok_sorted [OF ok] by (simp add: epochs_append sorted_append split: pyval.splits)
  moreover have "a_source x = a_source y"
    if "x \<in> set (acts @ [a])" "y \<in> set (acts @ [a])" "a_generation x = PInt g" "a_generation y = PInt g" for x y g
    using that acts_ok_source [OF ok, of x y g] old [of g x g] old [of g y g] by auto
  moreover have "mem' g (a_source x)" if "x \<in> set (acts @ [a])" "a_generation x = PInt g" for x g
    using that acts_ok_mem [OF ok, of x g] new [of g] m by auto
  ultimately show ?thesis unfolding acts_ok_def by blast
qed

lemma epoch_ok_up:
  assumes "epoch_ok (Up c) acts" "c_store c' \<noteq> None" "\<And>g src. epoch_kept c g src \<Longrightarrow> epoch_kept c' g src"
  shows "epoch_ok (Up c') acts"
  using assms acts_ok_mono by (auto simp: epoch_ok_def)

lemma epoch_ok_cut: "epoch_ok (Up c) acts \<Longrightarrow> c_store c = Some s \<Longrightarrow> epoch_ok (Down s) acts"
  unfolding epoch_ok_def by (auto elim!: acts_ok_mono simp: epoch_kept_def)

lemma carries_store: "carries T c c' \<Longrightarrow> node_ok c \<Longrightarrow> c_store c' \<noteq> None"
  by (auto simp: carries_def node_ok_def)

lemma epoch_ok_admit:
  assumes ok: "epoch_ok (Up c) acts" and n: "node_ok c" and a: "admit c m e = (c', v)"
  shows "epoch_ok (Up c') (acts @ started c m e)"
proof -
  have st: "c_store c' \<noteq> None"
    using carries_store [OF admit_carries [OF a] n] .
  show ?thesis
  proof (cases "v = Inr None")
    case False
    then show ?thesis
      using epoch_ok_up [OF ok st admit_kept [OF a]] a by (simp add: started_def)
  next
    case True
    obtain x where sx: "started c m e = [x]" and x: "a_generation x = dgetn (m_payload m) ''gateway_generation''"
      "a_source x = m_source m"
      using a True by (simp add: started_def)
    have "acts_ok (epoch_kept c') (acts @ [x])"
    proof (rule acts_ok_new)
      show "acts_ok (epoch_kept c) acts" using ok by (simp add: epoch_ok_def)
      show "epoch_kept c' g src" if "epoch_kept c g src" for g src
        by (rule admit_kept [OF a that])
      show "epoch_kept c' g (a_source x) \<and> (\<forall>h src. epoch_kept c h src \<longrightarrow> h < g \<or> h = g \<and> src = a_source x)"
        if g: "a_generation x = PInt g" for g
      proof -
        from admit_epoch [OF a [unfolded True]] g x have i: "\<not> g_fault (c_guard c)" "g_generation (c_guard c) \<le> g"
          "g = g_generation (c_guard c) \<longrightarrow> g_owner (c_guard c) \<in> {None, Some (m_source m)}"
          "c_store c \<noteq> None \<longrightarrow> epoch_kept c' g (m_source m)"
          by auto
        have "h < g \<or> h = g \<and> src = m_source m" if "epoch_kept c h src" for h src
          using that i(1-3) by (auto simp: epoch_kept_def guard_mem_def)
        with i(4) ok x(2) show ?thesis by (simp add: epoch_ok_def)
      qed
    qed
    with st sx show ?thesis by (simp add: epoch_ok_def)
  qed
qed

lemma process_kept:
  assumes p: "process_command c m e w = (c', r, out)" and a: "admit c m e = (c1, v)" and k: "epoch_kept c1 g src"
  shows "epoch_kept c' g src"
proof (cases v)
  case (Inl err)
  with p a k show ?thesis by (simp add: process_command_def)
next
  case (Inr verdict)
  show ?thesis
  proof (cases verdict)
    case None
    obtain c2 x where ex: "execute c1 m e = (c2, x)" by force
    have "dgetn (m_payload m) ''gateway_generation'' = PNone \<or>
      (\<exists>i. dgetn (m_payload m) ''gateway_generation'' = PInt i \<and> g_generation (c_guard c1) = i \<and>
           g_owner (c_guard c1) = Some (m_source m))"
      using admit_epoch [of c m e c1] a Inr None by auto
    from execute_kept [OF ex k this] have k2: "epoch_kept c2 g src" .
    show ?thesis
    proof (cases x)
      case (Inl err)
      with p a Inr None ex k2 show ?thesis by (simp add: process_command_def)
    next
      case res: (Inr result)
      obtain c3 q o3 where rp: "report c2 m result None True e w = (c3, q, o3)" by (metis prod_cases3)
      with p a Inr None ex res have "c' = c3" by (simp add: process_command_def)
      with quiet_kept [OF report_quiet [OF rp] k2] show ?thesis by simp
    qed
  next
    case (Some rs)
    let ?c2 = "c1\<lparr>c_metrics := inc (c_metrics c1) (if rs = DUPLICATE_COMMAND_ID then ''duplicates'' else ''rejected'')\<rparr>"
    obtain c3 q o3 where rp: "report ?c2 m (refused_result (m_payload m)
        (if rs = DUPLICATE_COMMAND_ID then ''DUPLICATE'' else ''REJECTED'') rs) (Some rs) False e w = (c3, q, o3)"
      by (metis prod_cases3)
    with p a Inr Some have "c' = c3" by (simp add: process_command_def Let_def)
    with quiet_kept [OF report_quiet [OF rp] quiet_kept [OF quiet_metrics k]] show ?thesis by simp
  qed
qed

lemma accept_ack_quiet:
  assumes "accept_result_ack c m gw now io = Inr (b, c')"
  shows "quiet c c'"
proof (cases "c_recent c")
  case (Some rc)
  have "c' = c \<or> c' = c\<lparr>c_metrics := inc (c_metrics c) ''result_ack_persistence_failures''\<rparr> \<or>
      (\<exists>v b rc' st'. rc_acknowledge rc (c_store c) v now io = Inr (b, rc', st') \<and>
         c' = c\<lparr>c_recent := Some rc', c_store := st'\<rparr>)"
    using assms unfolding accept_result_ack_def Some Let_def option.case
    by (auto split: sum.splits if_splits)
  with quiet_ack show ?thesis by auto
qed (use assms in \<open>simp add: accept_result_ack_def\<close>)

lemma runs_node_ok: "runs node ident disk (Up c) t acts \<Longrightarrow> node_ok c"
  using runs_ok by (force simp: plant_ok_def)

lemma runs_epoch_ok: "runs node ident disk p t acts \<Longrightarrow> epoch_ok p acts"
proof (induction rule: runs.induct)
  case (off t)
  show ?case by (simp add: epoch_ok_def acts_ok_def epochs_def)
next
  case (boot s t acts b host port emit st c)
  have "c_store c \<noteq> None"
    using runs_node_ok [OF runs.boot [OF boot.hyps]] by (auto simp: node_ok_def)
  with boot.IH ctrl_init_kept(2) [OF boot.hyps(3)] show ?case
    by (auto simp: epoch_ok_def elim!: acts_ok_mono)
next
  case (boot_fails s t acts b host port emit s' err)
  from boot_fails.IH ctrl_init_kept(1) [OF boot_fails.hyps(3)] show ?case
    by (auto simp: epoch_ok_def elim!: acts_ok_mono)
next
  case (cut c t acts s)
  then show ?case by (blast intro: epoch_ok_cut)
next
  case (command c t acts e m w c' r out)
  obtain c1 v where a: "admit c m e = (c1, v)" by force
  have "c_store c' \<noteq> None"
    using runs_node_ok [OF runs.command [OF command.hyps]] by (auto simp: node_ok_def)
  with epoch_ok_admit [OF command.IH runs_node_ok [OF command.hyps(1)] a] process_kept [OF command.hyps(4) a]
  show ?case by (blast intro: epoch_ok_up)
next
  case (cut_running c t acts e m c' v s)
  from epoch_ok_cut [OF epoch_ok_admit [OF cut_running.IH runs_node_ok [OF cut_running.hyps(1)] cut_running.hyps(4)]
      cut_running.hyps(5)] show ?case .
next
  case (cut_executed c t acts e m c' c'' v s)
  have "dgetn (m_payload m) ''gateway_generation'' = PNone \<or>
      (\<exists>i. dgetn (m_payload m) ''gateway_generation'' = PInt i \<and> g_generation (c_guard c') = i \<and>
           g_owner (c_guard c') = Some (m_source m))"
    using admit_epoch [OF cut_executed.hyps(4)] by auto
  then have "epoch_ok (Up c'') (acts @ started c m e)"
    using epoch_ok_up [OF epoch_ok_admit [OF cut_executed.IH runs_node_ok [OF cut_executed.hyps(1)] cut_executed.hyps(4)]]
      execute_kept [OF cut_executed.hyps(5)] cut_executed.hyps(6) by simp
  then show ?case using cut_executed.hyps(6) by (rule epoch_ok_cut)
next
  case (result_ack c t acts m gw now io b' c')
  have "c_store c' \<noteq> None"
    using runs_node_ok [OF runs.result_ack [OF result_ack.hyps]] by (auto simp: node_ok_def)
  with result_ack.IH quiet_kept [OF accept_ack_quiet [OF result_ack.hyps(2)]] show ?case by (blast intro: epoch_ok_up)
next
  case (ownership c t acts m now io)
  have "c_store (adopt_ownership c m now io) \<noteq> None"
    using runs_node_ok [OF runs.ownership [OF ownership.hyps]] by (auto simp: node_ok_def)
  with ownership.IH adopt_kept show ?case by (blast intro: epoch_ok_up)
next
  case (registration c t acts gw inputs)
  have "c_store (snd (register c gw inputs)) \<noteq> None"
    using runs_node_ok [OF runs.registration [OF registration.hyps]] by (auto simp: node_ok_def)
  with registration.IH register_kept show ?case by (blast intro: epoch_ok_up)
qed

text \<open>
  C3: no split brain at the actuator. In every run of a durable controller, restarts and power
  cuts included, the epochs of the commands it starts never go down, and two commands started
  under the same epoch were sent by the same gateway: once a gateway of a newer epoch has been
  obeyed, a deposed or competing gateway moves nothing.
\<close>

theorem one_gateway_per_epoch:
  assumes "runs node ident disk p t acts"
  shows "sorted (epochs acts) \<and>
    (\<forall>a \<in> set acts. \<forall>b \<in> set acts. \<forall>g. a_generation a = PInt g \<and> a_generation b = PInt g \<longrightarrow> a_source a = a_source b)"
proof -
  obtain mem where "acts_ok mem acts"
    using runs_epoch_ok [OF assms] unfolding epoch_ok_def by (cases p) fastforce+
  then show ?thesis using acts_ok_sorted acts_ok_source by blast
qed


theorem one_gateway_per_epoch_witness:
  "\<exists>p a. runs ''C1'' (\<lambda>_. ''x'') (store_init demo_hash) p 102 [a] \<and> a_generation a = PInt 2 \<and> sorted (epochs [a])"
  using demo_run one_gateway_per_epoch by blast

end
