(* ===== verification/SensorPipeline.thy ===== *)
theory SensorPipeline
  imports Prelude Config Messages
begin

text \<open>
  \<^verbatim>\<open>gateway/trust_gate.py\<close> and \<^verbatim>\<open>gateway/sensor_pipeline.py\<close>: which channels of a sample
  may drive a control decision, and the history record that a gateway derives from it. The
  record is a dictionary as in the code; the clocks, the registered boot and the result of the
  order check are inputs. A set of channels is a list in sorted order.
\<close>

section \<open>Trust gate\<close>

definition ACTION_CHANNELS :: "(string \<times> string list) list" where
  [model_defs]: "ACTION_CHANNELS = [(''IRRIGATION'', [''soil_moisture'']), (''VENTILATION'', [''temperature''])]"

definition FEATURE_CHANNELS :: "string list" where
  [model_defs]: "FEATURE_CHANNELS = [''humidity'', ''light'', ''soil_moisture'', ''temperature'']"

definition health_states :: "pyval list" where
  "health_states = map PStr [''HEALTHY'', ''DEGRADED'', ''FAULT'']"

definition channel_healthy :: "pyval \<Rightarrow> bool" where
  "channel_healthy channel =
     (case channel of
        PDict c \<Rightarrow> dgetn c ''state'' = PStr ''HEALTHY'' \<and> dgetd c ''valid'' (PBool True) = PBool True
      | _ \<Rightarrow> False)"

definition reading_ok :: "dict \<Rightarrow> string \<Rightarrow> bool" where
  "reading_ok data field \<longleftrightarrow> number (dgetn data field) \<and> in_sensor_range field (num_of (dgetn data field))"

definition trusted_channels :: "dict \<Rightarrow> dict \<Rightarrow> string list" where
  "trusted_channels data p =
     (if dgetd p ''health_state'' (PStr ''HEALTHY'') \<notin> set health_states then []
      else case dgetn p ''health'' of
          PNone \<Rightarrow> filter (\<lambda>f. reading_ok data f \<and> dgetd p ''health_state'' (PStr ''HEALTHY'') = PStr ''HEALTHY'' \<and>
                       dgetd p ''usable_for_control'' (PBool True) = PBool True) FEATURE_CHANNELS
        | PDict h \<Rightarrow> filter (\<lambda>f. reading_ok data f \<and> channel_healthy (dgetn h f)) FEATURE_CHANNELS
        | _ \<Rightarrow> [])"

section \<open>Preparation\<close>

definition MAX_CONTROL_AGE_MS :: real where [model_defs]: "MAX_CONTROL_AGE_MS = 5000"

record prepared =
  pr_record :: dict
  pr_trusted :: "string list"
  pr_usable :: bool
  pr_physical :: bool
  pr_wait :: "real option"

definition opt_ms :: "real option \<Rightarrow> pyval" where
  "opt_ms v = (case v of None \<Rightarrow> PNone | Some r \<Rightarrow> PFloat (Fin r))"

definition history_keys :: "string list" where
  [model_defs]: "history_keys = [''node_mode'', ''boot_id'', ''sample_seq'', ''device_monotonic_ms'', ''timestamp_source'',
     ''sampling'', ''health'', ''health_score'', ''fault_flags'', ''physical_read_ok'', ''test_injected'', ''severity'',
     ''sample_id'', ''importance'', ''policy_version'', ''delivery_contract'']"

definition copy_key :: "dict \<Rightarrow> dict \<Rightarrow> string \<Rightarrow> dict" where
  "copy_key p d key = (case map_of p key of None \<Rightarrow> d | Some v \<Rightarrow> dset d key v)"

definition usable_channels :: "string \<Rightarrow> string list \<Rightarrow> bool" where
  "usable_channels engine trusted =
     (if engine = ''rule'' then ''soil_moisture'' \<in> set trusted \<or> ''temperature'' \<in> set trusted
      else set FEATURE_CHANNELS \<subseteq> set trusted)"

record ingress =
  in_boot :: string
  in_mono :: real
  in_wall :: real

definition wait_of :: "ingress \<Rightarrow> string \<Rightarrow> real \<Rightarrow> real option" where
  "wait_of i boot now = (if in_boot i = boot \<and> in_mono i \<le> now then Some ((now - in_mono i) * 1000) else None)"

definition prepare_sensor_record :: "message \<Rightarrow> string \<Rightarrow> string \<Rightarrow> ingress \<Rightarrow> real \<Rightarrow> prepared option" where
  "prepare_sensor_record m engine boot i now =
     (let p = m_payload m
      in case dgetd p ''data'' (PDict []) of
          PDict data \<Rightarrow>
            let trusted = trusted_channels data p;
                physical = (dgetn p ''node_mode'' = PStr ''physical'');
                r1 = dset data ''control_trust''
                       (PDict (map (\<lambda>(a, needed). (a, PBool (set needed \<subseteq> set trusted))) ACTION_CHANNELS));
                r2 = dset r1 ''trusted_channels'' (PList (map PStr trusted));
                r3 = dset r2 ''timestamp'' (PFloat (Fin (if physical then in_wall i else m_timestamp m)));
                r4 = dset r3 ''received_at'' (PFloat (Fin (in_wall i)));
                r5 = dset r4 ''gateway_received_monotonic'' (PFloat (Fin (in_mono i)));
                r6 = dset r5 ''gateway_decision_monotonic'' (PFloat (Fin now));
                r7 = dset r6 ''gateway_boot_id'' (PStr boot);
                r8 = dset r7 ''gateway_queue_wait_ms'' (opt_ms (wait_of i boot now))
            in Some \<lparr>pr_record = foldl (copy_key p) r8 history_keys, pr_trusted = trusted,
                 pr_usable = usable_channels engine trusted, pr_physical = physical, pr_wait = wait_of i boot now\<rparr>
        | _ \<Rightarrow> None)"

section \<open>Age, boot and order\<close>

definition effective_age :: "dict \<Rightarrow> real option \<Rightarrow> real option" where
  "effective_age p wait =
     (let age = dgetn p ''delivery_age_ms''
      in case wait of
          Some w \<Rightarrow> if number age \<and> 0 \<le> num_of age then Some (num_of age + w) else None
        | None \<Rightarrow> None)"

definition physical_fresh :: "dict \<Rightarrow> string option \<Rightarrow> real \<Rightarrow> bool" where
  "physical_fresh p boot w \<longleftrightarrow>
     number (dgetn p ''delivery_age_ms'') \<and> 0 \<le> num_of (dgetn p ''delivery_age_ms'') + w \<and>
     num_of (dgetn p ''delivery_age_ms'') + w \<le> MAX_CONTROL_AGE_MS \<and>
     is_str (dgetn p ''boot_id'') \<and> dgetn p ''boot_id'' = opt_str boot"

definition age_events :: "prepared \<Rightarrow> dict \<Rightarrow> bool \<Rightarrow> string option \<Rightarrow> string list" where
  "age_events pr p reliable boot =
     (if reliable
      then case effective_age p (pr_wait pr) of
          None \<Rightarrow> [''freshness_rejected_unknown'']
        | Some age \<Rightarrow> if age > MAX_CONTROL_AGE_MS then [''freshness_rejected_expired'']
            else if dgetn p ''boot_id'' \<noteq> opt_str boot then [''freshness_rejected_boot''] else []
      else case pr_wait pr of
          None \<Rightarrow> [''freshness_rejected_unknown'']
        | Some w \<Rightarrow> if w > MAX_CONTROL_AGE_MS \<or> (pr_physical pr \<and> \<not> physical_fresh p boot w)
            then [if pr_physical pr then ''freshness_rejected_unknown'' else ''freshness_rejected_expired''] else [])"

definition age_usable :: "prepared \<Rightarrow> dict \<Rightarrow> bool \<Rightarrow> string option \<Rightarrow> bool" where
  "age_usable pr p reliable boot =
     (if reliable
      then case effective_age p (pr_wait pr) of
          None \<Rightarrow> False
        | Some age \<Rightarrow> pr_usable pr \<and> age \<le> MAX_CONTROL_AGE_MS \<and> dgetn p ''boot_id'' = opt_str boot
      else case pr_wait pr of
          None \<Rightarrow> False
        | Some w \<Rightarrow> \<not> (w > MAX_CONTROL_AGE_MS \<or> (pr_physical pr \<and> \<not> physical_fresh p boot w)) \<and> pr_usable pr)"

definition finalize_sensor_record :: "prepared \<Rightarrow> dict \<Rightarrow> bool \<Rightarrow> string option \<Rightarrow> bool \<Rightarrow> dict \<times> string list" where
  "finalize_sensor_record pr p reliable boot fresh =
     (let r = (if reliable then dset (pr_record pr) ''effective_delivery_age_ms'' (opt_ms (effective_age p (pr_wait pr)))
               else pr_record pr);
          usable = age_usable pr p reliable boot \<and> fresh;
          events = age_events pr p reliable boot @ (if fresh then [] else [''reordered_or_duplicate_samples''])
      in (dset r ''usable_for_control'' (PBool usable), events))"

definition fresh_at_decision :: "dict \<Rightarrow> bool \<Rightarrow> real \<Rightarrow> real \<Rightarrow> bool" where
  "fresh_at_decision p reliable received decided =
     (let elapsed = (decided - received) * 1000; age = dgetn p ''delivery_age_ms''
      in \<not> (elapsed < 0 \<or> elapsed > MAX_CONTROL_AGE_MS \<or>
            (reliable \<and> (\<not> number age \<or> num_of age + elapsed > MAX_CONTROL_AGE_MS))))"

section \<open>Alert uploads\<close>

fun join_with :: "string \<Rightarrow> string list \<Rightarrow> string" where
  "join_with sep [] = []"
| "join_with sep [x] = x"
| "join_with sep (x # y # xs) = x @ sep @ join_with sep (y # xs)"

definition reasons_of :: "dict \<Rightarrow> string list" where
  "reasons_of p =
     (case dgetd p ''reasons'' (PList []) of
        PList xs \<Rightarrow> if list_all is_str xs then map str_of xs else [''malformed sensor fault evidence'']
      | _ \<Rightarrow> [''malformed sensor fault evidence''])"

definition reliable_keys :: "string list" where
  [model_defs]: "reliable_keys = [''sample_id'', ''boot_id'', ''sample_seq'', ''device_monotonic_ms'', ''importance'',
     ''policy_version'', ''delivery_contract'']"

definition prepare_alert_upload :: "message \<Rightarrow> bool \<Rightarrow> py_error + dict \<times> string list" where
  "prepare_alert_upload m reliable =
     (let p = m_payload m; reasons = reasons_of p; joined = join_with ''; '' reasons;
          upload = [(''alert_type'', dgetd p ''alert_type'' (PStr ''SENSOR_FAULT'')),
            (''health'', dgetd p ''health'' (PDict [])), (''health_score'', dgetn p ''health_score''),
            (''fault_flags'', dgetd p ''fault_flags'' (PList [])), (''data'', dgetd p ''data'' (PDict [])),
            (''fault_signature'', dgetn p ''fault_signature''), (''notification'', dgetn p ''notification''),
            (''sensor_node_id'', PStr (m_source m)), (''health_state'', dgetd p ''health_state'' (PStr ''HEALTHY'')),
            (''severity'', dgetn p ''severity''),
            (''message'', if joined \<noteq> [] then PStr joined else dgetd p ''message'' (PStr ''sensor alert''))]
      in if reliable
         then if list_all (\<lambda>k. map_of p k \<noteq> None) reliable_keys
           then Inr (dmerge upload (map (\<lambda>k. (k, dgetn p k)) reliable_keys), reasons)
           else Inl KeyErr
         else Inr (upload, reasons))"

section \<open>What a usable record guarantees\<close>

lemma trustedD:
  assumes "f \<in> set (trusted_channels data p)"
  shows "f \<in> set FEATURE_CHANNELS" "reading_ok data f"
    "(case dgetn p ''health'' of PDict h \<Rightarrow> channel_healthy (dgetn h f)
      | _ \<Rightarrow> dgetn p ''health'' = PNone \<and> dgetd p ''health_state'' (PStr ''HEALTHY'') = PStr ''HEALTHY'' \<and>
          dgetd p ''usable_for_control'' (PBool True) = PBool True)"
  using assms by (auto simp: trusted_channels_def split: if_splits pyval.splits)

lemma usable_iff_no_event:
  "age_usable pr p reliable boot \<longleftrightarrow> pr_usable pr \<and> age_events pr p reliable boot = []"
  by (auto simp: age_usable_def age_events_def split: option.splits)

lemma prepare_fields:
  assumes "prepare_sensor_record m engine boot i now = Some pr"
  shows "\<exists>data. dgetd (m_payload m) ''data'' (PDict []) = PDict data \<and> pr_trusted pr = trusted_channels data (m_payload m)"
    "pr_usable pr = usable_channels engine (pr_trusted pr)" "pr_wait pr = wait_of i boot now"
    "pr_physical pr \<longleftrightarrow> dgetn (m_payload m) ''node_mode'' = PStr ''physical''"
  using assms by (auto simp: prepare_sensor_record_def Let_def split: pyval.splits)

lemma usable_recordD:
  assumes "prepare_sensor_record m engine boot i now = Some pr"
    and "finalize_sensor_record pr (m_payload m) reliable registered fresh = (r, events)"
    and "dgetn r ''usable_for_control'' = PBool True"
  shows "events = [] \<and> fresh \<and> usable_channels engine (pr_trusted pr) \<and> in_boot i = boot \<and>
    0 \<le> (now - in_mono i) * 1000 \<and> (now - in_mono i) * 1000 \<le> MAX_CONTROL_AGE_MS \<and>
    (reliable \<or> dgetn (m_payload m) ''node_mode'' = PStr ''physical'' \<longrightarrow>
       num_of (dgetn (m_payload m) ''delivery_age_ms'') + (now - in_mono i) * 1000 \<le> MAX_CONTROL_AGE_MS \<and>
       number (dgetn (m_payload m) ''delivery_age_ms'') \<and> dgetn (m_payload m) ''boot_id'' = opt_str registered)"
proof -
  note pr = prepare_fields [OF assms(1)]
  from assms(2, 3) have u: "age_usable pr (m_payload m) reliable registered" "fresh"
    and e: "events = age_events pr (m_payload m) reliable registered"
    by (auto simp: finalize_sensor_record_def Let_def)
  have w: "0 \<le> (now - in_mono i) * 1000 \<and> in_boot i = boot" if "wait_of i boot now = Some x" for x
    using that by (auto simp: wait_of_def split: if_splits)
  have x: "x = (now - in_mono i) * 1000" if "wait_of i boot now = Some x" for x
    using that by (auto simp: wait_of_def split: if_splits)
  show ?thesis
    using u e w x pr
    by (auto simp: usable_iff_no_event age_events_def effective_age_def physical_fresh_def Let_def
        split: if_splits option.splits)
qed


definition demo_sample :: message where
  [model_defs]: "demo_sample = (new_message SENSOR_DATA ''B1'' ''A1''
     [(''data'', PDict [(''soil_moisture'', PInt 20), (''temperature'', PInt 25), (''humidity'', PInt 50), (''light'', PInt 300)]),
      (''node_mode'', PStr ''simulated'')] 100 ''s1'')\<lparr>m_sequence := Some 1\<rparr>"

lemma demo_trusted:
  "trusted_channels [(''soil_moisture'', PInt 20), (''temperature'', PInt 25), (''humidity'', PInt 50), (''light'', PInt 300)]
     (m_payload demo_sample) = [''humidity'', ''light'', ''soil_moisture'', ''temperature'']"
  by (simp add: trusted_channels_def demo_sample_def new_message_def health_states_def dgetd_def dgetn_def FEATURE_CHANNELS_def
      reading_ok_def number_def int_finite_def in_sensor_range_def SENSOR_RANGES_def num_of_def)


end
