(* ===== verification/Engines.thy ===== *)
theory Engines
  imports Prelude Config
begin

text \<open>
  \<^verbatim>\<open>ai/features.py\<close> and \<^verbatim>\<open>ai/engines\<close>: the feature vector, the rule baseline and the three
  exported model kinds. An artifact is the content of its JSON file with the types that the
  loader checks; the shape checks of the loader are modelled, and the weights are reals.
  \<open>show\<close> stands for the text that Python prints for a number.
\<close>

section \<open>Features\<close>

definition FEATURE_NAMES :: "string list" where
  [model_defs]: "FEATURE_NAMES = [''soil_margin'', ''temperature_margin'', ''humidity'', ''log_light'']"

definition LABELS :: "string list" where
  [model_defs]: "LABELS = [''NONE'', ''IRRIGATION'', ''VENTILATION'']"

text \<open>
  \<^verbatim>\<open>type(v) in (int, float) and math.isfinite(v)\<close>, which raises on an int beyond the range
  of floats.
\<close>

definition finite_number :: "pyval \<Rightarrow> py_error + bool" where
  "finite_number v =
     (case v of PInt i \<Rightarrow> if int_finite i then Inr True else Inl OverflowErr
      | PFloat (Fin _) \<Rightarrow> Inr True | _ \<Rightarrow> Inr False)"

fun read_channels :: "dict \<Rightarrow> string list \<Rightarrow> py_error + real list" where
  "read_channels sample [] = Inr []"
| "read_channels sample (name # names) =
     (let v = dgetn sample name
      in case finite_number v of
          Inl e \<Rightarrow> Inl e
        | Inr ok \<Rightarrow>
            if \<not> ok \<or> \<not> in_sensor_range name (num_of v) then Inl (FeatureErr (''invalid or missing '' @ name))
            else case read_channels sample names of Inl e \<Rightarrow> Inl e | Inr xs \<Rightarrow> Inr (num_of v # xs))"

definition merged_policy :: "dict \<Rightarrow> dict" where
  "merged_policy policy = dmerge DEFAULT_POLICY policy"

definition extract_features :: "dict \<Rightarrow> dict \<Rightarrow> py_error + real list" where
  "extract_features sample policy =
     (case read_channels sample [''soil_moisture'', ''temperature'', ''humidity'', ''light''] of
        Inr [soil, temp, humidity, light] \<Rightarrow>
          let p = merged_policy policy
          in Inr [(soil - num_of (dgetn p ''soil_moisture_threshold'')) / 25,
                  (temp - num_of (dgetn p ''temperature_threshold'')) / 10, humidity / 100, ln (1 + light) / 12]
      | Inr _ \<Rightarrow> Inr []
      | Inl e \<Rightarrow> Inl e)"

section \<open>The rule baseline\<close>

definition rule_table :: "(string \<times> string \<times> string \<times> bool \<times> string) list" where
  [model_defs]: "rule_table =
     [(''soil_moisture'', ''IRRIGATION'', ''soil_moisture_threshold'', True, ''irrigation_duration''),
      (''temperature'', ''VENTILATION'', ''temperature_threshold'', False, ''ventilation_duration'')]"

fun rule_scan :: "(pyval \<Rightarrow> string) \<Rightarrow> dict \<Rightarrow> dict \<Rightarrow> (string \<times> string \<times> string \<times> bool \<times> string) list \<Rightarrow>
    py_error + dict option" where
  "rule_scan show p sample [] = Inr None"
| "rule_scan show p sample ((field, label, threshold, below, duration) # rest) =
     (let v = dgetn sample field
      in case finite_number v of
          Inl e \<Rightarrow> Inl e
        | Inr ok \<Rightarrow>
            if \<not> ok then rule_scan show p sample rest
            else if \<not> in_sensor_range field (num_of v) then Inr None
            else if (if below then num_of v < num_of (dgetn p threshold) else num_of (dgetn p threshold) < num_of v)
            then Inr (Some [(''type'', PStr label), (''duration'', dgetn p duration),
                   (''reason'', PStr (field @ '' '' @ show v @ (if below then '' < '' else '' > '') @ show (dgetn p threshold)))])
            else rule_scan show p sample rest)"

definition rule_predict :: "(pyval \<Rightarrow> string) \<Rightarrow> dict \<Rightarrow> dict \<Rightarrow> py_error + dict option" where
  "rule_predict show sample policy = rule_scan show (merged_policy policy) sample rule_table"

section \<open>Artifacts\<close>

datatype weights = Floats "real list list" | Int8 real "int list list"

datatype tnode = ClassNode int | SplitNode int real int int

datatype body =
    LogisticBody "real list" "real list" weights "real list"
  | TreeBody "tnode list"
  | MlpBody "real list" "real list" "(weights \<times> real list) list"

record artifact =
  ar_engine :: string
  ar_version :: int
  ar_features :: "string list"
  ar_labels :: "string list"
  ar_dataset :: string
  ar_body :: body

datatype engine =
    RuleEngine
  | LogisticEngine "real list" "real list" "real list list" "real list"
  | TreeEngine "tnode list"
  | MlpEngine "real list" "real list" "(real list list \<times> real list) list"

fun engine_name :: "engine \<Rightarrow> string" where
  "engine_name RuleEngine = ''rule''"
| "engine_name (LogisticEngine _ _ _ _) = ''logistic''"
| "engine_name (TreeEngine _) = ''tree''"
| "engine_name (MlpEngine _ _ _) = ''mlp''"

fun weights_of :: "weights \<Rightarrow> py_error + real list list" where
  "weights_of (Floats rows) = Inr rows"
| "weights_of (Int8 scale rows) =
     (if scale \<le> 0 then Inl (ValueErr ''invalid weight scale'')
      else if \<not> list_all (list_all (\<lambda>v. -127 \<le> v \<and> v \<le> 127)) rows then Inl (ValueErr ''invalid INT8 weight'')
      else Inr (map (map (\<lambda>v. of_int v * scale)) rows))"

definition matrix_ok :: "real list list \<Rightarrow> real list \<Rightarrow> nat \<Rightarrow> nat \<Rightarrow> bool" where
  "matrix_ok rows bias inputs outputs \<longleftrightarrow>
     length rows = outputs \<and> length bias = outputs \<and> list_all (\<lambda>row. length row = inputs) rows"

definition norm_ok :: "real list \<Rightarrow> real list \<Rightarrow> bool" where
  "norm_ok mean scale \<longleftrightarrow> length mean = 4 \<and> length scale = 4 \<and> list_all (\<lambda>v. 0 < v) scale"

fun layers_ok :: "nat \<Rightarrow> (real list list \<times> real list) list \<Rightarrow> bool" where
  "layers_ok inputs [] = (inputs = 3)"
| "layers_ok inputs ((rows, bias) # rest) =
     (1 \<le> length bias \<and> length bias \<le> 32 \<and> matrix_ok rows bias inputs (length bias) \<and> layers_ok (length bias) rest)"

text \<open>
  The nested \<^verbatim>\<open>visit\<close>: every path from the node reaches a class without coming back to a
  node of the path. The trail grows with every call, so the recursion ends.
\<close>

function visit :: "tnode list \<Rightarrow> int \<Rightarrow> int set \<Rightarrow> bool" where
  "visit nodes index trail =
     (if \<not> (0 \<le> index \<and> index < int (length nodes)) \<or> index \<in> trail then False
      else case nodes ! nat index of
          ClassNode c \<Rightarrow> 0 \<le> c \<and> c < 3
        | SplitNode f t l r \<Rightarrow>
            0 \<le> f \<and> f < 4 \<and> visit nodes l (insert index trail) \<and> visit nodes r (insert index trail))"
  by pat_completeness auto
termination
proof (relation "measure (\<lambda>(nodes, index, trail). card ({0..<int (length nodes)} - trail))")
  fix nodes :: "tnode list" and index f l r :: int and t :: real and trail :: "int set"
  assume *: "\<not> (\<not> (0 \<le> index \<and> index < int (length nodes)) \<or> index \<in> trail)"
  then have "card ({0..<int (length nodes)} - trail - {index}) < card ({0..<int (length nodes)} - trail)"
    by (intro card_Diff1_less) auto
  then have "card ({0..<int (length nodes)} - insert index trail) < card ({0..<int (length nodes)} - trail)"
    by (metis Diff_insert)
  then show "((nodes, l, insert index trail), nodes, index, trail)
      \<in> measure (\<lambda>(nodes, index, trail). card ({0..<int (length nodes)} - trail))"
    and "((nodes, r, insert index trail), nodes, index, trail)
      \<in> measure (\<lambda>(nodes, index, trail). card ({0..<int (length nodes)} - trail))"
    by simp_all
qed simp

declare visit.simps [simp del]

fun layer_weights :: "(weights \<times> real list) list \<Rightarrow> py_error + (real list list \<times> real list) list" where
  "layer_weights [] = Inr []"
| "layer_weights ((w, bias) # rest) =
     (case weights_of w of
        Inl e \<Rightarrow> Inl e
      | Inr rows \<Rightarrow> (case layer_weights rest of Inl e \<Rightarrow> Inl e | Inr ls \<Rightarrow> Inr ((rows, bias) # ls)))"

definition tree_ok :: "tnode list \<Rightarrow> bool" where
  "tree_ok nodes \<longleftrightarrow> 1 \<le> length nodes \<and> length nodes \<le> 63 \<and> visit nodes 0 {}"

fun build_engine :: "body \<Rightarrow> py_error + engine" where
  "build_engine (LogisticBody mean scale w bias) =
     (case weights_of w of
        Inl e \<Rightarrow> Inl e
      | Inr rows \<Rightarrow>
          if \<not> norm_ok mean scale then Inl (ValueErr ''model normalization shape mismatch'')
          else if \<not> matrix_ok rows bias 4 3 then Inl (ValueErr ''model matrix shape mismatch'')
          else Inr (LogisticEngine mean scale rows bias))"
| "build_engine (TreeBody nodes) =
     (if \<not> tree_ok nodes then Inl (ValueErr ''invalid bounded tree'') else Inr (TreeEngine nodes))"
| "build_engine (MlpBody mean scale layers) =
     (case layer_weights layers of
        Inl e \<Rightarrow> Inl e
      | Inr ls \<Rightarrow>
          if \<not> norm_ok mean scale then Inl (ValueErr ''model normalization shape mismatch'')
          else if \<not> (1 \<le> length ls \<and> length ls \<le> 3) then Inl (ValueErr ''invalid MLP depth'')
          else if \<not> layers_ok 4 ls then Inl (ValueErr ''MLP shape mismatch'')
          else Inr (MlpEngine mean scale ls))"

definition create_engine :: "string \<Rightarrow> artifact \<Rightarrow> py_error + engine" where
  "create_engine name a =
     (if name = ''rule'' then Inr RuleEngine
      else if name \<notin> {''logistic'', ''tree'', ''mlp''} then Inl (ValueErr ''unknown engine'')
      else if ar_engine a \<noteq> name \<or> ar_version a \<noteq> 1 \<or> ar_features a \<noteq> FEATURE_NAMES \<or> ar_labels a \<noteq> LABELS
        then Inl (ValueErr ''incompatible model feature/label schema'')
      else if ar_dataset a \<notin> {''synthetic-software-validation'', ''user-provided-unvalidated''}
        then Inl (ValueErr ''model requires explicit dataset provenance'')
      else build_engine (ar_body a))"

section \<open>Inference\<close>

definition normalize :: "real list \<Rightarrow> real list \<Rightarrow> real list \<Rightarrow> real list" where
  "normalize mean scale x = map (\<lambda>(v, m, s). (v - m) / s) (zip x (zip mean scale))"

definition affine :: "real list list \<Rightarrow> real list \<Rightarrow> real list \<Rightarrow> real list" where
  "affine rows bias x = map (\<lambda>(row, b). b + sum_list (map2 (*) row x)) (zip rows bias)"

text \<open>\<^verbatim>\<open>max(range(len(xs)), key=xs.__getitem__)\<close>: the first position of a largest score.\<close>

fun argmax :: "real list \<Rightarrow> nat" where
  "argmax [] = 0"
| "argmax [x] = 0"
| "argmax (x # xs) = (let k = argmax xs in if x < xs ! k then Suc k else 0)"

fun forward :: "(real list list \<times> real list) list \<Rightarrow> real list \<Rightarrow> real list" where
  "forward [] x = x"
| "forward [(rows, bias)] x = affine rows bias x"
| "forward ((rows, bias) # l # ls) x = forward (l # ls) (map (max 0) (affine rows bias x))"

fun tree_walk :: "tnode list \<Rightarrow> real list \<Rightarrow> nat \<Rightarrow> int \<Rightarrow> py_error + string" where
  "tree_walk nodes features 0 index = Inl (ValueErr ''cyclic tree artifact'')"
| "tree_walk nodes features (Suc n) index =
     (case nodes ! nat index of
        ClassNode c \<Rightarrow> Inr (LABELS ! nat c)
      | SplitNode f t l r \<Rightarrow> tree_walk nodes features n (if features ! nat f \<le> t then l else r))"

fun predict_label :: "engine \<Rightarrow> real list \<Rightarrow> py_error + string" where
  "predict_label RuleEngine x = Inl AttributeErr"
| "predict_label (LogisticEngine mean scale rows bias) x = Inr (LABELS ! argmax (affine rows bias (normalize mean scale x)))"
| "predict_label (TreeEngine nodes) x = tree_walk nodes x (length nodes) 0"
| "predict_label (MlpEngine mean scale layers) x = Inr (LABELS ! argmax (forward layers (normalize mean scale x)))"

definition predict :: "(pyval \<Rightarrow> string) \<Rightarrow> engine \<Rightarrow> dict \<Rightarrow> dict \<Rightarrow> py_error + dict option" where
  "predict show engine sample policy =
     (if engine = RuleEngine then rule_predict show sample policy
      else let p = merged_policy policy
           in case extract_features sample p of
               Inl e \<Rightarrow> Inl e
             | Inr x \<Rightarrow>
                 (case predict_label engine x of
                    Inl e \<Rightarrow> Inl e
                  | Inr label \<Rightarrow>
                      if label = ''NONE'' then Inr None
                      else Inr (Some [(''type'', PStr label),
                        (''duration'', dgetn p (if label = ''IRRIGATION'' then ''irrigation_duration'' else ''ventilation_duration'')),
                        (''reason'', PStr (engine_name engine @ '' synthetic reference prediction'')),
                        (''engine'', PStr (engine_name engine))])))"

section \<open>A loaded engine always answers with a label\<close>

lemma argmax_less: "xs \<noteq> [] \<Longrightarrow> argmax xs < length xs"
  by (induction xs rule: argmax.induct) (auto simp: Let_def)

lemma length_forward: "layers_ok n ls \<Longrightarrow> length x = n \<Longrightarrow> ls \<noteq> [] \<Longrightarrow> length (forward ls x) = 3"
  by (induction ls x arbitrary: n rule: forward.induct) (auto simp: affine_def matrix_ok_def)

lemma visit_walk:
  assumes "visit nodes index trail" "trail \<subseteq> {0..<int (length nodes)}" "length nodes - card trail \<le> n"
  shows "\<exists>l \<in> set LABELS. tree_walk nodes x n index = Inr l"
  using assms
proof (induction nodes index trail arbitrary: n rule: visit.induct)
  case (1 nodes index trail)
  from "1.prems"(1) have ix: "0 \<le> index" "index < int (length nodes)" "index \<notin> trail"
    by (subst (asm) visit.simps; simp split: if_splits)+
  have fin: "finite trail"
    using "1.prems"(2) finite_subset by blast
  have "card (insert index trail) \<le> card {0..<int (length nodes)}"
    using "1.prems"(2) ix by (intro card_mono) auto
  then have room: "card trail < length nodes"
    using fin ix(3) by simp
  then obtain m where m: "n = Suc m"
    using "1.prems"(3) by (cases n) auto
  have sub: "insert index trail \<subseteq> {0..<int (length nodes)}" "length nodes - card (insert index trail) \<le> m"
    using "1.prems"(2,3) ix fin m by auto
  show ?case
  proof (cases "nodes ! nat index")
    case (ClassNode c)
    with "1.prems"(1) ix have "0 \<le> c" "c < 3"
      by (subst (asm) visit.simps; simp)+
    then have "nat c < length LABELS" by (simp add: LABELS_def)
    with ClassNode m show ?thesis by simp
  next
    case (SplitNode f t l r)
    with "1.prems"(1) ix have "visit nodes l (insert index trail)" "visit nodes r (insert index trail)"
      by (subst (asm) visit.simps; simp)+
    with SplitNode m sub "1.IH" ix show ?thesis by auto
  qed
qed

lemma engine_label:
  assumes "create_engine name a = Inr e" and "e \<noteq> RuleEngine" and "length x = 4"
  shows "\<exists>l \<in> set LABELS. predict_label e x = Inr l"
proof -
  have b: "build_engine (ar_body a) = Inr e"
    using assms(1,2) by (auto simp: create_engine_def split: if_splits)
  have lab: "k < 3 \<Longrightarrow> LABELS ! k \<in> set LABELS" for k
    by (auto simp: LABELS_def less_Suc_eq numeral_3_eq_3)
  show ?thesis
  proof (cases "ar_body a")
    case (LogisticBody mean scale w bias)
    with b obtain rows where "matrix_ok rows bias 4 3" "e = LogisticEngine mean scale rows bias"
      by (auto split: sum.splits if_splits)
    moreover from this have "length (affine rows bias y) = 3" for y
      by (simp add: affine_def matrix_ok_def)
    then have "argmax (affine rows bias y) < 3" for y
      using argmax_less [of "affine rows bias y"] by fastforce
    ultimately show ?thesis using lab by simp
  next
    case (TreeBody nodes)
    with b have "tree_ok nodes" "e = TreeEngine nodes"
      by (auto split: if_splits)
    then show ?thesis
      using visit_walk [of nodes 0 "{}" "length nodes" x] by (simp add: tree_ok_def)
  next
    case (MlpBody mean scale layers)
    with b obtain ls where "layers_ok 4 ls" "1 \<le> length ls" "norm_ok mean scale" "e = MlpEngine mean scale ls"
      by (auto split: sum.splits if_splits)
    moreover from this have "length (forward ls (normalize mean scale x)) = 3"
      using assms(3) by (intro length_forward) (auto simp: normalize_def norm_ok_def)
    then have "argmax (forward ls (normalize mean scale x)) < 3"
      using argmax_less [of "forward ls (normalize mean scale x)"] by fastforce
    ultimately show ?thesis using lab by simp
  qed
qed


definition demo_tree :: artifact where
  [model_defs]: "demo_tree = \<lparr>ar_engine = ''tree'', ar_version = 1, ar_features = FEATURE_NAMES, ar_labels = LABELS,
     ar_dataset = ''synthetic-software-validation'',
     ar_body = TreeBody [SplitNode 0 0 1 2, ClassNode 1, ClassNode 0]\<rparr>"

lemma demo_tree_loads: "create_engine ''tree'' demo_tree = Inr (TreeEngine [SplitNode 0 0 1 2, ClassNode 1, ClassNode 0])"
  by (simp add: create_engine_def demo_tree_def tree_ok_def visit.simps)


end
