(* ===== verification/EdgeDecision.thy ===== *)
theory EdgeDecision
  imports Protocol Engines SensorPipeline Checkpoint SafetyGuard
begin

text \<open>
  \<^verbatim>\<open>gateway/edge_decision.py\<close>: the policy of a gateway, its checkpoint, and the decision it
  takes on a record. The store is part of the state; a save that fails leaves the policy as it
  was.
\<close>

record decider =
  d_engine :: engine
  d_policy :: dict
  d_version :: int
  d_store :: "store option"
  d_recovery :: string
  d_show :: "pyval \<Rightarrow> string"

definition policy_keys :: "string list" where
  "policy_keys = map fst DEFAULT_POLICY"

text \<open>The keys of a parsed JSON object are distinct.\<close>

definition policy_saved_ok :: "pyval \<Rightarrow> bool" where
  "policy_saved_ok saved =
     (case saved of
        PDict d \<Rightarrow>
          (case (map_of d ''policy_version'', map_of d ''policy'') of
             (Some (PInt v), Some (PDict p)) \<Rightarrow>
               0 \<le> v \<and> distinct (map fst p) \<and> set (map fst p) = set policy_keys \<and>
               (case validate_policy (dset p ''policy_version'' (PInt v)) DEFAULT_POLICY of Inl _ \<Rightarrow> False | Inr _ \<Rightarrow> True)
           | _ \<Rightarrow> False)
      | _ \<Rightarrow> False)"

definition decider_init :: "dict \<Rightarrow> int \<Rightarrow> engine \<Rightarrow> store option \<Rightarrow> (pyval \<Rightarrow> string) \<Rightarrow> bool \<Rightarrow> py_error + decider" where
  "decider_init policy version engine st show io =
     (let fresh = \<lparr>d_engine = engine, d_policy = dmerge DEFAULT_POLICY policy, d_version = version, d_store = st,
            d_recovery = ''compiled-default'', d_show = show\<rparr>
      in case st of
          None \<Rightarrow> Inr fresh
        | Some s \<Rightarrow>
            (case load s ''policy'' policy_saved_ok True io of
               Inl (StateErr _) \<Rightarrow> Inr (fresh\<lparr>d_recovery := ''invalid-checkpoint; compiled-default''\<rparr>)
             | Inl e \<Rightarrow> Inl e
             | Inr None \<Rightarrow> Inr fresh
             | Inr (Some v) \<Rightarrow>
                 Inr (fresh\<lparr>d_policy := dict_of (dgetn (dict_of v) ''policy''),
                   d_version := int_of (dgetn (dict_of v) ''policy_version''), d_recovery := ''last-known-good''\<rparr>)))"

definition policy_value :: "int \<Rightarrow> dict \<Rightarrow> dict" where
  "policy_value version policy = [(''policy_version'', PInt version), (''policy'', PDict policy)]"

definition update_policy :: "decider \<Rightarrow> dict \<Rightarrow> real \<Rightarrow> bool \<Rightarrow> decider \<times> (py_error + bool \<times> dict)" where
  "update_policy d payload now io =
     (case validate_policy payload (d_policy d) of
        Inl e \<Rightarrow> (d, Inl e)
      | Inr candidate \<Rightarrow>
          let version = dgetn payload ''policy_version'';
              v = (if version = PNone then d_version d else int_of version)
          in if version \<noteq> PNone \<and> int_of version \<le> d_version d then (d, Inr (False, d_policy d))
             else case d_store d of
                 None \<Rightarrow> (d\<lparr>d_policy := candidate, d_version := v\<rparr>, Inr (True, candidate))
               | Some s \<Rightarrow>
                   (case save s ''policy'' (PDict (policy_value v candidate)) now io of
                      Inl e \<Rightarrow> (d, Inl e)
                    | Inr s' \<Rightarrow> (d\<lparr>d_policy := candidate, d_version := v, d_store := Some s'\<rparr>, Inr (True, candidate))))"

text \<open>\<open>trusted\<close> is the set the gateway computed, absent where the caller gives none.\<close>

definition decide :: "decider \<Rightarrow> dict \<Rightarrow> string list option \<Rightarrow> py_error + dict option" where
  "decide d data trusted =
     (case trusted of
        None \<Rightarrow> predict (d_show d) (d_engine d) data (d_policy d)
      | Some channels \<Rightarrow>
          if engine_name (d_engine d) = ''rule''
          then predict (d_show d) (d_engine d) (filter (\<lambda>(k, v). k \<in> set channels) data) (d_policy d)
          else if \<not> set FEATURE_CHANNELS \<subseteq> set channels then Inr None
          else predict (d_show d) (d_engine d) data (d_policy d))"

text \<open>\<^verbatim>\<open>edge_decision\<close>, the stateless entry point of the rule baseline.\<close>

definition edge_decision :: "(pyval \<Rightarrow> string) \<Rightarrow> dict \<Rightarrow> dict \<Rightarrow> py_error + dict option" where
  "edge_decision show data policy = rule_predict show data policy"

section \<open>Validated policies are safe\<close>

lemma default_policy_keys: "policy_keys = [''soil_moisture_threshold'', ''temperature_threshold'', ''irrigation_duration'', ''ventilation_duration'']"
  by (simp add: policy_keys_def DEFAULT_POLICY_def)

lemma map_of_DEFAULT_POLICY: "k \<in> set policy_keys \<longleftrightarrow> map_of DEFAULT_POLICY k \<noteq> None"
  by (auto simp: policy_keys_def map_of_eq_None_iff)

lemma validate_policyD:
  assumes "validate_policy payload current = Inr c"
  shows "c = policy_candidate payload current" "\<forall>(k, v) \<in> set c. number v \<and> 0 < num_of v"
    "in_sensor_range ''soil_moisture'' (num_of (dgetn c ''soil_moisture_threshold''))"
    "in_sensor_range ''temperature'' (num_of (dgetn c ''temperature_threshold''))"
    "policy_duration_ok c ''IRRIGATION'' ''irrigation_duration''" "policy_duration_ok c ''VENTILATION'' ''ventilation_duration''"
  using assms by (auto simp: validate_policy_def Let_def list_all_iff split: if_splits)

lemma dmerge_keys: "set (map fst (dmerge d e)) = set (map fst d) \<union> set (map fst e)"
  by (induction e arbitrary: d) (auto simp: keys_dset [unfolded set_map])

lemma candidate_keys: "set (map fst current) \<subseteq> set (map fst (policy_candidate payload current))"
  by (simp only: policy_candidate_def dmerge_keys Un_upper1)

lemma validated_policy_keys:
  assumes "validate_policy payload current = Inr c" "set policy_keys \<subseteq> set (map fst current)"
  shows "safe_policy c" "set policy_keys \<subseteq> set (map fst c)"
  using assms validate_policy_safe candidate_keys validate_policyD(1) unfolding policy_keys_def by blast+

lemma default_policy_safe: "safe_policy DEFAULT_POLICY"
  by (simp add: safe_policy_def DEFAULT_POLICY_def number_def int_finite_def num_of_def in_sensor_range_def SENSOR_RANGES_def
      dgetn_def policy_duration_ok_def MAX_DURATION_def)

definition decider_ok :: "decider \<Rightarrow> bool" where
  "decider_ok d \<longleftrightarrow> safe_policy (d_policy d) \<and> distinct (map fst (d_policy d)) \<and> set (map fst (d_policy d)) = set policy_keys"

lemma candidate_keys_eq:
  assumes "set (map fst current) = set policy_keys"
  shows "set (map fst (policy_candidate payload current)) = set policy_keys"
proof -
  have "set (map fst (filter P (map (\<lambda>k. (k, g k)) ks))) \<subseteq> set ks" for P and g :: "string \<Rightarrow> pyval" and ks
    by auto
  then show ?thesis
    unfolding policy_candidate_def dmerge_keys assms policy_keys_def by blast
qed

lemma update_policy_ok:
  assumes "decider_ok d"
  shows "decider_ok (fst (update_policy d payload now io))"
proof (cases "validate_policy payload (d_policy d)")
  case (Inr c)
  have "safe_policy c" "set (map fst c) = set policy_keys" "distinct (map fst c)"
    using validated_policy_keys(1) [OF Inr] validate_policyD(1) [OF Inr] candidate_keys_eq assms
    by (auto simp: decider_ok_def policy_candidate_def distinct_dmerge simp del: set_map)
  then show ?thesis
    using assms Inr by (auto simp: update_policy_def decider_ok_def Let_def split: option.split sum.split)
qed (use assms in \<open>simp add: update_policy_def\<close>)

lemma safe_policyD: "safe_policy p \<Longrightarrow> k \<in> set policy_keys \<Longrightarrow> \<exists>v. map_of p k = Some v \<and> number v \<and> 0 < num_of v"
  by (auto simp: safe_policy_def policy_keys_def)

text \<open>Look-ups decide whether a policy is safe.\<close>

lemma safe_policy_cong:
  assumes "\<forall>k \<in> set policy_keys. map_of p k = map_of q k" "safe_policy p"
  shows "safe_policy q"
proof -
  have eq: "dgetn q k = dgetn p k" if "k \<in> set policy_keys" for k
    using assms(1) that by (simp add: dgetn_def)
  have keys: "''soil_moisture_threshold'' \<in> set policy_keys" "''temperature_threshold'' \<in> set policy_keys"
    "''irrigation_duration'' \<in> set policy_keys" "''ventilation_duration'' \<in> set policy_keys"
    by (simp_all add: default_policy_keys)
  show ?thesis
    using assms unfolding safe_policy_def policy_duration_ok_def keys [THEN eq] policy_keys_def [symmetric] by simp
qed

lemma candidate_lookup:
  assumes "k \<in> set policy_keys"
  shows "map_of (policy_candidate payload current) k = (case map_of payload k of None \<Rightarrow> map_of current k | Some v \<Rightarrow> Some v)"
proof (cases "map_of payload k")
  case None
  then have "k \<notin> set (map fst payload)" by (simp add: map_of_eq_None_iff)
  with None show ?thesis by (simp add: map_of_candidate del: set_map)
next
  case (Some v)
  then show ?thesis
    using assms by (auto simp: map_of_candidate policy_keys_def simp del: set_map dest!: map_of_SomeD intro!: rev_image_eqI)
qed

lemma saved_policy_ok:
  assumes "policy_saved_ok v"
  shows "safe_policy (dict_of (dgetn (dict_of v) ''policy''))"
    "set (map fst (dict_of (dgetn (dict_of v) ''policy''))) = set policy_keys"
    "0 \<le> int_of (dgetn (dict_of v) ''policy_version'')" "distinct (map fst (dict_of (dgetn (dict_of v) ''policy'')))"
proof -
  from assms obtain d i p c where v: "v = PDict d" "map_of d ''policy_version'' = Some (PInt i)" "map_of d ''policy'' = Some (PDict p)"
    and i: "0 \<le> i" "distinct (map fst p)" and keys: "set (map fst p) = set policy_keys"
    and val: "validate_policy (dset p ''policy_version'' (PInt i)) DEFAULT_POLICY = Inr c"
    by (auto simp: policy_saved_ok_def split: pyval.splits option.splits prod.splits sum.splits)
  have c: "c = policy_candidate (dset p ''policy_version'' (PInt i)) DEFAULT_POLICY"
    using val by (rule validate_policyD)
  have "safe_policy c"
    using val by (rule validated_policy_keys) (simp add: policy_keys_def)
  moreover have "map_of c k = map_of p k" if k: "k \<in> set policy_keys" for k
  proof -
    from k keys have "map_of p k \<noteq> None"
      by (simp add: map_of_eq_None_iff)
    moreover have "k \<noteq> ''policy_version''"
      using k by (auto simp: default_policy_keys)
    ultimately show ?thesis
      unfolding c using k by (auto simp: candidate_lookup)
  qed
  ultimately have "safe_policy p"
    using safe_policy_cong by blast
  with v i keys show "safe_policy (dict_of (dgetn (dict_of v) ''policy''))"
    "set (map fst (dict_of (dgetn (dict_of v) ''policy''))) = set policy_keys"
    "0 \<le> int_of (dgetn (dict_of v) ''policy_version'')" "distinct (map fst (dict_of (dgetn (dict_of v) ''policy'')))"
    by (simp_all add: dict_of_def int_of_def)
qed

lemma load_validated:
  assumes "load st ns vd ap io = Inr (Some v)"
  shows "vd v"
proof -
  have some: "\<exists>x. f x = Some v" if "List.map_filter f xs = v # vs" for f vs and xs :: "row list"
    using that by (induction xs) (auto simp: List.map_filter_simps split: option.splits)
  from assms obtain xs vs where "List.map_filter (row_value st vd) xs = v # vs"
    by (auto simp: load_def Let_def split: if_splits list.splits)
  then have "\<exists>r. row_value st vd r = Some v"
    by (rule some)
  then show ?thesis
    by (auto simp: row_value_def split: if_splits sum.splits)
qed

lemma decider_init_ok:
  assumes "decider_init [] version e st show io = Inr d"
  shows "decider_ok d"
proof -
  have def0: "decider_ok x" if "d_policy x = DEFAULT_POLICY" for x
    using that default_policy_safe default_policy_keys by (simp add: decider_ok_def policy_keys_def)
  show ?thesis
  proof (cases "\<exists>s v. st = Some s \<and> load s ''policy'' policy_saved_ok True io = Inr (Some v)")
    case True
    then obtain s v where v: "st = Some s" "load s ''policy'' policy_saved_ok True io = Inr (Some v)" by blast
    then have "d_policy d = dict_of (dgetn (dict_of v) ''policy'')"
      using assms by (auto simp: decider_init_def Let_def)
    with saved_policy_ok [OF load_validated [OF v(2)]] show ?thesis
      by (simp add: decider_ok_def)
  next
    case False
    with assms show ?thesis
      by (auto simp: decider_init_def Let_def intro!: def0 split: option.splits sum.splits py_error.splits)
  qed
qed

section \<open>Runs of policy pushes\<close>

datatype policy_push = Push dict real bool

fun push_step :: "decider \<Rightarrow> policy_push \<Rightarrow> decider" where
  "push_step d (Push payload now io) = fst (update_policy d payload now io)"

lemma push_ok: "decider_ok d \<Longrightarrow> decider_ok (push_step d p)"
  by (cases p) (simp add: update_policy_ok)

lemma push_run_ok: "decider_ok d \<Longrightarrow> decider_ok (run push_step d ps)"
  by (induction ps arbitrary: d) (auto intro: push_ok)

lemma push_version: "d_version d \<le> d_version (push_step d p)"
  by (cases p) (auto simp: update_policy_def Let_def split: sum.split option.split)

interpretation policy_epoch: epoch_register d_version push_step
  by unfold_locales (rule push_version)

lemma push_engine: "d_engine (push_step d p) = d_engine d"
  by (cases p) (auto simp: update_policy_def Let_def split: sum.split option.split)

text \<open>
  C14: from its start, with or without a checkpoint, and through any policy pushes, valid or not,
  in any order and with failing storage, a gateway holds a policy within every safety limit, its
  version never goes back, and a push whose version is not newer than one already seen leaves the
  state as it is.
\<close>

theorem policy_safe_and_monotone:
  assumes "decider_init [] version e st show io = Inr d"
  shows "safe_policy (d_policy (run push_step d ps)) \<and> d_version d \<le> d_version (run push_step d ps) \<and>
    (\<forall>payload i now ok. map_of payload ''policy_version'' = Some (PInt i) \<and> i \<le> d_version d \<longrightarrow>
       fst (update_policy (run push_step d ps) payload now ok) = run push_step d ps)"
proof -
  have "safe_policy (d_policy (run push_step d ps))"
    using push_run_ok [OF decider_init_ok [OF assms]] by (simp add: decider_ok_def)
  moreover have le: "d_version d \<le> d_version (run push_step d ps)"
    by (rule policy_epoch.run_mono)
  moreover have "fst (update_policy (run push_step d ps) payload now ok) = run push_step d ps"
    if "map_of payload ''policy_version'' = Some (PInt i)" "i \<le> d_version d" for payload i now ok
    using that le by (auto simp: update_policy_def Let_def int_of_def split: sum.split)
  ultimately show ?thesis by blast
qed

definition demo_decider :: decider where
  [model_defs]: "demo_decider = \<lparr>d_engine = RuleEngine, d_policy = DEFAULT_POLICY, d_version = 0, d_store = None,
     d_recovery = ''compiled-default'', d_show = (\<lambda>_. [])\<rparr>"

lemma demo_decider_init: "decider_init [] 0 RuleEngine None (\<lambda>_. []) True = Inr demo_decider"
  by (simp add: decider_init_def demo_decider_def)

theorem policy_safe_and_monotone_witness:
  "safe_policy (d_policy (run push_step demo_decider
     [Push [(''irrigation_duration'', PInt 900)] 0 True, Push [(''policy_version'', PInt 3), (''irrigation_duration'', PInt 20)] 1 True]))"
  using policy_safe_and_monotone [OF demo_decider_init] by blast

section \<open>Decisions\<close>

lemma map_of_filter_keys: "map_of (filter (\<lambda>(k, v). k \<in> S) d) k = (if k \<in> S then map_of d k else None)"
  by (induction d) auto

lemma dgetn_filter_keys: "dgetn (filter (\<lambda>(k, v). k \<in> S) d) k = (if k \<in> S then dgetn d k else PNone)"
  by (simp add: dgetn_def map_of_filter_keys)

lemma number_PNone: "\<not> number PNone"
  by (simp add: number_def)

lemma finite_number_True: "finite_number v = Inr True \<longleftrightarrow> number v"
  by (auto simp: finite_number_def number_def split: pyval.splits pyfloat.splits)

definition duration_key :: "string \<Rightarrow> string" where
  "duration_key label = (if label = ''IRRIGATION'' then ''irrigation_duration'' else ''ventilation_duration'')"

definition decision_of :: "dict \<Rightarrow> dict \<Rightarrow> string \<Rightarrow> bool" where
  "decision_of cmd policy label \<longleftrightarrow> label \<in> {''IRRIGATION'', ''VENTILATION''} \<and>
     map_of cmd ''type'' = Some (PStr label) \<and> map_of cmd ''duration'' = Some (dgetn (merged_policy policy) (duration_key label))"

lemma rule_predict_cases:
  assumes "rule_predict show sample policy = Inr (Some cmd)"
  shows "(number (dgetn sample ''soil_moisture'') \<and> decision_of cmd policy ''IRRIGATION'' \<and>
       num_of (dgetn sample ''soil_moisture'') < num_of (dgetn (merged_policy policy) ''soil_moisture_threshold'')) \<or>
     (number (dgetn sample ''temperature'') \<and> decision_of cmd policy ''VENTILATION'' \<and>
       num_of (dgetn (merged_policy policy) ''temperature_threshold'') < num_of (dgetn sample ''temperature''))"
  using assms unfolding finite_number_True [symmetric]
  by (auto simp: rule_predict_def rule_table_def Let_def decision_of_def duration_key_def split: sum.splits if_splits)

lemma learned_decision:
  assumes "predict show e sample policy = Inr (Some cmd)" "create_engine name a = Inr e" "e \<noteq> RuleEngine"
  shows "\<exists>label. decision_of cmd policy label"
proof -
  from assms(1,3) obtain x where x: "extract_features sample (merged_policy policy) = Inr x"
    by (auto simp: predict_def Let_def split: sum.splits)
  have four: "length x = 4"
  proof -
    have len: "read_channels sample ns = Inr ys \<Longrightarrow> length ys = length ns" for ns ys
      by (induction ns arbitrary: ys) (auto simp: Let_def split: sum.splits if_splits)
    obtain ys where ys: "read_channels sample [''soil_moisture'', ''temperature'', ''humidity'', ''light''] = Inr ys"
      using x by (cases "read_channels sample [''soil_moisture'', ''temperature'', ''humidity'', ''light'']")
        (simp_all add: extract_features_def)
    then obtain s t h l where "ys = [s, t, h, l]"
      using len [OF ys] by (auto simp: length_Suc_conv)
    with x ys show ?thesis
      by (auto simp: extract_features_def Let_def)
  qed
  then obtain l where l: "l \<in> set LABELS" "predict_label e x = Inr l"
    using engine_label [OF assms(2,3)] by blast
  then show ?thesis
    using assms(1,3) x by (intro exI [of _ l])
      (auto simp: predict_def Let_def LABELS_def decision_of_def duration_key_def split: if_splits)
qed

lemma merged_safe: "decider_ok d \<Longrightarrow> k \<in> set policy_keys \<Longrightarrow> dgetn (merged_policy (d_policy d)) k = dgetn (d_policy d) k"
  by (auto simp: decider_ok_def merged_policy_def dgetn_def map_of_dmerge_distinct safe_policy_def policy_keys_def)

lemma decision_duration:
  assumes "decider_ok d" "decision_of cmd (d_policy d) label"
  shows "\<exists>v mx. map_of cmd ''duration'' = Some v \<and> number v \<and> 0 < num_of v \<and>
    map_of MAX_DURATION label = Some mx \<and> num_of v \<le> mx"
proof -
  have k: "duration_key label \<in> set policy_keys"
    by (simp add: duration_key_def default_policy_keys)
  then obtain v where v: "map_of (d_policy d) (duration_key label) = Some v" "number v" "0 < num_of v"
    using assms(1) safe_policyD unfolding decider_ok_def by blast
  have "policy_duration_ok (d_policy d) label (duration_key label)"
    using assms by (auto simp: decider_ok_def safe_policy_def decision_of_def duration_key_def)
  then show ?thesis
    using assms(2) v merged_safe [OF assms(1) k]
    by (auto simp: decision_of_def policy_duration_ok_def split: option.splits)
qed

lemma init_engine: "decider_init p v e st show io = Inr d \<Longrightarrow> d_engine d = e"
  by (auto simp: decider_init_def Let_def split: option.splits sum.splits py_error.splits)

lemma run_engine: "d_engine (run push_step d ps) = d_engine d"
  by (induction ps arbitrary: d) (simp_all add: push_engine)

lemma decide_decision:
  assumes "create_engine name a = Inr (d_engine d)" "decide d data trusted = Inr (Some cmd)"
  shows "\<exists>label. decision_of cmd (d_policy d) label"
proof -
  from assms(2) obtain sample where p: "predict (d_show d) (d_engine d) sample (d_policy d) = Inr (Some cmd)"
    by (auto simp: decide_def split: option.splits if_splits)
  show ?thesis
  proof (cases "d_engine d = RuleEngine")
    case True
    with p rule_predict_cases [of "d_show d" sample "d_policy d" cmd] show ?thesis
      by (auto simp: predict_def)
  qed (use p assms(1) learned_decision in blast)
qed

text \<open>
  C13: what the edge decides, the controller's limits allow. From any start and after any policy
  pushes, whatever engine was loaded and whatever the record holds, a decision names a known
  action with a finite positive duration within its limit: a guard with the configured limits
  never refuses it for its type or its duration.
\<close>

theorem decision_within_guard_limits:
  assumes "decider_init [] version e st show io = Inr d0" and "create_engine name a = Inr e"
    and "decide (run push_step d0 ps) data trusted = Inr (Some cmd)" and "g_max_duration g = MAX_DURATION"
  shows "check g cid (dgetn cmd ''type'') (dgetn cmd ''duration'') issued now elapsed gen src
    \<notin> {Some INVALID_TYPE, Some INVALID_DURATION, Some DURATION_EXCEEDED}"
proof -
  have ok: "decider_ok (run push_step d0 ps)"
    by (intro push_run_ok decider_init_ok [OF assms(1)])
  have "d_engine (run push_step d0 ps) = e"
    using init_engine [OF assms(1)] by (simp add: run_engine)
  then obtain label where l: "decision_of cmd (d_policy (run push_step d0 ps)) label"
    using decide_decision [OF _ assms(3)] assms(2) by blast
  obtain v mx where "map_of cmd ''duration'' = Some v" "number v" "0 < num_of v" "map_of MAX_DURATION label = Some mx" "num_of v \<le> mx"
    using decision_duration [OF ok l] by blast
  then show ?thesis
    using l assms(4) by (auto simp: check_def decision_of_def is_str_def str_of_def split: option.splits)
qed

lemma demo_decision:
  "decide (run push_step demo_decider [Push [(''policy_version'', PInt 3), (''irrigation_duration'', PInt 20)] 0 True])
     [(''soil_moisture'', PInt 10)] None
   = Inr (Some [(''type'', PStr ''IRRIGATION''), (''duration'', PInt 20), (''reason'', PStr ''soil_moisture  < '')])"
  by (simp add: update_policy_def validate_policy_def policy_candidate_def demo_decider_def DEFAULT_POLICY_def dgetn_def
      integer_def number_def int_finite_def num_of_def in_sensor_range_def SENSOR_RANGES_def policy_duration_ok_def
      MAX_DURATION_def int_of_def decide_def predict_def rule_predict_def rule_table_def merged_policy_def finite_number_def
      dset_def Let_def)

theorem decision_within_guard_limits_witness:
  "check demo_guard (PStr ''c1'') (PStr ''IRRIGATION'') (PInt 20) (PInt 0) 1 1 (PInt 2) ''A1'' \<notin> {Some INVALID_TYPE, Some INVALID_DURATION, Some DURATION_EXCEEDED}"
  using decision_within_guard_limits [OF demo_decider_init _ demo_decision, of "''rule''" undefined demo_guard]
  by (simp add: create_engine_def demo_guard_def)

text \<open>
  a decision rests on trusted readings. Given the channels the trust gate let through, the
  channels that the chosen action depends on are all among them, and the rule engine decides
  only when such a reading has crossed its threshold.
\<close>

theorem decision_needs_trusted_channels:
  assumes "create_engine name a = Inr (d_engine d)" "decide d data (Some channels) = Inr (Some cmd)"
  shows "\<exists>label needed. map_of cmd ''type'' = Some (PStr label) \<and> map_of ACTION_CHANNELS label = Some needed \<and>
    set needed \<subseteq> set channels \<and>
    (d_engine d = RuleEngine \<longrightarrow>
       (label = ''IRRIGATION'' \<and> num_of (dgetn data ''soil_moisture'') < num_of (dgetn (merged_policy (d_policy d)) ''soil_moisture_threshold'') \<or>
        label = ''VENTILATION'' \<and> num_of (dgetn (merged_policy (d_policy d)) ''temperature_threshold'') < num_of (dgetn data ''temperature'')))"
proof (cases "d_engine d = RuleEngine")
  case True
  with assms(2) have "rule_predict (d_show d) (filter (\<lambda>(k, v). k \<in> set channels) data) (d_policy d) = Inr (Some cmd)"
    by (simp add: decide_def predict_def)
  from rule_predict_cases [OF this] show ?thesis
  proof (elim disjE conjE)
    assume "number (dgetn (filter (\<lambda>(k, v). k \<in> set channels) data) ''soil_moisture'')"
      "decision_of cmd (d_policy d) ''IRRIGATION''"
      "num_of (dgetn (filter (\<lambda>(k, v). k \<in> set channels) data) ''soil_moisture'')
         < num_of (dgetn (merged_policy (d_policy d)) ''soil_moisture_threshold'')"
    then show ?thesis
      by (cases "''soil_moisture'' \<in> set channels")
        (simp_all add: dgetn_filter_keys number_PNone decision_of_def ACTION_CHANNELS_def)
  next
    assume "number (dgetn (filter (\<lambda>(k, v). k \<in> set channels) data) ''temperature'')"
      "decision_of cmd (d_policy d) ''VENTILATION''"
      "num_of (dgetn (merged_policy (d_policy d)) ''temperature_threshold'')
         < num_of (dgetn (filter (\<lambda>(k, v). k \<in> set channels) data) ''temperature'')"
    then show ?thesis
      by (cases "''temperature'' \<in> set channels")
        (simp_all add: dgetn_filter_keys number_PNone decision_of_def ACTION_CHANNELS_def)
  qed
next
  case False
  with assms(2) have "set FEATURE_CHANNELS \<subseteq> set channels"
    by (cases "d_engine d") (auto simp: decide_def split: if_splits)
  moreover obtain label where "decision_of cmd (d_policy d) label"
    using decide_decision [OF assms] by blast
  ultimately show ?thesis
    using False by (auto simp: decision_of_def ACTION_CHANNELS_def FEATURE_CHANNELS_def)
qed

lemma demo_trusted_decision:
  "decide demo_decider [(''soil_moisture'', PInt 10), (''temperature'', PInt 50)] (Some [''temperature''])
   = Inr (Some [(''type'', PStr ''VENTILATION''), (''duration'', PInt 5), (''reason'', PStr ''temperature  > '')])"
  by (simp add: demo_decider_def DEFAULT_POLICY_def dgetn_def decide_def predict_def rule_predict_def rule_table_def
      number_def int_finite_def num_of_def in_sensor_range_def SENSOR_RANGES_def merged_policy_def finite_number_def Let_def)

theorem decision_needs_trusted_channels_witness:
  "\<exists>needed. map_of ACTION_CHANNELS ''VENTILATION'' = Some needed \<and> set needed \<subseteq> {''temperature''}"
  using decision_needs_trusted_channels [OF _ demo_trusted_decision, of "''rule''" undefined]
  by (auto simp: create_engine_def demo_decider_def)

section \<open>A restart finds the last policy\<close>

lemma safe_validates:
  assumes "safe_policy p" "\<forall>k \<in> set policy_keys. map_of q k = map_of p k" "map_of q ''policy_version'' = Some (PInt i)" "0 \<le> i"
  shows "validate_policy q DEFAULT_POLICY = Inr (policy_candidate q DEFAULT_POLICY)"
proof -
  let ?c = "policy_candidate q DEFAULT_POLICY"
  have look: "map_of ?c k = map_of p k" if k: "k \<in> set policy_keys" for k
  proof -
    obtain v where "map_of p k = Some v"
      using safe_policyD [OF assms(1) k] by blast
    then show ?thesis
      using k assms(2) by (simp add: candidate_lookup)
  qed
  then have c: "safe_policy ?c"
    using assms(1) safe_policy_cong by metis
  have keys: "set (map fst ?c) = set policy_keys"
    by (rule candidate_keys_eq) (simp add: policy_keys_def)
  have dist: "distinct (map fst ?c)"
    using default_policy_keys unfolding policy_keys_def by (simp add: policy_candidate_def distinct_dmerge)
  have "list_all (\<lambda>(key, v). number v \<and> 0 < num_of v) ?c"
  proof -
    have "number v \<and> 0 < num_of v" if "(k, v) \<in> set ?c" for k v
    proof -
      have "k \<in> set policy_keys" using that keys by force
      moreover have "map_of ?c k = Some v" using that dist by simp
      ultimately show ?thesis
        using c unfolding safe_policy_def policy_keys_def by fastforce
    qed
    then show ?thesis by (auto simp: list_all_iff)
  qed
  then show ?thesis
    using c assms(3, 4) by (simp add: validate_policy_def Let_def safe_policy_def integer_def)
qed

lemma canon_number: "number v \<Longrightarrow> canon v = v"
  by (cases v) (simp_all add: number_def)

lemma saved_value_ok:
  assumes "safe_policy p" "distinct (map fst p)" "set (map fst p) = set policy_keys" "0 \<le> v"
  shows "policy_saved_ok (canon (PDict (policy_value v p)))"
proof -
  have look: "map_of (canon_dict p) k = map_of p k" if k: "k \<in> set policy_keys" for k
  proof -
    obtain x where "map_of p k = Some x" "number x"
      using safe_policyD [OF assms(1) k] by blast
    then show ?thesis by (simp add: canon_number)
  qed
  have ver: "''policy_version'' \<notin> set policy_keys"
    by (simp add: default_policy_keys)
  have look': "\<forall>k \<in> set policy_keys. map_of (dset (canon_dict p) ''policy_version'' (PInt v)) k = map_of p k"
  proof
    fix k
    assume k: "k \<in> set policy_keys"
    with ver have "k \<noteq> ''policy_version''" by metis
    with look [OF k] show "map_of (dset (canon_dict p) ''policy_version'' (PInt v)) k = map_of p k"
      by (simp only: map_of_dset if_False)
  qed
  have "validate_policy (dset (canon_dict p) ''policy_version'' (PInt v)) DEFAULT_POLICY
      = Inr (policy_candidate (dset (canon_dict p) ''policy_version'' (PInt v)) DEFAULT_POLICY)"
    by (rule safe_validates [OF assms(1) look' _ assms(4)]) simp
  moreover have "set (map fst (canon_dict p)) = set policy_keys"
    using assms(3) by (simp only: keys_canon_dict)
  ultimately show ?thesis
    using assms(2, 4) by (simp add: policy_saved_ok_def policy_value_def)
qed

text \<open>
  a policy that was applied on a gateway with a store is the one the next process starts
  with: same version, same value for every key, whatever the start-up defaults are, and it is
  reported as the last known good one.
\<close>

theorem applied_policy_survives_restart:
  assumes "decider_init [] version e (Some s) show io = Inr d0" and "0 \<le> version"
    and "update_policy (run push_step d0 ps) payload now True = (d', Inr (True, p))"
  shows "\<exists>d2. decider_init [] version2 e (d_store d') show True = Inr d2 \<and> d_version d2 = d_version d' \<and>
    (\<forall>k \<in> set policy_keys. map_of (d_policy d2) k = map_of (d_policy d') k) \<and> d_recovery d2 = ''last-known-good''"
proof -
  let ?d = "run push_step d0 ps"
  have store: "d_store d0 = Some s"
    using assms(1) by (auto simp: decider_init_def Let_def split: option.splits sum.splits py_error.splits)
  have keep: "d_store (push_step x q) \<noteq> None" if "d_store x \<noteq> None" for x q
    using that by (cases q) (auto simp: update_policy_def Let_def split: sum.split option.split)
  have "d_store (run push_step x ps) \<noteq> None" if "d_store x \<noteq> None" for x
    using that by (induction ps arbitrary: x) (auto simp: keep simp del: not_None_eq)
  then obtain s1 where s1: "d_store ?d = Some s1"
    using store by fastforce
  have v0: "0 \<le> d_version d0"
    using assms(1, 2)
    by (auto simp: decider_init_def Let_def dest!: load_validated saved_policy_ok(3) split: option.splits sum.splits py_error.splits)
  have ok: "decider_ok d'"
    using update_policy_ok [of ?d payload now True] push_run_ok [OF decider_init_ok [OF assms(1)]] assms(3) by simp
  have v: "0 \<le> d_version d'"
    using push_version [of ?d "Push payload now True"] policy_epoch.run_mono [of d0 ps] v0 assms(3) by simp
  obtain s' where s': "d_store d' = Some s'" "save s1 ''policy'' (PDict (policy_value (d_version d') (d_policy d'))) now True = Inr s'"
    using assms(3) s1 by (auto simp: update_policy_def Let_def split: sum.splits if_splits)
  have "load s' ''policy'' policy_saved_ok True True = Inr (Some (canon (PDict (policy_value (d_version d') (d_policy d')))))"
    using ok v by (intro load_saved [OF s'(2)] saved_value_ok) (auto simp: decider_ok_def)
  then have init: "decider_init [] version2 e (d_store d') show True = Inr
      \<lparr>d_engine = e, d_policy = canon_dict (d_policy d'), d_version = d_version d', d_store = Some s',
       d_recovery = ''last-known-good'', d_show = show\<rparr>"
    by (simp add: decider_init_def s' dict_of_def policy_value_def int_of_def)
  have "map_of (canon_dict (d_policy d')) k = map_of (d_policy d') k" if k: "k \<in> set policy_keys" for k
  proof -
    obtain x where "map_of (d_policy d') k = Some x" "number x"
      using ok safe_policyD [OF _ k] unfolding decider_ok_def by blast
    then show ?thesis by (simp add: canon_number)
  qed
  with init show ?thesis by simp
qed

theorem applied_policy_survives_restart_witness:
  "\<exists>d0 d' d2. decider_init [] 0 RuleEngine (Some (store_init (\<lambda>_. ''h''))) (\<lambda>_. []) True = Inr d0 \<and>
     update_policy d0 [(''policy_version'', PInt 3), (''irrigation_duration'', PInt 20)] 7 True = (d', Inr (True, d_policy d')) \<and>
     decider_init [] 9 RuleEngine (d_store d') (\<lambda>_. []) True = Inr d2 \<and> d_version d2 = 3"
proof -
  obtain d0 where d0: "decider_init [] 0 RuleEngine (Some (store_init (\<lambda>_. ''h''))) (\<lambda>_. []) True = Inr d0"
    "d_store d0 = Some (store_init (\<lambda>_. ''h''))" "d_policy d0 = DEFAULT_POLICY" "d_version d0 = 0"
    by (simp add: decider_init_def load_def store_init_def Let_def)
  let ?payload = "[(''policy_version'', PInt 3), (''irrigation_duration'', PInt 20)]"
  obtain c where c: "validate_policy ?payload DEFAULT_POLICY = Inr c"
    "json_ok (PDict (policy_value 3 c))"
    by (simp add: validate_policy_def policy_candidate_def DEFAULT_POLICY_def dgetn_def integer_def number_def int_finite_def
        num_of_def in_sensor_range_def SENSOR_RANGES_def policy_duration_ok_def MAX_DURATION_def dset_def Let_def
        json_ok_PDict policy_value_def)
  obtain s' where s': "save (store_init (\<lambda>_. ''h'')) ''policy'' (PDict (policy_value 3 c)) 7 True = Inr s'"
    using save_ok [OF c(2)] by blast
  have upd: "update_policy (run push_step d0 []) ?payload 7 True
      = (d0\<lparr>d_policy := c, d_version := 3, d_store := Some s'\<rparr>, Inr (True, c))"
    using c(1) s' d0(2-4) by (simp add: update_policy_def int_of_def)
  show ?thesis
    using applied_policy_survives_restart [OF d0(1) _ upd, of 9] upd d0(1) by auto
qed

end
