(* ===== verification/Links.thy ===== *)
theory Links
  imports Prelude Interfaces Config
begin

text \<open>
  \<^verbatim>\<open>common/bounded_queue.py\<close> and \<^verbatim>\<open>gateway/connectivity.py\<close>: the bounded queues between the
  tasks of a gateway, and the reconnect state of the link to the cloud. The readings of the
  monotonic clock are inputs. \<open>put_nowait\<close> and \<open>get_nowait\<close> are those of the standard library's
  queue: a full queue refuses, an empty one yields nothing.
\<close>

section \<open>BoundedQueue\<close>

record 'a bqueue =
  bq_items :: "('a \<times> real) list"
  bq_capacity :: nat
  bq_high_water :: nat
  bq_max_wait :: real
  bq_stamp :: "'a \<Rightarrow> real \<Rightarrow> 'a"

definition bq_init :: "int \<Rightarrow> ('a \<Rightarrow> real \<Rightarrow> 'a) \<Rightarrow> py_error + 'a bqueue" where
  "bq_init capacity stamp =
     (if \<not> (1 \<le> capacity \<and> capacity \<le> 1024) then Inl (ValueErr ''queue capacity must be 1..1024'')
      else Inr \<lparr>bq_items = [], bq_capacity = nat capacity, bq_high_water = 0, bq_max_wait = 0, bq_stamp = stamp\<rparr>)"

definition bq_put :: "'a bqueue \<Rightarrow> 'a \<Rightarrow> real \<Rightarrow> 'a bqueue" where
  "bq_put q x now =
     q\<lparr>bq_items := bq_items q @ [(bq_stamp q x now, now)],
       bq_high_water := max (bq_high_water q) (Suc (length (bq_items q)))\<rparr>"

definition put_nowait :: "'a bqueue \<Rightarrow> 'a \<Rightarrow> real \<Rightarrow> bool \<times> 'a bqueue" where
  "put_nowait q x now =
     (if bq_capacity q \<le> length (bq_items q) then (False, q) else (True, bq_put q x now))"

definition get_nowait :: "'a bqueue \<Rightarrow> real \<Rightarrow> 'a option \<times> 'a bqueue" where
  "get_nowait q now =
     (case bq_items q of
        [] \<Rightarrow> (None, q)
      | (x, t) # rest \<Rightarrow>
          (Some x, q\<lparr>bq_items := rest, bq_max_wait := max (bq_max_wait q) (max 0 (now - t) * 1000)\<rparr>))"

definition bq_stats :: "'a bqueue \<Rightarrow> dict" where
  "bq_stats q =
     [(''depth'', PInt (int (length (bq_items q)))), (''capacity'', PInt (int (bq_capacity q))),
      (''high_water'', PInt (int (bq_high_water q))), (''max_wait_ms'', PFloat (Fin (bq_max_wait q)))]"

definition bq_event :: "'a bqueue \<Rightarrow> 'a q_event \<Rightarrow> 'a bqueue" where
  "bq_event q e = (case e of EPut x t \<Rightarrow> snd (put_nowait q x t) | EGet t \<Rightarrow> snd (get_nowait q t))"

definition bq_inv :: "'a bqueue \<Rightarrow> bool" where
  "bq_inv q \<longleftrightarrow> length (bq_items q) \<le> bq_high_water q \<and> bq_high_water q \<le> bq_capacity q \<and> 0 \<le> bq_max_wait q"

lemma bq_inv_event: "bq_inv q \<Longrightarrow> bq_inv (bq_event q e) \<and> bq_capacity (bq_event q e) = bq_capacity q"
  by (auto simp: bq_event_def bq_inv_def put_nowait_def bq_put_def get_nowait_def split: q_event.split list.split)

interpretation task_queue: bounded_store "\<lambda>q. length (bq_items q)" bq_capacity bq_inv bq_event
  by unfold_locales (auto simp: bq_inv_event, auto simp: bq_inv_def)

text \<open>The item as it is stored, when it is accepted.\<close>

definition put_stored :: "'a bqueue \<Rightarrow> 'a \<Rightarrow> real \<Rightarrow> 'a option \<times> 'a bqueue" where
  "put_stored q x now =
     (if fst (put_nowait q x now) then Some (bq_stamp q x now) else None, snd (put_nowait q x now))"

interpretation task_fifo: fifo "\<lambda>q. map fst (bq_items q)" put_stored get_nowait
  by unfold_locales
    (auto simp: put_stored_def put_nowait_def bq_put_def get_nowait_def split: list.split)

lemma fifo_run_cap:
  "fifo_run put_stored get_nowait q es = (ins, outs, q') \<Longrightarrow> bq_inv q \<Longrightarrow> bq_inv q' \<and> bq_capacity q' = bq_capacity q"
proof (induction es arbitrary: q ins outs)
  case (Cons e es)
  show ?case
  proof (cases e)
    case (EPut x t)
    obtain ins1 outs1 where r: "fifo_run put_stored get_nowait (snd (put_stored q x t)) es = (ins1, outs1, q')"
      using Cons.prems EPut by (auto simp: Let_def split: prod.splits)
    then show ?thesis
      using Cons.IH [OF r] bq_inv_event [OF Cons.prems(2), of "EPut x t"] by (simp add: put_stored_def bq_event_def)
  next
    case (EGet t)
    obtain ins1 outs1 where r: "fifo_run put_stored get_nowait (snd (get_nowait q t)) es = (ins1, outs1, q')"
      using Cons.prems EGet by (auto simp: Let_def split: prod.splits)
    then show ?thesis
      using Cons.IH [OF r] bq_inv_event [OF Cons.prems(2), of "EGet t"] by (simp add: bq_event_def)
  qed
qed simp

text \<open>
  a task queue neither loses nor reorders what it accepts, and it never holds more than its
  capacity: from a new queue, what was taken out followed by what is still inside is what was
  put in successfully, in order.
\<close>

theorem queue_keeps_order:
  assumes "bq_init capacity stamp = Inr q" and "fifo_run put_stored get_nowait q es = (ins, outs, q')"
  shows "ins = outs @ map fst (bq_items q') \<and> length (bq_items q') \<le> nat capacity"
proof -
  have q: "bq_items q = []" "bq_inv q" "bq_capacity q = nat capacity"
    using assms(1) by (auto simp: bq_init_def bq_inv_def split: if_splits)
  then show ?thesis
    using task_fifo.in_order [OF assms(2)] fifo_run_cap [OF assms(2)] by (auto simp: bq_inv_def)
qed

theorem queue_keeps_order_witness:
  "\<exists>q ins outs q'. bq_init 1 (\<lambda>x _. x) = Inr q \<and>
     fifo_run put_stored get_nowait q [EPut (1::nat) 0, EPut 2 1, EGet 2, EPut 3 3] = (ins, outs, q') \<and>
     ins = outs @ map fst (bq_items q')"
proof -
  obtain q :: "nat bqueue" where q: "bq_init 1 (\<lambda>x _. x) = Inr q"
    by (simp add: bq_init_def)
  obtain ins outs q' where "fifo_run put_stored get_nowait q [EPut 1 0, EPut 2 1, EGet 2, EPut 3 3] = (ins, outs, q')"
    using prod_cases3 by blast
  with queue_keeps_order [OF q this] q show ?thesis by blast
qed

section \<open>Connectivity\<close>

datatype link_state = LinkOnline | LinkDegraded | LinkOffline

fun link_name :: "link_state \<Rightarrow> string" where
  "link_name LinkOnline = ''ONLINE''"
| "link_name LinkDegraded = ''DEGRADED''"
| "link_name LinkOffline = ''OFFLINE''"

record connectivity =
  k_backoff :: "real list"
  k_cooldown :: real
  k_failures :: nat
  k_state :: link_state
  k_early :: bool
  k_last_critical :: "real option"

definition connectivity_init :: "real list \<Rightarrow> real \<Rightarrow> py_error + connectivity" where
  "connectivity_init backoff cooldown =
     (if backoff = [] \<or> \<not> list_all (\<lambda>v. 0 < v) backoff then Inl (ValueErr ''reconnect backoff must be positive'')
      else Inr \<lparr>k_backoff = backoff, k_cooldown = cooldown, k_failures = 0, k_state = LinkOffline, k_early = False,
        k_last_critical = None\<rparr>)"

definition link_failed :: "connectivity \<Rightarrow> real \<times> connectivity" where
  "link_failed k =
     (let n = Suc (k_failures k)
      in (k_backoff k ! min (n - 1) (length (k_backoff k) - 1),
          k\<lparr>k_failures := n, k_state := (if n = 1 then LinkDegraded else LinkOffline)\<rparr>))"

definition link_connected :: "connectivity \<Rightarrow> bool \<Rightarrow> connectivity" where
  "link_connected k backlog = k\<lparr>k_state := (if backlog then LinkDegraded else LinkOnline)\<rparr>"

definition link_confirmed :: "connectivity \<Rightarrow> bool \<Rightarrow> connectivity" where
  "link_confirmed k backlog = link_connected (k\<lparr>k_failures := 0\<rparr>) backlog"

definition request_critical_retry :: "connectivity \<Rightarrow> real \<Rightarrow> bool \<times> connectivity" where
  "request_critical_retry k now =
     (if k_state k = LinkOnline \<or> k_early k then (False, k)
      else case k_last_critical k of
          Some t \<Rightarrow> if now - t < k_cooldown k then (False, k)
                     else (True, k\<lparr>k_last_critical := Some now, k_early := True\<rparr>)
        | None \<Rightarrow> (True, k\<lparr>k_last_critical := Some now, k_early := True\<rparr>))"

text \<open>\<^verbatim>\<open>wait_retry\<close> ends early when the event is set, and clears it either way.\<close>

definition wait_retry :: "connectivity \<Rightarrow> bool \<times> connectivity" where
  "wait_retry k = (k_early k, k\<lparr>k_early := False\<rparr>)"

datatype link_op = LFailed | LConnected bool | LConfirmed bool | LCritical real | LWait

fun link_step :: "connectivity \<Rightarrow> link_op \<Rightarrow> connectivity" where
  "link_step k LFailed = snd (link_failed k)"
| "link_step k (LConnected b) = link_connected k b"
| "link_step k (LConfirmed b) = link_confirmed k b"
| "link_step k (LCritical now) = snd (request_critical_retry k now)"
| "link_step k LWait = snd (wait_retry k)"

text \<open>The times at which a run grants an early retry.\<close>

fun granted :: "connectivity \<Rightarrow> link_op list \<Rightarrow> real list" where
  "granted k [] = []"
| "granted k (op # ops) =
     (case op of LCritical now \<Rightarrow> if fst (request_critical_retry k now) then [now] else [] | _ \<Rightarrow> [])
     @ granted (link_step k op) ops"

definition apart :: "real \<Rightarrow> real list \<Rightarrow> bool" where
  "apart gap ts \<longleftrightarrow> successively (\<lambda>a b. gap \<le> b - a) ts"

lemma granted_apart:
  "apart (k_cooldown k) ((case k_last_critical k of None \<Rightarrow> [] | Some t \<Rightarrow> [t]) @ granted k ops)"
proof (induction ops arbitrary: k)
  case Nil
  show ?case by (simp add: apart_def split: option.split)
next
  case (Cons op ops)
  show ?case
  proof (cases op)
    case (LCritical now)
    then show ?thesis
      using Cons.IH [of "link_step k op"]
      by (auto simp: request_critical_retry_def apart_def split: option.splits if_splits)
  qed (use Cons.IH [of "link_step k op"] in
      \<open>simp_all add: link_failed_def link_connected_def link_confirmed_def wait_retry_def Let_def\<close>)
qed

lemma link_backoff_kept: "k_backoff (link_step k op) = k_backoff k \<and> k_cooldown (link_step k op) = k_cooldown k"
  by (cases op)
    (auto simp: link_failed_def link_connected_def link_confirmed_def wait_retry_def request_critical_retry_def Let_def
      split: option.split)

lemma link_run_kept: "k_backoff (run link_step k ops) = k_backoff k"
  by (induction ops arbitrary: k) (auto simp: link_backoff_kept)

text \<open>
  reconnecting never busy-loops. In every run of the link state, two early retries that
  critical uploads obtain are at least the cooldown apart, and every delay after a failure is one of
  the configured positive back-off steps.
\<close>

theorem reconnect_is_paced:
  assumes "connectivity_init backoff cooldown = Inr k"
  shows "apart cooldown (granted k ops) \<and> fst (link_failed (run link_step k ops)) \<in> set backoff \<and>
    0 < fst (link_failed (run link_step k ops))"
proof -
  have k: "k_backoff k = backoff" "k_cooldown k = cooldown" "k_last_critical k = None" "backoff \<noteq> []" "\<forall>v \<in> set backoff. 0 < v"
    using assms by (auto simp: connectivity_init_def list_all_iff split: if_splits)
  have "fst (link_failed (run link_step k ops)) \<in> set backoff"
    using k(1, 4) by (auto simp: link_failed_def Let_def link_run_kept min_less_iff_disj intro!: nth_mem)
  moreover have "apart cooldown (granted k ops)"
    using granted_apart [of k ops] k by simp
  ultimately show ?thesis using k(5) by blast
qed

theorem reconnect_is_paced_witness:
  "\<exists>k. connectivity_init [1, 2, 5] 3 = Inr k \<and> granted k [LFailed, LCritical 1, LWait, LCritical 2, LCritical 4] = [1, 4] \<and>
     fst (link_failed (run link_step k [LFailed, LFailed])) \<in> {1, 2, 5}"
proof -
  define k where "k = \<lparr>k_backoff = [1, 2, 5], k_cooldown = 3, k_failures = 0, k_state = LinkOffline, k_early = False,
    k_last_critical = None\<rparr>"
  have k: "connectivity_init [1, 2, 5] 3 = Inr k"
    by (simp add: connectivity_init_def k_def)
  have g: "granted k [LFailed, LCritical 1, LWait, LCritical 2, LCritical 4] = [1, 4]"
    by (simp add: k_def request_critical_retry_def wait_retry_def link_failed_def)
  from reconnect_is_paced [OF k, of "[LFailed, LFailed]"] have "fst (link_failed (run link_step k [LFailed, LFailed])) \<in> {1, 2, 5}"
    by simp
  with k g show ?thesis by blast
qed

end
