(* ===== verification/PeerLink.thy ===== *)
theory PeerLink
  imports Prelude Interfaces Config Messages Checkpoint Reliability Registry Ownership Failover
begin

text \<open>
  \<^verbatim>\<open>gateway/peer_security.py\<close> and the link between the two gateways in
  \<^verbatim>\<open>gateway/gateway.py\<close>: the challenge handshake on both sides, the sessions bound to a
  socket, the authenticated heartbeats. A socket is a number; the random nonces are inputs; the
  keyed hash is the function \<open>pl_hmac\<close> of the key and the canonical JSON text. The payload of a
  received message is finite, so the text always exists.
\<close>

record peer_link =
  pl_fo :: failover
  pl_mode :: string
  pl_key :: string
  pl_hmac :: "string \<Rightarrow> jtext \<Rightarrow> string"
  pl_sessions :: "(nat \<times> string \<times> int) list"
  pl_challenges :: "(nat \<times> dict) list"
  pl_tx_session :: "string option"
  pl_tx_seq :: int
  pl_linked :: bool

section \<open>Profiles and keys\<close>

definition require_lab_profile :: "string \<Rightarrow> string option \<Rightarrow> string option \<Rightarrow> py_error option" where
  "require_lab_profile profile mode key =
     (if profile \<notin> {''lab'', ''simulation'', ''deployment''} then Some (ValueErr ''unknown execution profile'')
      else if profile \<noteq> ''deployment'' then None
      else if mode \<noteq> Some ''hmac'' \<or> (case key of None \<Rightarrow> True | Some k \<Rightarrow> length k < 32)
        then Some (ValueErr ''deployment requires explicit HMAC peer security and an out-of-band >=32-byte key'')
      else Some (ValueErr ''deployment not ready''))"

definition peer_config_error :: "string \<Rightarrow> string \<Rightarrow> string option \<Rightarrow> string \<Rightarrow> py_error option" where
  "peer_config_error profile mode key gateway =
     (case require_lab_profile profile (Some mode) key of
        Some e \<Rightarrow> Some e
      | None \<Rightarrow>
          if \<not> dhas GATEWAY_PORTS gateway then Some (ValueErr ''unknown gateway id'')
          else if mode \<notin> {''lab'', ''hmac''} then Some (ValueErr ''unknown peer security mode'')
          else if mode = ''hmac'' \<and> (case key of None \<Rightarrow> True | Some k \<Rightarrow> length k < 32)
            then Some (ValueErr ''deployment peer HMAC requires >=32-byte out-of-band key'')
          else None)"

section \<open>Proofs of possession\<close>

definition peer_tag :: "peer_link \<Rightarrow> dict \<Rightarrow> string" where
  "peer_tag l body = pl_hmac l (pl_key l) (JText (canon (PDict body)))"

definition peer_verify :: "peer_link \<Rightarrow> dict \<Rightarrow> pyval \<Rightarrow> bool" where
  "peer_verify l body supplied \<longleftrightarrow> supplied = PStr (peer_tag l body)"

definition peer_proof :: "string \<Rightarrow> string \<Rightarrow> string \<Rightarrow> string \<Rightarrow> dict" where
  "peer_proof source target client session =
     [(''source'', PStr source), (''target'', PStr target), (''client'', PStr client), (''session'', PStr session)]"

definition valid_nonce :: "pyval \<Rightarrow> bool" where
  "valid_nonce v =
     (case v of PStr s \<Rightarrow> length s = 32 \<and> list_all (\<lambda>c. c \<in> set ''0123456789abcdef'') s | _ \<Rightarrow> False)"

definition authentic :: "peer_link \<Rightarrow> dict \<Rightarrow> pyval \<Rightarrow> bool" where
  "authentic l body supplied \<longleftrightarrow> pl_mode l = ''lab'' \<or> peer_verify l body supplied"

definition signed :: "peer_link \<Rightarrow> dict \<Rightarrow> dict \<Rightarrow> string \<Rightarrow> dict" where
  "signed l payload body key = (if pl_mode l = ''hmac'' then dset payload key (PStr (peer_tag l body)) else payload)"

definition without :: "string \<Rightarrow> dict \<Rightarrow> dict" where
  "without key d = filter (\<lambda>(k, v). k \<noteq> key) d"

definition peer_ownership_state :: "failover \<Rightarrow> dict" where
  "peer_ownership_state f =
     [(''generation'', PInt (o_generation (f_own f))), (''role'', PStr (role_name (o_role (f_own f)))),
      (''ownership'', PDict (map (\<lambda>(k, e). (k, claim_row e)) (filter (\<lambda>(k, e). n_owner e = gw_id f) (f_reg f))))]"

section \<open>The accepting side\<close>

text \<open>A \<^verbatim>\<open>NODE_STATUS\<close> of the peer on socket \<open>w\<close>: the new state and the payload of the answer.\<close>

definition hello_reply :: "peer_link \<Rightarrow> dict \<Rightarrow> dict" where
  "hello_reply l challenge =
     signed l ((''peer_handshake'', PStr ''CHALLENGE'') # challenge) ((''purpose'', PStr ''CHALLENGE'') # challenge) ''server_auth''"

definition auth_valid :: "peer_link \<Rightarrow> dict \<Rightarrow> message \<Rightarrow> bool" where
  "auth_valid l challenge m \<longleftrightarrow>
     \<not> f_fault (pl_fo l) \<and> m_target m = gw_id (pl_fo l) \<and> dgetn (m_payload m) ''mode'' = PStr (pl_mode l) \<and>
     dgetn (m_payload m) ''session'' = dgetn challenge ''session'' \<and>
     authentic l challenge (dgetn (m_payload m) ''auth'')"

definition auth_reply :: "peer_link \<Rightarrow> bool \<Rightarrow> dict \<Rightarrow> dict" where
  "auth_reply l valid challenge =
     (let response = [(''peer_handshake'', PStr ''AUTH_ACK''), (''accepted'', PBool valid),
            (''session'', dgetn challenge ''session''), (''ownership_state'', PDict (peer_ownership_state (pl_fo l)))]
      in signed l response response ''server_auth'')"

definition peer_status_message :: "peer_link \<Rightarrow> nat \<Rightarrow> message \<Rightarrow> string \<Rightarrow> peer_link \<times> dict option" where
  "peer_status_message l w m fresh_nonce =
     (let p = m_payload m; step = dgetn p ''peer_handshake''
      in if step = PStr ''HELLO'' \<and> m_target m = gw_id (pl_fo l)
         then if \<not> valid_nonce (dgetn p ''client'') then (l, None)
              else let challenge = peer_proof (m_source m) (gw_id (pl_fo l)) (str_of (dgetn p ''client'')) fresh_nonce
                   in (l\<lparr>pl_challenges := dset (pl_challenges l) w challenge\<rparr>, Some (hello_reply l challenge))
         else case map_of (pl_challenges l) w of
             Some challenge \<Rightarrow>
               if step = PStr ''AUTH''
               then let valid = auth_valid l challenge m;
                        l1 = l\<lparr>pl_challenges := ddel (pl_challenges l) w\<rparr>;
                        l2 = (if valid then l1\<lparr>pl_sessions := dset (pl_sessions l) w (str_of (dgetn challenge ''session''), 0)\<rparr> else l1)
                    in (l2, Some (auth_reply l valid challenge))
               else (l, None)
           | None \<Rightarrow> (l, None))"

text \<open>A heartbeat on socket \<open>w\<close>, and whether it was trusted.\<close>

definition heartbeat_body :: "message \<Rightarrow> dict" where
  "heartbeat_body m = dset (to_dict m) ''payload'' (PDict (without ''peer_auth'' (m_payload m)))"

definition heartbeat_authentic :: "peer_link \<Rightarrow> nat \<Rightarrow> message \<Rightarrow> bool" where
  "heartbeat_authentic l w m \<longleftrightarrow>
     (case map_of (pl_sessions l) w of
        None \<Rightarrow> False
      | Some (session, sq) \<Rightarrow>
          let p = m_payload m
          in m_source m = peer_id (pl_fo l) \<and> m_target m = gw_id (pl_fo l) \<and>
             dgetn p ''peer_session'' = PStr session \<and> integer (dgetn p ''peer_sequence'') 1 \<and>
             int_of (dgetn p ''peer_sequence'') \<le> 4294967295 \<and> sq < int_of (dgetn p ''peer_sequence'') \<and>
             authentic l (heartbeat_body m) (dgetn p ''peer_auth''))"

definition count_link :: "peer_link \<Rightarrow> string \<Rightarrow> peer_link" where
  "count_link l name = l\<lparr>pl_fo := (pl_fo l)\<lparr>f_metrics := inc (f_metrics (pl_fo l)) name\<rparr>\<rparr>"

definition peer_heartbeat :: "peer_link \<Rightarrow> nat \<Rightarrow> message \<Rightarrow> clocks \<Rightarrow> bool \<Rightarrow> bool \<times> peer_link" where
  "peer_heartbeat l w m now io =
     (if \<not> heartbeat_authentic l w m then (False, count_link l ''untrusted_peer_heartbeat'')
      else let (ok, f') = on_heartbeat (pl_fo l) m now io
           in if ok
              then (True, l\<lparr>pl_fo := f', pl_sessions := dset (pl_sessions l) w
                     (fst (the (map_of (pl_sessions l) w)), int_of (dgetn (m_payload m) ''peer_sequence''))\<rparr>)
              else (False, count_link (l\<lparr>pl_fo := f'\<rparr>) ''untrusted_peer_heartbeat''))"

definition drop_socket :: "peer_link \<Rightarrow> nat \<Rightarrow> peer_link" where
  "drop_socket l w = l\<lparr>pl_sessions := ddel (pl_sessions l) w, pl_challenges := ddel (pl_challenges l) w\<rparr>"

section \<open>The connecting side\<close>

definition hello_payload :: "string \<Rightarrow> dict" where
  "hello_payload client = [(''peer_handshake'', PStr ''HELLO''), (''client'', PStr client)]"

definition challenge_ok :: "peer_link \<Rightarrow> string \<Rightarrow> message \<Rightarrow> bool" where
  "challenge_ok l client m \<longleftrightarrow>
     (let p = m_payload m; session = dgetn p ''session''
      in m_source m = peer_id (pl_fo l) \<and> m_target m = gw_id (pl_fo l) \<and>
         dgetn p ''peer_handshake'' = PStr ''CHALLENGE'' \<and> valid_nonce session \<and> dgetn p ''client'' = PStr client \<and>
         (pl_mode l = ''hmac'' \<longrightarrow>
            peer_verify l ((''purpose'', PStr ''CHALLENGE'') # peer_proof (gw_id (pl_fo l)) (peer_id (pl_fo l)) client (str_of session))
              (dgetn p ''server_auth'')))"

definition auth_payload :: "peer_link \<Rightarrow> string \<Rightarrow> string \<Rightarrow> dict" where
  "auth_payload l client session =
     [(''peer_handshake'', PStr ''AUTH''), (''mode'', PStr (pl_mode l)), (''session'', PStr session),
      (''auth'', if pl_mode l = ''hmac'' then PStr (peer_tag l (peer_proof (gw_id (pl_fo l)) (peer_id (pl_fo l)) client session)) else PNone)]"

definition ack_ok :: "peer_link \<Rightarrow> string \<Rightarrow> message \<Rightarrow> bool" where
  "ack_ok l session m \<longleftrightarrow>
     (let p = m_payload m
      in m_source m = peer_id (pl_fo l) \<and> m_target m = gw_id (pl_fo l) \<and>
         dgetn p ''peer_handshake'' = PStr ''AUTH_ACK'' \<and> dgetn p ''accepted'' = PBool True \<and>
         dgetn p ''session'' = PStr session \<and>
         (pl_mode l = ''hmac'' \<longrightarrow> peer_verify l (without ''server_auth'' p) (dgetn p ''server_auth'')) \<and>
         (case dgetn p ''ownership_state'' of
            PDict st \<Rightarrow> set (map fst st) = {''generation'', ''role'', ''ownership''} | _ \<Rightarrow> False))"

text \<open>
  \<^verbatim>\<open>_connect_peer\<close> with the two replies it reads, absent when the peer closed the link or
  a timeout or a socket error ended the attempt.
\<close>

definition connect_peer :: "peer_link \<Rightarrow> string \<Rightarrow> message option \<Rightarrow> message option \<Rightarrow> clocks \<Rightarrow> string \<Rightarrow> bool \<Rightarrow> peer_link" where
  "connect_peer l client reply1 reply2 now new_id io =
     (case reply1 of
        None \<Rightarrow> l
      | Some m1 \<Rightarrow>
          if \<not> challenge_ok l client m1 then l
          else let session = str_of (dgetn (m_payload m1) ''session'')
               in case reply2 of
                   None \<Rightarrow> l
                 | Some m2 \<Rightarrow>
                     if \<not> ack_ok l session m2 then l
                     else let state = dict_of (dgetn (m_payload m2) ''ownership_state'');
                              (ok, f') = on_heartbeat (pl_fo l)
                                (new_message HEARTBEAT (peer_id (pl_fo l)) (gw_id (pl_fo l)) state (wall now) new_id) now io
                          in if ok then l\<lparr>pl_fo := f', pl_tx_session := Some session, pl_tx_seq := 0, pl_linked := True\<rparr>
                             else l\<lparr>pl_fo := f'\<rparr>)"

section \<open>Heartbeats sent\<close>

definition heartbeat_payload :: "failover \<Rightarrow> health \<Rightarrow> string \<Rightarrow> dict \<Rightarrow> pyval \<Rightarrow> dict \<Rightarrow> dict" where
  "heartbeat_payload f status connectivity queue_statistics alert_state queues =
     [(''gateway_id'', PStr (gw_id f)), (''status'', PStr ''ONLINE''), (''peer_id'', PStr (peer_id f)),
      (''peer_status'', PStr (health_name status))] @ peer_ownership_state f @
     [(''connectivity'', PStr connectivity), (''offline_queue'', PDict queue_statistics),
      (''outbox_alert_state'', alert_state), (''queues'', PDict queues)]"

definition send_heartbeat :: "peer_link \<Rightarrow> dict \<Rightarrow> real \<Rightarrow> string \<Rightarrow> message option \<times> peer_link" where
  "send_heartbeat l payload now new_id =
     (if \<not> pl_linked l \<or> f_fault (pl_fo l) then (None, l)
      else let n = pl_tx_seq l + 1;
               p = dset (dset payload ''peer_session'' (opt_str (pl_tx_session l))) ''peer_sequence'' (PInt n);
               m = new_message HEARTBEAT (gw_id (pl_fo l)) (peer_id (pl_fo l)) p now new_id
           in (Some (m\<lparr>m_payload := signed l p (to_dict m) ''peer_auth''\<rparr>), l\<lparr>pl_tx_seq := n\<rparr>))"

section \<open>No replay within a session\<close>

type_synonym beat = "nat \<times> message \<times> clocks \<times> bool"

definition beat_recv :: "peer_link \<Rightarrow> beat \<Rightarrow> bool \<times> peer_link" where
  "beat_recv l b = (case b of (w, m, now, io) \<Rightarrow> peer_heartbeat l w m now io)"

definition beat_ident :: "beat \<Rightarrow> nat \<times> int" where
  "beat_ident b = (case b of (w, m, now, io) \<Rightarrow> (w, int_of (dgetn (m_payload m) ''peer_sequence'')))"

definition beat_seen :: "peer_link \<Rightarrow> nat \<times> int \<Rightarrow> bool" where
  "beat_seen l i \<longleftrightarrow> (case map_of (pl_sessions l) (fst i) of None \<Rightarrow> False | Some (s, sq) \<Rightarrow> snd i \<le> sq)"

interpretation beats: admit_once beat_seen beat_ident beat_recv
proof
  fix l and b :: beat and i
  obtain w m now io where b: "b = (w, m, now, io)" by (cases b) auto
  show "fst (beat_recv l b) \<Longrightarrow> \<not> beat_seen l (beat_ident b)"
    by (auto simp: b beat_recv_def peer_heartbeat_def heartbeat_authentic_def beat_seen_def beat_ident_def Let_def
        split: if_splits option.splits prod.splits)
  show "fst (beat_recv l b) \<Longrightarrow> beat_seen (snd (beat_recv l b)) (beat_ident b)"
    by (auto simp: b beat_recv_def peer_heartbeat_def beat_seen_def beat_ident_def split: if_splits prod.splits)
  show "beat_seen l i \<Longrightarrow> beat_seen (snd (beat_recv l b)) i"
    by (auto simp: b beat_recv_def peer_heartbeat_def heartbeat_authentic_def beat_seen_def count_link_def Let_def
        split: if_splits option.splits prod.splits)
qed

text \<open>
  a heartbeat is never accepted twice on a socket: of any sequence of heartbeats, those that
  update what the gateway knows of its peer have pairwise different sequence numbers on each
  socket.
\<close>

theorem peer_heartbeat_no_replay:
  "distinct (map beat_ident (admitted beat_recv l bs))"
  by (rule beats.distinct_admitted)

section \<open>Without the key there is no authority\<close>

datatype peer_op = PStatus nat message string | PBeat nat message clocks bool | PDrop nat

fun peer_step :: "peer_link \<Rightarrow> peer_op \<Rightarrow> peer_link" where
  "peer_step l (PStatus w m n) = fst (peer_status_message l w m n)"
| "peer_step l (PBeat w m now io) = snd (peer_heartbeat l w m now io)"
| "peer_step l (PDrop w) = drop_socket l w"

text \<open>A message that carries no value of the keyed hash.\<close>

definition keyless :: "peer_link \<Rightarrow> peer_op \<Rightarrow> bool" where
  "keyless l op \<longleftrightarrow>
     (case op of
        PStatus w m n \<Rightarrow> \<forall>t. dgetn (m_payload m) ''auth'' \<noteq> PStr (pl_hmac l (pl_key l) t)
      | _ \<Rightarrow> True)"

lemma keyless_step:
  assumes "pl_mode l = ''hmac''" "pl_sessions l = []" "keyless l op"
  shows "pl_mode (peer_step l op) = ''hmac''" "pl_sessions (peer_step l op) = []"
    "keyless (peer_step l op) = keyless l" "f_own (pl_fo (peer_step l op)) = f_own (pl_fo l)"
    "f_reg (pl_fo (peer_step l op)) = f_reg (pl_fo l)"
proof -
  have no: "\<not> auth_valid l c m" if "op = PStatus w m n" for c w m n
    using assms(1, 3) that by (auto simp: auth_valid_def authentic_def peer_verify_def peer_tag_def keyless_def)
  have key: "pl_hmac (peer_step l op) = pl_hmac l \<and> pl_key (peer_step l op) = pl_key l \<and>
      pl_mode (peer_step l op) = ''hmac'' \<and> pl_sessions (peer_step l op) = [] \<and>
      f_own (pl_fo (peer_step l op)) = f_own (pl_fo l) \<and> f_reg (pl_fo (peer_step l op)) = f_reg (pl_fo l)"
  proof (cases op)
    case (PStatus w m n)
    with no assms(1, 2) show ?thesis
      by (auto simp: peer_status_message_def Let_def split: option.split)
  next
    case (PBeat w m now io)
    with assms(1, 2) show ?thesis
      by (simp add: peer_heartbeat_def heartbeat_authentic_def count_link_def)
  next
    case (PDrop w)
    with assms(1, 2) show ?thesis
      by (simp add: drop_socket_def ddel_def)
  qed
  then show "pl_mode (peer_step l op) = ''hmac''" "pl_sessions (peer_step l op) = []"
    "keyless (peer_step l op) = keyless l" "f_own (pl_fo (peer_step l op)) = f_own (pl_fo l)"
    "f_reg (pl_fo (peer_step l op)) = f_reg (pl_fo l)"
    by (simp_all add: keyless_def [abs_def] fun_eq_iff)
qed

text \<open>
  with keyed links, a sender without the key changes nothing. From a gateway without sessions,
  any messages on any sockets whose proofs are not values of the keyed hash leave role, epochs and
  registry as they were: handshakes, claimed identities and heartbeats alone carry no authority.
\<close>

theorem keyless_peer_changes_nothing:
  assumes "pl_mode l = ''hmac''" "pl_sessions l = []" "list_all (keyless l) ops"
  shows "f_own (pl_fo (run peer_step l ops)) = f_own (pl_fo l) \<and> f_reg (pl_fo (run peer_step l ops)) = f_reg (pl_fo l)"
  using assms
proof (induction ops arbitrary: l)
  case (Cons op ops)
  note s = keyless_step [OF Cons.prems(1, 2), of op]
  from Cons.prems(3) have k: "keyless l op" "list_all (keyless (peer_step l op)) ops"
    using s(3) by auto
  show ?case
    using Cons.IH [OF s(1, 2) [OF k(1)] k(2)] s(4, 5) [OF k(1)] by simp
qed simp

definition demo_link :: "string \<Rightarrow> string \<Rightarrow> peer_link" where
  "demo_link gw peer =
     \<lparr>pl_fo = gateway_failover gw peer 10 None \<lparr>wall = 0, mono_clock = 0\<rparr> True True, pl_mode = ''hmac'',
      pl_key = ''key'', pl_hmac = (\<lambda>k t. ''tag''), pl_sessions = [], pl_challenges = [], pl_tx_session = None,
      pl_tx_seq = 0, pl_linked = False\<rparr>"

theorem keyless_peer_changes_nothing_witness:
  "f_reg (pl_fo (run peer_step (demo_link ''A1'' ''A2'')
     [PStatus 1 (new_message NODE_STATUS ''A2'' ''A1'' [(''peer_handshake'', PStr ''AUTH''), (''auth'', PStr ''guess'')] 0 ''m'') [],
      PDrop 1])) = f_reg (pl_fo (demo_link ''A1'' ''A2''))"
proof -
  have "pl_mode (demo_link ''A1'' ''A2'') = ''hmac''" "pl_sessions (demo_link ''A1'' ''A2'') = []"
    "list_all (keyless (demo_link ''A1'' ''A2''))
       [PStatus 1 (new_message NODE_STATUS ''A2'' ''A1'' [(''peer_handshake'', PStr ''AUTH''), (''auth'', PStr ''guess'')] 0 ''m'') [],
        PDrop 1]"
    by (simp_all add: demo_link_def keyless_def new_message_def dgetn_def)
  from keyless_peer_changes_nothing [OF this] show ?thesis by blast
qed

section \<open>Two honest gateways link up\<close>

text \<open>The exchange on one socket: what each side sends after the other's message.\<close>

definition handshake :: "peer_link \<Rightarrow> peer_link \<Rightarrow> nat \<Rightarrow> string \<Rightarrow> string \<Rightarrow> real \<Rightarrow> string \<Rightarrow> peer_link \<times> message option \<times> message option" where
  "handshake a b w client session t i =
     (let say = (\<lambda>from to p. new_message NODE_STATUS from to p t i);
          ga = gw_id (pl_fo a); gb = gw_id (pl_fo b);
          (b1, c) = peer_status_message b w (say ga (peer_id (pl_fo a)) (hello_payload client)) session;
          (b2, r) = peer_status_message b1 w (say ga (peer_id (pl_fo a)) (auth_payload a client session)) []
      in (b2, map_option (say gb ga) c, map_option (say gb ga) r))"

lemma without_dset: "map_of d key = None \<Longrightarrow> without key (dset d key v) = d"
  by (simp add: dset_fresh without_def) (force simp: map_of_eq_None_iff filter_id_conv)

text \<open>
  two gateways of one pair that share mode and key complete the handshake: the accepting one
  binds the session to the socket, and the connecting one accepts both replies, so that it is
  linked exactly when the ownership state in the last reply is a valid one.
\<close>

theorem honest_peers_link:
  assumes "peer_id (pl_fo a) = gw_id (pl_fo b)" "peer_id (pl_fo b) = gw_id (pl_fo a)"
    and "pl_mode a = pl_mode b" "pl_key a = pl_key b" "pl_hmac a = pl_hmac b" "pl_mode b \<in> {''lab'', ''hmac''}"
    and "valid_nonce (PStr client)" "valid_nonce (PStr session)" "\<not> f_fault (pl_fo b)" "\<not> pl_linked a"
  shows "case handshake a b w client session t i of
    (b', m1, m2) \<Rightarrow> map_of (pl_sessions b') w = Some (session, 0) \<and>
      pl_linked (connect_peer a client m1 m2 now new_id io) =
        heartbeat_valid (pl_fo a) (new_message HEARTBEAT (peer_id (pl_fo a)) (gw_id (pl_fo a))
          (peer_ownership_state (pl_fo b)) (wall now) new_id)"
proof -
  let ?a = "gw_id (pl_fo a)" and ?b = "gw_id (pl_fo b)"
  let ?c = "peer_proof ?a ?b client session"
  let ?r = "[(''peer_handshake'', PStr ''AUTH_ACK''), (''accepted'', PBool True), (''session'', PStr session),
    (''ownership_state'', PDict (peer_ownership_state (pl_fo b)))]"
  let ?say = "\<lambda>from to p. new_message NODE_STATUS from to p t i"
  have tag: "peer_tag a = peer_tag b"
    using assms(4, 5) by (simp add: peer_tag_def fun_eq_iff)
  have c: "dgetn ?c ''session'' = PStr session"
    by (simp add: peer_proof_def dgetn_def)
  have one: "peer_status_message b w (?say ?a ?b (hello_payload client)) session
      = (b\<lparr>pl_challenges := dset (pl_challenges b) w ?c\<rparr>, Some (hello_reply b ?c))"
    using assms(7) by (simp add: peer_status_message_def new_message_def hello_payload_def dgetn_def str_of_def Let_def)
  have two: "peer_status_message (b\<lparr>pl_challenges := dset (pl_challenges b) w ?c\<rparr>) w (?say ?a ?b (auth_payload a client session)) []
      = (b\<lparr>pl_challenges := ddel (dset (pl_challenges b) w ?c) w, pl_sessions := dset (pl_sessions b) w (session, 0)\<rparr>,
         Some (signed b ?r ?r ''server_auth''))"
    using assms(1, 3, 6, 9) tag
    by (auto simp: peer_status_message_def new_message_def auth_payload_def dgetn_def [of "_ # _"] str_of_def Let_def
        auth_valid_def authentic_def peer_verify_def c auth_reply_def signed_def peer_tag_def)
  have ch: "challenge_ok a client (?say ?b ?a (hello_reply b ?c))"
    using assms(1, 3, 6, 8) tag
    by (auto simp: challenge_ok_def new_message_def hello_reply_def signed_def dgetn_def peer_proof_def str_of_def
        peer_verify_def Let_def)
  have ses: "dgetn (hello_reply b ?c) ''session'' = PStr session"
    by (simp add: hello_reply_def signed_def dgetn_def peer_proof_def)
  have wo: "without ''server_auth'' (signed b ?r ?r ''server_auth'') = ?r"
    by (simp add: signed_def without_dset) (simp add: without_def)
  have ack: "ack_ok a session (?say ?b ?a (signed b ?r ?r ''server_auth''))"
    using assms(1, 3) tag wo
    by (auto simp: ack_ok_def new_message_def Let_def peer_verify_def) (auto simp: signed_def dgetn_def peer_ownership_state_def)
  have st: "dgetn (signed b ?r ?r ''server_auth'') ''ownership_state'' = PDict (peer_ownership_state (pl_fo b))"
    by (simp add: signed_def dgetn_def)
  have hs: "handshake a b w client session t i =
      (b\<lparr>pl_challenges := ddel (dset (pl_challenges b) w ?c) w, pl_sessions := dset (pl_sessions b) w (session, 0)\<rparr>,
       Some (?say ?b ?a (hello_reply b ?c)), Some (?say ?b ?a (signed b ?r ?r ''server_auth'')))"
    unfolding handshake_def Let_def assms(1) one prod.case two by simp
  show ?thesis
    using ch ack ses st assms(10)
    by (simp add: hs connect_peer_def on_heartbeat_def new_message_def str_of_def dict_of_def Let_def)
qed

theorem honest_peers_link_witness:
  "let n = ''0123456789abcdef0123456789abcdef'' in
   map_of (pl_sessions (fst (handshake (demo_link ''A2'' ''A1'') (demo_link ''A1'' ''A2'') 7 n n 0 ''m''))) 7 = Some (n, 0)"
proof -
  define n where "n = ''0123456789abcdef0123456789abcdef''"
  have nonce: "valid_nonce (PStr n)"
    by (simp add: valid_nonce_def n_def)
  have ids: "gw_id (pl_fo (demo_link g p)) = g" "peer_id (pl_fo (demo_link g p)) = p" "\<not> f_fault (pl_fo (demo_link g p))" for g p
    by (simp_all add: demo_link_def gateway_failover_def failover_init_def restore_ownership_def ownership_init_def)
  have mode: "pl_mode (demo_link g p) = ''hmac''" "pl_key (demo_link g p) = ''key''" "pl_hmac (demo_link g p) = (\<lambda>k t. ''tag'')"
    "\<not> pl_linked (demo_link g p)" for g p
    by (simp_all add: demo_link_def)
  have "case handshake (demo_link ''A2'' ''A1'') (demo_link ''A1'' ''A2'') 7 n n 0 ''m'' of
      (b', m1, m2) \<Rightarrow> map_of (pl_sessions b') 7 = Some (n, 0)"
    using honest_peers_link [where a = "demo_link ''A2'' ''A1''" and b = "demo_link ''A1'' ''A2''" and client = n and session = n and w = 7 and t = 0 and i = "''m''"] nonce ids mode
    by (auto split: prod.splits)
  then show ?thesis
    by (simp add: n_def split: prod.splits)
qed

end
