(* ===== verification/OfflineQueue.thy ===== *)
theory OfflineQueue
  imports Prelude Interfaces Config Messages
begin

text \<open>
  \<^verbatim>\<open>gateway/offline_queue.py\<close>: the durable outbox of a gateway, its receipt ledgers and the
  control audit. A table is a list of rows in the order of its key; \<^verbatim>\<open>AUTOINCREMENT\<close> never
  reuses an id, so \<open>q_next\<close> is the next one. Every operation is one SQLite transaction: the
  input \<open>io\<close> says whether it commits, and one that does not changes no table. A row keeps the
  message whose JSON text it stores; \<open>q_size\<close> gives the length of that text in bytes.
  Counters that an exception leaves changed are part of the returned state.
\<close>

record qrow =
  r_id :: nat
  r_message :: message
  r_created :: real
  r_retries :: nat
  r_high :: bool

record audit_row =
  au_state :: string
  au_command :: "string option"
  au_updated :: real

record oqueue =
  q_rows :: "qrow list"
  q_next :: nat
  q_receipts :: "(string \<times> string \<times> real) list"
  q_audit :: "(string \<times> audit_row) list"
  q_results :: "(string \<times> string \<times> real) list"
  q_path :: string
  q_size :: "message \<Rightarrow> nat"
  q_max_messages :: nat
  q_max_bytes :: nat
  q_reserved_messages :: nat
  q_reserved_bytes :: nat
  q_max_receipts :: nat
  q_max_results :: nat
  q_enqueued :: nat
  q_replayed :: nat
  q_rejected :: nat
  q_rejected_high :: nat
  q_rejected_normal :: nat
  q_receipt_rejected :: nat

section \<open>Priority\<close>

definition high_alerts :: "string list" where
  "high_alerts = [''SENSOR_FAULT'', ''COMMAND_DELIVERY_FAILED'', ''CONTROL_RESULT_TIMEOUT'', ''GATEWAY_FAILOVER'']"

definition high_priority :: "message \<Rightarrow> bool" where
  "high_priority m =
     (let p = m_payload m;
          evidence = (case dgetn p ''record'' of PDict r \<Rightarrow> r | _ \<Rightarrow> p)
      in m_type m = CONTROL_RESULT \<or> dgetn p ''severity'' = PStr ''CRITICAL'' \<or>
         dgetn evidence ''importance'' = PStr ''HIGH'' \<or> dgetn evidence ''severity'' = PStr ''CRITICAL'' \<or>
         dgetn evidence ''health_state'' = PStr ''FAULT'' \<or>
         (m_type m = ALERT \<and> dgetn p ''alert_type'' \<in> PStr ` set high_alerts))"

section \<open>Construction\<close>

text \<open>A reserve that is not given scales the configured one to the limit of this queue.\<close>

definition scaled_reserve :: "int option \<Rightarrow> int \<Rightarrow> int \<Rightarrow> int \<Rightarrow> int" where
  "scaled_reserve reserve limit configured configured_limit =
     (case reserve of Some r \<Rightarrow> r | None \<Rightarrow> limit * configured div configured_limit)"

text \<open>
  The \<^verbatim>\<open>offline_queue\<close> section of \<^verbatim>\<open>config/software.json\<close>: messages, payload bytes and
  the reserve of each. \<open>bytes_of\<close> is the length of \<^verbatim>\<open>to_json().encode()\<close>.
\<close>

definition default_limits :: "int \<times> int \<times> int \<times> int" where
  "default_limits = (10000, 16777216, 1000, 1677722)"

definition queue_init :: "string \<Rightarrow> (message \<Rightarrow> nat) \<Rightarrow> int option \<Rightarrow> int option \<Rightarrow> int option \<Rightarrow> int option \<Rightarrow>
    int \<Rightarrow> int \<Rightarrow> py_error + oqueue" where
  "queue_init path bytes_of mm mb rm rb receipts results =
     (let (cm, cb, crm, crb) = default_limits;
          max_m = (case mm of None \<Rightarrow> cm | Some n \<Rightarrow> n);
          max_b = (case mb of None \<Rightarrow> cb | Some n \<Rightarrow> n);
          res_m = scaled_reserve rm max_m crm cm;
          res_b = scaled_reserve rb max_b crb cb
      in if receipts < 1 then Inl (ValueErr ''receipt limit must be positive'')
         else if results < 1 then Inl (ValueErr ''result receipt limit must be positive'')
         else if max_m < 1 \<or> max_b < 1 then Inl (ValueErr ''outbox limits must be positive integers'')
         else if \<not> (0 \<le> res_m \<and> res_m < max_m \<and> 0 \<le> res_b \<and> res_b < max_b)
           then Inl (ValueErr ''invalid critical reserve'')
         else Inr \<lparr>q_rows = [], q_next = 1, q_receipts = [], q_audit = [], q_results = [], q_path = path,
           q_size = bytes_of, q_max_messages = nat max_m, q_max_bytes = nat max_b, q_reserved_messages = nat res_m,
           q_reserved_bytes = nat res_b, q_max_receipts = nat receipts, q_max_results = nat results, q_enqueued = 0,
           q_replayed = 0, q_rejected = 0, q_rejected_high = 0, q_rejected_normal = 0, q_receipt_rejected = 0\<rparr>)"

text \<open>
  \<^verbatim>\<open>connect\<close> on the file of an earlier process: the tables are those on disk, the counters
  start again, and a table without the priority column gets it computed from every payload.
\<close>

definition queue_connect :: "oqueue \<Rightarrow> bool \<Rightarrow> oqueue" where
  "queue_connect q has_priority =
     q\<lparr>q_rows := (if has_priority then q_rows q
          else map (\<lambda>r. r\<lparr>r_high := high_priority (r_message r)\<rparr>) (q_rows q)),
       q_enqueued := 0, q_replayed := 0, q_rejected := 0, q_rejected_high := 0, q_rejected_normal := 0,
       q_receipt_rejected := 0\<rparr>"

section \<open>Admission\<close>

definition q_bytes :: "oqueue \<Rightarrow> nat" where
  "q_bytes q = sum_list (map (\<lambda>r. q_size q (r_message r)) (q_rows q))"

definition row_of :: "oqueue \<Rightarrow> string \<Rightarrow> qrow option" where
  "row_of q mid = find (\<lambda>r. m_id (r_message r) = mid) (q_rows q)"

definition count_limit :: "oqueue \<Rightarrow> bool \<Rightarrow> nat" where
  "count_limit q high = (if high then q_max_messages q else q_max_messages q - q_reserved_messages q)"

definition byte_limit :: "oqueue \<Rightarrow> bool \<Rightarrow> nat" where
  "byte_limit q high = (if high then q_max_bytes q else q_max_bytes q - q_reserved_bytes q)"

definition reject :: "oqueue \<Rightarrow> bool \<Rightarrow> oqueue" where
  "reject q high =
     q\<lparr>q_rejected := Suc (q_rejected q),
       q_rejected_high := (if high then Suc (q_rejected_high q) else q_rejected_high q),
       q_rejected_normal := (if high then q_rejected_normal q else Suc (q_rejected_normal q))\<rparr>"

text \<open>\<^verbatim>\<open>_enqueue\<close>, inside an open transaction: the id of the row and whether it is new.\<close>

definition enqueue_row :: "oqueue \<Rightarrow> message \<Rightarrow> real \<Rightarrow> oqueue \<times> (py_error + nat \<times> bool)" where
  "enqueue_row q m now =
     (if \<not> json_ok (PDict (to_dict m)) then (q, Inl (ValueErr ''Out of range float values are not JSON compliant''))
      else case row_of q (m_id m) of
          Some r \<Rightarrow> (q, Inr (r_id r, False))
        | None \<Rightarrow>
            let high = high_priority m
            in if count_limit q high \<le> length (q_rows q) \<or> byte_limit q high < q_bytes q + q_size q m
               then (reject q high, Inl (CapacityErr (''outbox '' @ (if high then ''HIGH'' else ''NORMAL'') @ '' capacity full; new upload was not admitted'')))
               else (q\<lparr>q_rows := q_rows q @ [\<lparr>r_id = q_next q, r_message = m, r_created = now, r_retries = 0, r_high = high\<rparr>],
                       q_next := Suc (q_next q)\<rparr>, Inr (q_next q, True)))"

definition enqueue :: "oqueue \<Rightarrow> message \<Rightarrow> real \<Rightarrow> bool \<Rightarrow> oqueue \<times> (py_error + nat)" where
  "enqueue q m now io =
     (if \<not> io then (q, Inl StorageErr)
      else case enqueue_row q m now of
          (q', Inl e) \<Rightarrow> (q', Inl e)
        | (q', Inr (i, inserted)) \<Rightarrow> (q'\<lparr>q_enqueued := q_enqueued q' + (if inserted then 1 else 0)\<rparr>, Inr i))"

text \<open>
  \<^verbatim>\<open>rsplit('-', 2)[0] + '-'\<close>, and the largest stored identity of the range that the
  query scans, by byte order.
\<close>

definition drop_field :: "string \<Rightarrow> string" where
  "drop_field s = (if CHR ''-'' \<in> set s then rev (tl (dropWhile (\<lambda>c. c \<noteq> CHR ''-'') (rev s))) else s)"

definition fresh_prefix :: "string \<Rightarrow> string" where
  "fresh_prefix identity = drop_field (drop_field identity) @ ''-''"

definition in_range :: "string \<Rightarrow> string \<Rightarrow> bool" where
  "in_range identity k \<longleftrightarrow>
     fresh_prefix identity @ ''00000000-S'' \<le> k \<and> k \<le> fresh_prefix identity @ ''ffffffff-S''"

definition sensor_is_fresh :: "oqueue \<Rightarrow> string \<Rightarrow> bool" where
  "sensor_is_fresh q identity \<longleftrightarrow> list_all (\<lambda>k. k < identity) (filter (in_range identity) (map fst (q_receipts q)))"

definition admit_sensor :: "oqueue \<Rightarrow> message \<Rightarrow> string \<Rightarrow> string \<Rightarrow> real \<Rightarrow> bool \<Rightarrow> oqueue \<times> (py_error + bool)" where
  "admit_sensor q m identity digest now io =
     (if \<not> io then (q, Inl StorageErr)
      else case map_of (q_receipts q) identity of
          Some (d, _) \<Rightarrow>
            if d \<noteq> digest then (q, Inl (ValueErr ''sample identity reused for different evidence''))
            else (q, Inr False)
        | None \<Rightarrow>
            if q_max_receipts q \<le> length (q_receipts q)
            then (q\<lparr>q_receipt_rejected := Suc (q_receipt_rejected q)\<rparr>,
                  Inl (CapacityErr ''sensor receipt ledger full; identities retained''))
            else if row_of q identity \<noteq> None
            then (q, Inl (ValueErr ''outbox identity exists without a matching receipt''))
            else (case enqueue_row q m now of
                (q', Inl e) \<Rightarrow> (q', Inl e)
              | (q', Inr _) \<Rightarrow>
                  if map_of (q_audit q') identity \<noteq> None then (q, Inl StorageErr)
                  else (q'\<lparr>q_receipts := q_receipts q' @ [(identity, digest, now)],
                           q_audit := q_audit q' @ [(identity, \<lparr>au_state = ''RECEIVED'', au_command = None, au_updated = now\<rparr>)],
                           q_enqueued := Suc (q_enqueued q')\<rparr>, Inr True)))"

definition admit_result :: "oqueue \<Rightarrow> message \<Rightarrow> string \<Rightarrow> real \<Rightarrow> bool \<Rightarrow> oqueue \<times> (py_error + bool)" where
  "admit_result q m digest now io =
     (if \<not> io then (q, Inl StorageErr)
      else case map_of (q_results q) (m_id m) of
          Some (d, _) \<Rightarrow>
            if d \<noteq> digest then (q, Inl (ValueErr ''result identity conflict'')) else (q, Inr False)
        | None \<Rightarrow>
            if q_max_results q \<le> length (q_results q)
            then (q, Inl (CapacityErr ''result receipt ledger full''))
            else (case enqueue_row q m now of
                (q', Inl e) \<Rightarrow> (q', Inl e)
              | (q', Inr _) \<Rightarrow>
                  (q'\<lparr>q_results := q_results q' @ [(m_id m, digest, now)], q_enqueued := Suc (q_enqueued q')\<rparr>, Inr True)))"

section \<open>Audit\<close>

definition near_capacity :: "oqueue \<Rightarrow> bool" where
  "near_capacity q \<longleftrightarrow> q_max_receipts q * 4 \<le> length (q_receipts q) * 5"

definition sensor_audit :: "oqueue \<Rightarrow> string \<Rightarrow> string" where
  "sensor_audit q identity = (case map_of (q_audit q) identity of None \<Rightarrow> ''LEGACY_UNTRACKED'' | Some a \<Rightarrow> au_state a)"

definition audit_control :: "oqueue \<Rightarrow> string \<Rightarrow> string \<Rightarrow> string option \<Rightarrow> real \<Rightarrow> bool \<Rightarrow> oqueue \<times> (py_error + unit)" where
  "audit_control q identity state command now io =
     (if \<not> io then (q, Inl StorageErr)
      else case map_of (q_audit q) identity of
          None \<Rightarrow> (q, Inl (ValueErr ''control audit requires a new durable sensor receipt''))
        | Some a \<Rightarrow>
            (q\<lparr>q_audit := dset (q_audit q) identity
                 (a\<lparr>au_state := state, au_command := (if command = None then au_command a else command), au_updated := now\<rparr>)\<rparr>,
             Inr ()))"

definition audit_outcome :: "oqueue \<Rightarrow> string \<Rightarrow> string \<Rightarrow> real \<Rightarrow> bool \<Rightarrow> oqueue \<times> (py_error + unit)" where
  "audit_outcome q command state now io =
     (if \<not> io then (q, Inl StorageErr)
      else (q\<lparr>q_audit := map (\<lambda>(k, a). (k, if au_command a = Some command
                then a\<lparr>au_state := state, au_updated := now\<rparr> else a)) (q_audit q)\<rparr>, Inr ()))"

section \<open>Reading and deleting\<close>

definition peek :: "oqueue \<Rightarrow> nat \<Rightarrow> (nat \<times> message) list" where
  "peek q limit = map (\<lambda>r. (r_id r, r_message r)) (take limit (q_rows q))"

definition bump_retry :: "oqueue \<Rightarrow> nat \<Rightarrow> bool \<Rightarrow> oqueue \<times> (py_error + unit)" where
  "bump_retry q i io =
     (if \<not> io then (q, Inl StorageErr)
      else (q\<lparr>q_rows := map (\<lambda>r. if r_id r = i then r\<lparr>r_retries := Suc (r_retries r)\<rparr> else r) (q_rows q)\<rparr>, Inr ()))"

definition delete_row :: "oqueue \<Rightarrow> nat \<Rightarrow> bool \<Rightarrow> oqueue \<times> (py_error + unit)" where
  "delete_row q i io =
     (if \<not> io then (q, Inl StorageErr)
      else (q\<lparr>q_rows := filter (\<lambda>r. r_id r \<noteq> i) (q_rows q), q_replayed := Suc (q_replayed q)\<rparr>, Inr ()))"

definition receipt_stats :: "oqueue \<Rightarrow> dict" where
  "receipt_stats q =
     [(''count'', PInt (int (length (q_receipts q)))),
      (''logical_bytes'', PInt (int (sum_list (map (\<lambda>(k, d, t). length k + length d + 8) (q_receipts q))))),
      (''limit'', PInt (int (q_max_receipts q))), (''free'', PInt (int (q_max_receipts q - length (q_receipts q)))),
      (''near_capacity'', PBool (near_capacity q)), (''capacity_rejected'', PInt (int (q_receipt_rejected q)))]"

definition queue_stats :: "oqueue \<Rightarrow> real \<Rightarrow> dict" where
  "queue_stats q now =
     [(''depth'', PInt (int (length (q_rows q)))), (''payload_bytes'', PInt (int (q_bytes q))),
      (''oldest_age_s'', if q_rows q = [] then PNone
         else PFloat (Fin (max 0 (now - Min (set (map r_created (q_rows q))))))),
      (''max_messages'', PInt (int (q_max_messages q))), (''max_payload_bytes'', PInt (int (q_max_bytes q))),
      (''reserved_messages'', PInt (int (q_reserved_messages q))),
      (''reserved_payload_bytes'', PInt (int (q_reserved_bytes q))),
      (''admission_rejected'', PInt (int (q_rejected q))),
      (''admission_rejected_high'', PInt (int (q_rejected_high q))),
      (''admission_rejected_normal'', PInt (int (q_rejected_normal q))),
      (''sensor_receipts'', PDict (receipt_stats q)),
      (''result_receipts'', PDict [(''count'', PInt (int (length (q_results q)))), (''limit'', PInt (int (q_max_results q)))])]"

section \<open>Operations as steps\<close>

datatype q_op =
    QEnqueue message real bool
  | QSensor message string string real bool
  | QResult message string real bool
  | QAudit string string "string option" real bool
  | QOutcome string string real bool
  | QBump nat bool
  | QDelete nat bool
  | QConnect bool

fun q_step :: "oqueue \<Rightarrow> q_op \<Rightarrow> oqueue" where
  "q_step q (QEnqueue m now io) = fst (enqueue q m now io)"
| "q_step q (QSensor m i d now io) = fst (admit_sensor q m i d now io)"
| "q_step q (QResult m d now io) = fst (admit_result q m d now io)"
| "q_step q (QAudit i s c now io) = fst (audit_control q i s c now io)"
| "q_step q (QOutcome c s now io) = fst (audit_outcome q c s now io)"
| "q_step q (QBump i io) = fst (bump_retry q i io)"
| "q_step q (QDelete i io) = fst (delete_row q i io)"
| "q_step q (QConnect has_priority) = queue_connect q has_priority"

section \<open>The invariant\<close>

definition normal_rows :: "oqueue \<Rightarrow> qrow list" where
  "normal_rows q = filter (\<lambda>r. \<not> r_high r) (q_rows q)"

definition bytes_in :: "oqueue \<Rightarrow> qrow list \<Rightarrow> nat" where
  "bytes_in q rows = sum_list (map (\<lambda>r. q_size q (r_message r)) rows)"

definition within_limits :: "oqueue \<Rightarrow> bool" where
  "within_limits q \<longleftrightarrow> length (q_rows q) \<le> q_max_messages q \<and> q_bytes q \<le> q_max_bytes q \<and>
     length (normal_rows q) \<le> q_max_messages q - q_reserved_messages q \<and>
     bytes_in q (normal_rows q) \<le> q_max_bytes q - q_reserved_bytes q"

definition rows_ok :: "oqueue \<Rightarrow> bool" where
  "rows_ok q \<longleftrightarrow> sorted_wrt (\<lambda>a b. r_id a < r_id b) (q_rows q) \<and>
     (\<forall>r \<in> set (q_rows q). r_id r < q_next q \<and> (r_high r \<longleftrightarrow> high_priority (r_message r))) \<and>
     distinct (map (\<lambda>r. m_id (r_message r)) (q_rows q))"

definition ledger_ok :: "oqueue \<Rightarrow> bool" where
  "ledger_ok q \<longleftrightarrow> distinct (map fst (q_receipts q)) \<and> length (q_receipts q) \<le> q_max_receipts q \<and>
     map fst (q_audit q) = map fst (q_receipts q) \<and>
     distinct (map fst (q_results q)) \<and> length (q_results q) \<le> q_max_results q"

definition q_inv :: "oqueue \<Rightarrow> bool" where
  "q_inv q \<longleftrightarrow> within_limits q \<and> rows_ok q \<and> ledger_ok q"

definition q_limits :: "oqueue \<Rightarrow> nat list \<times> (message \<Rightarrow> nat)" where
  "q_limits q = ([q_max_messages q, q_max_bytes q, q_reserved_messages q, q_reserved_bytes q, q_max_receipts q,
     q_max_results q], q_size q)"

text \<open>What an insertion does to the rows: nothing, or one new row at the end within the limits.\<close>

lemma enqueue_row_cases:
  assumes "enqueue_row q m now = (q', res)"
  obtains (refused) e where "res = Inl e" "q' = q \<or> q' = reject q (high_priority m)"
    | (present) r where "res = Inr (r_id r, False)" "q' = q" "r \<in> set (q_rows q)" "m_id (r_message r) = m_id m"
    | (new) "res = Inr (q_next q, True)" "row_of q (m_id m) = None"
        "length (q_rows q) < count_limit q (high_priority m)"
        "q_bytes q + q_size q m \<le> byte_limit q (high_priority m)"
        "q' = q\<lparr>q_rows := q_rows q @ [\<lparr>r_id = q_next q, r_message = m, r_created = now, r_retries = 0,
           r_high = high_priority m\<rparr>], q_next := Suc (q_next q)\<rparr>"
proof (cases "json_ok (PDict (to_dict m))")
  case False
  then show ?thesis
    using assms refused by (auto simp: enqueue_row_def)
next
  case json: True
  show ?thesis
  proof (cases "row_of q (m_id m)")
    case (Some r)
    then have "r \<in> set (q_rows q)" "m_id (r_message r) = m_id m"
      by (auto simp: row_of_def find_Some_iff)
    then show ?thesis
      using assms json present [of r] Some by (auto simp: enqueue_row_def)
  next
    case None
    show ?thesis
    proof (cases "count_limit q (high_priority m) \<le> length (q_rows q) \<or>
        byte_limit q (high_priority m) < q_bytes q + q_size q m")
      case True
      then show ?thesis
        using assms json None refused by (auto simp: enqueue_row_def Let_def)
    next
      case False
      then show ?thesis
        using assms json None by (intro new) (simp_all add: enqueue_row_def Let_def)
    qed
  qed
qed

lemma row_of_None: "row_of q i = None \<longleftrightarrow> i \<notin> (\<lambda>r. m_id (r_message r)) ` set (q_rows q)"
  by (auto simp: row_of_def find_None_iff)

lemma q_inv_cong:
  assumes "q_rows q' = q_rows q" "q_next q' = q_next q" "q_limits q' = q_limits q" "q_inv q" "ledger_ok q'"
  shows "q_inv q'"
  using assms by (simp add: q_inv_def within_limits_def rows_ok_def q_limits_def q_bytes_def normal_rows_def bytes_in_def)

lemma q_limits_upd [simp]:
  "q_limits (q\<lparr>q_rows := a\<rparr>) = q_limits q" "q_limits (q\<lparr>q_next := b\<rparr>) = q_limits q"
  "q_limits (q\<lparr>q_receipts := c\<rparr>) = q_limits q" "q_limits (q\<lparr>q_audit := d\<rparr>) = q_limits q"
  "q_limits (q\<lparr>q_results := f\<rparr>) = q_limits q" "q_limits (q\<lparr>q_enqueued := n\<rparr>) = q_limits q"
  "q_limits (q\<lparr>q_replayed := n\<rparr>) = q_limits q" "q_limits (q\<lparr>q_receipt_rejected := n\<rparr>) = q_limits q"
  "q_limits (q\<lparr>q_rejected := n\<rparr>) = q_limits q" "q_limits (q\<lparr>q_rejected_high := n\<rparr>) = q_limits q"
  "q_limits (q\<lparr>q_rejected_normal := n\<rparr>) = q_limits q" "q_limits (reject q h) = q_limits q"
  "q_limits (queue_connect q p) = q_limits q"
  by (simp_all add: q_limits_def reject_def queue_connect_def)

lemma reject_frame [simp]:
  "q_rows (reject q h) = q_rows q" "q_next (reject q h) = q_next q" "q_receipts (reject q h) = q_receipts q"
  "q_audit (reject q h) = q_audit q" "q_results (reject q h) = q_results q"
  "q_max_receipts (reject q h) = q_max_receipts q" "q_max_results (reject q h) = q_max_results q"
  by (simp_all add: reject_def)

lemma new_row_inv:
  assumes q: "q_inv q" and none: "row_of q (m_id m) = None"
    and count: "length (q_rows q) < count_limit q (high_priority m)"
    and bytes: "q_bytes q + q_size q m \<le> byte_limit q (high_priority m)"
    and row: "r_id row = q_next q" "r_message row = m" "r_high row = high_priority m"
  shows "q_inv (q\<lparr>q_rows := q_rows q @ [row], q_next := Suc (q_next q)\<rparr>)"
proof -
  have few: "length (normal_rows q) \<le> length (q_rows q)"
    by (simp add: normal_rows_def)
  have part: "bytes_in q (normal_rows q) \<le> q_bytes q"
    unfolding bytes_in_def q_bytes_def normal_rows_def by (induction "q_rows q") (auto simp: sum_list_filter_le_nat)
  have more: "Suc (length (normal_rows q)) \<le> q_max_messages q - q_reserved_messages q" if "\<not> high_priority m"
    using few count that by (simp add: count_limit_def)
  have "within_limits (q\<lparr>q_rows := q_rows q @ [row], q_next := Suc (q_next q)\<rparr>)"
    using q count bytes row part more
    by (auto simp: q_inv_def within_limits_def normal_rows_def q_bytes_def bytes_in_def count_limit_def byte_limit_def
        split: if_splits)
  moreover have "rows_ok (q\<lparr>q_rows := q_rows q @ [row], q_next := Suc (q_next q)\<rparr>)"
    using q none row by (auto simp: q_inv_def rows_ok_def sorted_wrt_append row_of_None)
  ultimately show ?thesis
    using q by (simp add: q_inv_def ledger_ok_def)
qed

lemma enqueue_row_inv:
  assumes "enqueue_row q m now = (q', res)" "q_inv q"
  shows "q_inv q'" "q_limits q' = q_limits q" "q_receipts q' = q_receipts q" "q_audit q' = q_audit q"
    "q_results q' = q_results q"
proof -
  have led: "ledger_ok q"
    using assms(2) by (simp add: q_inv_def)
  have rej: "q_inv (reject q h)" for h
    by (rule q_inv_cong [OF _ _ _ assms(2)]) (use led in \<open>simp_all add: ledger_ok_def\<close>)
  from assms(1) show "q_inv q'"
  proof (cases rule: enqueue_row_cases)
    case new
    show ?thesis
      unfolding new(5) by (rule new_row_inv [OF assms(2) new(2-4)]) simp_all
  qed (use assms(2) rej in auto)
  from assms(1) show "q_limits q' = q_limits q"
    by (cases rule: enqueue_row_cases) auto
  from assms(1) show "q_receipts q' = q_receipts q"
    by (cases rule: enqueue_row_cases) auto
  from assms(1) show "q_audit q' = q_audit q"
    by (cases rule: enqueue_row_cases) auto
  from assms(1) show "q_results q' = q_results q"
    by (cases rule: enqueue_row_cases) auto
qed

lemma ledger_ok_enqueued [simp]: "ledger_ok (q\<lparr>q_enqueued := n\<rparr>) = ledger_ok q"
  by (simp add: ledger_ok_def)

lemma q_inv_enqueued [simp]: "q_inv (q\<lparr>q_enqueued := n\<rparr>) = q_inv q"
  by (simp add: q_inv_def within_limits_def rows_ok_def q_bytes_def normal_rows_def bytes_in_def)

lemma enqueue_inv:
  assumes "q_inv q"
  shows "q_inv (fst (enqueue q m now io)) \<and> q_limits (fst (enqueue q m now io)) = q_limits q"
  using assms by (auto simp: enqueue_def dest: enqueue_row_inv split: prod.split sum.split)

lemma admit_sensor_inv:
  assumes "q_inv q"
  shows "q_inv (fst (admit_sensor q m i d now io)) \<and> q_limits (fst (admit_sensor q m i d now io)) = q_limits q"
proof -
  have full: "q_inv (q\<lparr>q_receipt_rejected := n\<rparr>)" for n
    using assms by (rule q_inv_cong [rotated 3]) (use assms in \<open>auto simp: q_inv_def ledger_ok_def\<close>)
  have new: "q_inv (q'\<lparr>q_receipts := q_receipts q' @ [(i, d, now)], q_audit := q_audit q' @ [(i, a)], q_enqueued := n\<rparr>)"
    if "enqueue_row q m now = (q', res)" "length (q_receipts q) < q_max_receipts q" "map_of (q_receipts q) i = None"
    for q' res a n
  proof (rule q_inv_cong [OF _ _ _ enqueue_row_inv(1) [OF that(1) assms]])
    have "q_max_receipts q' = q_max_receipts q" "q_max_results q' = q_max_results q"
      using enqueue_row_inv(2) [OF that(1) assms] by (auto simp: q_limits_def)
    then show "ledger_ok (q'\<lparr>q_receipts := q_receipts q' @ [(i, d, now)], q_audit := q_audit q' @ [(i, a)], q_enqueued := n\<rparr>)"
      using enqueue_row_inv(3-5) [OF that(1) assms] that(2, 3) assms
      by (auto simp: q_inv_def ledger_ok_def map_of_eq_None_iff)
  qed simp_all
  show ?thesis
  proof (cases "enqueue_row q m now")
    case (Pair q' res)
    then show ?thesis
      using assms full new [OF Pair] enqueue_row_inv [OF Pair assms]
      by (simp add: admit_sensor_def not_le split: option.split sum.split prod.split)
  qed
qed

lemma admit_result_inv:
  assumes "q_inv q"
  shows "q_inv (fst (admit_result q m d now io)) \<and> q_limits (fst (admit_result q m d now io)) = q_limits q"
proof (cases "enqueue_row q m now")
  case (Pair q' res)
  have new: "q_inv (q'\<lparr>q_results := q_results q' @ [(m_id m, d, now)], q_enqueued := n\<rparr>)"
    if "length (q_results q) < q_max_results q" "map_of (q_results q) (m_id m) = None" for n
  proof (rule q_inv_cong [OF _ _ _ enqueue_row_inv(1) [OF Pair assms]])
    have "q_max_receipts q' = q_max_receipts q" "q_max_results q' = q_max_results q"
      using enqueue_row_inv(2) [OF Pair assms] by (auto simp: q_limits_def)
    then show "ledger_ok (q'\<lparr>q_results := q_results q' @ [(m_id m, d, now)], q_enqueued := n\<rparr>)"
      using enqueue_row_inv(3-5) [OF Pair assms] that assms
      by (auto simp: q_inv_def ledger_ok_def map_of_eq_None_iff)
  qed simp_all
  then show ?thesis
    using Pair assms enqueue_row_inv [OF Pair assms]
    by (simp add: admit_result_def not_le split: option.split sum.split prod.split)
qed

lemma keys_map_values [simp]: "map fst (map (\<lambda>(k, a). (k, f a)) d) = map fst d"
  by (induction d) auto

lemma audit_inv:
  assumes "q_inv q"
  shows "q_inv (fst (audit_control q i s c now io)) \<and> q_limits (fst (audit_control q i s c now io)) = q_limits q"
    and "q_inv (fst (audit_outcome q cmd s now io)) \<and> q_limits (fst (audit_outcome q cmd s now io)) = q_limits q"
proof -
  have upd: "q_inv (q\<lparr>q_audit := d\<rparr>)" if "map fst d = map fst (q_audit q)" for d
    by (rule q_inv_cong [OF _ _ _ assms]) (use that assms in \<open>auto simp: q_inv_def ledger_ok_def\<close>)
  show "q_inv (fst (audit_control q i s c now io)) \<and> q_limits (fst (audit_control q i s c now io)) = q_limits q"
    using assms upd by (auto simp: audit_control_def keys_dset_present split: option.split)
  show "q_inv (fst (audit_outcome q cmd s now io)) \<and> q_limits (fst (audit_outcome q cmd s now io)) = q_limits q"
    using assms upd [OF keys_map_values] by (auto simp: audit_outcome_def)
qed

lemma subset_rows_inv:
  assumes q: "q_inv q" and r: "q_rows q' = filter P (q_rows q)" and lim: "q_limits q' = q_limits q"
    and n: "q_next q' = q_next q" and led: "ledger_ok q'"
  shows "q_inv q'"
proof -
  have le: "length (filter P xs) \<le> length xs" "bytes_in q (filter P xs) \<le> bytes_in q xs" for xs
    by (simp, induction xs) (auto simp: bytes_in_def)
  have eq: "q_size q' = q_size q" "q_max_messages q' = q_max_messages q" "q_max_bytes q' = q_max_bytes q"
    "q_reserved_messages q' = q_reserved_messages q" "q_reserved_bytes q' = q_reserved_bytes q"
    using lim by (auto simp: q_limits_def)
  have norm: "normal_rows q' = filter P (normal_rows q)"
    by (simp add: normal_rows_def r conj_commute)
  have "within_limits q'"
    using q le(1) [of "q_rows q"] le(1) [of "normal_rows q"] le(2) [of "q_rows q"] le(2) [of "normal_rows q"]
    unfolding q_inv_def within_limits_def norm q_bytes_def r eq bytes_in_def by linarith
  moreover have "rows_ok q'"
    using q by (auto simp: q_inv_def rows_ok_def r n sorted_wrt_filter distinct_map_filter)
  ultimately show ?thesis
    using led by (simp add: q_inv_def)
qed

lemma map_rows_inv:
  assumes q: "q_inv q" and r: "q_rows q' = map f (q_rows q)" and lim: "q_limits q' = q_limits q"
    and n: "q_next q' = q_next q" and led: "ledger_ok q'"
    and f: "\<forall>r \<in> set (q_rows q). r_id (f r) = r_id r \<and> r_message (f r) = r_message r \<and> r_high (f r) = r_high r"
  shows "q_inv q'"
proof -
  have eq: "q_size q' = q_size q" "q_max_messages q' = q_max_messages q" "q_max_bytes q' = q_max_bytes q"
    "q_reserved_messages q' = q_reserved_messages q" "q_reserved_bytes q' = q_reserved_bytes q"
    using lim by (auto simp: q_limits_def)
  have "normal_rows q' = map f (normal_rows q)"
    unfolding normal_rows_def r filter_map comp_def
    by (rule arg_cong [where f = "map f"], rule filter_cong) (use f in auto)
  moreover have "bytes_in q (map f xs) = bytes_in q xs" if "set xs \<subseteq> set (q_rows q)" for xs
    using f that unfolding bytes_in_def by (induction xs) auto
  then have "bytes_in q (map f (normal_rows q)) = bytes_in q (normal_rows q)"
    "bytes_in q (map f (q_rows q)) = bytes_in q (q_rows q)"
    by (auto simp: normal_rows_def)
  ultimately have "within_limits q'"
    using q by (simp add: q_inv_def within_limits_def q_bytes_def r eq bytes_in_def)
  moreover have "rows_ok q'"
  proof -
    have "sorted_wrt (\<lambda>a b. r_id (f a) < r_id (f b)) (q_rows q)"
      by (rule sorted_wrt_mono_rel [of _ "\<lambda>a b. r_id a < r_id b"]) (use q f in \<open>auto simp: q_inv_def rows_ok_def\<close>)
    moreover have ids: "map (\<lambda>a. m_id (r_message (f a))) (q_rows q) = map (\<lambda>a. m_id (r_message a)) (q_rows q)"
      by (rule map_cong) (use f in auto)
    have "distinct (map (\<lambda>a. m_id (r_message (f a))) (q_rows q))"
      unfolding ids using q by (simp add: q_inv_def rows_ok_def)
    ultimately show ?thesis
      using q f by (simp add: q_inv_def rows_ok_def r n sorted_wrt_map comp_def)
  qed
  ultimately show ?thesis
    using led by (simp add: q_inv_def)
qed

lemma q_step_inv: "q_inv q \<Longrightarrow> q_inv (q_step q op) \<and> q_limits (q_step q op) = q_limits q"
proof (cases op)
  case (QBump i io)
  assume q: "q_inv q"
  have "q_inv (q\<lparr>q_rows := map (\<lambda>r. if r_id r = i then r\<lparr>r_retries := Suc (r_retries r)\<rparr> else r) (q_rows q)\<rparr>)"
    by (rule map_rows_inv [OF q, where f = "\<lambda>r. if r_id r = i then r\<lparr>r_retries := Suc (r_retries r)\<rparr> else r"])
      (use q in \<open>auto simp: q_inv_def ledger_ok_def\<close>)
  with QBump q show ?thesis by (simp add: bump_retry_def)
next
  case (QDelete i io)
  assume q: "q_inv q"
  have "q_inv (q\<lparr>q_rows := filter (\<lambda>r. r_id r \<noteq> i) (q_rows q), q_replayed := n\<rparr>)" for n
    by (rule subset_rows_inv [OF q]) (use q in \<open>auto simp: q_inv_def ledger_ok_def\<close>)
  with QDelete q show ?thesis by (simp add: delete_row_def)
next
  case (QConnect p)
  assume q: "q_inv q"
  have "q_inv (queue_connect q p)"
    by (rule map_rows_inv [OF q, where f = "\<lambda>r. if p then r else r\<lparr>r_high := high_priority (r_message r)\<rparr>"])
      (use q in \<open>auto simp: q_inv_def ledger_ok_def rows_ok_def queue_connect_def\<close>)
  with QConnect show ?thesis by simp
qed (auto simp: enqueue_inv admit_sensor_inv admit_result_inv audit_inv simp del: split_paired_All)

lemma queue_init_inv: "queue_init path bytes_of mm mb rm rb rs rr = Inr q \<Longrightarrow> q_inv q"
  by (auto simp: queue_init_def Let_def q_inv_def within_limits_def rows_ok_def ledger_ok_def q_bytes_def
      normal_rows_def bytes_in_def default_limits_def split: if_splits)

lemma q_step_limits:
  assumes "q_inv q"
  shows "q_max_messages (q_step q op) = q_max_messages q" "q_max_bytes (q_step q op) = q_max_bytes q"
    "q_reserved_messages (q_step q op) = q_reserved_messages q" "q_reserved_bytes (q_step q op) = q_reserved_bytes q"
    "q_max_receipts (q_step q op) = q_max_receipts q" "q_max_results (q_step q op) = q_max_results q"
  using q_step_inv [OF assms, of op] by (auto simp: q_limits_def)

lemma q_inv_bounds:
  assumes "q_inv q"
  shows "length (q_rows q) \<le> q_max_messages q" "q_bytes q \<le> q_max_bytes q"
    "length (normal_rows q) \<le> q_max_messages q - q_reserved_messages q"
    "bytes_in q (normal_rows q) \<le> q_max_bytes q - q_reserved_bytes q"
    "length (q_receipts q) \<le> q_max_receipts q"
  using assms by (auto simp: q_inv_def within_limits_def ledger_ok_def)

text \<open>The outbox as a bounded store, by rows, by bytes, and for the share of normal traffic.\<close>

interpretation outbox: bounded_store "\<lambda>q. length (q_rows q)" q_max_messages q_inv q_step
  by unfold_locales (simp_all add: q_step_inv q_step_limits q_inv_bounds)

interpretation outbox_bytes: bounded_store q_bytes q_max_bytes q_inv q_step
  by unfold_locales (simp_all add: q_step_inv q_step_limits q_inv_bounds)

interpretation normal_share: bounded_store "\<lambda>q. length (normal_rows q)"
  "\<lambda>q. q_max_messages q - q_reserved_messages q" q_inv q_step
  by unfold_locales (simp_all add: q_step_inv q_step_limits q_inv_bounds)

interpretation normal_bytes: bounded_store "\<lambda>q. bytes_in q (normal_rows q)"
  "\<lambda>q. q_max_bytes q - q_reserved_bytes q" q_inv q_step
  by unfold_locales (simp_all add: q_step_inv q_step_limits q_inv_bounds)

interpretation receipts: bounded_store "\<lambda>q. length (q_receipts q)" q_max_receipts q_inv q_step
  by unfold_locales (simp_all add: q_step_inv q_step_limits q_inv_bounds)

text \<open>
  C11: whatever operations a gateway applies to its outbox, restarts and failed commits
  included, the stored messages stay within the count and byte limits it was opened with, and
  the messages of normal priority never take any of the share that is reserved for critical
  ones.
\<close>

theorem outbox_reserve_kept:
  assumes "queue_init path bytes_of mm mb rm rb rs rr = Inr q"
  shows "length (q_rows (run q_step q ops)) \<le> q_max_messages q \<and>
    q_bytes (run q_step q ops) \<le> q_max_bytes q \<and>
    length (normal_rows (run q_step q ops)) \<le> q_max_messages q - q_reserved_messages q \<and>
    bytes_in (run q_step q ops) (normal_rows (run q_step q ops)) \<le> q_max_bytes q - q_reserved_bytes q"
  using queue_init_inv [OF assms]
  by (intro conjI outbox.used_run outbox_bytes.used_run normal_share.used_run normal_bytes.used_run)

definition demo_queue :: oqueue where
  [model_defs]: "demo_queue =
     \<lparr>q_rows = [], q_next = 1, q_receipts = [], q_audit = [], q_results = [], q_path = ''queue.db'',
      q_size = (\<lambda>m. 100), q_max_messages = 3, q_max_bytes = 1000, q_reserved_messages = 1,
      q_reserved_bytes = 100, q_max_receipts = 2, q_max_results = 2, q_enqueued = 0,
      q_replayed = 0, q_rejected = 0, q_rejected_high = 0, q_rejected_normal = 0, q_receipt_rejected = 0\<rparr>"

lemma demo_queue_init:
  "queue_init ''queue.db'' (\<lambda>m. 100) (Some 3) (Some 1000) (Some 1) (Some 100) 2 2 = Inr demo_queue"
  by (simp add: queue_init_def Let_def default_limits_def scaled_reserve_def demo_queue_def)

definition demo_upload :: "string \<Rightarrow> message" where
  [model_defs]: "demo_upload i = new_message SENSOR_DATA ''A1'' ''server'' [] 0 i"

theorem outbox_reserve_kept_witness:
  "length (q_rows (run q_step demo_queue [QEnqueue (demo_upload ''a'') 0 True, QEnqueue (demo_upload ''b'') 1 True,
     QConnect True, QEnqueue (demo_upload ''c'') 2 True])) \<le> 3"
  by (rule outbox_reserve_kept [OF demo_queue_init, THEN conjunct1, THEN le_trans]) (simp add: demo_queue_def)

section \<open>Sensor admission\<close>

definition admits :: "oqueue \<Rightarrow> q_op \<Rightarrow> bool \<times> oqueue" where
  "admits q op = ((case op of QSensor m i d now io \<Rightarrow> snd (admit_sensor q m i d now io) = Inr True | _ \<Rightarrow> False), q_step q op)"

definition receipt_of :: "q_op \<Rightarrow> string" where
  "receipt_of op = (case op of QSensor m i d now io \<Rightarrow> i | _ \<Rightarrow> [])"

definition has_receipt :: "oqueue \<Rightarrow> string \<Rightarrow> bool" where
  "has_receipt q i \<longleftrightarrow> i \<in> set (map fst (q_receipts q))"

lemma enqueue_row_tables:
  "enqueue_row q m now = (q', res) \<Longrightarrow> q_receipts q' = q_receipts q \<and> q_audit q' = q_audit q \<and> q_results q' = q_results q"
  by (erule enqueue_row_cases) auto

lemma admit_sensor_cases:
  assumes "admit_sensor q m i d now io = (q', res)"
  obtains (unchanged) "res \<noteq> Inr True" "q_rows q' = q_rows q" "q_receipts q' = q_receipts q" "q_audit q' = q_audit q"
      "q_results q' = q_results q"
    | (new) "res = Inr True" "\<not> has_receipt q i" "q_receipts q' = q_receipts q @ [(i, d, now)]"
        "row_of q' (m_id m) \<noteq> None" "map_of (q_audit q) i = None"
        "q_audit q' = q_audit q @ [(i, \<lparr>au_state = ''RECEIVED'', au_command = None, au_updated = now\<rparr>)]"
proof (cases "res = Inr True")
  case True
  then have none: "map_of (q_receipts q) i = None" and io: io
    using assms by (auto simp: admit_sensor_def split: if_splits option.splits)
  obtain q1 res1 where row: "enqueue_row q m now = (q1, res1)"
    by fastforce
  with True assms none io obtain x where x: "res1 = Inr x" and aud: "map_of (q_audit q1) i = None"
    and q': "q' = q1\<lparr>q_receipts := q_receipts q1 @ [(i, d, now)],
      q_audit := q_audit q1 @ [(i, \<lparr>au_state = ''RECEIVED'', au_command = None, au_updated = now\<rparr>)],
      q_enqueued := Suc (q_enqueued q1)\<rparr>"
    by (auto simp: admit_sensor_def split: if_splits sum.splits option.splits)
  have "row_of q1 (m_id m) \<noteq> None"
    using row x by (cases rule: enqueue_row_cases) (auto simp: row_of_def find_None_iff)
  then show ?thesis
    using True none aud enqueue_row_tables [OF row] q'
    by (intro new) (auto simp: has_receipt_def map_of_eq_None_iff row_of_def)
next
  case False
  obtain q1 res1 where row: "enqueue_row q m now = (q1, res1)"
    by fastforce
  moreover have "q_rows q1 = q_rows q" if "res1 = Inl e" for e
    using row that by (cases rule: enqueue_row_cases) auto
  ultimately show ?thesis
    using False assms enqueue_row_tables [OF row]
    by (intro unchanged) (auto simp: admit_sensor_def split: if_splits sum.splits option.splits prod.splits)
qed

lemma receipts_step: "has_receipt q i \<Longrightarrow> has_receipt (q_step q op) i"
proof (cases op)
  case (QEnqueue m now io)
  assume "has_receipt q i"
  moreover obtain q' res where "enqueue_row q m now = (q', res)" by fastforce
  ultimately show ?thesis
    using QEnqueue enqueue_row_tables [of q m now]
    by (auto simp: enqueue_def has_receipt_def split: prod.split sum.split)
next
  case (QSensor m j d now io)
  assume "has_receipt q i"
  moreover obtain q' res where "admit_sensor q m j d now io = (q', res)" by fastforce
  ultimately show ?thesis
    using QSensor by (auto simp: has_receipt_def elim!: admit_sensor_cases)
next
  case (QResult m d now io)
  assume "has_receipt q i"
  moreover obtain q' res where "enqueue_row q m now = (q', res)" by fastforce
  ultimately show ?thesis
    using QResult enqueue_row_tables [of q m now]
    by (auto simp: admit_result_def has_receipt_def split: prod.split sum.split option.split)
qed (auto simp: has_receipt_def audit_control_def audit_outcome_def bump_retry_def delete_row_def queue_connect_def
    split: option.split)

interpretation sensor_once: admit_once has_receipt receipt_of admits
proof
  fix q op i
  show "fst (admits q op) \<Longrightarrow> \<not> has_receipt q (receipt_of op)"
    by (cases op) (auto simp: admits_def receipt_of_def admit_sensor_def has_receipt_def map_of_eq_None_iff
        split: if_splits option.splits)
  show "fst (admits q op) \<Longrightarrow> has_receipt (snd (admits q op)) (receipt_of op)"
  proof (cases op)
    case (QSensor m j d now io)
    assume "fst (admits q op)"
    moreover obtain q' res where "admit_sensor q m j d now io = (q', res)" by fastforce
    ultimately show ?thesis
      using QSensor by (auto simp: admits_def receipt_of_def has_receipt_def elim!: admit_sensor_cases)
  qed (auto simp: admits_def)
  show "has_receipt q i \<Longrightarrow> has_receipt (snd (admits q op)) i"
    by (simp add: admits_def receipts_step)
qed

text \<open>
  C10: every sample identity is admitted at most once, over any sequence of outbox operations
  from any state: retries, deliveries that delete the outbox row, restarts and failed commits
  do not open a second admission.
\<close>

theorem sample_admitted_once:
  "distinct (map receipt_of (admitted admits q ops))"
  by (rule sensor_once.distinct_admitted)

text \<open>
  an admission is one transaction: either the receipt, the audit record in state RECEIVED
  and an outbox row with the message exist afterwards and neither receipt nor audit existed
  before, or no table has changed.
\<close>

theorem admission_is_atomic:
  "case admit_sensor q m i d now io of
     (q', res) \<Rightarrow>
       if res = Inr True
       then \<not> has_receipt q i \<and> q_receipts q' = q_receipts q @ [(i, d, now)] \<and>
         row_of q' (m_id m) \<noteq> None \<and> sensor_audit q i = ''LEGACY_UNTRACKED'' \<and> sensor_audit q' i = ''RECEIVED''
       else q_rows q' = q_rows q \<and> q_receipts q' = q_receipts q \<and> q_audit q' = q_audit q \<and> q_results q' = q_results q"
proof -
  obtain q' res where r: "admit_sensor q m i d now io = (q', res)" by fastforce
  then show ?thesis
    by (cases rule: admit_sensor_cases) (auto simp: r sensor_audit_def map_add_def)
qed

section \<open>Stored messages stay until they are deleted\<close>

text \<open>The row with an id, as the message it stores; its retry counter may change.\<close>

definition stored :: "oqueue \<Rightarrow> nat \<Rightarrow> message option" where
  "stored q i = map_option r_message (find (\<lambda>r. r_id r = i) (q_rows q))"

definition deletes :: "nat \<Rightarrow> q_op \<Rightarrow> bool" where
  "deletes i op = (case op of QDelete j io \<Rightarrow> j = i \<and> io | _ \<Rightarrow> False)"

lemma find_map:
  "\<forall>r. r_id (f r) = r_id r \<and> r_message (f r) = r_message r \<Longrightarrow>
     map_option r_message (find (\<lambda>r. r_id r = i) (map f rs)) = map_option r_message (find (\<lambda>r. r_id r = i) rs)"
  by (induction rs) auto

lemma stored_map: "\<forall>r. r_id (f r) = r_id r \<and> r_message (f r) = r_message r \<Longrightarrow>
    q_rows q' = map f (q_rows q) \<Longrightarrow> stored q' i = stored q i"
  by (simp add: stored_def find_map)

lemma stored_find_filter: "j \<noteq> i \<Longrightarrow> find (\<lambda>r. r_id r = i) (filter (\<lambda>r. r_id r \<noteq> j) rs) = find (\<lambda>r. r_id r = i) rs"
  by (induction rs) auto

lemma find_append: "find P (xs @ ys) = (case find P xs of None \<Rightarrow> find P ys | Some x \<Rightarrow> Some x)"
  by (induction xs) auto

lemma enqueue_row_stored:
  "enqueue_row q m now = (q', res) \<Longrightarrow> stored q i = Some m' \<Longrightarrow> stored q' i = Some m'"
  by (erule enqueue_row_cases) (auto simp: stored_def find_append)

lemma stored_step:
  assumes "stored q i = Some m'" "\<not> deletes i op"
  shows "stored (q_step q op) i = Some m'"
proof (cases op)
  case (QEnqueue m now io)
  obtain q1 res where "enqueue_row q m now = (q1, res)" by fastforce
  with QEnqueue assms enqueue_row_stored [OF this assms(1)] show ?thesis
    by (auto simp: enqueue_def stored_def split: sum.split)
next
  case (QSensor m j d now io)
  obtain q1 res where "enqueue_row q m now = (q1, res)" by fastforce
  with QSensor assms enqueue_row_stored [OF this assms(1)] show ?thesis
    by (auto simp: admit_sensor_def stored_def split: sum.split option.split)
next
  case (QResult m d now io)
  obtain q1 res where "enqueue_row q m now = (q1, res)" by fastforce
  with QResult assms enqueue_row_stored [OF this assms(1)] show ?thesis
    by (auto simp: admit_result_def stored_def split: sum.split option.split)
next
  case (QBump j io)
  have "stored (q\<lparr>q_rows := map (\<lambda>r. if r_id r = j then r\<lparr>r_retries := Suc (r_retries r)\<rparr> else r) (q_rows q)\<rparr>) i = stored q i"
    by (rule stored_map [of "\<lambda>r. if r_id r = j then r\<lparr>r_retries := Suc (r_retries r)\<rparr> else r"]) auto
  with QBump assms show ?thesis by (simp add: bump_retry_def)
next
  case (QDelete j io)
  with assms show ?thesis
    by (auto simp: delete_row_def stored_def stored_find_filter deletes_def)
next
  case (QConnect p)
  have "stored (queue_connect q p) i = stored q i"
    by (rule stored_map [of "\<lambda>r. if p then r else r\<lparr>r_high := high_priority (r_message r)\<rparr>"])
      (auto simp: queue_connect_def)
  with QConnect assms show ?thesis by simp
qed (use assms in \<open>auto simp: audit_control_def audit_outcome_def stored_def split: option.split\<close>)

lemma stored_run:
  "stored q i = Some m \<Longrightarrow> list_all (\<lambda>op. \<not> deletes i op) ops \<Longrightarrow> stored (run q_step q ops) i = Some m"
  by (induction ops arbitrary: q) (auto intro: stored_step)

text \<open>
  nothing but its own deletion removes a message from the outbox: while no committed
  delete names its row, the row keeps its id and its message over any operations, full
  capacity, failed commits and restarts included, and \<^verbatim>\<open>peek\<close> gives the rows in the order
  of their ids.
\<close>

theorem unacknowledged_row_survives:
  assumes "queue_init path bytes_of mm mb rm rb rs rr = Inr q0"
    and "stored (run q_step q0 before) i = Some m"
    and "list_all (\<lambda>op. \<not> deletes i op) later"
  shows "stored (run q_step q0 (before @ later)) i = Some m \<and>
    sorted_wrt (<) (map fst (peek (run q_step q0 (before @ later)) limit))"
proof -
  have "rows_ok (run q_step q0 (before @ later))"
    using outbox.inv_run [OF queue_init_inv [OF assms(1)]] by (simp add: q_inv_def)
  then have "sorted_wrt (<) (map fst (peek (run q_step q0 (before @ later)) limit))"
    by (simp add: rows_ok_def peek_def sorted_wrt_map comp_def sorted_wrt_take)
  then show ?thesis
    using stored_run [OF assms(2, 3)] by (simp add: run_append)
qed

lemma demo_first_row:
  "stored (run q_step demo_queue [QEnqueue (demo_upload ''a'') 0 True]) 1 = Some (demo_upload ''a'')"
  by (simp add: enqueue_def enqueue_row_def Let_def demo_queue_def demo_upload_def new_message_def to_dict_def
      opt_entry_def row_of_def count_limit_def byte_limit_def q_bytes_def high_priority_def dgetn_def stored_def json_ok_PDict)

theorem unacknowledged_row_survives_witness:
  "stored (run q_step demo_queue [QEnqueue (demo_upload ''a'') 0 True, QDelete 1 False, QConnect False, QDelete 2 True]) 1
     = Some (demo_upload ''a'')"
  using unacknowledged_row_survives [OF demo_queue_init demo_first_row, of "[QDelete 1 False, QConnect False, QDelete 2 True]"]
  by (simp add: deletes_def)

end
