(* ===== verification/Validation.thy ===== *)
theory Validation
  imports Prelude Config Messages
begin

text \<open>
  \<^verbatim>\<open>server/validation.py\<close>: what the cloud server accepts as an upload. A gateway runs the same
  check on a result before it promises to keep it.
\<close>

section \<open>Validation\<close>

definition STATUSES :: "string list" where
  "STATUSES = [''EXECUTED'', ''REJECTED'', ''DUPLICATE'', ''UNKNOWN'', ''NOT_DISPATCHED'']"

definition require :: "bool \<Rightarrow> string \<Rightarrow> py_error option" where
  "require condition reason = (if condition then None else Some (MessageErr reason))"

text \<open>\<^verbatim>\<open>str.strip\<close> on one-byte characters.\<close>

definition blank :: "char \<Rightarrow> bool" where
  "blank c \<longleftrightarrow> (of_char c :: nat) \<in> set [9, 10, 11, 12, 13, 28, 29, 30, 31, 32, 133, 160]"

definition text_ok :: "pyval \<Rightarrow> bool" where
  "text_ok v = (case v of PStr s \<Rightarrow> \<not> list_all blank s \<and> s \<noteq> ''?'' | _ \<Rightarrow> False)"

text \<open>\<^verbatim>\<open>value in dictionary\<close> raises for an unhashable value.\<close>

definition require_key :: "pyval \<Rightarrow> (string \<times> 'a) list \<Rightarrow> string \<Rightarrow> py_error option" where
  "require_key v d reason =
     (if \<not> hashable v then Some (TypeErr ''unhashable type'') else require (is_str v \<and> dhas d (str_of v)) reason)"

text \<open>Checks run in order up to the first that raises.\<close>

definition first_of :: "py_error option list \<Rightarrow> py_error option" where
  "first_of es = (case List.map_filter id es of [] \<Rightarrow> None | e # _ \<Rightarrow> Some e)"

definition one_of :: "pyval \<Rightarrow> string list \<Rightarrow> bool" where
  "one_of v names \<longleftrightarrow> is_str v \<and> str_of v \<in> set names"

definition CHANNEL_FIELDS :: "string list" where
  "CHANNEL_FIELDS = [''temperature'', ''humidity'', ''soil_moisture'', ''light'']"

definition sensor_check :: "message \<Rightarrow> py_error option" where
  "sensor_check m =
     (case dgetn (m_payload m) ''record'' of
        PDict r \<Rightarrow> first_of
          ([require_key (dgetn r ''sensor_node_id'') GATEWAY_OF_SENSOR ''invalid sensor_node_id'',
            require (number (dgetd r ''timestamp'' (PFloat (Fin (m_timestamp m))))) ''invalid sensor timestamp'',
            require (one_of (dgetd r ''health_state'' (PStr ''HEALTHY'')) [''HEALTHY'', ''DEGRADED'', ''FAULT'']) ''invalid health state'',
            require (list_ex (\<lambda>k. dhas r k) CHANNEL_FIELDS) ''sensor record has no channels'']
           @ map (\<lambda>k. require (dhas r k \<longrightarrow> dgetn r k = PNone \<or> number (dgetn r k)) (''invalid sensor field '' @ k)) CHANNEL_FIELDS
           @ [if json_ok (PDict r) then None else Some (ValueErr ''Out of range float values are not JSON compliant'')])
      | _ \<Rightarrow> Some (MessageErr ''record must be object''))"

definition command_check :: "dict \<Rightarrow> py_error option" where
  "command_check p = first_of
     [require (text_ok (dgetn p ''command_id'')) ''invalid command_id'',
      require_key (dgetn p ''controller_id'') GATEWAY_OF_CONTROLLER ''invalid controller_id'',
      require (one_of (dgetn p ''type'') (map fst MAX_DURATION)) ''invalid command type'',
      require (number (dgetn p ''duration'') \<and> 0 < num_of (dgetn p ''duration'')) ''invalid duration'',
      require (integer (dgetn p ''gateway_generation'') 0) ''invalid command generation'']"

definition result_check :: "dict \<Rightarrow> py_error option" where
  "result_check p =
     (let status = dgetn p ''status'' in first_of
     [require (text_ok (dgetn p ''command_id'')) ''invalid result command_id'',
      require_key (dgetn p ''controller_id'') GATEWAY_OF_CONTROLLER ''invalid result controller_id'',
      require (one_of status STATUSES) ''invalid result status'',
      require (integer (dgetn p ''generation'') 0) ''invalid result generation'',
      require (one_of status [''EXECUTED'', ''DUPLICATE'', ''NOT_DISPATCHED''] \<or> dgetn p ''command_type'' \<noteq> PNone \<longrightarrow>
        one_of (dgetn p ''command_type'') (map fst MAX_DURATION)) ''invalid result command_type'',
      require (dgetn p ''reason'' = PNone \<or> is_str (dgetn p ''reason'')) ''invalid result reason'',
      require (one_of status [''REJECTED'', ''NOT_DISPATCHED'', ''UNKNOWN''] \<longrightarrow> text_ok (dgetn p ''reason'')) ''failure requires reason''])"

definition alert_check :: "dict \<Rightarrow> py_error option" where
  "alert_check p = first_of
     [require (text_ok (dgetn p ''alert_type'')) ''invalid alert_type'',
      require (text_ok (dgetn p ''message'')) ''invalid alert message'',
      if dhas p ''sensor_node_id'' then require_key (dgetn p ''sensor_node_id'') GATEWAY_OF_SENSOR ''invalid alert sensor_node_id'' else None,
      if json_ok (PDict p) then None else Some (ValueErr ''Out of range float values are not JSON compliant'')]"

definition heartbeat_check :: "message \<Rightarrow> py_error option" where
  "heartbeat_check m =
     (let p = m_payload m; states = [''ONLINE'', ''OFFLINE'', ''UNKNOWN''] in first_of
     [require (dgetn p ''gateway_id'' = PStr (m_source m)) ''invalid heartbeat gateway'',
      require (one_of (dgetn p ''status'') states) ''invalid heartbeat status'',
      (case map_of PEER_OF (m_source m) of
         None \<Rightarrow> Some KeyErr
       | Some peer \<Rightarrow> require (dgetn p ''peer_id'' = PStr peer) ''invalid heartbeat peer''),
      require (one_of (dgetn p ''peer_status'') states) ''invalid peer_status'',
      require (dhas p ''generation'' \<longrightarrow> integer (dgetn p ''generation'') 0) ''invalid heartbeat generation'',
      require (dhas p ''role'' \<longrightarrow> one_of (dgetn p ''role'') [''ACTIVE'', ''STANDBY'']) ''invalid heartbeat role''])"

definition validate_server_upload :: "message \<Rightarrow> py_error option" where
  "validate_server_upload m =
     (case from_dict (PDict (to_dict m)) of
        Inl e \<Rightarrow> Some e
      | Inr _ \<Rightarrow>
          if \<not> (dhas GATEWAY_PORTS (m_source m) \<and> m_target m = ''SERVER'') then Some (MessageErr ''invalid upload route'')
          else (case m_type m of
              SENSOR_DATA \<Rightarrow> sensor_check m
            | CONTROL_COMMAND \<Rightarrow> command_check (m_payload m)
            | CONTROL_RESULT \<Rightarrow> result_check (m_payload m)
            | ALERT \<Rightarrow> alert_check (m_payload m)
            | HEARTBEAT \<Rightarrow> heartbeat_check m
            | ACK \<Rightarrow> require (text_ok (dgetn (m_payload m) ''ack_message_id'')) ''invalid policy ACK''
            | _ \<Rightarrow> Some (MessageErr ''not a server upload'')))"

end
