(* ===== verification/Dispatch.thy ===== *)
theory Dispatch
  imports Protocol Links PeerLink Reliability Failover OfflineQueue SensorPipeline EdgeDecision Validation RecentCommands
begin

text \<open>
  The gateway of \<^verbatim>\<open>gateway/gateway.py\<close>: uploads and the durable fallback, the dispatch of
  commands, the retry scan, results of the controllers, and the replay of the outbox with its
  receipts. The state is that of one \<^verbatim>\<open>Gateway\<close>; sockets are numbers. Clock readings, fresh
  message ids, storage outcomes and whether a frame could be written are inputs; frames written to
  sockets are outputs. The replay task is a state machine with one step per suspension point, so that
  receipts, uploads and lost connections may come in between.
\<close>

section \<open>State\<close>

record receipt_wait =
  rw_row :: nat
  rw_done :: bool
  rw_writer :: nat

datatype flush = NoFlush | Scheduled | Running nat "(nat \<times> message) list" bool

record gateway =
  g_peer :: peer_link
  g_tracker :: ack_tracker
  g_outcomes :: outcomes
  g_outbox :: oqueue
  g_uploads :: "message bqueue"
  g_commands :: "(message \<times> bool) bqueue"
  g_sensors :: "(message \<times> ingress) bqueue"
  g_results :: "(message \<times> nat) bqueue"
  g_sequences :: seq_guard
  g_boots :: "(string \<times> pyval) list"
  g_boot_id :: string
  g_controller :: string
  g_warned :: bool
  g_link :: connectivity
  g_decider :: decider
  g_conns :: "(string \<times> nat) list"
  g_server :: "nat option"
  g_waiters :: "(string \<times> receipt_wait) list"
  g_flush :: flush
  g_last_command :: "message option"
  g_alert_state :: dict
  g_duplicate :: bool

type_synonym wire = "(nat \<times> message) list"

text \<open>The readings and outcomes one handler consumes.\<close>

record gio =
  io_clock :: clocks
  io_id :: string
  io_store :: bool
  io_audit :: bool
  io_sent :: bool

abbreviation g_fo :: "gateway \<Rightarrow> failover" where
  "g_fo g \<equiv> pl_fo (g_peer g)"

definition gcount :: "string \<Rightarrow> gateway \<Rightarrow> gateway" where
  "gcount name g = g\<lparr>g_peer := count_link (g_peer g) name\<rparr>"

definition QUEUEABLE_TYPES :: "msg_type list" where
  "QUEUEABLE_TYPES = [SENSOR_DATA, CONTROL_COMMAND, CONTROL_RESULT, ALERT]"

section \<open>Uploads\<close>

definition queue_locally :: "gateway \<Rightarrow> message \<Rightarrow> gio \<Rightarrow> gateway \<times> py_error option" where
  "queue_locally g m io =
     (if m_type m \<notin> set QUEUEABLE_TYPES then (g, None)
      else case enqueue (g_outbox g) m (wall (io_clock io)) (io_store io) of
          (q, Inl e) \<Rightarrow> (g\<lparr>g_outbox := q\<rparr>, Some e)
        | (q, Inr _) \<Rightarrow> (gcount ''queue_enqueued'' (g\<lparr>g_outbox := q\<rparr>), None))"

definition request_flush :: "gateway \<Rightarrow> gateway" where
  "request_flush g = (if g_server g \<noteq> None \<and> g_flush g = NoFlush then g\<lparr>g_flush := Scheduled\<rparr> else g)"

definition capacity_or_storage :: "py_error \<Rightarrow> bool" where
  "capacity_or_storage e = (case e of CapacityErr _ \<Rightarrow> True | StorageErr \<Rightarrow> True | _ \<Rightarrow> False)"

text \<open>\<^verbatim>\<open>str(exc)\<close> of the two exceptions; the text of a storage error comes from SQLite.\<close>

definition reason_text :: "py_error \<Rightarrow> string" where
  "reason_text e = (case e of CapacityErr t \<Rightarrow> t | ValueErr t \<Rightarrow> t | MessageErr t \<Rightarrow> t | _ \<Rightarrow> ''storage'')"

definition persist_congested :: "gateway \<Rightarrow> message \<Rightarrow> gio \<Rightarrow> gateway \<times> (py_error + bool)" where
  "persist_congested g m io =
     (case queue_locally g m io of
        (g', None) \<Rightarrow> (request_flush g', Inr True)
      | (g', Some e) \<Rightarrow>
          if capacity_or_storage e
          then ((gcount ''upload_durable_rejected'' g')\<lparr>g_alert_state := [(''state'', PStr ''PERSISTENCE_REJECTED''),
                  (''message_id'', PStr (m_id m)), (''reason'', PStr (reason_text e))]\<rparr>, Inr False)
          else (g', Inl e))"

definition submit_upload :: "gateway \<Rightarrow> message \<Rightarrow> gio \<Rightarrow> gateway \<times> (py_error + bool)" where
  "submit_upload g m io =
     (case put_nowait (g_uploads g) m (mono_clock (io_clock io)) of
        (True, q) \<Rightarrow> (g\<lparr>g_uploads := q\<rparr>, Inr True)
      | (False, q) \<Rightarrow>
          let g1 = gcount ''upload_queue_saturated'' (g\<lparr>g_uploads := q\<rparr>)
          in if m_type m \<in> set QUEUEABLE_TYPES then persist_congested g1 m io
             else (gcount ''non_durable_status_coalesced'' g1, Inr False))"

text \<open>\<^verbatim>\<open>_deliver\<close> and the handlers of \<^verbatim>\<open>task_upload\<close> around it.\<close>

definition critical :: "message \<Rightarrow> bool" where
  "critical m =
     (let p = m_payload m;
          inner = (case dgetd p ''record'' (PDict []) of PDict r \<Rightarrow> dgetn r ''severity'' | _ \<Rightarrow> PNone);
          severity = (if truthy (dgetn p ''severity'') then dgetn p ''severity'' else inner)
      in severity = PStr ''CRITICAL'')"

definition deliver :: "gateway \<Rightarrow> message \<Rightarrow> gio \<Rightarrow> gateway \<times> wire \<times> py_error option" where
  "deliver g m io =
     (if m_type m \<in> set QUEUEABLE_TYPES
      then (case queue_locally g m io of
          (g1, Some e) \<Rightarrow> (g1, [], Some e)
        | (g1, None) \<Rightarrow>
            let g2 = (if critical m then g1\<lparr>g_link := snd (request_critical_retry (g_link g1) (mono_clock (io_clock io)))\<rparr> else g1)
            in (request_flush g2, [], None))
      else case g_server g of
          None \<Rightarrow> (g, [], None)
        | Some w \<Rightarrow> if io_sent io then (g, [(w, m)], None) else (g\<lparr>g_server := None\<rparr>, [], None))"

definition upload_next :: "gateway \<Rightarrow> gio \<Rightarrow> gateway \<times> wire \<times> py_error option" where
  "upload_next g io =
     (case get_nowait (g_uploads g) (mono_clock (io_clock io)) of
        (None, q) \<Rightarrow> (g, [], None)
      | (Some m, q) \<Rightarrow>
          (case deliver (g\<lparr>g_uploads := q\<rparr>) m io of
             (g', out, None) \<Rightarrow> (g', out, None)
           | (g', out, Some StorageErr) \<Rightarrow> (gcount ''outbox_storage_failures'' g', out, None)
           | (g', out, Some (CapacityErr t)) \<Rightarrow>
               ((gcount ''outbox_admission_rejected'' g')\<lparr>g_alert_state := [(''state'', PStr ''CAPACITY_REJECTED''),
                   (''message_id'', PStr (m_id m)), (''priority'', PStr (if high_priority m then ''HIGH'' else ''NORMAL''))]\<rparr>, out, None)
           | (g', out, Some e) \<Rightarrow> (g', out, Some e)))"

section \<open>Commands\<close>

definition audit_step :: "gateway \<Rightarrow> message \<Rightarrow> string \<Rightarrow> string option \<Rightarrow> gio \<Rightarrow> gateway \<times> py_error option" where
  "audit_step g m state command io =
     (let identity = dgetn (m_payload m) ''sensor_receipt_identity''
      in if \<not> truthy identity then (g, None)
         else case audit_control (g_outbox g) (str_of identity) state command (wall (io_clock io)) (io_audit io) of
             (q, Inl e) \<Rightarrow> (g\<lparr>g_outbox := q\<rparr>, Some e)
           | (q, Inr _) \<Rightarrow> (g\<lparr>g_outbox := q\<rparr>, None))"

definition undispatched_result :: "string \<Rightarrow> message \<Rightarrow> string \<Rightarrow> bool \<Rightarrow> gio \<Rightarrow> message" where
  "undispatched_result gateway m reason first io =
     new_message CONTROL_RESULT gateway ''SERVER''
       [(''command_id'', dgetn (m_payload m) ''command_id''), (''controller_id'', PStr (m_target m)),
        (''command_type'', dgetn (m_payload m) ''type''),
        (''status'', PStr (if first then ''NOT_DISPATCHED'' else ''UNKNOWN'')), (''reason'', PStr reason),
        (''generation'', dgetn (m_payload m) ''gateway_generation''), (''issued_at'', PFloat (Fin (m_timestamp m))),
        (''gateway_id'', PStr gateway)] (wall (io_clock io)) (io_id io)"

definition report_undispatched :: "gateway \<Rightarrow> message \<Rightarrow> string \<Rightarrow> bool \<Rightarrow> gio \<Rightarrow> gateway \<times> py_error option" where
  "report_undispatched g m reason first io =
     (case audit_step g m (if first then ''NOT_DISPATCHED'' else ''DISPATCH_UNCERTAIN'') None io of
        (g1, Some e) \<Rightarrow> (g1, Some e)
      | (g1, None) \<Rightarrow>
          let g2 = gcount (if first then ''not_dispatched'' else ''dispatch_unknown'')
                 (g1\<lparr>g_tracker := discard (g_tracker g1) (m_id m), g_outcomes := oc_drop (g_outcomes g1) (command_id_of m)\<rparr>)
          in (case submit_upload g2 (undispatched_result (gw_id (g_fo g2)) m reason first io) io of
              (g3, Inl e) \<Rightarrow> (g3, Some e) | (g3, Inr _) \<Rightarrow> (g3, None)))"

definition queue_command :: "gateway \<Rightarrow> message \<Rightarrow> bool \<Rightarrow> gio \<Rightarrow> gateway \<times> (py_error + bool)" where
  "queue_command g m retry io =
     (case put_nowait (g_commands g) (m, retry) (mono_clock (io_clock io)) of
        (True, q) \<Rightarrow> (g\<lparr>g_commands := q\<rparr>, Inr True)
      | (False, q) \<Rightarrow>
          (case report_undispatched (gcount ''command_queue_rejected'' (g\<lparr>g_commands := q\<rparr>)) m ''QUEUE_FULL'' (\<not> retry) io of
             (g', Some e) \<Rightarrow> (g', Inl e) | (g', None) \<Rightarrow> (g', Inr False)))"

text \<open>Why a command is not sent; \<open>closing\<close> says which sockets are closing.\<close>

definition dispatch_reason :: "gateway \<Rightarrow> message \<Rightarrow> real \<Rightarrow> (nat \<Rightarrow> bool) \<Rightarrow> string option" where
  "dispatch_reason g m now closing =
     (if \<not> may_control (f_own (g_fo g)) (f_reg (g_fo g)) (m_target m) then Some ''NOT_OWNER''
      else if \<not> py_eq (dgetn (m_payload m) ''gateway_generation'') (PInt (generation_of (f_reg (g_fo g)) (m_target m)))
        then Some ''STALE_GENERATION''
      else if COMMAND_TTL < now - m_timestamp m \<or> now + COMMAND_TTL < m_timestamp m then Some ''EXPIRED''
      else case map_of (g_conns g) (m_target m) of
          None \<Rightarrow> Some ''CONTROLLER_UNAVAILABLE''
        | Some w \<Rightarrow> if closing w then Some ''CONTROLLER_UNAVAILABLE'' else None)"

definition first_stamp :: "gateway \<Rightarrow> message \<Rightarrow> message" where
  "first_stamp g m = m\<lparr>m_attempt := Some 1, m_generation := Some (o_generation (f_own (g_fo g)))\<rparr>"

definition remember_command :: "gateway \<Rightarrow> message \<Rightarrow> gio \<Rightarrow> gateway" where
  "remember_command g m io =
     g\<lparr>g_tracker := track (g_tracker g) m (mono_clock (io_clock io)),
       g_outcomes := oc_track (g_outcomes g) m (mono_clock (io_clock io)), g_last_command := Some m\<rparr>"

definition command_upload :: "gateway \<Rightarrow> message \<Rightarrow> gio \<Rightarrow> message" where
  "command_upload g m io =
     new_message CONTROL_COMMAND (gw_id (g_fo g)) ''SERVER''
       (dset (m_payload m) ''controller_id'' (PStr (m_target m))) (wall (io_clock io)) (m_id m)"

text \<open>\<open>lost\<close> is the injected loss of the frame.\<close>

definition dispatch_command :: "gateway \<Rightarrow> message \<Rightarrow> bool \<Rightarrow> (nat \<Rightarrow> bool) \<Rightarrow> bool \<Rightarrow> gio \<Rightarrow> gateway \<times> wire \<times> py_error option" where
  "dispatch_command g m0 first closing lost io =
     (let g1 = (if first then gcount ''commands'' g else g)
      in case dispatch_reason g1 m0 (wall (io_clock io)) closing of
          Some reason \<Rightarrow> (case report_undispatched g1 m0 reason first io of (g2, e) \<Rightarrow> (g2, [], e))
        | None \<Rightarrow>
            let m = (if first then first_stamp g1 m0 else m0);
                g2 = (if first then remember_command g1 m io else g1);
                w = the (map_of (g_conns g2) (m_target m))
            in if lost then (g2, [], None)
               else case audit_step g2 m ''DISPATCH_UNCERTAIN'' (Some (command_id_of m)) io of
                   (g3, Some e) \<Rightarrow> (g3, [], Some e)
                 | (g3, None) \<Rightarrow>
                     if \<not> io_sent io then (g3\<lparr>g_conns := ddel (g_conns g3) (m_target m)\<rparr>, [], None)
                     else (case submit_upload g3 (command_upload g3 m io) io of
                         (g4, Inl e) \<Rightarrow> (g4, [(w, m)], Some e)
                       | (g4, Inr _) \<Rightarrow> (g4, if first \<and> g_duplicate g4 then [(w, m), (w, m)] else [(w, m)], None)))"

definition command_next :: "gateway \<Rightarrow> (nat \<Rightarrow> bool) \<Rightarrow> bool \<Rightarrow> gio \<Rightarrow> gateway \<times> wire \<times> py_error option" where
  "command_next g closing lost io =
     (case get_nowait (g_commands g) (mono_clock (io_clock io)) of
        (None, q) \<Rightarrow> (g, [], None)
      | (Some (m, retry), q) \<Rightarrow> dispatch_command (g\<lparr>g_commands := q\<rparr>) m (\<not> retry) closing lost io)"

section \<open>The retry scan\<close>

text \<open>
  The three loops of one pass of \<^verbatim>\<open>task_retry\<close>. Each handled message consumes its own inputs,
  given by the phase and its id; an exception that leaves the loop ends the task.
\<close>

datatype scan_phase = RetryPhase | ExpirePhase | ExhaustPhase

fun retry_due :: "gateway \<Rightarrow> message list \<Rightarrow> real \<Rightarrow> (scan_phase \<Rightarrow> string \<Rightarrow> gio) \<Rightarrow> gateway \<times> py_error option" where
  "retry_due g [] now io = (g, None)"
| "retry_due g (m # ms) now io =
     (let t = mark_retry (g_tracker g) (m_id m) now;
          m' = (case map_of (at_pending t) (m_id m) of Some p \<Rightarrow> pm_message p | None \<Rightarrow> m)
      in case queue_command (gcount ''retries'' (g\<lparr>g_tracker := t\<rparr>)) m' True (io RetryPhase (m_id m)) of
          (g', Inl e) \<Rightarrow> (g', Some e)
        | (g', Inr _) \<Rightarrow> retry_due g' ms now io)"

definition unknown_alert :: "string \<Rightarrow> message \<Rightarrow> gio \<Rightarrow> message" where
  "unknown_alert gateway m io =
     new_message ALERT gateway ''SERVER''
       [(''alert_type'', PStr ''CONTROL_RESULT_UNKNOWN''), (''command_id'', dgetn (m_payload m) ''command_id''),
        (''message'', PStr ''command acknowledged but execution result not observed; no new execution requested'')]
       (wall (io_clock io)) (io_id io)"

fun expire_outcomes :: "gateway \<Rightarrow> message list \<Rightarrow> (scan_phase \<Rightarrow> string \<Rightarrow> gio) \<Rightarrow> gateway \<times> py_error option" where
  "expire_outcomes g [] io = (g, None)"
| "expire_outcomes g (m # ms) io =
     (case submit_upload (gcount ''unknown_execution_results'' g) (unknown_alert (gw_id (g_fo g)) m (io ExpirePhase (m_id m)))
        (io ExpirePhase (m_id m)) of
        (g', Inl e) \<Rightarrow> (g', Some e)
      | (g', Inr _) \<Rightarrow> expire_outcomes g' ms io)"

definition failed_alert :: "string \<Rightarrow> message \<Rightarrow> gio \<Rightarrow> message" where
  "failed_alert gateway m io =
     new_message ALERT gateway ''SERVER''
       [(''alert_type'', PStr ''COMMAND_DELIVERY_FAILED''), (''controller_id'', PStr (m_target m)),
        (''command_id'', dgetn (m_payload m) ''command_id''), (''message'', PStr (''command '' @ command_id_of m @ '' not acknowledged''))]
       (wall (io_clock io)) (io_id io)"

fun drop_exhausted :: "gateway \<Rightarrow> message list \<Rightarrow> (scan_phase \<Rightarrow> string \<Rightarrow> gio) \<Rightarrow> gateway \<times> py_error option" where
  "drop_exhausted g [] io = (g, None)"
| "drop_exhausted g (m # ms) io =
     (let g1 = gcount ''delivery_failures''
            (g\<lparr>g_tracker := discard (g_tracker g) (m_id m), g_outcomes := oc_drop (g_outcomes g) (command_id_of m)\<rparr>)
      in case submit_upload g1 (failed_alert (gw_id (g_fo g1)) m (io ExhaustPhase (m_id m))) (io ExhaustPhase (m_id m)) of
          (g', Inl e) \<Rightarrow> (g', Some e)
        | (g', Inr _) \<Rightarrow> drop_exhausted g' ms io)"

definition retry_pass :: "gateway \<Rightarrow> real \<Rightarrow> real \<Rightarrow> (scan_phase \<Rightarrow> string \<Rightarrow> gio) \<Rightarrow> gateway \<times> py_error option" where
  "retry_pass g now later_now io =
     (case retry_due g (due (g_tracker g) now) now io of
        (g1, Some e) \<Rightarrow> (g1, Some e)
      | (g1, None) \<Rightarrow>
          let (gone, oc) = oc_expire (g_outcomes g1) later_now
          in (case expire_outcomes (g1\<lparr>g_outcomes := oc\<rparr>) gone io of
              (g2, Some e) \<Rightarrow> (g2, Some e)
            | (g2, None) \<Rightarrow> drop_exhausted g2 (exhausted (g_tracker g2) now) io))"

section \<open>Results of the controllers\<close>

text \<open>\<open>rw\<close> is the socket the result came in on; \<open>sends\<close> says whether a reply can be written.\<close>

definition result_status :: "gateway \<Rightarrow> message \<Rightarrow> nat option \<Rightarrow> string \<Rightarrow> pyval \<Rightarrow> (string \<Rightarrow> bool) \<Rightarrow> gio \<Rightarrow> gateway \<times> wire" where
  "result_status g m rw state reason sends io =
     (case (case rw of Some w \<Rightarrow> Some w | None \<Rightarrow> map_of (g_conns g) (m_source m)) of
        None \<Rightarrow> (g, [])
      | Some w \<Rightarrow>
          let durable = (state = ''RESULT_DURABLY_STORED'')
          in if \<not> sends state then (gcount ''result_ack_send_failures'' g, [])
             else (g, [(w, new_message (if durable then PERSISTED_ACK else NODE_STATUS) (gw_id (g_fo g)) (m_source m)
                [(''ack_message_id'', PStr (m_id m)), (''result_state'', PStr state), (''persisted'', PBool durable),
                 (''scope'', PStr ''CONTROL_RESULTS''), (''delivery_contract'', PStr RESULT_CONTRACT), (''reason'', reason)]
                (wall (io_clock io)) (io_id io))]))"

definition result_statuses :: "string list" where
  "result_statuses = [''EXECUTED'', ''REJECTED'', ''DUPLICATE'', ''UNKNOWN'']"

definition result_reliable :: "message \<Rightarrow> bool" where
  "result_reliable m \<longleftrightarrow> dgetn (m_payload m) ''delivery_contract'' = PStr RESULT_CONTRACT"

definition result_valid :: "gateway \<Rightarrow> message \<Rightarrow> bool" where
  "result_valid g m \<longleftrightarrow>
     (let p = m_payload m; cid = dgetn p ''command_id''; generation = dgetn p ''generation''
      in m_type m = CONTROL_RESULT \<and> m_target m = gw_id (g_fo g) \<and> dhas GATEWAY_OF_CONTROLLER (m_source m) \<and>
         is_str cid \<and> 1 \<le> length (str_of cid) \<and> length (str_of cid) \<le> 256 \<and> one_of (dgetn p ''status'') result_statuses \<and>
         (case map_of (f_reg (g_fo g)) (m_source m) of
            None \<Rightarrow> False
          | Some e \<Rightarrow> \<not> result_reliable m \<and> generation = PNone \<or> integer generation 1 \<and> int_of generation \<le> n_generation e))"

definition result_upload :: "gateway \<Rightarrow> message \<Rightarrow> message" where
  "result_upload g m =
     new_message CONTROL_RESULT (gw_id (g_fo g)) ''SERVER'' (dset (m_payload m) ''controller_id'' (PStr (m_source m)))
       (m_timestamp m) (m_id m)"

definition result_digest :: "(jtext \<Rightarrow> string) \<Rightarrow> message \<Rightarrow> message \<Rightarrow> py_error + string" where
  "result_digest hash m upload =
     (case dumps (PDict [(''source'', PStr (m_source m)), (''timestamp'', PFloat (Fin (m_timestamp m))), (''payload'', PDict (m_payload upload))]) of
        Inl e \<Rightarrow> Inl e | Inr raw \<Rightarrow> Inr (hash raw))"

text \<open>The durable part of a reliable result: what the \<^verbatim>\<open>try\<close> block does up to the admission.\<close>

definition admit_reliable :: "gateway \<Rightarrow> (jtext \<Rightarrow> string) \<Rightarrow> message \<Rightarrow> nat option \<Rightarrow> (string \<Rightarrow> bool) \<Rightarrow> gio \<Rightarrow>
    gateway \<times> wire \<times> (py_error + bool)" where
  "admit_reliable g hash m rw sends io =
     (let upload = result_upload g m
      in case validate_server_upload upload of
          Some e \<Rightarrow> (g, [], Inl e)
        | None \<Rightarrow>
            if q_path (g_outbox g) = '':memory:'' then (g, [], Inl (ValueErr ''durable result ACK requires file-backed SQLite''))
            else let (g1, out1) = result_status g m rw ''RESULT_RECEIVED'' PNone sends io
                 in (case result_digest hash m upload of
                     Inl e \<Rightarrow> (g1, out1, Inl e)
                   | Inr digest \<Rightarrow>
                       (case admit_result (g_outbox g1) upload digest (wall (io_clock io)) (io_store io) of
                          (q, Inl e) \<Rightarrow> (g1\<lparr>g_outbox := q\<rparr>, out1, Inl e)
                        | (q, Inr fresh) \<Rightarrow>
                            let (g2, out2) = result_status (g1\<lparr>g_outbox := q\<rparr>) m rw ''RESULT_DURABLY_STORED'' PNone sends io
                            in (request_flush g2, out1 @ out2, Inr fresh))))"

text \<open>\<^verbatim>\<open>QueueCapacityError\<close> is a \<^verbatim>\<open>ValueError\<close>.\<close>

definition result_error_caught :: "py_error \<Rightarrow> bool" where
  "result_error_caught e = (case e of ValueErr _ \<Rightarrow> True | MessageErr _ \<Rightarrow> True | CapacityErr _ \<Rightarrow> True | StorageErr \<Rightarrow> True | _ \<Rightarrow> False)"

definition finish_result :: "gateway \<Rightarrow> message \<Rightarrow> gio \<Rightarrow> gateway" where
  "finish_result g m io =
     (let cid = command_id_of m;
          (q, r) = audit_outcome (g_outbox g) cid (''RESULT_'' @ str_of (dgetn (m_payload m) ''status'')) (wall (io_clock io)) (io_audit io);
          g1 = (case r of Inl _ \<Rightarrow> gcount ''sensor_audit_failures'' (g\<lparr>g_outbox := q\<rparr>) | Inr _ \<Rightarrow> g\<lparr>g_outbox := q\<rparr>);
          (how, oc) = oc_result (g_outcomes g1) cid;
          g2 = g1\<lparr>g_outcomes := oc\<rparr>
      in gcount ''results_received'' (if how = Late then gcount ''late_results'' g2 else g2))"

definition process_control_result :: "gateway \<Rightarrow> (jtext \<Rightarrow> string) \<Rightarrow> message \<Rightarrow> nat option \<Rightarrow> (string \<Rightarrow> bool) \<Rightarrow> gio \<Rightarrow>
    gateway \<times> wire \<times> (py_error + bool)" where
  "process_control_result g hash m rw sends io =
     (if \<not> result_valid g m
      then (let g1 = gcount ''malformed_results'' g
            in if result_reliable m
               then (case result_status g1 m rw ''RESULT_REJECTED'' (PStr ''INVALID_RESULT'') sends io of (g2, out) \<Rightarrow> (g2, out, Inr False))
               else (g1, [], Inr False))
      else let rejected = (\<lambda>g1 out e.
             if \<not> result_error_caught e then (g1, out, Inl e)
             else let g2 = gcount ''result_durable_rejected'' g1
                  in if result_reliable m
                     then (case result_status g2 m rw ''RESULT_REJECTED'' (PStr (reason_text e)) sends io of (g3, out') \<Rightarrow> (g3, out @ out', Inr False))
                     else (g2, out, Inr False))
      in if result_reliable m
         then (case admit_reliable g hash m rw sends io of
             (g1, out, Inl e) \<Rightarrow> rejected g1 out e
           | (g1, out, Inr fresh) \<Rightarrow>
               if \<not> fresh then (gcount ''result_duplicates'' g1, out, Inr True) else (finish_result g1 m io, out, Inr True))
         else (case submit_upload g (result_upload g m) io of
             (g1, Inl e) \<Rightarrow> rejected g1 [] e
           | (g1, Inr _) \<Rightarrow> (finish_result g1 m io, [], Inr True)))"

section \<open>Receipts and the replay of the outbox\<close>

definition handle_persisted_ack :: "gateway \<Rightarrow> message \<Rightarrow> nat \<Rightarrow> bool \<times> gateway" where
  "handle_persisted_ack g m w =
     (let ack_id = dgetn (m_payload m) ''ack_message_id''
      in if m_type m \<noteq> PERSISTED_ACK \<or> m_source m \<noteq> ''SERVER'' \<or> m_target m \<noteq> gw_id (g_fo g) \<or>
            dgetn (m_payload m) ''persisted'' \<noteq> PBool True \<or> \<not> is_str ack_id \<or> g_server g \<noteq> Some w
         then (False, g)
         else case map_of (g_waiters g) (str_of ack_id) of
             None \<Rightarrow> (False, g)
           | Some r \<Rightarrow>
               if rw_writer r \<noteq> w \<or> rw_done r then (False, g)
               else (True, gcount ''persisted_acks'' (g\<lparr>g_waiters := dset (g_waiters g) (str_of ack_id) (r\<lparr>rw_done := True\<rparr>)\<rparr>)))"

text \<open>The replay of one row gave up: the link is dropped, the row stays.\<close>

definition flush_failed :: "gateway \<Rightarrow> nat \<Rightarrow> string \<Rightarrow> gateway" where
  "flush_failed g w mid =
     (gcount ''server_receipt_failures''
        (g\<lparr>g_server := (if g_server g = Some w then None else g_server g), g_link := link_connected (g_link g) True,
           g_waiters := ddel (g_waiters g) mid, g_flush := NoFlush\<rparr>))"

text \<open>An exception that leaves the task: \<^verbatim>\<open>_flush_finished\<close> drops the current link.\<close>

definition flush_crashed :: "gateway \<Rightarrow> string \<Rightarrow> gateway" where
  "flush_crashed g mid =
     (gcount ''outbox_replay_failures'' (g\<lparr>g_server := None, g_waiters := ddel (g_waiters g) mid, g_flush := NoFlush\<rparr>))"

definition flush_step :: "gateway \<Rightarrow> gio \<Rightarrow> gateway \<times> wire" where
  "flush_step g io =
     (case g_flush g of
        NoFlush \<Rightarrow> (g, [])
      | Scheduled \<Rightarrow> (case g_server g of None \<Rightarrow> (g\<lparr>g_flush := NoFlush\<rparr>, []) | Some w \<Rightarrow> (g\<lparr>g_flush := Running w [] False\<rparr>, []))
      | Running w [] waiting \<Rightarrow>
          if g_server g \<noteq> Some w then (g\<lparr>g_flush := NoFlush\<rparr>, [])
          else (case peek (g_outbox g) 100 of
              [] \<Rightarrow> (g\<lparr>g_flush := NoFlush\<rparr>, [])
            | batch \<Rightarrow> (g\<lparr>g_flush := Running w batch False\<rparr>, []))
      | Running w ((i, m) # rest) False \<Rightarrow>
          let g1 = g\<lparr>g_waiters := dset (g_waiters g) (m_id m) \<lparr>rw_row = i, rw_done = False, rw_writer = w\<rparr>\<rparr>
          in (case bump_retry (g_outbox g1) i (io_store io) of
              (q, Inl e) \<Rightarrow> (flush_crashed (g1\<lparr>g_outbox := q\<rparr>) (m_id m), [])
            | (q, Inr _) \<Rightarrow>
                if \<not> io_sent io then (flush_failed (g1\<lparr>g_outbox := q\<rparr>) w (m_id m), [])
                else (g1\<lparr>g_outbox := q, g_flush := Running w ((i, m) # rest) True\<rparr>, [(w, m)]))
      | Running w ((i, m) # rest) True \<Rightarrow>
          (case map_of (g_waiters g) (m_id m) of
             Some r \<Rightarrow>
               if \<not> rw_done r then (flush_failed g w (m_id m), [])
               else (case delete_row (g_outbox g) i (io_store io) of
                   (q, Inl e) \<Rightarrow> (flush_crashed (g\<lparr>g_outbox := q\<rparr>) (m_id m), [])
                 | (q, Inr _) \<Rightarrow>
                     (gcount ''queue_replayed'' (g\<lparr>g_outbox := q, g_link := link_confirmed (g_link g) (q_rows q \<noteq> []),
                        g_waiters := ddel (g_waiters g) (m_id m), g_flush := Running w rest False\<rparr>), []))
           | None \<Rightarrow> (flush_failed g w (m_id m), [])))"

text \<open>
  A link comes up and goes down: \<^verbatim>\<open>task_server_policy\<close> around its message loop. The replay that
  is cancelled with the link withdraws its waiter.
\<close>

definition server_connected :: "gateway \<Rightarrow> nat \<Rightarrow> gateway" where
  "server_connected g w =
     request_flush (g\<lparr>g_server := Some w, g_link := link_connected (g_link g) (q_rows (g_outbox g) \<noteq> [])\<rparr>)"

definition cancel_flush :: "gateway \<Rightarrow> gateway" where
  "cancel_flush g =
     (case g_flush g of
        Running w ((i, m) # rest) True \<Rightarrow> g\<lparr>g_waiters := ddel (g_waiters g) (m_id m), g_flush := NoFlush\<rparr>
      | _ \<Rightarrow> g\<lparr>g_flush := NoFlush\<rparr>)"

definition server_lost :: "gateway \<Rightarrow> nat \<Rightarrow> gateway" where
  "server_lost g w =
     (let g1 = cancel_flush (g\<lparr>g_server := (if g_server g = Some w then None else g_server g)\<rparr>)
      in g1\<lparr>g_link := snd (link_failed (g_link g1))\<rparr>)"

definition server_unreachable :: "gateway \<Rightarrow> gateway" where
  "server_unreachable g = gcount ''cloud_connect_failures'' (g\<lparr>g_link := snd (link_failed (g_link g))\<rparr>)"

definition apply_policy :: "gateway \<Rightarrow> message \<Rightarrow> gio \<Rightarrow> gateway \<times> py_error option" where
  "apply_policy g m io =
     (if m_source m \<noteq> ''SERVER'' \<or> m_target m \<notin> {gw_id (g_fo g), ''*''} then (g, Some (MessageErr ''invalid policy route''))
      else if \<not> integer (dgetn (m_payload m) ''policy_version'') 0 then (g, Some (MessageErr ''server policy requires a version''))
      else case update_policy (g_decider g) (m_payload m) (wall (io_clock io)) (io_store io) of
          (d, Inl e) \<Rightarrow> (g\<lparr>g_decider := d\<rparr>, Some e)
        | (d, Inr _) \<Rightarrow> (g\<lparr>g_decider := d, g_link := link_confirmed (g_link g) (q_rows (g_outbox g) \<noteq> [])\<rparr>, None))"

text \<open>One message from the server on socket \<open>w\<close>; a policy is acknowledged before it is applied.\<close>

definition server_message :: "gateway \<Rightarrow> message \<Rightarrow> nat \<Rightarrow> gio \<Rightarrow> gateway \<times> wire \<times> py_error option" where
  "server_message g m w io =
     (if m_type m = PERSISTED_ACK then (snd (handle_persisted_ack g m w), [], None)
      else if m_type m = SERVER_POLICY
      then if \<not> io_sent io then (g, [], Some StorageErr)
           else (case apply_policy g m io of
               (g', None) \<Rightarrow> (g', [(w, ack m (Some (gw_id (g_fo g))) (wall (io_clock io)) (io_id io))], None)
             | (g', Some e) \<Rightarrow>
                 if (case e of MessageErr _ \<Rightarrow> True | StorageErr \<Rightarrow> True | _ \<Rightarrow> False)
                 then (gcount ''invalid_policies'' g', [(w, ack m (Some (gw_id (g_fo g))) (wall (io_clock io)) (io_id io))], None)
                 else (g', [(w, ack m (Some (gw_id (g_fo g))) (wall (io_clock io)) (io_id io))], Some e))
      else (g, [], None))"

section \<open>Construction\<close>

definition gateway_init :: "peer_link \<Rightarrow> string option \<Rightarrow> decider \<Rightarrow> oqueue \<Rightarrow> connectivity \<Rightarrow> real \<Rightarrow> int \<Rightarrow> string \<Rightarrow> bool \<Rightarrow> py_error + gateway" where
  "gateway_init peer controller d outbox link result_timeout capacity boot duplicate =
     (case (bq_init capacity (\<lambda>m _. m), bq_init capacity (\<lambda>c _. c), bq_init capacity (\<lambda>m _. m), bq_init capacity (\<lambda>m _. m)) of
        (Inr uploads, Inr commands, Inr sensors, Inr results) \<Rightarrow> Inr
          \<lparr>g_peer = peer, g_tracker = ack_tracker_init ACK_TIMEOUT MAX_RETRIES, g_outcomes = outcomes_init result_timeout,
           g_outbox = outbox, g_uploads = uploads, g_commands = commands, g_sensors = sensors, g_results = results,
           g_sequences = seq_guard_init, g_boots = [], g_boot_id = boot,
           g_controller = (case controller of Some c \<Rightarrow> c | None \<Rightarrow> str_of (opt_str (map_of CONTROLLER_OF (gw_id (pl_fo peer))))),
           g_warned = False, g_link = link, g_decider = d, g_conns = [],
           g_server = None, g_waiters = [], g_flush = NoFlush, g_last_command = None, g_alert_state = [], g_duplicate = duplicate\<rparr>
      | (Inl e, _) \<Rightarrow> Inl e
      | (_, Inl e, _) \<Rightarrow> Inl e
      | (_, _, Inl e, _) \<Rightarrow> Inl e
      | (_, _, _, Inl e) \<Rightarrow> Inl e)"

section \<open>Commands are sent with authority only\<close>

lemma gcount_simps [simp]:
  "g_outbox (gcount n g) = g_outbox g" "g_tracker (gcount n g) = g_tracker g" "g_outcomes (gcount n g) = g_outcomes g"
  "g_uploads (gcount n g) = g_uploads g" "g_commands (gcount n g) = g_commands g" "g_link (gcount n g) = g_link g"
  "g_conns (gcount n g) = g_conns g" "g_server (gcount n g) = g_server g" "g_waiters (gcount n g) = g_waiters g"
  "g_flush (gcount n g) = g_flush g" "g_decider (gcount n g) = g_decider g"
  "f_own (g_fo (gcount n g)) = f_own (g_fo g)" "f_reg (g_fo (gcount n g)) = f_reg (g_fo g)"
  "g_sequences (gcount n g) = g_sequences g" "g_boots (gcount n g) = g_boots g" "g_boot_id (gcount n g) = g_boot_id g"
  by (simp_all add: gcount_def count_link_def)

lemma generation_own:
  assumes "fo_inv f" "may_control (f_own f) (f_reg f) k"
  shows "generation_of (f_reg f) k = o_generation (f_own f)"
proof -
  obtain g where g: "claim_of (f_reg f) k = Some (gw_id f, g)"
    using assms(2) by (auto simp: may_control_def owns_claim)
  then have "g = o_generation (f_own f)"
    using fo_invD(5) [OF assms(1) g] by simp
  with g show ?thesis
    by (simp add: generation_of_claim)
qed

text \<open>
  C9: a command leaves the gateway only with authority. Every frame that a dispatch writes, on a
  first attempt or a retry, goes to the open connection of the command's target; at that moment the
  gateway is active and owns the target, the command carries the gateway's own current epoch, and
  its age is within the time to live.
\<close>

theorem dispatch_only_with_authority:
  assumes "dispatch_command g m first closing lost io = (g', out, r)" "(w, m') \<in> set out" "fo_inv (g_fo g)"
  shows "may_control (f_own (g_fo g)) (f_reg (g_fo g)) (m_target m) \<and>
    py_eq (dgetn (m_payload m') ''gateway_generation'') (PInt (o_generation (f_own (g_fo g)))) \<and>
    \<bar>wall (io_clock io) - m_timestamp m'\<bar> \<le> COMMAND_TTL \<and>
    map_of (g_conns g) (m_target m') = Some w \<and> \<not> closing w"
proof -
  let ?g = "if first then gcount ''commands'' g else g"
  have ok: "dispatch_reason ?g m (wall (io_clock io)) closing = None"
    using assms(1, 2) by (auto simp: dispatch_command_def Let_def split: option.splits prod.splits)
  then have auth: "may_control (f_own (g_fo g)) (f_reg (g_fo g)) (m_target m)"
      "py_eq (dgetn (m_payload m) ''gateway_generation'') (PInt (generation_of (f_reg (g_fo g)) (m_target m)))"
      "\<bar>wall (io_clock io) - m_timestamp m\<bar> \<le> COMMAND_TTL"
      "\<exists>w. map_of (g_conns g) (m_target m) = Some w \<and> \<not> closing w"
    by (auto simp: dispatch_reason_def split: if_splits option.splits)
  have frame: "m_payload m' = m_payload m \<and> m_timestamp m' = m_timestamp m \<and> m_target m' = m_target m \<and>
      w = the (map_of (g_conns g) (m_target m))"
    using assms(1, 2) ok
    by (auto simp: dispatch_command_def Let_def first_stamp_def remember_command_def split: option.splits prod.splits if_splits sum.splits)
  show ?thesis
    using auth frame generation_own [OF assms(3) auth(1)] by auto
qed

end
