(* ===== verification/SensorDelivery.thy ===== *)
theory SensorDelivery
  imports Prelude Messages Checkpoint OfflineQueue
begin

text \<open>
  \<^verbatim>\<open>gateway/sensor_delivery.py\<close>: the identity of a reliable sample and the digest of its
  evidence, and what the range query of \<^const>\<open>sensor_is_fresh\<close> makes of such identities. The
  hash is a function of the canonical JSON text.
\<close>

definition DELIVERY_CONTRACT :: string where
  [model_defs]: "DELIVERY_CONTRACT = ''gateway-durable-v1''"

section \<open>Eight hexadecimal digits\<close>

definition hex_digit :: "nat \<Rightarrow> char" where
  "hex_digit n = char_of (if n < 10 then 48 + n else 87 + n)"

fun hexs :: "nat \<Rightarrow> nat \<Rightarrow> string" where
  "hexs 0 n = []"
| "hexs (Suc k) n = hexs k (n div 16) @ [hex_digit (n mod 16)]"

definition sample_id_of :: "string \<Rightarrow> string \<Rightarrow> nat \<Rightarrow> string" where
  "sample_id_of source boot sq = source @ ''-'' @ boot @ ''-'' @ hexs 8 sq"

definition boot_chars :: string where
  "boot_chars = ''abcdefghijklmnopqrstuvwxyzABCDEFGHIJKLMNOPQRSTUVWXYZ0123456789-''"

definition suffix_of :: "msg_type \<Rightarrow> string" where
  "suffix_of t = (if t = SENSOR_DATA then ''-S'' else ''-A'')"

section \<open>Identity and digest\<close>

definition evidence_of :: "dict \<Rightarrow> dict" where
  "evidence_of p = filter (\<lambda>(k, v). k \<noteq> ''delivery_age_ms'') p"

definition metadata_ok :: "dict \<Rightarrow> bool" where
  "metadata_ok p \<longleftrightarrow>
     dgetn p ''importance'' \<in> {PStr ''HIGH'', PStr ''NORMAL''} \<and> nonempty_str (dgetn p ''policy_version'') \<and>
     number (dgetn p ''device_monotonic_ms'') \<and> 0 \<le> num_of (dgetn p ''device_monotonic_ms'')"

definition identity_and_digest :: "(jtext \<Rightarrow> string) \<Rightarrow> message \<Rightarrow> py_error + string \<times> string" where
  "identity_and_digest hash m =
     (let p = m_payload m; boot = dgetn p ''boot_id''; sq = dgetn p ''sample_seq''
      in if m_type m \<notin> {SENSOR_DATA, ALERT} \<or> \<not> is_str boot \<or> \<not> (1 \<le> length (str_of boot) \<and> length (str_of boot) \<le> 80) \<or>
            \<not> set (str_of boot) \<subseteq> set boot_chars \<or> \<not> integer sq 1 \<or> 4294967295 < int_of sq \<or>
            m_sequence m \<noteq> Some (int_of sq)
         then Inl (MessageErr ''invalid reliable sample identity'')
         else let sid = sample_id_of (m_source m) (str_of boot) (nat (int_of sq))
              in if dgetn p ''sample_id'' \<noteq> PStr sid \<or> m_id m \<noteq> sid @ suffix_of (m_type m)
                 then Inl (MessageErr ''retry must preserve canonical identity'')
                 else if \<not> metadata_ok p then Inl (MessageErr ''invalid reliable sample metadata'')
                 else case dumps (PDict (evidence_of p)) of
                     Inl e \<Rightarrow> Inl e
                   | Inr raw \<Rightarrow> Inr (m_id m, hash raw))"

lemma evidence_dset [simp]: "evidence_of (dset p ''delivery_age_ms'' v) = evidence_of p"
  unfolding evidence_of_def dset_def by (induction p) auto

lemma identity_retry:
  "identity_and_digest hash (m\<lparr>m_payload := dset (m_payload m) ''delivery_age_ms'' age, m_attempt := att,
    m_timestamp := t, m_target := tgt\<rparr>) = identity_and_digest hash m"
  by (simp add: identity_and_digest_def metadata_ok_def Let_def cong: sum.case_cong)

text \<open>
  a retry is the same sample. A message that differs from an accepted one only in its
  delivery age, attempt number, time stamp or target has the same identity and the same digest.
\<close>

theorem retry_keeps_identity:
  assumes "identity_and_digest hash m = Inr r"
  shows "identity_and_digest hash (m\<lparr>m_payload := dset (m_payload m) ''delivery_age_ms'' age, m_attempt := att,
    m_timestamp := t, m_target := tgt\<rparr>) = Inr r"
  using assms by (simp add: identity_retry)

definition demo_reliable :: message where
  [model_defs]: "demo_reliable = (new_message SENSOR_DATA ''B1'' ''A1''
     [(''boot_id'', PStr ''b''), (''sample_seq'', PInt 10), (''sample_id'', PStr ''B1-b-0000000a''),
      (''importance'', PStr ''NORMAL''), (''policy_version'', PStr ''v1''), (''device_monotonic_ms'', PInt 5)]
     0 ''B1-b-0000000a-S'')\<lparr>m_sequence := Some 10\<rparr>"

lemma demo_hex: "hexs 8 10 = ''0000000a''"
  by code_simp

lemma demo_identity: "identity_and_digest (\<lambda>_. ''h'') demo_reliable = Inr (''B1-b-0000000a-S'', ''h'')"
  by (simp add: identity_and_digest_def demo_reliable_def new_message_def Let_def dgetn_def is_str_def str_of_def integer_def
      int_of_def boot_chars_def sample_id_of_def demo_hex suffix_of_def metadata_ok_def nonempty_str_def number_def
      int_finite_def num_of_def dumps_def evidence_of_def json_ok_PDict)

theorem retry_keeps_identity_witness:
  "identity_and_digest (\<lambda>_. ''h'') (demo_reliable\<lparr>m_payload := dset (m_payload demo_reliable) ''delivery_age_ms'' (PInt 900),
     m_attempt := Some 2, m_timestamp := 7, m_target := ''A2''\<rparr>) = Inr (''B1-b-0000000a-S'', ''h'')"
  by (rule retry_keeps_identity [OF demo_identity])

section \<open>Order of identities\<close>

lemma less_append_same: "(p @ x < p @ y) = (x < (y :: string))"
  by (induction p) simp_all

lemma less_append_length:
  "length x = length y \<Longrightarrow> (x @ u < y @ v) = (x < y \<or> x = y \<and> u < (v :: string))"
  by (induction x y rule: list_induct2) auto

lemma between_prefix: "p @ x \<le> k \<Longrightarrow> k \<le> p @ y \<Longrightarrow> \<exists>z. k = p @ (z :: string)"
proof (induction p arbitrary: k)
  case (Cons a p)
  then obtain z where "k = a # z"
    by (cases k) (auto split: if_splits)
  with Cons show ?case by auto
qed simp

lemma hex_digit_less: "a < 16 \<Longrightarrow> b < 16 \<Longrightarrow> (hex_digit a < hex_digit b) = (a < b)"
  by (simp add: hex_digit_def less_char_def)

lemma length_hexs [simp]: "length (hexs k n) = k"
  by (induction k arbitrary: n) auto

lemma digits_less: "(a div 16 < b div 16 \<or> a div 16 = b div 16 \<and> a mod 16 < b mod 16) = (a < (b :: nat))"
proof -
  have "a = 16 * (a div 16) + a mod 16" "b = 16 * (b div 16) + b mod 16" "a mod 16 < 16" "b mod 16 < 16"
    by simp_all
  then show ?thesis by linarith
qed

lemma hexs_less: "a < 16 ^ k \<Longrightarrow> b < 16 ^ k \<Longrightarrow> (hexs k a < hexs k b) = (a < b)"
proof (induction k arbitrary: a b)
  case (Suc k)
  have d: "a div 16 < 16 ^ k" "b div 16 < 16 ^ k"
    using Suc.prems by (auto simp: less_mult_imp_div_less mult.commute)
  have eq: "(hexs k (a div 16) = hexs k (b div 16)) = (a div 16 = b div 16)"
    using Suc.IH [OF d] Suc.IH [OF d(2) d(1)] by (metis less_irrefl linorder_neqE_nat)
  have "(hexs (Suc k) a < hexs (Suc k) b) = (a div 16 < b div 16 \<or> a div 16 = b div 16 \<and> a mod 16 < b mod 16)"
    by (simp add: less_append_length eq hex_digit_less Suc.IH [OF d] del: append_assoc)
  also have "\<dots> = (a < b)"
    by (rule digits_less)
  finally show ?case .
qed simp

lemma hex_digit_not_dash: "m < 16 \<Longrightarrow> hex_digit m \<noteq> CHR ''-''"
  by (auto simp: hex_digit_def char_of_eq_iff take_bit_nat_eq_self split: if_splits)

lemma hexs_no_dash: "CHR ''-'' \<notin> set (hexs k n)"
  by (induction k arbitrary: n) (auto simp: hex_digit_not_dash [symmetric])

lemma drop_field_append:
  assumes "CHR ''-'' \<notin> set y"
  shows "drop_field (x @ ''-'' @ y) = x"
proof -
  have "dropWhile (\<lambda>c. c \<noteq> CHR ''-'') (rev y @ CHR ''-'' # rev x) = CHR ''-'' # rev x"
    using assms by (subst dropWhile_append2) auto
  then show ?thesis
    by (simp add: drop_field_def)
qed

lemma field_unique:
  "CHR ''-'' \<notin> set x \<Longrightarrow> CHR ''-'' \<notin> set y \<Longrightarrow> (x @ CHR ''-'' # u = y @ CHR ''-'' # v) = (x = y \<and> u = v)"
proof (induction x arbitrary: y)
  case Nil
  then show ?case by (cases y) auto
next
  case (Cons a x)
  then show ?case by (cases y) auto
qed

section \<open>What the range query compares\<close>

text \<open>A reading by its parts, and the identity the receipt ledger keeps of it.\<close>

record reading =
  r_source :: string
  r_boot :: string
  r_seq :: nat
  r_type :: msg_type

definition reading_id :: "reading \<Rightarrow> string" where
  "reading_id r = sample_id_of (r_source r) (r_boot r) (r_seq r) @ suffix_of (r_type r)"

definition plain_reading :: "reading \<Rightarrow> bool" where
  "plain_reading r \<longleftrightarrow> CHR ''-'' \<notin> set (r_source r) \<and> CHR ''-'' \<notin> set (r_boot r) \<and> 1 \<le> r_seq r \<and>
     r_seq r \<le> 4294967295 \<and> (r_type r = SENSOR_DATA \<or> r_type r = ALERT)"

definition same_boot :: "reading \<Rightarrow> reading \<Rightarrow> bool" where
  "same_boot r s \<longleftrightarrow> r_source r = r_source s \<and> r_boot r = r_boot s"

definition earlier :: "reading \<Rightarrow> reading \<Rightarrow> bool" where
  "earlier r s \<longleftrightarrow> r_seq r < r_seq s \<or> r_seq r = r_seq s \<and> r_type r = ALERT \<and> r_type s = SENSOR_DATA"

definition boot_prefix :: "reading \<Rightarrow> string" where
  "boot_prefix r = r_source r @ ''-'' @ r_boot r @ ''-''"

lemma reading_id_eq: "reading_id r = boot_prefix r @ hexs 8 (r_seq r) @ suffix_of (r_type r)"
  by (simp add: reading_id_def sample_id_of_def boot_prefix_def)

lemma boot_prefix_same: "same_boot r s \<Longrightarrow> boot_prefix r = boot_prefix s"
  by (simp add: same_boot_def boot_prefix_def)

lemma suffix_less: "plain_reading r \<Longrightarrow> plain_reading s \<Longrightarrow>
  (suffix_of (r_type r) < suffix_of (r_type s)) = (r_type r = ALERT \<and> r_type s = SENSOR_DATA)"
  by (auto simp: plain_reading_def suffix_of_def less_char_def)

lemma fresh_prefix_reading:
  assumes "plain_reading r" shows "fresh_prefix (reading_id r) = boot_prefix r"
proof -
  have suffix: "\<exists>c. suffix_of (r_type r) = [CHR ''-'', c] \<and> c \<noteq> CHR ''-''"
    by (simp add: suffix_of_def)
  then obtain c where c: "suffix_of (r_type r) = ''-'' @ [c]" "c \<noteq> CHR ''-''"
    by auto
  have "drop_field (reading_id r) = (r_source r @ ''-'' @ r_boot r) @ ''-'' @ hexs 8 (r_seq r)"
    using c drop_field_append [of "[c]" "(r_source r @ ''-'' @ r_boot r) @ ''-'' @ hexs 8 (r_seq r)"]
    by (simp add: reading_id_def sample_id_of_def)
  then show ?thesis
    using drop_field_append [OF hexs_no_dash, of "r_source r @ ''-'' @ r_boot r" 8 "r_seq r"]
    by (simp add: fresh_prefix_def boot_prefix_def)
qed

lemma id_less:
  assumes "plain_reading r" "plain_reading s" "same_boot r s"
  shows "(reading_id r < reading_id s) = earlier r s"
proof -
  have b: "r_seq r < 16 ^ 8" "r_seq s < 16 ^ 8"
    using assms by (simp_all add: plain_reading_def)
  have "(hexs 8 (r_seq r) = hexs 8 (r_seq s)) = (r_seq r = r_seq s)"
    using hexs_less [OF b] hexs_less [OF b(2) b(1)] by (metis less_irrefl linorder_neqE_nat)
  then show ?thesis
    using assms by (simp add: reading_id_eq boot_prefix_same [OF assms(3)] less_append_same less_append_length
        hexs_less [OF b] suffix_less earlier_def)
qed

lemma hex_digit_15: "hex_digit 15 = CHR ''f''"
  by code_simp

lemma hex_zero: "hexs 8 0 = ''00000000''"
  by code_simp

lemma hexs_numeral: "hexs (numeral k) n = hexs (pred_numeral k) (n div 16) @ [hex_digit (n mod 16)]"
  by (metis hexs.simps(2) numeral_eq_Suc)

lemma hex_top: "hexs 8 4294967295 = ''ffffffff''"
  by (simp add: hexs_numeral hex_digit_15)

lemma hex_ends: "''00000000-S'' = hexs 8 0 @ ''-S''" "''ffffffff-S'' = hexs 8 4294967295 @ ''-S''"
  by (simp_all only: hex_zero hex_top append.simps)

lemma in_range_same_boot:
  assumes r: "plain_reading r" and s: "plain_reading s" and b: "same_boot r s"
  shows "in_range (reading_id s) (reading_id r)"
proof -
  have n: "r_seq r < 16 ^ 8" "0 < r_seq r" "r_seq r \<le> 4294967295" "r_type r = SENSOR_DATA \<or> r_type r = ALERT"
    using r by (auto simp: plain_reading_def)
  have "hexs 8 0 @ ''-S'' < hexs 8 (r_seq r) @ suffix_of (r_type r)"
    using hexs_less [of 0 8 "r_seq r"] n by (simp add: less_append_length)
  moreover have "hexs 8 (r_seq r) @ suffix_of (r_type r) \<le> hexs 8 4294967295 @ ''-S''"
  proof (cases "r_seq r = 4294967295")
    case True
    then show ?thesis using n by (auto simp: suffix_of_def less_char_def le_less less_append_same)
  next
    case False
    then show ?thesis
      using hexs_less [of "r_seq r" 8 4294967295] n by (intro less_imp_le) (simp add: less_append_length)
  qed
  ultimately show ?thesis
    unfolding in_range_def fresh_prefix_reading [OF s] hex_ends boot_prefix_same [OF b, symmetric] reading_id_eq [of r]
    by (simp add: le_less less_append_same)
qed

lemma in_range_boot:
  assumes r: "plain_reading r" and s: "plain_reading s" and k: "in_range (reading_id s) (reading_id r)"
  shows "same_boot r s"
proof -
  obtain z where "reading_id r = boot_prefix s @ z"
    using k between_prefix unfolding in_range_def fresh_prefix_reading [OF s] by blast
  then show ?thesis
    using r s by (simp add: reading_id_eq boot_prefix_def same_boot_def plain_reading_def field_unique)
qed


definition demo_readings :: "reading list" where
  [model_defs]: "demo_readings = [\<lparr>r_source = ''B1'', r_boot = ''b'', r_seq = 1, r_type = SENSOR_DATA\<rparr>]"

definition next_reading :: reading where
  [model_defs]: "next_reading = \<lparr>r_source = ''B1'', r_boot = ''b'', r_seq = 2, r_type = SENSOR_DATA\<rparr>"

definition ledger :: "string list \<Rightarrow> oqueue" where
  [model_defs]: "ledger ids = demo_queue\<lparr>q_receipts := map (\<lambda>i. (i, ''h'', 0)) ids\<rparr>"


text \<open>
  A boot id with a dash is accepted by \<^const>\<open>identity_and_digest\<close> and falls into the range of
  another boot: the second sample of boot \<^verbatim>\<open>b\<close> is judged stale by the first of \<^verbatim>\<open>b-c\<close>.
\<close>

lemma foreign_boot_is_in_range:
  "\<not> sensor_is_fresh (ledger [''B1-b-c-00000001-S'']) ''B1-b-00000002-S''"
  by code_simp

end
