(* ===== verification/SensorFlow.thy ===== *)
theory SensorFlow
  imports Dispatch SensorDelivery
begin

text \<open>
  From a sample to a command: \<^verbatim>\<open>_process_sensor_message\<close> and \<^verbatim>\<open>_admit_sensor_upload\<close> of
  \<^verbatim>\<open>gateway/gateway.py\<close>. Processing is suspended once, while the durable receipt is being written
  to the sensor's socket; what comes after is a second step over the state found then. Storage
  outcomes of the audit trail are inputs, given by the state recorded.
\<close>

section \<open>Up to the durable admission\<close>

record sensor_job =
  sj_message :: message
  sj_record :: dict
  sj_trusted :: "string list"
  sj_usable :: bool
  sj_identity :: "string option"
  sj_admitted :: bool
  sj_received :: real

datatype sensor_stage = Finished | Failed py_error | Resume sensor_job

definition gcount_all :: "string list \<Rightarrow> gateway \<Rightarrow> gateway" where
  "gcount_all names g = foldl (\<lambda>g n. gcount n g) g names"

definition gcount_by :: "string \<Rightarrow> int \<Rightarrow> gateway \<Rightarrow> gateway" where
  "gcount_by name n g =
     g\<lparr>g_peer := (g_peer g)\<lparr>pl_fo := (g_fo g)\<lparr>f_metrics := inc_by (f_metrics (g_fo g)) name n\<rparr>\<rparr>\<rparr>"

text \<open>What a registration left as the sensor's boot; a value that is no string equals no boot.\<close>

definition registered_boot :: "gateway \<Rightarrow> string \<Rightarrow> string option" where
  "registered_boot g source =
     (case map_of (g_boots g) source of Some (PStr b) \<Rightarrow> Some b | _ \<Rightarrow> None)"

definition receipt_message :: "string \<Rightarrow> string \<Rightarrow> string \<Rightarrow> gio \<Rightarrow> message" where
  "receipt_message gateway target identity io =
     new_message PERSISTED_ACK gateway target
       [(''ack_message_id'', PStr identity), (''persisted'', PBool True), (''scope'', PStr ''GATEWAY_OUTBOX''),
        (''delivery_contract'', PStr DELIVERY_CONTRACT)] (wall (io_clock io)) (io_id io)"

text \<open>\<open>Inr\<close> is the admission, known before the receipt is written.\<close>

definition admit_upload :: "gateway \<Rightarrow> message \<Rightarrow> message \<Rightarrow> string \<Rightarrow> string \<Rightarrow> gio \<Rightarrow> gateway \<times> (py_error option + bool)" where
  "admit_upload g incoming upload identity digest io =
     (let refuse = (\<lambda>g e. if result_error_caught e then (gcount ''sensor_durable_rejected'' g, Inl None) else (g, Inl (Some e)))
      in case validate_server_upload upload of
          Some e \<Rightarrow> refuse g e
        | None \<Rightarrow>
            (case admit_sensor (g_outbox g) upload identity digest (wall (io_clock io)) (io_store io) of
               (q, Inl e) \<Rightarrow> refuse (g\<lparr>g_outbox := q\<rparr>) e
             | (q, Inr ok) \<Rightarrow>
                 let g1 = g\<lparr>g_outbox := q\<rparr>;
                     g2 = (if near_capacity q then (gcount ''sensor_receipt_near_capacity'' g1)\<lparr>g_warned := True\<rparr> else g1)
                 in (request_flush g2, Inr ok)))"

definition send_receipt :: "gateway \<Rightarrow> message \<Rightarrow> string \<Rightarrow> gio \<Rightarrow> wire option" where
  "send_receipt g incoming identity io =
     (case map_of (g_conns g) (m_source incoming) of
        None \<Rightarrow> Some []
      | Some w \<Rightarrow> if io_sent io then Some [(w, receipt_message (gw_id (g_fo g)) (m_source incoming) identity io)] else None)"

definition sensor_upload :: "gateway \<Rightarrow> message \<Rightarrow> dict \<Rightarrow> gio \<Rightarrow> message" where
  "sensor_upload g m r io =
     (new_message SENSOR_DATA (gw_id (g_fo g)) ''SERVER'' [(''record'', PDict r)] (wall (io_clock io)) (m_id m))\<lparr>m_sequence := m_sequence m\<rparr>"

definition stored_record :: "gateway \<Rightarrow> message \<Rightarrow> dict \<Rightarrow> dict" where
  "stored_record g m r =
     dset (dset (dset r ''gateway_id'' (PStr (gw_id (g_fo g)))) ''sensor_node_id'' (PStr (m_source m)))
       ''health_state'' (dgetd (m_payload m) ''health_state'' (PStr ''HEALTHY''))"

definition admit_job :: "gateway \<Rightarrow> sensor_job \<Rightarrow> message \<Rightarrow> (string \<times> string) option \<Rightarrow> gio \<Rightarrow> gateway \<times> wire \<times> sensor_stage" where
  "admit_job g job upload receipt io =
     (case receipt of
        None \<Rightarrow> (case submit_upload g upload io of
            (g1, Inl e) \<Rightarrow> (g1, [], Failed e) | (g1, Inr _) \<Rightarrow> (g1, [], Resume (job\<lparr>sj_admitted := True\<rparr>)))
      | Some (identity, digest) \<Rightarrow>
          (case admit_upload g (sj_message job) upload identity digest io of
             (g1, Inl None) \<Rightarrow> (g1, [], Finished)
           | (g1, Inl (Some e)) \<Rightarrow> (g1, [], Failed e)
           | (g1, Inr ok) \<Rightarrow>
               (case send_receipt g1 (sj_message job) identity io of
                  None \<Rightarrow> (g1, [], Failed StorageErr)
                | Some out \<Rightarrow> (g1, out, Resume (job\<lparr>sj_admitted := ok\<rparr>)))))"

text \<open>The stateful freshness check, and the job that a judged sample becomes.\<close>

definition sample_fresh :: "gateway \<Rightarrow> message \<Rightarrow> (string \<times> string) option \<Rightarrow> bool \<times> seq_guard" where
  "sample_fresh g m receipt =
     (case receipt of None \<Rightarrow> seq_accept (g_sequences g) m
      | Some (identity, _) \<Rightarrow> (sensor_is_fresh (g_outbox g) identity, g_sequences g))"

definition sample_job :: "message \<Rightarrow> ingress \<Rightarrow> prepared \<Rightarrow> (string \<times> string) option \<Rightarrow> dict \<Rightarrow> sensor_job" where
  "sample_job m ing pr receipt r =
     \<lparr>sj_message = m, sj_record = r, sj_trusted = pr_trusted pr,
      sj_usable = (dgetn r ''usable_for_control'' = PBool True), sj_identity = map_option fst receipt,
      sj_admitted = True, sj_received = in_mono ing\<rparr>"

definition alert_upload :: "gateway \<Rightarrow> message \<Rightarrow> dict \<Rightarrow> gio \<Rightarrow> message" where
  "alert_upload g m payload io = new_message ALERT (gw_id (g_fo g)) ''SERVER'' payload (wall (io_clock io)) (m_id m)"

definition sensor_prepared :: "gateway \<Rightarrow> message \<Rightarrow> ingress \<Rightarrow> prepared \<Rightarrow> (string \<times> string) option \<Rightarrow> gio \<Rightarrow>
    gateway \<times> wire \<times> sensor_stage" where
  "sensor_prepared g m ing pr receipt io =
     (let p = m_payload m; reliable = (receipt \<noteq> None);
          (fresh, sequences) = sample_fresh g m receipt;
          (r, events) = finalize_sensor_record pr p reliable (registered_boot g (m_source m)) fresh;
          g1 = gcount_all (events @ (if reliable then [] else [''sensor_messages''])) (g\<lparr>g_sequences := sequences\<rparr>)
      in if m_type m = ALERT
         then (case prepare_alert_upload m reliable of
             Inl e \<Rightarrow> (g1, [], Failed e)
           | Inr (payload, _) \<Rightarrow> admit_job g1 (sample_job m ing pr receipt r) (alert_upload g1 m payload io) receipt io)
         else let stored = stored_record g1 m r
              in admit_job g1 ((sample_job m ing pr receipt r)\<lparr>sj_record := stored\<rparr>) (sensor_upload g1 m stored io) receipt io)"

definition sensor_receive :: "gateway \<Rightarrow> (jtext \<Rightarrow> string) \<Rightarrow> message \<Rightarrow> ingress \<Rightarrow> gio \<Rightarrow> gateway \<times> wire \<times> sensor_stage" where
  "sensor_receive g hash m ing io =
     (let p = m_payload m; refused = (gcount ''sensor_durable_rejected'' g, [], Finished);
          go = (\<lambda>receipt. case prepare_sensor_record m (engine_name (d_engine (g_decider g))) (g_boot_id g) ing (mono_clock (io_clock io)) of
              None \<Rightarrow> (g, [], Finished)
            | Some pr \<Rightarrow> sensor_prepared g m ing pr receipt io)
      in if dgetn p ''delivery_contract'' = PStr DELIVERY_CONTRACT
         then (case identity_and_digest hash m of
             Inl e \<Rightarrow> (case e of MessageErr _ \<Rightarrow> refused | ValueErr _ \<Rightarrow> refused | _ \<Rightarrow> (g, [], Failed e))
           | Inr receipt \<Rightarrow> if q_path (g_outbox g) = '':memory:'' then refused else go (Some receipt))
         else if dhas p ''delivery_contract'' then refused else go None)"

section \<open>The decision\<close>

text \<open>\<^verbatim>\<open>audit_sensor_control\<close> for a reliable sample; nothing for others.\<close>

definition audit_job :: "gateway \<Rightarrow> sensor_job \<Rightarrow> string \<Rightarrow> string option \<Rightarrow> (string \<Rightarrow> bool) \<Rightarrow> gio \<Rightarrow> gateway \<times> py_error option" where
  "audit_job g job state command audits io =
     (case sj_identity job of
        None \<Rightarrow> (g, None)
      | Some identity \<Rightarrow>
          (case audit_control (g_outbox g) identity state command (wall (io_clock io)) (audits state) of
             (q, Inl e) \<Rightarrow> (g\<lparr>g_outbox := q\<rparr>, Some e) | (q, Inr _) \<Rightarrow> (g\<lparr>g_outbox := q\<rparr>, None)))"

definition sensor_command :: "gateway \<Rightarrow> sensor_job \<Rightarrow> string \<Rightarrow> dict \<Rightarrow> gio \<Rightarrow> message" where
  "sensor_command g job target decision io =
     (let p = dset (dset (dset decision ''command_id'' (PStr (io_id io))) ''gateway_generation'' (PInt (o_generation (f_own (g_fo g)))))
            ''sensor_node_id'' (PStr (m_source (sj_message job)));
          p' = (case sj_identity job of None \<Rightarrow> p | Some i \<Rightarrow> dset p ''sensor_receipt_identity'' (PStr i))
      in new_message CONTROL_COMMAND (gw_id (g_fo g)) target p' (wall (io_clock io)) (io_id io))"

definition target_of :: "gateway \<Rightarrow> string \<Rightarrow> string" where
  "target_of g source = (case map_of CONTROLLER_OF_SENSOR source of Some c \<Rightarrow> c | None \<Rightarrow> g_controller g)"

text \<open>Why a sample leads to no decision: the audit state, what is counted before it and after it.\<close>

definition skip_reason :: "gateway \<Rightarrow> sensor_job \<Rightarrow> real \<Rightarrow> (string \<times> string list \<times> string list) option" where
  "skip_reason g job now =
     (if \<not> sj_usable job then Some (''SKIPPED_UNTRUSTED_OR_STALE'', [], [''sensor_control_skipped''])
      else if \<not> (dhas (sj_record job) ''soil_moisture'' \<or> dhas (sj_record job) ''temperature'')
        then Some (''SKIPPED_FIELDS'', [], [''insufficient_sensor_fields''])
      else if \<not> may_control (f_own (g_fo g)) (f_reg (g_fo g)) (target_of g (m_source (sj_message job)))
        then Some (''SKIPPED_NOT_OWNER'', [], [])
      else if \<not> fresh_at_decision (m_payload (sj_message job)) (sj_identity job \<noteq> None) (sj_received job) now
        then Some (''SKIPPED_UNTRUSTED_OR_STALE'', [''freshness_rejected_at_decision''], [])
      else None)"

definition skip_job :: "gateway \<Rightarrow> sensor_job \<Rightarrow> string \<Rightarrow> string list \<Rightarrow> string list \<Rightarrow> (string \<Rightarrow> bool) \<Rightarrow> gio \<Rightarrow>
    gateway \<times> py_error option" where
  "skip_job g job state before after audits io =
     (case audit_job (gcount_all before g) job state None audits io of
        (g1, Some e) \<Rightarrow> (g1, Some e)
      | (g1, None) \<Rightarrow>
          if state = ''SKIPPED_NOT_OWNER''
          then (g1\<lparr>g_peer := (g_peer g1)\<lparr>pl_fo := (g_fo g1)\<lparr>f_standby_logged := True\<rparr>\<rparr>\<rparr>, None)
          else (gcount_all after g1, None))"

text \<open>\<open>latency\<close> is the measured time of the decision, in microseconds.\<close>

definition sensor_decide :: "gateway \<Rightarrow> sensor_job \<Rightarrow> int \<Rightarrow> (string \<Rightarrow> bool) \<Rightarrow> gio \<Rightarrow> gateway \<times> py_error option" where
  "sensor_decide g job latency audits io =
     (case skip_reason g job (mono_clock (io_clock io)) of
        Some (state, before, after) \<Rightarrow> skip_job g job state before after audits io
      | None \<Rightarrow>
          (case audit_job g job ''DECIDING'' None audits io of
             (g1, Some e) \<Rightarrow> (g1, Some e)
           | (g1, None) \<Rightarrow>
               (case decide (g_decider g1) (sj_record job) (Some (sj_trusted job)) of
                  Inl (FeatureErr t) \<Rightarrow>
                    (case audit_job g1 job ''SKIPPED_FEATURES'' None audits io of
                       (g2, Some e) \<Rightarrow> (g2, Some e) | (g2, None) \<Rightarrow> (gcount ''feature_rejected'' g2, None))
                | Inl e \<Rightarrow> (g1, Some e)
                | Inr decision \<Rightarrow>
                    let g2 = gcount_by ''decision_latency_us'' latency (gcount ''decision_calls'' g1)
                    in (case decision of
                        None \<Rightarrow> audit_job g2 job ''NO_ACTION'' None audits io
                      | Some d \<Rightarrow>
                          let c = sensor_command g2 job (target_of g2 (m_source (sj_message job))) d io
                          in (case audit_job g2 job ''COMMAND_PLANNED'' (Some (m_id c)) audits io of
                              (g3, Some e) \<Rightarrow> (g3, Some e)
                            | (g3, None) \<Rightarrow> (case queue_command g3 c False io of
                                (g4, Inl e) \<Rightarrow> (g4, Some e) | (g4, Inr _) \<Rightarrow> (g4, None)))))))"

text \<open>What follows the receipt, or the submission of an upload that needs none.\<close>

definition sensor_resume :: "gateway \<Rightarrow> sensor_job \<Rightarrow> int \<Rightarrow> (string \<Rightarrow> bool) \<Rightarrow> gio \<Rightarrow> gateway \<times> py_error option" where
  "sensor_resume g job latency audits io =
     (let reliable = (sj_identity job \<noteq> None); alert = (m_type (sj_message job) = ALERT);
          g1 = (if \<not> reliable then g
                else if sj_admitted job then gcount_all [''sensor_durable_admitted'', ''sensor_messages''] g
                else gcount ''sensor_durable_duplicates'' g)
      in if \<not> sj_admitted job then (g1, None)
         else if alert then audit_job g1 job ''ALERT_ONLY'' None audits io
         else sensor_decide (if reliable then g1\<lparr>g_sequences := snd (seq_accept (g_sequences g1) (sj_message job))\<rparr> else g1)
                job latency audits io)"

text \<open>\<^verbatim>\<open>task_sensor_data\<close>: the exceptions it handles are counted.\<close>

definition task_handles :: "py_error \<Rightarrow> bool" where
  "task_handles e = result_error_caught e"

definition sensor_failed :: "gateway \<Rightarrow> py_error option \<Rightarrow> gateway \<times> py_error option" where
  "sensor_failed g e =
     (case e of None \<Rightarrow> (g, None)
      | Some x \<Rightarrow> if task_handles x then (gcount ''sensor_processing_failures'' g, None) else (g, Some x))"

definition sensor_next :: "gateway \<Rightarrow> (jtext \<Rightarrow> string) \<Rightarrow> gio \<Rightarrow> gateway \<times> wire \<times> sensor_job option \<times> py_error option" where
  "sensor_next g hash io =
     (case get_nowait (g_sensors g) (mono_clock (io_clock io)) of
        (None, q) \<Rightarrow> (g, [], None, None)
      | (Some (m, ing), q) \<Rightarrow>
          (case sensor_receive (g\<lparr>g_sensors := q\<rparr>) hash m ing io of
             (g1, out, Finished) \<Rightarrow> (g1, out, None, None)
           | (g1, out, Failed e) \<Rightarrow> (case sensor_failed g1 (Some e) of (g2, r) \<Rightarrow> (g2, out, None, r))
           | (g1, out, Resume job) \<Rightarrow> (g1, out, Some job, None)))"

definition sensor_continue :: "gateway \<Rightarrow> sensor_job \<Rightarrow> int \<Rightarrow> (string \<Rightarrow> bool) \<Rightarrow> gio \<Rightarrow> gateway \<times> py_error option" where
  "sensor_continue g job latency audits io =
     (case sensor_resume g job latency audits io of (g1, e) \<Rightarrow> sensor_failed g1 e)"

end
