(* ===== verification/Clients.thy ===== *)
theory Clients
  imports SensorFlow
begin

text \<open>
  The inbound side of the gateway and its periodic task: routing of what nodes and the peer send
  (\<^verbatim>\<open>_handle_client\<close>, \<^verbatim>\<open>_handle_register\<close>, \<^verbatim>\<open>_ingress_put\<close>), the consumption of results
  (\<^verbatim>\<open>task_control_result\<close>), the takeover with its alert and notices (\<^verbatim>\<open>_takeover\<close>), and one round
  of \<^verbatim>\<open>task_heartbeat\<close>.
\<close>

section \<open>Replies\<close>

text \<open>A reply on the connection's own socket; when it cannot be written the connection ends.\<close>

definition answer :: "gateway \<Rightarrow> nat \<Rightarrow> message \<Rightarrow> gio \<Rightarrow> gateway \<times> wire \<times> bool" where
  "answer g w m io = (if io_sent io then (g, [(w, m)], True) else (g, [], False))"

definition status_message :: "gateway \<Rightarrow> string \<Rightarrow> dict \<Rightarrow> gio \<Rightarrow> message" where
  "status_message g target p io = new_message NODE_STATUS (gw_id (g_fo g)) target p (wall (io_clock io)) (io_id io)"

definition queue_full_reply :: "message \<Rightarrow> dict" where
  "queue_full_reply m =
     [(''accepted'', PBool False), (''reason'', PStr ''QUEUE_FULL''), (''rejected_message_id'', PStr (m_id m)),
      (''persisted'', PBool False), (''result_state'', if m_type m = CONTROL_RESULT then PStr ''RESULT_REJECTED'' else PNone)]"

definition ingress_full :: "gateway \<Rightarrow> nat \<Rightarrow> message \<Rightarrow> gio \<Rightarrow> gateway \<times> wire \<times> bool" where
  "ingress_full g w m io =
     (let g1 = gcount ''ingress_queue_rejected'' g in answer g1 w (status_message g1 (m_source m) (queue_full_reply m) io) io)"

section \<open>One message of a connection\<close>

definition touch_node :: "gateway \<Rightarrow> string \<Rightarrow> clocks \<Rightarrow> gateway" where
  "touch_node g node now =
     g\<lparr>g_peer := (g_peer g)\<lparr>pl_fo := (g_fo g)\<lparr>f_reg := touch (f_reg (g_fo g)) node None now\<rparr>\<rparr>\<rparr>"

definition peer_handshake_message :: "gateway \<Rightarrow> nat \<Rightarrow> message \<Rightarrow> string \<Rightarrow> gio \<Rightarrow> gateway \<times> wire \<times> bool" where
  "peer_handshake_message g w m nonce io =
     (case peer_status_message (g_peer g) w m nonce of
        (l, None) \<Rightarrow> (g\<lparr>g_peer := l\<rparr>, [], True)
      | (l, Some p) \<Rightarrow> (let g1 = g\<lparr>g_peer := l\<rparr> in answer g1 w (status_message g1 (m_source m) p io) io))"

definition node_registration :: "gateway \<Rightarrow> nat \<Rightarrow> message \<Rightarrow> gio \<Rightarrow> gateway \<times> wire \<times> bool" where
  "node_registration g w m io =
     (case handle_register (g_fo g) m (io_clock io) of
        (None, f) \<Rightarrow> (g, [], True)
      | (Some (accepted, p), f) \<Rightarrow>
          let g1 = g\<lparr>g_peer := (g_peer g)\<lparr>pl_fo := f\<rparr>\<rparr>;
              g2 = (if accepted then g1\<lparr>g_conns := dset (g_conns g1) (m_source m) w,
                        g_boots := dset (g_boots g1) (m_source m) (dgetn (m_payload m) ''boot_id'')\<rparr> else g1)
          in answer g2 w (new_message NODE_REGISTER_ACK (gw_id (g_fo g2)) (m_source m) p (wall (io_clock io)) (io_id io)) io)"

definition ack_message :: "gateway \<Rightarrow> nat \<Rightarrow> message \<Rightarrow> gateway" where
  "ack_message g w m =
     (case dgetn (m_payload m) ''ack_message_id'' of
        PStr acked \<Rightarrow>
          (case map_of (at_pending (g_tracker g)) acked of
             None \<Rightarrow> g
           | Some e \<Rightarrow>
               if m_target (pm_message e) = m_source m \<and> m_target m = gw_id (g_fo g) \<and> map_of (g_conns g) (m_source m) = Some w
               then gcount ''acks_received'' (g\<lparr>g_tracker := snd (acknowledge (g_tracker g) acked),
                      g_outcomes := oc_ack (g_outcomes g) (command_id_of (pm_message e))\<rparr>)
               else g)
      | _ \<Rightarrow> g)"

definition node_message :: "gateway \<Rightarrow> nat \<Rightarrow> message \<Rightarrow> gio \<Rightarrow> gateway \<times> wire \<times> bool" where
  "node_message g w m io =
     (if map_of (g_conns g) (m_source m) \<noteq> Some w \<or> m_target m \<noteq> gw_id (g_fo g) \<or> \<not> owns (f_own (g_fo g)) (f_reg (g_fo g)) (m_source m)
      then (gcount ''unregistered_node_messages'' g, [], True)
      else let g1 = touch_node g (m_source m) (io_clock io); now = mono_clock (io_clock io)
      in if m_type m = NODE_STATUS \<and> m_source m \<noteq> peer_id (g_fo g) then (g1, [], True)
      else if m_type m \<in> {SENSOR_DATA, ALERT}
        then (case put_nowait (g_sensors g1) (m, \<lparr>in_boot = g_boot_id g1, in_mono = now, in_wall = wall (io_clock io)\<rparr>) now of
            (True, q) \<Rightarrow> (g1\<lparr>g_sensors := q\<rparr>, [], True)
          | (False, q) \<Rightarrow> ingress_full (g1\<lparr>g_sensors := q\<rparr>) w m io)
      else if m_type m = CONTROL_RESULT
        then (case put_nowait (g_results g1) (m, w) now of
            (True, q) \<Rightarrow> (g1\<lparr>g_results := q\<rparr>, [], True)
          | (False, q) \<Rightarrow> ingress_full (g1\<lparr>g_results := q\<rparr>) w m io)
      else (g, [], True))"

text \<open>The last component says whether the connection goes on.\<close>

definition client_message :: "gateway \<Rightarrow> nat \<Rightarrow> message \<Rightarrow> string \<Rightarrow> gio \<Rightarrow> gateway \<times> wire \<times> bool" where
  "client_message g w m nonce io =
     (if m_source m = peer_id (g_fo g) \<and> m_type m = NODE_STATUS then peer_handshake_message g w m nonce io
      else if m_type m = NODE_REGISTER then node_registration g w m io
      else if m_type m = ACK then (ack_message g w m, [], True)
      else if m_type m = HEARTBEAT
        then (g\<lparr>g_peer := snd (peer_heartbeat (g_peer g) w m (io_clock io) (io_store io))\<rparr>, [], True)
      else node_message g w m io)"

definition client_closed :: "gateway \<Rightarrow> nat \<Rightarrow> gateway" where
  "client_closed g w =
     g\<lparr>g_peer := drop_socket (g_peer g) w, g_conns := filter (\<lambda>(n, v). v \<noteq> w) (g_conns g)\<rparr>"

definition result_next :: "gateway \<Rightarrow> (jtext \<Rightarrow> string) \<Rightarrow> (string \<Rightarrow> bool) \<Rightarrow> gio \<Rightarrow> gateway \<times> wire \<times> (py_error + bool) option" where
  "result_next g hash sends io =
     (case get_nowait (g_results g) (mono_clock (io_clock io)) of
        (None, q) \<Rightarrow> (g, [], None)
      | (Some (m, w), q) \<Rightarrow>
          (case process_control_result (g\<lparr>g_results := q\<rparr>) hash m (Some w) sends io of (g1, out, r) \<Rightarrow> (g1, out, Some r)))"

section \<open>Takeover and the heartbeat round\<close>

definition failover_alert :: "gateway \<Rightarrow> string list \<Rightarrow> gio \<Rightarrow> message" where
  "failover_alert g mine io =
     new_message ALERT (gw_id (g_fo g)) ''SERVER''
       [(''alert_type'', PStr ''GATEWAY_FAILOVER''), (''generation'', PInt (o_generation (f_own (g_fo g)))),
        (''message'', PStr (''takeover from '' @ peer_id (g_fo g))), (''nodes'', PList (map PStr mine))] (wall (io_clock io)) (io_id io)"

definition notices :: "gateway \<Rightarrow> string list \<Rightarrow> gio \<Rightarrow> wire" where
  "notices g mine io =
     map (\<lambda>(n, w). (w, status_message g n [(''node_id'', PStr n), (''owner_gateway'', PStr (gw_id (g_fo g))),
        (''generation'', PInt (o_generation (f_own (g_fo g)))), (''status'', PStr ''ONLINE'')] io))
       (filter (\<lambda>(n, w). n \<in> set mine) (g_conns g))"

text \<open>The frames are those of the notice tasks that the takeover starts.\<close>

definition announce_takeover :: "gateway \<Rightarrow> string list \<Rightarrow> gio \<Rightarrow> gateway \<times> wire \<times> py_error option" where
  "announce_takeover g mine io =
     (case put_nowait (g_uploads g) (failover_alert g mine io) (mono_clock (io_clock io)) of
        (True, q) \<Rightarrow> (g\<lparr>g_uploads := q\<rparr>, notices g mine io, None)
      | (False, q) \<Rightarrow>
          (case persist_congested (g\<lparr>g_uploads := q\<rparr>) (failover_alert g mine io) io of
             (g1, Inl e) \<Rightarrow> (g1, [], Some e) | (g1, Inr _) \<Rightarrow> (g1, notices g1 mine io, None)))"

definition evaluate_and_announce :: "gateway \<Rightarrow> gio \<Rightarrow> gateway \<times> wire \<times> health \<times> py_error option" where
  "evaluate_and_announce g io =
     (case evaluate_peer (g_fo g) (io_clock io) (io_audit io) of
        (status, None, f) \<Rightarrow> (g\<lparr>g_peer := (g_peer g)\<lparr>pl_fo := f\<rparr>\<rparr>, [], status, None)
      | (status, Some mine, f) \<Rightarrow>
          (case announce_takeover (g\<lparr>g_peer := (g_peer g)\<lparr>pl_fo := f\<rparr>\<rparr>) mine io of
             (g1, out, None) \<Rightarrow> (g1, out, status, None)
           | (g1, out, Some e) \<Rightarrow>
               (g1\<lparr>g_peer := (g_peer g1)\<lparr>pl_fo := (g_fo g1)\<lparr>f_peer_status := f_peer_status (g_fo g)\<rparr>\<rparr>\<rparr>, out, status, Some e)))"

definition status_payload :: "gateway \<Rightarrow> health \<Rightarrow> real \<Rightarrow> dict" where
  "status_payload g status now =
     heartbeat_payload (g_fo g) status (link_name (k_state (g_link g))) (queue_stats (g_outbox g) now)
       (if g_alert_state g = [] then PNone else PDict (g_alert_state g))
       [(''sensor'', PDict (bq_stats (g_sensors g))), (''result'', PDict (bq_stats (g_results g))),
        (''upload'', PDict (bq_stats (g_uploads g))), (''command'', PDict (bq_stats (g_commands g)))]"

text \<open>
  One round after the connection attempt; \<open>pw\<close> is the socket of the peer link. The payload object
  is shared: what the peer's heartbeat adds to it (session, sequence, tag) also goes to the cloud.
  A write that fails drops the link.
\<close>

definition heartbeat_round :: "gateway \<Rightarrow> nat \<Rightarrow> real \<Rightarrow> gio \<Rightarrow> gateway \<times> wire \<times> py_error option" where
  "heartbeat_round g pw timeout io =
     (case evaluate_and_announce g io of
        (g1, out, status, Some e) \<Rightarrow> (g1, out, Some e)
      | (g1, out, status, None) \<Rightarrow>
          let payload = status_payload g1 status (wall (io_clock io));
              (beat, l) = send_heartbeat (g_peer g1) payload (wall (io_clock io)) (io_id io);
              g2 = g1\<lparr>g_peer := (if beat \<noteq> None \<and> \<not> io_sent io then l\<lparr>pl_linked := False\<rparr> else l)\<rparr>;
              frames = (case beat of Some m \<Rightarrow> if io_sent io then [(pw, m)] else [] | None \<Rightarrow> []);
              p = (case beat of Some m \<Rightarrow> m_payload m | None \<Rightarrow> payload)
          in (case submit_upload g2 (new_message HEARTBEAT (gw_id (g_fo g2)) ''SERVER'' p (wall (io_clock io)) (io_id io)) io of
              (g3, Inl e) \<Rightarrow> (g3, out @ frames, Some e)
            | (g3, Inr _) \<Rightarrow>
                (g3\<lparr>g_peer := (g_peer g3)\<lparr>pl_fo := (g_fo g3)\<lparr>
                     f_reg := snd (expire (f_reg (g_fo g3)) (mono_clock (io_clock io)) timeout),
                     f_last_tick := Some (mono_clock (io_clock io))\<rparr>\<rparr>\<rparr>, out @ frames, None)))"

end
