(* ===== verification/GatewayFrames.thy ===== *)
theory GatewayFrames
  imports Clients
begin

text \<open>
  What the handlers of the gateway leave alone. Every handler except the replay keeps the rows of the
  outbox and the promises of its ledgers, leaves the waiters for receipts as they are, and at most
  schedules the replay.
\<close>

section \<open>Operations that keep the outbox\<close>

definition outbox_ids :: "oqueue \<Rightarrow> string set" where
  "outbox_ids q = (\<lambda>r. m_id (r_message r)) ` set (q_rows q)"

text \<open>The samples and results whose receipt the queue has promised.\<close>

definition promised :: "oqueue \<Rightarrow> string set" where
  "promised q = fst ` set (q_receipts q) \<union> fst ` set (q_results q)"

definition keeps :: "oqueue \<Rightarrow> oqueue \<Rightarrow> bool" where
  "keeps q q' \<longleftrightarrow> (q_inv q \<longrightarrow> q_inv q' \<and> (\<forall>i m. stored q i = Some m \<longrightarrow> stored q' i = Some m) \<and>
     promised q \<subseteq> promised q' \<and> promised q' \<subseteq> promised q \<union> outbox_ids q')"

lemma stored_ids: "stored q i = Some m \<Longrightarrow> m_id m \<in> outbox_ids q"
  by (auto simp: stored_def outbox_ids_def find_Some_iff)

lemma find_sorted: "sorted_wrt (\<lambda>a b. r_id a < r_id b) rs \<Longrightarrow> r \<in> set rs \<Longrightarrow> find (\<lambda>s. r_id s = r_id r) rs = Some r"
  by (induction rs) auto

lemma stored_row: "q_inv q \<Longrightarrow> r \<in> set (q_rows q) \<Longrightarrow> stored q (r_id r) = Some (r_message r)"
  by (simp add: stored_def find_sorted q_inv_def rows_ok_def)

lemma outbox_ids_stored: "q_inv q \<Longrightarrow> k \<in> outbox_ids q \<longleftrightarrow> (\<exists>i m. stored q i = Some m \<and> m_id m = k)"
  using stored_row stored_ids by (fastforce simp: outbox_ids_def)

lemma keeps_refl [simp, intro]: "keeps q q"
  by (simp add: keeps_def)

lemma keeps_ids: "keeps q q' \<Longrightarrow> q_inv q \<Longrightarrow> outbox_ids q \<subseteq> outbox_ids q'"
  unfolding keeps_def by (metis outbox_ids_stored subsetI)

lemma keeps_trans:
  assumes "keeps a b" "keeps b c"
  shows "keeps a c"
proof (cases "q_inv a")
  case True
  then have "q_inv b" using assms(1) by (simp add: keeps_def)
  with True assms keeps_ids [OF assms(2)] show ?thesis
    by (auto simp: keeps_def)
qed (simp add: keeps_def)

lemma enqueue_row_id: "enqueue_row q m now = (q', Inr x) \<Longrightarrow> m_id m \<in> outbox_ids q'"
  by (erule enqueue_row_cases) (force simp: outbox_ids_def)+

lemma promised_cong: "q_receipts q' = q_receipts q \<Longrightarrow> q_results q' = q_results q \<Longrightarrow> promised q' = promised q"
  by (simp add: promised_def)

lemma promised_step:
  assumes "\<And>m i d now io. op = QSensor m i d now io \<Longrightarrow> m_id m = i"
  shows "promised q \<subseteq> promised (q_step q op) \<and> promised (q_step q op) \<subseteq> promised q \<union> outbox_ids (q_step q op)"
proof (cases op)
  case (QEnqueue m now io)
  obtain q1 res where "enqueue_row q m now = (q1, res)" by fastforce
  with enqueue_row_tables [OF this] QEnqueue show ?thesis
    by (auto simp: enqueue_def promised_def split: sum.split)
next
  case (QSensor m i d now io)
  obtain q1 res where row: "enqueue_row q m now = (q1, res)" by fastforce
  with enqueue_row_tables [OF row] enqueue_row_id [of q m now q1] QSensor assms [OF QSensor] show ?thesis
    by (auto simp: admit_sensor_def promised_def outbox_ids_def split: sum.split option.split)
next
  case (QResult m d now io)
  obtain q1 res where row: "enqueue_row q m now = (q1, res)" by fastforce
  with enqueue_row_tables [OF row] enqueue_row_id [of q m now q1] QResult show ?thesis
    by (auto simp: admit_result_def promised_def outbox_ids_def split: sum.split option.split)
qed (auto simp: promised_def audit_control_def audit_outcome_def bump_retry_def delete_row_def queue_connect_def
    split: option.split)

lemma keeps_step:
  assumes "\<And>i. \<not> deletes i op" "\<And>m i d now io. op = QSensor m i d now io \<Longrightarrow> m_id m = i"
  shows "keeps q (q_step q op)"
  using assms promised_step [OF assms(2)] by (simp add: keeps_def stored_step q_step_inv)

lemma keeps_sensor: "admit_sensor q m i d now io = (q', r) \<Longrightarrow> m_id m = i \<Longrightarrow> keeps q q'"
  using keeps_step [of "QSensor m i d now io" q] by (simp add: deletes_def)

lemma keeps_enqueue: "enqueue q m now io = (q', r) \<Longrightarrow> keeps q q'"
  using keeps_step [of "QEnqueue m now io" q] by (simp add: deletes_def)

lemma keeps_audit: "audit_control q i s c now io = (q', r) \<Longrightarrow> keeps q q'"
  using keeps_step [of "QAudit i s c now io" q] by (simp add: deletes_def)

lemma keeps_outcome: "audit_outcome q c s now io = (q', r) \<Longrightarrow> keeps q q'"
  using keeps_step [of "QOutcome c s now io" q] by (simp add: deletes_def)

lemma keeps_result: "admit_result q m d now io = (q', r) \<Longrightarrow> keeps q q'"
  using keeps_step [of "QResult m d now io" q] by (simp add: deletes_def)

lemma keeps_bump: "bump_retry q i io = (q', r) \<Longrightarrow> keeps q q'"
  using keeps_step [of "QBump i io" q] by (simp add: deletes_def)

lemma keeps_connect: "keeps q (queue_connect q p)"
  using keeps_step [of "QConnect p" q] by (simp add: deletes_def)

text \<open>What every handler but the replay does to the replay state: nothing, or schedule it.\<close>

definition calm :: "gateway \<Rightarrow> gateway \<Rightarrow> bool" where
  "calm g g' \<longleftrightarrow> keeps (g_outbox g) (g_outbox g') \<and> g_waiters g' = g_waiters g \<and>
     (g_flush g' = g_flush g \<or> g_flush g = NoFlush \<and> g_flush g' = Scheduled)"

lemma calm_refl [simp, intro]: "calm g g"
  by (simp add: calm_def)

lemma calm_trans: "calm a b \<Longrightarrow> calm b c \<Longrightarrow> calm a c"
  unfolding calm_def using keeps_trans by (metis flush.distinct(1))

lemma calm_frame: "g_outbox g' = g_outbox g \<Longrightarrow> g_waiters g' = g_waiters g \<Longrightarrow> g_flush g' = g_flush g \<Longrightarrow> calm g g'"
  by (simp add: calm_def)

lemma calm_gcount [simp]: "calm g (gcount n g') = calm g g'"
  by (simp add: calm_def)

lemma calm_queue: "queue_locally g m io = (g', r) \<Longrightarrow> calm g g'"
  using keeps_enqueue by (force simp: queue_locally_def calm_def split: if_splits prod.splits sum.splits)

lemma calm_flush_request: "calm g (request_flush g)"
  by (simp add: request_flush_def calm_def)

lemma calm_congested: "persist_congested g m io = (g', r) \<Longrightarrow> calm g g'"
proof -
  assume r: "persist_congested g m io = (g', r)"
  obtain g1 e where q: "queue_locally g m io = (g1, e)"
    by (metis surj_pair)
  have "calm g1 g'"
    using r q calm_flush_request by (auto simp: persist_congested_def calm_def split: option.splits if_splits)
  with calm_queue [OF q] show ?thesis by (rule calm_trans)
qed

lemma calm_submit: "submit_upload g m io = (g', r) \<Longrightarrow> calm g g'"
proof -
  assume r: "submit_upload g m io = (g', r)"
  obtain ok q where p: "put_nowait (g_uploads g) m (mono_clock (io_clock io)) = (ok, q)"
    by (metis surj_pair)
  show ?thesis
  proof (cases "\<not> ok \<and> m_type m \<in> set QUEUEABLE_TYPES")
    case True
    have "persist_congested (gcount ''upload_queue_saturated'' (g\<lparr>g_uploads := q\<rparr>)) m io = (g', r)"
      using r p True by (simp add: submit_upload_def)
    from calm_congested [OF this] show ?thesis
      by (simp add: calm_def)
  next
    case False
    then show ?thesis
      using r p by (auto simp: submit_upload_def calm_def split: if_splits bool.splits)
  qed
qed

lemma calm_audit: "audit_step g m state c io = (g', r) \<Longrightarrow> calm g g'"
  using keeps_audit by (force simp: audit_step_def Let_def calm_def split: if_splits prod.splits sum.splits)

lemma calm_report: "report_undispatched g m reason first io = (g', r) \<Longrightarrow> calm g g'"
proof -
  assume r: "report_undispatched g m reason first io = (g', r)"
  obtain g1 e where a: "audit_step g m (if first then ''NOT_DISPATCHED'' else ''DISPATCH_UNCERTAIN'') None io = (g1, e)"
    by (metis surj_pair)
  show ?thesis
  proof (cases e)
    case (Some x)
    then show ?thesis using r a calm_audit [OF a] by (simp add: report_undispatched_def)
  next
    case None
    define g2 where "g2 = gcount (if first then ''not_dispatched'' else ''dispatch_unknown'')
                 (g1\<lparr>g_tracker := discard (g_tracker g1) (m_id m), g_outcomes := oc_drop (g_outcomes g1) (command_id_of m)\<rparr>)"
    obtain g3 x where s: "submit_upload g2 (undispatched_result (gw_id (g_fo g2)) m reason first io) io = (g3, x)"
      by (metis surj_pair)
    have "calm g1 g2"
      by (simp add: g2_def calm_def)
    moreover have "g' = g3"
      using r a None s by (simp add: report_undispatched_def Let_def g2_def split: sum.splits)
    ultimately show ?thesis
      using calm_audit [OF a] calm_submit [OF s] calm_trans by blast
  qed
qed

lemma calm_queue_command: "queue_command g m retry io = (g', r) \<Longrightarrow> calm g g'"
proof -
  assume r: "queue_command g m retry io = (g', r)"
  obtain ok q where p: "put_nowait (g_commands g) (m, retry) (mono_clock (io_clock io)) = (ok, q)"
    by (metis surj_pair)
  obtain g1 e where rep: "report_undispatched (gcount ''command_queue_rejected'' (g\<lparr>g_commands := q\<rparr>)) m ''QUEUE_FULL'' (\<not> retry) io = (g1, e)"
    by (metis surj_pair)
  show ?thesis
    using r p rep calm_report [OF rep] by (auto simp: queue_command_def calm_def split: bool.splits option.splits)
qed

lemma calm_dispatch: "dispatch_command g m first closing lost io = (g', out, r) \<Longrightarrow> calm g g'"
proof -
  assume r: "dispatch_command g m first closing lost io = (g', out, r)"
  define g1 where "g1 = (if first then gcount ''commands'' g else g)"
  have c1: "calm g g1"
    by (simp add: g1_def)
  show ?thesis
  proof (cases "dispatch_reason g1 m (wall (io_clock io)) closing")
    case (Some reason)
    then have "report_undispatched g1 m reason first io = (g', r)"
      using r unfolding dispatch_command_def Let_def g1_def [symmetric] by (auto split: prod.splits)
    with c1 calm_report calm_trans show ?thesis by blast
  next
    case None
    define m1 where "m1 = (if first then first_stamp g1 m else m)"
    define g2 where "g2 = (if first then remember_command g1 m1 io else g1)"
    have c2: "calm g1 g2"
      by (simp add: g2_def remember_command_def calm_def)
    obtain g3 e where a: "audit_step g2 m1 ''DISPATCH_UNCERTAIN'' (Some (command_id_of m1)) io = (g3, e)"
      by (metis surj_pair)
    obtain g4 x where s: "submit_upload g3 (command_upload g3 m1 io) io = (g4, x)"
      by (metis surj_pair)
    have "g' = g2 \<or> g' = g3 \<or> g' = g3\<lparr>g_conns := ddel (g_conns g3) (m_target m1)\<rparr> \<or> g' = g4"
      using r None a s by (auto simp: dispatch_command_def g1_def [symmetric] m1_def [symmetric] g2_def [symmetric] Let_def
          split: if_splits option.splits sum.splits)
    moreover have "calm g3 (g3\<lparr>g_conns := ddel (g_conns g3) (m_target m1)\<rparr>)"
      by (simp add: calm_def)
    ultimately show ?thesis
      using c1 c2 calm_audit [OF a] calm_submit [OF s] calm_trans by metis
  qed
qed

lemma calm_deliver: "deliver g m io = (g', out, r) \<Longrightarrow> calm g g'"
proof -
  assume r: "deliver g m io = (g', out, r)"
  obtain g1 e where q: "queue_locally g m io = (g1, e)"
    by (metis surj_pair)
  have "calm g1 (request_flush (g1\<lparr>g_link := k\<rparr>))" for k
    using calm_flush_request [of "g1\<lparr>g_link := k\<rparr>"] by (simp add: calm_def)
  then have two: "calm g (request_flush (g1\<lparr>g_link := k\<rparr>))" "calm g (request_flush g1)" "calm g g1" for k
    using calm_trans [OF calm_queue [OF q]] calm_flush_request calm_queue [OF q] by blast+
  have "g' = g1 \<or> g' = request_flush g1 \<or> (\<exists>k. g' = request_flush (g1\<lparr>g_link := k\<rparr>)) \<or> g' = g \<or> g' = g\<lparr>g_server := None\<rparr>"
    using r q by (auto simp: deliver_def Let_def split: if_splits option.splits)
  then show ?thesis
    using two by (elim disjE exE) (simp_all add: calm_frame)
qed

lemma calm_upload_next: "upload_next g io = (g', out, r) \<Longrightarrow> calm g g'"
proof -
  assume r: "upload_next g io = (g', out, r)"
  obtain x q where p: "get_nowait (g_uploads g) (mono_clock (io_clock io)) = (x, q)"
    by (metis surj_pair)
  show ?thesis
  proof (cases x)
    case None
    then show ?thesis using r p by (simp add: upload_next_def)
  next
    case (Some m)
    obtain g1 o1 e where d: "deliver (g\<lparr>g_uploads := q\<rparr>) m io = (g1, o1, e)"
      by (metis surj_pair)
    have "calm g g1"
      using calm_deliver [OF d] by (simp add: calm_def)
    moreover have "calm g1 g'"
      using r p Some d by (auto simp: upload_next_def calm_frame split: option.splits py_error.splits)
    ultimately show ?thesis by (rule calm_trans)
  qed
qed

lemma calm_command_next: "command_next g closing lost io = (g', out, r) \<Longrightarrow> calm g g'"
proof -
  assume r: "command_next g closing lost io = (g', out, r)"
  obtain x q where p: "get_nowait (g_commands g) (mono_clock (io_clock io)) = (x, q)"
    by (metis surj_pair)
  show ?thesis
  proof (cases x)
    case None
    then show ?thesis using r p by (simp add: command_next_def)
  next
    case (Some c)
    obtain m retry where c: "c = (m, retry)" by force
    have "dispatch_command (g\<lparr>g_commands := q\<rparr>) m (\<not> retry) closing lost io = (g', out, r)"
      using r p Some c by (simp add: command_next_def)
    from calm_dispatch [OF this] show ?thesis
      by (simp add: calm_def)
  qed
qed

lemma calm_retry_due: "retry_due g ms now io = (g', r) \<Longrightarrow> calm g g'"
proof (induction ms arbitrary: g)
  case (Cons m ms)
  let ?t = "mark_retry (g_tracker g) (m_id m) now"
  let ?m = "case map_of (at_pending ?t) (m_id m) of Some p \<Rightarrow> pm_message p | None \<Rightarrow> m"
  obtain g1 x where q: "queue_command (gcount ''retries'' (g\<lparr>g_tracker := ?t\<rparr>)) ?m True (io RetryPhase (m_id m)) = (g1, x)"
    by (metis surj_pair)
  have c: "calm g g1"
    using calm_queue_command [OF q] by (simp add: calm_def)
  show ?case
  proof (cases x)
    case (Inl e)
    then show ?thesis using Cons.prems q c by (simp add: Let_def)
  next
    case (Inr b)
    then have "retry_due g1 ms now io = (g', r)"
      using Cons.prems q by (simp add: Let_def)
    from calm_trans [OF c Cons.IH [OF this]] show ?thesis .
  qed
qed simp

lemma calm_expire: "expire_outcomes g ms io = (g', r) \<Longrightarrow> calm g g'"
proof (induction ms arbitrary: g)
  case (Cons m ms)
  obtain g1 x where q: "submit_upload (gcount ''unknown_execution_results'' g) (unknown_alert (gw_id (g_fo g)) m (io ExpirePhase (m_id m)))
        (io ExpirePhase (m_id m)) = (g1, x)"
    by (metis surj_pair)
  have c: "calm g g1"
    using calm_submit [OF q] by (simp add: calm_def)
  show ?case
  proof (cases x)
    case (Inl e)
    then show ?thesis using Cons.prems q c by simp
  next
    case (Inr b)
    then have "expire_outcomes g1 ms io = (g', r)"
      using Cons.prems q by simp
    from calm_trans [OF c Cons.IH [OF this]] show ?thesis .
  qed
qed simp

lemma calm_exhausted: "drop_exhausted g ms io = (g', r) \<Longrightarrow> calm g g'"
proof (induction ms arbitrary: g)
  case (Cons m ms)
  let ?g = "gcount ''delivery_failures''
            (g\<lparr>g_tracker := discard (g_tracker g) (m_id m), g_outcomes := oc_drop (g_outcomes g) (command_id_of m)\<rparr>)"
  obtain g1 x where q: "submit_upload ?g (failed_alert (gw_id (g_fo ?g)) m (io ExhaustPhase (m_id m))) (io ExhaustPhase (m_id m)) = (g1, x)"
    by (metis surj_pair)
  have c: "calm g g1"
    using calm_submit [OF q] by (simp add: calm_def)
  show ?case
  proof (cases x)
    case (Inl e)
    then show ?thesis using Cons.prems q c by (simp add: Let_def)
  next
    case (Inr b)
    then have "drop_exhausted g1 ms io = (g', r)"
      using Cons.prems q by (simp add: Let_def)
    from calm_trans [OF c Cons.IH [OF this]] show ?thesis .
  qed
qed simp

lemma calm_retry_pass: "retry_pass g now t2 io = (g', r) \<Longrightarrow> calm g g'"
proof -
  assume r: "retry_pass g now t2 io = (g', r)"
  obtain g1 e1 where a: "retry_due g (due (g_tracker g) now) now io = (g1, e1)"
    by (metis surj_pair)
  obtain gone oc where o1: "oc_expire (g_outcomes g1) t2 = (gone, oc)"
    by (metis surj_pair)
  obtain g2 e2 where b: "expire_outcomes (g1\<lparr>g_outcomes := oc\<rparr>) gone io = (g2, e2)"
    by (metis surj_pair)
  obtain g3 e3 where c: "drop_exhausted g2 (exhausted (g_tracker g2) now) io = (g3, e3)"
    by (metis surj_pair)
  have "calm g1 g2"
    using calm_expire [OF b] by (simp add: calm_def)
  then have "calm g g1" "calm g g2" "calm g g3"
    using calm_retry_due [OF a] calm_exhausted [OF c] calm_trans by blast+
  moreover have "g' = g1 \<or> g' = g2 \<or> g' = g3"
    using r a o1 b c by (auto simp: retry_pass_def split: option.splits)
  ultimately show ?thesis by blast
qed

lemma calm_status: "result_status g m rw state reason sends io = (g', out) \<Longrightarrow> calm g g'"
  by (auto simp: result_status_def Let_def split: option.splits if_splits)

lemma calm_admit_reliable: "admit_reliable g hash m rw sends io = (g', out, r) \<Longrightarrow> calm g g'"
proof -
  assume r: "admit_reliable g hash m rw sends io = (g', out, r)"
  obtain g1 o1 where a: "result_status g m rw ''RESULT_RECEIVED'' PNone sends io = (g1, o1)"
    by (metis surj_pair)
  show ?thesis
  proof (cases "result_digest hash m (result_upload g m)")
    case (Inl e)
    then show ?thesis
      using r a calm_status [OF a] by (auto simp: admit_reliable_def Let_def split: option.splits if_splits)
  next
    case (Inr digest)
    obtain q x where q: "admit_result (g_outbox g1) (result_upload g m) digest (wall (io_clock io)) (io_store io) = (q, x)"
      by (metis surj_pair)
    obtain g2 o2 where b: "result_status (g1\<lparr>g_outbox := q\<rparr>) m rw ''RESULT_DURABLY_STORED'' PNone sends io = (g2, o2)"
      by (metis surj_pair)
    have c1: "calm g1 (g1\<lparr>g_outbox := q\<rparr>)"
      using keeps_result [OF q] by (simp add: calm_def)
    have "calm g (g1\<lparr>g_outbox := q\<rparr>)" "calm g (request_flush g2)"
      using calm_trans [OF calm_status [OF a] c1] calm_status [OF b] calm_flush_request calm_trans by blast+
    moreover have "g' = g \<or> g' = g1\<lparr>g_outbox := q\<rparr> \<or> g' = request_flush g2"
      using r a Inr q b by (auto simp: admit_reliable_def Let_def split: option.splits if_splits sum.splits)
    ultimately show ?thesis by auto
  qed
qed

lemma calm_finish: "calm g (finish_result g m io)"
  using keeps_outcome
  by (auto simp: finish_result_def Let_def calm_def split: prod.split sum.split)

lemma calm_result: "process_control_result g hash m rw sends io = (g', out, r) \<Longrightarrow> calm g g'"
proof -
  assume r: "process_control_result g hash m rw sends io = (g', out, r)"
  have status: "calm g a \<Longrightarrow> result_status a m rw st why sends io = (b, o1) \<Longrightarrow> calm g b" for a b st why o1
    using calm_status calm_trans by blast
  show ?thesis
  proof (cases "result_valid g m")
    case False
    then show ?thesis
      using r status [of "gcount ''malformed_results'' g"]
      by (auto simp: process_control_result_def Let_def split: if_splits prod.splits)
  next
    case True
    obtain g1 o1 x where a: "admit_reliable g hash m rw sends io = (g1, o1, x)"
      by (metis surj_pair)
    obtain g2 y where b: "submit_upload g (result_upload g m) io = (g2, y)"
      by (metis surj_pair)
    have c: "calm g g1" "calm g g2"
      by (rule calm_admit_reliable [OF a], rule calm_submit [OF b])
    then show ?thesis
      using r True a b status [of "gcount ''result_durable_rejected'' g1"] status [of "gcount ''result_durable_rejected'' g2"]
        calm_trans [OF c(1) calm_finish] calm_trans [OF c(2) calm_finish]
      by (auto simp: process_control_result_def Let_def split: if_splits prod.splits sum.splits)
  qed
qed

section \<open>Sensors, connections and the heartbeat\<close>

lemma gcount_all_simps [simp]:
  "g_outbox (gcount_all ns g) = g_outbox g" "g_waiters (gcount_all ns g) = g_waiters g" "g_flush (gcount_all ns g) = g_flush g"
  "g_commands (gcount_all ns g) = g_commands g" "g_conns (gcount_all ns g) = g_conns g" "g_sequences (gcount_all ns g) = g_sequences g"
  "f_own (g_fo (gcount_all ns g)) = f_own (g_fo g)" "f_reg (g_fo (gcount_all ns g)) = f_reg (g_fo g)"
  "g_decider (gcount_all ns g) = g_decider g" "g_controller (gcount_all ns g) = g_controller g"
  by (induction ns arbitrary: g) (simp_all add: gcount_all_def gcount_def count_link_def)

lemma gcount_by_simps [simp]:
  "g_outbox (gcount_by n k g) = g_outbox g" "g_waiters (gcount_by n k g) = g_waiters g" "g_flush (gcount_by n k g) = g_flush g"
  "g_commands (gcount_by n k g) = g_commands g" "g_controller (gcount_by n k g) = g_controller g"
  "f_own (g_fo (gcount_by n k g)) = f_own (g_fo g)" "f_reg (g_fo (gcount_by n k g)) = f_reg (g_fo g)"
  by (simp_all add: gcount_by_def)

lemma calm_admit_upload:
  assumes "admit_upload g m u identity d io = (g', r)" "m_id u = identity"
  shows "calm g g'"
proof -
  obtain q x where q: "admit_sensor (g_outbox g) u identity d (wall (io_clock io)) (io_store io) = (q, x)"
    by (metis surj_pair)
  define g2 where "g2 = (let g1 = g\<lparr>g_outbox := q\<rparr>
     in if near_capacity q then (gcount ''sensor_receipt_near_capacity'' g1)\<lparr>g_warned := True\<rparr> else g1)"
  have c: "calm g (g\<lparr>g_outbox := q\<rparr>)" "calm g g2"
    using keeps_sensor [OF q assms(2)] by (simp_all add: calm_def g2_def Let_def)
  have "g' = g \<or> g' = gcount ''sensor_durable_rejected'' g \<or> g' = g\<lparr>g_outbox := q\<rparr> \<or>
      g' = gcount ''sensor_durable_rejected'' (g\<lparr>g_outbox := q\<rparr>) \<or> g' = request_flush g2"
    using assms(1) q by (auto simp: admit_upload_def Let_def g2_def split: option.splits sum.splits if_splits)
  then show ?thesis
    using c calm_trans [OF c(2) calm_flush_request] by auto
qed

lemma calm_admit_job:
  assumes "admit_job g job u receipt io = (g', out, st)" "\<And>i d. receipt = Some (i, d) \<Longrightarrow> m_id u = i"
  shows "calm g g'"
proof (cases receipt)
  case None
  obtain g1 x where "submit_upload g u io = (g1, x)"
    by (metis surj_pair)
  with calm_submit [OF this] None assms(1) show ?thesis
    by (auto simp: admit_job_def split: sum.splits)
next
  case (Some p)
  obtain i d where p: "p = (i, d)" by force
  obtain g1 x where a: "admit_upload g (sj_message job) u i d io = (g1, x)"
    by (metis surj_pair)
  have "m_id u = i"
    using assms(2) Some p by simp
  from calm_admit_upload [OF a this] show ?thesis
    using assms(1) Some p a by (auto simp: admit_job_def split: sum.splits option.splits)
qed

lemma upload_ids [simp]: "m_id (sensor_upload g m r io) = m_id m" "m_id (alert_upload g m p io) = m_id m"
  by (simp_all add: sensor_upload_def alert_upload_def new_message_def)

text \<open>The shape of a sample that goes on: judged, then admitted under its own message id.\<close>

lemma sensor_prepared_cases:
  assumes "sensor_prepared g m ing pr receipt io = (g', out, st)"
  obtains fresh sq r ev g1 where
    "sample_fresh g m receipt = (fresh, sq)"
    "finalize_sensor_record pr (m_payload m) (receipt \<noteq> None) (registered_boot g (m_source m)) fresh = (r, ev)"
    "g1 = gcount_all (ev @ (if receipt \<noteq> None then [] else [''sensor_messages''])) (g\<lparr>g_sequences := sq\<rparr>)"
    "(\<exists>e. g' = g1 \<and> out = [] \<and> st = Failed e) \<or>
     (\<exists>u r'. admit_job g1 ((sample_job m ing pr receipt r)\<lparr>sj_record := r'\<rparr>) u receipt io = (g', out, st) \<and> m_id u = m_id m \<and>
        (m_type m \<noteq> ALERT \<longrightarrow> r' = stored_record g1 m r))"
proof -
  obtain fresh sq where s: "sample_fresh g m receipt = (fresh, sq)"
    by (metis surj_pair)
  obtain r ev where f: "finalize_sensor_record pr (m_payload m) (receipt \<noteq> None) (registered_boot g (m_source m)) fresh = (r, ev)"
    by (metis surj_pair)
  define g1 where "g1 = gcount_all (ev @ (if receipt \<noteq> None then [] else [''sensor_messages''])) (g\<lparr>g_sequences := sq\<rparr>)"
  let ?job = "sample_job m ing pr receipt r"
  show ?thesis
  proof (rule that [OF s f g1_def], cases "m_type m = ALERT")
    case True
    obtain x where x: "prepare_alert_upload m (receipt \<noteq> None) = x" by blast
    have same: "?job\<lparr>sj_record := sj_record ?job\<rparr> = ?job" by simp
    show "(\<exists>e. g' = g1 \<and> out = [] \<and> st = Failed e) \<or>
     (\<exists>u r'. admit_job g1 (?job\<lparr>sj_record := r'\<rparr>) u receipt io = (g', out, st) \<and> m_id u = m_id m \<and>
        (m_type m \<noteq> ALERT \<longrightarrow> r' = stored_record g1 m r))"
    proof (cases x)
      case (Inl e)
      then have "g' = g1 \<and> out = [] \<and> st = Failed e"
        using assms s f x True by (simp add: sensor_prepared_def Let_def g1_def)
      then show ?thesis by blast
    next
      case (Inr p)
      obtain payload why where p: "p = (payload, why)" by force
      have "admit_job g1 ?job (alert_upload g1 m payload io) receipt io = (g', out, st)"
        using assms s f x True Inr p by (simp add: sensor_prepared_def Let_def g1_def)
      then show ?thesis
        using True same by (metis upload_ids(2))
    qed
  next
    case False
    then have "admit_job g1 (?job\<lparr>sj_record := stored_record g1 m r\<rparr>) (sensor_upload g1 m (stored_record g1 m r) io) receipt io = (g', out, st)"
      using assms s f by (simp add: sensor_prepared_def Let_def g1_def)
    then show "(\<exists>e. g' = g1 \<and> out = [] \<and> st = Failed e) \<or>
     (\<exists>u r'. admit_job g1 (?job\<lparr>sj_record := r'\<rparr>) u receipt io = (g', out, st) \<and> m_id u = m_id m \<and>
        (m_type m \<noteq> ALERT \<longrightarrow> r' = stored_record g1 m r))"
      using upload_ids(1) by blast
  qed
qed

lemma calm_prepared:
  assumes "sensor_prepared g m ing pr receipt io = (g', out, st)" "\<And>i d. receipt = Some (i, d) \<Longrightarrow> m_id m = i"
  shows "calm g g'"
proof -
  obtain sq ns g1 where g1: "g1 = gcount_all ns (g\<lparr>g_sequences := sq\<rparr>)"
    and r: "g' = g1 \<or> (\<exists>job u. admit_job g1 job u receipt io = (g', out, st) \<and> m_id u = m_id m)"
    using assms(1) by (cases rule: sensor_prepared_cases) blast
  have "calm g g1"
    by (simp add: calm_def g1)
  then show ?thesis
    using r assms(2) calm_admit_job calm_trans by metis
qed

lemma receive_identity: "identity_and_digest hash m = Inr (i, d) \<Longrightarrow> m_id m = i"
  by (auto simp: identity_and_digest_def Let_def split: if_splits sum.splits)

lemma calm_receive: "sensor_receive g hash m ing io = (g', out, st) \<Longrightarrow> calm g g'"
  using calm_prepared [of g m ing _ None io g' out st] calm_prepared [of g m ing _ "Some (m_id m, d)" io g' out st for d]
  by (auto simp: sensor_receive_def Let_def dest: receive_identity split: if_splits sum.splits option.splits py_error.splits)

lemma calm_audit_job: "audit_job g job state c audits io = (g', e) \<Longrightarrow> calm g g'"
  using keeps_audit by (force simp: audit_job_def calm_def split: option.splits prod.splits sum.splits)

lemma calm_counted [simp]:
  "calm g (gcount_all ns g') = calm g g'" "calm g (gcount_by n k g') = calm g g'"
  by (simp_all add: calm_def)

lemma calm_skip: "skip_job g job state b a audits io = (g', e) \<Longrightarrow> calm g g'"
proof -
  assume r: "skip_job g job state b a audits io = (g', e)"
  obtain g1 e1 where j: "audit_job (gcount_all b g) job state None audits io = (g1, e1)"
    by (metis surj_pair)
  have c: "calm g g1"
    using calm_audit_job [OF j] by (simp add: calm_def)
  have "g' = g1 \<or> g' = g1\<lparr>g_peer := (g_peer g1)\<lparr>pl_fo := (g_fo g1)\<lparr>f_standby_logged := True\<rparr>\<rparr>\<rparr> \<or> g' = gcount_all a g1"
    using r j by (auto simp: skip_job_def split: option.splits if_splits)
  then show ?thesis
    using c by (auto simp: calm_def)
qed

lemma calm_decide: "sensor_decide g job latency audits io = (g', e) \<Longrightarrow> calm g g'"
proof -
  assume r: "sensor_decide g job latency audits io = (g', e)"
  show ?thesis
  proof (cases "skip_reason g job (mono_clock (io_clock io))")
    case (Some x)
    obtain st b a where x: "x = (st, b, a)" by (metis prod_cases3)
    have "skip_job g job st b a audits io = (g', e)"
      using r Some x by (simp add: sensor_decide_def)
    then show ?thesis by (rule calm_skip)
  next
    case None
    obtain g1 e1 where j1: "audit_job g job ''DECIDING'' None audits io = (g1, e1)"
      by (metis surj_pair)
    obtain gf ef where jf: "audit_job g1 job ''SKIPPED_FEATURES'' None audits io = (gf, ef)"
      by (metis surj_pair)
    define g2 where "g2 = gcount_by ''decision_latency_us'' latency (gcount ''decision_calls'' g1)"
    obtain gn en where jn: "audit_job g2 job ''NO_ACTION'' None audits io = (gn, en)"
      by (metis surj_pair)
    have c1: "calm g g1"
      by (rule calm_audit_job [OF j1])
    then have c2: "calm g g2"
      by (simp add: g2_def)
    have cf: "calm g gf" and cn: "calm g gn"
      by (rule calm_trans [OF c1 calm_audit_job [OF jf]], rule calm_trans [OF c2 calm_audit_job [OF jn]])
    have cp: "calm g g3" if "audit_job g2 job ''COMMAND_PLANNED'' c audits io = (g3, e3)" for c g3 e3
      by (rule calm_trans [OF c2 calm_audit_job [OF that]])
    have cq: "calm g g4" if "audit_job g2 job ''COMMAND_PLANNED'' c audits io = (g3, e3)" "queue_command g3 m False io = (g4, x)" for c g3 e3 m g4 x
      by (rule calm_trans [OF cp [OF that(1)] calm_queue_command [OF that(2)]])
    have "g' = g1 \<or> g' = gf \<or> g' = gcount ''feature_rejected'' gf \<or> g' = gn \<or>
        (\<exists>c g3 e3. audit_job g2 job ''COMMAND_PLANNED'' (Some (m_id c)) audits io = (g3, e3) \<and>
           (g' = g3 \<or> (\<exists>x. queue_command g3 c False io = (g', x))))"
      using r None j1 jf jn g2_def [symmetric]
      by (auto simp: sensor_decide_def Let_def split: option.splits sum.splits py_error.splits prod.splits)
    then show ?thesis
      by (elim disjE exE conjE) (simp_all add: c1 cf cn cp cq)
  qed
qed

lemma calm_resume: "sensor_resume g job latency audits io = (g', e) \<Longrightarrow> calm g g'"
proof -
  assume r: "sensor_resume g job latency audits io = (g', e)"
  obtain g1 where c: "calm g g1" and g': "g' = g1 \<or> audit_job g1 job ''ALERT_ONLY'' None audits io = (g', e) \<or>
      (\<exists>sq. sensor_decide (g1\<lparr>g_sequences := sq\<rparr>) job latency audits io = (g', e)) \<or> sensor_decide g1 job latency audits io = (g', e)"
  proof (rule that)
    let ?g1 = "if sj_identity job = None then g
                else if sj_admitted job then gcount_all [''sensor_durable_admitted'', ''sensor_messages''] g
                else gcount ''sensor_durable_duplicates'' g"
    show "calm g ?g1" by simp
    show "g' = ?g1 \<or> audit_job ?g1 job ''ALERT_ONLY'' None audits io = (g', e) \<or>
      (\<exists>sq. sensor_decide (?g1\<lparr>g_sequences := sq\<rparr>) job latency audits io = (g', e)) \<or> sensor_decide ?g1 job latency audits io = (g', e)"
      using r by (auto simp: sensor_resume_def Let_def split: if_splits)
  qed
  have d: "calm g g'" if "sensor_decide (g1\<lparr>g_sequences := sq\<rparr>) job latency audits io = (g', e)" for sq
    using calm_trans [OF c, of g'] calm_decide [OF that] by (simp add: calm_def)
  show ?thesis
    using g' c d calm_trans [OF c calm_audit_job] calm_trans [OF c calm_decide] by blast
qed

lemma calm_failed: "sensor_failed g e = (g', r) \<Longrightarrow> calm g g'"
  by (auto simp: sensor_failed_def split: option.splits if_splits)

lemma calm_continue: "sensor_continue g job latency audits io = (g', r) \<Longrightarrow> calm g g'"
proof -
  assume r: "sensor_continue g job latency audits io = (g', r)"
  obtain g1 e where s: "sensor_resume g job latency audits io = (g1, e)"
    by (metis surj_pair)
  have "sensor_failed g1 e = (g', r)"
    using r s by (simp add: sensor_continue_def)
  from calm_trans [OF calm_resume [OF s] calm_failed [OF this]] show ?thesis .
qed

lemma calm_sensor_next: "sensor_next g hash io = (g', out, job, r) \<Longrightarrow> calm g g'"
proof -
  assume r: "sensor_next g hash io = (g', out, job, r)"
  obtain x q where p: "get_nowait (g_sensors g) (mono_clock (io_clock io)) = (x, q)"
    by (metis surj_pair)
  show ?thesis
  proof (cases x)
    case None
    then show ?thesis using r p by (simp add: sensor_next_def)
  next
    case (Some y)
    obtain m ing where y: "y = (m, ing)" by force
    obtain g1 o1 st where s: "sensor_receive (g\<lparr>g_sensors := q\<rparr>) hash m ing io = (g1, o1, st)"
      by (metis surj_pair)
    have c: "calm g g1"
      using calm_receive [OF s] by (simp add: calm_def)
    have "g' = g1 \<or> (\<exists>e r2. sensor_failed g1 (Some e) = (g', r2))"
      using r p Some y s by (auto simp: sensor_next_def split: sensor_stage.splits prod.splits)
    then show ?thesis
      using c calm_trans [OF c calm_failed] by blast
  qed
qed

lemma calm_peer: "calm g (g\<lparr>g_peer := l\<rparr>)"
  by (simp add: calm_def)

lemma calm_answer: "answer g w m io = (g', out, b) \<Longrightarrow> calm g g'"
  by (auto simp: answer_def split: if_splits)

lemma calm_ingress_full: "ingress_full g w m io = (g', out, b) \<Longrightarrow> calm g g'"
  by (auto simp: ingress_full_def Let_def answer_def split: if_splits)

lemma calm_node: "node_message g w m io = (g', out, b) \<Longrightarrow> calm g g'"
  by (auto simp: node_message_def Let_def ingress_full_def answer_def touch_node_def calm_def split: if_splits prod.splits bool.splits)

lemma calm_register: "node_registration g w m io = (g', out, b) \<Longrightarrow> calm g g'"
  by (auto simp: node_registration_def Let_def answer_def calm_def split: if_splits prod.splits option.splits)

lemma calm_client: "client_message g w m nonce io = (g', out, b) \<Longrightarrow> calm g g'"
  using calm_node calm_register
  by (auto simp: client_message_def peer_handshake_message_def Let_def answer_def calm_peer ack_message_def
      split: if_splits prod.splits option.splits pyval.splits) (auto simp: calm_def)

lemma calm_closed: "calm g (client_closed g w)"
  by (simp add: client_closed_def calm_def)

lemma calm_result_next: "result_next g hash sends io = (g', out, r) \<Longrightarrow> calm g g'"
proof -
  assume r: "result_next g hash sends io = (g', out, r)"
  obtain x q where p: "get_nowait (g_results g) (mono_clock (io_clock io)) = (x, q)"
    by (metis surj_pair)
  show ?thesis
  proof (cases x)
    case None
    then show ?thesis using r p by (simp add: result_next_def)
  next
    case (Some y)
    obtain m w where y: "y = (m, w)" by force
    obtain g1 o1 r1 where s: "process_control_result (g\<lparr>g_results := q\<rparr>) hash m (Some w) sends io = (g1, o1, r1)"
      by (metis surj_pair)
    have "g' = g1"
      using r p Some y s by (simp add: result_next_def)
    then show ?thesis
      using calm_result [OF s] by (simp add: calm_def)
  qed
qed

lemma calm_announce: "announce_takeover g mine io = (g', out, e) \<Longrightarrow> calm g g'"
proof -
  assume r: "announce_takeover g mine io = (g', out, e)"
  obtain ok q where p: "put_nowait (g_uploads g) (failover_alert g mine io) (mono_clock (io_clock io)) = (ok, q)"
    by (metis surj_pair)
  obtain g1 x where c: "persist_congested (g\<lparr>g_uploads := q\<rparr>) (failover_alert g mine io) io = (g1, x)"
    by (metis surj_pair)
  have "calm g g1"
    using calm_congested [OF c] by (simp add: calm_def)
  then show ?thesis
    using r p c by (auto simp: announce_takeover_def calm_frame split: bool.splits sum.splits)
qed

lemma calm_evaluate: "evaluate_and_announce g io = (g', out, h, e) \<Longrightarrow> calm g g'"
proof -
  assume r: "evaluate_and_announce g io = (g', out, h, e)"
  obtain status nodes f where ev: "evaluate_peer (g_fo g) (io_clock io) (io_audit io) = (status, nodes, f)"
    by (metis prod_cases3)
  show ?thesis
  proof (cases nodes)
    case None
    then show ?thesis using r ev by (auto simp: evaluate_and_announce_def calm_peer)
  next
    case (Some mine)
    obtain g1 o1 e1 where a: "announce_takeover (g\<lparr>g_peer := (g_peer g)\<lparr>pl_fo := f\<rparr>\<rparr>) mine io = (g1, o1, e1)"
      by (metis prod_cases3)
    have "calm g g1"
      by (rule calm_trans [OF calm_peer calm_announce [OF a]])
    moreover have "g' = g1 \<or> g' = g1\<lparr>g_peer := (g_peer g1)\<lparr>pl_fo := (g_fo g1)\<lparr>f_peer_status := f_peer_status (g_fo g)\<rparr>\<rparr>\<rparr>"
      using r ev Some a by (auto simp: evaluate_and_announce_def split: option.splits)
    ultimately show ?thesis
      by (auto simp: calm_def)
  qed
qed

lemma calm_heartbeat: "heartbeat_round g pw timeout io = (g', out, e) \<Longrightarrow> calm g g'"
proof -
  assume r: "heartbeat_round g pw timeout io = (g', out, e)"
  obtain g1 o1 status e1 where ev: "evaluate_and_announce g io = (g1, o1, status, e1)"
    by (metis surj_pair)
  have "e1 \<noteq> None \<and> g' = g1 \<or> (\<exists>l m g3 x. submit_upload (g1\<lparr>g_peer := l\<rparr>) m io = (g3, x) \<and> (g' = g3 \<or> (\<exists>l'. g' = g3\<lparr>g_peer := l'\<rparr>)))"
  proof (cases e1)
    case None
    obtain beat l where b: "send_heartbeat (g_peer g1) (status_payload g1 status (wall (io_clock io))) (wall (io_clock io)) (io_id io) = (beat, l)"
      by (metis surj_pair)
    show ?thesis
      using r ev None b by (auto simp: heartbeat_round_def Let_def split: prod.splits sum.splits)
  qed (use r ev in \<open>auto simp: heartbeat_round_def\<close>)
  moreover have "calm g g3" if "submit_upload (g1\<lparr>g_peer := l\<rparr>) m io = (g3, x)" for l m g3 x
    by (rule calm_trans [OF calm_trans [OF calm_evaluate [OF ev] calm_peer] calm_submit [OF that]])
  ultimately show ?thesis
    using calm_evaluate [OF ev] calm_trans [OF _ calm_peer] by blast
qed

end
