(* ===== verification/GatewayRuns.thy ===== *)
theory GatewayRuns
  imports GatewayFrames
begin

text \<open>
  Runs of a gateway: every handler as one step over its state, restarts included, and what they keep
  of the outbox. A stored upload leaves it only by the receipt of the server for that very message;
  what a node was told to be durable is in the outbox until the server has confirmed it. The set of
  message ids that receipts of the server have named so far is carried along as history.
\<close>

section \<open>The system\<close>

text \<open>The job is the sample whose receipt is being written.\<close>

record gsys =
  gs_gw :: gateway
  gs_job :: "sensor_job option"

datatype gw_op =
    GClient nat message string gio
  | GClosed nat
  | GSensor "jtext \<Rightarrow> string" gio
  | GResume int "string \<Rightarrow> bool" gio
  | GResult "jtext \<Rightarrow> string" "string \<Rightarrow> bool" gio
  | GUpload gio
  | GCommand "nat \<Rightarrow> bool" bool gio
  | GRetry real real "scan_phase \<Rightarrow> string \<Rightarrow> gio"
  | GFlush gio
  | GConnected nat
  | GLost nat
  | GUnreachable
  | GServer message nat gio
  | GHeartbeat nat real gio
  | GConnectPeer string "message option" "message option" gio
  | GTick real
  | GRestart peer_link "string option" decider connectivity real int string bool bool

definition restarted :: "gateway \<Rightarrow> peer_link \<Rightarrow> string option \<Rightarrow> decider \<Rightarrow> connectivity \<Rightarrow> real \<Rightarrow> int \<Rightarrow> string \<Rightarrow> bool \<Rightarrow> bool \<Rightarrow> gateway" where
  "restarted g peer controller d link timeout capacity boot duplicate columns =
     (case gateway_init peer controller d (queue_connect (g_outbox g) columns) link timeout capacity boot duplicate of
        Inr g' \<Rightarrow> g' | Inl _ \<Rightarrow> g)"

definition set_gw :: "gsys \<Rightarrow> gateway \<times> 'a \<Rightarrow> gsys" where
  "set_gw s r = s\<lparr>gs_gw := fst r\<rparr>"

fun gw_step :: "gsys \<Rightarrow> gw_op \<Rightarrow> gsys" where
  "gw_step s (GClient w m nonce io) = set_gw s (client_message (gs_gw s) w m nonce io)"
| "gw_step s (GClosed w) = s\<lparr>gs_gw := client_closed (gs_gw s) w\<rparr>"
| "gw_step s (GSensor hash io) =
     (if gs_job s \<noteq> None then s
      else case sensor_next (gs_gw s) hash io of (g, out, job, e) \<Rightarrow> \<lparr>gs_gw = g, gs_job = job\<rparr>)"
| "gw_step s (GResume latency audits io) =
     (case gs_job s of None \<Rightarrow> s
      | Some job \<Rightarrow> \<lparr>gs_gw = fst (sensor_continue (gs_gw s) job latency audits io), gs_job = None\<rparr>)"
| "gw_step s (GResult hash sends io) = set_gw s (result_next (gs_gw s) hash sends io)"
| "gw_step s (GUpload io) = set_gw s (upload_next (gs_gw s) io)"
| "gw_step s (GCommand closing lost io) = set_gw s (command_next (gs_gw s) closing lost io)"
| "gw_step s (GRetry now t io) = set_gw s (retry_pass (gs_gw s) now t io)"
| "gw_step s (GFlush io) = set_gw s (flush_step (gs_gw s) io)"
| "gw_step s (GConnected w) = s\<lparr>gs_gw := server_connected (gs_gw s) w\<rparr>"
| "gw_step s (GLost w) = s\<lparr>gs_gw := server_lost (gs_gw s) w\<rparr>"
| "gw_step s GUnreachable = s\<lparr>gs_gw := server_unreachable (gs_gw s)\<rparr>"
| "gw_step s (GServer m w io) = set_gw s (server_message (gs_gw s) m w io)"
| "gw_step s (GHeartbeat pw timeout io) = set_gw s (heartbeat_round (gs_gw s) pw timeout io)"
| "gw_step s (GConnectPeer client r1 r2 io) =
     s\<lparr>gs_gw := (gs_gw s)\<lparr>g_peer := connect_peer (g_peer (gs_gw s)) client r1 r2 (io_clock io) (io_id io) (io_store io)\<rparr>\<rparr>"
| "gw_step s (GTick t) =
     s\<lparr>gs_gw := (gs_gw s)\<lparr>g_peer := (g_peer (gs_gw s))\<lparr>pl_fo := monitor_tick (g_fo (gs_gw s)) t\<rparr>\<rparr>\<rparr>"
| "gw_step s (GRestart peer controller d link timeout capacity boot duplicate columns) =
     \<lparr>gs_gw = restarted (gs_gw s) peer controller d link timeout capacity boot duplicate columns, gs_job = None\<rparr>"

text \<open>The ids that a receipt of the server names.\<close>

fun receipts_in :: "gw_op \<Rightarrow> string set" where
  "receipts_in (GServer m w io) =
     (if m_type m = PERSISTED_ACK \<and> m_source m = ''SERVER'' \<and> dgetn (m_payload m) ''persisted'' = PBool True
      then (case dgetn (m_payload m) ''ack_message_id'' of PStr i \<Rightarrow> {i} | _ \<Rightarrow> {}) else {})"
| "receipts_in _ = {}"

definition all_receipts :: "gw_op list \<Rightarrow> string set" where
  "all_receipts ops = (\<Union>op \<in> set ops. receipts_in op)"

section \<open>The invariant of the replay\<close>

primrec flush_batch :: "flush \<Rightarrow> (nat \<times> message) list" where
  "flush_batch NoFlush = []"
| "flush_batch Scheduled = []"
| "flush_batch (Running w batch waiting) = batch"

definition batch_ok :: "oqueue \<Rightarrow> flush \<Rightarrow> bool" where
  "batch_ok q fl \<longleftrightarrow> distinct (map fst (flush_batch fl)) \<and> (\<forall>(i, m) \<in> set (flush_batch fl). stored q i = Some m)"

definition waiters_ok :: "string set \<Rightarrow> gateway \<Rightarrow> bool" where
  "waiters_ok R g \<longleftrightarrow> (\<forall>k r. map_of (g_waiters g) k = Some r \<longrightarrow> rw_done r \<longrightarrow> k \<in> R)"

definition covered :: "string set \<Rightarrow> oqueue \<Rightarrow> bool" where
  "covered R q \<longleftrightarrow> promised q \<subseteq> outbox_ids q \<union> R"

definition replay_ok :: "string set \<Rightarrow> gateway \<Rightarrow> bool" where
  "replay_ok R g \<longleftrightarrow> q_inv (g_outbox g) \<and> batch_ok (g_outbox g) (g_flush g) \<and> waiters_ok R g \<and> covered R (g_outbox g)"

text \<open>What a step may do to the rows: remove only those whose message id is in \<open>R\<close>.\<close>

definition only_removes :: "string set \<Rightarrow> oqueue \<Rightarrow> oqueue \<Rightarrow> bool" where
  "only_removes R q q' \<longleftrightarrow> (\<forall>i m. stored q i = Some m \<longrightarrow> m_id m \<in> R \<or> stored q' i = Some m) \<and> promised q \<subseteq> promised q'"

lemma only_removes_refl [simp, intro]: "only_removes R q q"
  by (simp add: only_removes_def)

lemma covered_keeps: "keeps q q' \<Longrightarrow> q_inv q \<Longrightarrow> covered R q \<Longrightarrow> covered R q'"
  using keeps_ids [of q q'] by (auto simp: covered_def keeps_def)

lemma replay_calm:
  assumes "replay_ok R g" "calm g g'"
  shows "replay_ok R g'" "only_removes R (g_outbox g) (g_outbox g')"
proof -
  have k: "keeps (g_outbox g) (g_outbox g')" and q: "q_inv (g_outbox g)"
    using assms by (simp_all add: calm_def replay_ok_def)
  have "batch_ok (g_outbox g') (g_flush g')"
    using assms k q by (auto simp: calm_def replay_ok_def batch_ok_def keeps_def split: prod.splits)
  then show "replay_ok R g'"
    using assms k q covered_keeps [OF k q] by (simp add: replay_ok_def calm_def waiters_ok_def keeps_def)
  show "only_removes R (g_outbox g) (g_outbox g')"
    using k q by (auto simp: only_removes_def keeps_def)
qed

lemma peek_ok: "q_inv q \<Longrightarrow> distinct (map fst (peek q n)) \<and> (\<forall>(i, m) \<in> set (peek q n). stored q i = Some m)"
proof -
  assume q: "q_inv q"
  have s: "sorted_wrt (\<lambda>a b. r_id a < r_id b) (take n (q_rows q))"
    using q by (simp add: q_inv_def rows_ok_def sorted_wrt_take)
  then have "sorted_wrt (<) (map r_id (take n (q_rows q)))"
    by (simp add: sorted_wrt_map)
  then have "distinct (map r_id (take n (q_rows q)))"
    using strict_sorted_iff by blast
  then show ?thesis
    using stored_row [OF q] in_set_takeD by (fastforce simp: peek_def comp_def)
qed

lemma delete_removes:
  assumes "delete_row q i io = (q', r)" "stored q i = Some m" "m_id m \<in> R" "q_inv q"
  shows "only_removes R q q' \<and> q_inv q' \<and> (covered R q \<longrightarrow> covered R q')"
proof -
  have step: "stored q j = Some x \<Longrightarrow> j \<noteq> i \<Longrightarrow> stored q' j = Some x" for j x
    using stored_step [of q j x "QDelete i io"] assms(1) by (simp add: deletes_def)
  have inv: "q_inv q'"
    using q_step_inv [OF assms(4), of "QDelete i io"] assms(1) by simp
  have p: "promised q' = promised q"
    using assms(1) by (auto simp: delete_row_def promised_def split: if_splits)
  have rem: "only_removes R q q'"
    unfolding only_removes_def using step assms(2, 3) p by (metis option.inject order_refl)
  moreover have "covered R q'" if "covered R q"
  proof -
    have "outbox_ids q \<subseteq> outbox_ids q' \<union> R"
      using rem outbox_ids_stored [OF assms(4)] outbox_ids_stored [OF inv] by (fastforce simp: only_removes_def)
    with that p show ?thesis by (auto simp: covered_def)
  qed
  ultimately show ?thesis using inv by blast
qed

lemma waiters_set [simp]:
  "waiters_ok R (g\<lparr>g_outbox := q\<rparr>) = waiters_ok R g" "waiters_ok R (g\<lparr>g_flush := fl\<rparr>) = waiters_ok R g"
  "waiters_ok R (g\<lparr>g_server := sv\<rparr>) = waiters_ok R g" "waiters_ok R (g\<lparr>g_link := k\<rparr>) = waiters_ok R g"
  "waiters_ok R (gcount n g) = waiters_ok R g"
  by (simp_all add: waiters_ok_def)

lemma waiters_mono: "waiters_ok R g \<Longrightarrow> R \<subseteq> R' \<Longrightarrow> waiters_ok R' g"
  by (auto simp: waiters_ok_def)

lemma waiters_del: "waiters_ok R g \<Longrightarrow> waiters_ok R (g\<lparr>g_waiters := ddel (g_waiters g) k\<rparr>)"
  by (auto simp: waiters_ok_def)

lemma waiters_new: "waiters_ok R g \<Longrightarrow> rw_done r \<longrightarrow> k \<in> R \<Longrightarrow> waiters_ok R (g\<lparr>g_waiters := dset (g_waiters g) k r\<rparr>)"
  by (auto simp: waiters_ok_def)

lemma replay_mono: "replay_ok R g \<Longrightarrow> R \<subseteq> R' \<Longrightarrow> replay_ok R' g"
  by (auto simp: replay_ok_def covered_def intro: waiters_mono)

lemma batch_idle [simp]: "batch_ok q NoFlush" "batch_ok q Scheduled" "batch_ok q (Running w [] b)"
  by (simp_all add: batch_ok_def)

lemma waiters_drop [simp]:
  "waiters_ok R g \<Longrightarrow> waiters_ok R (flush_failed g w k)" "waiters_ok R g \<Longrightarrow> waiters_ok R (flush_crashed g k)"
  by (auto simp: flush_failed_def flush_crashed_def waiters_ok_def)

lemma flush_drop_simps [simp]:
  "g_outbox (flush_failed g w k) = g_outbox g" "g_outbox (flush_crashed g k) = g_outbox g"
  "g_flush (flush_failed g w k) = NoFlush" "g_flush (flush_crashed g k) = NoFlush"
  by (simp_all add: flush_failed_def flush_crashed_def)

lemma batch_keeps: "batch_ok q fl \<Longrightarrow> keeps q q' \<Longrightarrow> q_inv q \<Longrightarrow> batch_ok q' fl"
  by (fastforce simp: batch_ok_def keeps_def)

lemma batch_tail:
  assumes "batch_ok q (Running w ((i, m) # rest) b)" "only_removes R q q'" "\<And>j x. stored q j = Some x \<Longrightarrow> j \<noteq> i \<Longrightarrow> stored q' j = Some x"
  shows "batch_ok q' (Running w rest b')"
  using assms by (fastforce simp: batch_ok_def)

lemma replay_bumped:
  assumes "replay_ok R g" "g_flush g = Running w ((i, m) # rest) False" "flush_step g io = (g', out)"
  shows "replay_ok R g' \<and> only_removes R (g_outbox g) (g_outbox g')"
proof -
  define g1 where "g1 = g\<lparr>g_waiters := dset (g_waiters g) (m_id m) \<lparr>rw_row = i, rw_done = False, rw_writer = w\<rparr>\<rparr>"
  obtain q x where b: "bump_retry (g_outbox g) i (io_store io) = (q, x)"
    by (metis surj_pair)
  have keep: "keeps (g_outbox g) q" by (rule keeps_bump [OF b])
  have w1: "waiters_ok R g1"
    using assms(1) unfolding g1_def by (intro waiters_new) (simp_all add: replay_ok_def)
  have q: "q_inv (g_outbox g)" and batch: "batch_ok (g_outbox g) (g_flush g)" and cov: "covered R (g_outbox g)"
    using assms(1) by (simp_all add: replay_ok_def)
  have g': "(g' = flush_crashed (g1\<lparr>g_outbox := q\<rparr>) (m_id m) \<or> g' = flush_failed (g1\<lparr>g_outbox := q\<rparr>) w (m_id m)) \<or>
      g' = g1\<lparr>g_outbox := q, g_flush := Running w ((i, m) # rest) True\<rparr>"
    using assms(2, 3) b by (auto simp: flush_step_def g1_def Let_def split: sum.splits if_splits)
  have "batch_ok q (Running w ((i, m) # rest) True)"
    using batch_keeps [OF batch keep q] assms(2) by (simp add: batch_ok_def)
  then have "replay_ok R g'"
    using g' w1 keep q covered_keeps [OF keep q cov] by (auto simp: replay_ok_def keeps_def)
  moreover have "only_removes R (g_outbox g) (g_outbox g')"
    using g' keep q by (auto simp: only_removes_def keeps_def)
  ultimately show ?thesis by blast
qed

lemma replay_acked:
  assumes "replay_ok R g" "g_flush g = Running w ((i, m) # rest) True" "flush_step g io = (g', out)"
  shows "replay_ok R g' \<and> only_removes R (g_outbox g) (g_outbox g')"
proof -
  obtain q x where d: "delete_row (g_outbox g) i (io_store io) = (q, x)"
    by (metis surj_pair)
  have st: "stored (g_outbox g) i = Some m" and q: "q_inv (g_outbox g)" and w: "waiters_ok R g"
    and batch: "batch_ok (g_outbox g) (Running w ((i, m) # rest) True)" and cov: "covered R (g_outbox g)"
    using assms(1, 2) by (auto simp: replay_ok_def batch_ok_def)
  have other: "stored q j = Some y" if "stored (g_outbox g) j = Some y" "j \<noteq> i" for j y
    using that stored_step [of "g_outbox g" j y "QDelete i (io_store io)"] d by (simp add: deletes_def)
  consider (failed) "g' = flush_failed g w (m_id m)"
    | (crashed) r where "map_of (g_waiters g) (m_id m) = Some r" "rw_done r" "g' = flush_crashed (g\<lparr>g_outbox := q\<rparr>) (m_id m)"
    | (deleted) r k where "map_of (g_waiters g) (m_id m) = Some r" "rw_done r"
        "g' = gcount ''queue_replayed'' (g\<lparr>g_outbox := q, g_link := k, g_waiters := ddel (g_waiters g) (m_id m), g_flush := Running w rest False\<rparr>)"
    using assms(2, 3) d by (auto simp: flush_step_def split: option.splits sum.splits if_splits)
  then show ?thesis
  proof cases
    case failed
    then show ?thesis using assms(1) by (simp add: replay_ok_def)
  next
    case (crashed r)
    then have "m_id m \<in> R"
      using w by (auto simp: waiters_ok_def)
    from delete_removes [OF d st this q] show ?thesis
      using crashed w cov by (simp add: replay_ok_def)
  next
    case (deleted r k)
    then have r: "m_id m \<in> R"
      using w by (auto simp: waiters_ok_def)
    have "batch_ok q (Running w rest False)"
      using batch_tail [OF batch _ other] delete_removes [OF d st r q] by blast
    then show ?thesis
      using deleted w cov delete_removes [OF d st r q] by (auto simp: replay_ok_def waiters_ok_def)
  qed
qed

lemma replay_flush:
  assumes "replay_ok R g" "flush_step g io = (g', out)"
  shows "replay_ok R g' \<and> only_removes R (g_outbox g) (g_outbox g')"
proof (cases "\<exists>w x rest b. g_flush g = Running w (x # rest) b")
  case True
  then obtain w i m rest b where f: "g_flush g = Running w ((i, m) # rest) b" by force
  show ?thesis
    using f replay_bumped [OF assms(1) _ assms(2)] replay_acked [OF assms(1) _ assms(2)] by (cases b) auto
next
  case False
  have q: "q_inv (g_outbox g)" using assms(1) by (simp add: replay_ok_def)
  have peeked: "batch_ok (g_outbox g) (Running w (peek (g_outbox g) 100) False)" for w
    using peek_ok [OF q] by (simp add: batch_ok_def)
  have "\<exists>fl. g' = g\<lparr>g_flush := fl\<rparr> \<and> batch_ok (g_outbox g) fl"
  proof (cases "g_flush g")
    case NoFlush
    then have "g' = g\<lparr>g_flush := NoFlush\<rparr>"
      using assms(2) by (simp add: flush_step_def)
    then show ?thesis using batch_idle(1) by blast
  next
    case Scheduled
    then have "g' = g\<lparr>g_flush := NoFlush\<rparr> \<or> (\<exists>w. g' = g\<lparr>g_flush := Running w [] False\<rparr>)"
      using assms(2) by (auto simp: flush_step_def split: option.splits)
    then show ?thesis using batch_idle by blast
  next
    case (Running w batch b)
    then have "batch = []" using False by (cases batch) auto
    then have "g' = g\<lparr>g_flush := NoFlush\<rparr> \<or> g' = g\<lparr>g_flush := Running w (peek (g_outbox g) 100) False\<rparr>"
      using assms(2) Running by (auto simp: flush_step_def split: list.splits if_splits)
    then show ?thesis using batch_idle(1) peeked by blast
  qed
  then show ?thesis
    using assms(1) by (auto simp: replay_ok_def)
qed

section \<open>Steps and runs\<close>

lemma replay_frame:
  "replay_ok R g \<Longrightarrow> g_outbox g' = g_outbox g \<Longrightarrow> waiters_ok R g' \<Longrightarrow> g_flush g' = g_flush g \<or> flush_batch (g_flush g') = [] \<Longrightarrow> replay_ok R g'"
  by (auto simp: replay_ok_def batch_ok_def)

lemma waiters_same: "waiters_ok R g \<Longrightarrow> g_waiters g' = g_waiters g \<Longrightarrow> waiters_ok R g'"
  by (simp add: waiters_ok_def)

lemma request_flush_flush: "g_flush (request_flush g) = g_flush g \<or> flush_batch (g_flush (request_flush g)) = []"
  by (auto simp: request_flush_def)

lemma replay_connected: "replay_ok R g \<Longrightarrow> replay_ok R (server_connected g w)"
  by (rule replay_frame) (auto simp: server_connected_def request_flush_def replay_ok_def waiters_ok_def)

lemma replay_lost: "replay_ok R g \<Longrightarrow> replay_ok R (server_lost g w)"
  by (rule replay_frame)
    (auto simp: server_lost_def cancel_flush_def Let_def replay_ok_def waiters_ok_def split: flush.splits list.splits bool.splits if_splits)

lemma lost_outbox [simp]:
  "g_outbox (server_lost g w) = g_outbox g" "g_outbox (server_connected g w) = g_outbox g" "g_outbox (server_unreachable g) = g_outbox g"
  by (auto simp: server_lost_def cancel_flush_def Let_def server_connected_def request_flush_def server_unreachable_def
      split: flush.splits list.splits bool.splits)

lemma persisted_ack_waiters:
  assumes "waiters_ok R g" "handle_persisted_ack g m w = (b, g')"
  shows "waiters_ok (R \<union> receipts_in (GServer m w io)) g'" "g_outbox g' = g_outbox g" "g_flush g' = g_flush g"
proof -
  have "g' = g \<or> (\<exists>i r. dgetn (m_payload m) ''ack_message_id'' = PStr i \<and> i \<in> receipts_in (GServer m w io) \<and>
      g' = gcount ''persisted_acks'' (g\<lparr>g_waiters := dset (g_waiters g) i (r\<lparr>rw_done := True\<rparr>)\<rparr>))"
    using assms(2) by (auto simp: handle_persisted_ack_def Let_def is_str_def split: if_splits option.splits pyval.splits)
  then show "waiters_ok (R \<union> receipts_in (GServer m w io)) g'" "g_outbox g' = g_outbox g" "g_flush g' = g_flush g"
    using waiters_mono [OF assms(1), of "R \<union> receipts_in (GServer m w io)"] by (auto intro!: waiters_new)
qed

lemma replay_server:
  assumes "replay_ok R g" "server_message g m w io = (g', out, e)"
  shows "replay_ok (R \<union> receipts_in (GServer m w io)) g' \<and> g_outbox g' = g_outbox g"
proof (cases "m_type m = PERSISTED_ACK")
  case True
  obtain b g1 where h: "handle_persisted_ack g m w = (b, g1)" by (metis surj_pair)
  then have "g' = g1"
    using assms(2) True by (simp add: server_message_def)
  moreover have w: "waiters_ok R g" using assms(1) by (simp add: replay_ok_def)
  have "replay_ok (R \<union> receipts_in (GServer m w io)) g1"
    by (rule replay_frame [OF replay_mono [OF assms(1) Un_upper1] _ persisted_ack_waiters(1) [OF w h]])
      (simp_all add: persisted_ack_waiters(2,3) [OF w h])
  ultimately show ?thesis
    using persisted_ack_waiters(2) [OF w h] by simp
next
  case False
  obtain g1 x where p: "apply_policy g m io = (g1, x)" by (metis surj_pair)
  then have f1: "g_outbox g1 = g_outbox g" "g_waiters g1 = g_waiters g" "g_flush g1 = g_flush g"
    by (auto simp: apply_policy_def split: if_splits prod.splits sum.splits)
  have "g' = g \<or> g' = g1 \<or> g' = gcount ''invalid_policies'' g1"
    using assms(2) False p by (auto simp: server_message_def split: if_splits option.splits py_error.splits)
  then have f: "g_outbox g' = g_outbox g" "g_waiters g' = g_waiters g" "g_flush g' = g_flush g"
    using f1 by auto
  have "replay_ok R g'"
    by (rule replay_frame [OF assms(1) f(1) waiters_same [OF _ f(2)]]) (use assms(1) f(3) in \<open>simp_all add: replay_ok_def\<close>)
  with f(1) replay_mono show ?thesis by blast
qed

lemma replay_restart:
  assumes "replay_ok R g"
  shows "replay_ok R (restarted g p c d k t cap b dup cols) \<and> only_removes R (g_outbox g) (g_outbox (restarted g p c d k t cap b dup cols))"
proof (cases "gateway_init p c d (queue_connect (g_outbox g) cols) k t cap b dup")
  case (Inl e)
  with assms show ?thesis by (simp add: restarted_def)
next
  case (Inr g')
  then have f: "g_outbox g' = queue_connect (g_outbox g) cols" "g_waiters g' = []" "g_flush g' = NoFlush"
    by (auto simp: gateway_init_def split: sum.splits prod.splits)
  have q: "q_inv (g_outbox g)" and cov: "covered R (g_outbox g)"
    using assms by (simp_all add: replay_ok_def)
  have "q_inv (g_outbox g')" "covered R (g_outbox g')" "only_removes R (g_outbox g) (g_outbox g')"
    using keeps_connect [of "g_outbox g" cols] f(1) q covered_keeps [OF keeps_connect q cov]
    by (auto simp: keeps_def only_removes_def)
  with f Inr show ?thesis
    by (simp add: restarted_def replay_ok_def waiters_ok_def)
qed

lemma gw_step_other:
  assumes "replay_ok R (gs_gw s)"
  shows "(\<exists>io. op = GFlush io) \<or> (\<exists>m w io. op = GServer m w io) \<or> (\<exists>w. op = GConnected w \<or> op = GLost w \<or> op = GUnreachable) \<or>
    (\<exists>p c d k t cap b dup cols. op = GRestart p c d k t cap b dup cols) \<or> calm (gs_gw s) (gs_gw (gw_step s op))"
proof (cases op)
  case (GClient w m nonce io)
  then show ?thesis
    using calm_client by (simp add: set_gw_def) (metis prod.collapse)
next
  case (GClosed w)
  then show ?thesis using calm_closed by simp
next
  case (GSensor hash io)
  then show ?thesis
    using calm_sensor_next by (auto split: prod.splits)
next
  case (GResume latency audits io)
  then show ?thesis
    using calm_continue by (simp split: option.splits) (metis prod.collapse)
next
  case (GResult hash sends io)
  then show ?thesis
    using calm_result_next by (simp add: set_gw_def) (metis prod.collapse)
next
  case (GUpload io)
  then show ?thesis
    using calm_upload_next by (simp add: set_gw_def) (metis prod.collapse)
next
  case (GCommand closing lost io)
  then show ?thesis
    using calm_command_next by (simp add: set_gw_def) (metis prod.collapse)
next
  case (GRetry now t io)
  then show ?thesis
    using calm_retry_pass by (simp add: set_gw_def) (metis prod.collapse)
next
  case (GHeartbeat pw timeout io)
  then show ?thesis
    using calm_heartbeat by (simp add: set_gw_def) (metis prod.collapse)
qed (simp_all add: calm_peer)

lemma step_replay:
  assumes "replay_ok R (gs_gw s)"
  shows "replay_ok (R \<union> receipts_in op) (gs_gw (gw_step s op)) \<and>
    only_removes (R \<union> receipts_in op) (g_outbox (gs_gw s)) (g_outbox (gs_gw (gw_step s op)))"
proof -
  have R: "replay_ok (R \<union> receipts_in op) (gs_gw s)"
    using replay_mono [OF assms] by blast
  consider (flush) io where "op = GFlush io" | (server) m w io where "op = GServer m w io"
    | (link) w where "op = GConnected w \<or> op = GLost w \<or> op = GUnreachable"
    | (restart) p c d k t cap b dup cols where "op = GRestart p c d k t cap b dup cols"
    | (other) "calm (gs_gw s) (gs_gw (gw_step s op))"
    using gw_step_other [OF assms, of op] by blast
  then show ?thesis
  proof cases
    case flush
    then show ?thesis
      using replay_flush [OF R, of io] by (simp add: set_gw_def) (metis prod.collapse)
  next
    case (server m w io)
    obtain g' out e where s: "server_message (gs_gw s) m w io = (g', out, e)" by (metis surj_pair)
    show ?thesis
      using replay_server [OF assms s] server s by (simp add: set_gw_def del: receipts_in.simps)
  next
    case link
    then show ?thesis
      using assms replay_connected replay_lost
      by (auto simp: server_unreachable_def gcount_def intro!: replay_frame [OF assms] waiters_same [of R "gs_gw s"] simp: replay_ok_def)
  next
    case (restart p c d k t cap b dup cols)
    then show ?thesis using replay_restart [OF assms] by simp
  next
    case other
    then show ?thesis using replay_calm [OF R] by simp
  qed
qed

lemma only_removes_trans: "only_removes R a b \<Longrightarrow> only_removes R b c \<Longrightarrow> only_removes R a c"
  unfolding only_removes_def by (meson order_trans)

lemma only_removes_mono: "only_removes R a b \<Longrightarrow> R \<subseteq> R' \<Longrightarrow> only_removes R' a b"
  by (auto simp: only_removes_def)

lemma run_replay:
  "replay_ok R (gs_gw s) \<Longrightarrow> replay_ok (R \<union> all_receipts ops) (gs_gw (run gw_step s ops)) \<and>
     only_removes (R \<union> all_receipts ops) (g_outbox (gs_gw s)) (g_outbox (gs_gw (run gw_step s ops)))"
proof (induction ops arbitrary: s R)
  case (Cons op ops)
  let ?R = "R \<union> receipts_in op"
  have one: "replay_ok ?R (gs_gw (gw_step s op))" "only_removes ?R (g_outbox (gs_gw s)) (g_outbox (gs_gw (gw_step s op)))"
    using step_replay [OF Cons.prems] by blast+
  have all: "R \<union> all_receipts (op # ops) = ?R \<union> all_receipts ops"
    by (auto simp: all_receipts_def)
  show ?case
    unfolding all using Cons.IH [OF one(1)] only_removes_mono [OF one(2), of "?R \<union> all_receipts ops"] only_removes_trans
    by auto
qed (auto simp: all_receipts_def)

lemma all_receipts_append [simp]: "all_receipts (a @ b) = all_receipts a \<union> all_receipts b"
  by (auto simp: all_receipts_def)

section \<open>What nodes are told\<close>

text \<open>The frames that handling a sample and handling a result write.\<close>

definition answers :: "gsys \<Rightarrow> gw_op \<Rightarrow> wire" where
  "answers s op =
     (case op of
        GSensor hash io \<Rightarrow> if gs_job s \<noteq> None then [] else fst (snd (sensor_next (gs_gw s) hash io))
      | GResult hash sends io \<Rightarrow> fst (snd (result_next (gs_gw s) hash sends io))
      | _ \<Rightarrow> [])"

definition tells_durable :: "wire \<Rightarrow> string \<Rightarrow> bool" where
  "tells_durable out i \<longleftrightarrow> (\<exists>w r. (w, r) \<in> set out \<and> m_type r = PERSISTED_ACK \<and> dgetn (m_payload r) ''ack_message_id'' = PStr i)"

lemma tells_simps [simp]: "\<not> tells_durable [] i" "tells_durable (a @ b) i \<longleftrightarrow> tells_durable a i \<or> tells_durable b i"
  by (auto simp: tells_durable_def)

lemma admitted_promised: "admit_upload g m u i d io = (g', Inr ok) \<Longrightarrow> i \<in> promised (g_outbox g')"
proof -
  assume r: "admit_upload g m u i d io = (g', Inr ok)"
  obtain q x where q: "admit_sensor (g_outbox g) u i d (wall (io_clock io)) (io_store io) = (q, x)"
    by (metis surj_pair)
  have ok: "x = Inr ok \<and> g_outbox g' = q"
    using r q by (auto simp: admit_upload_def Let_def request_flush_def split: option.splits sum.splits if_splits)
  have "i \<in> fst ` set (q_receipts q)"
  proof (cases "x = Inr True")
    case True
    then show ?thesis using q by (elim admit_sensor_cases) auto
  next
    case False
    then have "q = g_outbox g \<and> map_of (q_receipts q) i \<noteq> None"
      using q ok by (auto simp: admit_sensor_def split: if_splits option.splits sum.splits prod.splits)
    then show ?thesis by (metis map_of_eq_None_iff)
  qed
  with ok show ?thesis by (simp add: promised_def)
qed

lemma admit_job_told:
  assumes "admit_job g job u receipt io = (g', out, st)" "tells_durable out i"
  shows "i \<in> promised (g_outbox g')"
proof -
  obtain identity d ok where a: "admit_upload g (sj_message job) u identity d io = (g', Inr ok)"
      and out: "send_receipt g' (sj_message job) identity io = Some out"
    using assms by (auto simp: admit_job_def split: option.splits prod.splits sum.splits)
  have "i = identity"
    using assms(2) out by (auto simp: send_receipt_def receipt_message_def new_message_def tells_durable_def dgetn_def
        split: option.splits if_splits)
  with admitted_promised [OF a] show ?thesis by simp
qed

lemma receive_told:
  assumes "sensor_receive g hash m ing io = (g', out, st)" "tells_durable out i"
  shows "i \<in> promised (g_outbox g')"
proof -
  obtain pr receipt where "sensor_prepared g m ing pr receipt io = (g', out, st)"
    using assms by (auto simp: sensor_receive_def Let_def split: if_splits sum.splits option.splits py_error.splits)
  then show ?thesis
    by (cases rule: sensor_prepared_cases) (use assms(2) admit_job_told in auto)
qed

lemma sensor_told:
  assumes "sensor_next g hash io = (g', out, job, e)" "tells_durable out i"
  shows "i \<in> promised (g_outbox g')"
proof -
  obtain m ing q g1 st where r: "sensor_receive (g\<lparr>g_sensors := q\<rparr>) hash m ing io = (g1, out, st)" and o1: "g_outbox g' = g_outbox g1"
    using assms by (auto simp: sensor_next_def sensor_failed_def split: option.splits prod.splits sensor_stage.splits if_splits)
  from receive_told [OF r assms(2)] o1 show ?thesis by simp
qed

lemma status_told: "result_status g m rw state why sends io = (g', out) \<Longrightarrow> tells_durable out i \<Longrightarrow> state = ''RESULT_DURABLY_STORED'' \<and> i = m_id m"
  by (auto simp: result_status_def Let_def tells_durable_def new_message_def dgetn_def split: option.splits if_splits)

lemma status_outbox: "result_status g m rw state why sends io = (g', out) \<Longrightarrow> g_outbox g' = g_outbox g"
  by (auto simp: result_status_def Let_def split: option.splits if_splits)

lemma reliable_told:
  assumes "admit_reliable g hash m rw sends io = (g', out, r)" "tells_durable out i"
  shows "i \<in> promised (g_outbox g')"
proof -
  obtain g1 o1 where a: "result_status g m rw ''RESULT_RECEIVED'' PNone sends io = (g1, o1)"
    by (metis surj_pair)
  have no: "\<not> tells_durable o1 i"
    using status_told [OF a] by auto
  obtain d q fresh g2 o2 where q: "admit_result (g_outbox g1) (result_upload g m) d (wall (io_clock io)) (io_store io) = (q, Inr fresh)"
      and b: "result_status (g1\<lparr>g_outbox := q\<rparr>) m rw ''RESULT_DURABLY_STORED'' PNone sends io = (g2, o2)"
      and g': "g' = request_flush g2" and t: "tells_durable o2 i"
    using assms a no by (auto simp: admit_reliable_def Let_def split: option.splits if_splits sum.splits prod.splits)
  have "m_id (result_upload g m) \<in> fst ` set (q_results q)"
    using q by (auto simp: admit_result_def split: if_splits option.splits sum.splits prod.splits dest: map_of_SomeD intro: rev_image_eqI)
  then show ?thesis
    using status_told [OF b t] status_outbox [OF b] g' by (auto simp: promised_def request_flush_def result_upload_def new_message_def)
qed

lemma finish_promised: "promised (g_outbox (finish_result g m io)) = promised (g_outbox g)"
  by (auto simp: finish_result_def Let_def audit_outcome_def promised_def split: prod.split sum.split)

lemma result_told:
  assumes "process_control_result g hash m rw sends io = (g', out, r)" "tells_durable out i"
  shows "i \<in> promised (g_outbox g')"
proof -
  have status: "\<not> tells_durable o1 i" if "result_status a m rw ''RESULT_REJECTED'' why sends io = (b, o1)" for a b why o1
    using status_told [OF that] by auto
  obtain g1 o1 x where a: "admit_reliable g hash m rw sends io = (g1, o1, x)" and t: "tells_durable o1 i"
      and g': "promised (g_outbox g') = promised (g_outbox g1)"
    using assms status
    by (auto simp: process_control_result_def Let_def finish_promised status_outbox split: if_splits prod.splits sum.splits)
  from reliable_told [OF a t] g' show ?thesis by simp
qed

lemma answer_promised:
  assumes "tells_durable (answers s op) i"
  shows "i \<in> promised (g_outbox (gs_gw (gw_step s op)))"
proof -
  consider (sensor) hash io where "op = GSensor hash io" "gs_job s = None" | (result) hash sends io where "op = GResult hash sends io"
    using assms by (auto simp: answers_def split: gw_op.splits if_splits)
  then show ?thesis
  proof cases
    case sensor
    obtain g' out job e where n: "sensor_next (gs_gw s) hash io = (g', out, job, e)" by (metis surj_pair)
    with sensor sensor_told [OF n, of i] assms show ?thesis by (simp add: answers_def)
  next
    case (result hash sends io)
    obtain g' out e where n: "result_next (gs_gw s) hash sends io = (g', out, e)" by (metis surj_pair)
    then obtain m w q r where "process_control_result ((gs_gw s)\<lparr>g_results := q\<rparr>) hash m (Some w) sends io = (g', out, r)"
      using assms result by (auto simp: answers_def result_next_def split: option.splits prod.splits)
    from result_told [OF this] n assms result show ?thesis by (simp add: answers_def set_gw_def)
  qed
qed

section \<open>Properties\<close>

definition started :: "gateway \<Rightarrow> gsys" where
  "started g = \<lparr>gs_gw = g, gs_job = None\<rparr>"

lemma init_replay:
  assumes "queue_init path bytes_of mm mb rm rb rs rr = Inr q" "gateway_init p c d q k t cap b dup = Inr g"
  shows "replay_ok {} (gs_gw (started g))"
proof -
  have f: "g_outbox g = q" "g_waiters g = []" "g_flush g = NoFlush"
    using assms(2) by (auto simp: gateway_init_def split: sum.splits prod.splits)
  have "promised q = {}"
    using assms(1) by (auto simp: queue_init_def Let_def default_limits_def promised_def split: if_splits)
  with f queue_init_inv [OF assms(1)] show ?thesis
    by (simp add: started_def replay_ok_def waiters_ok_def covered_def)
qed

text \<open>
  no upload is lost on the way to the cloud. Take any run of a gateway from an empty outbox:
  samples, alerts, commands, results, lost links, failed writes, storage faults and restarts in any
  order. A message that is in the outbox at some point is still in the same row at every later point,
  as long as no receipt of the server has named its message id.
\<close>

theorem unconfirmed_upload_stays:
  assumes "queue_init path bytes_of mm mb rm rb rs rr = Inr q" "gateway_init p c d q k t cap b dup = Inr g"
    and "stored (g_outbox (gs_gw (run gw_step (started g) before))) i = Some m"
    and "m_id m \<notin> all_receipts (before @ later)"
  shows "stored (g_outbox (gs_gw (run gw_step (started g) (before @ later)))) i = Some m"
proof -
  have "replay_ok ({} \<union> all_receipts before) (gs_gw (run gw_step (started g) before))"
    using run_replay [OF init_replay [OF assms(1, 2)]] by blast
  from run_replay [OF this, of later] show ?thesis
    using assms(3, 4) by (auto simp: run_append only_removes_def)
qed

text \<open>
  a receipt that the gateway gives to a node is a promise it keeps. When the handling of a sample
  or of a control result writes a \<^verbatim>\<open>PERSISTED_ACK\<close> for an id, then at every later point of the run,
  over lost links, storage faults and restarts, a message with that id is in the outbox or the server
  has confirmed it.
\<close>

theorem node_receipt_is_kept:
  assumes "queue_init path bytes_of mm mb rm rb rs rr = Inr q" "gateway_init p c d q k t cap b dup = Inr g"
    and "tells_durable (answers (run gw_step (started g) before) op) i"
  shows "i \<in> outbox_ids (g_outbox (gs_gw (run gw_step (started g) (before @ op # later)))) \<or>
    i \<in> all_receipts (before @ op # later)"
proof -
  let ?s = "gw_step (run gw_step (started g) before) op"
  have s: "run gw_step (started g) (before @ op # later) = run gw_step ?s later"
    by (simp add: run_append)
  have R: "replay_ok ({} \<union> all_receipts (before @ [op])) (gs_gw ?s)"
    using run_replay [OF init_replay [OF assms(1, 2)], of "before @ [op]"] by (simp add: run_append)
  have "i \<in> promised (g_outbox (gs_gw ?s))"
    by (rule answer_promised [OF assms(3)])
  with run_replay [OF R, of later] show ?thesis
    unfolding s by (auto simp: replay_ok_def covered_def only_removes_def all_receipts_def)
qed

end
