(* ===== verification/GatewayDemo.thy ===== *)
theory GatewayDemo
  imports GatewayRuns
begin

text \<open>
  One concrete afternoon of a gateway, evaluated step by step, on which the properties of runs are
  tried: sensor B1 registers with A1 and sends a reliable sample; it is admitted, acknowledged,
  and the dry soil leads to an irrigation command.
\<close>

definition gw_io :: "real \<Rightarrow> string \<Rightarrow> gio" where
  [model_defs]: "gw_io t i = \<lparr>io_clock = \<lparr>wall = t, mono_clock = t\<rparr>, io_id = i, io_store = True, io_audit = True, io_sent = True\<rparr>"

definition demo_connectivity :: connectivity where
  [model_defs]: "demo_connectivity = \<lparr>k_backoff = [1], k_cooldown = 1, k_failures = 0, k_state = LinkOffline, k_early = False, k_last_critical = None\<rparr>"

definition demo_gateway :: gateway where
  "demo_gateway =
     \<lparr>g_peer = demo_link ''A1'' ''A2'', g_tracker = ack_tracker_init ACK_TIMEOUT MAX_RETRIES, g_outcomes = outcomes_init 5,
      g_outbox = demo_queue, g_uploads = \<lparr>bq_items = [], bq_capacity = 8, bq_high_water = 0, bq_max_wait = 0, bq_stamp = (\<lambda>m _. m)\<rparr>,
      g_commands = \<lparr>bq_items = [], bq_capacity = 8, bq_high_water = 0, bq_max_wait = 0, bq_stamp = (\<lambda>m _. m)\<rparr>,
      g_sensors = \<lparr>bq_items = [], bq_capacity = 8, bq_high_water = 0, bq_max_wait = 0, bq_stamp = (\<lambda>m _. m)\<rparr>,
      g_results = \<lparr>bq_items = [], bq_capacity = 8, bq_high_water = 0, bq_max_wait = 0, bq_stamp = (\<lambda>m _. m)\<rparr>,
      g_sequences = seq_guard_init, g_boots = [], g_boot_id = ''g1'', g_controller = ''C1'', g_warned = False,
      g_link = demo_connectivity, g_decider = demo_decider, g_conns = [], g_server = None, g_waiters = [], g_flush = NoFlush,
      g_last_command = None, g_alert_state = [], g_duplicate = False\<rparr>"

lemma demo_gateway_init:
  "gateway_init (demo_link ''A1'' ''A2'') None demo_decider demo_queue demo_connectivity 5 8 ''g1'' False = Inr demo_gateway"
  by (simp add: gateway_init_def bq_init_def demo_gateway_def demo_link_def gateway_failover_def failover_init_def
      restore_ownership_def ownership_init_def CONTROLLER_OF_def str_of_def)

abbreviation fo0 :: failover where
  "fo0 \<equiv> fresh_failover ''A1'' ''A2'' 10 None \<lparr>wall = 0, mono_clock = 0\<rparr>"

lemma demo_fo: "pl_fo (demo_link ''A1'' ''A2'') = fo0" "g_fo demo_gateway = fo0"
  by (simp_all add: demo_gateway_def demo_link_def gateway_failover_restore restore_ownership_def) (simp_all add: fresh_failover_def)

definition demo_register :: "string \<Rightarrow> string \<Rightarrow> message" where
  [model_defs]: "demo_register node kind = new_message NODE_REGISTER node ''A1''
     [(''node_type'', PStr kind), (''generation'', PInt 1), (''boot_id'', PStr ''b'')] 0 (node @ ''-r'')"

definition dry_sample :: message where
  [model_defs]: "dry_sample = (new_message SENSOR_DATA ''B1'' ''A1''
     [(''boot_id'', PStr ''b''), (''sample_seq'', PInt 10), (''sample_id'', PStr ''B1-b-0000000a''),
      (''importance'', PStr ''NORMAL''), (''policy_version'', PStr ''v1''), (''device_monotonic_ms'', PInt 5),
      (''delivery_contract'', PStr DELIVERY_CONTRACT), (''delivery_age_ms'', PInt 0),
      (''data'', PDict [(''soil_moisture'', PInt 20), (''temperature'', PInt 25), (''humidity'', PInt 50), (''light'', PInt 300)])]
     0 ''B1-b-0000000a-S'')\<lparr>m_sequence := Some 10\<rparr>"

definition demo_ops :: "gw_op list" where
  [model_defs]: "demo_ops = [GClient 7 (demo_register ''B1'' ''SENSOR'') [] (gw_io 1 ''r1''), GClient 8 (demo_register ''C1'' ''CONTROLLER'') [] (gw_io 1 ''r2''),
     GClient 7 dry_sample [] (gw_io 2 ''r3'')]"

definition demo_reg :: "real \<Rightarrow> real \<Rightarrow> registry" where
  "demo_reg t u =
     [(''B1'', \<lparr>n_kind = SENSOR, n_owner = ''A1'', n_status = (if t = 0 then OFFLINE else ONLINE), n_last_seen = t, n_seen_mono = t, n_generation = 1\<rparr>),
      (''C1'', \<lparr>n_kind = CONTROLLER, n_owner = ''A1'', n_status = (if u = 0 then OFFLINE else ONLINE), n_last_seen = u, n_seen_mono = u, n_generation = 1\<rparr>),
      (''B2'', \<lparr>n_kind = SENSOR, n_owner = ''A2'', n_status = OFFLINE, n_last_seen = 0, n_seen_mono = 0, n_generation = 1\<rparr>),
      (''C2'', \<lparr>n_kind = CONTROLLER, n_owner = ''A2'', n_status = OFFLINE, n_last_seen = 0, n_seen_mono = 0, n_generation = 1\<rparr>)]"

lemma fo0_parts: "f_reg fo0 = demo_reg 0 0" "f_own fo0 = ownership_init ''A1'' ''A2'' 1"
  by (simp_all add: fresh_failover_def seed_registry_def upsert_def node_ids_of_def SENSOR_OF_def CONTROLLER_OF_def stamp_def Let_def
      INITIAL_GENERATION_def dset_def demo_reg_def)

definition registered_gateway :: "real \<Rightarrow> gateway" where
  "registered_gateway t = demo_gateway\<lparr>g_peer := (g_peer demo_gateway)\<lparr>pl_fo := fo0\<lparr>f_reg := demo_reg t 1\<rparr>\<rparr>,
     g_conns := [(''B1'', 7), (''C1'', 8)], g_boots := [(''B1'', PStr ''b''), (''C1'', PStr ''b'')]\<rparr>"

lemma first_registration:
  "fst (client_message demo_gateway 7 (demo_register ''B1'' ''SENSOR'') [] (gw_io 1 ''r1'')) =
     demo_gateway\<lparr>g_peer := (g_peer demo_gateway)\<lparr>pl_fo := fo0\<lparr>f_reg := demo_reg 1 0\<rparr>\<rparr>,
       g_conns := [(''B1'', 7)], g_boots := [(''B1'', PStr ''b'')]\<rparr>"
  by (simp add: client_message_def node_registration_def demo_fo handle_register_def fo0_parts demo_register_def new_message_def
      gw_io_def Let_def dgetd_def node_known_def GATEWAY_OF_SENSOR_def GATEWAY_OF_CONTROLLER_def expected_kind_def dhas_def
      may_control_def owns_def ownership_init_def integer_def int_of_def touch_def stamp_def answer_def dset_def demo_reg_def demo_gateway_def dgetn_def)

lemma second_registration:
  "fst (client_message (demo_gateway\<lparr>g_peer := (g_peer demo_gateway)\<lparr>pl_fo := fo0\<lparr>f_reg := demo_reg 1 0\<rparr>\<rparr>,
       g_conns := [(''B1'', 7)], g_boots := [(''B1'', PStr ''b'')]\<rparr>) 8 (demo_register ''C1'' ''CONTROLLER'') [] (gw_io 1 ''r2'')) = registered_gateway 1"
  by (simp add: client_message_def node_registration_def handle_register_def fo0_parts demo_register_def new_message_def
      gw_io_def Let_def dgetd_def node_known_def GATEWAY_OF_SENSOR_def GATEWAY_OF_CONTROLLER_def expected_kind_def dhas_def
      may_control_def owns_def ownership_init_def integer_def int_of_def touch_def stamp_def answer_def dset_def demo_reg_def registered_gateway_def dgetn_def)

definition queued_gateway :: gateway where
  "queued_gateway = (registered_gateway 2)\<lparr>g_sensors := (g_sensors demo_gateway)\<lparr>bq_items := [((dry_sample, \<lparr>in_boot = ''g1'', in_mono = 2, in_wall = 2\<rparr>), 2)],
     bq_high_water := 1\<rparr>\<rparr>"

lemma sample_queued: "fst (client_message (registered_gateway 1) 7 dry_sample [] (gw_io 2 ''r3'')) = queued_gateway"
  by (simp add: client_message_def node_message_def touch_node_def put_nowait_def bq_put_def registered_gateway_def fo0_parts
      gw_io_def Let_def dry_sample_def new_message_def owns_def ownership_init_def touch_def stamp_def dset_def demo_reg_def
      queued_gateway_def demo_gateway_def)

definition judged_gateway :: gateway where
  "judged_gateway = queued_gateway\<lparr>g_sensors := (g_sensors queued_gateway)\<lparr>bq_items := [], bq_max_wait := 1000\<rparr>\<rparr>"

lemma sample_taken:
  "get_nowait (g_sensors queued_gateway) 3 = (Some (dry_sample, \<lparr>in_boot = ''g1'', in_mono = 2, in_wall = 2\<rparr>), g_sensors judged_gateway)"
  by (simp add: get_nowait_def queued_gateway_def judged_gateway_def registered_gateway_def demo_gateway_def)

lemma dry_identity: "identity_and_digest (\<lambda>_. ''h'') dry_sample = Inr (''B1-b-0000000a-S'', ''h'')"
  by (simp add: identity_and_digest_def dry_sample_def new_message_def Let_def dgetn_def is_str_def str_of_def integer_def
      int_of_def boot_chars_def sample_id_of_def demo_hex suffix_of_def metadata_ok_def nonempty_str_def number_def
      int_finite_def num_of_def dumps_def evidence_of_def json_ok_PDict)

lemma dry_trusted: "trusted_channels (dict_of (dgetn (m_payload dry_sample) ''data'')) (m_payload dry_sample) = FEATURE_CHANNELS"
  by (simp add: trusted_channels_def dry_sample_def new_message_def dgetn_def dgetd_def health_states_def reading_ok_def
      FEATURE_CHANNELS_def number_def int_finite_def num_of_def in_sensor_range_def SENSOR_RANGES_def)

lemma dry_prepared_shape:
  "\<exists>r. prepare_sensor_record dry_sample ''rule'' ''g1'' \<lparr>in_boot = ''g1'', in_mono = 2, in_wall = 2\<rparr> 3 =
     Some \<lparr>pr_record = r, pr_trusted = FEATURE_CHANNELS, pr_usable = True, pr_physical = False, pr_wait = Some 1000\<rparr>"
  using dry_trusted
  by (simp add: prepare_sensor_record_def Let_def dry_sample_def new_message_def dgetn_def dgetd_def usable_channels_def FEATURE_CHANNELS_def wait_of_def)

definition dry_prepared :: prepared where
  "dry_prepared = the (prepare_sensor_record dry_sample ''rule'' ''g1'' \<lparr>in_boot = ''g1'', in_mono = 2, in_wall = 2\<rparr> 3)"

definition dry_record :: dict where
  "dry_record = fst (finalize_sensor_record dry_prepared (m_payload dry_sample) True (Some ''b'') True)"

lemma dry_prepare:
  "prepare_sensor_record dry_sample ''rule'' ''g1'' \<lparr>in_boot = ''g1'', in_mono = 2, in_wall = 2\<rparr> 3 = Some dry_prepared"
  "pr_trusted dry_prepared = FEATURE_CHANNELS" "pr_usable dry_prepared" "pr_wait dry_prepared = Some 1000" "\<not> pr_physical dry_prepared"
  using dry_prepared_shape by (auto simp: dry_prepared_def)

lemma dry_finalize:
  "finalize_sensor_record dry_prepared (m_payload dry_sample) True (Some ''b'') True = (dry_record, [])"
  "dgetn dry_record ''usable_for_control'' = PBool True"
proof -
  have age: "effective_age (m_payload dry_sample) (pr_wait dry_prepared) = Some 1000"
    by (simp add: effective_age_def dry_prepare dry_sample_def new_message_def dgetn_def number_def int_finite_def num_of_def)
  then show "finalize_sensor_record dry_prepared (m_payload dry_sample) True (Some ''b'') True = (dry_record, [])"
    by (simp add: dry_record_def finalize_sensor_record_def Let_def age_events_def MAX_CONTROL_AGE_MS_def)
      (simp add: dry_sample_def new_message_def dgetn_def)
  show "dgetn dry_record ''usable_for_control'' = PBool True"
    using age by (simp add: dry_record_def finalize_sensor_record_def Let_def age_usable_def MAX_CONTROL_AGE_MS_def dry_prepare)
      (simp add: dry_sample_def new_message_def dgetn_def)
qed

definition dry_stored :: dict where
  "dry_stored = dset (dset (dset dry_record ''gateway_id'' (PStr ''A1'')) ''sensor_node_id'' (PStr ''B1'')) ''health_state'' (PStr ''HEALTHY'')"

definition dry_upload :: message where
  "dry_upload = (new_message SENSOR_DATA ''A1'' ''SERVER'' [(''record'', PDict dry_stored)] 3 ''B1-b-0000000a-S'')\<lparr>m_sequence := Some 10\<rparr>"

lemma copied_other: "k \<notin> set keys \<Longrightarrow> map_of (foldl (copy_key p) d keys) k = map_of d k"
proof (induction keys arbitrary: d)
  case (Cons a keys)
  then show ?case
    by (simp add: copy_key_def split: option.split)
qed simp

lemma copied_value: "k \<notin> set keys \<Longrightarrow> dgetn (foldl (copy_key p) d keys) k = dgetn d k"
  by (simp add: copied_other dgetn_def)

lemma ok_cons: "json_ok (PDict ((k, v) # d)) \<longleftrightarrow> json_ok v \<and> json_ok (PDict d)" "json_ok (PDict [])"
  "finite_json (PDict ((k, v) # d)) \<longleftrightarrow> finite_json v \<and> finite_json (PDict d)" "finite_json (PDict [])"
  by (simp_all add: json_ok_PDict finite_json_PDict)

lemma ok_strings: "json_ok (PList (map PStr xs))" "finite_json (PList (map PStr xs))"
  by (simp_all add: list_all_iff)

lemma ok_dset:
  "json_ok (PDict d) \<Longrightarrow> json_ok v \<Longrightarrow> json_ok (PDict (dset d k v))" "finite_json (PDict d) \<Longrightarrow> finite_json v \<Longrightarrow> finite_json (PDict (dset d k v))"
  using set_dset_subset [of d k v] by (fastforce simp: json_ok_PDict finite_json_PDict)+

lemma ok_copied: "json_ok (PDict p) \<Longrightarrow> json_ok (PDict d) \<Longrightarrow> json_ok (PDict (foldl (copy_key p) d keys))"
  "finite_json (PDict p) \<Longrightarrow> finite_json (PDict d) \<Longrightarrow> finite_json (PDict (foldl (copy_key p) d keys))"
proof -
  have one: "json_ok (PDict p) \<Longrightarrow> json_ok (PDict d) \<Longrightarrow> json_ok (PDict (copy_key p d k))"
    "finite_json (PDict p) \<Longrightarrow> finite_json (PDict d) \<Longrightarrow> finite_json (PDict (copy_key p d k))" for d k
    by (auto simp: copy_key_def split: option.split intro!: ok_dset) (auto simp: json_ok_PDict finite_json_PDict dest!: map_of_SomeD)
  show "json_ok (PDict p) \<Longrightarrow> json_ok (PDict d) \<Longrightarrow> json_ok (PDict (foldl (copy_key p) d keys))"
    "finite_json (PDict p) \<Longrightarrow> finite_json (PDict d) \<Longrightarrow> finite_json (PDict (foldl (copy_key p) d keys))"
    using one by (induction keys arbitrary: d) simp_all
qed

lemmas dry_eval = dry_stored_def dry_record_def finalize_sensor_record_def Let_def effective_age_def dry_prepared_def
  prepare_sensor_record_def wait_of_def opt_ms_def

lemma dry_payload: "dgetd (m_payload dry_sample) ''data'' (PDict []) =
    PDict [(''soil_moisture'', PInt 20), (''temperature'', PInt 25), (''humidity'', PInt 50), (''light'', PInt 300)]"
  "m_timestamp dry_sample = 0" "dgetn (m_payload dry_sample) ''node_mode'' = PNone"
  "dgetn (m_payload dry_sample) ''delivery_age_ms'' = PInt 0"
  by (simp_all add: dry_sample_def new_message_def dgetd_def dgetn_def)

lemma not_history: "k \<in> {''soil_moisture'', ''temperature'', ''humidity'', ''light'', ''timestamp''} \<Longrightarrow> k \<notin> set history_keys"
  by (auto simp: history_keys_def)

lemma dry_stored_fields:
  "dgetn dry_stored ''soil_moisture'' = PInt 20" "dgetn dry_stored ''temperature'' = PInt 25"
  "dgetn dry_stored ''humidity'' = PInt 50" "dgetn dry_stored ''light'' = PInt 300" "dhas dry_stored ''soil_moisture''"
  "dgetn dry_stored ''sensor_node_id'' = PStr ''B1''" "dgetn dry_stored ''timestamp'' = PFloat (Fin 0)" "dhas dry_stored ''timestamp''"
  "dgetn dry_stored ''health_state'' = PStr ''HEALTHY''" "dhas dry_stored ''health_state''"
  by (simp_all add: dry_eval dry_payload copied_other copied_value not_history dhas_def)

lemma dry_stored_json: "json_ok (PDict dry_stored)" "finite_json (PDict dry_stored)"
proof -
  have p: "json_ok (PDict (m_payload dry_sample))" "finite_json (PDict (m_payload dry_sample))"
    by (simp_all add: dry_sample_def new_message_def json_ok_PDict finite_json_PDict int_finite_def)
  show "json_ok (PDict dry_stored)" "finite_json (PDict dry_stored)"
    using p by (simp_all add: dry_eval dry_payload ok_dset ok_copied ok_cons ok_strings ACTION_CHANNELS_def int_finite_def
        del: json_ok.simps(6) finite_json.simps(6))
qed

lemma dry_valid: "validate_server_upload dry_upload = None"
proof -
  have wf: "wf_message dry_upload"
    by (simp add: wf_message_def dry_upload_def new_message_def wf_opt_def finite_json_PDict dry_stored_json(2) [unfolded finite_json_PDict])
  have p: "m_type dry_upload = SENSOR_DATA" "m_source dry_upload = ''A1''" "m_target dry_upload = ''SERVER''"
      "dgetn (m_payload dry_upload) ''record'' = PDict dry_stored"
    by (simp_all add: dry_upload_def new_message_def dgetn_def)
  have "dgetd dry_stored ''timestamp'' v = dgetn dry_stored ''timestamp''" "dgetd dry_stored ''health_state'' v = dgetn dry_stored ''health_state''" for v
    using dry_stored_fields(8, 10) by (auto simp: dgetd_def dgetn_def)
  then have r: "dgetd dry_stored ''timestamp'' v = PFloat (Fin 0)" "dgetd dry_stored ''health_state'' v = PStr ''HEALTHY''" for v
    by (simp_all add: dry_stored_fields(7, 9))
  have "sensor_check dry_upload = None"
    using dry_stored_fields(5)
    by (simp add: sensor_check_def p r dry_stored_fields dry_stored_json first_of_def require_key_def require_def one_of_def CHANNEL_FIELDS_def
        number_def int_finite_def GATEWAY_OF_SENSOR_def dhas_def [of "[(a, b)]" for a b] is_str_def str_of_def List.map_filter_simps hashable_def)
  then show ?thesis
    by (simp add: validate_server_upload_def from_to_dict [OF wf] p GATEWAY_PORTS_def dhas_iff)
qed

definition admitted_gateway :: gateway where
  "admitted_gateway = judged_gateway\<lparr>g_outbox := fst (admit_sensor demo_queue dry_upload ''B1-b-0000000a-S'' ''h'' 3 True)\<rparr>"

definition dry_job :: sensor_job where
  "dry_job = \<lparr>sj_message = dry_sample, sj_record = dry_stored, sj_trusted = FEATURE_CHANNELS, sj_usable = True,
     sj_identity = Some ''B1-b-0000000a-S'', sj_admitted = True, sj_received = 2\<rparr>"

lemma dry_admitted:
  "admit_sensor demo_queue dry_upload ''B1-b-0000000a-S'' ''h'' 3 True = (g_outbox admitted_gateway, Inr True)"
  "g_outbox admitted_gateway = demo_queue\<lparr>q_rows := [\<lparr>r_id = 1, r_message = dry_upload, r_created = 3, r_retries = 0, r_high = high_priority dry_upload\<rparr>],
     q_next := 2, q_receipts := [(''B1-b-0000000a-S'', ''h'', 3)],
     q_audit := [(''B1-b-0000000a-S'', \<lparr>au_state = ''RECEIVED'', au_command = None, au_updated = 3\<rparr>)], q_enqueued := 1\<rparr>"
proof -
  have j: "json_ok (PDict (to_dict dry_upload))"
    by (simp add: dry_upload_def new_message_def to_dict_def opt_entry_def ok_cons dry_stored_json int_finite_def del: json_ok.simps(7))
  show "admit_sensor demo_queue dry_upload ''B1-b-0000000a-S'' ''h'' 3 True = (g_outbox admitted_gateway, Inr True)"
    "g_outbox admitted_gateway = demo_queue\<lparr>q_rows := [\<lparr>r_id = 1, r_message = dry_upload, r_created = 3, r_retries = 0, r_high = high_priority dry_upload\<rparr>],
     q_next := 2, q_receipts := [(''B1-b-0000000a-S'', ''h'', 3)],
     q_audit := [(''B1-b-0000000a-S'', \<lparr>au_state = ''RECEIVED'', au_command = None, au_updated = 3\<rparr>)], q_enqueued := 1\<rparr>"
    using j by (simp_all add: admitted_gateway_def admit_sensor_def enqueue_row_def Let_def demo_queue_def row_of_def count_limit_def byte_limit_def q_bytes_def)
qed

lemma judged_parts:
  "g_boot_id judged_gateway = ''g1''" "g_outbox judged_gateway = demo_queue" "g_decider judged_gateway = demo_decider"
  "g_conns judged_gateway = [(''B1'', 7), (''C1'', 8)]" "g_fo judged_gateway = fo0\<lparr>f_reg := demo_reg 2 1\<rparr>"
  "registered_boot judged_gateway ''B1'' = Some ''b''" "g_server judged_gateway = None" "g_sequences judged_gateway = seq_guard_init"
  by (simp_all add: judged_gateway_def queued_gateway_def registered_gateway_def demo_gateway_def registered_boot_def)

lemma dry_receive:
  "sensor_receive judged_gateway (\<lambda>_. ''h'') dry_sample \<lparr>in_boot = ''g1'', in_mono = 2, in_wall = 2\<rparr> (gw_io 3 ''r4'') =
     (admitted_gateway, [(7, receipt_message ''A1'' ''B1'' ''B1-b-0000000a-S'' (gw_io 3 ''r4''))], Resume dry_job)"
proof -
  have c: "dgetn (m_payload dry_sample) ''delivery_contract'' = PStr DELIVERY_CONTRACT" "m_type dry_sample = SENSOR_DATA" "m_source dry_sample = ''B1''"
      "m_id dry_sample = ''B1-b-0000000a-S''" "m_sequence dry_sample = Some 10" "dgetd (m_payload dry_sample) ''health_state'' v = v" for v
    by (simp_all add: dry_sample_def new_message_def dgetn_def dgetd_def)
  have fresh: "sample_fresh judged_gateway dry_sample (Some (''B1-b-0000000a-S'', ''h'')) = (True, seq_guard_init)"
    by (simp add: sample_fresh_def judged_parts sensor_is_fresh_def demo_queue_def)
  have same: "judged_gateway\<lparr>g_sequences := seq_guard_init\<rparr> = judged_gateway"
    using judged_parts(8) by (metis gateway.surjective gateway.update_convs(9))
  have stored: "stored_record judged_gateway dry_sample dry_record = dry_stored"
    by (simp add: stored_record_def dry_stored_def c judged_parts fo0_parts ownership_init_def)
  have up: "sensor_upload judged_gateway dry_sample dry_stored (gw_io 3 ''r4'') = dry_upload"
    by (simp add: sensor_upload_def dry_upload_def c judged_parts fo0_parts ownership_init_def gw_io_def)
  have parts: "g_conns admitted_gateway = [(''B1'', 7), (''C1'', 8)]" "gw_id (g_fo admitted_gateway) = ''A1''" "g_server admitted_gateway = None"
    by (simp_all add: admitted_gateway_def judged_parts fo0_parts ownership_init_def)
  have near: "\<not> near_capacity (g_outbox admitted_gateway)"
    by (simp add: dry_admitted near_capacity_def demo_queue_def)
  have upd: "judged_gateway\<lparr>g_outbox := g_outbox admitted_gateway\<rparr> = admitted_gateway"
    by (simp add: admitted_gateway_def)
  have adm: "admit_upload judged_gateway dry_sample dry_upload ''B1-b-0000000a-S'' ''h'' (gw_io 3 ''r4'') = (admitted_gateway, Inr True)"
    by (simp add: admit_upload_def dry_valid judged_parts gw_io_def dry_admitted(1) near upd request_flush_def parts)
  have send: "send_receipt admitted_gateway dry_sample ''B1-b-0000000a-S'' (gw_io 3 ''r4'') =
      Some [(7, receipt_message ''A1'' ''B1'' ''B1-b-0000000a-S'' (gw_io 3 ''r4''))]"
    by (simp add: send_receipt_def parts c gw_io_def)
  have path: "q_path (g_outbox judged_gateway) \<noteq> '':memory:''" "engine_name (d_engine (g_decider judged_gateway)) = ''rule''"
    by (simp_all add: judged_parts demo_queue_def demo_decider_def)
  have now: "mono_clock (io_clock (gw_io 3 ''r4'')) = 3" by (simp add: gw_io_def)
  show ?thesis
    by (simp add: sensor_receive_def c dry_identity path now judged_parts(1) dry_prepare(1) sensor_prepared_def fresh same dry_finalize(1) judged_parts(6)
        gcount_all_def stored up admit_job_def sample_job_def dry_job_def dry_prepare(2) dry_finalize(2) adm send Let_def)
qed

lemma demo_prefix: "run gw_step (started demo_gateway) demo_ops = started queued_gateway"
  by (simp add: demo_ops_def started_def set_gw_def first_registration second_registration sample_queued)

lemma demo_admitted:
  "sensor_next queued_gateway (\<lambda>_. ''h'') (gw_io 3 ''r4'') =
     (admitted_gateway, [(7, receipt_message ''A1'' ''B1'' ''B1-b-0000000a-S'' (gw_io 3 ''r4''))], Some dry_job, None)"
proof -
  have t: "get_nowait (g_sensors queued_gateway) (mono_clock (io_clock (gw_io 3 ''r4''))) =
      (Some (dry_sample, \<lparr>in_boot = ''g1'', in_mono = 2, in_wall = 2\<rparr>), g_sensors judged_gateway)"
    using sample_taken by (simp add: gw_io_def)
  have u: "queued_gateway\<lparr>g_sensors := g_sensors judged_gateway\<rparr> = judged_gateway"
    by (simp add: judged_gateway_def)
  show ?thesis
    by (simp add: sensor_next_def t u dry_receive)
qed

lemma started_simps [simp]: "gs_gw (started g) = g" "gs_job (started g) = None"
  by (simp_all add: started_def)

lemma demo_tells: "tells_durable (answers (run gw_step (started demo_gateway) demo_ops) (GSensor (\<lambda>_. ''h'') (gw_io 3 ''r4''))) ''B1-b-0000000a-S''"
  by (simp add: demo_prefix answers_def demo_admitted tells_durable_def receipt_message_def new_message_def dgetn_def)

lemma demo_stored: "stored (g_outbox (gs_gw (run gw_step (started demo_gateway) (demo_ops @ [GSensor (\<lambda>_. ''h'') (gw_io 3 ''r4'')])))) 1 = Some dry_upload"
  by (simp add: run_append demo_prefix demo_admitted dry_admitted(2) stored_def)

definition demo_after :: "gw_op list" where
  [model_defs]: "demo_after = [GConnected 9, GFlush (gw_io 4 ''r5''), GLost 9, GUnreachable]"

theorem unconfirmed_upload_stays_witness:
  "stored (g_outbox (gs_gw (run gw_step (started demo_gateway) ((demo_ops @ [GSensor (\<lambda>_. ''h'') (gw_io 3 ''r4'')]) @ demo_after)))) 1 = Some dry_upload"
  by (rule unconfirmed_upload_stays [OF demo_queue_init demo_gateway_init demo_stored])
    (simp add: demo_ops_def demo_after_def all_receipts_def)

theorem node_receipt_is_kept_witness:
  "''B1-b-0000000a-S'' \<in> outbox_ids (g_outbox (gs_gw (run gw_step (started demo_gateway) (demo_ops @ GSensor (\<lambda>_. ''h'') (gw_io 3 ''r4'') # demo_after))))"
  using node_receipt_is_kept [OF demo_queue_init demo_gateway_init demo_tells, of demo_after]
  by (simp add: demo_ops_def demo_after_def all_receipts_def)

end
