(* ===== verification/SampleCommands.thy ===== *)
theory SampleCommands
  imports GatewayDemo
begin

text \<open>
  Which samples lead to commands: the two steps of the sample handling taken together, with any
  other handling in between.
\<close>

section \<open>The command queue\<close>

lemma queue_locally_commands: "queue_locally g m io = (g', e) \<Longrightarrow> g_commands g' = g_commands g"
  by (auto simp: queue_locally_def split: if_splits prod.splits sum.splits)

lemma submit_commands: "submit_upload g m io = (g', e) \<Longrightarrow> g_commands g' = g_commands g"
proof -
  assume r: "submit_upload g m io = (g', e)"
  obtain ok q where p: "put_nowait (g_uploads g) m (mono_clock (io_clock io)) = (ok, q)" by (metis surj_pair)
  define g1 where "g1 = gcount ''upload_queue_saturated'' (g\<lparr>g_uploads := q\<rparr>)"
  obtain g2 x where l: "queue_locally g1 m io = (g2, x)" by (metis surj_pair)
  have "g_commands g2 = g_commands g"
    using queue_locally_commands [OF l] by (simp add: g1_def)
  then show ?thesis
    using r p l g1_def [symmetric]
    by (auto simp: submit_upload_def Let_def persist_congested_def request_flush_def split: if_splits option.splits bool.splits)
qed

lemma audit_step_commands: "audit_step g m st c io = (g', e) \<Longrightarrow> g_commands g' = g_commands g"
  by (auto simp: audit_step_def Let_def split: if_splits prod.splits sum.splits)

lemma report_commands: "report_undispatched g m why first io = (g', e) \<Longrightarrow> g_commands g' = g_commands g"
  by (auto simp: report_undispatched_def Let_def dest!: audit_step_commands submit_commands split: prod.splits option.splits sum.splits)

lemma audit_job_frame:
  "audit_job g job st c audits io = (g', e) \<Longrightarrow> g_commands g' = g_commands g \<and> g_peer g' = g_peer g \<and>
     g_decider g' = g_decider g \<and> g_controller g' = g_controller g"
  by (auto simp: audit_job_def split: option.splits prod.splits sum.splits)

lemma queue_command_new:
  assumes "queue_command g m retry io = (g', e)" "c \<in> set (map fst (bq_items (g_commands g')))" "bq_stamp (g_commands g) = (\<lambda>c _. c)"
  shows "c \<in> set (map fst (bq_items (g_commands g))) \<or> c = (m, retry)"
proof -
  obtain ok q where p: "put_nowait (g_commands g) (m, retry) (mono_clock (io_clock io)) = (ok, q)" by (metis surj_pair)
  obtain g1 e1 where rep: "report_undispatched (gcount ''command_queue_rejected'' (g\<lparr>g_commands := q\<rparr>)) m ''QUEUE_FULL'' (\<not> retry) io = (g1, e1)"
    by (metis surj_pair)
  have "g_commands g' = q"
    using assms(1) p rep report_commands [OF rep] by (auto simp: queue_command_def split: bool.splits option.splits)
  moreover have "q = g_commands g \<or> bq_items q = bq_items (g_commands g) @ [((m, retry), mono_clock (io_clock io))]"
    using p assms(3) by (auto simp: put_nowait_def bq_put_def split: if_splits)
  ultimately show ?thesis
    using assms(2) by auto
qed

section \<open>From the sample to the decision\<close>

lemma decide_new:
  assumes "sensor_decide g job latency audits io = (g', e)" "c \<in> set (map fst (bq_items (g_commands g')))"
    and "c \<notin> set (map fst (bq_items (g_commands g)))" "bq_stamp (g_commands g) = (\<lambda>c _. c)"
  shows "skip_reason g job (mono_clock (io_clock io)) = None \<and>
    (\<exists>d. decide (g_decider g) (sj_record job) (Some (sj_trusted job)) = Inr (Some d) \<and>
       c = (sensor_command g job (target_of g (m_source (sj_message job))) d io, False))"
proof (cases "skip_reason g job (mono_clock (io_clock io))")
  case (Some x)
  obtain st b a where x: "x = (st, b, a)" by (metis prod_cases3)
  have "skip_job g job st b a audits io = (g', e)"
    using assms(1) Some x by (simp add: sensor_decide_def)
  then have "g_commands g' = g_commands g"
    by (auto simp: skip_job_def dest!: audit_job_frame split: prod.splits option.splits if_splits)
  with assms(2, 3) show ?thesis by simp
next
  case None
  obtain g1 e1 where j1: "audit_job g job ''DECIDING'' None audits io = (g1, e1)" by (metis surj_pair)
  note f1 = audit_job_frame [OF j1]
  define g2 where "g2 = gcount_by ''decision_latency_us'' latency (gcount ''decision_calls'' g1)"
  have c1: "g_commands g1 = g_commands g" "g_commands g2 = g_commands g" "g_decider g1 = g_decider g"
    using f1 by (simp_all add: g2_def gcount_def)
  let ?c = "\<lambda>d. sensor_command g2 job (target_of g2 (m_source (sj_message job))) d io"
  have "g_commands g' = g_commands g \<or> (\<exists>d g3 e3 x. decide (g_decider g) (sj_record job) (Some (sj_trusted job)) = Inr (Some d) \<and>
      audit_job g2 job ''COMMAND_PLANNED'' (Some (m_id (?c d))) audits io = (g3, e3) \<and> queue_command g3 (?c d) False io = (g', x))"
  proof (cases e1)
    case (Some x)
    then show ?thesis using assms(1) None j1 c1 by (simp add: sensor_decide_def)
  next
    case e1: None
    show ?thesis
    proof (cases "decide (g_decider g) (sj_record job) (Some (sj_trusted job))")
      case (Inl x)
      then show ?thesis
        using assms(1) None j1 e1 c1
        by (cases x) (auto simp: sensor_decide_def split: prod.splits option.splits dest!: audit_job_frame)
    next
      case (Inr decision)
      then show ?thesis
        using assms(1) None j1 e1 c1 g2_def [symmetric]
        by (cases decision) (auto simp: sensor_decide_def Let_def split: prod.splits option.splits sum.splits dest!: audit_job_frame)
    qed
  qed
  then obtain d g3 e3 x where d: "decide (g_decider g) (sj_record job) (Some (sj_trusted job)) = Inr (Some d)"
      and j3: "audit_job g2 job ''COMMAND_PLANNED'' (Some (m_id (?c d))) audits io = (g3, e3)"
      and q: "queue_command g3 (?c d) False io = (g', x)"
    using assms(2, 3) by metis
  have same: "sensor_command g2 job (target_of g2 s) d io = sensor_command g job (target_of g s) d io" for s
    using f1 by (simp add: sensor_command_def target_of_def g2_def gcount_by_def gcount_def count_link_def cong: option.case_cong)
  have "c = (sensor_command g2 job (target_of g2 (m_source (sj_message job))) d io, False)"
    using queue_command_new [OF q assms(2)] audit_job_frame [OF j3] c1 assms(3, 4) by auto
  with None d same show ?thesis by auto
qed

lemma resume_new:
  assumes "sensor_resume g job latency audits io = (g', e)" "c \<in> set (map fst (bq_items (g_commands g')))"
    and "c \<notin> set (map fst (bq_items (g_commands g)))" "bq_stamp (g_commands g) = (\<lambda>c _. c)"
  shows "sj_admitted job \<and> m_type (sj_message job) \<noteq> ALERT \<and> skip_reason g job (mono_clock (io_clock io)) = None \<and>
    (\<exists>d. decide (g_decider g) (sj_record job) (Some (sj_trusted job)) = Inr (Some d) \<and>
       c = (sensor_command g job (target_of g (m_source (sj_message job))) d io, False))"
proof -
  have "m_type (sj_message job) \<noteq> ALERT \<and> sj_admitted job \<and> (\<exists>g1. sensor_decide g1 job latency audits io = (g', e) \<and>
      g_commands g1 = g_commands g \<and> f_own (g_fo g1) = f_own (g_fo g) \<and> f_reg (g_fo g1) = f_reg (g_fo g) \<and>
      g_decider g1 = g_decider g \<and> g_controller g1 = g_controller g)"
    using assms(1-3)
    by (auto simp: sensor_resume_def Let_def gcount_def count_link_def dest!: audit_job_frame split: if_splits)
  then obtain g1 where m: "m_type (sj_message job) \<noteq> ALERT" "sj_admitted job" and d: "sensor_decide g1 job latency audits io = (g', e)"
    and f: "g_commands g1 = g_commands g" "f_own (g_fo g1) = f_own (g_fo g)" "f_reg (g_fo g1) = f_reg (g_fo g)"
      "g_decider g1 = g_decider g" "g_controller g1 = g_controller g" by blast
  have "skip_reason g1 job t = skip_reason g job t" "sensor_command g1 job t' d' io = sensor_command g job t' d' io"
    "target_of g1 s = target_of g s" for t t' d' s
    using f by (simp_all add: skip_reason_def target_of_def sensor_command_def cong: option.case_cong)
  with decide_new [OF d assms(2)] m f assms(3, 4) show ?thesis by auto
qed

lemma receive_job:
  assumes "sensor_receive g hash m ing io = (g1, out, Resume job)"
  obtains pr fresh r ev and receipt :: "(string \<times> string) option" where
    "prepare_sensor_record m (engine_name (d_engine (g_decider g))) (g_boot_id g) ing (mono_clock (io_clock io)) = Some pr"
    "finalize_sensor_record pr (m_payload m) (receipt \<noteq> None) (registered_boot g (m_source m)) fresh = (r, ev)"
    "sj_message job = m" "sj_usable job = (dgetn r ''usable_for_control'' = PBool True)" "sj_trusted job = pr_trusted pr"
    "sj_received job = in_mono ing" "sj_identity job = map_option fst receipt"
    "receipt \<noteq> None \<longleftrightarrow> dgetn (m_payload m) ''delivery_contract'' = PStr DELIVERY_CONTRACT"
    "\<forall>i d. receipt = Some (i, d) \<longrightarrow> i = m_id m \<and> (sj_admitted job \<longrightarrow> \<not> has_receipt (g_outbox g) i) \<and> has_receipt (g_outbox g1) i"
proof -
  obtain pr receipt where p: "sensor_prepared g m ing pr receipt io = (g1, out, Resume job)"
      and pr: "prepare_sensor_record m (engine_name (d_engine (g_decider g))) (g_boot_id g) ing (mono_clock (io_clock io)) = Some pr"
      and rc: "receipt \<noteq> None \<longleftrightarrow> dgetn (m_payload m) ''delivery_contract'' = PStr DELIVERY_CONTRACT"
      and id: "\<And>i d. receipt = Some (i, d) \<Longrightarrow> i = m_id m"
    using assms by (auto simp: sensor_receive_def Let_def dest!: receive_identity split: if_splits sum.splits option.splits py_error.splits)
  obtain fresh sq r ev g0 where
      f: "finalize_sensor_record pr (m_payload m) (receipt \<noteq> None) (registered_boot g (m_source m)) fresh = (r, ev)"
      and g0d: "g0 = gcount_all (ev @ (if receipt \<noteq> None then [] else [''sensor_messages''])) (g\<lparr>g_sequences := sq\<rparr>)"
      and alt: "(\<exists>e. g1 = g0 \<and> out = [] \<and> Resume job = Failed e) \<or>
         (\<exists>u r'. admit_job g0 ((sample_job m ing pr receipt r)\<lparr>sj_record := r'\<rparr>) u receipt io = (g1, out, Resume job) \<and> m_id u = m_id m \<and>
        (m_type m \<noteq> ALERT \<longrightarrow> r' = stored_record g0 m r))"
    by (rule sensor_prepared_cases [OF p]) blast
  from alt obtain u r' where a: "admit_job g0 ((sample_job m ing pr receipt r)\<lparr>sj_record := r'\<rparr>) u receipt io = (g1, out, Resume job)"
    by auto
  have g0: "g_outbox g0 = g_outbox g"
    by (simp add: g0d)
  have j: "\<exists>b. job = (sample_job m ing pr receipt r)\<lparr>sj_record := r', sj_admitted := b\<rparr>"
    using a by (auto simp: admit_job_def split: option.splits sum.splits prod.splits)
  have rec: "i = m_id m \<and> (sj_admitted job \<longrightarrow> \<not> has_receipt (g_outbox g) i) \<and> has_receipt (g_outbox g1) i" if s: "receipt = Some (i, d)" for i d
  proof -
    obtain b where adm: "admit_upload g0 m u i d io = (g1, Inr b)" and b: "sj_admitted job = b"
      using a s j by (auto simp: admit_job_def sample_job_def split: option.splits sum.splits prod.splits)
    obtain q where q: "admit_sensor (g_outbox g) u i d (wall (io_clock io)) (io_store io) = (q, Inr b)" and o1: "g_outbox g1 = q"
      using adm g0 by (auto simp: admit_upload_def Let_def request_flush_def split: option.splits sum.splits prod.splits if_splits)
    have "\<not> has_receipt (g_outbox g) i" if b
      using q that by (auto elim: admit_sensor_cases)
    moreover have "has_receipt q i"
    proof (cases b)
      case True
      then show ?thesis using q by (elim admit_sensor_cases) (auto simp: has_receipt_def)
    next
      case False
      then have "q = g_outbox g \<and> map_of (q_receipts q) i \<noteq> None"
        using q by (auto simp: admit_sensor_def split: if_splits option.splits sum.splits prod.splits)
      then show ?thesis by (auto simp: has_receipt_def map_of_eq_None_iff)
    qed
    ultimately show ?thesis
      using id [OF s] b o1 by simp
  qed
  show ?thesis
    using that [OF pr f _ _ _ _ _ rc] j rec by (auto simp: sample_job_def)
qed

text \<open>
  C8: a command comes only from a sample that may be trusted, at a gateway that may control. Let the
  handling of a message, in a first state, and its continuation, in any later state, put a new command
  into the command queue. Then the message is not an alert; its channels carry what the decision
  engine needs; it entered this boot of the gateway and, at the moment of the decision, is not older
  than the bound, where a reliable sample also counts the age it arrived with and comes from the
  registered boot of the device; the gateway may control the target at that moment and stamps its
  current epoch; and a reliable sample had no receipt before and has one now, so that it never leads
  to a second command.
\<close>

theorem command_needs_trusted_sample:
  assumes "sensor_receive g hash m ing io = (g1, out, Resume job)" "sensor_resume g2 job latency audits io2 = (g3, e)"
    and "(c, again) \<in> set (map fst (bq_items (g_commands g3)))" "(c, again) \<notin> set (map fst (bq_items (g_commands g2)))"
    and "bq_stamp (g_commands g2) = (\<lambda>c _. c)"
  shows "m_type m \<noteq> ALERT \<and> \<not> again \<and> m_target c = target_of g2 (m_source m) \<and>
    may_control (f_own (g_fo g2)) (f_reg (g_fo g2)) (m_target c) \<and>
    dgetn (m_payload c) ''gateway_generation'' = PInt (o_generation (f_own (g_fo g2))) \<and>
    usable_channels (engine_name (d_engine (g_decider g))) (sj_trusted job) \<and> in_boot ing = g_boot_id g \<and>
    0 \<le> (mono_clock (io_clock io2) - in_mono ing) * 1000 \<and>
    (mono_clock (io_clock io2) - in_mono ing) * 1000 \<le> MAX_CONTROL_AGE_MS \<and>
    (dgetn (m_payload m) ''delivery_contract'' = PStr DELIVERY_CONTRACT \<longrightarrow>
       num_of (dgetn (m_payload m) ''delivery_age_ms'') + (mono_clock (io_clock io2) - in_mono ing) * 1000 \<le> MAX_CONTROL_AGE_MS \<and>
       dgetn (m_payload m) ''boot_id'' = opt_str (registered_boot g (m_source m)) \<and>
       \<not> has_receipt (g_outbox g) (m_id m) \<and> has_receipt (g_outbox g1) (m_id m))"
proof -
  obtain d where r: "sj_admitted job" "m_type (sj_message job) \<noteq> ALERT" "skip_reason g2 job (mono_clock (io_clock io2)) = None"
    and c: "(c, again) = (sensor_command g2 job (target_of g2 (m_source (sj_message job))) d io2, False)"
    using resume_new [OF assms(2-5)] by blast
  from assms(1) obtain pr fresh rr ev and receipt :: "(string \<times> string) option" where
    pr: "prepare_sensor_record m (engine_name (d_engine (g_decider g))) (g_boot_id g) ing (mono_clock (io_clock io)) = Some pr"
    and f: "finalize_sensor_record pr (m_payload m) (receipt \<noteq> None) (registered_boot g (m_source m)) fresh = (rr, ev)"
    and j: "sj_message job = m" "sj_usable job = (dgetn rr ''usable_for_control'' = PBool True)" "sj_trusted job = pr_trusted pr"
      "sj_received job = in_mono ing" "sj_identity job = map_option fst receipt"
    and rc: "receipt \<noteq> None \<longleftrightarrow> dgetn (m_payload m) ''delivery_contract'' = PStr DELIVERY_CONTRACT"
    and adm: "\<forall>i d. receipt = Some (i, d) \<longrightarrow> i = m_id m \<and> (sj_admitted job \<longrightarrow> \<not> has_receipt (g_outbox g) i) \<and> has_receipt (g_outbox g1) i"
    by (rule receive_job)
  have skip: "sj_usable job" "may_control (f_own (g_fo g2)) (f_reg (g_fo g2)) (target_of g2 (m_source m))"
      "fresh_at_decision (m_payload m) (receipt \<noteq> None) (in_mono ing) (mono_clock (io_clock io2))"
    using r(3) j by (auto simp: skip_reason_def split: if_splits)
  have u: "dgetn rr ''usable_for_control'' = PBool True"
    using skip(1) j(2) by simp
  note rec = usable_recordD [OF pr f u]
  have "receipt \<noteq> None \<longrightarrow> \<not> has_receipt (g_outbox g) (m_id m) \<and> has_receipt (g_outbox g1) (m_id m)"
    using adm r(1) by (cases receipt) auto
  moreover have "m_target c = target_of g2 (m_source m) \<and> dgetn (m_payload c) ''gateway_generation'' = PInt (o_generation (f_own (g_fo g2)))"
    using c j(1) by (auto simp: sensor_command_def Let_def new_message_def split: option.splits)
  ultimately show ?thesis
    using rec skip r(2) j(1, 3) c rc by (auto simp: fresh_at_decision_def Let_def)
qed

text \<open>The dry sample of the demonstration, decided one second after its receipt was written.\<close>

definition dry_decision :: dict where
  "dry_decision = [(''type'', PStr ''IRRIGATION''), (''duration'', PFloat (Fin 10)), (''reason'', PStr ''soil_moisture  < '')]"

lemma dry_decide: "\<exists>v. decide demo_decider dry_stored (Some FEATURE_CHANNELS) =
    Inr (Some [(''type'', PStr ''IRRIGATION''), (''duration'', v), (''reason'', PStr ''soil_moisture  < '')])"
proof -
  have "dgetn (filter (\<lambda>(k, v). k \<in> set FEATURE_CHANNELS) dry_stored) ''soil_moisture'' = PInt 20"
    using dry_stored_fields(1) by (subst dgetn_filter_keys) (simp add: FEATURE_CHANNELS_def)
  then show ?thesis
    by (simp add: decide_def predict_def rule_predict_def rule_table_def demo_decider_def DEFAULT_POLICY_def merged_policy_def
        finite_number_def int_finite_def num_of_def in_sensor_range_def SENSOR_RANGES_def dgetn_def Let_def)
qed

lemma admitted_parts:
  "g_boot_id admitted_gateway = ''g1''" "g_decider admitted_gateway = demo_decider" "g_controller admitted_gateway = ''C1''"
  "g_fo admitted_gateway = fo0\<lparr>f_reg := demo_reg 2 1\<rparr>" "g_commands admitted_gateway = g_commands demo_gateway"
  by (simp_all add: admitted_gateway_def judged_gateway_def queued_gateway_def registered_gateway_def) (simp_all add: demo_gateway_def)

lemma audit_running:
  assumes "sj_identity job = Some i" "map_of (q_audit (g_outbox g)) i \<noteq> None"
  shows "\<exists>g'. audit_job g job st c (\<lambda>_. True) io = (g', None) \<and> map_of (q_audit (g_outbox g')) i \<noteq> None"
  using assms by (auto simp: audit_job_def audit_control_def)

lemma dry_resume:
  "\<exists>g3 c. sensor_resume admitted_gateway dry_job 5 (\<lambda>_. True) (gw_io 4 ''c1'') = (g3, None) \<and> (c, False) \<in> set (map fst (bq_items (g_commands g3)))"
proof -
  let ?io = "gw_io 4 ''c1''"
  define g1 where "g1 = (gcount_all [''sensor_durable_admitted'', ''sensor_messages''] admitted_gateway)
    \<lparr>g_sequences := snd (seq_accept (g_sequences (gcount_all [''sensor_durable_admitted'', ''sensor_messages''] admitted_gateway)) dry_sample)\<rparr>"
  have j: "sj_identity dry_job = Some ''B1-b-0000000a-S''" "sj_admitted dry_job" "sj_message dry_job = dry_sample" "m_type dry_sample = SENSOR_DATA"
      "sj_usable dry_job" "sj_record dry_job = dry_stored" "sj_trusted dry_job = FEATURE_CHANNELS" "sj_received dry_job = 2" "m_source dry_sample = ''B1''"
    by (simp_all add: dry_job_def dry_sample_def new_message_def)
  have t: "target_of g ''B1'' = ''C1''" for g
    by (simp add: target_of_def CONTROLLER_OF_SENSOR_def)
  have parts: "f_own (g_fo g1) = ownership_init ''A1'' ''A2'' 1" "f_reg (g_fo g1) = demo_reg 2 1" "g_decider g1 = demo_decider"
      "g_commands g1 = g_commands demo_gateway" "map_of (q_audit (g_outbox g1)) ''B1-b-0000000a-S'' \<noteq> None"
    by (simp_all add: g1_def admitted_parts fo0_parts dry_admitted(2))
  have m: "may_control (f_own (g_fo g1)) (f_reg (g_fo g1)) ''C1''"
    by (simp add: parts may_control_def owns_def ownership_init_def demo_reg_def)
  have "fresh_at_decision (m_payload dry_sample) True 2 4"
    by (simp add: fresh_at_decision_def dry_payload number_def int_finite_def num_of_def MAX_CONTROL_AGE_MS_def)
  then have skip: "skip_reason g1 dry_job 4 = None"
    using m dry_stored_fields(5) by (simp add: skip_reason_def j t del: dhas_iff)
  have now: "mono_clock (io_clock ?io) = 4"
    by (simp add: gw_io_def)
  obtain a where a: "audit_job g1 dry_job ''DECIDING'' None (\<lambda>_. True) ?io = (a, None)" "map_of (q_audit (g_outbox a)) ''B1-b-0000000a-S'' \<noteq> None"
    using audit_running [OF j(1) parts(5)] by blast
  note fa = audit_job_frame [OF a(1)]
  obtain v where d: "decide (g_decider a) dry_stored (Some FEATURE_CHANNELS) =
      Inr (Some [(''type'', PStr ''IRRIGATION''), (''duration'', v), (''reason'', PStr ''soil_moisture  < '')])"
    using dry_decide fa parts(3) by auto
  define b where "b = gcount_by ''decision_latency_us'' 5 (gcount ''decision_calls'' a)"
  define c where "c = sensor_command b dry_job ''C1'' [(''type'', PStr ''IRRIGATION''), (''duration'', v), (''reason'', PStr ''soil_moisture  < '')] ?io"
  have "map_of (q_audit (g_outbox b)) ''B1-b-0000000a-S'' \<noteq> None"
    using a(2) by (simp add: b_def)
  then obtain e where e: "audit_job b dry_job ''COMMAND_PLANNED'' (Some (m_id c)) (\<lambda>_. True) ?io = (e, None)"
    using audit_running [OF j(1)] by blast
  have k: "g_commands e = g_commands demo_gateway"
    using audit_job_frame [OF e] fa parts(4) by (simp add: b_def)
  define h where "h = e\<lparr>g_commands := bq_put (g_commands demo_gateway) (c, False) 4\<rparr>"
  have q: "queue_command e c False ?io = (h, Inr True)"
    by (simp add: queue_command_def k put_nowait_def gw_io_def h_def) (simp add: demo_gateway_def)
  have dec: "sensor_decide g1 dry_job 5 (\<lambda>_. True) ?io = (h, None)"
    by (simp add: sensor_decide_def now skip a(1) d j t b_def [symmetric] c_def [symmetric] e q Let_def)
  have "sensor_resume admitted_gateway dry_job 5 (\<lambda>_. True) ?io = (h, None)"
    using dec by (simp add: sensor_resume_def j g1_def Let_def)
  moreover have "(c, False) \<in> set (map fst (bq_items (g_commands h)))"
    by (simp add: h_def bq_put_def) (simp add: demo_gateway_def)
  ultimately show ?thesis by blast
qed

theorem command_needs_trusted_sample_witness:
  "\<exists>g3 c. sensor_resume admitted_gateway dry_job 5 (\<lambda>_. True) (gw_io 4 ''c1'') = (g3, None) \<and>
     (c, False) \<in> set (map fst (bq_items (g_commands g3))) \<and> m_target c = ''C1'' \<and>
     dgetn (m_payload c) ''gateway_generation'' = PInt 1"
proof -
  obtain g3 c where r: "sensor_resume admitted_gateway dry_job 5 (\<lambda>_. True) (gw_io 4 ''c1'') = (g3, None)"
      and c: "(c, False) \<in> set (map fst (bq_items (g_commands g3)))"
    using dry_resume by blast
  have n: "(c, False) \<notin> set (map fst (bq_items (g_commands admitted_gateway)))" "bq_stamp (g_commands admitted_gateway) = (\<lambda>c _. c)"
    by (simp_all add: admitted_parts) (simp_all add: demo_gateway_def)
  have "target_of admitted_gateway (m_source dry_sample) = ''C1''" "o_generation (f_own (g_fo admitted_gateway)) = 1"
    by (simp_all add: target_of_def CONTROLLER_OF_SENSOR_def dry_sample_def new_message_def admitted_parts fo0_parts ownership_init_def)
  with command_needs_trusted_sample [OF dry_receive r c n] r c show ?thesis by auto
qed

section \<open>Dispatch with authority, tried\<close>

definition plain_command :: message where
  [model_defs]: "plain_command = new_message CONTROL_COMMAND ''A1'' ''C1''
     [(''type'', PStr ''IRRIGATION''), (''duration'', PInt 5), (''command_id'', PStr ''k''), (''gateway_generation'', PInt 1)] 3 ''k''"

theorem dispatch_only_with_authority_witness:
  "\<exists>g' out r. dispatch_command (demo_gateway\<lparr>g_conns := [(''C1'', 8)]\<rparr>) plain_command True (\<lambda>_. False) False (gw_io 4 ''u'') = (g', out, r) \<and>
     out \<noteq> [] \<and> may_control (f_own fo0) (f_reg fo0) ''C1''"
proof -
  let ?g = "demo_gateway\<lparr>g_conns := [(''C1'', 8)]\<rparr>"
  obtain g' out r where d: "dispatch_command ?g plain_command True (\<lambda>_. False) False (gw_io 4 ''u'') = (g', out, r)"
    by (metis surj_pair)
  have reason: "dispatch_reason (gcount ''commands'' ?g) plain_command 4 (\<lambda>_. False) = None"
    by (simp add: dispatch_reason_def plain_command_def new_message_def demo_fo fo0_parts may_control_def owns_def ownership_init_def demo_reg_def
        generation_of_def dgetn_def COMMAND_TTL_def)
  have "out \<noteq> []"
    using d by (simp add: dispatch_command_def gw_io_def reason Let_def audit_step_def)
      (auto simp: plain_command_def first_stamp_def remember_command_def new_message_def dgetn_def split: prod.splits sum.splits if_splits)
  then obtain w m' where m: "(w, m') \<in> set out" by (cases out) auto
  have "fo_inv (g_fo ?g)"
    by (simp add: demo_fo fresh_inv PEER_OF_def)
  from dispatch_only_with_authority [OF d m this] d \<open>out \<noteq> []\<close> show ?thesis
    by (simp add: demo_fo plain_command_def new_message_def)
qed

end
