(* ===== verification/Database.thy ===== *)
theory Database
  imports Prelude Interfaces Config Messages Checkpoint Protocol
begin

text \<open>
  \<^verbatim>\<open>server/database.py\<close> and \<^verbatim>\<open>server/dedup.py\<close>: the history tables of the cloud
  server, the policy head, and the table of processed message ids. The connection sees
  \<open>db_view\<close>; \<open>db_disk\<close> is what the file holds, and what a restarted process finds. A
  statement that fails changes nothing; a commit that fails either leaves the transaction open
  or has rolled it back. Column affinities and text encodings are not modelled.
\<close>

section \<open>Tables\<close>

record sensor_row =
  sr_message :: "string option"
  sr_gateway :: string
  sr_node :: pyval
  sr_timestamp :: real
  sr_temperature :: pyval
  sr_humidity :: pyval
  sr_soil_moisture :: pyval
  sr_light :: pyval
  sr_health :: pyval
  sr_metadata :: jtext
  sr_created :: real

record heartbeat_row =
  hr_message :: "string option"
  hr_gateway :: pyval
  hr_peer :: pyval
  hr_timestamp :: real
  hr_status :: pyval
  hr_peer_status :: pyval
  hr_created :: real
  hr_metadata :: jtext

record command_row =
  cr_message :: "string option"
  cr_gateway :: string
  cr_controller :: pyval
  cr_command :: pyval
  cr_type :: pyval
  cr_duration :: pyval
  cr_generation :: pyval
  cr_timestamp :: real
  cr_created :: real

record result_row =
  rr_message :: "string option"
  rr_gateway :: string
  rr_controller :: pyval
  rr_command :: pyval
  rr_type :: pyval
  rr_status :: pyval
  rr_reason :: pyval
  rr_generation :: pyval
  rr_timestamp :: real
  rr_created :: real

record alert_row =
  ar_message :: "string option"
  ar_gateway :: string
  ar_node :: pyval
  ar_type :: pyval
  ar_text :: pyval
  ar_timestamp :: real
  ar_created :: real
  ar_metadata :: jtext

record log_row =
  lr_node :: string
  lr_level :: string
  lr_text :: string
  lr_timestamp :: real
  lr_created :: real

record policy_row =
  pr_version :: pyval
  pr_content :: jtext
  pr_checksum :: string

text \<open>An \<^verbatim>\<open>AUTOINCREMENT\<close> table: rows by id, and the sequence that never goes back.\<close>

record 'r dbtable =
  t_rows :: "(nat \<times> 'r) list"
  t_seq :: nat

record tables =
  tb_names :: "string list"
  tb_metadata :: "string list"
  tb_sensor :: "sensor_row dbtable"
  tb_heartbeat :: "heartbeat_row dbtable"
  tb_command :: "command_row dbtable"
  tb_result :: "result_row dbtable"
  tb_alert :: "alert_row dbtable"
  tb_log :: "log_row dbtable"
  tb_processed :: "(string \<times> real) list"
  tb_policy :: "policy_row option"

record database =
  db_path :: string
  db_depth :: nat
  db_open :: bool
  db_pending :: bool
  db_view :: tables
  db_disk :: tables
  db_digest :: "pyval \<Rightarrow> jtext \<Rightarrow> string"

definition no_rows :: "'r dbtable" where
  [model_defs]: "no_rows = \<lparr>t_rows = [], t_seq = 0\<rparr>"

definition no_tables :: tables where
  [model_defs]: "no_tables = \<lparr>tb_names = [], tb_metadata = [], tb_sensor = no_rows, tb_heartbeat = no_rows, tb_command = no_rows,
     tb_result = no_rows, tb_alert = no_rows, tb_log = no_rows, tb_processed = [], tb_policy = None\<rparr>"

definition database_new :: "string \<Rightarrow> (pyval \<Rightarrow> jtext \<Rightarrow> string) \<Rightarrow> tables \<Rightarrow> database" where
  [model_defs]: "database_new path digest disk = \<lparr>db_path = path, db_depth = 0, db_open = False, db_pending = False, db_view = disk, db_disk = disk, db_digest = digest\<rparr>"

definition add_row :: "'r dbtable \<Rightarrow> 'r \<Rightarrow> 'r dbtable" where
  "add_row t r = \<lparr>t_rows = t_rows t @ [(Suc (t_seq t), r)], t_seq = Suc (t_seq t)\<rparr>"

section \<open>Transactions\<close>

datatype commit_io = Committed | StillOpen | RolledBack

definition db_commit :: "database \<Rightarrow> commit_io \<Rightarrow> database \<times> py_error option" where
  "db_commit db c =
     (case c of
        Committed \<Rightarrow> (db\<lparr>db_disk := db_view db, db_pending := False\<rparr>, None)
      | StillOpen \<Rightarrow> (db, Some StorageErr)
      | RolledBack \<Rightarrow> (db\<lparr>db_view := db_disk db, db_pending := False\<rparr>, Some StorageErr))"

definition db_rollback :: "database \<Rightarrow> database" where
  "db_rollback db = db\<lparr>db_view := db_disk db, db_pending := False\<rparr>"

text \<open>\<^verbatim>\<open>_commit\<close>: inside a transaction the outermost exit commits.\<close>

definition auto_commit :: "database \<Rightarrow> commit_io \<Rightarrow> database \<times> py_error option" where
  "auto_commit db c = (if db_depth db = 0 then db_commit db c else (db, None))"

definition in_transaction :: "database \<Rightarrow> (database \<Rightarrow> 'a \<times> database \<times> py_error option) \<Rightarrow> commit_io \<Rightarrow>
    'a \<times> database \<times> py_error option" where
  "in_transaction db body c =
     (case body (db\<lparr>db_depth := Suc (db_depth db)\<rparr>) of
        (a, db', Some e) \<Rightarrow> (a, (db_rollback db')\<lparr>db_depth := db_depth db\<rparr>, Some e)
      | (a, db', None) \<Rightarrow>
          (case db_commit db' c of (db'', e) \<Rightarrow> (a, db''\<lparr>db_depth := db_depth db\<rparr>, e)))"

text \<open>
  \<^verbatim>\<open>with self.conn\<close>: commit on success, roll back on an exception of the body and, as the
  \<^verbatim>\<open>sqlite3\<close> module documents, when the commit itself fails.
\<close>

definition with_conn :: "database \<Rightarrow> (database \<Rightarrow> database \<times> py_error option) \<Rightarrow> commit_io \<Rightarrow> database \<times> py_error option" where
  "with_conn db body c =
     (case body db of (db', Some e) \<Rightarrow> (db_rollback db', Some e) 
      | (db', None) \<Rightarrow> (case db_commit db' c of (d, Some e) \<Rightarrow> (db_rollback d, Some e) | (d, None) \<Rightarrow> (d, None)))"

section \<open>Lifecycle\<close>

definition db_connect :: "database \<Rightarrow> database" where
  "db_connect db = db\<lparr>db_open := True\<rparr>"

definition SCHEMA_TABLES :: "string list" where
  "SCHEMA_TABLES = [''sensor_data'', ''gateway_heartbeat'', ''controller_command'', ''controller_result'', ''alert'', ''log'']"

definition add_names :: "string list \<Rightarrow> string list \<Rightarrow> string list" where
  "add_names names new = names @ filter (\<lambda>n. n \<notin> set names) new"

text \<open>A fresh \<^verbatim>\<open>sensor_data\<close> has the metadata column; the two others get it by \<^verbatim>\<open>ALTER TABLE\<close>.\<close>

definition init_schema :: "database \<Rightarrow> commit_io \<Rightarrow> database \<times> py_error option" where
  "init_schema db c =
     (let d = db_connect db; v = db_view d;
          v' = v\<lparr>tb_names := add_names (tb_names v) SCHEMA_TABLES,
                 tb_metadata := add_names (tb_metadata v) [''sensor_data'', ''alert'', ''gateway_heartbeat'']\<rparr>
      in auto_commit (d\<lparr>db_view := v'\<rparr>) c)"

definition db_close :: "database \<Rightarrow> commit_io \<Rightarrow> database \<times> py_error option" where
  "db_close db c =
     (if \<not> db_open db then (db, None)
      else case auto_commit db c of
          (d, Some e) \<Rightarrow> (d, Some e)
        | (d, None) \<Rightarrow> ((db_rollback d)\<lparr>db_open := False\<rparr>, None))"

section \<open>Inserts\<close>

text \<open>
  What \<^verbatim>\<open>sqlite3\<close> refuses to bind: integers beyond 64 bits (\<^verbatim>\<open>OverflowError\<close>) and values
  that are no SQL values (\<^verbatim>\<open>sqlite3.Error\<close>).
\<close>

definition bind_error :: "pyval \<Rightarrow> py_error option" where
  "bind_error v =
     (case v of
        PInt i \<Rightarrow> if - (2 ^ 63) \<le> i \<and> i < 2 ^ 63 then None else Some OverflowErr
      | PList _ \<Rightarrow> Some StorageErr
      | PDict _ \<Rightarrow> Some StorageErr
      | _ \<Rightarrow> None)"

definition first_error :: "pyval list \<Rightarrow> py_error option" where
  "first_error vs = (case List.map_filter bind_error vs of [] \<Rightarrow> None | e # _ \<Rightarrow> Some e)"

text \<open>\<^verbatim>\<open>json.dumps\<close> without \<^verbatim>\<open>sort_keys\<close>: the text keeps the order of the keys.\<close>

definition dumps_plain :: "bool \<Rightarrow> dict \<Rightarrow> py_error + jtext" where
  "dumps_plain allow_nan d = (if allow_nan \<or> json_ok (PDict d) then Inr (JText (PDict d))
     else Inl (ValueErr ''Out of range float values are not JSON compliant''))"

definition to_float :: "pyval \<Rightarrow> py_error + real" where
  "to_float v =
     (case v of
        PInt i \<Rightarrow> if int_finite i then Inr (of_int i) else Inl OverflowErr
      | PFloat (Fin r) \<Rightarrow> Inr r
      | PBool b \<Rightarrow> Inr (if b then 1 else 0)
      | PStr _ \<Rightarrow> Inl (ValueErr ''could not convert string to float'')
      | _ \<Rightarrow> Inl (TypeErr ''float() argument''))"

text \<open>One \<^verbatim>\<open>execute\<close> of an insert with its bound values, then \<^verbatim>\<open>_commit\<close>.\<close>

definition insert_row :: "database \<Rightarrow> pyval list \<Rightarrow> (tables \<Rightarrow> tables) \<Rightarrow> bool \<Rightarrow> commit_io \<Rightarrow> database \<times> py_error option" where
  "insert_row db vs f io c =
     (case first_error vs of
        Some e \<Rightarrow> (db, Some e)
      | None \<Rightarrow> if \<not> io then (db, Some StorageErr) else auto_commit (db\<lparr>db_view := f (db_view db), db_pending := True\<rparr>) c)"

definition METADATA_KEYS :: "string list" where
  "METADATA_KEYS = [''node_mode'', ''boot_id'', ''sample_seq'', ''device_monotonic_ms'', ''sampling'', ''health'',
     ''health_score'', ''fault_flags'', ''usable_for_control'', ''received_at'', ''control_trust'', ''trusted_channels'',
     ''physical_read_ok'', ''test_injected'', ''timestamp_source'']"

definition sensor_metadata :: "dict \<Rightarrow> dict" where
  "sensor_metadata r = map (\<lambda>k. (k, dgetn r k)) (filter (\<lambda>k. dhas r k) METADATA_KEYS)"

definition insert_sensor_data :: "database \<Rightarrow> string \<Rightarrow> pyval \<Rightarrow> dict \<Rightarrow> pyval \<Rightarrow> string option \<Rightarrow> real \<Rightarrow> bool \<Rightarrow> commit_io \<Rightarrow>
    database \<times> py_error option" where
  "insert_sensor_data db gateway node r health_state mid now io c =
     (case to_float (dgetd r ''timestamp'' (PFloat (Fin now))) of
        Inl e \<Rightarrow> (db, Some e)
      | Inr ts \<Rightarrow>
          (case dumps_plain True (sensor_metadata r) of
             Inl e \<Rightarrow> (db, Some e)
           | Inr meta \<Rightarrow>
               insert_row db [node, dgetn r ''temperature'', dgetn r ''humidity'', dgetn r ''soil_moisture'', dgetn r ''light'', health_state]
                 (\<lambda>t. t\<lparr>tb_sensor := add_row (tb_sensor t)
                    \<lparr>sr_message = mid, sr_gateway = gateway, sr_node = node, sr_timestamp = ts,
                     sr_temperature = dgetn r ''temperature'', sr_humidity = dgetn r ''humidity'',
                     sr_soil_moisture = dgetn r ''soil_moisture'', sr_light = dgetn r ''light'', sr_health = health_state,
                     sr_metadata = meta, sr_created = now\<rparr>\<rparr>) io c))"

definition insert_gateway_heartbeat :: "database \<Rightarrow> pyval \<Rightarrow> real \<Rightarrow> pyval \<Rightarrow> pyval \<Rightarrow> pyval \<Rightarrow> string option \<Rightarrow> dict \<Rightarrow> real \<Rightarrow> bool \<Rightarrow>
    commit_io \<Rightarrow> database \<times> py_error option" where
  "insert_gateway_heartbeat db gateway ts status peer peer_status mid metadata now io c =
     (case dumps_plain False metadata of
        Inl e \<Rightarrow> (db, Some e)
      | Inr meta \<Rightarrow>
          insert_row db [gateway, peer, status, peer_status]
            (\<lambda>t. t\<lparr>tb_heartbeat := add_row (tb_heartbeat t)
               \<lparr>hr_message = mid, hr_gateway = gateway, hr_peer = peer, hr_timestamp = ts, hr_status = status,
                hr_peer_status = peer_status, hr_created = now, hr_metadata = meta\<rparr>\<rparr>) io c)"

definition insert_controller_command :: "database \<Rightarrow> string \<Rightarrow> pyval \<Rightarrow> pyval \<Rightarrow> pyval \<Rightarrow> pyval \<Rightarrow> real \<Rightarrow> pyval \<Rightarrow> string option \<Rightarrow> real \<Rightarrow>
    bool \<Rightarrow> commit_io \<Rightarrow> database \<times> py_error option" where
  "insert_controller_command db gateway controller command ctype duration ts generation mid now io c =
     insert_row db [controller, command, ctype, duration, generation]
       (\<lambda>t. t\<lparr>tb_command := add_row (tb_command t)
          \<lparr>cr_message = mid, cr_gateway = gateway, cr_controller = controller, cr_command = command, cr_type = ctype,
           cr_duration = duration, cr_generation = generation, cr_timestamp = ts, cr_created = now\<rparr>\<rparr>) io c"

definition insert_controller_result :: "database \<Rightarrow> string \<Rightarrow> pyval \<Rightarrow> pyval \<Rightarrow> real \<Rightarrow> pyval \<Rightarrow> pyval \<Rightarrow> pyval \<Rightarrow> pyval \<Rightarrow> string option \<Rightarrow>
    real \<Rightarrow> bool \<Rightarrow> commit_io \<Rightarrow> database \<times> py_error option" where
  "insert_controller_result db gateway command status ts controller ctype reason generation mid now io c =
     insert_row db [controller, command, ctype, status, reason, generation]
       (\<lambda>t. t\<lparr>tb_result := add_row (tb_result t)
          \<lparr>rr_message = mid, rr_gateway = gateway, rr_controller = controller, rr_command = command, rr_type = ctype,
           rr_status = status, rr_reason = reason, rr_generation = generation, rr_timestamp = ts, rr_created = now\<rparr>\<rparr>) io c"

definition insert_alert :: "database \<Rightarrow> string \<Rightarrow> real \<Rightarrow> pyval \<Rightarrow> pyval \<Rightarrow> pyval \<Rightarrow> string option \<Rightarrow> dict \<Rightarrow> real \<Rightarrow> bool \<Rightarrow> commit_io \<Rightarrow>
    database \<times> py_error option" where
  "insert_alert db gateway ts alert_type msg node mid metadata now io c =
     (case dumps_plain False metadata of
        Inl e \<Rightarrow> (db, Some e)
      | Inr meta \<Rightarrow>
          insert_row db [node, alert_type, msg]
            (\<lambda>t. t\<lparr>tb_alert := add_row (tb_alert t)
               \<lparr>ar_message = mid, ar_gateway = gateway, ar_node = node, ar_type = alert_type, ar_text = msg,
                ar_timestamp = ts, ar_created = now, ar_metadata = meta\<rparr>\<rparr>) io c)"

definition insert_log :: "database \<Rightarrow> string \<Rightarrow> string \<Rightarrow> string \<Rightarrow> real option \<Rightarrow> real \<Rightarrow> bool \<Rightarrow> commit_io \<Rightarrow> database \<times> py_error option" where
  "insert_log db node level msg ts now io c =
     insert_row db []
       (\<lambda>t. t\<lparr>tb_log := add_row (tb_log t)
          \<lparr>lr_node = node, lr_level = level, lr_text = msg, lr_timestamp = (case ts of None \<Rightarrow> now | Some x \<Rightarrow> x), lr_created = now\<rparr>\<rparr>) io c"

section \<open>Reads\<close>

definition db_count :: "database \<Rightarrow> string \<Rightarrow> py_error + nat" where
  "db_count db table =
     (let v = db_view db in
      if table = ''sensor_data'' then Inr (length (t_rows (tb_sensor v)))
      else if table = ''gateway_heartbeat'' then Inr (length (t_rows (tb_heartbeat v)))
      else if table = ''controller_command'' then Inr (length (t_rows (tb_command v)))
      else if table = ''controller_result'' then Inr (length (t_rows (tb_result v)))
      else if table = ''alert'' then Inr (length (t_rows (tb_alert v)))
      else if table = ''log'' then Inr (length (t_rows (tb_log v)))
      else if table = ''processed_message'' then Inr (length (tb_processed v))
      else Inl (ValueErr ''unknown table''))"

text \<open>\<^verbatim>\<open>ORDER BY id DESC LIMIT n\<close>; a negative limit is no limit.\<close>

definition recent_rows :: "'r dbtable \<Rightarrow> int \<Rightarrow> (nat \<times> 'r) list" where
  "recent_rows t limit = (let newest = rev (sort_key fst (t_rows t)) in if limit < 0 then newest else take (nat limit) newest)"

definition recent_sensor_data :: "database \<Rightarrow> int \<Rightarrow> (nat \<times> sensor_row) list" where
  "recent_sensor_data db limit = recent_rows (tb_sensor (db_view db)) limit"

definition recent_controller_results :: "database \<Rightarrow> int \<Rightarrow> (nat \<times> result_row) list" where
  "recent_controller_results db limit = recent_rows (tb_result (db_view db)) limit"

section \<open>Deduplicator\<close>

record dedup =
  dd_auto_commit :: bool
  dd_ignored :: nat
  dd_processed :: nat

definition dedup_init :: "database \<Rightarrow> bool \<Rightarrow> commit_io \<Rightarrow> dedup \<times> database \<times> py_error option" where
  "dedup_init db auto c =
     (case db_commit (db\<lparr>db_view := (db_view db)\<lparr>tb_names := add_names (tb_names (db_view db)) [''processed_message'']\<rparr>\<rparr>) c of
        (db', e) \<Rightarrow> (\<lparr>dd_auto_commit = auto, dd_ignored = 0, dd_processed = 0\<rparr>, db', e))"

definition is_new :: "dedup \<Rightarrow> database \<Rightarrow> string option \<Rightarrow> real \<Rightarrow> bool \<Rightarrow> commit_io \<Rightarrow> (dedup \<times> bool) \<times> database \<times> py_error option" where
  "is_new dd db mid now io c =
     (case mid of
        None \<Rightarrow> ((dd, True), db, None)
      | Some i \<Rightarrow>
          if i = [] then ((dd, True), db, None)
          else if \<not> io then ((dd, False), db, Some StorageErr)
          else if dhas (tb_processed (db_view db)) i 
            then ((dd\<lparr>dd_ignored := Suc (dd_ignored dd)\<rparr>, False), db\<lparr>db_pending := True\<rparr>, None)
          else let dd' = dd\<lparr>dd_processed := Suc (dd_processed dd)\<rparr>;
                   db' = db\<lparr>db_view := (db_view db)\<lparr>tb_processed := tb_processed (db_view db) @ [(i, now)]\<rparr>, db_pending := True\<rparr>
               in if dd_auto_commit dd then (case db_commit db' c of (db'', e) \<Rightarrow> ((dd', True), db'', e))
                  else ((dd', True), db', None))"

section \<open>The policy head\<close>

definition write_policy :: "database \<Rightarrow> int \<Rightarrow> dict \<Rightarrow> bool \<Rightarrow> int \<Rightarrow> bool \<Rightarrow> database \<times> py_error option" where
  "write_policy db version policy fresh expected io =
     (case dumps (PDict policy) of
        Inl e \<Rightarrow> (db, Some e)
      | Inr raw \<Rightarrow>
          let row = \<lparr>pr_version = PInt version, pr_content = raw, pr_checksum = db_digest db (PInt version) raw\<rparr>;
              db' = db\<lparr>db_view := (db_view db)\<lparr>tb_policy := Some row\<rparr>, db_pending := True\<rparr>
          in case first_error [PInt version, PInt expected] of
              Some e \<Rightarrow> (db, Some e)
            | None \<Rightarrow>
                if \<not> io then (db, Some StorageErr)
                else if fresh then (if tb_policy (db_view db) = None then (db', None) else (db, Some StorageErr))
                else (case tb_policy (db_view db) of
                    Some r \<Rightarrow> if pr_version r = PInt expected then (db', None)
                              else (db, Some (ValueErr ''policy head changed or lost; reload required''))
                  | None \<Rightarrow> (db, Some (ValueErr ''policy head changed or lost; reload required''))))"

text \<open>\<^verbatim>\<open>BEGIN IMMEDIATE\<close> inside an open transaction is an error.\<close>

definition db_update_policy :: "database \<Rightarrow> int \<Rightarrow> dict \<Rightarrow> int \<Rightarrow> bool \<Rightarrow> commit_io \<Rightarrow> database \<times> py_error option" where
  "db_update_policy db version policy expected io c =
     with_conn db (\<lambda>d. if db_pending d then (d, Some StorageErr) else write_policy (d\<lparr>db_pending := True\<rparr>) version policy False expected io) c"

text \<open>\<^verbatim>\<open>set(policy) != set(initial_policy)\<close> and the merge for a head that is no object.\<close>

definition other_head_error :: "pyval \<Rightarrow> dict \<Rightarrow> py_error" where
  "other_head_error v initial =
     (case v of
        PStr _ \<Rightarrow> ValueErr ''incomplete policy head''
      | PList xs \<Rightarrow>
          if list_all hashable xs \<and> set xs \<noteq> PStr ` set (map fst initial) then ValueErr ''incomplete policy head''
          else TypeErr ''unhashable element or no mapping''
      | _ \<Rightarrow> TypeErr ''object is not iterable'')"

definition read_head :: "(pyval \<Rightarrow> jtext \<Rightarrow> string) \<Rightarrow> policy_row \<Rightarrow> dict \<Rightarrow> py_error + int \<times> dict" where
  "read_head digest r initial =
     (if \<not> integer (pr_version r) 1 \<or> digest (pr_version r) (pr_content r) \<noteq> pr_checksum r
      then Inl (ValueErr ''corrupt policy head; refusing version rollback'')
      else case loads (pr_content r) of
          Inl e \<Rightarrow> Inl e
        | Inr (PDict p) \<Rightarrow>
            if set (map fst p) \<noteq> set (map fst initial) then Inl (ValueErr ''incomplete policy head'')
            else (case validate_policy (dset p ''policy_version'' (pr_version r)) initial of
                Inl e \<Rightarrow> Inl e | Inr q \<Rightarrow> Inr (int_of (pr_version r), q))
        | Inr v \<Rightarrow> Inl (other_head_error v initial))"

text \<open>
  \<^verbatim>\<open>CREATE TABLE\<close> commits by itself (the module opens a transaction for data changes only), so
  a first start that is cut between it and the insert leaves the table without a head.
\<close>

definition create_policy_table :: "database \<Rightarrow> database" where
  "create_policy_table db =
     (let f = (\<lambda>t. t\<lparr>tb_names := tb_names t @ [''server_policy'']\<rparr>)
      in db\<lparr>db_view := f (db_view db), db_disk := f (db_disk db)\<rparr>)"

definition load_policy :: "database \<Rightarrow> int \<Rightarrow> dict \<Rightarrow> bool \<Rightarrow> commit_io \<Rightarrow> database \<times> (py_error + int \<times> dict)" where
  "load_policy db version policy io c =
     (let d = db_connect db; names = tb_names (db_view d);
          r = (if ''server_policy'' \<in> set names then (d, None)
               else if names = [] then with_conn (create_policy_table d) (\<lambda>x. write_policy x version policy True 0 io) c
               else (create_policy_table d, None))
      in case r of
          (d', Some e) \<Rightarrow> (d', Inl e)
        | (d', None) \<Rightarrow>
            (case tb_policy (db_view d') of
               None \<Rightarrow> (d', Inl (ValueErr ''policy version unavailable: authoritative restoration required''))
             | Some row \<Rightarrow> (d', read_head (db_digest d') row policy)))"

end
