(* ===== verification/Server.thy ===== *)
theory Server
  imports Validation Database Reliability EdgeDecision
begin

text \<open>
  \<^verbatim>\<open>server/server.py\<close>: how the cloud server stores an upload in one transaction, the acknowledgement that follows the commit, and the
  versioned policy it publishes. Sockets are numbers; the outcome of every SQLite call is an input.
\<close>

section \<open>State\<close>

record server =
  s_db :: database
  s_dedup :: dedup
  s_policy_version :: int
  s_policy :: dict
  s_available :: bool
  s_policy_error :: "string option"
  s_clients :: "(string \<times> nat) list"
  s_metrics :: counters

text \<open>One upload's clocks and the outcomes of its SQLite calls.\<close>

record upload_io =
  u_now1 :: real
  u_now2 :: real
  u_dedup :: bool
  u_insert :: bool
  u_commit :: commit_io

fun error_text :: "py_error \<Rightarrow> string" where
  "error_text (MessageErr t) = t"
| "error_text (ValueErr t) = t"
| "error_text (StateErr t) = t"
| "error_text (BackpressureErr t) = t"
| "error_text (CapacityErr t) = t"
| "error_text (TypeErr t) = t"
| "error_text (FeatureErr t) = t"
| "error_text KeyErr = ''key''"
| "error_text AttributeErr = ''attribute''"
| "error_text OverflowErr = ''overflow''"
| "error_text StorageErr = ''storage''"

text \<open>\<^verbatim>\<open>MessageError\<close> is a \<^verbatim>\<open>ValueError\<close>.\<close>

definition is_value_error :: "py_error \<Rightarrow> bool" where
  "is_value_error e = (case e of MessageErr _ \<Rightarrow> True | ValueErr _ \<Rightarrow> True | _ \<Rightarrow> False)"

definition server_start :: "database \<Rightarrow> int \<Rightarrow> bool \<Rightarrow> commit_io \<Rightarrow> commit_io \<Rightarrow> commit_io \<Rightarrow> database \<times> (py_error + server)" where
  "server_start db0 version io c1 c2 c3 =
     (let (db1, p) = load_policy db0 version DEFAULT_POLICY io c1;
          head = (case p of Inr vp \<Rightarrow> vp | Inl _ \<Rightarrow> (version, DEFAULT_POLICY));
          err = (case p of Inr _ \<Rightarrow> None | Inl e \<Rightarrow> Some e)
      in if (case err of None \<Rightarrow> False | Some e \<Rightarrow> \<not> is_value_error e \<and> e \<noteq> StorageErr) then (db1, Inl (the err))
         else case init_schema db1 c2 of
             (db2, Some e) \<Rightarrow> (db2, Inl e)
           | (db2, None) \<Rightarrow>
               (case dedup_init db2 False c3 of
                  (dd, db3, Some e) \<Rightarrow> (db3, Inl e)
                | (dd, db3, None) \<Rightarrow>
                    (db3, Inr \<lparr>s_db = db3, s_dedup = dd, s_policy_version = fst head, s_policy = snd head,
                       s_available = (err = None), s_policy_error = map_option error_text err, s_clients = [], s_metrics = []\<rparr>)))"

section \<open>Storing an upload\<close>

definition store_row :: "database \<Rightarrow> message \<Rightarrow> upload_io \<Rightarrow> database \<times> py_error option" where
  "store_row db m u =
     (let p = m_payload m; g = m_source m; mid = Some (m_id m); now = u_now2 u; io = u_insert u; c = u_commit u
      in case m_type m of
          SENSOR_DATA \<Rightarrow>
            (let r0 = dict_of (dgetn p ''record'');
                 r = (if dhas r0 ''timestamp'' then r0 else dset r0 ''timestamp'' (PFloat (Fin (m_timestamp m))))
             in insert_sensor_data db g (dgetn r ''sensor_node_id'') r (dgetd r ''health_state'' (PStr ''HEALTHY'')) mid now io c)
        | CONTROL_COMMAND \<Rightarrow>
            insert_controller_command db g (dgetn p ''controller_id'') (dgetn p ''command_id'') (dgetn p ''type'') (dgetn p ''duration'')
              (m_timestamp m) (dgetn p ''gateway_generation'') mid now io c
        | CONTROL_RESULT \<Rightarrow>
            insert_controller_result db g (dgetn p ''command_id'') (dgetn p ''status'') (m_timestamp m) (dgetn p ''controller_id'')
              (dgetn p ''command_type'') (dgetn p ''reason'') (dgetn p ''generation'') mid now io c
        | HEARTBEAT \<Rightarrow>
            insert_gateway_heartbeat db (dgetn p ''gateway_id'') (m_timestamp m) (dgetn p ''status'') (dgetn p ''peer_id'')
              (dgetn p ''peer_status'') mid p now io c
        | ALERT \<Rightarrow>
            insert_alert db g (m_timestamp m) (dgetn p ''alert_type'') (dgetn p ''message'') (dgetn p ''sensor_node_id'') mid p now io c
        | _ \<Rightarrow> (db, None))"

fun metric_name :: "msg_type \<Rightarrow> string option" where
  "metric_name SENSOR_DATA = Some ''sensor_messages''"
| "metric_name CONTROL_COMMAND = Some ''control_commands''"
| "metric_name CONTROL_RESULT = Some ''control_results''"
| "metric_name HEARTBEAT = Some ''heartbeats''"
| "metric_name ALERT = Some ''alerts''"
| "metric_name ACK = Some ''acks_received''"
| "metric_name _ = None"

definition count_metric :: "counters \<Rightarrow> msg_type \<Rightarrow> counters" where
  "count_metric mt t = (case metric_name t of None \<Rightarrow> mt | Some n \<Rightarrow> inc mt n)"

definition store_validated :: "dedup \<Rightarrow> counters \<Rightarrow> message \<Rightarrow> upload_io \<Rightarrow> database \<Rightarrow> (dedup \<times> counters) \<times> database \<times> py_error option" where
  "store_validated dd mt m u db =
     (case is_new dd db (Some (m_id m)) (u_now1 u) (u_dedup u) (u_commit u) of
        ((dd', fresh), db', Some e) \<Rightarrow> ((dd', mt), db', Some e)
      | ((dd', fresh), db', None) \<Rightarrow>
          if \<not> fresh then ((dd', mt), db', None)
          else (case store_row db' m u of
              (db'', Some e) \<Rightarrow> ((dd', mt), db'', Some e)
            | (db'', None) \<Rightarrow> ((dd', count_metric mt (m_type m)), db'', None)))"

text \<open>The exceptions \<^verbatim>\<open>_store\<close> turns into a rejection; any other would end the session.\<close>

definition caught :: "py_error \<Rightarrow> bool" where
  "caught e = (case e of MessageErr _ \<Rightarrow> True | ValueErr _ \<Rightarrow> True | TypeErr _ \<Rightarrow> True | OverflowErr \<Rightarrow> True | StorageErr \<Rightarrow> True | _ \<Rightarrow> False)"

definition server_store :: "server \<Rightarrow> message \<Rightarrow> upload_io \<Rightarrow> server \<times> (py_error + bool)" where
  "server_store s m u =
     (let reject = (\<lambda>s' e. if caught e
            then (s'\<lparr>s_dedup := s_dedup s, s_metrics := inc (s_metrics s) ''invalid_uploads''\<rparr>, Inr False) else (s', Inl e))
      in case validate_server_upload m of
          Some e \<Rightarrow> reject s e
        | None \<Rightarrow>
            if m_type m = ACK then (s\<lparr>s_metrics := inc (s_metrics s) ''acks_received''\<rparr>, Inr False)
            else (case in_transaction (s_db s) (store_validated (s_dedup s) (s_metrics s) m u) (u_commit u) of
                ((dd, mt), db, None) \<Rightarrow> (s\<lparr>s_db := db, s_dedup := dd, s_metrics := mt\<rparr>, Inr True)
              | ((dd, mt), db, Some e) \<Rightarrow> reject (s\<lparr>s_db := db, s_dedup := dd, s_metrics := mt\<rparr>) e))"

section \<open>A gateway's session\<close>

text \<open>The first message of a socket names the gateway; others on that socket are not stored.\<close>

definition serve_message :: "server \<Rightarrow> nat \<Rightarrow> string option \<Rightarrow> message \<Rightarrow> upload_io \<Rightarrow> real \<Rightarrow> string \<Rightarrow>
    server \<times> string \<times> (py_error + message option)" where
  "serve_message s w gid m u t new_id =
     (let gateway = (case gid of None \<Rightarrow> m_source m | Some g \<Rightarrow> g);
          s1 = (case gid of None \<Rightarrow> s\<lparr>s_clients := dset (s_clients s) gateway w\<rparr> | Some _ \<Rightarrow> s)
      in if m_source m \<noteq> gateway then (s1\<lparr>s_metrics := inc (s_metrics s1) ''invalid_uploads''\<rparr>, gateway, Inr None)
         else case server_store s1 m u of
             (s2, Inl e) \<Rightarrow> (s2, gateway, Inl e)
           | (s2, Inr stored) \<Rightarrow>
               (s2, gateway, Inr (if stored \<and> m_type m \<in> {SENSOR_DATA, CONTROL_COMMAND, CONTROL_RESULT, ALERT}
                  then Some (new_message PERSISTED_ACK ''SERVER'' gateway
                    [(''ack_message_id'', PStr (m_id m)), (''persisted'', PBool True)] t new_id) else None)))"

definition end_session :: "server \<Rightarrow> nat \<Rightarrow> string option \<Rightarrow> server" where
  "end_session s w gid =
     (case gid of
        None \<Rightarrow> s
      | Some g \<Rightarrow> if map_of (s_clients s) g = Some w then s\<lparr>s_clients := ddel (s_clients s) g\<rparr> else s)"

section \<open>Policy\<close>

definition policy_message :: "server \<Rightarrow> real \<Rightarrow> string \<Rightarrow> message" where
  "policy_message s t i =
     new_message SERVER_POLICY ''SERVER'' ''*'' (dmerge [(''policy_version'', PInt (s_policy_version s))] (s_policy s)) t i"

text \<open>The sockets that fail are dropped from the clients; the others get the message.\<close>

definition broadcast_policy :: "server \<Rightarrow> (string \<Rightarrow> bool) \<Rightarrow> real \<Rightarrow> string \<Rightarrow> server \<times> (string \<times> message) list" where
  "broadcast_policy s broken t i =
     (if s_clients s = [] \<or> \<not> s_available s then (s, [])
      else (s\<lparr>s_clients := filter (\<lambda>(g, w). \<not> broken g) (s_clients s)\<rparr>,
            map (\<lambda>(g, w). (g, policy_message s t i)) (filter (\<lambda>(g, w). \<not> broken g) (s_clients s))))"

definition server_update_policy :: "server \<Rightarrow> dict \<Rightarrow> bool \<Rightarrow> commit_io \<Rightarrow> server \<times> (py_error + bool)" where
  "server_update_policy s changes io c =
     (if \<not> s_available s
      then (s, Inl (ValueErr (case s_policy_error s of None \<Rightarrow> ''policy state unavailable''
                      | Some t \<Rightarrow> if t = [] then ''policy state unavailable'' else t)))
      else if dhas changes ''policy_version'' then (s, Inl (ValueErr ''version is allocated by the durable policy store''))
      else case validate_policy changes (s_policy s) of
          Inl e \<Rightarrow> (s, Inl e)
        | Inr candidate \<Rightarrow>
            if py_eq (PDict candidate) (PDict (s_policy s)) then (s, Inr False)
            else let version = s_policy_version s + 1
                 in (case db_update_policy (s_db s) version candidate (s_policy_version s) io c of
                     (db, Some e) \<Rightarrow> (s\<lparr>s_db := db\<rparr>, Inl e)
                   | (db, None) \<Rightarrow> (s\<lparr>s_db := db, s_policy_version := version, s_policy := candidate\<rparr>, Inr True)))"

definition server_stop :: "server \<Rightarrow> commit_io \<Rightarrow> server \<times> py_error option" where
  "server_stop s c = (case db_close (s_db s) c of (db, e) \<Rightarrow> (s\<lparr>s_clients := [], s_db := db\<rparr>, e))"

end
