(* ===== verification/CloudStore.thy ===== *)
theory CloudStore
  imports Server "HOL-Library.Multiset"
begin

text \<open>
  What the cloud server's history is worth: over any uploads, retries, policy changes, storage
  faults and restarts every message id has at most one row, and an acknowledged upload has its
  row on disk.
\<close>

section \<open>Runs of the server\<close>

record cloud =
  cl_server :: server
  cl_up :: bool
  cl_sessions :: "(nat \<times> string) list"
  cl_acked :: "string list"

datatype cloud_op =
    CUpload nat message upload_io real string
  | CDrop nat
  | CPolicy dict bool commit_io
  | CRestart bool commit_io commit_io commit_io

definition restart_cloud :: "cloud \<Rightarrow> bool \<Rightarrow> commit_io \<Rightarrow> commit_io \<Rightarrow> commit_io \<Rightarrow> cloud" where
  "restart_cloud k io c1 c2 c3 =
     (let db = s_db (cl_server k)
      in case server_start (database_new (db_path db) (db_digest db) (db_disk db)) INITIAL_POLICY_VERSION io c1 c2 c3 of
          (db', Inr s) \<Rightarrow> k\<lparr>cl_server := s, cl_up := True, cl_sessions := []\<rparr>
        | (db', Inl e) \<Rightarrow> k\<lparr>cl_server := (cl_server k)\<lparr>s_db := db'\<rparr>, cl_up := False, cl_sessions := []\<rparr>)"

fun cloud_step :: "cloud \<Rightarrow> cloud_op \<Rightarrow> cloud" where
  "cloud_step k (CUpload w m u t i) =
     (if \<not> cl_up k then k
      else case serve_message (cl_server k) w (map_of (cl_sessions k) w) m u t i of
          (s, g, Inl e) \<Rightarrow> k\<lparr>cl_server := end_session s w (Some g), cl_sessions := ddel (cl_sessions k) w\<rparr>
        | (s, g, Inr r) \<Rightarrow> k\<lparr>cl_server := s, cl_sessions := dset (cl_sessions k) w g,
              cl_acked := cl_acked k @ (case r of None \<Rightarrow> [] | Some a \<Rightarrow> [str_of (dgetn (m_payload a) ''ack_message_id'')])\<rparr>)"
| "cloud_step k (CDrop w) =
     k\<lparr>cl_server := end_session (cl_server k) w (map_of (cl_sessions k) w), cl_sessions := ddel (cl_sessions k) w\<rparr>"
| "cloud_step k (CPolicy changes io c) =
     (if \<not> cl_up k then k else k\<lparr>cl_server := fst (server_update_policy (cl_server k) changes io c)\<rparr>)"
| "cloud_step k (CRestart io c1 c2 c3) = restart_cloud k io c1 c2 c3"

section \<open>Ids of the stored rows\<close>

definition rows_of :: "'r dbtable \<Rightarrow> ('r \<Rightarrow> string option) \<Rightarrow> string list" where
  "rows_of t f = List.map_filter (f \<circ> snd) (t_rows t)"

definition row_ids :: "tables \<Rightarrow> string list" where
  "row_ids t = rows_of (tb_sensor t) sr_message @ rows_of (tb_heartbeat t) hr_message @ rows_of (tb_command t) cr_message
     @ rows_of (tb_result t) rr_message @ rows_of (tb_alert t) ar_message"

definition history_ok :: "tables \<Rightarrow> bool" where
  "history_ok t \<longleftrightarrow> distinct (row_ids t) \<and> set (row_ids t) = set (map fst (tb_processed t))"

definition db_ok :: "database \<Rightarrow> bool" where
  "db_ok db \<longleftrightarrow> history_ok (db_view db) \<and> history_ok (db_disk db) \<and> set (row_ids (db_disk db)) \<subseteq> set (row_ids (db_view db))"

definition adds :: "tables \<Rightarrow> string \<Rightarrow> tables \<Rightarrow> bool" where
  "adds t i t' \<longleftrightarrow> mset (row_ids t') = add_mset i (mset (row_ids t)) \<and> tb_processed t' = tb_processed t \<and> tb_policy t' = tb_policy t \<and>
     tb_names t' = tb_names t"

lemma rows_of_add [simp]: "f r = Some i \<Longrightarrow> rows_of (add_row t r) f = rows_of t f @ [i]"
  by (simp add: rows_of_def add_row_def map_filter_def)

lemma row_ids_cong:
  "tb_sensor t = tb_sensor t' \<Longrightarrow> tb_heartbeat t = tb_heartbeat t' \<Longrightarrow> tb_command t = tb_command t' \<Longrightarrow>
   tb_result t = tb_result t' \<Longrightarrow> tb_alert t = tb_alert t' \<Longrightarrow> row_ids t = row_ids t'"
  by (simp add: row_ids_def)

lemma history_cong: "row_ids t = row_ids t' \<Longrightarrow> tb_processed t = tb_processed t' \<Longrightarrow> history_ok t = history_ok t'"
  by (simp add: history_ok_def)

lemma adds_ids: "adds t i t' \<Longrightarrow> set (row_ids t') = insert i (set (row_ids t))"
  by (metis adds_def set_mset_add_mset_insert set_mset_mset)

lemma adds_distinct: "adds t i t' \<Longrightarrow> distinct (row_ids t') = (i \<notin> set (row_ids t) \<and> distinct (row_ids t))"
  by (metis adds_def distinct.simps(2) mset.simps(2) mset_eq_imp_distinct_iff)

section \<open>One upload\<close>

definition stored_type :: "msg_type \<Rightarrow> bool" where
  "stored_type t \<longleftrightarrow> t \<in> {SENSOR_DATA, CONTROL_COMMAND, CONTROL_RESULT, HEARTBEAT, ALERT}"

text \<open>Inside a transaction a statement adds its row or changes nothing.\<close>

definition one_row :: "database \<Rightarrow> string \<Rightarrow> database \<times> py_error option \<Rightarrow> bool" where
  "one_row db i r =
     (case snd r of
        None \<Rightarrow> adds (db_view db) i (db_view (fst r)) \<and> fst r = db\<lparr>db_view := db_view (fst r), db_pending := True\<rparr>
      | Some e \<Rightarrow> fst r = db)"

lemma one_row_error: "one_row db i (db, Some e)"
  by (simp add: one_row_def)

lemma one_row_insert:
  assumes "db_depth db \<noteq> 0" "adds (db_view db) i (f (db_view db))"
  shows "one_row db i (insert_row db vs f io c)"
  using assms by (simp add: one_row_def insert_row_def auto_commit_def split: option.split)

lemma store_row_one:
  assumes "db_depth db \<noteq> 0" "stored_type (m_type m)"
  shows "one_row db (m_id m) (store_row db m u)"
proof (cases "m_type m")
  case SENSOR_DATA
  then show ?thesis
    unfolding store_row_def Let_def insert_sensor_data_def
    by (simp add: one_row_error one_row_insert assms(1) adds_def row_ids_def split: sum.split)
next
  case CONTROL_COMMAND
  then show ?thesis
    unfolding store_row_def Let_def insert_controller_command_def
    by (simp add: one_row_insert assms(1) adds_def row_ids_def)
next
  case CONTROL_RESULT
  then show ?thesis
    unfolding store_row_def Let_def insert_controller_result_def
    by (simp add: one_row_insert assms(1) adds_def row_ids_def)
next
  case HEARTBEAT
  then show ?thesis
    unfolding store_row_def Let_def insert_gateway_heartbeat_def
    by (simp add: one_row_error one_row_insert assms(1) adds_def row_ids_def split: sum.split)
next
  case ALERT
  then show ?thesis
    unfolding store_row_def Let_def insert_alert_def
    by (simp add: one_row_error one_row_insert assms(1) adds_def row_ids_def split: sum.split)
qed (use assms(2) in \<open>simp_all add: stored_type_def\<close>)

text \<open>A validated upload that is not a policy receipt has a table of its own.\<close>

lemma validated_type: "validate_server_upload m = None \<Longrightarrow> m_type m \<noteq> ACK \<Longrightarrow> stored_type (m_type m)"
  by (cases "m_type m") (simp_all add: validate_server_upload_def stored_type_def split: sum.splits if_splits)

lemma message_id_nonempty: "validate_server_upload m = None \<Longrightarrow> m_id m \<noteq> []"
proof -
  assume "validate_server_upload m = None"
  then obtain x where x: "from_dict (PDict (to_dict m)) = Inr x"
    by (auto simp: validate_server_upload_def split: sum.splits)
  have "map_of (to_dict m) ''message_id'' = Some (PStr (m_id m))"
    by (simp add: to_dict_def)
  then show ?thesis
    using from_dict_lookup(1) [OF x] from_dict_wf [OF x] by (simp add: wf_message_def)
qed

text \<open>What the body of the transaction may touch.\<close>

definition inside :: "database \<Rightarrow> database \<Rightarrow> bool" where
  "inside db db' \<longleftrightarrow> db' = db\<lparr>db_view := db_view db', db_pending := db_pending db'\<rparr> \<and>
     tb_policy (db_view db') = tb_policy (db_view db) \<and> tb_names (db_view db') = tb_names (db_view db)"

lemma inside_fields: "inside db db' \<Longrightarrow> db_disk db' = db_disk db \<and> db_depth db' = db_depth db \<and> db_path db' = db_path db \<and>
  db_digest db' = db_digest db \<and> tb_policy (db_view db') = tb_policy (db_view db) \<and> tb_names (db_view db') = tb_names (db_view db)"
  unfolding inside_def by (metis database.select_convs(1,2,6,7) database.surjective database.update_convs(4,5))

lemma insideI: "tb_policy t = tb_policy (db_view db) \<Longrightarrow> tb_names t = tb_names (db_view db) \<Longrightarrow>
  inside db (db\<lparr>db_view := t, db_pending := p\<rparr>)"
  by (simp add: inside_def)

lemma inside_refl [simp]: "inside db db"
  by (simp add: inside_def)

lemma is_new_cases:
  assumes "is_new dd db (Some i) now io c = ((dd', fresh), db', e)" "\<not> dd_auto_commit dd" "i \<noteq> []"
  shows "e \<noteq> None \<and> db' = db \<or> e = None \<and> \<not> fresh \<and> dhas (tb_processed (db_view db)) i \<and> db' = db\<lparr>db_pending := True\<rparr> \<or>
    e = None \<and> fresh \<and> \<not> dhas (tb_processed (db_view db)) i \<and>
      db' = db\<lparr>db_view := (db_view db)\<lparr>tb_processed := tb_processed (db_view db) @ [(i, now)]\<rparr>, db_pending := True\<rparr>"
  using assms by (auto simp: is_new_def Let_def simp del: dhas_iff split: if_splits)

lemma adds_history:
  assumes "history_ok t" "adds (t\<lparr>tb_processed := tb_processed t @ [(i, now)]\<rparr>) i t'" "\<not> dhas (tb_processed t) i"
  shows "history_ok t'" "i \<in> set (row_ids t')" "set (row_ids t) \<subseteq> set (row_ids t')"
proof -
  let ?t = "t\<lparr>tb_processed := tb_processed t @ [(i, now)]\<rparr>"
  have ids: "row_ids ?t = row_ids t" and "tb_processed t' = tb_processed t @ [(i, now)]"
    using assms(2) by (simp_all add: row_ids_def adds_def)
  then show "history_ok t'" "i \<in> set (row_ids t')" "set (row_ids t) \<subseteq> set (row_ids t')"
    using assms adds_ids [OF assms(2)] adds_distinct [OF assms(2)] unfolding history_ok_def dhas_def by auto
qed

lemma store_validated_cases:
  assumes r: "store_validated dd mt m u db = (a, db', e)" and deep: "db_depth db \<noteq> 0" and dd: "\<not> dd_auto_commit dd"
    and m: "stored_type (m_type m)" "m_id m \<noteq> []" and h: "history_ok (db_view db)"
  shows "inside db db'" "\<not> dd_auto_commit (fst a)"
    "e = None \<Longrightarrow> history_ok (db_view db') \<and> m_id m \<in> set (row_ids (db_view db')) \<and> set (row_ids (db_view db)) \<subseteq> set (row_ids (db_view db'))"
proof -
  obtain dd' fresh db1 e1 where n: "is_new dd db (Some (m_id m)) (u_now1 u) (u_dedup u) (u_commit u) = ((dd', fresh), db1, e1)"
    by (metis surj_pair)
  have dd': "\<not> dd_auto_commit dd'"
    using n dd by (auto simp: is_new_def Let_def split: if_splits)
  from is_new_cases [OF n dd m(2)]
  have "inside db db' \<and> \<not> dd_auto_commit (fst a) \<and> (e = None \<longrightarrow> history_ok (db_view db') \<and> m_id m \<in> set (row_ids (db_view db')) \<and>
    set (row_ids (db_view db)) \<subseteq> set (row_ids (db_view db')))"
  proof (elim disjE conjE)
    assume "e1 \<noteq> None" "db1 = db"
    then show ?thesis using r n dd' by (auto simp: store_validated_def)
  next
    assume d: "e1 = None" "\<not> fresh" "dhas (tb_processed (db_view db)) (m_id m)" "db1 = db\<lparr>db_pending := True\<rparr>"
    then have "m_id m \<in> set (row_ids (db_view db))"
      using h by (simp add: history_ok_def dhas_def del: dhas_iff)
    then show ?thesis
      using r n d dd' h by (auto simp: store_validated_def inside_def simp del: dhas_iff)
  next
    assume d: "e1 = None" "fresh" "\<not> dhas (tb_processed (db_view db)) (m_id m)"
      and db1: "db1 = db\<lparr>db_view := (db_view db)\<lparr>tb_processed := tb_processed (db_view db) @ [(m_id m, u_now1 u)]\<rparr>, db_pending := True\<rparr>"
    obtain db2 e2 where sr: "store_row db1 m u = (db2, e2)"
      by (metis surj_pair)
    have one: "one_row db1 (m_id m) (db2, e2)"
      using store_row_one [of db1 m u] deep m(1) sr by (simp add: db1)
    have res: "db' = db2" "e = e2" "dd_auto_commit (fst a) = dd_auto_commit dd'"
      using r n d(1, 2) sr by (auto simp: store_validated_def split: option.splits)
    show ?thesis
    proof (cases e2)
      case None
      with one have t: "adds (db_view db1) (m_id m) (db_view db2)" and "\<exists>v. db2 = db1\<lparr>db_view := v, db_pending := True\<rparr>"
        unfolding one_row_def by auto
      then obtain v where v: "db2 = db1\<lparr>db_view := v, db_pending := True\<rparr>"
        by blast
      note new = adds_history [OF h _ d(3), of "u_now1 u" "db_view db2"]
      have "inside db db2"
        using t insideI [of v db True] by (simp add: v db1 adds_def)
      then show ?thesis
        using new t res dd' by (simp add: db1)
    next
      case (Some x)
      with one have "db2 = db1" by (simp add: one_row_def)
      then show ?thesis
        using res dd' Some by (simp add: db1 inside_def)
    qed
  qed
  then show "inside db db'" "\<not> dd_auto_commit (fst a)"
    "e = None \<Longrightarrow> history_ok (db_view db') \<and> m_id m \<in> set (row_ids (db_view db')) \<and> set (row_ids (db_view db)) \<subseteq> set (row_ids (db_view db'))"
    by auto
qed

section \<open>The invariant of the server\<close>

definition head_same :: "database \<Rightarrow> bool" where
  "head_same db \<longleftrightarrow> tb_policy (db_view db) = tb_policy (db_disk db) \<and> tb_names (db_view db) = tb_names (db_disk db)"

definition server_ok :: "server \<Rightarrow> bool" where
  "server_ok s \<longleftrightarrow> db_ok (s_db s) \<and> db_depth (s_db s) = 0 \<and> \<not> dd_auto_commit (s_dedup s) \<and>
     head_same (s_db s)"

definition grows :: "database \<Rightarrow> database \<Rightarrow> bool" where
  "grows db db' \<longleftrightarrow> set (row_ids (db_disk db)) \<subseteq> set (row_ids (db_disk db')) \<and> db_path db' = db_path db \<and> db_digest db' = db_digest db"

lemma grows_refl [simp]: "grows db db"
  by (simp add: grows_def)

lemma grows_trans: "grows a b \<Longrightarrow> grows b c \<Longrightarrow> grows a c"
  by (auto simp: grows_def)

text \<open>The end of a transaction whose body stayed inside the view.\<close>

lemma commit_cases:
  "db_commit db c = (db\<lparr>db_disk := db_view db, db_pending := False\<rparr>, None) \<and> c = Committed \<or>
   db_commit db c = (db, Some StorageErr) \<and> c = StillOpen \<or>
   db_commit db c = (db_rollback db, Some StorageErr) \<and> c = RolledBack"
  by (cases c) (simp_all add: db_commit_def db_rollback_def)

lemma transaction_ok:
  assumes t: "in_transaction db (store_validated dd mt m u) c = (a, db', e)"
    and ok: "db_ok db" "db_depth db = 0" "head_same db" "\<not> dd_auto_commit dd"
    and m: "stored_type (m_type m)" "m_id m \<noteq> []"
  shows "db_ok db'" "db_depth db' = 0" "head_same db'" "\<not> dd_auto_commit (fst a)"
    "grows db db'" "tb_policy (db_disk db') = tb_policy (db_disk db)" "tb_names (db_disk db') = tb_names (db_disk db)"
    "e = None \<Longrightarrow> m_id m \<in> set (row_ids (db_disk db'))" "e \<noteq> None \<Longrightarrow> db_disk db' = db_disk db"
proof -
  let ?d = "db\<lparr>db_depth := Suc (db_depth db)\<rparr>"
  obtain a1 db1 e1 where b: "store_validated dd mt m u ?d = (a1, db1, e1)"
    by (metis surj_pair)
  note body = store_validated_cases [OF b _ ok(4) m]
  have h: "history_ok (db_view ?d)" "db_depth ?d \<noteq> 0"
    using ok by (simp_all add: db_ok_def)
  note ins = inside_fields [OF body(1) [OF h(2, 1)]] and auto = body(2) [OF h(2, 1)] and new = body(3) [OF h(2, 1)]
  have "db_ok db' \<and> db_depth db' = 0 \<and> head_same db' \<and> \<not> dd_auto_commit (fst a) \<and>
    grows db db' \<and> tb_policy (db_disk db') = tb_policy (db_disk db) \<and> tb_names (db_disk db') = tb_names (db_disk db) \<and>
    (e = None \<longrightarrow> m_id m \<in> set (row_ids (db_disk db'))) \<and> (e \<noteq> None \<longrightarrow> db_disk db' = db_disk db)"
  proof (cases e1)
    case (Some x)
    then have "db' = (db_rollback db1)\<lparr>db_depth := 0\<rparr>" "e = Some x" "a = a1"
      using t b ok(2) by (simp_all add: in_transaction_def)
    then show ?thesis
      using ins auto ok by (simp add: db_rollback_def db_ok_def grows_def head_same_def)
  next
    case None
    note new = new [OF None]
    have res: "a = a1" "(db', e) = (case db_commit db1 c of (d, e) \<Rightarrow> (d\<lparr>db_depth := 0\<rparr>, e))"
      using t b None ok(2) by (auto simp: in_transaction_def split: prod.splits)
    show ?thesis
      using commit_cases [of db1 c]
    proof (elim disjE conjE)
      assume "db_commit db1 c = (db1\<lparr>db_disk := db_view db1, db_pending := False\<rparr>, None)"
      then show ?thesis
        using res ins auto ok new by (auto simp: db_ok_def grows_def head_same_def)
    next
      assume "db_commit db1 c = (db1, Some StorageErr)"
      then show ?thesis
        using res ins auto ok new by (auto simp: db_ok_def grows_def head_same_def)
    next
      assume "db_commit db1 c = (db_rollback db1, Some StorageErr)"
      then show ?thesis
        using res ins auto ok by (simp add: db_rollback_def db_ok_def grows_def head_same_def)
    qed
  qed
  then show "db_ok db'" "db_depth db' = 0" "head_same db'" "\<not> dd_auto_commit (fst a)"
    "grows db db'" "tb_policy (db_disk db') = tb_policy (db_disk db)" "tb_names (db_disk db') = tb_names (db_disk db)"
    "e = None \<Longrightarrow> m_id m \<in> set (row_ids (db_disk db'))" "e \<noteq> None \<Longrightarrow> db_disk db' = db_disk db"
    by auto
qed

text \<open>What never changes with an upload.\<close>

definition same_policy :: "server \<Rightarrow> server \<Rightarrow> bool" where
  "same_policy s s' \<longleftrightarrow> s_policy_version s' = s_policy_version s \<and> s_policy s' = s_policy s \<and> s_available s' = s_available s \<and>
     tb_policy (db_disk (s_db s')) = tb_policy (db_disk (s_db s)) \<and> tb_names (db_disk (s_db s')) = tb_names (db_disk (s_db s))"

lemma store_ok:
  assumes t: "server_store s m u = (s', r)" and ok: "server_ok s"
  shows "server_ok s'" "grows (s_db s) (s_db s')" "same_policy s s'"
    "r = Inr True \<Longrightarrow> m_id m \<in> set (row_ids (db_disk (s_db s')))" "r \<noteq> Inr True \<Longrightarrow> db_disk (s_db s') = db_disk (s_db s)"
proof -
  have "server_ok s' \<and> grows (s_db s) (s_db s') \<and> same_policy s s' \<and>
    (r = Inr True \<longrightarrow> m_id m \<in> set (row_ids (db_disk (s_db s')))) \<and> (r \<noteq> Inr True \<longrightarrow> db_disk (s_db s') = db_disk (s_db s))"
  proof (cases "validate_server_upload m")
    case (Some e)
    then show ?thesis
      using t ok by (auto simp: server_store_def Let_def server_ok_def same_policy_def split: if_splits)
  next
    case None
    show ?thesis
    proof (cases "m_type m = ACK")
      case True
      then show ?thesis
        using t ok None by (auto simp: server_store_def server_ok_def same_policy_def)
    next
      case False
      obtain dd mt db e where b: "in_transaction (s_db s) (store_validated (s_dedup s) (s_metrics s) m u) (u_commit u) = ((dd, mt), db, e)"
        by (metis surj_pair)
      note tr = transaction_ok [OF b _ _ _ _ validated_type [OF None False] message_id_nonempty [OF None]]
      show ?thesis
      proof (cases e)
        case None
        then show ?thesis
          using tr ok t b False \<open>validate_server_upload m = None\<close>
          by (auto simp: server_store_def server_ok_def same_policy_def)
      next
        case (Some x)
        then show ?thesis
          using tr ok t b False \<open>validate_server_upload m = None\<close>
          by (auto simp: server_store_def server_ok_def same_policy_def split: if_splits)
      qed
    qed
  qed
  then show "server_ok s'" "grows (s_db s) (s_db s')" "same_policy s s'"
    "r = Inr True \<Longrightarrow> m_id m \<in> set (row_ids (db_disk (s_db s')))" "r \<noteq> Inr True \<Longrightarrow> db_disk (s_db s') = db_disk (s_db s)"
    by auto
qed

section \<open>Rejections\<close>

definition harmless :: "py_error option \<Rightarrow> bool" where
  "harmless e = (case e of None \<Rightarrow> True | Some x \<Rightarrow> caught x)"

lemma harmless_simps [simp]: "harmless None" "harmless (Some (MessageErr t))" "harmless (Some (ValueErr t))"
  "harmless (Some (TypeErr t))" "harmless (Some OverflowErr)" "harmless (Some StorageErr)"
  by (simp_all add: harmless_def caught_def)

lemma harmless_require [simp]: "harmless (require c t)" "harmless (require_key v d t)"
  by (simp_all add: require_def require_key_def)

lemma harmless_first: "list_all harmless es \<Longrightarrow> harmless (first_of es)"
  by (induction es) (auto simp: first_of_def List.map_filter_def split: option.splits list.splits)

lemma harmless_from_dict: "from_dict v = Inl e \<Longrightarrow> harmless (Some e)"
  by (auto simp: from_dict_def from_fields_def opt_field_def Let_def split: pyval.splits if_splits option.splits sum.splits)

lemma harmless_validation: "harmless (validate_server_upload m)"
proof -
  have hb: "harmless (heartbeat_check m)" if "map_of PEER_OF (m_source m) \<noteq> None"
    using that unfolding heartbeat_check_def Let_def by (intro harmless_first) (auto split: option.split)
  have "map_of PEER_OF (m_source m) \<noteq> None" if "dhas GATEWAY_PORTS (m_source m)"
    using that by (auto simp: PEER_OF_def GATEWAY_PORTS_def dhas_def split: if_splits)
  moreover have "harmless (sensor_check m)" "harmless (command_check (m_payload m))" "harmless (result_check (m_payload m))"
    "harmless (alert_check (m_payload m))"
    unfolding sensor_check_def command_check_def result_check_def alert_check_def Let_def
    by (auto intro!: harmless_first simp: list_all_iff split: pyval.split)
  ultimately show ?thesis
    using hb harmless_from_dict unfolding validate_server_upload_def
    by (auto split: sum.split msg_type.split)
qed

lemma harmless_insert: "harmless (snd (insert_row db vs f io c))"
proof -
  have "harmless (first_error vs)"
    by (induction vs) (auto simp: first_error_def List.map_filter_def bind_error_def split: option.splits list.splits pyval.splits)
  then show ?thesis
    by (cases "first_error vs"; cases c) (simp_all add: insert_row_def auto_commit_def db_commit_def)
qed

lemma harmless_row: "harmless (snd (store_row db m u))"
proof -
  have "to_float v = Inl e \<Longrightarrow> harmless (Some e)" "dumps_plain b d = Inl e \<Longrightarrow> harmless (Some e)" for v b d e
    by (auto simp: to_float_def dumps_plain_def split: pyval.splits pyfloat.splits if_splits)
  then show ?thesis
    unfolding store_row_def Let_def insert_sensor_data_def insert_controller_command_def insert_controller_result_def
      insert_gateway_heartbeat_def insert_alert_def
    by (simp add: harmless_insert split: msg_type.split sum.split)
qed

lemma harmless_transaction: "harmless (snd (snd (in_transaction db (store_validated dd mt m u) c)))"
proof -
  obtain a db1 e1 where b: "store_validated dd mt m u (db\<lparr>db_depth := Suc (db_depth db)\<rparr>) = (a, db1, e1)"
    by (metis surj_pair)
  have "harmless (snd (snd (is_new dd d (Some i) now io c)))" for d i now io c
    by (cases c) (auto simp: is_new_def Let_def db_commit_def)
  then have "harmless e1"
    using b harmless_row
    by (simp add: store_validated_def split: prod.splits option.splits if_splits) (metis snd_conv)+
  then show ?thesis
    using b by (cases e1; cases c) (simp_all add: in_transaction_def db_commit_def)
qed

text \<open>
  C17: a bad upload is harmless. Whatever a gateway sends and whatever SQLite answers, storing it
  never raises out of the session; and an upload that is not stored leaves the file, the policy and
  the deduplication counters as they were, and counts as invalid (or as a policy receipt).
\<close>

theorem rejected_upload_changes_nothing:
  assumes "server_store s m u = (s', r)" "server_ok s"
  shows "\<exists>stored. r = Inr stored \<and> (\<not> stored \<longrightarrow> db_disk (s_db s') = db_disk (s_db s) \<and> s_dedup s' = s_dedup s \<and>
    s_policy s' = s_policy s \<and> s_policy_version s' = s_policy_version s \<and>
    s_metrics s' = inc (s_metrics s) (if validate_server_upload m = None \<and> m_type m = ACK then ''acks_received'' else ''invalid_uploads''))"
proof -
  obtain a db e where t: "in_transaction (s_db s) (store_validated (s_dedup s) (s_metrics s) m u) (u_commit u) = (a, db, e)"
    by (metis surj_pair)
  have e: "harmless e"
    using harmless_transaction [of "s_db s" "s_dedup s" "s_metrics s" m u "u_commit u"] by (simp add: t)
  have disk: "db_disk (s_db s') = db_disk (s_db s)" "s_policy s' = s_policy s" "s_policy_version s' = s_policy_version s" if "r \<noteq> Inr True"
    using store_ok(3, 5) [OF assms] that by (simp_all add: same_policy_def)
  have "r = Inr True \<or> r = Inr False \<and> s_dedup s' = s_dedup s \<and> s_metrics s' = inc (s_metrics s)
      (if validate_server_upload m = None \<and> m_type m = ACK then ''acks_received'' else ''invalid_uploads'')"
  proof (cases "validate_server_upload m")
    case (Some x)
    then have "caught x"
      using harmless_validation [of m] by (simp add: harmless_def)
    then show ?thesis
      using assms(1) Some by (auto simp: server_store_def)
  next
    case None
    then show ?thesis
      using assms(1) t e by (cases e; cases a) (auto simp: server_store_def harmless_def split: if_splits)
  qed
  then show ?thesis
  proof (elim disjE conjE)
    assume "r = Inr False" "s_dedup s' = s_dedup s" "s_metrics s' = inc (s_metrics s)
      (if validate_server_upload m = None \<and> m_type m = ACK then ''acks_received'' else ''invalid_uploads'')"
    then show ?thesis using disk by (intro exI [of _ False]) simp
  qed (auto intro: exI [of _ True])
qed

text \<open>
  A result that names a command type the server does not know is never stored, whatever its status:
  the gateway that relays it is answered by no acknowledgement, however often it retries.
\<close>

lemma unknown_type_result_never_stored:
  assumes "m_type m = CONTROL_RESULT" "dgetn (m_payload m) ''command_type'' = PStr ''FERTILIZE''" "server_ok s"
  shows "\<exists>s'. server_store s m u = (s', Inr False)"
proof -
  have "result_check (m_payload m) \<noteq> None"
    using assms(2) by (simp add: result_check_def first_of_def List.map_filter_def require_def one_of_def is_str_def
        str_of_def MAX_DURATION_def Let_def)
  then have "validate_server_upload m \<noteq> None"
    using assms(1) by (simp add: validate_server_upload_def split: sum.split)
  then show ?thesis
    using harmless_validation [of m] by (auto simp: server_store_def harmless_def)
qed

end
