(* ===== verification/CloudRuns.thy ===== *)
theory CloudRuns
  imports CloudStore
begin

text \<open>
  The policy head of the cloud server and runs of the whole server: what it publishes is what
  its database holds, the version never goes back, a restart resumes it, and history and head
  keep their invariants through every fault.
\<close>

section \<open>Heads that were written by the server\<close>

definition full_policy :: "dict \<Rightarrow> bool" where
  "full_policy p \<longleftrightarrow> safe_policy p \<and> distinct (map fst p) \<and> set (map fst p) = set policy_keys"

definition same_values :: "dict \<Rightarrow> dict \<Rightarrow> bool" where
  "same_values p q \<longleftrightarrow> (\<forall>k \<in> set policy_keys. map_of q k = map_of p k)"

definition head_is :: "(pyval \<Rightarrow> jtext \<Rightarrow> string) \<Rightarrow> policy_row \<Rightarrow> int \<Rightarrow> dict \<Rightarrow> bool" where
  "head_is digest r v p \<longleftrightarrow> r = \<lparr>pr_version = PInt v, pr_content = JText (PDict p), pr_checksum = digest (PInt v) (JText (PDict p))\<rparr> \<and>
     1 \<le> v \<and> full_policy p"

lemma full_default: "full_policy DEFAULT_POLICY"
  using default_policy_keys unfolding full_policy_def policy_keys_def by (simp add: default_policy_safe)

lemma full_canon:
  assumes "full_policy p"
  shows "full_policy (canon_dict p)" "same_values p (canon_dict p)"
proof -
  show same: "same_values p (canon_dict p)"
    unfolding same_values_def
  proof
    fix k
    assume "k \<in> set policy_keys"
    then obtain v where "map_of p k = Some v" "number v"
      using assms safe_policyD unfolding full_policy_def by blast
    then show "map_of (canon_dict p) k = map_of p k"
      by (simp add: canon_number)
  qed
  then show "full_policy (canon_dict p)"
    using assms safe_policy_cong [of p "canon_dict p"] unfolding full_policy_def same_values_def keys_canon_dict by simp
qed

lemma full_candidate:
  assumes "validate_policy changes p = Inr c" "full_policy p"
  shows "full_policy c"
  using assms validated_policy_keys(1) [OF assms(1)] validate_policyD(1) [OF assms(1)] candidate_keys_eq
  by (simp add: full_policy_def policy_candidate_def distinct_dmerge del: set_map)

lemma read_good_head:
  assumes "head_is digest r v p"
  shows "\<exists>q. read_head digest r DEFAULT_POLICY = Inr (v, q) \<and> full_policy q \<and> same_values p q"
proof -
  let ?d = "dset p ''policy_version'' (PInt v)" and ?q = "policy_candidate (dset p ''policy_version'' (PInt v)) DEFAULT_POLICY"
  have p: "full_policy p" and v: "1 \<le> v" and r: "r = \<lparr>pr_version = PInt v, pr_content = JText (PDict p), pr_checksum = digest (PInt v) (JText (PDict p))\<rparr>"
    using assms by (simp_all add: head_is_def)
  have look: "\<forall>k \<in> set policy_keys. map_of ?d k = map_of p k"
    by (simp add: default_policy_keys)
  have val: "validate_policy ?d DEFAULT_POLICY = Inr ?q"
    using p v by (intro safe_validates [OF _ look]) (auto simp: full_policy_def)
  have "full_policy ?q"
    by (rule full_candidate [OF val full_default])
  moreover have "same_values p ?q"
    unfolding same_values_def
  proof
    fix k
    assume k: "k \<in> set policy_keys"
    moreover obtain x where "map_of p k = Some x"
      using k p safe_policyD unfolding full_policy_def by blast
    ultimately show "map_of ?q k = map_of p k"
      using look by (simp add: candidate_lookup)
  qed
  moreover have "read_head digest r DEFAULT_POLICY = Inr (v, ?q)"
    using p v val by (simp add: read_head_def r loads_def full_policy_def policy_keys_def integer_def int_of_def del: set_map)
  ultimately show ?thesis by blast
qed

section \<open>The database at rest\<close>

definition head_ok :: "database \<Rightarrow> tables \<Rightarrow> bool" where
  "head_ok db t \<longleftrightarrow> (\<forall>r. tb_policy t = Some r \<longrightarrow> ''server_policy'' \<in> set (tb_names t) \<and> (\<exists>v p. head_is (db_digest db) r v p))"

definition head_version :: "database \<Rightarrow> int" where
  "head_version db = (case tb_policy (db_disk db) of None \<Rightarrow> 0 | Some r \<Rightarrow> int_of (pr_version r))"

definition publishes :: "server \<Rightarrow> bool" where
  "publishes s \<longleftrightarrow> (\<exists>r p. tb_policy (db_disk (s_db s)) = Some r \<and> head_is (db_digest (s_db s)) r (s_policy_version s) p \<and>
     full_policy (s_policy s) \<and> same_values p (s_policy s))"

definition live :: "server \<Rightarrow> bool" where
  "live s \<longleftrightarrow> server_ok s \<and> head_ok (s_db s) (db_disk (s_db s)) \<and> (s_available s \<longrightarrow> publishes s)"

text \<open>What a step may do to the file: rows are added, the head goes forward.\<close>

definition later :: "database \<Rightarrow> database \<Rightarrow> bool" where
  "later db db' \<longleftrightarrow> grows db db' \<and> head_version db \<le> head_version db'"

lemma later_refl [simp]: "later db db"
  by (simp add: later_def)

lemma later_trans: "later a b \<Longrightarrow> later b c \<Longrightarrow> later a c"
  unfolding later_def using grows_trans by force

lemma later_policy: "grows db db' \<Longrightarrow> tb_policy (db_disk db') = tb_policy (db_disk db) \<Longrightarrow> later db db'"
  by (simp add: later_def head_version_def)

lemma ids_policy [simp]: "row_ids (t\<lparr>tb_policy := r\<rparr>) = row_ids t" "row_ids (t\<lparr>tb_names := ns\<rparr>) = row_ids t"
  "row_ids (t\<lparr>tb_metadata := ns\<rparr>) = row_ids t"
  by (simp_all add: row_ids_def)

lemma history_policy [simp]: "history_ok (t\<lparr>tb_policy := r\<rparr>) = history_ok t" "history_ok (t\<lparr>tb_names := ns\<rparr>) = history_ok t"
  "history_ok (t\<lparr>tb_metadata := ns\<rparr>) = history_ok t"
  by (simp_all add: history_ok_def)

text \<open>A written head is one of this server, and only the view changes.\<close>

lemma write_policyE:
  assumes "write_policy db version policy fresh expected io = (db', None)" "full_policy policy" "1 \<le> version"
  obtains r where "db' = db\<lparr>db_view := (db_view db)\<lparr>tb_policy := Some r\<rparr>, db_pending := True\<rparr>"
    "head_is (db_digest db) r version (canon_dict policy)" "pr_version r = PInt version"
    "fresh \<Longrightarrow> tb_policy (db_view db) = None"
    "\<not> fresh \<Longrightarrow> \<exists>r0. tb_policy (db_view db) = Some r0 \<and> pr_version r0 = PInt expected"
proof -
  let ?r = "\<lparr>pr_version = PInt version, pr_content = JText (PDict (canon_dict policy)),
    pr_checksum = db_digest db (PInt version) (JText (PDict (canon_dict policy)))\<rparr>"
  have "db' = db\<lparr>db_view := (db_view db)\<lparr>tb_policy := Some ?r\<rparr>, db_pending := True\<rparr>" "fresh \<Longrightarrow> tb_policy (db_view db) = None"
    "\<not> fresh \<Longrightarrow> \<exists>r0. tb_policy (db_view db) = Some r0 \<and> pr_version r0 = PInt expected"
    using assms(1) by (auto simp: write_policy_def dumps_def Let_def split: if_splits option.splits)
  moreover have "head_is (db_digest db) ?r version (canon_dict policy)"
    using assms(2, 3) full_canon by (simp add: head_is_def)
  ultimately show thesis
    by (intro that [of ?r]) simp_all
qed

lemma write_policy_error: "write_policy db version policy fresh expected io = (db', Some e) \<Longrightarrow> db' = db"
  by (auto simp: write_policy_def Let_def split: sum.splits option.splits if_splits)

section \<open>Policy changes\<close>

lemma commit_view:
  assumes "with_conn db body c = (db', None)" "body db = (db1, e)"
  shows "e = None" "db' = db1\<lparr>db_disk := db_view db1, db_pending := False\<rparr>"
  using assms commit_cases [of db1 c] by (auto simp: with_conn_def split: option.splits)

lemma aborted_view:
  assumes "with_conn db body c = (db', Some x)" "body db = (db1, e)" "e = None \<Longrightarrow> db_disk db1 = db_disk db \<and> db1 = db\<lparr>db_view := db_view db1, db_pending := True\<rparr>"
    "e \<noteq> None \<Longrightarrow> \<exists>b. db1 = db\<lparr>db_pending := b\<rparr>"
  shows "db' = db_rollback db"
proof (cases e)
  case None
  then obtain v where "db1 = db\<lparr>db_view := v, db_pending := True\<rparr>"
    using assms(3) by blast
  then show ?thesis
    using assms(1, 2) None commit_cases [of db1 c] by (auto simp: with_conn_def db_rollback_def)
next
  case (Some y)
  then obtain b where "db1 = db\<lparr>db_pending := b\<rparr>"
    using assms(4) by blast
  then show ?thesis
    using assms(1, 2) Some by (auto simp: with_conn_def db_rollback_def)
qed

text \<open>The database after a change: the new head and the pending view, or the old file.\<close>

lemma db_update_policy_cases:
  assumes u: "db_update_policy db version policy expected io c = (db', e)" and p: "full_policy policy" "1 \<le> version"
  obtains (changed) r where "e = None" "db' = db\<lparr>db_view := (db_view db)\<lparr>tb_policy := Some r\<rparr>, db_disk := (db_view db)\<lparr>tb_policy := Some r\<rparr>, db_pending := False\<rparr>"
      "head_is (db_digest db) r version (canon_dict policy)" "\<exists>r0. tb_policy (db_view db) = Some r0 \<and> pr_version r0 = PInt expected"
    | (refused) x where "e = Some x" "db' = db_rollback db"
proof -
  let ?body = "\<lambda>d. if db_pending d then (d, Some StorageErr) else write_policy (d\<lparr>db_pending := True\<rparr>) version policy False expected io"
  obtain db1 e1 where b: "?body db = (db1, e1)"
    by (metis surj_pair)
  have w: "with_conn db ?body c = (db', e)"
    using u by (simp add: db_update_policy_def)
  have good: "\<exists>r. db1 = db\<lparr>db_view := (db_view db)\<lparr>tb_policy := Some r\<rparr>, db_pending := True\<rparr> \<and>
      head_is (db_digest db) r version (canon_dict policy) \<and> (\<exists>r0. tb_policy (db_view db) = Some r0 \<and> pr_version r0 = PInt expected)"
    if "e1 = None"
  proof -
    have "write_policy (db\<lparr>db_pending := True\<rparr>) version policy False expected io = (db1, None)"
      using b that by (simp split: if_splits)
    then show ?thesis
      by (rule write_policyE [OF _ p]) auto
  qed
  have bad: "\<exists>b. db1 = db\<lparr>db_pending := b\<rparr>" if "e1 \<noteq> None"
  proof (cases "db_pending db")
    case True
    with b have "db1 = db\<lparr>db_pending := db_pending db\<rparr>"
      by simp
    then show ?thesis by blast
  next
    case False
    then show ?thesis
      using b that write_policy_error [of "db\<lparr>db_pending := True\<rparr>" version policy False expected io db1] by auto
  qed
  show thesis
  proof (cases e)
    case None
    note cv = commit_view [OF w [unfolded None] b]
    obtain r where "db1 = db\<lparr>db_view := (db_view db)\<lparr>tb_policy := Some r\<rparr>, db_pending := True\<rparr>"
      "head_is (db_digest db) r version (canon_dict policy)" "\<exists>r0. tb_policy (db_view db) = Some r0 \<and> pr_version r0 = PInt expected"
      using good [OF cv(1)] by blast
    then show thesis
      using cv(2) None by (intro changed [of r]) simp_all
  next
    case (Some x)
    have "db' = db_rollback db"
      by (rule aborted_view [OF w [unfolded Some] b _ bad]) (use good in auto)
    then show thesis using Some refused by blast
  qed
qed

lemma rollback_live: "live s \<Longrightarrow> live (s\<lparr>s_db := db_rollback (s_db s)\<rparr>)"
  by (auto simp: live_def server_ok_def db_ok_def db_rollback_def head_ok_def publishes_def head_same_def)

lemma rollback_later: "later db (db_rollback db)"
  by (simp add: later_def grows_def head_version_def db_rollback_def)

lemma update_live:
  assumes "live s" "server_update_policy s changes io c = (s', r)"
  shows "live s'" "later (s_db s) (s_db s')" "r = Inr True \<Longrightarrow> head_version (s_db s') = s_policy_version s + 1"
    "r \<noteq> Inr True \<Longrightarrow> s_policy_version s' = s_policy_version s \<and> s_policy s' = s_policy s \<and> db_disk (s_db s') = db_disk (s_db s)"
proof -
  have "live s' \<and> later (s_db s) (s_db s') \<and> (r = Inr True \<longrightarrow> head_version (s_db s') = s_policy_version s + 1) \<and>
    (r \<noteq> Inr True \<longrightarrow> s_policy_version s' = s_policy_version s \<and> s_policy s' = s_policy s \<and> db_disk (s_db s') = db_disk (s_db s))"
  proof (cases "s_available s \<and> \<not> dhas changes ''policy_version''")
    case False
    then show ?thesis
      using assms by (auto simp: server_update_policy_def simp del: dhas_iff split: if_splits)
  next
    case True
    then obtain r0 p where r0: "tb_policy (db_disk (s_db s)) = Some r0" "head_is (db_digest (s_db s)) r0 (s_policy_version s) p"
      and full: "full_policy (s_policy s)" and ok: "server_ok s" "head_ok (s_db s) (db_disk (s_db s))"
      using assms(1) by (auto simp: live_def publishes_def)
    have v: "1 \<le> s_policy_version s" "pr_version r0 = PInt (s_policy_version s)"
      using r0(2) by (simp_all add: head_is_def)
    show ?thesis
    proof (cases "validate_policy changes (s_policy s)")
      case (Inl e)
      then show ?thesis
        using True assms by (auto simp: server_update_policy_def simp del: dhas_iff)
    next
      case (Inr cand)
      have cand: "full_policy cand"
        by (rule full_candidate [OF Inr full])
      show ?thesis
      proof (cases "py_eq (PDict cand) (PDict (s_policy s))")
        case same: True
        then show ?thesis
          using True assms Inr by (auto simp: server_update_policy_def simp del: dhas_iff)
      next
        case False
        obtain db e where u: "db_update_policy (s_db s) (s_policy_version s + 1) cand (s_policy_version s) io c = (db, e)"
          by (metis surj_pair)
        have res: "(s', r) = (case e of Some e \<Rightarrow> (s\<lparr>s_db := db\<rparr>, Inl e)
            | None \<Rightarrow> (s\<lparr>s_db := db, s_policy_version := s_policy_version s + 1, s_policy := cand\<rparr>, Inr True))"
          using assms(2) True False Inr u by (auto simp: server_update_policy_def Let_def simp del: dhas_iff split: option.splits)
        have "1 \<le> s_policy_version s + 1"
          using v(1) by simp
        from u cand this show ?thesis
        proof (cases rule: db_update_policy_cases)
          case (changed r1)
          have "server_ok s'"
            using ok(1) res changed(1, 2) by (simp add: server_ok_def db_ok_def head_same_def)
          moreover have "head_ok (s_db s') (db_disk (s_db s'))" "publishes s'"
            using res changed r0 ok full_canon [OF cand] cand
            by (auto simp: head_ok_def publishes_def same_values_def server_ok_def head_is_def head_same_def)
          moreover have "later (s_db s) (s_db s')"
            using res changed r0 ok(1) v
            by (auto simp: later_def grows_def head_version_def head_is_def server_ok_def db_ok_def int_of_def)
          moreover have "head_version (s_db s') = s_policy_version s + 1"
            using res changed by (simp add: head_version_def head_is_def int_of_def)
          ultimately show ?thesis
            using res changed(1) by (simp add: live_def)
        next
          case (refused x)
          then show ?thesis
            using res assms(1) rollback_live rollback_later by (auto simp: db_rollback_def)
        qed
      qed
    qed
  qed
  then show "live s'" "later (s_db s) (s_db s')" "r = Inr True \<Longrightarrow> head_version (s_db s') = s_policy_version s + 1"
    "r \<noteq> Inr True \<Longrightarrow> s_policy_version s' = s_policy_version s \<and> s_policy s' = s_policy s \<and> db_disk (s_db s') = db_disk (s_db s)"
    by auto
qed

section \<open>Starting and restarting\<close>

definition at_rest :: "database \<Rightarrow> bool" where
  "at_rest db \<longleftrightarrow> db_view db = db_disk db \<and> db_depth db = 0 \<and> history_ok (db_disk db) \<and> head_ok db (db_disk db)"

lemma later_frame: "db_disk db' = db_disk db \<Longrightarrow> db_path db' = db_path db \<Longrightarrow> db_digest db' = db_digest db \<Longrightarrow> later db db'"
  by (simp add: later_def grows_def head_version_def)

lemma create_rest:
  assumes "at_rest db" "''server_policy'' \<notin> set (tb_names (db_disk db))"
  shows "at_rest (create_policy_table db)" "later db (create_policy_table db)" "tb_policy (db_view (create_policy_table db)) = None"
    "''server_policy'' \<in> set (tb_names (db_disk (create_policy_table db)))"
proof -
  have "tb_policy (db_disk db) = None"
    using assms by (auto simp: at_rest_def head_ok_def)
  then show "at_rest (create_policy_table db)" "later db (create_policy_table db)" "tb_policy (db_view (create_policy_table db)) = None"
    "''server_policy'' \<in> set (tb_names (db_disk (create_policy_table db)))"
    using assms by (auto simp: at_rest_def create_policy_table_def head_ok_def later_def grows_def head_version_def)
qed

text \<open>The first head: written with the table, or missing for good.\<close>

lemma first_head:
  assumes "with_conn db (\<lambda>x. write_policy x v p True 0 io) c = (db', e)" and r: "at_rest db" "''server_policy'' \<in> set (tb_names (db_disk db))"
    and p: "full_policy p" "1 \<le> v"
  shows "at_rest db'" "later db db'"
proof -
  obtain db1 e1 where b: "write_policy db v p True 0 io = (db1, e1)"
    by (metis surj_pair)
  have "at_rest db' \<and> later db db'"
  proof (cases e)
    case None
    note cv = commit_view [OF assms(1) [unfolded None] b]
    have "\<exists>h. db1 = db\<lparr>db_view := (db_view db)\<lparr>tb_policy := Some h\<rparr>, db_pending := True\<rparr> \<and> head_is (db_digest db) h v (canon_dict p) \<and>
        tb_policy (db_view db) = None"
      by (rule write_policyE [OF b [unfolded cv(1)] p]) auto
    then show ?thesis
      using cv(2) r p(2) by (auto simp: at_rest_def head_ok_def later_def grows_def head_version_def head_is_def int_of_def)
  next
    case (Some x)
    have "db' = db_rollback db"
    proof (rule aborted_view [OF assms(1) [unfolded Some] b])
      assume "e1 = None"
      then show "db_disk db1 = db_disk db \<and> db1 = db\<lparr>db_view := db_view db1, db_pending := True\<rparr>"
        by (auto intro: write_policyE [OF b [unfolded \<open>e1 = None\<close>] p])
    next
      assume "e1 \<noteq> None"
      then have "db1 = db\<lparr>db_pending := db_pending db\<rparr>"
        using b write_policy_error by auto
      then show "\<exists>b. db1 = db\<lparr>db_pending := b\<rparr>" by blast
    qed
    then show ?thesis
      using r rollback_later by (simp add: at_rest_def db_rollback_def head_ok_def)
  qed
  then show "at_rest db'" "later db db'" by blast+
qed

lemma load_head:
  assumes "load_policy db v DEFAULT_POLICY io c = (db', r)" "at_rest db" "1 \<le> v"
  shows "at_rest db'" "later db db'"
    "r = Inr (n, q) \<Longrightarrow> \<exists>row p. tb_policy (db_disk db') = Some row \<and> head_is (db_digest db') row n p \<and> full_policy q \<and> same_values p q"
proof -
  let ?d = "db_connect db"
  have d: "at_rest ?d" "later db ?d"
    using assms(2) by (simp_all add: at_rest_def db_connect_def head_ok_def later_frame)
  have "\<exists>d1 e. at_rest d1 \<and> later db d1 \<and> (db', r) = (case e of Some e \<Rightarrow> (d1, Inl e)
      | None \<Rightarrow> (case tb_policy (db_view d1) of None \<Rightarrow> (d1, Inl (ValueErr ''policy version unavailable: authoritative restoration required''))
          | Some row \<Rightarrow> (d1, read_head (db_digest d1) row DEFAULT_POLICY)))"
  proof (cases "''server_policy'' \<in> set (tb_names (db_view ?d))")
    case True
    then show ?thesis
      using assms(1) d by (intro exI [of _ ?d] exI [of _ None]) (simp add: load_policy_def Let_def)
  next
    case False
    note cr = create_rest [OF d(1)]
    have f: "''server_policy'' \<notin> set (tb_names (db_disk ?d))"
      using False d(1) by (simp add: at_rest_def)
    show ?thesis
    proof (cases "tb_names (db_view ?d) = []")
      case True
      obtain d1 e where w: "with_conn (create_policy_table ?d) (\<lambda>x. write_policy x v DEFAULT_POLICY True 0 io) c = (d1, e)"
        by (metis surj_pair)
      show ?thesis
        using first_head [OF w cr(1) [OF f] cr(4) [OF f] full_default assms(3)] later_trans [OF d(2) cr(2) [OF f]] assms(1) False True w
        by (intro exI [of _ d1] exI [of _ e]) (auto simp: load_policy_def Let_def intro: later_trans split: option.splits)
    next
      case nonempty: False
      show ?thesis
        using cr(1, 2) [OF f] later_trans [OF d(2)] assms(1) False nonempty
        by (intro exI [of _ "create_policy_table ?d"] exI [of _ None]) (simp add: load_policy_def Let_def)
    qed
  qed
  then obtain d1 e where d1: "at_rest d1" "later db d1" and res: "(db', r) = (case e of Some e \<Rightarrow> (d1, Inl e)
      | None \<Rightarrow> (case tb_policy (db_view d1) of None \<Rightarrow> (d1, Inl (ValueErr ''policy version unavailable: authoritative restoration required''))
          | Some row \<Rightarrow> (d1, read_head (db_digest d1) row DEFAULT_POLICY)))"
    by blast
  have db': "db' = d1"
    using res by (simp split: option.splits)
  with d1 show "at_rest db'" "later db db'" by simp_all
  show "\<exists>row p. tb_policy (db_disk db') = Some row \<and> head_is (db_digest db') row n p \<and> full_policy q \<and> same_values p q"
    if ok: "r = Inr (n, q)"
  proof -
    obtain row where row: "tb_policy (db_disk d1) = Some row" "read_head (db_digest d1) row DEFAULT_POLICY = Inr (n, q)"
      using res ok d1(1) by (auto simp: at_rest_def split: option.splits)
    then obtain v0 p where h: "head_is (db_digest d1) row v0 p"
      using d1(1) unfolding at_rest_def head_ok_def by blast
    from read_good_head [OF h] row have "v0 = n" "full_policy q" "same_values p q"
      by auto
    then show ?thesis
      using row(1) h db' by blast
  qed
qed

lemma start_live:
  assumes "server_start db v io c1 c2 c3 = (db', r)" "at_rest db" "1 \<le> v"
  shows "later db db'" "r = Inr s \<Longrightarrow> live s \<and> s_db s = db'" "history_ok (db_disk db')" "head_ok db' (db_disk db')"
proof -
  obtain db1 p where l: "load_policy db v DEFAULT_POLICY io c1 = (db1, p)"
    by (metis surj_pair)
  note lh = load_head [OF l assms(2, 3)]
  obtain db2 e2 where i: "init_schema db1 c2 = (db2, e2)"
    by (metis surj_pair)
  obtain dd db3 e3 where dd: "dedup_init db2 False c3 = (dd, db3, e3)"
    by (metis surj_pair)
  have two: "later db1 db2" "history_ok (db_disk db2)" "head_ok db2 (db_disk db2)" "tb_policy (db_disk db2) = tb_policy (db_disk db1)"
    "db_digest db2 = db_digest db1" "e2 = None \<Longrightarrow> at_rest db2"
    using i lh(1) commit_cases by (cases c2; fastforce simp: init_schema_def Let_def auto_commit_def db_connect_def db_commit_def at_rest_def later_def
        grows_def head_version_def head_ok_def add_names_def)+
  have three: "later db2 db3 \<and> history_ok (db_disk db3) \<and> head_ok db3 (db_disk db3) \<and> tb_policy (db_disk db3) = tb_policy (db_disk db2) \<and>
    db_digest db3 = db_digest db2 \<and> (e3 = None \<longrightarrow> at_rest db3) \<and> \<not> dd_auto_commit dd" if "e2 = None"
    using dd two(6) [OF that] by (cases c3) (auto simp: dedup_init_def db_commit_def at_rest_def later_def
        grows_def head_version_def head_ok_def add_names_def)
  have ends: "db' = db1 \<and> (\<exists>e. r = Inl e) \<or> db' = db2 \<and> (\<exists>e. r = Inl e) \<or> e2 = None \<and> db' = db3 \<and> (\<exists>e. r = Inl e) \<or>
      e2 = None \<and> e3 = None \<and> db' = db3 \<and> (\<exists>a err. r = Inr \<lparr>s_db = db3, s_dedup = dd,
        s_policy_version = fst (case p of Inr vp \<Rightarrow> vp | Inl _ \<Rightarrow> (v, DEFAULT_POLICY)),
        s_policy = snd (case p of Inr vp \<Rightarrow> vp | Inl _ \<Rightarrow> (v, DEFAULT_POLICY)),
        s_available = (\<exists>vp. p = Inr vp), s_policy_error = err, s_clients = [], s_metrics = []\<rparr>)"
    using assms(1) l i dd by (cases p; cases e2; cases e3) (auto simp: server_start_def Let_def split: if_splits)
  have l2: "later db db2" and l3: "e2 = None \<Longrightarrow> later db db3"
    using later_trans [OF lh(2) two(1)] later_trans three by blast+
  show "later db db'"
    using ends lh(2) l2 l3 by blast
  show "history_ok (db_disk db')"
    using ends lh(1) two(2) three unfolding at_rest_def by metis
  show "head_ok db' (db_disk db')"
    using ends lh(1) two(3) three unfolding at_rest_def by metis
  show "live s \<and> s_db s = db'" if ok: "r = Inr s"
  proof -
    have e: "e2 = None" "e3 = None" "db' = db3" and s: "s_db s = db3" "s_dedup s = dd" "s_available s = (\<exists>vp. p = Inr vp)"
      "\<And>vp. p = Inr vp \<Longrightarrow> s_policy_version s = fst vp \<and> s_policy s = snd vp"
      using ends ok by auto
    note t = three [OF e(1)]
    have "publishes s" if "s_available s"
    proof -
      obtain n q where p: "p = Inr (n, q)"
        using \<open>s_available s\<close> s(3) by auto
      obtain row pd where h: "tb_policy (db_disk db1) = Some row" "head_is (db_digest db1) row n pd" "full_policy q" "same_values pd q"
        using lh(3) [OF p] by blast
      have "tb_policy (db_disk db3) = Some row" "db_digest db3 = db_digest db1" "s_policy_version s = n" "s_policy s = q"
        using h(1) t two(4, 5) s(4) [OF p] by simp_all
      with h(2-4) s(1) show ?thesis
        unfolding publishes_def by auto
    qed
    then show ?thesis
      using t e s(1, 2) by (simp add: live_def server_ok_def db_ok_def at_rest_def head_same_def)
  qed
qed

section \<open>Runs\<close>

definition cloud_ok :: "cloud \<Rightarrow> bool" where
  "cloud_ok k \<longleftrightarrow> (let db = s_db (cl_server k) in
     history_ok (db_disk db) \<and> head_ok db (db_disk db) \<and> set (cl_acked k) \<subseteq> set (row_ids (db_disk db)) \<and>
     (cl_up k \<longrightarrow> live (cl_server k)))"

lemma live_frame:
  "s_db s' = s_db s \<Longrightarrow> s_dedup s' = s_dedup s \<Longrightarrow> s_policy_version s' = s_policy_version s \<Longrightarrow> s_policy s' = s_policy s \<Longrightarrow>
   s_available s' = s_available s \<Longrightarrow> live s' = live s"
  by (simp add: live_def server_ok_def publishes_def)

lemma end_session_fields [simp]: "s_db (end_session s w g) = s_db s" "s_dedup (end_session s w g) = s_dedup s"
  "s_policy_version (end_session s w g) = s_policy_version s" "s_policy (end_session s w g) = s_policy s"
  "s_available (end_session s w g) = s_available s"
  by (simp_all add: end_session_def split: option.split)

lemma end_session_live [simp]: "live (end_session s w g) = live s"
  by (rule live_frame) simp_all

lemma store_live:
  assumes "server_store s m u = (s', r)" "live s"
  shows "live s'" "later (s_db s) (s_db s')" "r = Inr True \<Longrightarrow> m_id m \<in> set (row_ids (db_disk (s_db s')))"
proof -
  have ok: "server_ok s"
    using assms(2) by (simp add: live_def)
  note st = store_ok [OF assms(1) ok]
  show "live s'"
    using st(1-3) assms(2) by (auto simp: live_def same_policy_def grows_def head_ok_def publishes_def)
  show "later (s_db s) (s_db s')"
    using st(2, 3) by (intro later_policy) (simp_all add: same_policy_def)
  show "r = Inr True \<Longrightarrow> m_id m \<in> set (row_ids (db_disk (s_db s')))"
    using st(4) .
qed

lemma serve_live:
  assumes "serve_message s w gid m u t i = (s', g, r)" "live s"
  shows "live s'" "later (s_db s) (s_db s')"
    "r = Inr (Some a) \<Longrightarrow> str_of (dgetn (m_payload a) ''ack_message_id'') \<in> set (row_ids (db_disk (s_db s')))"
proof -
  let ?g = "case gid of None \<Rightarrow> m_source m | Some g \<Rightarrow> g"
  let ?s = "case gid of None \<Rightarrow> s\<lparr>s_clients := dset (s_clients s) ?g w\<rparr> | Some _ \<Rightarrow> s"
  have s1: "live ?s" "s_db ?s = s_db s"
    using assms(2) by (auto simp: live_frame [of "s\<lparr>s_clients := c\<rparr>" s for c] split: option.split)
  obtain s2 b where st: "server_store ?s m u = (s2, b)"
    by (metis surj_pair)
  note sl = store_live [OF st s1(1)]
  have "live s' \<and> later (s_db s) (s_db s') \<and>
      (r = Inr (Some a) \<longrightarrow> str_of (dgetn (m_payload a) ''ack_message_id'') \<in> set (row_ids (db_disk (s_db s'))))"
  proof (cases "m_source m = ?g")
    case False
    then have "s' = ?s\<lparr>s_metrics := inc (s_metrics ?s) ''invalid_uploads''\<rparr>" "r = Inr None"
      using assms(1) unfolding serve_message_def Let_def by auto
    then show ?thesis
      using s1 live_frame [of "?s\<lparr>s_metrics := inc (s_metrics ?s) ''invalid_uploads''\<rparr>" ?s] by simp
  next
    case True
    then have "s' = s2 \<and> (r = Inr (Some a) \<longrightarrow> b = Inr True \<and> str_of (dgetn (m_payload a) ''ack_message_id'') = m_id m)"
      using assms(1) st unfolding serve_message_def Let_def
      by (auto simp: new_message_def dgetn_def str_of_def split: sum.splits if_splits)
    then show ?thesis
      using sl s1(2) by auto
  qed
  then show "live s'" "later (s_db s) (s_db s')"
    "r = Inr (Some a) \<Longrightarrow> str_of (dgetn (m_payload a) ''ack_message_id'') \<in> set (row_ids (db_disk (s_db s')))"
    by blast+
qed

definition cloud_db :: "cloud \<Rightarrow> database" where
  "cloud_db k = s_db (cl_server k)"

lemma cloud_step_ok:
  assumes "cloud_ok k"
  shows "cloud_ok (cloud_step k op)" "later (cloud_db k) (cloud_db (cloud_step k op))"
proof -
  have "cloud_ok (cloud_step k op) \<and> later (cloud_db k) (cloud_db (cloud_step k op))"
  proof (cases op)
    case (CUpload w m u t i)
    show ?thesis
    proof (cases "cl_up k")
      case True
      obtain s g r where sv: "serve_message (cl_server k) w (map_of (cl_sessions k) w) m u t i = (s, g, r)"
        by (metis surj_pair)
      have "live (cl_server k)"
        using True assms by (simp add: cloud_ok_def Let_def)
      note sl = serve_live [OF sv this]
      have disk: "history_ok (db_disk (s_db s))" "head_ok (s_db s) (db_disk (s_db s))"
        "set (cl_acked k) \<subseteq> set (row_ids (db_disk (s_db s)))"
        using sl(1, 2) assms by (auto simp: live_def server_ok_def db_ok_def later_def grows_def cloud_ok_def Let_def)
      show ?thesis
      proof (cases r)
        case (Inl e)
        then show ?thesis
          using True CUpload sv sl disk by (simp add: cloud_ok_def cloud_db_def Let_def)
      next
        case (Inr a)
        then show ?thesis
          using True CUpload sv sl disk by (cases a) (simp_all add: cloud_ok_def cloud_db_def Let_def)
      qed
    qed (use assms CUpload in simp)
  next
    case (CDrop w)
    then show ?thesis
      using assms by (simp add: cloud_ok_def cloud_db_def Let_def)
  next
    case (CPolicy changes io c)
    show ?thesis
    proof (cases "cl_up k")
      case True
      obtain s r where up: "server_update_policy (cl_server k) changes io c = (s, r)"
        by (metis surj_pair)
      have "live (cl_server k)"
        using True assms by (simp add: cloud_ok_def Let_def)
      note ul = update_live [OF this up]
      show ?thesis
        using True CPolicy up ul assms
        by (auto simp: cloud_ok_def cloud_db_def Let_def live_def server_ok_def db_ok_def later_def grows_def)
    qed (use assms CPolicy in simp)
  next
    case (CRestart io c1 c2 c3)
    let ?new = "database_new (db_path (cloud_db k)) (db_digest (cloud_db k)) (db_disk (cloud_db k))"
    obtain db r where st: "server_start ?new INITIAL_POLICY_VERSION io c1 c2 c3 = (db, r)"
      by (metis surj_pair)
    have rest: "at_rest ?new" "later (cloud_db k) ?new"
      using assms by (simp_all add: at_rest_def database_new_def cloud_ok_def cloud_db_def Let_def head_ok_def later_frame)
    note sl = start_live [OF st rest(1)]
    have lt: "later (cloud_db k) db"
      using later_trans [OF rest(2)] sl(1) by (simp add: INITIAL_POLICY_VERSION_def)
    have v: "1 \<le> INITIAL_POLICY_VERSION"
      by (simp add: INITIAL_POLICY_VERSION_def)
    have acked: "set (cl_acked k) \<subseteq> set (row_ids (db_disk db))"
      using lt assms by (auto simp: later_def grows_def cloud_ok_def cloud_db_def Let_def)
    have step: "cloud_step k op = (case r of Inr s \<Rightarrow> k\<lparr>cl_server := s, cl_up := True, cl_sessions := []\<rparr>
        | Inl e \<Rightarrow> k\<lparr>cl_server := (cl_server k)\<lparr>s_db := db\<rparr>, cl_up := False, cl_sessions := []\<rparr>)"
      using st by (simp add: CRestart restart_cloud_def Let_def cloud_db_def)
    show ?thesis
    proof (cases r)
      case (Inl e)
      then show ?thesis
        using step lt acked sl(3, 4) [OF v] by (simp add: cloud_ok_def cloud_db_def Let_def)
    next
      case (Inr s)
      then show ?thesis
        using step lt acked sl(3, 4) [OF v] sl(2) [OF v Inr] by (simp add: cloud_ok_def cloud_db_def Let_def)
    qed
  qed
  then show "cloud_ok (cloud_step k op)" "later (cloud_db k) (cloud_db (cloud_step k op))" by blast+
qed

lemma cloud_run_ok:
  assumes "cloud_ok k"
  shows "cloud_ok (run cloud_step k ops) \<and> later (cloud_db k) (cloud_db (run cloud_step k ops))"
  using assms
proof (induction ops arbitrary: k)
  case (Cons op ops)
  note st = cloud_step_ok [OF Cons.prems, of op]
  from Cons.IH [OF st(1)] later_trans [OF st(2)] show ?case by simp
qed simp

definition fresh_cloud :: "server \<Rightarrow> cloud" where
  [model_defs]: "fresh_cloud s = \<lparr>cl_server = s, cl_up = True, cl_sessions = [], cl_acked = []\<rparr>"

lemma empty_rest: "at_rest (database_new path digest no_tables)"
  by (simp add: at_rest_def database_new_def no_tables_def history_ok_def row_ids_def rows_of_def no_rows_def head_ok_def)

lemma fresh_cloud_ok:
  assumes "server_start (database_new path digest no_tables) INITIAL_POLICY_VERSION io c1 c2 c3 = (db, Inr s)"
  shows "cloud_ok (fresh_cloud s)"
  using start_live(2-4) [OF assms empty_rest] by (auto simp: fresh_cloud_def cloud_ok_def Let_def INITIAL_POLICY_VERSION_def)

text \<open>
  C15: the cloud history has every message at most once, and keeps what it acknowledged. From an
  empty database, through any uploads, retries, policy changes, statements and commits that fail,
  crashes and restarts, no two rows of the history tables on disk carry the same message id, and
  every id for which a \<^verbatim>\<open>PERSISTED_ACK\<close> was ever sent has its row on disk.
\<close>

theorem upload_stored_once:
  assumes "server_start (database_new path digest no_tables) INITIAL_POLICY_VERSION io c1 c2 c3 = (db, Inr s)"
  shows "distinct (row_ids (db_disk (cloud_db (run cloud_step (fresh_cloud s) ops)))) \<and>
    set (cl_acked (run cloud_step (fresh_cloud s) ops)) \<subseteq> set (row_ids (db_disk (cloud_db (run cloud_step (fresh_cloud s) ops))))"
  using cloud_run_ok [OF fresh_cloud_ok [OF assms], of ops]
  by (auto simp: cloud_ok_def cloud_db_def Let_def history_ok_def)


section \<open>Restart\<close>

lemma restart_start:
  assumes "at_rest db" "tb_policy (db_disk db) = Some row" "head_is (db_digest db) row v p"
  shows "\<exists>db' s. server_start db iv io c1 Committed Committed = (db', Inr s) \<and> s_available s \<and> s_policy_version s = v \<and> same_values p (s_policy s)"
proof -
  obtain q where q: "read_head (db_digest db) row DEFAULT_POLICY = Inr (v, q)" "same_values p q"
    using read_good_head [OF assms(3)] by blast
  have "''server_policy'' \<in> set (tb_names (db_disk db))"
    using assms(1, 2) by (simp add: at_rest_def head_ok_def)
  then have "load_policy db iv DEFAULT_POLICY io c1 = (db_connect db, Inr (v, q))"
    using assms(1, 2) q by (simp add: load_policy_def Let_def at_rest_def db_connect_def)
  then show ?thesis
    using q(2) assms(1) by (simp add: server_start_def init_schema_def dedup_init_def auto_commit_def db_commit_def at_rest_def Let_def db_connect_def)
qed

text \<open>
  a restarted server publishes the policy it had. From any state of a run in which the server
  is up and publishes, a crash at that point followed by a start whose storage works comes up
  publishing the same version with the same values.
\<close>

theorem restart_resumes_policy:
  assumes "server_start (database_new path digest no_tables) INITIAL_POLICY_VERSION io c1 c2 c3 = (db, Inr s)"
    and k: "k = run cloud_step (fresh_cloud s) ops" "cl_up k" "s_available (cl_server k)"
  shows "cl_up (cloud_step k (CRestart True Committed Committed Committed)) \<and>
    s_available (cl_server (cloud_step k (CRestart True Committed Committed Committed))) \<and>
    s_policy_version (cl_server (cloud_step k (CRestart True Committed Committed Committed))) = s_policy_version (cl_server k) \<and>
    same_values (s_policy (cl_server k)) (s_policy (cl_server (cloud_step k (CRestart True Committed Committed Committed))))"
proof -
  have ok: "cloud_ok k"
    unfolding k(1) using cloud_run_ok [OF fresh_cloud_ok [OF assms(1)]] by blast
  obtain r p where r: "tb_policy (db_disk (cloud_db k)) = Some r" "head_is (db_digest (cloud_db k)) r (s_policy_version (cl_server k)) p"
      "same_values p (s_policy (cl_server k))"
    using ok k(2, 3) by (auto simp: cloud_ok_def Let_def live_def publishes_def cloud_db_def)
  let ?new = "database_new (db_path (cloud_db k)) (db_digest (cloud_db k)) (db_disk (cloud_db k))"
  have "at_rest ?new"
    using ok by (simp add: at_rest_def database_new_def cloud_ok_def cloud_db_def Let_def head_ok_def)
  then obtain db' s' where "server_start ?new INITIAL_POLICY_VERSION True Committed Committed Committed = (db', Inr s')" "s_available s'"
      "s_policy_version s' = s_policy_version (cl_server k)" "same_values p (s_policy s')"
    using restart_start [of ?new r "s_policy_version (cl_server k)" p INITIAL_POLICY_VERSION True Committed] r(1, 2)
    by (auto simp: database_new_def)
  then show ?thesis
    using r(3) by (simp add: restart_cloud_def Let_def cloud_db_def same_values_def)
qed

section \<open>A first day\<close>

lemma first_start:
  "\<exists>db s. server_start (database_new path digest no_tables) INITIAL_POLICY_VERSION True Committed Committed Committed = (db, Inr s) \<and> s_available s"
proof -
  let ?raw = "JText (PDict (canon_dict DEFAULT_POLICY))"
  let ?row = "\<lparr>pr_version = PInt 1, pr_content = ?raw, pr_checksum = digest (PInt 1) ?raw\<rparr>"
  have "json_ok (PDict DEFAULT_POLICY)"
    by (simp add: DEFAULT_POLICY_def json_ok_PDict)
  then have d: "dumps (PDict DEFAULT_POLICY) = Inr ?raw"
    by (simp add: dumps_def)
  have h: "head_is digest ?row 1 (canon_dict DEFAULT_POLICY)"
    using full_canon(1) [OF full_default] by (simp add: head_is_def)
  obtain q where "read_head digest ?row DEFAULT_POLICY = Inr (1, q)"
    using read_good_head [OF h] by blast
  then show ?thesis
    using d by (simp add: server_start_def load_policy_def with_conn_def write_policy_def first_error_def List.map_filter_def bind_error_def
        db_commit_def create_policy_table_def db_connect_def database_new_def no_tables_def INITIAL_POLICY_VERSION_def
        init_schema_def dedup_init_def auto_commit_def Let_def)
qed

definition demo_io :: "commit_io \<Rightarrow> upload_io" where
  [model_defs]: "demo_io c = \<lparr>u_now1 = 0, u_now2 = 0, u_dedup = True, u_insert = True, u_commit = c\<rparr>"

definition demo_alert :: "string \<Rightarrow> message" where
  [model_defs]: "demo_alert i = new_message ALERT ''A1'' ''SERVER'' [(''alert_type'', PStr ''SENSOR_FAULT''), (''message'', PStr ''B1'')] 0 i"

theorem upload_stored_once_witness:
  "\<exists>s. distinct (row_ids (db_disk (cloud_db (run cloud_step (fresh_cloud s)
      [CUpload 0 (demo_alert ''a'') (demo_io StillOpen) 0 ''r1'', CUpload 0 (demo_alert ''a'') (demo_io Committed) 1 ''r2'',
       CRestart True Committed Committed Committed, CUpload 1 (demo_alert ''a'') (demo_io Committed) 2 ''r3'']))))"
  using first_start [of "''cloud.db''" "\<lambda>_ _. ''d''"] upload_stored_once by blast

theorem restart_resumes_policy_witness:
  "\<exists>s. cl_up (cloud_step (fresh_cloud s) (CRestart True Committed Committed Committed))"
proof -
  obtain db s where s: "server_start (database_new ''cloud.db'' (\<lambda>_ _. ''d'') no_tables) INITIAL_POLICY_VERSION True Committed Committed Committed
      = (db, Inr s)" "s_available s"
    using first_start by blast
  have "cl_up (cloud_step (fresh_cloud s) (CRestart True Committed Committed Committed))"
    by (rule restart_resumes_policy [OF s(1), of "fresh_cloud s" "[]", THEN conjunct1]) (simp_all add: fresh_cloud_def s(2))
  then show ?thesis ..
qed

lemma first_contact:
  assumes "s_clients s = []"
  shows "\<exists>s'. cloud_step (fresh_cloud s) (CUpload 0 (demo_alert []) u 0 ''r'') = (fresh_cloud s)\<lparr>cl_server := s', cl_sessions := [(0, ''A1'')]\<rparr> \<and>
    s_clients s' = [(''A1'', 0)] \<and> s_available s' = s_available s \<and> s_policy_version s' = s_policy_version s"
proof -
  have "validate_server_upload (demo_alert []) \<noteq> None"
    using message_id_nonempty [of "demo_alert []"] by (auto simp: demo_alert_def)
  then obtain e where e: "validate_server_upload (demo_alert []) = Some e" "caught e"
    using harmless_validation [of "demo_alert []"] by (auto simp: harmless_def)
  then show ?thesis
    using assms by (simp add: fresh_cloud_def serve_message_def Let_def server_store_def dset_def) (simp add: demo_alert_def)
qed


theorem rejected_upload_changes_nothing_witness:
  "\<exists>s s' r. server_store s (demo_alert []) (demo_io Committed) = (s', r) \<and> (\<exists>b. r = Inr b)"
proof -
  obtain db s where s: "server_start (database_new ''cloud.db'' (\<lambda>_ _. ''d'') no_tables) INITIAL_POLICY_VERSION True Committed Committed Committed
      = (db, Inr s)"
    using first_start by blast
  have "server_ok s"
    using start_live(2) [OF s empty_rest] by (simp add: live_def INITIAL_POLICY_VERSION_def)
  then show ?thesis
    using rejected_upload_changes_nothing [of s "demo_alert []" "demo_io Committed"] by (metis surj_pair)
qed

end
