(* ===== verification/Farm.thy ===== *)
theory Farm
  imports SampleCommands CloudRuns
begin

text \<open>
  The gateways and the cloud server together. The network between them keeps every frame that either
  side ever wrote and may deliver any of them, any number of times, late, to any socket, or never.
  Gateways take any step of theory GatewayRuns, the server any step of theory CloudRuns; a gateway
  hears from the server only what the server wrote. Messages from nodes and peers, and
  uploads of other clients of the server, are arbitrary.
\<close>

section \<open>The system\<close>

record farm =
  fm_gateways :: "string \<Rightarrow> gsys"
  fm_cloud :: cloud
  fm_up :: "message list"
  fm_down :: "message list"

datatype farm_op =
    FGateway string gw_op
  | FUp nat nat upload_io real string
  | FDown string nat nat gio
  | FForeign nat message upload_io real string
  | FBroadcast "string \<Rightarrow> bool" real string
  | FPolicy dict bool commit_io
  | FDrop nat
  | FRestart bool commit_io commit_io commit_io

text \<open>What a gateway step writes to the server, and what the server answers to an upload.\<close>

definition uplink :: "gsys \<Rightarrow> gw_op \<Rightarrow> message list" where
  "uplink s op =
     (case op of
        GFlush io \<Rightarrow> map snd (snd (flush_step (gs_gw s) io))
      | GUpload io \<Rightarrow> map snd (fst (snd (upload_next (gs_gw s) io)))
      | _ \<Rightarrow> [])"

definition cloud_answer :: "cloud \<Rightarrow> nat \<Rightarrow> message \<Rightarrow> upload_io \<Rightarrow> real \<Rightarrow> string \<Rightarrow> message list" where
  "cloud_answer k w m u t i =
     (if \<not> cl_up k then []
      else case snd (snd (serve_message (cl_server k) w (map_of (cl_sessions k) w) m u t i)) of Inr (Some a) \<Rightarrow> [a] | _ \<Rightarrow> [])"

definition from_server :: "gw_op \<Rightarrow> bool" where
  "from_server op = (case op of GServer m w io \<Rightarrow> True | _ \<Rightarrow> False)"

definition cloud_upload :: "farm \<Rightarrow> nat \<Rightarrow> message \<Rightarrow> upload_io \<Rightarrow> real \<Rightarrow> string \<Rightarrow> farm" where
  "cloud_upload f w m u t i =
     f\<lparr>fm_cloud := cloud_step (fm_cloud f) (CUpload w m u t i), fm_down := fm_down f @ cloud_answer (fm_cloud f) w m u t i\<rparr>"

definition at_gateway :: "farm \<Rightarrow> string \<Rightarrow> gw_op \<Rightarrow> farm" where
  "at_gateway f n op =
     f\<lparr>fm_gateways := (fm_gateways f)(n := gw_step (fm_gateways f n) op), fm_up := fm_up f @ uplink (fm_gateways f n) op\<rparr>"

fun farm_step :: "farm \<Rightarrow> farm_op \<Rightarrow> farm" where
  "farm_step f (FGateway n op) = (if from_server op then f else at_gateway f n op)"
| "farm_step f (FUp k w u t i) = (if k < length (fm_up f) then cloud_upload f w (fm_up f ! k) u t i else f)"
| "farm_step f (FDown n k w io) = (if k < length (fm_down f) then at_gateway f n (GServer (fm_down f ! k) w io) else f)"
| "farm_step f (FForeign w m u t i) = cloud_upload f w m u t i"
| "farm_step f (FBroadcast broken t i) =
     (if \<not> cl_up (fm_cloud f) then f
      else case broadcast_policy (cl_server (fm_cloud f)) broken t i of
          (s, out) \<Rightarrow> f\<lparr>fm_cloud := (fm_cloud f)\<lparr>cl_server := s\<rparr>, fm_down := fm_down f @ map snd out\<rparr>)"
| "farm_step f (FPolicy changes io c) = f\<lparr>fm_cloud := cloud_step (fm_cloud f) (CPolicy changes io c)\<rparr>"
| "farm_step f (FDrop w) = f\<lparr>fm_cloud := cloud_step (fm_cloud f) (CDrop w)\<rparr>"
| "farm_step f (FRestart io c1 c2 c3) = f\<lparr>fm_cloud := cloud_step (fm_cloud f) (CRestart io c1 c2 c3)\<rparr>"

section \<open>The invariant\<close>

definition cloud_ids :: "farm \<Rightarrow> string set" where
  "cloud_ids f = set (row_ids (db_disk (cloud_db (fm_cloud f))))"

text \<open>A receipt on the network names a row on the server's disk.\<close>

definition receipt_names :: "message \<Rightarrow> string \<Rightarrow> bool" where
  "receipt_names m i \<longleftrightarrow> m_type m = PERSISTED_ACK \<and> dgetn (m_payload m) ''ack_message_id'' = PStr i"

definition farm_ok :: "farm \<Rightarrow> bool" where
  "farm_ok f \<longleftrightarrow> cloud_ok (fm_cloud f) \<and> (\<forall>n. replay_ok (cloud_ids f) (gs_gw (fm_gateways f n))) \<and>
     (\<forall>m \<in> set (fm_down f). \<forall>i. receipt_names m i \<longrightarrow> i \<in> cloud_ids f)"

text \<open>What a step may do: rows of the server stay, and rows of a gateway leave only for the server.\<close>

definition farm_later :: "farm \<Rightarrow> farm \<Rightarrow> bool" where
  "farm_later f f' \<longleftrightarrow> cloud_ids f \<subseteq> cloud_ids f' \<and>
     (\<forall>n. only_removes (cloud_ids f') (g_outbox (gs_gw (fm_gateways f n))) (g_outbox (gs_gw (fm_gateways f' n))))"

lemma farm_later_refl [simp, intro]: "farm_later f f"
  by (simp add: farm_later_def)

lemma farm_later_trans: "farm_later a b \<Longrightarrow> farm_later b c \<Longrightarrow> farm_later a c"
  unfolding farm_later_def using only_removes_trans only_removes_mono by (metis order_trans)

lemma at_gateway_ok:
  assumes "farm_ok f" "receipts_in op \<subseteq> cloud_ids f"
  shows "farm_ok (at_gateway f n op) \<and> farm_later f (at_gateway f n op)"
proof -
  have r: "replay_ok (cloud_ids f) (gs_gw (fm_gateways f n))"
    using assms(1) by (simp add: farm_ok_def)
  have "cloud_ids f \<union> receipts_in op = cloud_ids f"
    using assms(2) by blast
  with step_replay [OF r, of op] have
    "replay_ok (cloud_ids f) (gs_gw (gw_step (fm_gateways f n) op))"
    "only_removes (cloud_ids f) (g_outbox (gs_gw (fm_gateways f n))) (g_outbox (gs_gw (gw_step (fm_gateways f n) op)))"
    by simp_all
  with assms(1) show ?thesis
    by (simp add: at_gateway_def farm_ok_def farm_later_def cloud_ids_def)
qed

lemma not_from_server: "\<not> from_server op \<Longrightarrow> receipts_in op = {}"
  by (cases op) (simp_all add: from_server_def)

text \<open>A step of the server keeps its ids; new frames must name only rows it has.\<close>

lemma at_cloud_ok:
  assumes "farm_ok f" "cloud_ok k" "later (cloud_db (fm_cloud f)) (cloud_db k)"
    and "\<forall>m \<in> set down. \<forall>i. receipt_names m i \<longrightarrow> i \<in> set (row_ids (db_disk (cloud_db k)))"
  shows "farm_ok (f\<lparr>fm_cloud := k, fm_down := fm_down f @ down\<rparr>) \<and> farm_later f (f\<lparr>fm_cloud := k, fm_down := fm_down f @ down\<rparr>)"
proof -
  have sub: "cloud_ids f \<subseteq> set (row_ids (db_disk (cloud_db k)))"
    using assms(3) by (simp add: later_def grows_def cloud_ids_def)
  then have "replay_ok (set (row_ids (db_disk (cloud_db k)))) (gs_gw (fm_gateways f n))" for n
    using assms(1) replay_mono unfolding farm_ok_def by blast
  with sub assms(1, 2, 4) show ?thesis
    by (auto simp: farm_ok_def farm_later_def cloud_ids_def)
qed

lemma cloud_answer_names:
  assumes "a \<in> set (cloud_answer k w m u t i)" "receipt_names a j"
  shows "cl_up k \<and> j \<in> set (cl_acked (cloud_step k (CUpload w m u t i)))"
proof -
  have up: "cl_up k"
    using assms(1) by (simp add: cloud_answer_def split: if_splits)
  obtain s g r where sv: "serve_message (cl_server k) w (map_of (cl_sessions k) w) m u t i = (s, g, r)"
    by (metis surj_pair)
  have "r = Inr (Some a)"
    using assms(1) sv up by (auto simp: cloud_answer_def split: sum.splits option.splits)
  with sv up assms(2) show ?thesis
    by (simp add: receipt_names_def str_of_def)
qed

lemma cloud_upload_ok: "farm_ok f \<Longrightarrow> farm_ok (cloud_upload f w m u t i) \<and> farm_later f (cloud_upload f w m u t i)"
proof -
  assume f: "farm_ok f"
  then have k: "cloud_ok (fm_cloud f)" by (simp add: farm_ok_def)
  note st = cloud_step_ok [OF k, of "CUpload w m u t i"]
  have "set (cl_acked (cloud_step (fm_cloud f) (CUpload w m u t i))) \<subseteq>
      set (row_ids (db_disk (cloud_db (cloud_step (fm_cloud f) (CUpload w m u t i)))))"
    using st(1) unfolding cloud_ok_def cloud_db_def Let_def by blast
  then have "\<forall>a \<in> set (cloud_answer (fm_cloud f) w m u t i). \<forall>j. receipt_names a j \<longrightarrow>
      j \<in> set (row_ids (db_disk (cloud_db (cloud_step (fm_cloud f) (CUpload w m u t i)))))"
    using cloud_answer_names by blast
  from at_cloud_ok [OF f st this] show ?thesis
    by (simp add: cloud_upload_def)
qed

lemma broadcast_ok:
  assumes "broadcast_policy s broken t i = (s', out)"
  shows "s_db s' = s_db s" "live s' = live s" "\<forall>m \<in> set (map snd out). \<not> receipt_names m j"
proof -
  show "s_db s' = s_db s" "\<forall>m \<in> set (map snd out). \<not> receipt_names m j"
    using assms by (auto simp: broadcast_policy_def policy_message_def receipt_names_def split: if_splits)
  show "live s' = live s"
    using assms by (intro live_frame) (auto simp: broadcast_policy_def split: if_splits)
qed

lemma farm_step_ok: "farm_ok f \<Longrightarrow> farm_ok (farm_step f op) \<and> farm_later f (farm_step f op)"
proof -
  assume f: "farm_ok f"
  then have k: "cloud_ok (fm_cloud f)" by (simp add: farm_ok_def)
  have cloud: "farm_ok (f\<lparr>fm_cloud := cloud_step (fm_cloud f) c\<rparr>) \<and> farm_later f (f\<lparr>fm_cloud := cloud_step (fm_cloud f) c\<rparr>)" for c
    using at_cloud_ok [OF f cloud_step_ok [OF k, of c], of "[]"] by simp
  show ?thesis
  proof (cases op)
    case (FGateway n g)
    then show ?thesis
      using at_gateway_ok [OF f] not_from_server [of g] f by simp
  next
    case (FUp j w u t i)
    then show ?thesis
      using cloud_upload_ok [OF f] f by simp
  next
    case (FDown n j w io)
    show ?thesis
    proof (cases "j < length (fm_down f)")
      case True
      then have "fm_down f ! j \<in> set (fm_down f)" by simp
      then have "receipts_in (GServer (fm_down f ! j) w io) \<subseteq> cloud_ids f"
        using f by (auto simp: farm_ok_def receipt_names_def split: pyval.split)
      then show ?thesis
        using at_gateway_ok [OF f] True FDown by simp
    qed (use f FDown in simp)
  next
    case (FForeign w m u t i)
    then show ?thesis
      using cloud_upload_ok [OF f] by simp
  next
    case (FBroadcast broken t i)
    obtain s out where b: "broadcast_policy (cl_server (fm_cloud f)) broken t i = (s, out)"
      by (metis surj_pair)
    let ?k = "(fm_cloud f)\<lparr>cl_server := s\<rparr>"
    have "cloud_ok ?k" "later (cloud_db (fm_cloud f)) (cloud_db ?k)"
      using k broadcast_ok(1, 2) [OF b] by (simp_all add: cloud_ok_def cloud_db_def Let_def)
    from at_cloud_ok [OF f this, of "map snd out"] broadcast_ok(3) [OF b] show ?thesis
      using FBroadcast b f by simp
  qed (use cloud in \<open>simp_all del: cloud_step.simps\<close>)
qed

interpretation farm_runs: steady farm_ok farm_later farm_step
  by unfold_locales (auto simp: farm_step_ok intro: farm_later_trans)

lemmas farm_run_ok = farm_runs.steady_run

section \<open>End to end\<close>

text \<open>A gateway that started from an empty outbox, and a cloud that started from an empty database.\<close>

definition fresh_gateway :: "gsys \<Rightarrow> bool" where
  "fresh_gateway s \<longleftrightarrow> (\<exists>path bytes_of mm mb rm rb rs rr q p c d k t cap b dup g.
     queue_init path bytes_of mm mb rm rb rs rr = Inr q \<and> gateway_init p c d q k t cap b dup = Inr g \<and> s = started g)"

definition fresh_farm :: "(string \<Rightarrow> gsys) \<Rightarrow> server \<Rightarrow> farm" where
  "fresh_farm gs s = \<lparr>fm_gateways = gs, fm_cloud = fresh_cloud s, fm_up = [], fm_down = []\<rparr>"

lemma fresh_farm_ok:
  assumes "server_start (database_new path digest no_tables) INITIAL_POLICY_VERSION io c1 c2 c3 = (db, Inr s)"
    and "\<forall>n. fresh_gateway (gs n)"
  shows "farm_ok (fresh_farm gs s)"
proof -
  have "replay_ok {} (gs_gw (gs n))" for n
    using assms(2) unfolding fresh_gateway_def by (metis init_replay)
  then have "replay_ok R (gs_gw (gs n))" for R n
    using replay_mono [of "{}"] by blast
  with fresh_cloud_ok [OF assms(1)] show ?thesis
    by (simp add: farm_ok_def fresh_farm_def)
qed

text \<open>
  C6: no upload is lost between the gateways and the cloud. From empty outboxes and an empty
  database, through any steps of all gateways and of the server, with frames between them lost,
  repeated, delayed and misrouted, with storage faults and restarts on both sides: a message that is
  in a gateway's outbox at some point is later still in its row there, or the server has a row with
  its message id on disk.
\<close>

theorem upload_stays_until_stored:
  assumes "server_start (database_new path digest no_tables) INITIAL_POLICY_VERSION io c1 c2 c3 = (db, Inr s)"
    and "\<forall>n. fresh_gateway (gs n)"
    and "stored (g_outbox (gs_gw (fm_gateways (run farm_step (fresh_farm gs s) before) n))) i = Some m"
  shows "stored (g_outbox (gs_gw (fm_gateways (run farm_step (fresh_farm gs s) (before @ later_ops)) n))) i = Some m \<or>
    m_id m \<in> set (row_ids (db_disk (cloud_db (fm_cloud (run farm_step (fresh_farm gs s) (before @ later_ops))))))"
proof -
  have "farm_ok (run farm_step (fresh_farm gs s) before)"
    using farm_run_ok [OF fresh_farm_ok [OF assms(1, 2)]] by blast
  from farm_run_ok [OF this, of later_ops] assms(3) show ?thesis
    by (auto simp: run_append farm_later_def only_removes_def cloud_ids_def)
qed

text \<open>
  C7: what a sensor or controller was told to be durable reaches the cloud or waits at the gateway. When a
  gateway, handling a sample or a result, writes a \<^verbatim>\<open>PERSISTED_ACK\<close> for an id, then at every later
  point of the run of the whole farm a message with that id is in that gateway's outbox or in the
  server's history on disk.
\<close>

theorem node_receipt_reaches_cloud:
  assumes "server_start (database_new path digest no_tables) INITIAL_POLICY_VERSION io c1 c2 c3 = (db, Inr s)"
    and "\<forall>n. fresh_gateway (gs n)" "\<not> from_server op"
    and "tells_durable (answers (fm_gateways (run farm_step (fresh_farm gs s) before) n) op) i"
  shows "i \<in> outbox_ids (g_outbox (gs_gw (fm_gateways (run farm_step (fresh_farm gs s) (before @ FGateway n op # later_ops)) n))) \<or>
    i \<in> set (row_ids (db_disk (cloud_db (fm_cloud (run farm_step (fresh_farm gs s) (before @ FGateway n op # later_ops))))))"
proof -
  let ?f = "run farm_step (fresh_farm gs s) before"
  have f: "farm_ok ?f"
    using farm_run_ok [OF fresh_farm_ok [OF assms(1, 2)]] by blast
  define g where "g = farm_step ?f (FGateway n op)"
  have "i \<in> promised (g_outbox (gs_gw (fm_gateways g n)))"
    using answer_promised [OF assms(4)] assms(3) by (simp add: g_def at_gateway_def)
  then have "i \<in> promised (g_outbox (gs_gw (fm_gateways (run farm_step g later_ops) n)))" "farm_ok (run farm_step g later_ops)"
    using farm_run_ok [of g later_ops] farm_step_ok [OF f, of "FGateway n op", folded g_def]
    unfolding farm_later_def only_removes_def by blast+
  moreover have "run farm_step (fresh_farm gs s) (before @ FGateway n op # later_ops) = run farm_step g later_ops"
    by (simp add: run_append g_def)
  ultimately show ?thesis
    unfolding farm_ok_def replay_ok_def covered_def cloud_ids_def by auto
qed

section \<open>One sample on its way\<close>

text \<open>The afternoon of theory GatewayDemo, on both gateways' names, with the server's answer.\<close>

definition demo_trip :: "farm_op list" where
  [model_defs]: "demo_trip = [FGateway ''A1'' (GConnected 9), FGateway ''A1'' (GFlush (gw_io 4 ''r5'')), FGateway ''A1'' (GFlush (gw_io 4 ''r5'')),
     FGateway ''A1'' (GFlush (gw_io 4 ''r5'')), FUp 0 1 (demo_io Committed) 5 ''k1'', FDown ''A1'' 0 9 (gw_io 6 ''r6''), FGateway ''A1'' (GFlush (gw_io 6 ''r6''))]"

lemma demo_fresh: "\<forall>n. fresh_gateway ((\<lambda>_. started demo_gateway) n)"
  using demo_queue_init demo_gateway_init unfolding fresh_gateway_def by blast

lemma demo_farm_run:
  "\<forall>op \<in> set ops. \<not> from_server op \<Longrightarrow>
   fm_gateways (run farm_step f (map (FGateway n) ops)) n = run gw_step (fm_gateways f n) ops"
  by (induction ops arbitrary: f) (simp_all add: at_gateway_def)

lemma demo_farm_before:
  "fm_gateways (run farm_step (fresh_farm (\<lambda>_. started demo_gateway) s) (map (FGateway ''A1'') demo_ops)) ''A1'' = run gw_step (started demo_gateway) demo_ops"
  using demo_farm_run [of demo_ops] by (simp add: fresh_farm_def demo_ops_def from_server_def)

theorem upload_stays_until_stored_witness:
  "\<exists>s. stored (g_outbox (gs_gw (fm_gateways (run farm_step (fresh_farm (\<lambda>_. started demo_gateway) s)
       (map (FGateway ''A1'') (demo_ops @ [GSensor (\<lambda>_. ''h'') (gw_io 3 ''r4'')]) @ demo_trip)) ''A1''))) 1 = Some dry_upload \<or>
     m_id dry_upload \<in> set (row_ids (db_disk (cloud_db (fm_cloud (run farm_step (fresh_farm (\<lambda>_. started demo_gateway) s)
       (map (FGateway ''A1'') (demo_ops @ [GSensor (\<lambda>_. ''h'') (gw_io 3 ''r4'')]) @ demo_trip))))))"
proof -
  obtain db s where s: "server_start (database_new ''c'' (\<lambda>_ _. ''d'') no_tables) INITIAL_POLICY_VERSION True Committed Committed Committed = (db, Inr s)"
    using first_start by blast
  have "fm_gateways (run farm_step (fresh_farm (\<lambda>_. started demo_gateway) s) (map (FGateway ''A1'') (demo_ops @ [GSensor (\<lambda>_. ''h'') (gw_io 3 ''r4'')]))) ''A1''
      = run gw_step (started demo_gateway) (demo_ops @ [GSensor (\<lambda>_. ''h'') (gw_io 3 ''r4'')])"
    using demo_farm_run [of "demo_ops @ [GSensor (\<lambda>_. ''h'') (gw_io 3 ''r4'')]"] by (simp add: fresh_farm_def demo_ops_def from_server_def)
  then have "stored (g_outbox (gs_gw (fm_gateways (run farm_step (fresh_farm (\<lambda>_. started demo_gateway) s)
      (map (FGateway ''A1'') (demo_ops @ [GSensor (\<lambda>_. ''h'') (gw_io 3 ''r4'')]))) ''A1''))) 1 = Some dry_upload"
    using demo_stored by simp
  from upload_stays_until_stored [OF s demo_fresh this] show ?thesis by blast
qed

theorem node_receipt_reaches_cloud_witness:
  "\<exists>s. ''B1-b-0000000a-S'' \<in> outbox_ids (g_outbox (gs_gw (fm_gateways (run farm_step (fresh_farm (\<lambda>_. started demo_gateway) s)
       (map (FGateway ''A1'') demo_ops @ FGateway ''A1'' (GSensor (\<lambda>_. ''h'') (gw_io 3 ''r4'')) # demo_trip)) ''A1''))) \<or>
     ''B1-b-0000000a-S'' \<in> set (row_ids (db_disk (cloud_db (fm_cloud (run farm_step (fresh_farm (\<lambda>_. started demo_gateway) s)
       (map (FGateway ''A1'') demo_ops @ FGateway ''A1'' (GSensor (\<lambda>_. ''h'') (gw_io 3 ''r4'')) # demo_trip))))))"
proof -
  obtain db s where s: "server_start (database_new ''c'' (\<lambda>_ _. ''d'') no_tables) INITIAL_POLICY_VERSION True Committed Committed Committed = (db, Inr s)"
    using first_start by blast
  have "tells_durable (answers (fm_gateways (run farm_step (fresh_farm (\<lambda>_. started demo_gateway) s) (map (FGateway ''A1'') demo_ops)) ''A1'')
      (GSensor (\<lambda>_. ''h'') (gw_io 3 ''r4''))) ''B1-b-0000000a-S''"
    using demo_tells by (simp add: demo_farm_before)
  from node_receipt_reaches_cloud [OF s demo_fresh _ this, of demo_trip] show ?thesis
    by (auto simp: from_server_def)
qed

end
