(* ===== verification/Trust.thy ===== *)
theory Trust
  imports Engines
begin

text \<open>
  \<^verbatim>\<open>sensor_node/sensor_trust.py\<close>: per channel a bounded history with the detectors for missing,
  out of range, stuck, jumping and drifting readings, and their combination into the trust of a
  sample. Readings are JSON values; times and readings of the history are reals.
\<close>

section \<open>Health, flags and settings\<close>

datatype health_state = HEALTHY | DEGRADED | FAULT

fun health_state_name :: "health_state \<Rightarrow> string" where
  "health_state_name HEALTHY = ''HEALTHY''"
| "health_state_name DEGRADED = ''DEGRADED''"
| "health_state_name FAULT = ''FAULT''"

datatype fault_flag = RANGE | STUCK | SPIKE | DRIFT | MISSING

fun flag_name :: "fault_flag \<Rightarrow> string" where
  "flag_name RANGE = ''RANGE''"
| "flag_name STUCK = ''STUCK''"
| "flag_name SPIKE = ''SPIKE''"
| "flag_name DRIFT = ''DRIFT''"
| "flag_name MISSING = ''MISSING''"

definition PENALTIES :: "(fault_flag \<times> int) list" where
  [model_defs]: "PENALTIES = [(RANGE, 55), (STUCK, 35), (SPIKE, 25), (DRIFT, 25), (MISSING, 55)]"

definition penalty :: "fault_flag \<Rightarrow> int" where
  "penalty f = the (map_of PENALTIES f)"

definition state_of_score :: "int \<Rightarrow> health_state" where
  "state_of_score score = (if 80 \<le> score then HEALTHY else if 50 \<le> score then DEGRADED else FAULT)"

record channel_cfg =
  cc_min :: real
  cc_max :: real
  cc_stuck_epsilon :: real
  cc_stuck_window :: nat
  cc_spike :: real
  cc_drift_window :: nat
  cc_drift :: real
  cc_missing :: nat

text \<open>What the settings validator requires of a channel.\<close>

definition cfg_ok :: "channel_cfg \<Rightarrow> bool" where
  "cfg_ok c \<longleftrightarrow> cc_min c < cc_max c \<and> 0 \<le> cc_stuck_epsilon c \<and> 0 \<le> cc_spike c \<and> 0 < cc_drift c \<and>
     2 \<le> cc_stuck_window c \<and> cc_stuck_window c \<le> 64 \<and> 2 \<le> cc_drift_window c \<and> cc_drift_window c \<le> 64 \<and> 1 \<le> cc_missing c"

section \<open>One channel\<close>

record channel_trust =
  ct_cfg :: channel_cfg
  ct_window :: "(real \<times> real) list"
  ct_last :: "real option"
  ct_spike :: "real option"
  ct_invalid :: nat
  ct_direction :: int
  ct_streak :: nat

definition channel_init :: "channel_cfg \<Rightarrow> channel_trust" where
  [model_defs]: "channel_init c = \<lparr>ct_cfg = c, ct_window = [], ct_last = None, ct_spike = None, ct_invalid = 0, ct_direction = 0, ct_streak = 0\<rparr>"

definition last_n :: "nat \<Rightarrow> 'a list \<Rightarrow> 'a list" where
  "last_n n xs = drop (length xs - n) xs"

text \<open>\<^verbatim>\<open>deque(maxlen=n).append\<close>.\<close>

definition bounded_append :: "nat \<Rightarrow> 'a list \<Rightarrow> 'a \<Rightarrow> 'a list" where
  "bounded_append n xs x = last_n n (xs @ [x])"

definition history_limit :: "channel_cfg \<Rightarrow> nat" where
  "history_limit c = max (cc_stuck_window c) (cc_drift_window c)"

record channel_result =
  cr_score :: int
  cr_state :: health_state
  cr_flags :: "fault_flag list"
  cr_valid :: bool

definition spread :: "real list \<Rightarrow> real" where
  "spread xs = Max (set xs) - Min (set xs)"

definition mean :: "real list \<Rightarrow> real" where
  "mean xs = sum_list xs / real (length xs)"

text \<open>
  Least squares over the points, zero unless the times strictly increase. With two points or more
  (\<open>cfg_ok\<close>) the divisor is positive then.
\<close>

definition regression :: "(real \<times> real) list \<Rightarrow> real" where
  "regression points =
     (let xs = map (\<lambda>(t, _). t - fst (hd points)) points; ys = map snd points; mx = mean xs; my = mean ys
      in sum_list (map2 (\<lambda>x y. (x - mx) * (y - my)) xs ys) / sum_list (map (\<lambda>x. (x - mx)\<^sup>2) xs))"

definition slope :: "(real \<times> real) list \<Rightarrow> real" where
  "slope points = (if list_all2 (\<lambda>x y. fst x < fst y) (butlast points) (tl points) then regression points else 0)"

definition verdict :: "fault_flag list \<Rightarrow> bool \<Rightarrow> channel_result" where
  "verdict flags usable =
     (let score = max 0 (100 - sum_list (map penalty flags))
      in \<lparr>cr_score = score, cr_state = state_of_score score, cr_flags = flags, cr_valid = usable\<rparr>)"

definition no_value :: "channel_trust \<Rightarrow> channel_trust \<times> channel_result" where
  "no_value c =
     (let c' = c\<lparr>ct_invalid := ct_invalid c + 1, ct_streak := 0, ct_direction := 0\<rparr>
      in (c', verdict (if cc_missing (ct_cfg c) \<le> ct_invalid c' then [MISSING] else []) False))"

definition range_flags :: "channel_cfg \<Rightarrow> real \<Rightarrow> fault_flag list" where
  "range_flags cfg x = (if cc_min cfg \<le> x \<and> x \<le> cc_max cfg then [] else [RANGE])"

text \<open>A jump is flagged, and so is the return to the value before it.\<close>

definition spike_check :: "channel_trust \<Rightarrow> real \<Rightarrow> fault_flag list \<times> real option" where
  "spike_check c x =
     (let limit = cc_spike (ct_cfg c);
          returned = (case ct_spike c of None \<Rightarrow> False | Some r \<Rightarrow> \<bar>x - r\<bar> \<le> limit)
      in if returned then ([SPIKE], None)
         else case ct_last c of
             Some l \<Rightarrow> if limit < \<bar>x - l\<bar> then ([SPIKE], Some l) else ([], None)
           | None \<Rightarrow> ([], None))"

definition stuck_flags :: "channel_cfg \<Rightarrow> (real \<times> real) list \<Rightarrow> fault_flag list" where
  "stuck_flags cfg window =
     (if cc_stuck_window cfg \<le> length window \<and> spread (map snd (last_n (cc_stuck_window cfg) window)) < cc_stuck_epsilon cfg
      then [STUCK] else [])"

definition drift_step :: "channel_trust \<Rightarrow> (real \<times> real) list \<Rightarrow> fault_flag list \<times> int \<times> nat" where
  "drift_step c window =
     (let cfg = ct_cfg c
      in if length window < cc_drift_window cfg then ([], ct_direction c, ct_streak c)
         else let s = slope (last_n (cc_drift_window cfg) window)
              in if cc_drift cfg < \<bar>s\<bar>
                 then let d = (if 0 < s then 1 else - 1);
                          streak = (if d = ct_direction c then ct_streak c + 1 else 1)
                      in (if cc_drift_window cfg \<le> streak then [DRIFT] else [], d, streak)
                 else ([], 0, 0))"

definition value_seen :: "channel_trust \<Rightarrow> real \<Rightarrow> real \<Rightarrow> channel_trust \<times> channel_result" where
  "value_seen c x t =
     (let cfg = ct_cfg c; (spikes, ref) = spike_check c x;
          window = bounded_append (history_limit cfg) (ct_window c) (t, x);
          (drifts, d, streak) = drift_step c window
      in (c\<lparr>ct_invalid := 0, ct_spike := ref, ct_window := window, ct_direction := d, ct_streak := streak, ct_last := Some x\<rparr>,
          verdict (range_flags cfg x @ spikes @ stuck_flags cfg window @ drifts) True))"

definition channel_update :: "channel_trust \<Rightarrow> pyval \<Rightarrow> real \<Rightarrow> bool \<Rightarrow> channel_trust \<times> (py_error + channel_result)" where
  "channel_update c v t valid =
     (if \<not> valid then map_prod id Inr (no_value c)
      else case finite_number v of
          Inl e \<Rightarrow> (c, Inl e)
        | Inr b \<Rightarrow> map_prod id Inr (if b then value_seen c (num_of v) t else no_value c))"

section \<open>All channels\<close>

record trust =
  tr_score :: int
  tr_state :: health_state
  tr_flags :: "fault_flag list"
  tr_channels :: "(string \<times> channel_result) list"
  tr_usable :: bool

type_synonym sensor_trust = "(string \<times> channel_trust) list"

definition sensor_trust_init :: "(string \<times> channel_cfg) list \<Rightarrow> sensor_trust" where
  [model_defs]: "sensor_trust_init cfgs = map (\<lambda>(k, c). (k, channel_init c)) cfgs"

text \<open>An exception leaves the channels before it updated.\<close>

fun update_channels :: "sensor_trust \<Rightarrow> dict \<Rightarrow> (string \<times> bool) list \<Rightarrow> real \<Rightarrow> sensor_trust \<times> (py_error + (string \<times> channel_result) list)" where
  "update_channels [] sample valid t = ([], Inr [])"
| "update_channels ((k, c) # cs) sample valid t =
     (case channel_update c (dgetn sample k) t (case map_of valid k of Some b \<Rightarrow> b | None \<Rightarrow> True) of
        (c', Inl e) \<Rightarrow> ((k, c') # cs, Inl e)
      | (c', Inr r) \<Rightarrow>
          (case update_channels cs sample valid t of
             (cs', Inl e) \<Rightarrow> ((k, c') # cs', Inl e)
           | (cs', Inr rs) \<Rightarrow> ((k, c') # cs', Inr ((k, r) # rs))))"

definition trust_of :: "(string \<times> channel_result) list \<Rightarrow> trust" where
  "trust_of results =
     (let score = Min (set (map (cr_score \<circ> snd) results)); state = state_of_score score
      in \<lparr>tr_score = score, tr_state = state,
          tr_flags = filter (\<lambda>f. \<exists>r \<in> set results. f \<in> set (cr_flags (snd r))) (map fst PENALTIES),
          tr_channels = results, tr_usable = (state = HEALTHY \<and> list_all (cr_valid \<circ> snd) results)\<rparr>)"

definition sensor_trust_update :: "sensor_trust \<Rightarrow> pyval \<Rightarrow> pyval \<Rightarrow> (string \<times> bool) list \<Rightarrow> sensor_trust \<times> (py_error + trust)" where
  "sensor_trust_update ts sample timestamp valid =
     (case finite_number timestamp of
        Inl e \<Rightarrow> (ts, Inl e)
      | Inr False \<Rightarrow> (ts, Inl (ValueErr ''timestamp must be finite''))
      | Inr True \<Rightarrow>
          (case update_channels ts (dict_of sample) valid (num_of timestamp) of
             (ts', Inl e) \<Rightarrow> (ts', Inl e)
           | (ts', Inr results) \<Rightarrow>
               if results = [] then (ts', Inl (ValueErr ''min() arg is an empty sequence'')) else (ts', Inr (trust_of results))))"

section \<open>The stateless validators\<close>

definition REQUIRED_FIELDS :: "string list" where
  [model_defs]: "REQUIRED_FIELDS = [''temperature'', ''humidity'', ''soil_moisture'', ''light'']"

definition shape_reason :: "dict \<Rightarrow> string \<Rightarrow> string option" where
  "shape_reason d name =
     (case dgetn d name of PNone \<Rightarrow> Some (''missing '' @ name) | PInt _ \<Rightarrow> None | PFloat _ \<Rightarrow> None | _ \<Rightarrow> Some (name @ '' is not numeric''))"

definition within_bounds :: "pyval \<Rightarrow> real \<Rightarrow> real \<Rightarrow> bool" where
  "within_bounds v low high \<longleftrightarrow> (case v of PInt i \<Rightarrow> low \<le> of_int i \<and> of_int i \<le> high | PFloat (Fin r) \<Rightarrow> low \<le> r \<and> r \<le> high | _ \<Rightarrow> False)"

text \<open>\<open>show\<close> is the text Python prints for a value.\<close>

definition health_reasons :: "(pyval \<Rightarrow> string) \<Rightarrow> pyval \<Rightarrow> string list" where
  "health_reasons show data =
     (case data of
        PDict d \<Rightarrow>
          let shape = List.map_filter (shape_reason d) REQUIRED_FIELDS
          in if shape \<noteq> [] then shape
             else List.map_filter (\<lambda>(name, low, high).
                    if within_bounds (dgetn d name) low high then None
                    else Some (name @ '' out of range: '' @ show (dgetn d name) @ '' (expected '' @ show (PFloat (Fin low)) @ ''..'' @
                           show (PFloat (Fin high)) @ '')'')) SENSOR_RANGES
      | _ \<Rightarrow> [''payload is not an object''])"

definition check_sensor_health :: "(pyval \<Rightarrow> string) \<Rightarrow> pyval \<Rightarrow> health_state" where
  "check_sensor_health show data = (if health_reasons show data = [] then HEALTHY else FAULT)"

section \<open>A usable sample\<close>

lemma finite_is_number: "finite_number v = Inr True \<Longrightarrow> number v"
  by (auto simp: finite_number_def number_def split: pyval.splits pyfloat.splits if_splits)

lemma penalty_ge: "25 \<le> penalty f"
  by (cases f) (simp_all add: penalty_def PENALTIES_def)

lemma verdict_simps [simp]: "cr_flags (verdict fs b) = fs" "cr_valid (verdict fs b) = b"
  by (simp_all add: verdict_def Let_def)

lemma verdict_clean: "80 \<le> cr_score (verdict fs b) \<Longrightarrow> fs = [] \<and> cr_score (verdict fs b) = 100"
proof -
  assume a: "80 \<le> cr_score (verdict fs b)"
  have "0 \<le> sum_list (map penalty fs')" for fs'
    using penalty_ge by (induction fs') (simp_all add: add_increasing2 order_trans [of 0 25])
  with a penalty_ge show ?thesis
    by (cases fs) (auto simp: verdict_def Let_def, smt (verit))
qed

lemma history_bounded: "length (bounded_append n xs x) \<le> n"
  by (simp add: bounded_append_def last_n_def)

text \<open>A channel that answers with a high score saw an ordinary reading.\<close>

lemma clean_channel:
  assumes "channel_update c v t valid = (c', Inr r)" "80 \<le> cr_score r" "cr_valid r"
  shows "valid \<and> number v \<and> cr_flags r = [] \<and> cr_score r = 100 \<and> cc_min (ct_cfg c) \<le> num_of v \<and> num_of v \<le> cc_max (ct_cfg c) \<and>
     (\<forall>l. ct_last c = Some l \<longrightarrow> \<bar>num_of v - l\<bar> \<le> cc_spike (ct_cfg c)) \<and>
     (cc_stuck_window (ct_cfg c) \<le> length (ct_window c') \<longrightarrow>
        cc_stuck_epsilon (ct_cfg c) \<le> spread (map snd (last_n (cc_stuck_window (ct_cfg c)) (ct_window c'))))"
proof -
  have v: "valid" "finite_number v = Inr True" and seen: "value_seen c (num_of v) t = (c', r)"
    using assms(1, 3)
    by (auto simp: channel_update_def no_value_def Let_def map_prod_def split: if_splits sum.splits prod.splits)
  obtain spikes ref drifts d streak where parts: "spike_check c (num_of v) = (spikes, ref)"
      "drift_step c (bounded_append (history_limit (ct_cfg c)) (ct_window c) (t, num_of v)) = (drifts, d, streak)"
    by (metis surj_pair)
  let ?w = "bounded_append (history_limit (ct_cfg c)) (ct_window c) (t, num_of v)"
  have r: "r = verdict (range_flags (ct_cfg c) (num_of v) @ spikes @ stuck_flags (ct_cfg c) ?w @ drifts) True" "ct_window c' = ?w"
    using seen parts by (auto simp: value_seen_def Let_def)
  have none: "range_flags (ct_cfg c) (num_of v) = []" "spikes = []" "stuck_flags (ct_cfg c) ?w = []" "cr_flags r = []" "cr_score r = 100"
    using verdict_clean [of _ True] assms(2) unfolding r by auto
  have "\<bar>num_of v - l\<bar> \<le> cc_spike (ct_cfg c)" if "ct_last c = Some l" for l
    using parts(1) none(2) that by (auto simp: spike_check_def Let_def split: if_splits option.splits)
  with v none r show ?thesis
    by (auto simp: finite_is_number range_flags_def stuck_flags_def split: if_splits)
qed

lemma update_channels_clean:
  assumes "update_channels ts sample valid t = (ts', Inr results)" "(k, c) \<in> set ts"
  shows "\<exists>c' r. (k, r) \<in> set results \<and>
    channel_update c (dgetn sample k) t (case map_of valid k of Some b \<Rightarrow> b | None \<Rightarrow> True) = (c', Inr r) \<and> (k, c') \<in> set ts'"
  using assms
proof (induction ts arbitrary: ts' results)
  case (Cons a ts)
  then show ?case
    by (cases a) (fastforce split: prod.splits sum.splits)
qed simp

lemma usable_scores:
  assumes "results \<noteq> []" "tr_usable (trust_of results)" "(k, r) \<in> set results"
  shows "80 \<le> cr_score r \<and> cr_valid r"
proof -
  have "Min (set (map (cr_score \<circ> snd) results)) \<le> cr_score r"
    using assms(3) by (intro Min_le) force+
  moreover have "80 \<le> Min (set (map (cr_score \<circ> snd) results))"
    using assms(2) by (auto simp: trust_of_def Let_def state_of_score_def split: if_splits)
  moreover have "cr_valid r"
    using assms(2, 3) by (auto simp: trust_of_def Let_def list_all_iff)
  ultimately show ?thesis by linarith
qed

text \<open>
  a sample is usable for control only when every channel delivered an ordinary reading. Then the
  overall score is the maximum, and each configured channel has a finite number in the sample,
  inside the channel's range, no further than the spike limit from the last reading of the channel,
  not marked invalid by the driver, with no fault flag, and a full stuck window shows at least
  the required spread.
\<close>

theorem usable_sample_is_ordinary:
  assumes "sensor_trust_update ts sample timestamp valid = (ts', Inr r)" "tr_usable r" "(k, c) \<in> set ts"
  shows "tr_score r = 100 \<and> tr_flags r = [] \<and> map_of valid k \<noteq> Some False \<and> number (dgetn (dict_of sample) k) \<and>
    cc_min (ct_cfg c) \<le> num_of (dgetn (dict_of sample) k) \<and> num_of (dgetn (dict_of sample) k) \<le> cc_max (ct_cfg c) \<and>
    (\<forall>l. ct_last c = Some l \<longrightarrow> \<bar>num_of (dgetn (dict_of sample) k) - l\<bar> \<le> cc_spike (ct_cfg c)) \<and>
    (\<exists>c'. (k, c') \<in> set ts' \<and> (cc_stuck_window (ct_cfg c) \<le> length (ct_window c') \<longrightarrow>
       cc_stuck_epsilon (ct_cfg c) \<le> spread (map snd (last_n (cc_stuck_window (ct_cfg c)) (ct_window c')))))"
proof -
  obtain results where u: "update_channels ts (dict_of sample) valid (num_of timestamp) = (ts', Inr results)"
      and r: "results \<noteq> []" "r = trust_of results"
    using assms(1) by (auto simp: sensor_trust_update_def split: sum.splits prod.splits bool.splits if_splits)
  have all: "\<forall>(k', r') \<in> set results. cr_score r' = 100 \<and> cr_flags r' = []"
  proof (clarify)
    fix k' r'
    assume m: "(k', r') \<in> set results"
    have "\<exists>c1 c2 v b. channel_update c1 v (num_of timestamp) b = (c2, Inr r')"
      using u m
    proof (induction ts arbitrary: ts' results)
      case (Cons a ts)
      then show ?case by (cases a) (fastforce split: prod.splits sum.splits)
    qed simp
    with clean_channel usable_scores [OF r(1) _ m] assms(2) r(2) show "cr_score r' = 100 \<and> cr_flags r' = []"
      by blast
  qed
  then have "\<forall>x \<in> set results. cr_score (snd x) = 100" by auto
  with r(1) have "(cr_score \<circ> snd) ` set results = {100}"
    by (cases results) auto
  then have "Min (set (map (cr_score \<circ> snd) results)) = 100" by simp
  then have total: "tr_score r = 100" "tr_flags r = []"
    using all by (force simp: r(2) trust_of_def Let_def filter_empty_conv)+
  obtain c' q where q: "(k, q) \<in> set results" "(k, c') \<in> set ts'"
      "channel_update c (dgetn (dict_of sample) k) (num_of timestamp) (case map_of valid k of Some b \<Rightarrow> b | None \<Rightarrow> True) = (c', Inr q)"
    using update_channels_clean [OF u assms(3)] by blast
  have ok: "80 \<le> cr_score q" "cr_valid q"
    using usable_scores [OF r(1) _ q(1)] assms(2) r(2) by auto
  from clean_channel [OF q(3) ok] total q(2) show ?thesis
    by (auto split: option.splits)
qed

definition demo_channel :: channel_cfg where
  [model_defs]: "demo_channel = \<lparr>cc_min = 0, cc_max = 100, cc_stuck_epsilon = 1 / 100, cc_stuck_window = 20, cc_spike = 20,
     cc_drift_window = 2, cc_drift = 1 / 10, cc_missing = 3\<rparr>"

lemma demo_usable:
  "sensor_trust_update (sensor_trust_init [(''humidity'', demo_channel)]) (PDict [(''humidity'', PInt 50)]) (PInt 7) [] =
     ([(''humidity'', (channel_init demo_channel)\<lparr>ct_window := [(7, 50)], ct_last := Some 50\<rparr>)],
      Inr \<lparr>tr_score = 100, tr_state = HEALTHY, tr_flags = [], tr_channels = [(''humidity'', \<lparr>cr_score = 100, cr_state = HEALTHY, cr_flags = [], cr_valid = True\<rparr>)],
        tr_usable = True\<rparr>)"
  by (simp add: sensor_trust_update_def sensor_trust_init_def demo_channel_def finite_number_def int_finite_def dict_of_def dgetn_def num_of_def
      channel_update_def channel_init_def value_seen_def spike_check_def drift_step_def bounded_append_def last_n_def history_limit_def
      range_flags_def stuck_flags_def verdict_def state_of_score_def trust_of_def PENALTIES_def Let_def)

theorem usable_sample_is_ordinary_witness:
  "number (PInt 50) \<and> num_of (PInt 50) \<le> cc_max demo_channel"
  using usable_sample_is_ordinary [OF demo_usable, of "''humidity''" "channel_init demo_channel"]
  by (simp add: sensor_trust_init_def dict_of_def dgetn_def channel_init_def)

section \<open>The histories are bounded\<close>

definition trust_bounded :: "sensor_trust \<Rightarrow> bool" where
  "trust_bounded ts \<longleftrightarrow> (\<forall>(k, c) \<in> set ts. length (ct_window c) \<le> history_limit (ct_cfg c))"

lemma channel_update_window:
  assumes "channel_update c v t b = (c', r)" "length (ct_window c) \<le> history_limit (ct_cfg c)"
  shows "ct_cfg c' = ct_cfg c" "length (ct_window c') \<le> history_limit (ct_cfg c')"
  using assms history_bounded
  by (auto simp: channel_update_def no_value_def value_seen_def Let_def map_prod_def split: if_splits sum.splits prod.splits)

lemma update_channels_bounded: "update_channels ts d valid t = (ts', r) \<Longrightarrow> trust_bounded ts \<Longrightarrow> trust_bounded ts' \<and>
    map (\<lambda>(k, c). (k, ct_cfg c)) ts' = map (\<lambda>(k, c). (k, ct_cfg c)) ts"
proof (induction ts arbitrary: ts' r)
  case (Cons a ts)
  obtain k c where a: "a = (k, c)" by force
  obtain c' x where u: "channel_update c (dgetn d k) t (case map_of valid k of Some b \<Rightarrow> b | None \<Rightarrow> True) = (c', x)"
    by (metis surj_pair)
  obtain cs' y where cs: "update_channels ts d valid t = (cs', y)" by (metis surj_pair)
  have w: "ct_cfg c' = ct_cfg c" "length (ct_window c') \<le> history_limit (ct_cfg c')" "trust_bounded ts"
    using channel_update_window [OF u] Cons.prems(2) by (auto simp: trust_bounded_def a)
  with Cons.IH [OF cs] Cons.prems u cs show ?case
    by (cases x; cases y) (auto simp: a trust_bounded_def)
qed (simp add: trust_bounded_def)

section \<open>A steady drift is found\<close>

text \<open>Readings with their times, fed one by one.\<close>

fun feed :: "channel_trust \<Rightarrow> (real \<times> real) list \<Rightarrow> channel_trust" where
  "feed c [] = c"
| "feed c ((t, x) # ps) = feed (fst (channel_update c (PFloat (Fin x)) t True)) ps"

lemma feed_append: "feed c (ps @ [(t, x)]) = fst (channel_update (feed c ps) (PFloat (Fin x)) t True)"
  by (induction c ps rule: feed.induct) auto

lemma update_value: "channel_update c (PFloat (Fin x)) t True = map_prod id Inr (value_seen c x t)"
  by (simp add: channel_update_def finite_number_def num_of_def)

lemma value_seen_fields:
  "ct_cfg (fst (value_seen c x t)) = ct_cfg c"
  "ct_window (fst (value_seen c x t)) = bounded_append (history_limit (ct_cfg c)) (ct_window c) (t, x)"
  "drift_step c (bounded_append (history_limit (ct_cfg c)) (ct_window c) (t, x)) = (fs, d, n) \<Longrightarrow>
     ct_direction (fst (value_seen c x t)) = d \<and> ct_streak (fst (value_seen c x t)) = n \<and>
     set fs \<subseteq> set (cr_flags (snd (value_seen c x t)))"
  by (auto simp: value_seen_def Let_def split: prod.splits)

lemma last_n_append: "last_n n (last_n n xs @ [x]) = last_n n (xs @ [x])"
  by (cases "n \<le> length xs") (auto simp: last_n_def intro!: arg_cong [where f = "\<lambda>k. drop k xs"])

lemma last_n_last_n: "m \<le> n \<Longrightarrow> last_n m (last_n n xs) = last_n m xs"
  by (auto simp: last_n_def intro!: arg_cong [where f = "\<lambda>k. drop k xs"])

lemma last_n_suffix: "n \<le> length ys \<Longrightarrow> last_n n (xs @ ys) = last_n n ys"
  by (simp add: last_n_def)

lemma feed_cfg [simp]: "ct_cfg (feed c ps) = ct_cfg c"
  by (induction c ps rule: feed.induct) (simp_all add: update_value value_seen_fields)

lemma feed_window:
  assumes "length (ct_window c) \<le> history_limit (ct_cfg c)"
  shows "ct_window (feed c ps) = last_n (history_limit (ct_cfg c)) (ct_window c @ ps)"
proof (induction ps rule: rev_induct)
  case (snoc p ps)
  then show ?case
    by (cases p) (simp add: feed_append update_value value_seen_fields bounded_append_def last_n_append flip: append_assoc)
qed (use assms in \<open>simp add: last_n_def\<close>)

text \<open>Least squares is exact on a line.\<close>

lemma mean_line: "(xs :: real list) \<noteq> [] \<Longrightarrow> mean (map (\<lambda>x. b + s * x) xs) = b + s * mean xs"
proof -
  assume ne: "xs \<noteq> []"
  have "sum_list (map (\<lambda>x. b + s * x) xs) = real (length xs) * b + s * sum_list xs"
    by (induction xs) (simp_all add: algebra_simps)
  with ne show ?thesis
    by (simp add: mean_def add_divide_distrib)
qed

lemma line_products: "sum_list (map2 (\<lambda>x y. (x - m) * (y - (b + s * m))) (xs :: real list) (map (\<lambda>x. b + s * x) xs)) = s * sum_list (map (\<lambda>x. (x - m)\<^sup>2) xs)"
  by (induction xs) (simp_all add: algebra_simps power2_eq_square)

lemma squares_nonneg: "0 \<le> sum_list (map (\<lambda>x. (x - m)\<^sup>2) (xs :: real list))"
  by (induction xs) simp_all

lemma squares_positive: "x \<in> set xs \<Longrightarrow> y \<in> set xs \<Longrightarrow> x \<noteq> y \<Longrightarrow> 0 < sum_list (map (\<lambda>x. (x - m)\<^sup>2) (xs :: real list))"
proof -
  assume a: "x \<in> set xs" "y \<in> set xs" "x \<noteq> y"
  then obtain z where z: "z \<in> set xs" "z \<noteq> m" by metis
  have "(z - m)\<^sup>2 \<le> sum_list (map (\<lambda>x. (x - m)\<^sup>2) xs)"
    using z(1) squares_nonneg [of m] by (induction xs) (auto simp: add_increasing2 add_increasing)
  with z(2) show ?thesis
    using zero_less_power2 [of "z - m"] by linarith
qed

lemma increasing_adjacent: "sorted_wrt (<) (map fst ps) \<Longrightarrow> list_all2 (\<lambda>x y. fst x < fst y) (butlast ps) (tl ps)"
proof (induction ps)
  case (Cons p ps)
  then show ?case by (cases ps) auto
qed simp

lemma slope_line:
  assumes "sorted_wrt (<) (map fst ps)" "2 \<le> length ps" "\<forall>(t, v) \<in> set ps. v = a + s * t"
  shows "slope ps = s"
proof -
  obtain p q rest where ps: "ps = p # q # rest"
    using assms(2) by (cases ps; cases "tl ps") auto
  let ?xs = "map (\<lambda>(t, _). t - fst (hd ps)) ps" and ?b = "a + s * fst (hd ps)"
  have ys: "map snd ps = map (\<lambda>x. ?b + s * x) ?xs"
    using assms(3) by (auto simp: algebra_simps)
  have "fst p < fst q"
    using assms(1) ps by simp
  then have pos: "0 < sum_list (map (\<lambda>x. (x - mean ?xs)\<^sup>2) ?xs)"
    using ps by (intro squares_positive [of "fst p - fst (hd ps)" _ "fst q - fst (hd ps)"]) (auto split: prod.splits)
  have "mean (map (\<lambda>x. ?b + s * x) ?xs) = ?b + s * mean ?xs"
    using ps by (intro mean_line) simp
  with pos line_products [of "mean ?xs" ?b s ?xs] show ?thesis
    unfolding slope_def regression_def Let_def ys using increasing_adjacent [OF assms(1)] by simp
qed

definition sign_of :: "real \<Rightarrow> int" where
  "sign_of s = (if 0 < s then 1 else - 1)"

lemma sign_of_simps: "d = (if 0 < s then 1 else - 1) \<longleftrightarrow> d = sign_of s"
  by (simp add: sign_of_def)

text \<open>One more reading of a ramp whose last window is on the line.\<close>

lemma drift_step_ramp:
  assumes "cfg_ok (ct_cfg c)" "cc_drift (ct_cfg c) < \<bar>s\<bar>" "cc_drift_window (ct_cfg c) \<le> length w"
    and "sorted_wrt (<) (map fst (last_n (cc_drift_window (ct_cfg c)) w))" "\<forall>(t, v) \<in> set (last_n (cc_drift_window (ct_cfg c)) w). v = a + s * t"
  shows "drift_step c w = (let n = (if sign_of s = ct_direction c then ct_streak c + 1 else 1) in
    (if cc_drift_window (ct_cfg c) \<le> n then [DRIFT] else [], sign_of s, n))"
proof -
  have "2 \<le> length (last_n (cc_drift_window (ct_cfg c)) w)"
    using assms(1, 3) by (simp add: last_n_def cfg_ok_def)
  from slope_line [OF assms(4) this assms(5)] show ?thesis
    using assms(2, 3) by (simp add: drift_step_def Let_def sign_of_def)
qed

lemma ramp_window:
  assumes "sorted_wrt (<) (map fst ps)" "\<forall>(t, v) \<in> set ps. v = a + s * t" "n \<le> length ps"
  shows "sorted_wrt (<) (map fst (last_n n (w @ ps)))" "\<forall>(t, v) \<in> set (last_n n (w @ ps)). v = a + s * t" "length (last_n n (w @ ps)) = n"
  using assms by (auto simp: last_n_suffix last_n_def sorted_wrt_drop drop_map [symmetric] dest: in_set_dropD)

lemma ramp_streak:
  assumes "cfg_ok (ct_cfg c)" "length (ct_window c) \<le> history_limit (ct_cfg c)" "cc_drift (ct_cfg c) < \<bar>s\<bar>"
    and "sorted_wrt (<) (map fst (ps @ [(t, x)]))" "\<forall>(t, v) \<in> set (ps @ [(t, x)]). v = a + s * t"
    and "cc_drift_window (ct_cfg c) \<le> Suc (length ps)"
  shows "\<exists>fs n. drift_step (feed c ps) (bounded_append (history_limit (ct_cfg c)) (ct_window (feed c ps)) (t, x)) = (fs, sign_of s, n) \<and>
     Suc (Suc (length ps)) \<le> n + cc_drift_window (ct_cfg c) \<and> (cc_drift_window (ct_cfg c) \<le> n \<longrightarrow> DRIFT \<in> set fs)"
  using assms(4-6)
proof (induction ps arbitrary: t x rule: rev_induct)
  case Nil
  let ?N = "history_limit (ct_cfg c)" and ?dw = "cc_drift_window (ct_cfg c)"
  show ?case using assms(1) Nil(3) by (simp add: cfg_ok_def)
next
  case (snoc p ps)
  let ?N = "history_limit (ct_cfg c)" and ?dw = "cc_drift_window (ct_cfg c)" and ?ps = "ps @ [p]"
  let ?w = "bounded_append ?N (ct_window (feed c ?ps)) (t, x)"
  have N: "?dw \<le> ?N" by (simp add: history_limit_def)
  have w: "?w = last_n ?N (ct_window c @ ?ps @ [(t, x)])"
    using feed_window [OF assms(2), of ?ps] last_n_append by (simp add: bounded_append_def flip: append_assoc)
  have last: "last_n ?dw ?w = last_n ?dw (ct_window c @ ?ps @ [(t, x)])"
    unfolding w by (rule last_n_last_n [OF N])
  have len: "?dw \<le> length ?w"
    using snoc.prems(3) N by (simp add: w last_n_def)
  have step: "drift_step (feed c ?ps) ?w = (let n = (if sign_of s = ct_direction (feed c ?ps) then ct_streak (feed c ?ps) + 1 else 1) in
      (if ?dw \<le> n then [DRIFT] else [], sign_of s, n))"
    using drift_step_ramp [of "feed c ?ps" s ?w a] assms(1, 3) len ramp_window [OF snoc.prems(1, 2), of ?dw "ct_window c"] snoc.prems(3)
    unfolding feed_cfg last by simp
  show ?case
  proof (cases "?dw \<le> Suc (length ps)")
    case False
    with step show ?thesis by (simp add: Let_def)
  next
    case True
    obtain u y where p: "p = (u, y)" by force
    have pre: "sorted_wrt (<) (map fst (ps @ [(u, y)]))" "\<forall>(t, v) \<in> set (ps @ [(u, y)]). v = a + s * t"
      using snoc.prems(1, 2) p by (auto simp: sorted_wrt_append)
    obtain fs n where i: "drift_step (feed c ps) (bounded_append ?N (ct_window (feed c ps)) (u, y)) = (fs, sign_of s, n)"
        "Suc (Suc (length ps)) \<le> n + ?dw"
      using snoc.IH [OF pre True] by blast
    have "ct_direction (feed c ?ps) = sign_of s \<and> ct_streak (feed c ?ps) = n"
      using value_seen_fields(3) [of "feed c ps" u y] i(1) by (simp add: p feed_append update_value)
    with step i(2) show ?thesis by (simp add: Let_def)
  qed
qed



end
