(* ===== verification/Scheduler.thy ===== *)
theory Scheduler
  imports Trust
begin

text \<open>
  Adaptive sampling: \<^verbatim>\<open>sensor_node/change_detector.py\<close> (streaming change score with a debounced
  event), \<^verbatim>\<open>sensor_node/adaptive_scheduler.py\<close> (state machine, interval ladders, upload reasons) and
  the settings adapter \<^verbatim>\<open>sensor_node/scheduler_config.py\<close>. Times and values are reals; per-channel
  dictionaries of the analyzer are functions of the channel name.
\<close>

section \<open>The change detector\<close>

record ana_channel =
  ac_name :: string
  ac_noise :: real
  ac_use :: bool

record analyzer_cfg =
  an_channels :: "ana_channel list"
  an_variety :: real
  an_roc :: real
  an_tau :: real
  an_event_threshold :: real
  an_event_duration :: real
  an_capacity :: nat

record analyzer =
  ay_cfg :: analyzer_cfg
  ay_hist :: "string \<Rightarrow> (real \<times> real) list"
  ay_ema :: "string \<Rightarrow> real option"
  ay_last :: "string \<Rightarrow> real option"
  ay_potential :: "real option"
  ay_event :: bool

definition analyzer_init :: "analyzer_cfg \<Rightarrow> analyzer" where
  [model_defs]: "analyzer_init cfg = \<lparr>ay_cfg = cfg, ay_hist = (\<lambda>_. []), ay_ema = (\<lambda>_. None), ay_last = (\<lambda>_. None), ay_potential = None, ay_event = False\<rparr>"

definition prune :: "analyzer_cfg \<Rightarrow> real \<Rightarrow> (real \<times> real) list \<Rightarrow> (real \<times> real) list" where
  "prune cfg now hist = dropWhile (\<lambda>p. fst p < now - an_variety cfg) hist"

definition history_std :: "(real \<times> real) list \<Rightarrow> real" where
  "history_std hist =
     (let vals = map snd hist
      in if length vals < 2 then 0
         else let var = sum_list (map (\<lambda>v. (v - mean vals)\<^sup>2) vals) / real (length vals) in if 0 < var then sqrt var else 0)"

definition roc_terms :: "real \<Rightarrow> (real \<times> real) list \<Rightarrow> real list" where
  "roc_terms limit rows =
     map (\<lambda>((t, v), (t', v')). \<bar>v' - v\<bar> / (t' - t)) (filter (\<lambda>((t, v), (t', v')). 0 < t' - t \<and> limit \<le> t') (zip rows (tl rows)))"

definition history_roc :: "analyzer_cfg \<Rightarrow> real \<Rightarrow> (real \<times> real) list \<Rightarrow> real" where
  "history_roc cfg now rows = (let terms = roc_terms (now - an_roc cfg) rows in if terms = [] then 0 else mean terms)"

text \<open>The reference is the baseline before this sample.\<close>

definition update_ema :: "analyzer \<Rightarrow> string \<Rightarrow> real \<Rightarrow> real \<Rightarrow> analyzer \<times> real" where
  "update_ema a name t value =
     (case ay_ema a name of
        None \<Rightarrow> (a\<lparr>ay_ema := (ay_ema a)(name := Some value), ay_last := (ay_last a)(name := Some t)\<rparr>, value)
      | Some ema \<Rightarrow>
          let dt = (case ay_last a name of Some l \<Rightarrow> if l < t then t - l else 0 | None \<Rightarrow> 0);
              alpha = (if 0 < dt then dt / (dt + an_tau (ay_cfg a)) else 0)
          in (a\<lparr>ay_ema := (ay_ema a)(name := Some (ema + alpha * (value - ema))), ay_last := (ay_last a)(name := Some t)\<rparr>, ema))"

definition channel_score :: "analyzer \<Rightarrow> ana_channel \<Rightarrow> real \<Rightarrow> real \<Rightarrow> analyzer \<times> real" where
  "channel_score a cf t value =
     (let name = ac_name cf; (a1, ref) = update_ema a name t value; cfg = ay_cfg a;
          hist = prune cfg t (bounded_append (an_capacity cfg) (ay_hist a1 name) (t, value));
          a2 = a1\<lparr>ay_hist := (ay_hist a1)(name := hist)\<rparr>
      in (a2, max (max \<bar>value - ref\<bar> (history_std hist)) (history_roc cfg t hist) / ac_noise cf))"

fun scan_channels :: "analyzer \<Rightarrow> ana_channel list \<Rightarrow> real \<Rightarrow> (string \<times> real) list \<Rightarrow> real \<Rightarrow> analyzer \<times> real \<times> (string \<times> real) list" where
  "scan_channels a [] t values overall = (a, overall, [])"
| "scan_channels a (cf # cfs) t values overall =
     (case (if ac_use cf then map_of values (ac_name cf) else None) of
        None \<Rightarrow> (case scan_channels a cfs t values overall of (a', o', rs) \<Rightarrow> (a', o', (ac_name cf, 0) # rs))
      | Some v \<Rightarrow>
          let (a1, score) = channel_score a cf t v
          in (case scan_channels a1 cfs t values (if overall < score then score else overall) of
              (a', o', rs) \<Rightarrow> (a', o', (ac_name cf, score) # rs)))"

definition update_event :: "analyzer \<Rightarrow> real \<Rightarrow> real \<Rightarrow> analyzer" where
  "update_event a t score =
     (if an_event_threshold (ay_cfg a) < score
      then let start = (case ay_potential a of None \<Rightarrow> t | Some s \<Rightarrow> s)
           in a\<lparr>ay_potential := Some start, ay_event := (an_event_duration (ay_cfg a) \<le> t - start)\<rparr>
      else a\<lparr>ay_potential := None, ay_event := False\<rparr>)"

definition analyzer_update :: "analyzer \<Rightarrow> real \<Rightarrow> (string \<times> real) list \<Rightarrow> analyzer \<times> real \<times> (string \<times> real) list \<times> bool" where
  "analyzer_update a t values =
     (case scan_channels a (an_channels (ay_cfg a)) t values 0 of
        (a1, overall, rs) \<Rightarrow> let a2 = update_event a1 t overall in (a2, overall, rs, ay_event a2))"

text \<open>\<^verbatim>\<open>run_offline\<close>.\<close>

fun analyzer_run :: "analyzer \<Rightarrow> (real \<times> (string \<times> real) list) list \<Rightarrow> (real \<times> real \<times> bool) list" where
  "analyzer_run a [] = []"
| "analyzer_run a ((t, values) # samples) =
     (case analyzer_update a t values of (a', score, rs, event) \<Rightarrow> (t, score, event) # analyzer_run a' samples)"

section \<open>The state machine and the ladder\<close>

datatype sched_state = StableState | ActiveState | AlertState

fun sched_state_name :: "sched_state \<Rightarrow> string" where
  "sched_state_name StableState = ''STABLE''"
| "sched_state_name ActiveState = ''ACTIVE''"
| "sched_state_name AlertState = ''ALERT''"

record state_bounds =
  b_stable_high :: real
  b_stable_low :: real
  b_active_high :: real
  b_active_low :: real

definition hysteresis_bounds :: "real \<Rightarrow> real \<Rightarrow> real \<Rightarrow> state_bounds" where
  "hysteresis_bounds low high h =
     \<lparr>b_stable_high = low * (1 + h), b_stable_low = low * (1 - h), b_active_high = high * (1 + h), b_active_low = high * (1 - h)\<rparr>"

definition transition :: "sched_state \<Rightarrow> real \<Rightarrow> state_bounds \<Rightarrow> sched_state" where
  "transition s score b =
     (if b_active_high b \<le> score then AlertState
      else if s = AlertState then (if b_active_low b \<le> score then AlertState else ActiveState)
      else if b_stable_high b \<le> score then ActiveState
      else if s = ActiveState then (if b_stable_low b \<le> score then ActiveState else StableState)
      else StableState)"

text \<open>The ladder is not empty (the settings validator checks it).\<close>

definition next_rung :: "nat \<Rightarrow> nat \<Rightarrow> real list \<Rightarrow> nat \<Rightarrow> real \<times> nat \<times> nat" where
  "next_rung position rung_count ladder confirmations =
     (let final = length ladder - 1; pos = min position final; count = rung_count + 1
      in if confirmations \<le> count then (ladder ! pos, min (pos + 1) final, 0) else (ladder ! pos, pos, count))"

section \<open>The scheduler\<close>

record sched_cfg =
  sc_min :: real
  sc_default :: real
  sc_max :: real
  sc_stable :: real
  sc_active :: real
  sc_hysteresis :: real
  sc_ladder :: "sched_state \<Rightarrow> real list"
  sc_confirm :: "sched_state \<Rightarrow> nat"
  sc_first :: bool
  sc_on_event :: bool
  sc_on_state :: bool
  sc_on_interval :: bool
  sc_heartbeat :: real
  sc_delta :: real
  sc_channels :: "ana_channel list"
  sc_variety :: real
  sc_roc :: real
  sc_tau :: real
  sc_event_threshold :: real
  sc_event_duration :: real

definition analyzer_config :: "sched_cfg \<Rightarrow> analyzer_cfg" where
  "analyzer_config c =
     \<lparr>an_channels = sc_channels c, an_variety = sc_variety c, an_roc = sc_roc c, an_tau = sc_tau c,
      an_event_threshold = sc_event_threshold c, an_event_duration = sc_event_duration c,
      an_capacity = min 64 (nat \<lfloor>sc_variety c / sc_min c\<rfloor> + 2)\<rparr>"

definition cfg_bounds :: "sched_cfg \<Rightarrow> state_bounds" where
  "cfg_bounds c = hysteresis_bounds (sc_stable c) (sc_active c) (sc_hysteresis c)"

record scheduler =
  sd_cfg :: sched_cfg
  sd_analyzer :: analyzer
  sd_now :: real
  sd_state :: sched_state
  sd_pos :: "sched_state \<Rightarrow> nat"
  sd_count :: "sched_state \<Rightarrow> nat"
  sd_interval :: real
  sd_samples :: nat
  sd_last_interval :: real
  sd_last_upload_t :: "real option"
  sd_last_upload :: "(string \<times> real) list"
  sd_prev_event :: bool

definition scheduler_init :: "sched_cfg \<Rightarrow> real \<Rightarrow> scheduler" where
  "scheduler_init c t =
     \<lparr>sd_cfg = c, sd_analyzer = analyzer_init (analyzer_config c), sd_now = t, sd_state = StableState, sd_pos = (\<lambda>_. 0), sd_count = (\<lambda>_. 0),
      sd_interval = sc_default c, sd_samples = 0, sd_last_interval = sc_default c, sd_last_upload_t = None, sd_last_upload = [], sd_prev_event = False\<rparr>"

definition reset_ladder :: "scheduler \<Rightarrow> scheduler" where
  "reset_ladder s = s\<lparr>sd_pos := (\<lambda>_. 0), sd_count := (\<lambda>_. 0)\<rparr>"

definition advance_ladder :: "scheduler \<Rightarrow> scheduler \<times> real" where
  "advance_ladder s =
     (let st = sd_state s;
          (interval, pos, count) = next_rung (sd_pos s st) (sd_count s st) (sc_ladder (sd_cfg s) st) (sc_confirm (sd_cfg s) st)
      in (s\<lparr>sd_pos := (sd_pos s)(st := pos), sd_count := (sd_count s)(st := count)\<rparr>, interval))"

text \<open>\<^verbatim>\<open>math.isclose\<close> with its default tolerance.\<close>

definition is_close :: "real \<Rightarrow> real \<Rightarrow> bool" where
  "is_close a b \<longleftrightarrow> \<bar>a - b\<bar> \<le> max (1 / 10 ^ 9 * max \<bar>a\<bar> \<bar>b\<bar>) 0"

definition meaningful_delta :: "scheduler \<Rightarrow> (string \<times> real) list \<Rightarrow> ana_channel \<Rightarrow> bool" where
  "meaningful_delta s values cf \<longleftrightarrow> ac_use cf \<and>
     (case (map_of values (ac_name cf), map_of (sd_last_upload s) (ac_name cf)) of
        (Some v, Some l) \<Rightarrow> sc_delta (sd_cfg s) \<le> \<bar>v - l\<bar> / ac_noise cf | _ \<Rightarrow> False)"

definition upload_decision :: "scheduler \<Rightarrow> (string \<times> real) list \<Rightarrow> bool \<Rightarrow> bool \<Rightarrow> bool \<Rightarrow> string list" where
  "upload_decision s values onset state_changed interval_changed =
     (let c = sd_cfg s
      in (if sc_first c \<and> sd_samples s = 1 then [''FIRST_SAMPLE''] else []) @
         (if sc_on_event c \<and> onset then [if ay_event (sd_analyzer s) then ''EVENT_ONSET'' else ''EVENT_RECOVERY''] else []) @
         (if sc_on_state c \<and> state_changed then [''STATE_CHANGE''] else []) @
         (if sc_on_interval c \<and> interval_changed then [''INTERVAL_CHANGE''] else []) @
         (if 0 < sc_heartbeat c \<and> (case sd_last_upload_t s of None \<Rightarrow> False | Some t \<Rightarrow> sc_heartbeat c \<le> sd_now s - t)
          then [''PERIODIC_HEARTBEAT''] else []) @
         (if 0 < sc_delta c \<and> list_ex (meaningful_delta s values) (an_channels (ay_cfg (sd_analyzer s))) then [''MEANINGFUL_DELTA''] else []))"

record sched_decision =
  de_timestamp :: real
  de_values :: "(string \<times> real) list"
  de_state :: sched_state
  de_interval :: real
  de_score :: real
  de_event :: bool
  de_upload :: bool
  de_scores :: "(string \<times> real) list"
  de_reasons :: "string list"

definition record_reported :: "scheduler \<Rightarrow> real \<Rightarrow> (string \<times> real) list \<Rightarrow> scheduler" where
  "record_reported s t values = s\<lparr>sd_last_upload_t := Some t, sd_last_upload := values\<rparr>"

definition sched_update :: "scheduler \<Rightarrow> real \<Rightarrow> (string \<times> real) list \<Rightarrow> scheduler \<times> sched_decision" where
  "sched_update s t values =
     (let (a, score, scores, event) = analyzer_update (sd_analyzer s) t values;
          onset = (event \<noteq> sd_prev_event s);
          state = transition (sd_state s) score (cfg_bounds (sd_cfg s)); changed = (state \<noteq> sd_state s);
          s1 = s\<lparr>sd_now := t, sd_samples := sd_samples s + 1, sd_analyzer := a, sd_state := state\<rparr>;
          s2 = (if changed then reset_ladder s1 else s1);
          (s3, interval) = advance_ladder s2;
          interval_changed = (\<not> is_close interval (sd_last_interval s3));
          s4 = s3\<lparr>sd_interval := interval\<rparr>;
          reasons = upload_decision s4 values onset changed interval_changed;
          s5 = (if reasons \<noteq> [] then record_reported s4 t values else s4)
      in (s5\<lparr>sd_prev_event := event, sd_last_interval := interval\<rparr>,
          \<lparr>de_timestamp = t, de_values = values, de_state = state, de_interval = interval, de_score = score, de_event = event,
           de_upload = (reasons \<noteq> []), de_scores = scores, de_reasons = reasons\<rparr>))"

fun sched_run :: "scheduler \<Rightarrow> (real \<times> (string \<times> real) list) list \<Rightarrow> scheduler \<times> sched_decision list" where
  "sched_run s [] = (s, [])"
| "sched_run s ((t, values) # samples) =
     (case sched_update s t values of (s1, d) \<Rightarrow> (case sched_run s1 samples of (s2, ds) \<Rightarrow> (s2, d # ds)))"

section \<open>Hysteresis\<close>

instantiation sched_state :: linorder
begin

definition less_eq_sched_state :: "sched_state \<Rightarrow> sched_state \<Rightarrow> bool" where
  "less_eq_sched_state a b \<longleftrightarrow> a = StableState \<or> b = AlertState \<or> a = b"

definition less_sched_state :: "sched_state \<Rightarrow> sched_state \<Rightarrow> bool" where
  "less_sched_state a b \<longleftrightarrow> a \<noteq> b \<and> (a = StableState \<or> b = AlertState)"

instance
proof
  fix a b c :: sched_state
  show "(a < b) = (a \<le> b \<and> \<not> b \<le> a)" "a \<le> a" "a \<le> b \<or> b \<le> a"
    by (cases a; cases b; simp add: less_eq_sched_state_def less_sched_state_def)+
  show "a \<le> b \<Longrightarrow> b \<le> c \<Longrightarrow> a \<le> c" "a \<le> b \<Longrightarrow> b \<le> a \<Longrightarrow> a = b"
    by (cases a; cases b; cases c; simp add: less_eq_sched_state_def)+
qed

end

lemmas state_order = less_eq_sched_state_def less_sched_state_def

text \<open>The score that enters a state, and the score that keeps it.\<close>

fun entry_bound :: "state_bounds \<Rightarrow> sched_state \<Rightarrow> real option" where
  "entry_bound b StableState = None"
| "entry_bound b ActiveState = Some (b_stable_high b)"
| "entry_bound b AlertState = Some (b_active_high b)"

fun retention_bound :: "state_bounds \<Rightarrow> sched_state \<Rightarrow> real option" where
  "retention_bound b StableState = None"
| "retention_bound b ActiveState = Some (b_stable_low b)"
| "retention_bound b AlertState = Some (b_active_low b)"

fun one_below :: "sched_state \<Rightarrow> sched_state" where
  "one_below AlertState = ActiveState"
| "one_below _ = StableState"

lemma bounds_order:
  assumes "0 < low" "low < high" "0 \<le> h" "h < 1" "b = hysteresis_bounds low high h"
  shows "b_stable_low b \<le> b_stable_high b" "b_active_low b \<le> b_active_high b" "b_stable_high b < b_active_high b" "0 < b_stable_low b"
  using assms by (auto simp: hysteresis_bounds_def intro!: mult_strict_right_mono mult_left_mono)

text \<open>
  the sampling state escalates at once and relaxes with hysteresis. With validated thresholds: a score at
  the entry bound of a state reaches at least that state in one step; a state is left downwards only
  below its own retention bound and by one level only; a state is entered upwards only at its entry
  bound; and a higher score never gives a lower state.
\<close>

theorem transition_has_hysteresis:
  assumes "0 < low" "low < high" "0 \<le> h" "h < 1" "b = hysteresis_bounds low high h"
  shows "(\<forall>e. entry_bound b to = Some e \<longrightarrow> e \<le> x \<longrightarrow> to \<le> transition s x b) \<and>
    (transition s x b < s \<longrightarrow> transition s x b = one_below s \<and> (\<exists>r. retention_bound b s = Some r \<and> x < r)) \<and>
    (s < transition s x b \<longrightarrow> (\<exists>e. entry_bound b (transition s x b) = Some e \<and> e \<le> x)) \<and>
    (x \<le> y \<longrightarrow> transition s x b \<le> transition s y b)"
  using bounds_order [OF assms]
  by (cases s; cases to) (auto simp: transition_def state_order)

theorem transition_has_hysteresis_witness:
  "transition AlertState 0 (hysteresis_bounds 2 6 (1 / 5)) = ActiveState"
proof -
  have "transition AlertState 0 (hysteresis_bounds 2 6 (1 / 5)) < AlertState"
    by (simp add: transition_def hysteresis_bounds_def state_order)
  with transition_has_hysteresis [of 2 6 "1 / 5" "hysteresis_bounds 2 6 (1 / 5)" AlertState 0 AlertState 0] show ?thesis by simp
qed

section \<open>Runs of the scheduler\<close>

lemma sched_update_parts:
  assumes "sched_update s t values = (s', d)"
  obtains a score scores event where "analyzer_update (sd_analyzer s) t values = (a, score, scores, event)"
    "sd_analyzer s' = a" "de_timestamp d = t" "de_score d = score" "de_event d = event" "sd_cfg s' = sd_cfg s"
    "de_state d = transition (sd_state s) score (cfg_bounds (sd_cfg s))" "sd_state s' = de_state d"
proof -
  obtain a score scores event where u: "analyzer_update (sd_analyzer s) t values = (a, score, scores, event)"
    by (metis surj_pair)
  with assms show ?thesis
    by (intro that [OF u])
      (auto simp: sched_update_def Let_def reset_ladder_def advance_ladder_def record_reported_def split: prod.splits if_splits)
qed

lemma sched_update_ladder:
  assumes "sched_update s t values = (s', d)"
  shows "next_rung (if de_state d = sd_state s then sd_pos s (de_state d) else 0) (if de_state d = sd_state s then sd_count s (de_state d) else 0)
      (sc_ladder (sd_cfg s) (de_state d)) (sc_confirm (sd_cfg s) (de_state d)) =
    (de_interval d, sd_pos s' (de_state d), sd_count s' (de_state d))"
  using assms
  by (auto simp: sched_update_def Let_def reset_ladder_def advance_ladder_def record_reported_def split: prod.splits if_splits)

lemma sched_run_append:
  "sched_run s (xs @ ys) = (let (s1, ds) = sched_run s xs; (s2, es) = sched_run s1 ys in (s2, ds @ es))"
  by (induction s xs rule: sched_run.induct) (auto simp: Let_def split: prod.splits)

section \<open>The ladder in closed form\<close>

definition ladder_ok :: "sched_cfg \<Rightarrow> bool" where
  "ladder_ok c \<longleftrightarrow> (\<forall>st. sc_ladder c st \<noteq> [] \<and> (\<forall>v \<in> set (sc_ladder c st). sc_min c \<le> v \<and> v \<le> sc_max c) \<and> 1 \<le> sc_confirm c st)"

definition rung :: "real list \<Rightarrow> nat \<Rightarrow> nat \<Rightarrow> real" where
  "rung ladder confirmations k = ladder ! min (k div confirmations) (length ladder - 1)"

definition at_rung :: "scheduler \<Rightarrow> sched_state \<Rightarrow> nat \<Rightarrow> bool" where
  "at_rung s st k \<longleftrightarrow> sd_pos s st = min (k div sc_confirm (sd_cfg s) st) (length (sc_ladder (sd_cfg s) st) - 1) \<and>
     sd_count s st = k mod sc_confirm (sd_cfg s) st"

lemma next_rung_step:
  assumes "1 \<le> c"
  shows "next_rung (min (k div c) (length l - 1)) (k mod c) l c =
    (rung l c k, min (Suc k div c) (length l - 1), Suc k mod c)"
proof (cases "Suc (k mod c) = c")
  case True
  then have "Suc k mod c = 0" "Suc k div c = Suc (k div c)"
    using assms by (simp_all add: mod_Suc div_Suc)
  with True show ?thesis
    by (auto simp: next_rung_def rung_def Let_def)
next
  case False
  have "k mod c < c"
    using assms by simp
  with False have "Suc k mod c = Suc (k mod c)" "Suc k div c = k div c" "Suc (k mod c) < c"
    by (simp_all add: mod_Suc div_Suc)
  then show ?thesis
    by (simp add: next_rung_def rung_def Let_def)
qed

lemma update_at_rung:
  assumes "sched_update s t values = (s', d)" "ladder_ok (sd_cfg s)" "if de_state d = sd_state s then at_rung s (de_state d) k else k = 0"
  shows "de_interval d = rung (sc_ladder (sd_cfg s) (de_state d)) (sc_confirm (sd_cfg s) (de_state d)) k \<and> at_rung s' (de_state d) (Suc k)"
proof -
  have "sd_cfg s' = sd_cfg s"
    using assms(1) by (elim sched_update_parts)
  with sched_update_ladder [OF assms(1)] next_rung_step [of "sc_confirm (sd_cfg s) (de_state d)" k "sc_ladder (sd_cfg s) (de_state d)"] assms(2, 3)
  show ?thesis
    by (auto simp: at_rung_def ladder_ok_def split: if_splits)
qed

lemma run_at_rung:
  assumes "sched_run s samples = (s', ds)" "ladder_ok (sd_cfg s)" "\<forall>d \<in> set ds. de_state d = sd_state s" "at_rung s (sd_state s) k"
  shows "map de_interval ds = map (\<lambda>i. rung (sc_ladder (sd_cfg s) (sd_state s)) (sc_confirm (sd_cfg s) (sd_state s)) (k + i)) [0..<length ds]"
  using assms
proof (induction samples arbitrary: s ds k)
  case (Cons x samples)
  obtain t vs where x: "x = (t, vs)" by force
  obtain s1 d where u: "sched_update s t vs = (s1, d)" by (metis surj_pair)
  obtain ds' where r: "sched_run s1 samples = (s', ds')" and ds: "ds = d # ds'"
    using Cons.prems(1) x u by (auto split: prod.splits)
  have st: "de_state d = sd_state s" "sd_state s1 = sd_state s" "sd_cfg s1 = sd_cfg s"
    using Cons.prems(3) ds u by (auto elim: sched_update_parts)
  have one: "de_interval d = rung (sc_ladder (sd_cfg s) (sd_state s)) (sc_confirm (sd_cfg s) (sd_state s)) k" "at_rung s1 (sd_state s) (Suc k)"
    using update_at_rung [OF u Cons.prems(2), of k] Cons.prems(4) st(1) by auto
  have "map de_interval ds' = map (\<lambda>i. rung (sc_ladder (sd_cfg s) (sd_state s)) (sc_confirm (sd_cfg s) (sd_state s)) (Suc k + i)) [0..<length ds']"
    using Cons.IH [OF r] Cons.prems(2, 3) ds one(2) st by simp
  with one(1) show ?case
    by (simp add: ds upt_conv_Cons map_Suc_upt [symmetric] del: upt_Suc)
qed simp

text \<open>
  C38: while the state stays, the interval climbs the ladder in closed form. From a fresh scheduler in its
  first state, or from the sample that changed the state, the k-th decision (from zero) takes the
  rung k div confirmations, and from then on the last rung.
\<close>

theorem interval_follows_ladder:
  assumes "sched_update s t values = (s1, d)" "sched_run s1 samples = (s2, ds)" "ladder_ok (sd_cfg s)"
    and "s = scheduler_init c t0 \<or> de_state d \<noteq> sd_state s" "\<forall>e \<in> set ds. de_state e = de_state d"
  shows "map de_interval (d # ds) =
    map (rung (sc_ladder (sd_cfg s) (de_state d)) (sc_confirm (sd_cfg s) (de_state d))) [0..<Suc (length ds)]"
proof -
  have "if de_state d = sd_state s then at_rung s (de_state d) 0 else 0 = (0 :: nat)"
    using assms(4) by (auto simp: at_rung_def scheduler_init_def)
  then have one: "de_interval d = rung (sc_ladder (sd_cfg s) (de_state d)) (sc_confirm (sd_cfg s) (de_state d)) 0" "at_rung s1 (de_state d) (Suc 0)"
    using update_at_rung [OF assms(1, 3), of 0] by blast+
  have st: "sd_state s1 = de_state d" "sd_cfg s1 = sd_cfg s"
    using assms(1) by (auto elim: sched_update_parts)
  have "map de_interval ds = map (\<lambda>i. rung (sc_ladder (sd_cfg s) (de_state d)) (sc_confirm (sd_cfg s) (de_state d)) (Suc 0 + i)) [0..<length ds]"
    using run_at_rung [OF assms(2)] assms(3, 5) one(2) st by simp
  with one(1) show ?thesis
    by (simp add: upt_conv_Cons map_Suc_upt [symmetric] del: upt_Suc)
qed

section \<open>The event is debounced\<close>

definition burst :: "real \<Rightarrow> sched_decision list \<Rightarrow> sched_decision list" where
  "burst threshold ds = rev (takeWhile (\<lambda>d. threshold < de_score d) (rev ds))"

lemma burst_snoc: "burst th (ds @ [d]) = (if th < de_score d then burst th ds @ [d] else [])"
  by (simp add: burst_def)

lemma update_event_parts:
  "ay_potential (update_event a t x) = (if an_event_threshold (ay_cfg a) < x then Some (case ay_potential a of None \<Rightarrow> t | Some u \<Rightarrow> u) else None)"
  "ay_event (update_event a t x) = (an_event_threshold (ay_cfg a) < x \<and> an_event_duration (ay_cfg a) \<le> t - (case ay_potential a of None \<Rightarrow> t | Some u \<Rightarrow> u))"
  "ay_cfg (update_event a t x) = ay_cfg a" "ay_hist (update_event a t x) = ay_hist a"
  by (simp_all add: update_event_def Let_def)

lemma channel_score_frame:
  "channel_score a cf t v = (a', x) \<Longrightarrow> ay_cfg a' = ay_cfg a \<and> ay_potential a' = ay_potential a"
  by (auto simp: channel_score_def update_ema_def Let_def split: option.splits prod.splits)

lemma scan_frame: "scan_channels a cfs t vs o1 = (a', o2, rs) \<Longrightarrow> ay_cfg a' = ay_cfg a \<and> ay_potential a' = ay_potential a"
proof (induction cfs arbitrary: a a' o1 o2 rs)
  case (Cons cf cfs)
  show ?case
  proof (cases "if ac_use cf then map_of vs (ac_name cf) else None")
    case None
    then show ?thesis
      using Cons.prems Cons.IH [of a] by (auto split: prod.splits)
  next
    case (Some v)
    obtain a1 x where c: "channel_score a cf t v = (a1, x)" by (metis surj_pair)
    then show ?thesis
      using Some Cons.prems Cons.IH [of a1] channel_score_frame [OF c] by (auto simp: Let_def split: prod.splits)
  qed
qed simp

lemma analyzer_event:
  assumes "analyzer_update a t vs = (a', x, rs, e)"
  shows "ay_cfg a' = ay_cfg a" "e = ay_event a'"
    "ay_potential a' = (if an_event_threshold (ay_cfg a) < x then Some (case ay_potential a of None \<Rightarrow> t | Some u \<Rightarrow> u) else None)"
    "e = (an_event_threshold (ay_cfg a) < x \<and> an_event_duration (ay_cfg a) \<le> t - (case ay_potential a of None \<Rightarrow> t | Some u \<Rightarrow> u))"
  using assms scan_frame by (auto simp: analyzer_update_def Let_def update_event_parts split: prod.splits; fastforce)+

lemma run_burst:
  assumes "sched_run (scheduler_init c t0) samples = (s, ds)"
  shows "sd_cfg s = c \<and> ay_cfg (sd_analyzer s) = analyzer_config c \<and>
    ay_potential (sd_analyzer s) = (case burst (sc_event_threshold c) ds of [] \<Rightarrow> None | b # bs \<Rightarrow> Some (de_timestamp b)) \<and>
    (ds \<noteq> [] \<longrightarrow> de_event (last ds) = (burst (sc_event_threshold c) ds \<noteq> [] \<and>
       sc_event_duration c \<le> de_timestamp (last ds) - de_timestamp (hd (burst (sc_event_threshold c) ds))))"
  using assms
proof (induction samples arbitrary: s ds rule: rev_induct)
  case Nil
  then have "s = scheduler_init c t0" "ds = []" by simp_all
  then show ?case by (simp add: scheduler_init_def analyzer_init_def burst_def)
next
  case (snoc x samples)
  obtain t vs where x: "x = (t, vs)" by force
  obtain s1 ds1 where r: "sched_run (scheduler_init c t0) samples = (s1, ds1)" by (metis surj_pair)
  obtain s2 d where u: "sched_update s1 t vs = (s2, d)" by (metis surj_pair)
  have s: "s = s2" "ds = ds1 @ [d]"
    using snoc.prems r u x by (auto simp: sched_run_append Let_def)
  obtain a score scores event where p: "analyzer_update (sd_analyzer s1) t vs = (a, score, scores, event)"
    "sd_analyzer s2 = a" "de_timestamp d = t" "de_score d = score" "de_event d = event" "sd_cfg s2 = sd_cfg s1"
    using u by (elim sched_update_parts)
  note i = snoc.IH [OF r] and e = analyzer_event [OF p(1)]
  have th: "an_event_threshold (ay_cfg (sd_analyzer s1)) = sc_event_threshold c" "an_event_duration (ay_cfg (sd_analyzer s1)) = sc_event_duration c"
    using i by (simp_all add: analyzer_config_def)
  show ?case
    using i e p(2-6) unfolding th s by (auto simp: burst_snoc split: list.splits)
qed

text \<open>
  C39: an event is a change that lasted. After any run from a fresh scheduler, the event is active exactly when
  the scores of the latest samples, back to some sample, are all above the event threshold and that
  unbroken burst has lasted for the configured duration.
\<close>

theorem event_is_sustained:
  assumes "sched_run (scheduler_init c t0) samples = (s, ds)" "ds \<noteq> []"
  shows "de_event (last ds) \<longleftrightarrow> burst (sc_event_threshold c) ds \<noteq> [] \<and>
    sc_event_duration c \<le> de_timestamp (last ds) - de_timestamp (hd (burst (sc_event_threshold c) ds))"
  using run_burst [OF assms(1)] assms(2) by blast

section \<open>Bounds\<close>

lemma rung_mem: "l \<noteq> [] \<Longrightarrow> next_rung p k l c = (x, p', k') \<Longrightarrow> x \<in> set l"
  by (auto simp: next_rung_def Let_def split: if_splits intro!: nth_mem)
    (metis Suc_pred length_greater_0_conv less_Suc_eq_le min.cobounded2)+

lemma channel_score_hist:
  "channel_score a cf t v = (a', x) \<Longrightarrow> \<forall>n. length (ay_hist a n) \<le> an_capacity (ay_cfg a) \<Longrightarrow> length (ay_hist a' n) \<le> an_capacity (ay_cfg a)"
  using history_bounded [of "an_capacity (ay_cfg a)" "ay_hist a (ac_name cf)" "(t, v)"]
  by (auto simp: channel_score_def update_ema_def prune_def Let_def split: option.splits prod.splits
      intro: order_trans [OF length_dropWhile_le])

lemma scan_hist:
  "scan_channels a cfs t vs o1 = (a', o2, rs) \<Longrightarrow> \<forall>n. length (ay_hist a n) \<le> an_capacity (ay_cfg a) \<Longrightarrow>
   length (ay_hist a' n) \<le> an_capacity (ay_cfg a)"
proof (induction cfs arbitrary: a a' o1 o2 rs)
  case (Cons cf cfs)
  show ?case
  proof (cases "if ac_use cf then map_of vs (ac_name cf) else None")
    case None
    then show ?thesis
      using Cons.prems Cons.IH [of a] by (auto split: prod.splits)
  next
    case (Some v)
    obtain a1 x where c: "channel_score a cf t v = (a1, x)" by (metis surj_pair)
    then show ?thesis
      using Some Cons.prems Cons.IH [of a1] channel_score_frame [OF c] channel_score_hist [OF c] by (auto simp: Let_def split: prod.splits)
  qed
qed simp

lemma run_bounds:
  assumes "sched_run (scheduler_init c t0) samples = (s, ds)" "ladder_ok c"
  shows "sd_cfg s = c \<and> ay_cfg (sd_analyzer s) = analyzer_config c \<and>
    (\<forall>d \<in> set ds. de_interval d \<in> set (sc_ladder c (de_state d))) \<and> (\<forall>n. length (ay_hist (sd_analyzer s) n) \<le> an_capacity (analyzer_config c))"
  using assms(1)
proof (induction samples arbitrary: s ds rule: rev_induct)
  case Nil
  then have "s = scheduler_init c t0" "ds = []" by simp_all
  then show ?case by (simp add: scheduler_init_def analyzer_init_def)
next
  case (snoc x samples)
  obtain t vs where x: "x = (t, vs)" by force
  obtain s1 ds1 where r: "sched_run (scheduler_init c t0) samples = (s1, ds1)" by (metis surj_pair)
  obtain s2 d where u: "sched_update s1 t vs = (s2, d)" by (metis surj_pair)
  have s: "s = s2" "ds = ds1 @ [d]"
    using snoc.prems r u x by (auto simp: sched_run_append Let_def)
  obtain a score scores event where p: "analyzer_update (sd_analyzer s1) t vs = (a, score, scores, event)"
    "sd_analyzer s2 = a" "sd_cfg s2 = sd_cfg s1"
    using u by (elim sched_update_parts)
  note i = snoc.IH [OF r] and e = analyzer_event [OF p(1)]
  obtain a1 o1 rs where sc: "scan_channels (sd_analyzer s1) (an_channels (ay_cfg (sd_analyzer s1))) t vs 0 = (a1, o1, rs)"
    by (metis surj_pair)
  have "ay_hist a = ay_hist a1"
    using p(1) sc by (auto simp: analyzer_update_def Let_def update_event_parts)
  moreover have "de_interval d \<in> set (sc_ladder c (de_state d))"
    using rung_mem [OF _ sched_update_ladder [OF u]] i assms(2) by (simp add: ladder_ok_def)
  ultimately show ?case
    using i e(1) p scan_hist [OF sc] by (simp add: s)
qed

text \<open>
  the sampling interval stays within its configured bounds, and memory too. In every run from a
  fresh scheduler with a validated configuration each interval is a rung of the ladder of the state just
  decided, between the smallest and the largest interval, and no channel's history is longer than
  64 samples.
\<close>

theorem interval_within_bounds:
  assumes "sched_run (scheduler_init c t0) samples = (s, ds)" "ladder_ok c" "d \<in> set ds"
  shows "de_interval d \<in> set (sc_ladder c (de_state d)) \<and> sc_min c \<le> de_interval d \<and> de_interval d \<le> sc_max c \<and>
    length (ay_hist (sd_analyzer s) n) \<le> 64"
proof -
  have "an_capacity (analyzer_config c) \<le> 64"
    by (simp add: analyzer_config_def)
  with run_bounds [OF assms(1, 2)] assms(2, 3) show ?thesis
    unfolding ladder_ok_def using order_trans by blast
qed

section \<open>A short run\<close>

definition demo_sched :: sched_cfg where
  "demo_sched = \<lparr>sc_min = 5, sc_default = 20, sc_max = 60, sc_stable = 2, sc_active = 6, sc_hysteresis = 1 / 5,
     sc_ladder = (\<lambda>st. case st of StableState \<Rightarrow> [20, 40, 60] | ActiveState \<Rightarrow> [15, 10, 5] | AlertState \<Rightarrow> [5]),
     sc_confirm = (\<lambda>st. case st of StableState \<Rightarrow> 3 | ActiveState \<Rightarrow> 2 | AlertState \<Rightarrow> 1),
     sc_first = True, sc_on_event = True, sc_on_state = True, sc_on_interval = True, sc_heartbeat = 60, sc_delta = 2,
     sc_channels = [\<lparr>ac_name = ''temperature'', ac_noise = 1 / 2, ac_use = True\<rparr>],
     sc_variety = 120, sc_roc = 40, sc_tau = 120, sc_event_threshold = 6, sc_event_duration = 10\<rparr>"

lemma demo_sched_ok: "ladder_ok demo_sched"
  by (auto simp: ladder_ok_def demo_sched_def split: sched_state.split)

lemma first_score: "\<exists>a. channel_score (analyzer_init cfg) cf t v = (a, 0)"
proof -
  let ?h = "prune cfg t (bounded_append (an_capacity cfg) [] (t, v))"
  have "length ?h \<le> 1"
    by (auto simp: prune_def bounded_append_def last_n_def intro: order_trans [OF length_dropWhile_le])
  then have "?h = [] \<or> (\<exists>p. ?h = [p])"
    by (cases ?h) auto
  then have "history_std ?h = 0" "history_roc cfg t ?h = 0"
    by (auto simp: history_std_def history_roc_def roc_terms_def Let_def)
  then show ?thesis
    by (simp add: channel_score_def update_ema_def analyzer_init_def Let_def)
qed

lemma demo_score:
  "\<exists>a rs e. analyzer_update (analyzer_init (analyzer_config demo_sched)) 0 [(''temperature'', 20)] = (a, 0, rs, e)"
proof -
  obtain a where "channel_score (analyzer_init (analyzer_config demo_sched)) \<lparr>ac_name = ''temperature'', ac_noise = 1 / 2, ac_use = True\<rparr> 0 20 = (a, 0)"
    using first_score by blast
  moreover have "an_channels (ay_cfg (analyzer_init (analyzer_config demo_sched))) = [\<lparr>ac_name = ''temperature'', ac_noise = 1 / 2, ac_use = True\<rparr>]"
    by (simp add: analyzer_init_def analyzer_config_def demo_sched_def)
  ultimately show ?thesis
    by (simp add: analyzer_update_def Let_def)
qed

lemma demo_first: "\<exists>s d. sched_update (scheduler_init demo_sched 0) 0 [(''temperature'', 20)] = (s, d) \<and> de_state d = StableState"
proof -
  obtain s d where u: "sched_update (scheduler_init demo_sched 0) 0 [(''temperature'', 20)] = (s, d)" by (metis surj_pair)
  obtain score where "de_state d = transition StableState score (cfg_bounds demo_sched)" "score = 0"
    using u demo_score by (elim sched_update_parts) (auto simp: scheduler_init_def)
  then show ?thesis
    using u by (simp add: transition_def cfg_bounds_def hysteresis_bounds_def demo_sched_def)
qed

theorem interval_follows_ladder_witness:
  "\<exists>s d. sched_update (scheduler_init demo_sched 0) 0 [(''temperature'', 20)] = (s, d) \<and> map de_interval [d] = [20]"
proof -
  obtain s d where u: "sched_update (scheduler_init demo_sched 0) 0 [(''temperature'', 20)] = (s, d)" "de_state d = StableState"
    using demo_first by blast
  have "ladder_ok (sd_cfg (scheduler_init demo_sched 0))"
    using demo_sched_ok by (simp add: scheduler_init_def)
  with interval_follows_ladder [OF u(1), of "[]" s "[]" demo_sched 0] u show ?thesis
    by (auto simp: rung_def scheduler_init_def demo_sched_def)
qed

theorem interval_within_bounds_witness:
  "\<exists>s d. sched_run (scheduler_init demo_sched 0) [(0, [(''temperature'', 20)])] = (s, [d]) \<and> de_interval d \<le> sc_max demo_sched"
proof -
  obtain s d where "sched_update (scheduler_init demo_sched 0) 0 [(''temperature'', 20)] = (s, d)"
    by (metis surj_pair)
  then have "sched_run (scheduler_init demo_sched 0) [(0, [(''temperature'', 20)])] = (s, [d])" by simp
  with interval_within_bounds [OF this demo_sched_ok, of d] show ?thesis by simp
qed

theorem event_is_sustained_witness:
  "\<exists>s d1 d2. sched_run (scheduler_init demo_sched 0) [(0, [(''temperature'', 20)]), (1, [(''temperature'', 20)])] = (s, [d1, d2]) \<and>
     (de_event d2 \<longrightarrow> burst 6 [d1, d2] \<noteq> [])"
proof -
  obtain s1 d1 where 1: "sched_update (scheduler_init demo_sched 0) 0 [(''temperature'', 20)] = (s1, d1)" by (metis surj_pair)
  obtain s2 d2 where 2: "sched_update s1 1 [(''temperature'', 20)] = (s2, d2)" by (metis surj_pair)
  have r: "sched_run (scheduler_init demo_sched 0) [(0, [(''temperature'', 20)]), (1, [(''temperature'', 20)])] = (s2, [d1, d2])"
    using 1 2 by simp
  from event_is_sustained [OF r] r show ?thesis
    by (auto simp: demo_sched_def)
qed

end
