(* ===== verification/Sense.thy ===== *)
theory Sense
  imports Scheduler Interfaces
begin

text \<open>
  The trust-aware sampling of a sensor node: \<^verbatim>\<open>sensor_node/control_relevance.py\<close>,
  \<^verbatim>\<open>sensor_node/fault_notifier.py\<close>, \<^verbatim>\<open>sensor_node/adaptive_sense.py\<close> and
  \<^verbatim>\<open>sensor_node/telemetry.py\<close>. Trust is the record that theory Trust computes; the reduced
  dictionaries the adapter also accepts are not modelled. The trust update has raised for an int beyond the
  float range before these functions see it, so \<^const>\<open>number\<close> stands for their number test.
\<close>

section \<open>Control relevance\<close>

definition THRESHOLDS :: "(string \<times> string) list" where
  [model_defs]: "THRESHOLDS = [(''soil_moisture'', ''soil_moisture_threshold''), (''temperature'', ''temperature_threshold'')]"

record relevance =
  rg_margins :: dict
  rg_thresholds :: "(string \<times> real) list"
  rg_reported :: "(string \<times> real) list"

definition set_policy :: "relevance \<Rightarrow> dict \<Rightarrow> relevance \<times> py_error option" where
  "set_policy g policy =
     (if \<exists>(f, k) \<in> set THRESHOLDS. \<not> dhas policy k then (g, Some KeyErr)
      else if \<exists>(f, k) \<in> set THRESHOLDS. \<not> number (dgetn policy k) then (g, Some (ValueErr ''invalid local relevance thresholds''))
      else if \<exists>(n, v) \<in> set (rg_margins g). \<not> number v \<or> num_of v < 0 then (g, Some (ValueErr ''invalid threshold margin''))
      else (g\<lparr>rg_thresholds := map (\<lambda>(f, k). (f, num_of (dgetn policy k))) THRESHOLDS\<rparr>, None))"

definition relevance_init :: "dict \<Rightarrow> dict \<Rightarrow> py_error + relevance" where
  "relevance_init margins policy =
     (case set_policy \<lparr>rg_margins = margins, rg_thresholds = [], rg_reported = []\<rparr> policy of
        (g, None) \<Rightarrow> Inr g | (g, Some e) \<Rightarrow> Inl e)"

definition relevant_channels :: "trust \<Rightarrow> string list" where
  "relevant_channels t =
     (if tr_channels t \<noteq> [] then map fst (filter (\<lambda>(n, r). cr_state r = HEALTHY \<and> cr_valid r) (tr_channels t))
      else if tr_state t = HEALTHY \<and> tr_usable t then map fst THRESHOLDS else [])"

definition crossed :: "string \<Rightarrow> real \<Rightarrow> real \<Rightarrow> real \<Rightarrow> bool" where
  "crossed field threshold previous current =
     (if field = ''soil_moisture'' then (previous < threshold) \<noteq> (current < threshold)
      else (threshold < previous) \<noteq> (threshold < current))"

definition margin_entry :: "real \<Rightarrow> real \<Rightarrow> real \<Rightarrow> real \<Rightarrow> bool" where
  "margin_entry margin threshold previous current \<longleftrightarrow> 0 < margin \<and> margin < \<bar>previous - threshold\<bar> \<and> \<bar>current - threshold\<bar> \<le> margin"

definition add_reason :: "string \<Rightarrow> bool \<Rightarrow> string list \<Rightarrow> string list" where
  "add_reason r b rs = (if b \<and> r \<notin> set rs then rs @ [r] else rs)"

definition field_reasons :: "relevance \<Rightarrow> dict \<Rightarrow> string list \<Rightarrow> string list \<Rightarrow> string \<times> real \<Rightarrow> string list" where
  "field_reasons g sample trusted rs = (\<lambda>(field, threshold).
     (case map_of (rg_reported g) field of
        None \<Rightarrow> rs
      | Some previous \<Rightarrow>
          if field \<notin> set trusted \<or> \<not> number (dgetn sample field) then rs
          else let current = num_of (dgetn sample field); margin = num_of (dgetd (rg_margins g) field (PInt 0))
               in add_reason ''CONTROL_MARGIN_ENTRY'' (margin_entry margin threshold previous current)
                    (add_reason ''CONTROL_THRESHOLD_CROSSING'' (crossed field threshold previous current) rs)))"

definition evaluate_relevance :: "relevance \<Rightarrow> dict \<Rightarrow> string list \<Rightarrow> string list" where
  "evaluate_relevance g sample trusted = foldl (field_reasons g sample trusted) [] (rg_thresholds g)"

definition relevance_reported :: "relevance \<Rightarrow> dict \<Rightarrow> string list \<Rightarrow> relevance" where
  "relevance_reported g sample trusted =
     g\<lparr>rg_reported := map (\<lambda>f. (f, num_of (dgetn sample f))) (filter (\<lambda>f. f \<in> set trusted \<and> number (dgetn sample f)) (map fst THRESHOLDS))\<rparr>"

section \<open>Fault notices\<close>

text \<open>The signature is the value whose JSON text the source compares.\<close>

record notifier =
  nt_reminder :: real
  nt_signature :: "pyval option"
  nt_last :: "real option"
  nt_suspect :: bool

record notice =
  no_alert :: string
  no_signature :: pyval
  no_kind :: string
  no_message :: string

definition notifier_init :: "real \<Rightarrow> py_error + notifier" where
  "notifier_init reminder =
     (if reminder \<le> 0 then Inl (ValueErr ''reminder interval must be positive'')
      else Inr \<lparr>nt_reminder = reminder, nt_signature = None, nt_last = None, nt_suspect = False\<rparr>)"

definition channel_signature :: "channel_result \<Rightarrow> pyval" where
  "channel_signature r =
     PDict [(''state'', PStr (health_state_name (cr_state r))), (''valid'', PBool (cr_valid r)),
       (''fault_flags'', PList (map PStr (sort (map flag_name (cr_flags r)))))]"

definition fault_signature :: "trust \<Rightarrow> pyval" where
  "fault_signature t =
     canon (PDict [(''state'', PStr (health_state_name (tr_state t))), (''channels'', PDict (map (\<lambda>(n, r). (n, channel_signature r)) (tr_channels t)))])"

definition suspect :: "trust \<Rightarrow> bool" where
  "suspect t \<longleftrightarrow> tr_state t \<noteq> HEALTHY \<or> \<not> tr_usable t"

definition notifier_update :: "notifier \<Rightarrow> trust \<Rightarrow> real \<Rightarrow> notifier \<times> notice option" where
  "notifier_update n t now =
     (let sus = suspect t; sig = fault_signature t; changed = (nt_signature n \<noteq> Some sig);
          overdue = (case nt_last n of None \<Rightarrow> True | Some l \<Rightarrow> nt_reminder n \<le> now - l);
          emit = (sus \<and> (changed \<or> overdue) \<or> \<not> sus \<and> nt_suspect n);
          n1 = n\<lparr>nt_signature := Some sig, nt_suspect := sus\<rparr>
      in if \<not> emit then (n1, None)
         else (n1\<lparr>nt_last := Some now\<rparr>,
               Some \<lparr>no_alert = (if \<not> sus then ''SENSOR_RECOVERED'' else if tr_state t = FAULT then ''SENSOR_FAULT'' else ''SENSOR_DEGRADED''),
                 no_signature = sig,
                 no_kind = (if nt_suspect n \<and> \<not> sus then ''recovery'' else if changed then ''transition'' else ''reminder''),
                 no_message = (if \<not> sus then ''sensor channels recovered'' else ''sensor quality changed or remains suspect'')\<rparr>))"

section \<open>The adapter\<close>

definition SAMPLE_INTERVAL_SLOW :: real where [model_defs]: "SAMPLE_INTERVAL_SLOW = 5"
definition SAMPLE_INTERVAL_FAST :: real where [model_defs]: "SAMPLE_INTERVAL_FAST = 2"

record sense_settings =
  se_sched :: sched_cfg
  se_fault_interval :: real
  se_degraded_interval :: real
  se_reminder :: real
  se_margins :: dict

definition scaled_settings :: "sense_settings \<Rightarrow> real option \<Rightarrow> real option \<Rightarrow> py_error + sense_settings" where
  "scaled_settings s slow0 fast0 =
     (if slow0 = None \<and> fast0 = None then Inr s
      else let slow = (case slow0 of None \<Rightarrow> SAMPLE_INTERVAL_SLOW | Some x \<Rightarrow> x); fast = (case fast0 of None \<Rightarrow> SAMPLE_INTERVAL_FAST | Some x \<Rightarrow> x)
           in if \<not> (0 < fast \<and> fast \<le> slow) then Inl (ValueErr ''require 0 < fast <= slow'')
              else Inr (s\<lparr>se_sched := (se_sched s)\<lparr>sc_min := fast, sc_default := slow, sc_max := slow * 3,
                       sc_ladder := (\<lambda>st. if st = StableState then [slow, slow * 2, slow * 3] else [fast])\<rparr>,
                     se_fault_interval := slow, se_degraded_interval := slow\<rparr>))"

record sense =
  as_settings :: sense_settings
  as_core :: scheduler
  as_time :: "real option"
  as_sequence :: "int option"
  as_untrusted :: bool
  as_health :: "health_state option"
  as_notifier :: notifier
  as_relevance :: relevance

definition sense_init :: "sense_settings \<Rightarrow> real option \<Rightarrow> real option \<Rightarrow> dict \<Rightarrow> py_error + sense" where
  "sense_init settings slow fast policy =
     (case scaled_settings settings slow fast of
        Inl e \<Rightarrow> Inl e
      | Inr s \<Rightarrow>
          (case (notifier_init (se_reminder s), relevance_init (se_margins s) policy) of
             (Inl e, _) \<Rightarrow> Inl e
           | (_, Inl e) \<Rightarrow> Inl e
           | (Inr n, Inr g) \<Rightarrow> Inr \<lparr>as_settings = s, as_core = scheduler_init (se_sched s) 0, as_time = None, as_sequence = None,
               as_untrusted = False, as_health = None, as_notifier = n, as_relevance = g\<rparr>))"

definition healthy :: "trust \<Rightarrow> bool" where
  "healthy t \<longleftrightarrow> tr_state t = HEALTHY \<and> tr_usable t"

text \<open>The confirmation of a report moves the baseline, never backwards in time or sequence.\<close>

definition mark_reported :: "sense \<Rightarrow> dict \<Rightarrow> trust \<Rightarrow> real option \<Rightarrow> int option \<Rightarrow> sense \<times> (py_error + bool)" where
  "mark_reported a sample t timestamp sequence =
     (let now = (case timestamp of None \<Rightarrow> sd_now (as_core a) | Some x \<Rightarrow> x)
      in if (case sequence of None \<Rightarrow> False | Some i \<Rightarrow> \<not> (1 \<le> i \<and> i \<le> 0xffffffff))
         then (a, Inl (ValueErr ''invalid confirmed sample identity/time''))
         else if (case as_time a of None \<Rightarrow> False | Some x \<Rightarrow> now < x) then (a, Inr False)
         else if (case (sequence, as_sequence a) of (Some i, Some j) \<Rightarrow> i \<le> j | _ \<Rightarrow> False) then (a, Inr False)
         else let a1 = a\<lparr>as_time := Some now, as_sequence := (case sequence of None \<Rightarrow> as_sequence a | Some i \<Rightarrow> Some i),
                         as_relevance := relevance_reported (as_relevance a) sample (relevant_channels t)\<rparr>
              in (if healthy t
                  then a1\<lparr>as_core := record_reported (as_core a1) now (map (\<lambda>(k, v). (k, num_of v)) (filter (\<lambda>(k, v). number v) sample))\<rparr>
                  else a1, Inr True))"

record sense_decision =
  dn_state :: string
  dn_interval :: real
  dn_score :: "real option"
  dn_event :: bool
  dn_upload :: bool
  dn_relevant :: bool
  dn_reasons :: "string list"
  dn_health :: health_state
  dn_core :: "sched_decision option"

definition sample_values :: "sense \<Rightarrow> dict \<Rightarrow> (string \<times> real) list" where
  "sample_values a sample =
     map (\<lambda>(k, v). (k, num_of v)) (filter (\<lambda>(k, v). k \<in> ac_name ` set (sc_channels (se_sched (as_settings a))) \<and> number v) sample)"

definition baseline :: "scheduler \<Rightarrow> real option \<times> (string \<times> real) list" where
  "baseline s = (sd_last_upload_t s, sd_last_upload s)"

definition with_baseline :: "scheduler \<Rightarrow> real option \<times> (string \<times> real) list \<Rightarrow> scheduler" where
  "with_baseline s b = s\<lparr>sd_last_upload_t := fst b, sd_last_upload := snd b\<rparr>"

definition untrusted_decision :: "sense \<Rightarrow> trust \<Rightarrow> notice option \<Rightarrow> string list \<Rightarrow> sense_decision" where
  "untrusted_decision a t notice reasons =
     (let degraded = (tr_state t = DEGRADED)
      in \<lparr>dn_state = (if degraded then ''ACTIVE'' else ''STABLE''),
          dn_interval = (if degraded then se_degraded_interval (as_settings a) else se_fault_interval (as_settings a)),
          dn_score = None, dn_event = False, dn_upload = (notice \<noteq> None \<or> reasons \<noteq> []), dn_relevant = (reasons \<noteq> []),
          dn_reasons = (if notice \<noteq> None then [''SENSOR_FAULT''] else []) @ reasons, dn_health = tr_state t, dn_core = None\<rparr>)"

definition sense_update :: "sense \<Rightarrow> dict \<Rightarrow> trust \<Rightarrow> real \<Rightarrow> sense \<times> sense_decision" where
  "sense_update a sample t now =
     (let changed = (as_health a \<noteq> Some (tr_state t));
          (n, notice) = notifier_update (as_notifier a) t now;
          reasons = evaluate_relevance (as_relevance a) sample (relevant_channels t);
          a1 = a\<lparr>as_notifier := n, as_health := Some (tr_state t)\<rparr>
      in if \<not> healthy t then (a1\<lparr>as_untrusted := True\<rparr>, untrusted_decision a1 t notice reasons)
         else let b = baseline (as_core a1);
                  core = (if as_untrusted a1 then with_baseline (scheduler_init (se_sched (as_settings a1)) now) b else as_core a1);
                  (core', d) = sched_update core now (sample_values a1 sample);
                  first = (fst b = None \<and> sc_first (sd_cfg core'));
                  why = (if first then add_reason ''FIRST_SAMPLE'' True (de_reasons d) else de_reasons d) @ reasons @
                        (if changed then [''HEALTH_CHANGE''] else []) @ (if notice \<noteq> None then [''SENSOR_RECOVERY''] else [])
              in (a1\<lparr>as_core := with_baseline core' b, as_untrusted := False\<rparr>,
                  \<lparr>dn_state = sched_state_name (de_state d), dn_interval = de_interval d, dn_score = Some (de_score d), dn_event = de_event d,
                   dn_upload = (de_upload d \<or> first \<or> changed \<or> notice \<noteq> None \<or> reasons \<noteq> []), dn_relevant = (reasons \<noteq> []),
                   dn_reasons = why, dn_health = tr_state t, dn_core = Some d\<rparr>))"

section \<open>The payload of a report\<close>

definition opt_real :: "real option \<Rightarrow> pyval" where
  "opt_real x = (case x of None \<Rightarrow> PNone | Some r \<Rightarrow> PFloat (Fin r))"

definition reals_dict :: "(string \<times> real) list \<Rightarrow> pyval" where
  "reals_dict d = PDict (map (\<lambda>(k, v). (k, PFloat (Fin v))) d)"

definition schedule_dict :: "sense_decision \<Rightarrow> dict" where
  "schedule_dict d =
     (case dn_core d of
        Some c \<Rightarrow> [(''timestamp'', PFloat (Fin (de_timestamp c))), (''values'', reals_dict (de_values c)), (''state'', PStr (dn_state d)),
          (''interval_s'', PFloat (Fin (dn_interval d))), (''score'', opt_real (dn_score d)), (''detected_event'', PBool (dn_event d)),
          (''upload_requested'', PBool (dn_upload d)), (''channel_scores'', reals_dict (de_scores c)),
          (''upload_reasons'', PList (map PStr (dn_reasons d))), (''control_relevant_change'', PBool (dn_relevant d)),
          (''health_state'', PStr (health_state_name (dn_health d)))]
      | None \<Rightarrow> [(''state'', PStr (dn_state d)), (''interval_s'', PFloat (Fin (dn_interval d))), (''score'', PNone), (''detected_event'', PBool False),
          (''upload_requested'', PBool (dn_upload d)), (''health_state'', PStr (health_state_name (dn_health d))),
          (''reason'', PStr ''untrusted_measurement''), (''control_relevant_change'', PBool (dn_relevant d)),
          (''upload_reasons'', PList (map PStr (dn_reasons d)))])"

definition result_dict :: "channel_result \<Rightarrow> pyval" where
  "result_dict r = PDict [(''health_score'', PInt (cr_score r)), (''state'', PStr (health_state_name (cr_state r))),
     (''fault_flags'', PList (map (PStr \<circ> flag_name) (cr_flags r))), (''valid'', PBool (cr_valid r))]"

definition sensor_payload :: "dict \<Rightarrow> trust \<Rightarrow> sense_decision \<Rightarrow> string \<Rightarrow> int \<Rightarrow> dict" where
  "sensor_payload reading t d boot sequence =
     [(''data'', PDict (map (\<lambda>(k, v). (k, if number v then v else PNone)) reading)), (''health_state'', PStr (health_state_name (tr_state t))),
      (''boot_id'', PStr boot), (''sample_seq'', PInt sequence), (''health_score'', PInt (tr_score t)),
      (''fault_flags'', PList (map (PStr \<circ> flag_name) (tr_flags t))), (''health'', PDict (map (\<lambda>(n, r). (n, result_dict r)) (tr_channels t))),
      (''sampling'', PDict (schedule_dict d)), (''usable_for_control'', PBool (tr_usable t))]"

section \<open>Notices are paced\<close>

fun notice_times :: "notifier \<Rightarrow> (trust \<times> real) list \<Rightarrow> real list" where
  "notice_times n [] = []"
| "notice_times n ((t, now) # xs) =
     (case notifier_update n t now of (n', None) \<Rightarrow> notice_times n' xs | (n', Some _) \<Rightarrow> now # notice_times n' xs)"

lemma notices_after:
  assumes "\<forall>(t, now) \<in> set xs. suspect t \<and> fault_signature t = sig" "nt_signature n = Some sig" "nt_last n = Some l" "0 < nt_reminder n"
  shows "sorted_wrt (\<lambda>x y. x + nt_reminder n \<le> y) (l # notice_times n xs)"
  using assms
proof (induction xs arbitrary: n l)
  case (Cons x xs)
  obtain t now where x: "x = (t, now)" by force
  have p: "suspect t" "fault_signature t = sig"
    using Cons.prems(1) x by auto
  show ?case
  proof (cases "nt_reminder n \<le> now - l")
    case True
    then have "sorted_wrt (\<lambda>x y. x + nt_reminder n \<le> y) (now # notice_times (n\<lparr>nt_signature := Some sig, nt_suspect := True, nt_last := Some now\<rparr>) xs)"
      using Cons.IH [of "n\<lparr>nt_signature := Some sig, nt_suspect := True, nt_last := Some now\<rparr>" now] Cons.prems(1, 4) by simp
    with True Cons.prems(4) have "sorted_wrt (\<lambda>x y. x + nt_reminder n \<le> y)
        (l # now # notice_times (n\<lparr>nt_signature := Some sig, nt_suspect := True, nt_last := Some now\<rparr>) xs)"
      by fastforce
    then show ?thesis
      using p Cons.prems(2, 3) True x by (simp add: notifier_update_def Let_def)
  next
    case False
    then show ?thesis
      using p Cons.prems x Cons.IH [of "n\<lparr>nt_signature := Some sig, nt_suspect := True\<rparr>" l] by (simp add: notifier_update_def Let_def)
  qed
qed simp

text \<open>
  a lasting fault does not flood the link. While the quality of the channels stays the same (one
  signature, not healthy), any two notices of the notifier are at least the reminder interval apart,
  whatever it did before.
\<close>

theorem fault_notices_are_paced:
  assumes "\<forall>(t, now) \<in> set xs. suspect t \<and> fault_signature t = sig" "notifier_init reminder = Inr n0" "nt_reminder n = nt_reminder n0"
  shows "sorted_wrt (\<lambda>x y. x + reminder \<le> y) (notice_times n xs)"
  using assms
proof (induction xs arbitrary: n)
  case (Cons x xs)
  obtain t now where x: "x = (t, now)" by force
  have r: "nt_reminder n = reminder" "0 < reminder"
    using Cons.prems(2, 3) by (auto simp: notifier_init_def split: if_splits)
  obtain n' e where u: "notifier_update n t now = (n', e)" by (metis surj_pair)
  have n': "nt_reminder n' = reminder" "nt_signature n' = Some sig" "e \<noteq> None \<Longrightarrow> nt_last n' = Some now"
    using u Cons.prems(1) x r by (auto simp: notifier_update_def Let_def split: if_splits)
  show ?case
  proof (cases e)
    case None
    then show ?thesis
      using Cons.IH [of n'] Cons.prems(1-3) n'(1) r u x by simp
  next
    case (Some z)
    then show ?thesis
      using notices_after [of xs sig n' now] Cons.prems(1) n' r(2) u x by simp
  qed
qed simp

section \<open>A fault leaves no trace in change detection\<close>

fun sense_run :: "sense \<Rightarrow> (dict \<times> trust \<times> real) list \<Rightarrow> sense \<times> sense_decision list" where
  "sense_run a [] = (a, [])"
| "sense_run a ((sample, t, now) # xs) =
     (case sense_update a sample t now of (a1, d) \<Rightarrow> (case sense_run a1 xs of (a2, ds) \<Rightarrow> (a2, d # ds)))"

abbreviation detection :: "scheduler \<Rightarrow> scheduler" where
  "detection s \<equiv> with_baseline s (None, [])"

lemma with_baseline_twice [simp]: "with_baseline (with_baseline s b) c = with_baseline s c"
  by (simp add: with_baseline_def)

lemma baseline_with [simp]: "baseline (with_baseline s b) = b" "with_baseline s (baseline s) = s"
  by (simp_all add: baseline_def with_baseline_def)

lemma with_baseline_fields [simp]:
  "sd_cfg (with_baseline s b) = sd_cfg s" "sd_analyzer (with_baseline s b) = sd_analyzer s" "sd_state (with_baseline s b) = sd_state s"
  "sd_prev_event (with_baseline s b) = sd_prev_event s" "sd_samples (with_baseline s b) = sd_samples s" "sd_now (with_baseline s b) = sd_now s"
  by (simp_all add: with_baseline_def)

text \<open>What is detected does not depend on the reported baseline.\<close>

lemma sched_update_detection:
  assumes "sched_update s t vs = (s1, d)" "sched_update s' t vs = (s1', d')" "detection s = detection s'"
  shows "detection s1 = detection s1'" "de_state d = de_state d'" "de_interval d = de_interval d'" "de_score d = de_score d'" "de_event d = de_event d'"
proof -
  have "s' = with_baseline s (baseline s')"
    using assms(3) by (metis baseline_with(2) with_baseline_twice)
  then obtain b where s': "s' = with_baseline s b" by blast
  show "detection s1 = detection s1'" "de_state d = de_state d'" "de_interval d = de_interval d'" "de_score d = de_score d'" "de_event d = de_event d'"
    using assms(1, 2) unfolding s'
    by (auto simp: sched_update_def Let_def reset_ladder_def advance_ladder_def record_reported_def with_baseline_def split: prod.splits if_splits)
qed

lemma sense_update_settings: "sense_update a sample t now = (a', d) \<Longrightarrow> as_settings a' = as_settings a"
  by (auto simp: sense_update_def Let_def split: prod.splits if_splits)

lemma sense_healthy:
  assumes "sense_update a sample t now = (a', d)" "healthy t"
    and "sched_update s now (sample_values a sample) = (s', e)"
    and "detection s = detection (if as_untrusted a then scheduler_init (se_sched (as_settings a)) now else as_core a)"
  shows "detection (as_core a') = detection s' \<and> \<not> as_untrusted a' \<and> dn_state d = sched_state_name (de_state e) \<and> dn_interval d = de_interval e \<and>
    dn_score d = Some (de_score e) \<and> dn_event d = de_event e"
proof -
  let ?core = "if as_untrusted a then with_baseline (scheduler_init (se_sched (as_settings a)) now) (baseline (as_core a)) else as_core a"
  obtain c f where u: "sched_update ?core now (sample_values a sample) = (c, f)" by (metis surj_pair)
  have v: "sample_values (a\<lparr>as_notifier := n, as_health := h\<rparr>) sample = sample_values a sample" for n h
    by (simp add: sample_values_def)
  have "detection (as_core a') = detection c \<and> \<not> as_untrusted a' \<and> dn_state d = sched_state_name (de_state f) \<and> dn_interval d = de_interval f \<and>
      dn_score d = Some (de_score f) \<and> dn_event d = de_event f"
    using assms(1, 2) u by (auto simp: sense_update_def Let_def v split: prod.splits if_splits)
  moreover have "detection ?core = detection s"
    using assms(4) by simp
  ultimately show ?thesis
    using sched_update_detection [OF u assms(3)] by simp
qed

lemma sense_run_healthy:
  assumes "sense_run a xs = (a', ds)" "\<forall>(sample, t, now) \<in> set xs. healthy t" "\<not> as_untrusted a" "detection s = detection (as_core a)"
    and "sched_run s (map (\<lambda>(sample, t, now). (now, sample_values a sample)) xs) = (s', es)"
  shows "detection (as_core a') = detection s' \<and> map dn_state ds = map (sched_state_name \<circ> de_state) es \<and> map dn_interval ds = map de_interval es \<and>
    map dn_score ds = map (Some \<circ> de_score) es \<and> map dn_event ds = map de_event es"
  using assms
proof (induction xs arbitrary: a s ds es)
  case (Cons x xs)
  obtain sample t now where x: "x = (sample, t, now)" by (metis surj_pair)
  obtain a1 d where u: "sense_update a sample t now = (a1, d)" by (metis surj_pair)
  obtain s1 e where v: "sched_update s now (sample_values a sample) = (s1, e)" by (metis surj_pair)
  obtain ds' where r: "sense_run a1 xs = (a', ds')" "ds = d # ds'"
    using Cons.prems(1) x u by (auto split: prod.splits)
  have same: "sample_values a1 = sample_values a"
    using sense_update_settings [OF u] by (simp add: sample_values_def fun_eq_iff)
  obtain es' where q: "sched_run s1 (map (\<lambda>(sample, t, now). (now, sample_values a1 sample)) xs) = (s', es')" "es = e # es'"
    using Cons.prems(5) x v by (auto simp: same split: prod.splits)
  have one: "detection (as_core a1) = detection s1" "\<not> as_untrusted a1" "dn_state d = sched_state_name (de_state e)" "dn_interval d = de_interval e"
      "dn_score d = Some (de_score e)" "dn_event d = de_event e"
    using sense_healthy [OF u _ v] Cons.prems(2-4) x by auto
  from Cons.IH [OF r(1) _ one(2) one(1) [symmetric] q(1)] Cons.prems(2) one r(2) q(2) show ?case by simp
qed simp

text \<open>
  C40: untrusted readings never enter change detection, and a fault leaves no trace in it. An untrusted
  sample leaves the scheduler as it was; from the first trusted sample after it on, state, interval, score and
  event are those of a scheduler created at that moment and fed with the trusted samples only.
\<close>

theorem fault_leaves_no_trace:
  assumes "sense_update a bad tb now = (a1, d)" "\<not> healthy tb"
    and "sense_run a1 ((sample, t, now1) # xs) = (a2, ds)" "healthy t" "\<forall>(sample, t, now) \<in> set xs. healthy t"
    and "sched_run (scheduler_init (se_sched (as_settings a)) now1)
      (map (\<lambda>(sample, t, now). (now, sample_values a sample)) ((sample, t, now1) # xs)) = (s, es)"
  shows "as_core a1 = as_core a \<and> detection (as_core a2) = detection s \<and> map dn_state ds = map (sched_state_name \<circ> de_state) es \<and>
    map dn_interval ds = map de_interval es \<and> map dn_score ds = map (Some \<circ> de_score) es \<and> map dn_event ds = map de_event es"
proof -
  have a1: "as_core a1 = as_core a" "as_untrusted a1" "as_settings a1 = as_settings a"
    using assms(1, 2) by (auto simp: sense_update_def Let_def split: prod.splits)
  have same: "sample_values a1 = sample_values a"
    using a1(3) by (simp add: sample_values_def fun_eq_iff)
  obtain b e where u: "sense_update a1 sample t now1 = (b, e)" by (metis surj_pair)
  obtain ds' where r: "sense_run b xs = (a2, ds')" "ds = e # ds'"
    using assms(3) u by (auto split: prod.splits)
  obtain s1 f where v: "sched_update (scheduler_init (se_sched (as_settings a)) now1) now1 (sample_values a1 sample) = (s1, f)" by (metis surj_pair)
  have "sample_values b = sample_values a"
    using sense_update_settings [OF u] a1(3) by (simp add: sample_values_def fun_eq_iff)
  then obtain es' where q: "sched_run s1 (map (\<lambda>(sample, t, now). (now, sample_values b sample)) xs) = (s, es')" "es = f # es'"
    using assms(6) v by (auto simp: same split: prod.splits)
  have one: "detection (as_core b) = detection s1" "\<not> as_untrusted b" "dn_state e = sched_state_name (de_state f)" "dn_interval e = de_interval f"
      "dn_score e = Some (de_score f)" "dn_event e = de_event f"
    using sense_healthy [OF u assms(4) v] a1 by auto
  from sense_run_healthy [OF r(1) assms(5) one(2) one(1) [symmetric] q(1)] one a1(1) r(2) q(2) show ?thesis by simp
qed

section \<open>The baseline moves with confirmed reports only\<close>

lemma update_keeps_baseline:
  "sense_update a sample t now = (a', d) \<Longrightarrow> baseline (as_core a') = baseline (as_core a) \<and> as_time a' = as_time a \<and>
     as_sequence a' = as_sequence a \<and> as_relevance a' = as_relevance a"
  by (auto simp: sense_update_def Let_def split: prod.splits if_splits)

datatype sense_event = Sampled dict trust real | Reported dict trust "real option" "int option"

fun sense_step :: "sense \<Rightarrow> sense_event \<Rightarrow> sense" where
  "sense_step a (Sampled sample t now) = fst (sense_update a sample t now)"
| "sense_step a (Reported sample t time sequence) = fst (mark_reported a sample t time sequence)"

definition report_accepted :: "sense \<Rightarrow> sense_event \<Rightarrow> bool" where
  "report_accepted a e = (case e of Reported sample t time sequence \<Rightarrow> snd (mark_reported a sample t time sequence) = Inr True | _ \<Rightarrow> False)"

definition reported_state :: "sense \<Rightarrow> (real option \<times> (string \<times> real) list) \<times> (string \<times> real) list \<times> real option \<times> int option" where
  "reported_state a = (baseline (as_core a), rg_reported (as_relevance a), as_time a, as_sequence a)"

lemma unreported_step: "\<not> report_accepted a e \<Longrightarrow> reported_state (sense_step a e) = reported_state a"
proof (cases e)
  case (Sampled sample t now)
  obtain a' d where "sense_update a sample t now = (a', d)" by (metis surj_pair)
  with update_keeps_baseline [OF this] Sampled show ?thesis by (simp add: reported_state_def)
next
  case (Reported sample t time sequence)
  assume "\<not> report_accepted a e"
  with Reported show ?thesis
    by (auto simp: reported_state_def report_accepted_def mark_reported_def Let_def split: if_splits)
qed

definition after :: "'a :: linorder option \<Rightarrow> 'a option \<Rightarrow> bool" where
  "after old new \<longleftrightarrow> (case old of None \<Rightarrow> True | Some x \<Rightarrow> (case new of None \<Rightarrow> False | Some y \<Rightarrow> x \<le> y))"

lemma step_after: "after (as_time a) (as_time (sense_step a e)) \<and> after (as_sequence a) (as_sequence (sense_step a e))"
proof (cases e)
  case (Sampled sample t now)
  obtain a' d where "sense_update a sample t now = (a', d)" by (metis surj_pair)
  with update_keeps_baseline [OF this] Sampled show ?thesis by (simp add: after_def split: option.split)
next
  case (Reported sample t time sequence)
  then show ?thesis
    by (auto simp: mark_reported_def Let_def after_def split: option.splits)
qed

lemma after_trans: "after a b \<Longrightarrow> after b c \<Longrightarrow> after a c"
  by (auto simp: after_def split: option.splits)

text \<open>
  only an accepted report moves the baseline, and never backwards. Over any sequence of samples and report
  confirmations, time and sequence of the last confirmed report never go back; and as long as no
  confirmation is accepted, the upload baseline, the relevance baseline, time and sequence all stay as
  they were, whatever is sampled, faults and recoveries included.
\<close>

theorem baseline_moves_with_reports:
  "after (as_time a) (as_time (run sense_step a es)) \<and> after (as_sequence a) (as_sequence (run sense_step a es)) \<and>
   ((\<forall>i < length es. \<not> report_accepted (run sense_step a (take i es)) (es ! i)) \<longrightarrow> reported_state (run sense_step a es) = reported_state a)"
proof (induction es arbitrary: a)
  case Nil
  show ?case by (simp add: after_def split: option.split)
next
  case (Cons e es)
  have "reported_state (run sense_step a (e # es)) = reported_state a"
    if none: "\<forall>i < length (e # es). \<not> report_accepted (run sense_step a (take i (e # es))) ((e # es) ! i)"
  proof -
    have "\<not> report_accepted a e"
      using none by force
    moreover have "\<forall>i < length es. \<not> report_accepted (run sense_step (sense_step a e) (take i es)) (es ! i)"
      using none by (metis Suc_less_eq length_Cons nth_Cons_Suc run.simps(2) take_Suc_Cons)
    ultimately show ?thesis
      using Cons.IH [of "sense_step a e"] unreported_step by simp
  qed
  with Cons.IH [of "sense_step a e"] step_after [of a e] show ?case
    using after_trans by (metis run.simps(2))
qed

section \<open>A broken channel\<close>

definition demo_fault :: trust where
  [model_defs]: "demo_fault = trust_of [(''temperature'', verdict [MISSING] False)]"

definition demo_fine :: trust where
  [model_defs]: "demo_fine = trust_of [(''temperature'', verdict [] True)]"

definition demo_sense_settings :: sense_settings where
  [model_defs]: "demo_sense_settings = \<lparr>se_sched = demo_sched, se_fault_interval = 20, se_degraded_interval = 10, se_reminder = 300, se_margins = []\<rparr>"

lemma demo_quality: "suspect demo_fault" "\<not> healthy demo_fault" "healthy demo_fine"
  by (simp_all add: suspect_def healthy_def demo_fault_def demo_fine_def trust_of_def verdict_def penalty_def PENALTIES_def state_of_score_def Let_def)

theorem fault_notices_are_paced_witness:
  "sorted_wrt (\<lambda>x y. x + 300 \<le> y) (notice_times \<lparr>nt_reminder = 300, nt_signature = None, nt_last = None, nt_suspect = False\<rparr>
     [(demo_fault, 0), (demo_fault, 100), (demo_fault, 350)])"
  by (rule fault_notices_are_paced [where sig = "fault_signature demo_fault" and reminder = 300
        and ?n0.0 = "\<lparr>nt_reminder = 300, nt_signature = None, nt_last = None, nt_suspect = False\<rparr>"])
    (simp_all add: demo_quality notifier_init_def)

lemma demo_sense: "\<exists>a. sense_init demo_sense_settings None None DEFAULT_POLICY = Inr a \<and> se_sched (as_settings a) = demo_sched"
  by (simp add: sense_init_def scaled_settings_def demo_sense_settings_def notifier_init_def relevance_init_def set_policy_def THRESHOLDS_def
      DEFAULT_POLICY_def dhas_def dgetn_def number_def)

theorem fault_leaves_no_trace_witness:
  "\<exists>a a1 d. sense_init demo_sense_settings None None DEFAULT_POLICY = Inr a \<and>
     sense_update a [(''temperature'', PNone)] demo_fault 0 = (a1, d) \<and> as_core a1 = as_core a \<and>
     map dn_interval (snd (sense_run a1 [([(''temperature'', PInt 20)], demo_fine, 5)])) =
       map de_interval (snd (sched_run (scheduler_init demo_sched 5) [(5, sample_values a [(''temperature'', PInt 20)])]))"
proof -
  obtain a where a: "sense_init demo_sense_settings None None DEFAULT_POLICY = Inr a" "se_sched (as_settings a) = demo_sched"
    using demo_sense by blast
  obtain a1 d where 1: "sense_update a [(''temperature'', PNone)] demo_fault 0 = (a1, d)" by (metis surj_pair)
  obtain a2 ds where 2: "sense_run a1 [([(''temperature'', PInt 20)], demo_fine, 5)] = (a2, ds)" by (metis surj_pair)
  obtain s es where 3: "sched_run (scheduler_init (se_sched (as_settings a)) 5)
      (map (\<lambda>(sample, t, now). (now, sample_values a sample)) [([(''temperature'', PInt 20)], demo_fine, 5)]) = (s, es)" by (metis surj_pair)
  have "as_core a1 = as_core a" "map dn_interval ds = map de_interval es"
    using fault_leaves_no_trace [OF 1 demo_quality(2) 2 demo_quality(3) _ 3] by simp_all
  moreover have "snd (sense_run a1 [([(''temperature'', PInt 20)], demo_fine, 5)]) = ds"
    unfolding 2 by simp
  moreover have "snd (sched_run (scheduler_init demo_sched 5) [(5, sample_values a [(''temperature'', PInt 20)])]) = es"
    using 3 a(2) by (auto split: prod.splits)
  ultimately show ?thesis
    using a(1) 1 by metis
qed

theorem baseline_moves_with_reports_witness:
  "\<exists>a. sense_init demo_sense_settings None None DEFAULT_POLICY = Inr a \<and>
     reported_state (run sense_step a [Sampled [(''temperature'', PNone)] demo_fault 0, Sampled [(''temperature'', PInt 20)] demo_fine 5]) = reported_state a"
proof -
  obtain a where a: "sense_init demo_sense_settings None None DEFAULT_POLICY = Inr a"
    using demo_sense by blast
  let ?es = "[Sampled [(''temperature'', PNone)] demo_fault 0, Sampled [(''temperature'', PInt 20)] demo_fine 5]"
  have "\<forall>i < length ?es. \<not> report_accepted (run sense_step a (take i ?es)) (?es ! i)"
    by (auto simp: report_accepted_def less_Suc_eq)
  then have "reported_state (run sense_step a ?es) = reported_state a"
    using baseline_moves_with_reports [of a ?es] by blast
  with a show ?thesis by blast
qed

end
