(* ===== verification/LoraCodec.thy ===== *)
theory LoraCodec
  imports Messages Checkpoint "HOL-Library.Word"
begin

text \<open>
  \<^verbatim>\<open>common/lora/codec.py\<close>: the 70-byte header of a radio frame, its two checksums, and the cutting of
  a message into frames. Bytes are 8-bit words, header fields words of their width, so that what
  \<^verbatim>\<open>struct\<close> packs always fits. The CRC is the one of \<^verbatim>\<open>zlib.crc32\<close>, bit by bit. Parameters are the
  bytes of a JSON text and their parsing, the 16-byte hash of an identity and the length of a
  string in UTF-8.
\<close>

unbundle bit_operations_syntax

type_synonym byte = "8 word"
type_synonym bytes = "byte list"

section \<open>CRC-32\<close>

definition crc_bit :: "32 word \<Rightarrow> 32 word" where
  "crc_bit c = (if bit c 0 then drop_bit 1 c XOR 0xEDB88320 else drop_bit 1 c)"

definition crc_byte :: "32 word \<Rightarrow> byte \<Rightarrow> 32 word" where
  "crc_byte c b = (crc_bit ^^ 8) (c XOR ucast b)"

definition crc32 :: "bytes \<Rightarrow> 32 word" where
  "crc32 bs = foldl crc_byte 0xFFFFFFFF bs XOR 0xFFFFFFFF"

section \<open>Little-endian fields\<close>

definition le16 :: "16 word \<Rightarrow> bytes" where
  "le16 w = [ucast w, ucast (drop_bit 8 w)]"

definition le32 :: "32 word \<Rightarrow> bytes" where
  "le32 w = [ucast w, ucast (drop_bit 8 w), ucast (drop_bit 16 w), ucast (drop_bit 24 w)]"

definition un16 :: "bytes \<Rightarrow> 16 word" where
  "un16 bs = ucast (bs ! 0) OR push_bit 8 (ucast (bs ! 1))"

definition un32 :: "bytes \<Rightarrow> 32 word" where
  "un32 bs = ucast (bs ! 0) OR push_bit 8 (ucast (bs ! 1)) OR push_bit 16 (ucast (bs ! 2)) OR push_bit 24 (ucast (bs ! 3))"

definition slice :: "bytes \<Rightarrow> nat \<Rightarrow> nat \<Rightarrow> bytes" where
  "slice bs i n = take n (drop i bs)"

section \<open>Limits, roles and routes\<close>

definition HEADER_SIZE :: nat where [model_defs]: "HEADER_SIZE = 70"
definition MAX_MESSAGE :: nat where [model_defs]: "MAX_MESSAGE = 4096"
definition MAX_FRAGMENTS :: nat where [model_defs]: "MAX_FRAGMENTS = 64"
definition MAX_FRAME :: nat where [model_defs]: "MAX_FRAME = 256"

definition ROLES :: "string list" where
  [model_defs]: "ROLES = [''SERVER'', ''A1'', ''A2'', ''B1'', ''B2'', ''C1'', ''C2'']"

definition link_allowed :: "string \<Rightarrow> string \<Rightarrow> msg_type \<Rightarrow> bool" where
  "link_allowed s d kind \<longleftrightarrow>
     (let a = s \<in> {''A1'', ''A2''}; b = s \<in> {''B1'', ''B2''}; c = s \<in> {''C1'', ''C2''};
          da = d \<in> {''A1'', ''A2''}; db = d \<in> {''B1'', ''B2''}; dc = d \<in> {''C1'', ''C2''}
      in b \<and> da \<and> kind \<in> {SENSOR_DATA, ALERT, NODE_REGISTER, NODE_STATUS} \<or>
         a \<and> db \<and> kind \<in> {PERSISTED_ACK, ACK, NODE_REGISTER_ACK, NODE_STATUS, SERVER_POLICY} \<or>
         c \<and> da \<and> kind \<in> {CONTROL_RESULT, ACK, NODE_REGISTER, NODE_STATUS} \<or>
         a \<and> dc \<and> kind \<in> {CONTROL_COMMAND, NODE_REGISTER_ACK, NODE_STATUS} \<or>
         a \<and> da \<and> s \<noteq> d \<and> kind \<in> {HEARTBEAT, NODE_STATUS})"

definition zone_of :: "string \<Rightarrow> nat" where
  "zone_of node = (if node \<in> {''B1'', ''C1''} then 1 else if node \<in> {''B2'', ''C2''} then 2 else 0)"

text \<open>The zone is the digit of the node end of the link, 0 between gateways.\<close>

definition route :: "string \<Rightarrow> string \<Rightarrow> msg_type \<Rightarrow> py_error + nat" where
  "route s d kind =
     (if s \<notin> set ROLES \<or> d \<notin> set ROLES then Inl (ValueErr ''unknown endpoint/type'')
      else if \<not> link_allowed s d kind then Inl (ValueErr ''unsupported link/type'')
      else Inr (if zone_of s \<noteq> 0 then zone_of s else zone_of d))"

section \<open>Frames\<close>

record frame =
  fr_kind :: byte
  fr_source :: byte
  fr_destination :: byte
  fr_zone :: byte
  fr_session :: bytes
  fr_logical :: bytes
  fr_sequence :: "32 word"
  fr_generation :: "32 word"
  fr_index :: "16 word"
  fr_count :: "16 word"
  fr_total :: "16 word"
  fr_chunk :: "16 word"
  fr_message_crc :: "32 word"
  fr_payload :: bytes

type_synonym frame_ident = "byte \<times> byte \<times> bytes \<times> bytes \<times> 32 word"

definition frame_key :: "frame \<Rightarrow> frame_ident" where
  "frame_key f = (fr_source f, fr_destination f, fr_session f, fr_logical f, fr_message_crc f)"

definition frame_metadata :: "frame \<Rightarrow> frame" where
  "frame_metadata f = f\<lparr>fr_index := 0, fr_payload := []\<rparr>"

definition header_fields :: "frame \<Rightarrow> bytes" where
  "header_fields f =
     [65, 76, 1, fr_kind f, fr_source f, fr_destination f, fr_zone f, 0] @ fr_session f @ fr_logical f @
     le32 (fr_sequence f) @ le32 (fr_generation f) @ le16 (fr_index f) @ le16 (fr_count f) @ le16 (fr_total f) @
     le16 (of_nat (length (fr_payload f))) @ le16 (fr_chunk f) @ le32 (fr_message_crc f) @ le32 (crc32 (fr_payload f))"

definition frame_bytes :: "frame \<Rightarrow> bytes" where
  "frame_bytes f =
     (let head = header_fields f; crc = crc32 (head @ [0, 0, 0, 0] @ fr_payload f) in head @ le32 crc @ fr_payload f)"

text \<open>
  The ceiling of a quotient of naturals. \<^verbatim>\<open>math.ceil(total/chunk)\<close> divides as floats, exact enough here:
  both are below \<open>2 ^ 16\<close>.
\<close>

definition ceil_div :: "nat \<Rightarrow> nat \<Rightarrow> nat" where
  "ceil_div a b = (a + b - 1) div b"

definition fragment_bounds :: "nat \<Rightarrow> nat \<Rightarrow> nat \<Rightarrow> nat \<Rightarrow> bool" where
  "fragment_bounds whole chunk pieces idx \<longleftrightarrow>
     1 \<le> whole \<and> whole \<le> MAX_MESSAGE \<and> 1 \<le> chunk \<and> chunk \<le> MAX_FRAME - HEADER_SIZE \<and>
     1 \<le> pieces \<and> pieces \<le> MAX_FRAGMENTS \<and> pieces = ceil_div whole chunk \<and> idx < pieces"

definition frame_of :: "bytes \<Rightarrow> frame" where
  "frame_of w =
     \<lparr>fr_kind = w ! 3, fr_source = w ! 4, fr_destination = w ! 5, fr_zone = w ! 6,
      fr_session = slice w 8 16, fr_logical = slice w 24 16, fr_sequence = un32 (slice w 40 4), fr_generation = un32 (slice w 44 4),
      fr_index = un16 (slice w 48 2), fr_count = un16 (slice w 50 2), fr_total = un16 (slice w 52 2),
      fr_chunk = un16 (slice w 56 2), fr_message_crc = un32 (slice w 58 4), fr_payload = drop HEADER_SIZE w\<rparr>"

definition endpoints_ok :: "frame \<Rightarrow> bool" where
  "endpoints_ok f \<longleftrightarrow> unat (fr_kind f) < length MESSAGE_TYPES \<and> unat (fr_source f) < length ROLES \<and>
     unat (fr_destination f) < length ROLES \<and>
     route (ROLES ! unat (fr_source f)) (ROLES ! unat (fr_destination f)) (MESSAGE_TYPES ! unat (fr_kind f)) = Inr (unat (fr_zone f))"

text \<open>An unsupported route raises inside \<^verbatim>\<open>route\<close>; every rejection is a \<^verbatim>\<open>FrameError\<close>.\<close>

definition decode :: "bytes \<Rightarrow> py_error + frame" where
  "decode w =
     (if \<not> (HEADER_SIZE < length w \<and> length w \<le> MAX_FRAME) then Inl (ValueErr ''frame length'')
      else let f = frame_of w; idx = unat (fr_index f); chunk = unat (fr_chunk f); whole = unat (fr_total f); plen = unat (un16 (slice w 54 2))
      in if w ! 0 \<noteq> 65 \<or> w ! 1 \<noteq> 76 \<or> w ! 2 \<noteq> 1 \<or> w ! 7 \<noteq> 0 then Inl (ValueErr ''version/magic/flags'')
      else if \<not> endpoints_ok f then Inl (ValueErr ''source/destination/zone/type'')
      else if \<not> fragment_bounds whole chunk (unat (fr_count f)) idx then Inl (ValueErr ''fragment bounds'')
      else if plen \<noteq> min chunk (whole - idx * chunk) \<or> length w \<noteq> HEADER_SIZE + plen then Inl (ValueErr ''fragment payload length'')
      else if crc32 (fr_payload f) \<noteq> un32 (slice w 62 4) \<or>
          crc32 (take 66 w @ [0, 0, 0, 0] @ drop HEADER_SIZE w) \<noteq> un32 (slice w 66 4) then Inl (ValueErr ''CRC'')
      else Inr f)"

text \<open>\<^verbatim>\<open>Frame.encode\<close> decodes what it made.\<close>

definition encode :: "frame \<Rightarrow> py_error + bytes" where
  "encode f = (case decode (frame_bytes f) of Inl e \<Rightarrow> Inl e | Inr g \<Rightarrow> Inr (frame_bytes f))"

section \<open>Messages\<close>

record lora_env =
  le_bytes :: "pyval \<Rightarrow> bytes"
  le_parse :: "bytes \<Rightarrow> py_error + pyval"
  le_hash :: "string \<Rightarrow> bytes"
  le_utf8 :: "string \<Rightarrow> nat"

definition identity :: "lora_env \<Rightarrow> string \<Rightarrow> py_error + bytes" where
  "identity env value = (if 1 \<le> le_utf8 env value \<and> le_utf8 env value \<le> 128 then Inr (le_hash env value) else Inl (ValueErr ''identity length''))"

definition canonical :: "lora_env \<Rightarrow> message \<Rightarrow> py_error + bytes" where
  "canonical env m =
     (case from_dict (PDict (to_dict m)) of
        Inl e \<Rightarrow> Inl e
      | Inr _ \<Rightarrow>
          (case identity env (m_id m) of
             Inl e \<Rightarrow> Inl e
           | Inr _ \<Rightarrow>
               if \<not> json_ok (PDict (to_dict m)) then Inl (ValueErr ''Out of range float values are not JSON compliant'')
               else let raw = le_bytes env (PDict (to_dict m))
                    in if 1 \<le> length raw \<and> length raw \<le> MAX_MESSAGE then Inr raw else Inl (ValueErr ''message capacity exceeded'')))"

definition wire_sequence :: "message \<Rightarrow> pyval" where
  "wire_sequence m = (case m_sequence m of Some i \<Rightarrow> PInt i | None \<Rightarrow> dgetd (m_payload m) ''sample_seq'' (PInt 0))"

definition wire_generation :: "message \<Rightarrow> pyval" where
  "wire_generation m =
     (case m_generation m of Some i \<Rightarrow> PInt i
      | None \<Rightarrow> dgetd (m_payload m) ''gateway_generation'' (dgetd (m_payload m) ''generation'' (PInt 0)))"

definition fits32 :: "pyval \<Rightarrow> bool" where
  "fits32 v = (case v of PInt i \<Rightarrow> 0 \<le> i \<and> i \<le> 0xffffffff | _ \<Rightarrow> False)"

primrec index_of :: "'a list \<Rightarrow> 'a \<Rightarrow> nat" where
  "index_of [] x = 0"
| "index_of (y # ys) x = (if y = x then 0 else Suc (index_of ys x))"

definition cut_frame :: "lora_env \<Rightarrow> message \<Rightarrow> bytes \<Rightarrow> bytes \<Rightarrow> bytes \<Rightarrow> nat \<Rightarrow> nat \<Rightarrow> nat \<Rightarrow> frame" where
  "cut_frame env m session ident raw chunk zone i =
     \<lparr>fr_kind = of_nat (index_of MESSAGE_TYPES (m_type m)), fr_source = of_nat (index_of ROLES (m_source m)),
      fr_destination = of_nat (index_of ROLES (m_target m)), fr_zone = of_nat zone, fr_session = session, fr_logical = ident,
      fr_sequence = of_int (int_of (wire_sequence m)), fr_generation = of_int (int_of (wire_generation m)),
      fr_index = of_nat i, fr_count = of_nat (ceil_div (length raw) chunk), fr_total = of_nat (length raw), fr_chunk = of_nat chunk,
      fr_message_crc = crc32 raw, fr_payload = slice raw (i * chunk) chunk\<rparr>"

fun encode_all :: "frame list \<Rightarrow> py_error + bytes list" where
  "encode_all [] = Inr []"
| "encode_all (f # fs) =
     (case encode f of Inl e \<Rightarrow> Inl e | Inr w \<Rightarrow> (case encode_all fs of Inl e \<Rightarrow> Inl e | Inr ws \<Rightarrow> Inr (w # ws)))"

definition fragment :: "lora_env \<Rightarrow> message \<Rightarrow> bytes \<Rightarrow> int \<Rightarrow> py_error + bytes list" where
  "fragment env m session mtu =
     (if length session \<noteq> 16 then Inl (ValueErr ''session length'')
      else if \<not> (int HEADER_SIZE < mtu \<and> mtu \<le> int MAX_FRAME) then Inl (ValueErr ''MTU'')
      else case canonical env m of
          Inl e \<Rightarrow> Inl e
        | Inr raw \<Rightarrow>
            let chunk = nat mtu - HEADER_SIZE; pieces = ceil_div (length raw) chunk
            in if MAX_FRAGMENTS < pieces then Inl (ValueErr ''fragment capacity exceeded'')
               else if \<not> fits32 (wire_sequence m) \<or> \<not> fits32 (wire_generation m) then Inl (ValueErr ''sequence/generation width'')
               else case route (m_source m) (m_target m) (m_type m) of
                   Inl e \<Rightarrow> Inl e
                 | Inr zone \<Rightarrow>
                     (case identity env (m_id m) of
                        Inl e \<Rightarrow> Inl e
                      | Inr ident \<Rightarrow> encode_all (map (cut_frame env m session ident raw chunk zone) [0..<pieces])))"

text \<open>\<^verbatim>\<open>application\<close>: what it catches becomes a \<^verbatim>\<open>FrameError\<close> with the same text.\<close>

definition application :: "lora_env \<Rightarrow> bytes \<Rightarrow> frame \<Rightarrow> py_error + message" where
  "application env raw f =
     (case le_parse env raw of
        Inl e \<Rightarrow> Inl (ValueErr ''text'')
      | Inr v \<Rightarrow>
          (case from_dict v of
             Inl e \<Rightarrow> Inl (ValueErr ''message'')
           | Inr m \<Rightarrow>
               (case identity env (m_id m) of
                  Inl e \<Rightarrow> Inl e
                | Inr ident \<Rightarrow>
                    if ident \<noteq> fr_logical f \<or> ROLES ! unat (fr_source f) \<noteq> m_source m \<or> ROLES ! unat (fr_destination f) \<noteq> m_target m \<or>
                       MESSAGE_TYPES ! unat (fr_kind f) \<noteq> m_type m
                    then Inl (ValueErr ''application/header mismatch'')
                    else if \<not> py_eq (wire_sequence m) (PInt (uint (fr_sequence f))) \<or> \<not> py_eq (wire_generation m) (PInt (uint (fr_generation f)))
                    then Inl (ValueErr ''application epoch/sequence mismatch'')
                    else Inr m)))"

section \<open>Little-endian fields are read back\<close>

lemma un16_le16 [simp]: "un16 (le16 w) = w"
  by (rule bit_word_eqI) (auto simp: un16_def le16_def bit_simps)

lemma un32_le32 [simp]: "un32 (le32 w) = w"
proof (rule bit_word_eqI)
  fix n
  assume "n < LENGTH(32)"
  moreover have "n < 8 \<or> 8 \<le> n \<and> n < 16 \<or> 16 \<le> n \<and> n < 24 \<or> 24 \<le> n" by linarith
  ultimately show "bit (un32 (le32 w)) n = bit w n"
    by (elim disjE) (auto simp: un32_def le32_def bit_simps)
qed

lemma byte_high [simp]: "8 \<le> n \<Longrightarrow> \<not> bit (b :: byte) n"
  using bit_imp_le_length [of b n] by auto

lemma le32_un32: "length bs = 4 \<Longrightarrow> le32 (un32 bs) = bs"
proof -
  assume "length bs = 4"
  then obtain a b c d where bs: "bs = [a, b, c, d]"
    by (auto simp: numeral_eq_Suc length_Suc_conv)
  show ?thesis
    unfolding bs by (auto simp: le32_def un32_def bit_simps intro!: bit_word_eqI)
qed

lemma length_le [simp]: "length (le16 w) = 2" "length (le32 u) = 4"
  by (simp_all add: le16_def le32_def)

section \<open>The checksum tells one changed byte\<close>

lemma crc_bit_top: "bit (crc_bit c) 31 = bit c 0"
  by (auto simp: crc_bit_def bit_simps dest: bit_imp_le_length)

lemma crc_bit_inj: "crc_bit c = crc_bit d \<longleftrightarrow> c = d"
proof
  assume eq: "crc_bit c = crc_bit d"
  then have low: "bit c 0 = bit d 0"
    using crc_bit_top by metis
  with eq have drops: "drop_bit 1 c = drop_bit 1 d"
    by (auto simp: crc_bit_def bit_eq_iff bit_simps split: if_splits)
  show "c = d"
  proof (rule bit_word_eqI)
    fix n
    assume "n < LENGTH(32)"
    have "bit (drop_bit 1 c) (n - 1) = bit (drop_bit 1 d) (n - 1)"
      using drops by simp
    then show "bit c n = bit d n"
      using low by (cases n) (simp_all add: bit_simps)
  qed
qed simp

lemma crc_bits_inj: "(crc_bit ^^ n) c = (crc_bit ^^ n) d \<longleftrightarrow> c = d"
  by (induction n) (simp_all add: crc_bit_inj)

lemma xor_cancel: "c XOR a = c XOR b \<longleftrightarrow> a = (b :: 32 word)"
  by (auto simp: bit_eq_iff bit_simps)

lemma crc_byte_state: "crc_byte c b = crc_byte d b \<longleftrightarrow> c = d"
  using xor_cancel [of "ucast b" c d] by (simp add: crc_byte_def crc_bits_inj xor.commute)

lemma crc_byte_value: "crc_byte c a = crc_byte c b \<longleftrightarrow> a = b"
proof -
  have "(ucast a :: 32 word) = ucast b \<longleftrightarrow> a = b"
  proof
    assume eq: "(ucast a :: 32 word) = ucast b"
    have "bit a n = bit b n" if "n < 8" for n
      using arg_cong [OF eq, of "\<lambda>w. bit w n"] that by (simp add: bit_simps)
    then show "a = b"
      by (intro bit_word_eqI) simp
  qed simp
  then show ?thesis
    by (simp add: crc_byte_def crc_bits_inj xor_cancel)
qed

lemma crc_tail: "foldl crc_byte c bs = foldl crc_byte d bs \<longleftrightarrow> c = d"
  by (induction bs arbitrary: c d) (simp_all add: crc_byte_state)

lemma crc_one_byte:
  assumes "i < length bs" "b \<noteq> bs ! i"
  shows "crc32 (bs[i := b]) \<noteq> crc32 bs"
proof -
  have old: "bs = take i bs @ bs ! i # drop (Suc i) bs"
    using assms(1) by (rule id_take_nth_drop)
  have new: "bs[i := b] = take i bs @ b # drop (Suc i) bs"
    using assms(1) by (rule upd_conv_take_nth_drop)
  have "foldl crc_byte c (take i bs @ b # drop (Suc i) bs) \<noteq> foldl crc_byte c (take i bs @ bs ! i # drop (Suc i) bs)" for c
    using assms(2) by (simp add: crc_tail crc_byte_value)
  then have "foldl crc_byte 0xFFFFFFFF (bs[i := b]) \<noteq> foldl crc_byte 0xFFFFFFFF bs"
    using old new by metis
  then show ?thesis
    unfolding crc32_def using xor_cancel [of "0xFFFFFFFF"] by (simp only: xor.commute [of _ "0xFFFFFFFF"]) simp
qed

definition zeroed :: "bytes \<Rightarrow> bytes" where
  "zeroed w = take 66 w @ [0, 0, 0, 0] @ drop HEADER_SIZE w"

lemma decode_crc: "decode w = Inr f \<Longrightarrow> 70 < length w \<and> crc32 (zeroed w) = un32 (slice w 66 4) \<and> f = frame_of w"
  by (auto simp: decode_def Let_def zeroed_def HEADER_SIZE_def split: if_splits)

text \<open>
  C26: a frame with one damaged byte is never accepted. Whatever valid frame is on the air, changing any
  single byte of it, in the header, in a checksum or in the payload, makes the receiver reject it.
\<close>

theorem damaged_byte_is_rejected:
  assumes "decode w = Inr f" "i < length w" "b \<noteq> w ! i"
  shows "\<exists>e. decode (w[i := b]) = Inl e"
proof (rule ccontr)
  assume "\<nexists>e. decode (w[i := b]) = Inl e"
  then obtain g where "decode (w[i := b]) = Inr g" by (cases "decode (w[i := b])") auto
  from decode_crc [OF this] decode_crc [OF assms(1)]
  have crc: "crc32 (zeroed (w[i := b])) = un32 (slice (w[i := b]) 66 4)" "crc32 (zeroed w) = un32 (slice w 66 4)" "70 < length w"
    by simp_all
  show False
  proof (cases "66 \<le> i \<and> i < 70")
    case True
    then have "zeroed (w[i := b]) = zeroed w"
      by (simp add: zeroed_def HEADER_SIZE_def)
    then have "slice (w[i := b]) 66 4 = slice w 66 4"
      using crc le32_un32 [of "slice w 66 4"] le32_un32 [of "slice (w[i := b]) 66 4"] by (simp add: slice_def)
    then have same: "slice (w[i := b]) 66 4 ! (i - 66) = slice w 66 4 ! (i - 66)" by simp
    have "i - 66 < 4" "66 + (i - 66) = i"
      using True by auto
    then have "slice u 66 4 ! (i - 66) = u ! i" if "70 < length u" for u
      using that by (simp add: slice_def)
    with same crc(3) assms(2, 3) show False by simp
  next
    case False
    have len: "length (zeroed w) = length w"
      using crc(3) by (simp add: zeroed_def HEADER_SIZE_def)
    have z: "zeroed (w[i := b]) = (zeroed w)[i := b] \<and> zeroed w ! i = w ! i \<and> slice (w[i := b]) 66 4 = slice w 66 4"
    proof (cases "i < 66")
      case True
      then show ?thesis
        using crc(3) by (simp add: zeroed_def HEADER_SIZE_def slice_def list_update_append nth_append take_update_swap)
    next
      case hi: False
      then obtain j where j: "i = 70 + j"
        using False le_Suc_ex by (metis not_less)
      show ?thesis
        using crc(3) assms(2) unfolding j
        by (simp add: zeroed_def HEADER_SIZE_def slice_def list_update_append nth_append drop_update_swap take_drop)
    qed
    with len crc crc_one_byte [of i "zeroed w" b] assms(2, 3) show False by simp
  qed
qed

section \<open>Encoding and decoding\<close>

definition frame_ok :: "frame \<Rightarrow> bool" where
  "frame_ok f \<longleftrightarrow> length (fr_session f) = 16 \<and> length (fr_logical f) = 16 \<and> endpoints_ok f \<and>
     fragment_bounds (unat (fr_total f)) (unat (fr_chunk f)) (unat (fr_count f)) (unat (fr_index f)) \<and>
     length (fr_payload f) = min (unat (fr_chunk f)) (unat (fr_total f) - unat (fr_index f) * unat (fr_chunk f))"

lemma slice_skip: "length xs \<le> n \<Longrightarrow> slice (xs @ ys) n k = slice ys (n - length xs) k"
  by (simp add: slice_def)

lemma slice_here: "length xs = k \<Longrightarrow> slice (xs @ ys) 0 k = xs" "slice ys 0 (length ys) = ys"
  by (simp_all add: slice_def)

lemma rest_nonempty:
  assumes "idx < ceil_div whole chunk" "1 \<le> chunk"
  shows "idx * chunk < whole"
proof -
  have "idx * chunk + chunk \<le> (ceil_div whole chunk) * chunk"
    using assms(1) by (metis Suc_leI add.commute mult_Suc mult_le_mono1)
  also have "\<dots> \<le> whole + chunk - 1"
    by (simp add: ceil_div_def div_times_less_eq_dividend)
  finally show ?thesis
    using assms(2) by linarith
qed

lemma frame_payload_length:
  assumes "frame_ok f"
  shows "1 \<le> length (fr_payload f)" "length (fr_payload f) \<le> 186" "unat (of_nat (length (fr_payload f)) :: 16 word) = length (fr_payload f)"
proof -
  have b: "1 \<le> unat (fr_chunk f)" "unat (fr_chunk f) \<le> 186" "unat (fr_index f) < ceil_div (unat (fr_total f)) (unat (fr_chunk f))"
    and l: "length (fr_payload f) = min (unat (fr_chunk f)) (unat (fr_total f) - unat (fr_index f) * unat (fr_chunk f))"
    using assms by (auto simp: frame_ok_def fragment_bounds_def MAX_FRAME_def HEADER_SIZE_def)
  show one: "1 \<le> length (fr_payload f)" "length (fr_payload f) \<le> 186"
    using l b rest_nonempty [OF b(3, 1)] by auto
  then show "unat (of_nat (length (fr_payload f)) :: 16 word) = length (fr_payload f)"
    by (simp add: unat_of_nat)
qed

lemma decode_frame_bytes:
  assumes "frame_ok f"
  shows "decode (frame_bytes f) = Inr f"
proof -
  note len = frame_payload_length [OF assms]
  have s: "length (fr_session f) = 16" "length (fr_logical f) = 16"
    using assms by (simp_all add: frame_ok_def)
  let ?h = "header_fields f" and ?p = "fr_payload f"
  let ?c = "crc32 (?h @ [0, 0, 0, 0] @ ?p)"
  have h: "length ?h = 66"
    by (simp add: header_fields_def s)
  have w: "frame_bytes f = ?h @ le32 ?c @ ?p"
    by (simp add: frame_bytes_def Let_def)
  have parts: "?h ! 0 = 65" "?h ! 1 = 76" "?h ! 2 = 1" "?h ! 3 = fr_kind f" "?h ! 4 = fr_source f" "?h ! 5 = fr_destination f"
      "?h ! 6 = fr_zone f" "?h ! 7 = 0"
    by (simp_all add: header_fields_def)
  have cut: "slice (frame_bytes f) i n = slice ?h i n" if "i + n \<le> 66" for i n
    using that h by (simp add: w slice_def)
  have at: "frame_bytes f ! i = ?h ! i" if "i < 66" for i
    using that h by (simp add: w nth_append)
  have fields: "slice ?h 8 16 = fr_session f" "slice ?h 24 16 = fr_logical f" "slice ?h 40 4 = le32 (fr_sequence f)"
      "slice ?h 44 4 = le32 (fr_generation f)" "slice ?h 48 2 = le16 (fr_index f)" "slice ?h 50 2 = le16 (fr_count f)"
      "slice ?h 52 2 = le16 (fr_total f)" "slice ?h 54 2 = le16 (of_nat (length ?p))" "slice ?h 56 2 = le16 (fr_chunk f)"
      "slice ?h 58 4 = le32 (fr_message_crc f)" "slice ?h 62 4 = le32 (crc32 ?p)"
    unfolding header_fields_def by (simp_all add: slice_skip slice_here s slice_def [of "_ # _"])
  have tail: "slice (frame_bytes f) 66 4 = le32 ?c" "drop 70 (frame_bytes f) = ?p" "take 66 (frame_bytes f) = ?h"
    using h by (simp_all add: w slice_def)
  have f: "frame_of (frame_bytes f) = f"
    by (simp add: frame_of_def at cut fields parts tail HEADER_SIZE_def)
  have "length (frame_bytes f) = 70 + length ?p"
    by (simp add: w h)
  moreover have "endpoints_ok f" "fragment_bounds (unat (fr_total f)) (unat (fr_chunk f)) (unat (fr_count f)) (unat (fr_index f))"
      "min (unat (fr_chunk f)) (unat (fr_total f) - unat (fr_index f) * unat (fr_chunk f)) = length ?p"
    using assms by (simp_all add: frame_ok_def)
  moreover have "70 < 70 + length ?p" "70 + length ?p \<le> 256"
    using len(1, 2) by linarith+
  ultimately show ?thesis
    by (simp only: decode_def Let_def f at cut fields parts tail HEADER_SIZE_def MAX_FRAME_def un16_le16 un32_le32 len(3)) (simp add: tail)
qed

lemma le16_un16: "length bs = 2 \<Longrightarrow> le16 (un16 bs) = bs"
proof -
  assume "length bs = 2"
  then obtain a b where bs: "bs = [a, b]"
    by (auto simp: numeral_eq_Suc length_Suc_conv)
  show ?thesis
    unfolding bs by (auto simp: le16_def un16_def bit_simps intro!: bit_word_eqI)
qed

lemma take_slice: "take i w @ slice w i n = take (i + n) w"
  by (simp add: slice_def take_add)

lemma take_slices: "take i w @ slice w i n @ ws = take (i + n) w @ ws"
  by (simp add: take_slice [symmetric])

lemma length_slice: "i + n \<le> length w \<Longrightarrow> length (slice w i n) = n"
  by (simp add: slice_def)

lemma take_8: "8 \<le> length w \<Longrightarrow> [w ! 0, w ! 1, w ! 2, w ! 3, w ! 4, w ! 5, w ! 6, w ! 7] = take 8 w"
  by (rule nth_equalityI) (auto simp: less_Suc_eq eval_nat_numeral)

lemma frame_bytes_of:
  assumes "decode w = Inr f"
  shows "frame_ok f \<and> frame_bytes f = w"
proof -
  note f = decode_crc [OF assms]
  have len: "70 < length w" and f': "f = frame_of w"
    using f by simp_all
  have ok: "w ! 0 = 65" "w ! 1 = 76" "w ! 2 = 1" "w ! 7 = 0" "endpoints_ok f"
      "fragment_bounds (unat (fr_total f)) (unat (fr_chunk f)) (unat (fr_count f)) (unat (fr_index f))"
      "unat (un16 (slice w 54 2)) = min (unat (fr_chunk f)) (unat (fr_total f) - unat (fr_index f) * unat (fr_chunk f))"
      "length w = 70 + unat (un16 (slice w 54 2))" "crc32 (fr_payload f) = un32 (slice w 62 4)"
      "crc32 (take 66 w @ [0, 0, 0, 0] @ drop 70 w) = un32 (slice w 66 4)"
    using assms by (auto simp: decode_def Let_def HEADER_SIZE_def f' split: if_splits)
  have pay: "fr_payload f = drop 70 w"
    by (simp add: f' frame_of_def HEADER_SIZE_def)
  have plen: "length (fr_payload f) = unat (un16 (slice w 54 2))" "of_nat (length (fr_payload f)) = un16 (slice w 54 2)"
    using ok(8) by (simp_all add: pay)
  have "length (fr_session f) = 16" "length (fr_logical f) = 16"
    using len by (simp_all add: f' frame_of_def length_slice)
  then have "frame_ok f"
    using ok(5, 6) ok(7) [folded plen(1)] by (simp add: frame_ok_def)
  moreover have head: "header_fields f = take 66 w"
  proof -
    have "header_fields f = take 8 w @ slice w 8 16 @ slice w 24 16 @ slice w 40 4 @ slice w 44 4 @ slice w 48 2 @ slice w 50 2 @ slice w 52 2 @
        slice w 54 2 @ slice w 56 2 @ slice w 58 4 @ slice w 62 4"
      using len ok(1-4) take_8 [of w] unfolding header_fields_def plen(2) ok(9)
      by (simp add: f' frame_of_def le16_un16 le32_un32 length_slice)
    also have "\<dots> = take 66 w"
      by (simp add: take_slices take_slice)
    finally show ?thesis .
  qed
  moreover have "frame_bytes f = w"
  proof -
    have "frame_bytes f = take 66 w @ slice w 66 4 @ drop 70 w"
      using ok(10) len by (simp add: frame_bytes_def head pay Let_def le32_un32 length_slice)
    also have "\<dots> = w"
      by (simp add: take_slices)
    finally show ?thesis .
  qed
  ultimately show ?thesis by blast
qed

text \<open>
  C27: the wire format is canonical. A receiver accepts a byte string as a frame exactly when the string is
  the one encoding of that frame and the frame obeys every rule of the format (known endpoints on an
  allowed link, fragment bounds, payload length): decoding and encoding are inverse to each other.
\<close>

theorem decode_is_canonical:
  "decode w = Inr f \<longleftrightarrow> frame_ok f \<and> w = frame_bytes f"
  using frame_bytes_of [of w f] decode_frame_bytes [of f] by blast

section \<open>Cutting a message\<close>

lemma index_of_nth: "x \<in> set xs \<Longrightarrow> index_of xs x < length xs \<and> xs ! index_of xs x = x"
  by (induction xs) auto

lemma of_nat_small: "n < 256 \<Longrightarrow> unat (of_nat n :: byte) = n" "n < 65536 \<Longrightarrow> unat (of_nat n :: 16 word) = n"
  by (simp_all add: unat_of_nat)

lemma all_types: "t \<in> set MESSAGE_TYPES"
  by (cases t) (simp_all add: MESSAGE_TYPES_def)

lemma routeD: "route s d kind = Inr z \<Longrightarrow> s \<in> set ROLES \<and> d \<in> set ROLES \<and> z < 3"
  by (auto simp: route_def zone_of_def split: if_splits)

lemma cut_fields:
  assumes "route (m_source m) (m_target m) (m_type m) = Inr zone"
  shows "unat (fr_kind (cut_frame env m session ident raw chunk zone i)) = index_of MESSAGE_TYPES (m_type m)"
    "unat (fr_source (cut_frame env m session ident raw chunk zone i)) = index_of ROLES (m_source m)"
    "unat (fr_destination (cut_frame env m session ident raw chunk zone i)) = index_of ROLES (m_target m)"
    "unat (fr_zone (cut_frame env m session ident raw chunk zone i)) = zone"
proof -
  have "index_of MESSAGE_TYPES (m_type m) < 11" "index_of ROLES (m_source m) < 7" "index_of ROLES (m_target m) < 7"
    using index_of_nth [OF all_types [of "m_type m"]] index_of_nth [of "m_source m" ROLES] index_of_nth [of "m_target m" ROLES] routeD [OF assms]
    by (simp_all add: MESSAGE_TYPES_def ROLES_def)
  then show "unat (fr_kind (cut_frame env m session ident raw chunk zone i)) = index_of MESSAGE_TYPES (m_type m)"
    "unat (fr_source (cut_frame env m session ident raw chunk zone i)) = index_of ROLES (m_source m)"
    "unat (fr_destination (cut_frame env m session ident raw chunk zone i)) = index_of ROLES (m_target m)"
    "unat (fr_zone (cut_frame env m session ident raw chunk zone i)) = zone"
    using routeD [OF assms] by (simp_all add: cut_frame_def of_nat_small)
qed

lemma cut_endpoints:
  assumes "route (m_source m) (m_target m) (m_type m) = Inr zone"
  shows "endpoints_ok (cut_frame env m session ident raw chunk zone i)"
    "ROLES ! unat (fr_source (cut_frame env m session ident raw chunk zone i)) = m_source m"
    "ROLES ! unat (fr_destination (cut_frame env m session ident raw chunk zone i)) = m_target m"
    "MESSAGE_TYPES ! unat (fr_kind (cut_frame env m session ident raw chunk zone i)) = m_type m"
  using index_of_nth [OF all_types [of "m_type m"]] index_of_nth [of "m_source m" ROLES] index_of_nth [of "m_target m" ROLES] routeD [OF assms] assms
  by (simp_all add: endpoints_ok_def cut_fields [OF assms])

lemma cut_frame_ok:
  assumes "route (m_source m) (m_target m) (m_type m) = Inr zone" "length session = 16" "length ident = 16"
    and "1 \<le> length raw" "length raw \<le> 4096" "1 \<le> chunk" "chunk \<le> 186" "ceil_div (length raw) chunk \<le> 64" "i < ceil_div (length raw) chunk"
  shows "frame_ok (cut_frame env m session ident raw chunk zone i)"
proof -
  let ?f = "cut_frame env m session ident raw chunk zone i"
  have n: "unat (fr_total ?f) = length raw" "unat (fr_chunk ?f) = chunk" "unat (fr_count ?f) = ceil_div (length raw) chunk" "unat (fr_index ?f) = i"
    using assms(5-9) by (simp_all add: cut_frame_def of_nat_small)
  have "length (fr_payload ?f) = min chunk (length raw - i * chunk)"
    by (simp add: cut_frame_def slice_def min.commute)
  moreover have "fr_session ?f = session" "fr_logical ?f = ident"
    by (simp_all add: cut_frame_def)
  ultimately show ?thesis
    using assms(2-9) cut_endpoints(1) [OF assms(1)] unfolding frame_ok_def fragment_bounds_def n
    by (simp add: MAX_MESSAGE_def MAX_FRAME_def HEADER_SIZE_def MAX_FRAGMENTS_def)
qed

lemma encode_all_ok: "\<forall>f \<in> set fs. frame_ok f \<Longrightarrow> encode_all fs = Inr (map frame_bytes fs)"
  by (induction fs) (simp_all add: encode_def decode_frame_bytes)

text \<open>What a successful cut is made of.\<close>

lemma fragmentE:
  assumes "fragment env m session mtu = Inr ws" "length (le_hash env (m_id m)) = 16"
  obtains raw zone where "canonical env m = Inr raw" "identity env (m_id m) = Inr (le_hash env (m_id m))" "route (m_source m) (m_target m) (m_type m) = Inr zone"
    "1 \<le> length raw" "length raw \<le> 4096" "1 \<le> nat mtu - 70" "nat mtu - 70 \<le> 186" "ceil_div (length raw) (nat mtu - 70) \<le> 64"
    "length session = 16" "fits32 (wire_sequence m)" "fits32 (wire_generation m)"
    "ws = map (\<lambda>i. frame_bytes (cut_frame env m session (le_hash env (m_id m)) raw (nat mtu - 70) zone i)) [0..<ceil_div (length raw) (nat mtu - 70)]"
proof -
  obtain raw zone ident where c: "canonical env m = Inr raw" "route (m_source m) (m_target m) (m_type m) = Inr zone" "identity env (m_id m) = Inr ident"
      "length session = 16" "70 < mtu" "mtu \<le> 256" "ceil_div (length raw) (nat mtu - 70) \<le> 64" "fits32 (wire_sequence m)" "fits32 (wire_generation m)"
      and e: "encode_all (map (cut_frame env m session ident raw (nat mtu - 70) zone) [0..<ceil_div (length raw) (nat mtu - 70)]) = Inr ws"
    using assms(1) by (auto simp: fragment_def Let_def HEADER_SIZE_def MAX_FRAME_def MAX_FRAGMENTS_def split: if_splits sum.splits)
  have ident: "ident = le_hash env (m_id m)"
    using c(3) by (auto simp: identity_def split: if_splits)
  have raw: "1 \<le> length raw" "length raw \<le> 4096"
    using c(1) by (auto simp: canonical_def Let_def MAX_MESSAGE_def split: sum.splits if_splits)
  have chunk: "1 \<le> nat mtu - 70" "nat mtu - 70 \<le> 186"
    using c(5, 6) by auto
  have "\<forall>f \<in> set (map (cut_frame env m session ident raw (nat mtu - 70) zone) [0..<ceil_div (length raw) (nat mtu - 70)]). frame_ok f"
    using cut_frame_ok [OF c(2, 4) _ raw chunk c(7)] assms(2) ident by auto
  from encode_all_ok [OF this] e have
    "ws = map (\<lambda>i. frame_bytes (cut_frame env m session (le_hash env (m_id m)) raw (nat mtu - 70) zone i)) [0..<ceil_div (length raw) (nat mtu - 70)]"
    by (simp add: ident comp_def)
  with c raw chunk ident show ?thesis by (intro that) auto
qed

end
