(* ===== verification/Reports.thy ===== *)
theory Reports
  imports Sense SensorDelivery LoraCodec
begin

text \<open>
  The reliable reports of a sensor node: \<^verbatim>\<open>common/lora/delivery.py\<close> (the window of messages that wait for a
  confirmation) and \<^verbatim>\<open>sensor_node/report_delivery.py\<close> (the durable evidence behind it). A HIGH report is
  saved before it is sent and leaves only by the receipt of the gateway that owns the node; a
  NORMAL report lives in RAM.

  The payload of a message is one dictionary object: the row of the newest report, or of every
  report after a restart, shares it with the window until the evidence is copied. The field
  \<open>sw_alias\<close> names the rows that still share theirs. Row fields are read as this class writes them.
\<close>

section \<open>The window of messages\<close>

datatype stage =
    FRAME_ACCEPTED | MESSAGE_REASSEMBLED | GATEWAY_DURABLE | SERVER_DURABLE
  | COMMAND_RECEIVED | COMMAND_EXECUTED | COMMAND_REJECTED | COMMAND_UNKNOWN

record pending =
  pd_message :: message
  pd_attempts :: nat
  pd_due :: real
  pd_failed :: bool
  pd_probes :: nat
  pd_interval :: "real option"

record window =
  dw_capacity :: nat
  dw_attempts :: nat
  dw_timeout :: real
  dw_recovery :: "real option"
  dw_longest :: real
  dw_pending :: "(string \<times> pending) list"
  dw_last :: "real option"

definition window_init :: "int \<Rightarrow> int \<Rightarrow> real \<Rightarrow> real option \<Rightarrow> real \<Rightarrow> py_error + window" where
  "window_init capacity attempts timeout recovery longest =
     (if \<not> (1 \<le> capacity \<and> capacity \<le> 64) \<or> \<not> (1 \<le> attempts \<and> attempts \<le> 10) \<or> \<not> (0 < timeout \<and> timeout \<le> 60)
      then Inl (ValueErr ''delivery bounds'')
      else if (case recovery of None \<Rightarrow> False | Some r \<Rightarrow> \<not> (timeout \<le> r \<and> r \<le> longest) \<or> 3600 < longest)
      then Inl (ValueErr ''recovery bounds'')
      else Inr \<lparr>dw_capacity = nat capacity, dw_attempts = nat attempts, dw_timeout = timeout, dw_recovery = recovery,
             dw_longest = longest, dw_pending = [], dw_last = None\<rparr>)"

definition window_time :: "window \<Rightarrow> real \<Rightarrow> py_error + window" where
  "window_time w now =
     (if now < 0 \<or> (case dw_last w of None \<Rightarrow> False | Some l \<Rightarrow> now < l) then Inl (ValueErr ''invalid or rolled back delivery clock'')
      else Inr (w\<lparr>dw_last := Some now\<rparr>))"

definition fresh_pending :: "window \<Rightarrow> message \<Rightarrow> real \<Rightarrow> pending" where
  "fresh_pending w m now =
     \<lparr>pd_message = m, pd_attempts = 0, pd_due = now, pd_failed = False, pd_probes = 0, pd_interval = dw_recovery w\<rparr>"

definition window_admit :: "lora_env \<Rightarrow> window \<Rightarrow> message \<Rightarrow> real \<Rightarrow> window \<times> (py_error + bool)" where
  "window_admit env w0 m now =
     (case window_time w0 now of
        Inl e \<Rightarrow> (w0, Inl e)
      | Inr w \<Rightarrow>
          (case canonical env m of
             Inl e \<Rightarrow> (w, Inl e)
           | Inr raw \<Rightarrow>
               (case map_of (dw_pending w) (m_id m) of
                  Some p \<Rightarrow>
                    (case canonical env (pd_message p) of
                       Inl e \<Rightarrow> (w, Inl e)
                     | Inr old \<Rightarrow> if old \<noteq> raw then (w, Inl (ValueErr ''active logical identity conflict'')) else (w, Inr False))
                | None \<Rightarrow>
                    if length (dw_pending w) = dw_capacity w then (w, Inl (ValueErr ''delivery capacity''))
                    else (w\<lparr>dw_pending := dset (dw_pending w) (m_id m) (fresh_pending w m now)\<rparr>, Inr True))))"

text \<open>One entry at a time: what becomes of it and whether it is sent.\<close>

definition due_entry :: "window \<Rightarrow> real \<Rightarrow> pending \<Rightarrow> pending \<times> bool" where
  "due_entry w now p =
     (if now < pd_due p then (p, False)
      else if pd_failed p
      then (case (dw_recovery w, pd_interval p) of
              (Some r, Some i) \<Rightarrow> (p\<lparr>pd_probes := pd_probes p + 1, pd_due := now + i, pd_interval := Some (min (dw_longest w) (i * 2))\<rparr>, True)
            | _ \<Rightarrow> (p, False))
      else if dw_attempts w \<le> pd_attempts p
      then (p\<lparr>pd_failed := True, pd_due := (case dw_recovery w of None \<Rightarrow> pd_due p | Some r \<Rightarrow> now + r)\<rparr>, False)
      else (p\<lparr>pd_attempts := pd_attempts p + 1, pd_due := now + dw_timeout w\<rparr>, True))"

definition window_due :: "window \<Rightarrow> real \<Rightarrow> window \<times> (py_error + message list)" where
  "window_due w0 now =
     (case window_time w0 now of
        Inl e \<Rightarrow> (w0, Inl e)
      | Inr w \<Rightarrow> (w\<lparr>dw_pending := map (\<lambda>(k, p). (k, fst (due_entry w now p))) (dw_pending w)\<rparr>,
                Inr (map (\<lambda>(k, p). pd_message p) (filter (\<lambda>(k, p). snd (due_entry w now p)) (dw_pending w)))))"

definition stage_evidence :: "stage \<Rightarrow> message \<Rightarrow> bool" where
  "stage_evidence s a =
     (let p = m_payload a
      in case s of
           GATEWAY_DURABLE \<Rightarrow> m_type a = PERSISTED_ACK \<and> dgetn p ''persisted'' = PBool True \<and> dgetn p ''scope'' = PStr ''GATEWAY_OUTBOX'' \<and>
             dgetn p ''delivery_contract'' = PStr DELIVERY_CONTRACT
         | SERVER_DURABLE \<Rightarrow> m_type a = PERSISTED_ACK \<and> dgetn p ''persisted'' = PBool True \<and> dgetn p ''scope'' \<in> {PNone, PStr ''SERVER_SQLITE''}
         | COMMAND_RECEIVED \<Rightarrow> m_type a = ACK
         | _ \<Rightarrow> False)"

definition ack_key :: "message \<Rightarrow> pyval" where
  "ack_key a = dgetn (m_payload a) ''ack_message_id''"

definition lookup_key :: "(string \<times> 'a) list \<Rightarrow> pyval \<Rightarrow> 'a option" where
  "lookup_key d k = (case k of PStr s \<Rightarrow> map_of d s | _ \<Rightarrow> None)"

definition window_confirm :: "window \<Rightarrow> message \<Rightarrow> stage \<Rightarrow> window \<times> (py_error + bool)" where
  "window_confirm w a s =
     (if \<not> hashable (ack_key a) then (w, Inl (TypeErr ''unhashable type''))
      else case lookup_key (dw_pending w) (ack_key a) of
          None \<Rightarrow> (w, Inr False)
        | Some p \<Rightarrow>
            if m_source a \<noteq> m_target (pd_message p) \<or> m_target a \<noteq> m_source (pd_message p) \<or> \<not> stage_evidence s a then (w, Inr False)
            else (w\<lparr>dw_pending := ddel (dw_pending w) (str_of (ack_key a))\<rparr>, Inr True))"

section \<open>Trust as a dictionary\<close>

definition trust_dict :: "trust \<Rightarrow> dict" where
  "trust_dict t =
     [(''health_score'', PInt (tr_score t)), (''state'', PStr (health_state_name (tr_state t))),
      (''fault_flags'', PList (map (PStr \<circ> flag_name) (tr_flags t))),
      (''channels'', PDict (map (\<lambda>(n, r). (n, result_dict r)) (tr_channels t))), (''usable_for_control'', PBool (tr_usable t))]"

definition state_of :: "pyval \<Rightarrow> health_state" where
  "state_of v = (if v = PStr ''HEALTHY'' then HEALTHY else if v = PStr ''DEGRADED'' then DEGRADED else FAULT)"

definition flag_of :: "pyval \<Rightarrow> fault_flag option" where
  "flag_of v = find (\<lambda>f. PStr (flag_name f) = v) [RANGE, STUCK, SPIKE, DRIFT, MISSING]"

definition flags_of :: "pyval \<Rightarrow> fault_flag list" where
  "flags_of v = (case v of PList xs \<Rightarrow> List.map_filter flag_of xs | _ \<Rightarrow> [])"

definition read_result :: "pyval \<Rightarrow> channel_result" where
  "read_result v =
     (let d = dict_of v
      in \<lparr>cr_score = int_of (dgetn d ''health_score''), cr_state = state_of (dgetn d ''state''), cr_flags = flags_of (dgetn d ''fault_flags''),
          cr_valid = (dgetn d ''valid'' = PBool True)\<rparr>)"

definition read_trust :: "dict \<Rightarrow> trust" where
  "read_trust d =
     \<lparr>tr_score = int_of (dgetn d ''health_score''), tr_state = state_of (dgetn d ''state''), tr_flags = flags_of (dgetn d ''fault_flags''),
      tr_channels = map (\<lambda>(n, v). (n, read_result v)) (dict_of (dgetn d ''channels'')),
      tr_usable = (dgetn d ''usable_for_control'' = PBool True)\<rparr>"

lemma state_of_name [simp]: "state_of (PStr (health_state_name s)) = s"
  by (cases s) (simp_all add: state_of_def)

lemma flag_of_name [simp]: "flag_of (PStr (flag_name f)) = Some f"
  by (cases f) (simp_all add: flag_of_def)

lemma flags_of_names [simp]: "flags_of (PList (map (PStr \<circ> flag_name) fs)) = fs"
  by (induction fs) (simp_all add: flags_of_def List.map_filter_simps)

lemma read_result_dict [simp]: "read_result (result_dict r) = r"
  by (simp add: read_result_def result_dict_def dgetn_def)

lemma read_trust_dict [simp]: "read_trust (trust_dict t) = t"
proof -
  have "(\<lambda>(n :: string, v). (n, read_result v)) \<circ> (\<lambda>(n, r). (n, result_dict r)) = id"
    by auto
  then show ?thesis
    by (simp add: read_trust_def trust_dict_def dgetn_def)
qed

section \<open>The durable evidence\<close>

record report_window =
  sw_node :: string
  sw_boot :: string
  sw_store :: store
  sw_window :: window
  sw_evidence :: "(string \<times> dict) list"
  sw_alias :: "string list"

definition row_message :: "dict \<Rightarrow> dict" where
  "row_message row = dict_of (dgetn row ''message'')"

definition row_payload :: "dict \<Rightarrow> dict" where
  "row_payload row = dict_of (dgetn (row_message row) ''payload'')"

definition row_high :: "dict \<Rightarrow> bool" where
  "row_high row \<longleftrightarrow> dgetn (row_payload row) ''importance'' = PStr ''HIGH''"

definition row_normal :: "dict \<Rightarrow> bool" where
  "row_normal row \<longleftrightarrow> dgetn (row_payload row) ''importance'' = PStr ''NORMAL''"

definition report_row :: "message \<Rightarrow> dict \<Rightarrow> trust \<Rightarrow> real \<Rightarrow> dict" where
  "report_row m reading t acquired =
     [(''message'', PDict (to_dict m)), (''reading'', PDict reading), (''trust'', PDict (trust_dict t)),
      (''acquired_at'', PFloat (Fin acquired))]"

text \<open>\<^verbatim>\<open>validate\<close>: every exception it raises is one that \<^const>\<open>load\<close> skips the row for.\<close>

fun rows_valid :: "(jtext \<Rightarrow> string) \<Rightarrow> string \<Rightarrow> string list \<Rightarrow> pyval list \<Rightarrow> bool" where
  "rows_valid hash node seen [] = True"
| "rows_valid hash node seen (row # rows) =
     (case row of
        PDict r \<Rightarrow>
          (case from_dict (dgetn r ''message'') of
             Inl e \<Rightarrow> False
           | Inr m \<Rightarrow>
               (case identity_and_digest hash m of
                  Inl e \<Rightarrow> False
                | Inr x \<Rightarrow> m_source m = node \<and> m_id m \<notin> set seen \<and> dgetn (m_payload m) ''importance'' = PStr ''HIGH'' \<and>
                    rows_valid hash node (m_id m # seen) rows))
      | _ \<Rightarrow> False)"

definition saved_valid :: "(jtext \<Rightarrow> string) \<Rightarrow> string \<Rightarrow> pyval \<Rightarrow> bool" where
  "saved_valid hash node v =
     (case v of
        PDict d \<Rightarrow> py_eq (dgetn d ''schema_version'') (PInt 1) \<and>
          (case dgetn d ''reports'' of PList rows \<Rightarrow> length rows \<le> 64 \<and> rows_valid hash node [] rows | _ \<Rightarrow> False)
      | _ \<Rightarrow> False)"

definition saved_rows :: "pyval \<Rightarrow> dict list" where
  "saved_rows v = (case v of PDict d \<Rightarrow> (case dgetn d ''reports'' of PList rows \<Rightarrow> map dict_of rows | _ \<Rightarrow> []) | _ \<Rightarrow> [])"

fun restore_reports :: "lora_env \<Rightarrow> window \<Rightarrow> (string \<times> dict) list \<Rightarrow> dict list \<Rightarrow> py_error + window \<times> (string \<times> dict) list" where
  "restore_reports env w ev [] = Inr (w, ev)"
| "restore_reports env w ev (row # rows) =
     (case from_dict (dgetn row ''message'') of
        Inl e \<Rightarrow> Inl e
      | Inr m \<Rightarrow>
          (case window_admit env w m 0 of
             (_, Inl e) \<Rightarrow> Inl e
           | (w1, Inr _) \<Rightarrow> restore_reports env w1 (dset ev (m_id m) row) rows))"

definition report_window_init :: "lora_env \<Rightarrow> string \<Rightarrow> string \<Rightarrow> store \<Rightarrow> int \<Rightarrow> bool \<Rightarrow> py_error + report_window" where
  "report_window_init env node boot st capacity io =
     (case window_init capacity 5 3 (Some 60) 300 of
        Inl e \<Rightarrow> Inl e
      | Inr w0 \<Rightarrow>
          (case load st ''sensor_reports'' (saved_valid (st_digest st) node) False io of
             Inl e \<Rightarrow> Inl e
           | Inr None \<Rightarrow> Inr \<lparr>sw_node = node, sw_boot = boot, sw_store = st, sw_window = w0, sw_evidence = [], sw_alias = []\<rparr>
           | Inr (Some v) \<Rightarrow>
               if capacity < int (length (saved_rows v)) then Inl (StateErr ''sensor delivery capacity'')
               else (case restore_reports env w0 [] (saved_rows v) of
                   Inl e \<Rightarrow> Inl e
                 | Inr (w, ev) \<Rightarrow> Inr \<lparr>sw_node = node, sw_boot = boot, sw_store = st, sw_window = w, sw_evidence = ev, sw_alias = map fst ev\<rparr>)))"

definition reports_value :: "(string \<times> dict) list \<Rightarrow> pyval" where
  "reports_value ev = PDict [(''schema_version'', PInt 1), (''reports'', PList (map PDict (filter row_high (map snd ev))))]"

definition admit_report :: "lora_env \<Rightarrow> report_window \<Rightarrow> message \<Rightarrow> dict \<Rightarrow> trust \<Rightarrow> real \<Rightarrow> real \<Rightarrow> bool \<Rightarrow> report_window \<times> (py_error + bool)" where
  "admit_report env w m reading t acquired now io =
     (case identity_and_digest (st_digest (sw_store w)) m of
        Inl e \<Rightarrow> (w, Inl e)
      | Inr x \<Rightarrow>
          if dhas (sw_evidence w) (m_id m) then (w, Inr False)
          else if dw_capacity (sw_window w) \<le> length (sw_evidence w) then (w, Inl (StateErr ''sensor outbox full''))
          else if dgetn (m_payload m) ''importance'' = PStr ''NORMAL'' \<and>
              dw_capacity (sw_window w) * 3 div 4 \<le> length (filter (row_normal \<circ> snd) (sw_evidence w))
          then (w, Inl (StateErr ''sensor NORMAL reserve full''))
          else let ev = dset (sw_evidence w) (m_id m) (report_row m reading t acquired)
               in (case save (sw_store w) ''sensor_reports'' (reports_value ev) now io of
                     Inl e \<Rightarrow> (w, Inl e)
                   | Inr st \<Rightarrow>
                       let last = (case dw_last (sw_window w) of None \<Rightarrow> 0 | Some l \<Rightarrow> l)
                       in (case window_admit env (sw_window w) m (max acquired last) of
                             (win, Inl e) \<Rightarrow> (w\<lparr>sw_store := st, sw_window := win\<rparr>, Inl e)
                           | (win, Inr b) \<Rightarrow> (w\<lparr>sw_store := st, sw_window := win, sw_evidence := ev, sw_alias := [m_id m]\<rparr>, Inr True))))"

text \<open>The age of a report, written into the payload that the window holds and into every row that shares it.\<close>

definition put_age :: "pyval \<Rightarrow> message \<Rightarrow> message" where
  "put_age age m = m\<lparr>m_payload := dset (m_payload m) ''delivery_age_ms'' age\<rparr>"

definition age_row :: "pyval \<Rightarrow> dict \<Rightarrow> dict" where
  "age_row age row =
     dset row ''message'' (PDict (dset (row_message row) ''payload'' (PDict (dset (row_payload row) ''delivery_age_ms'' age))))"

definition report_age :: "report_window \<Rightarrow> dict \<Rightarrow> message \<Rightarrow> real \<Rightarrow> pyval" where
  "report_age w row m now =
     (let acquired = num_of (dgetn row ''acquired_at'')
      in if dgetn (m_payload m) ''boot_id'' = PStr (sw_boot w) \<and> acquired \<le> now then PFloat (Fin ((now - acquired) * 1000)) else PNone)"

fun age_reports :: "report_window \<Rightarrow> real \<Rightarrow> string \<Rightarrow> message list \<Rightarrow> report_window \<times> (py_error + message list)" where
  "age_reports w now owner [] = (w, Inr [])"
| "age_reports w now owner (m0 # ms) =
     (case from_dict (PDict (to_dict m0)) of
        Inl e \<Rightarrow> (w, Inl e)
      | Inr m \<Rightarrow>
          (case map_of (sw_evidence w) (m_id m) of
             None \<Rightarrow> (w, Inl KeyErr)
           | Some row \<Rightarrow>
               let age = report_age w row m now;
                   win = (sw_window w)\<lparr>dw_pending := map (\<lambda>(k, p). (k, if k = m_id m then p\<lparr>pd_message := put_age age (pd_message p)\<rparr> else p))
                     (dw_pending (sw_window w))\<rparr>;
                   ev = (if m_id m \<in> set (sw_alias w) then dset (sw_evidence w) (m_id m) (age_row age row) else sw_evidence w)
               in (case age_reports (w\<lparr>sw_window := win, sw_evidence := ev\<rparr>) now owner ms of
                     (w', Inl e) \<Rightarrow> (w', Inl e)
                   | (w', Inr out) \<Rightarrow> (w', Inr ((put_age age m)\<lparr>m_target := owner\<rparr> # out)))))"

definition due_reports :: "report_window \<Rightarrow> real \<Rightarrow> string \<Rightarrow> report_window \<times> (py_error + message list)" where
  "due_reports w now owner =
     (case window_due (sw_window w) now of
        (win, Inl e) \<Rightarrow> (w\<lparr>sw_window := win\<rparr>, Inl e)
      | (win, Inr ms) \<Rightarrow> age_reports (w\<lparr>sw_window := win\<rparr>) now owner ms)"

text \<open>
  The assertion that the window confirms too fails with \<^verbatim>\<open>AssertionError\<close>, which no caller tells from a
  \<^const>\<open>KeyErr\<close>.
\<close>

definition retarget :: "string \<Rightarrow> string \<Rightarrow> window \<Rightarrow> window" where
  "retarget key owner w =
     w\<lparr>dw_pending := map (\<lambda>(k, p). (k, if k = key then p\<lparr>pd_message := (pd_message p)\<lparr>m_target := owner\<rparr>\<rparr> else p)) (dw_pending w)\<rparr>"

definition confirm_report :: "report_window \<Rightarrow> message \<Rightarrow> sense \<Rightarrow> string \<Rightarrow> real \<Rightarrow> bool \<Rightarrow> report_window \<times> sense \<times> (py_error + bool)" where
  "confirm_report w a sched owner now io =
     (if \<not> hashable (ack_key a) then (w, sched, Inl (TypeErr ''unhashable type''))
      else case lookup_key (sw_evidence w) (ack_key a) of
          None \<Rightarrow> (w, sched, Inr False)
        | Some row \<Rightarrow>
            if m_source a \<noteq> owner \<or> m_target a \<noteq> sw_node w then (w, sched, Inr False)
            else (case lookup_key (dw_pending (sw_window w)) (ack_key a) of
                None \<Rightarrow> (w, sched, Inl KeyErr)
              | Some p \<Rightarrow>
                  if \<not> stage_evidence GATEWAY_DURABLE a then (w, sched, Inr False)
                  else let ev = ddel (sw_evidence w) (m_id (pd_message p))
                       in (case save (sw_store w) ''sensor_reports'' (reports_value ev) now io of
                             Inl e \<Rightarrow> (w, sched, Inl e)
                           | Inr st \<Rightarrow>
                               (case window_confirm (retarget (str_of (ack_key a)) owner (sw_window w)) a GATEWAY_DURABLE of
                                  (win, Inr True) \<Rightarrow>
                                    let w' = w\<lparr>sw_store := st, sw_window := win, sw_evidence := ev, sw_alias := []\<rparr>
                                    in if dgetn (row_payload row) ''boot_id'' = PStr (sw_boot w)
                                       then (case mark_reported sched (dict_of (dgetn row ''reading'')) (read_trust (dict_of (dgetn row ''trust'')))
                                               (Some (num_of (dgetn row ''acquired_at''))) (Some (int_of (dgetn (row_message row) ''sequence''))) of
                                               (s', Inl e) \<Rightarrow> (w', s', Inl e)
                                             | (s', Inr _) \<Rightarrow> (w', s', Inr True))
                                       else (w', sched, Inr True)
                                | (win, _) \<Rightarrow> (w\<lparr>sw_store := st, sw_window := win\<rparr>, sched, Inl KeyErr)))))"

definition prepare_report :: "message \<Rightarrow> real \<Rightarrow> bool \<Rightarrow> message" where
  "prepare_report m acquired high =
     (let p = m_payload m;
          sid = sample_id_of (m_source m) (str_of (dgetn p ''boot_id'')) (nat (int_of (dgetn p ''sample_seq'')))
      in m\<lparr>m_id := sid @ ''-S'',
           m_payload := dmerge p [(''sample_id'', PStr sid), (''delivery_contract'', PStr DELIVERY_CONTRACT),
             (''importance'', PStr (if high then ''HIGH'' else ''NORMAL'')), (''policy_version'', PStr ''host-profile-v1''),
             (''device_monotonic_ms'', PFloat (Fin (acquired * 1000)))]\<rparr>)"

section \<open>Retries back off\<close>

text \<open>The times at which the window sends a message, until it leaves.\<close>

datatype window_event = Admitted message real | Polled real | Acked message stage

fun window_step :: "lora_env \<Rightarrow> window \<Rightarrow> window_event \<Rightarrow> window" where
  "window_step env w (Admitted m t) = fst (window_admit env w m t)"
| "window_step env w (Polled t) = fst (window_due w t)"
| "window_step env w (Acked a s) = fst (window_confirm w a s)"

definition sent_now :: "window \<Rightarrow> string \<Rightarrow> window_event \<Rightarrow> real list" where
  "sent_now w key e =
     (case e of
        Polled t \<Rightarrow> (case window_time w t of Inl x \<Rightarrow> []
          | Inr w1 \<Rightarrow> (case map_of (dw_pending w1) key of None \<Rightarrow> [] | Some p \<Rightarrow> if snd (due_entry w1 t p) then [t] else []))
      | _ \<Rightarrow> [])"

fun sends :: "lora_env \<Rightarrow> window \<Rightarrow> string \<Rightarrow> window_event list \<Rightarrow> real list" where
  "sends env w key [] = []"
| "sends env w key (e # es) = (if map_of (dw_pending w) key = None then [] else sent_now w key e @ sends env (window_step env w e) key es)"

text \<open>What lies between two sends, by the number of the earlier one.\<close>

definition retry_gap :: "window \<Rightarrow> real \<Rightarrow> nat \<Rightarrow> real" where
  "retry_gap w r i =
     (if Suc i < dw_attempts w then dw_timeout w
      else if Suc i = dw_attempts w then dw_timeout w + r
      else min (dw_longest w) (r * 2 ^ (i - dw_attempts w)))"

definition same_bounds :: "window \<Rightarrow> window \<Rightarrow> bool" where
  "same_bounds v w \<longleftrightarrow> dw_attempts v = dw_attempts w \<and> dw_timeout v = dw_timeout w \<and> dw_recovery v = dw_recovery w \<and> dw_longest v = dw_longest w"

text \<open>An entry that was sent \<open>n\<close> times, the next time not before \<open>x\<close>.\<close>

definition entry_at :: "window \<Rightarrow> real \<Rightarrow> pending \<Rightarrow> nat \<Rightarrow> real \<Rightarrow> bool" where
  "entry_at w r p n x \<longleftrightarrow>
     (if pd_failed p then dw_attempts w \<le> n \<and> pd_interval p = Some (min (dw_longest w) (r * 2 ^ (n - dw_attempts w))) \<and> x \<le> pd_due p
      else pd_attempts p = n \<and> n \<le> dw_attempts w \<and> pd_interval p = Some (min (dw_longest w) r) \<and>
        (if n = dw_attempts w then x \<le> pd_due p + r else x \<le> pd_due p))"

lemma due_entry_at:
  assumes "entry_at w r p n x" "due_entry w t p = (p', b)" "dw_recovery w = Some r" "0 < r" "1 \<le> dw_attempts w"
    "0 \<le> dw_longest w"
  shows "if b then x \<le> t \<and> entry_at w r p' (Suc n) (t + retry_gap w r n) else entry_at w r p' n x"
proof (cases "t < pd_due p")
  case True
  with assms(1, 2) show ?thesis by (auto simp: due_entry_def)
next
  case late: False
  show ?thesis
  proof (cases "pd_failed p")
    case True
    let ?i = "min (dw_longest w) (r * 2 ^ (n - dw_attempts w))"
    have p: "dw_attempts w \<le> n" "pd_interval p = Some ?i" "x \<le> pd_due p"
      using assms(1) True by (simp_all add: entry_at_def)
    have "min (dw_longest w) (?i * 2) = min (dw_longest w) (r * 2 ^ (Suc n - dw_attempts w))"
      using p(1) assms(6) by (auto simp: min_def Suc_diff_le)
    moreover have "p' = p\<lparr>pd_probes := pd_probes p + 1, pd_due := t + ?i, pd_interval := Some (min (dw_longest w) (?i * 2))\<rparr>" "b"
      using assms(2, 3) p late True by (auto simp: due_entry_def)
    ultimately show ?thesis
      using p late True by (simp add: entry_at_def retry_gap_def)
  next
    case False
    have p: "pd_attempts p = n" "n \<le> dw_attempts w" "pd_interval p = Some (min (dw_longest w) r)"
        "if n = dw_attempts w then x \<le> pd_due p + r else x \<le> pd_due p"
      using assms(1) False by (simp_all add: entry_at_def)
    show ?thesis
    proof (cases "n = dw_attempts w")
      case True
      then have "p' = p\<lparr>pd_failed := True, pd_due := t + r\<rparr>" "\<not> b"
        using assms(2, 3) p late False by (auto simp: due_entry_def)
      with True p late show ?thesis by (simp add: entry_at_def)
    next
      case few: False
      then have "p' = p\<lparr>pd_attempts := Suc n, pd_due := t + dw_timeout w\<rparr>" "b"
        using assms(2) p late False by (auto simp: due_entry_def)
      with few p late False show ?thesis by (auto simp: entry_at_def retry_gap_def)
    qed
  qed
qed

lemma entry_bounds: "same_bounds v w \<Longrightarrow> entry_at v r p n x = entry_at w r p n x" "same_bounds v w \<Longrightarrow> due_entry v t p = due_entry w t p"
    "same_bounds v w \<Longrightarrow> retry_gap v r n = retry_gap w r n"
  by (simp_all add: same_bounds_def entry_at_def due_entry_def retry_gap_def cong: option.case_cong)

lemma window_confirm_cases: "window_step env w (Acked a s) = w \<or> (\<exists>k. window_step env w (Acked a s) = w\<lparr>dw_pending := ddel (dw_pending w) k\<rparr>)"
  by (simp add: window_confirm_def split: option.split) blast

lemma window_timeD: "window_time w t = Inr w1 \<Longrightarrow> same_bounds w1 w \<and> dw_pending w1 = dw_pending w"
  by (auto simp: window_time_def same_bounds_def split: if_splits)

lemma window_admit_cases:
  "same_bounds (window_step env w (Admitted m t)) w \<and> (dw_pending (window_step env w (Admitted m t)) = dw_pending w \<or>
     map_of (dw_pending w) (m_id m) = None \<and> (\<exists>p. dw_pending (window_step env w (Admitted m t)) = dset (dw_pending w) (m_id m) p))"
proof (cases "window_time w t")
  case (Inl e)
  then show ?thesis by (simp add: window_admit_def same_bounds_def)
next
  case (Inr w1)
  note w1 = window_timeD [OF Inr]
  have "same_bounds (w1\<lparr>dw_pending := ps\<rparr>) w" for ps
    using w1 by (simp add: same_bounds_def)
  with Inr w1 show ?thesis
    by (cases "canonical env m"; cases "map_of (dw_pending w) (m_id m)")
      (auto simp: window_admit_def split: sum.split)
qed

text \<open>One event on the window, seen from one entry.\<close>

lemma window_step_entry:
  assumes "map_of (dw_pending w) key = Some p" "entry_at w r p n x" "dw_recovery w = Some r" "0 < r" "1 \<le> dw_attempts w" "0 \<le> dw_longest w"
    and "map_of (dw_pending (window_step env w e)) key = Some p'"
  shows "same_bounds (window_step env w e) w \<and> (case sent_now w key e of [] \<Rightarrow> entry_at w r p' n x
     | t # ts \<Rightarrow> ts = [] \<and> x \<le> t \<and> entry_at w r p' (Suc n) (t + retry_gap w r n))"
proof (cases e)
  case (Admitted m t)
  have "p' = p \<and> same_bounds (window_step env w e) w"
    using window_admit_cases [of env w m t] assms(1, 7) unfolding Admitted by (auto split: if_splits)
  with assms(2) show ?thesis
    by (simp add: Admitted sent_now_def)
next
  case (Acked a s)
  have "p' = p \<and> same_bounds (window_step env w e) w"
    using window_confirm_cases [of env w a s] assms(1, 7) unfolding Acked by (auto simp: same_bounds_def split: if_splits simp del: window_step.simps)
  with assms(2) show ?thesis
    by (simp add: Acked sent_now_def)
next
  case (Polled t)
  show ?thesis
  proof (cases "window_time w t")
    case (Inl x)
    with assms(1, 2, 7) show ?thesis
      by (simp add: Polled window_due_def sent_now_def same_bounds_def)
  next
    case (Inr w1)
    note w1 = window_timeD [OF Inr]
    obtain q b where q: "due_entry w t p = (q, b)" by (metis surj_pair)
    have "map_of (map (\<lambda>(k, p). (k, fst (due_entry w1 t p))) xs) key = map_option (\<lambda>p. fst (due_entry w1 t p)) (map_of xs key)" for xs
      by (induction xs) auto
    then have "p' = q"
      using assms(1, 7) Inr w1 q entry_bounds(2) [of w1 w t p] by (simp add: Polled window_due_def)
    moreover have "same_bounds (window_step env w e) w"
      using Inr w1 by (simp add: Polled window_due_def same_bounds_def)
    moreover have "sent_now w key e = (if b then [t] else [])"
      using assms(1) Inr w1 q entry_bounds(2) [of w1 w t p] by (simp add: Polled sent_now_def)
    ultimately show ?thesis
      using due_entry_at [OF assms(2) q assms(3-6)] by (auto split: if_splits)
  qed
qed

text \<open>Consecutive elements are at least the gap of their position apart.\<close>

fun paced_from :: "(nat \<Rightarrow> real) \<Rightarrow> nat \<Rightarrow> real \<Rightarrow> real list \<Rightarrow> bool" where
  "paced_from gap n x [] = True"
| "paced_from gap n x (t # ts) = (x \<le> t \<and> paced_from gap (Suc n) (t + gap n) ts)"

lemma paced_gaps: "paced_from gap n x ts \<Longrightarrow> Suc i < length ts \<Longrightarrow> ts ! i + gap (n + i) \<le> ts ! Suc i"
proof (induction ts arbitrary: n x i)
  case (Cons t ts)
  show ?case
  proof (cases i)
    case 0
    with Cons.prems show ?thesis by (cases ts) auto
  next
    case (Suc j)
    with Cons.prems Cons.IH [of "Suc n" "t + gap n" j] show ?thesis by simp
  qed
qed simp

lemma sends_paced:
  assumes "same_bounds w w0" "dw_recovery w0 = Some r" "0 < r" "1 \<le> dw_attempts w0" "0 \<le> dw_longest w0"
    and "\<And>p. map_of (dw_pending w) key = Some p \<Longrightarrow> entry_at w0 r p n x"
  shows "paced_from (retry_gap w0 r) n x (sends env w key es)"
  using assms(1, 6)
proof (induction es arbitrary: w n x)
  case (Cons e es)
  show ?case
  proof (cases "map_of (dw_pending w) key")
    case (Some p)
    have b: "dw_recovery w = Some r" "1 \<le> dw_attempts w" "0 \<le> dw_longest w"
      using assms(2, 4, 5) Cons.prems(1) by (simp_all add: same_bounds_def)
    have at: "entry_at w r p n x"
      using Cons.prems(2) [OF Some] entry_bounds(1) [OF Cons.prems(1)] by simp
    let ?v = "window_step env w e"
    show ?thesis
    proof (cases "map_of (dw_pending ?v) key")
      case None
      then have "sends env ?v key es = []"
        by (cases es) simp_all
      moreover have "sent_now w key e = []"
      proof (cases e)
        case (Polled t)
        with None Some show ?thesis
          by (auto simp: sent_now_def window_due_def map_of_eq_None_iff image_iff dest!: map_of_SomeD window_timeD split: sum.splits option.splits)
      qed (simp_all add: sent_now_def)
      ultimately show ?thesis using Some by simp
    next
      case (Some p')
      note step = window_step_entry [OF \<open>map_of (dw_pending w) key = Some p\<close> at b(1) assms(3) b(2, 3) Some]
      then have v: "same_bounds ?v w0"
        using Cons.prems(1) by (simp add: same_bounds_def)
      show ?thesis
        using step Cons.IH [OF v, of n x] Cons.IH [OF v, of "Suc n"] entry_bounds [OF Cons.prems(1)] \<open>map_of (dw_pending w) key = Some p\<close> Some
        by (auto split: list.splits)
    qed
  qed simp
qed simp

text \<open>
  C31: an unconfirmed report never floods the radio. Whatever else is admitted, polled or
  confirmed, from its admission until it leaves the window the sends of a message are paced: the first
  five (the attempts) at least the timeout apart, then single probes, the first one the recovery interval
  after the last timeout, each pause at least twice the one before, up to the longest interval.
\<close>

theorem retries_back_off:
  assumes "window_init capacity attempts timeout (Some r) longest = Inr w0" "same_bounds w w0"
    and "window_admit env w m now = (v, Inr True)" "Suc i < length (sends env v (m_id m) es)"
  shows "sends env v (m_id m) es ! i + retry_gap w0 r i \<le> sends env v (m_id m) es ! Suc i"
proof -
  have w0: "dw_recovery w0 = Some r" "0 < r" "1 \<le> dw_attempts w0" "r \<le> dw_longest w0" "0 \<le> dw_longest w0"
    using assms(1) by (auto simp: window_init_def split: if_splits)
  have v: "same_bounds v w0" "map_of (dw_pending v) (m_id m) = Some (fresh_pending w m now)"
    using assms(2, 3) by (auto simp: window_admit_def window_time_def same_bounds_def fresh_pending_def split: sum.splits option.splits if_splits)
  have "entry_at w0 r p 0 now" if "map_of (dw_pending v) (m_id m) = Some p" for p
    using that v(2) w0 assms(2) by (auto simp: entry_at_def fresh_pending_def same_bounds_def)
  from sends_paced [where env = env and es = es, OF v(1) w0(1, 2, 3, 5) this] paced_gaps assms(4) show ?thesis
    by fastforce
qed

section \<open>Durable reports\<close>

definition row_ident :: "dict \<Rightarrow> pyval" where
  "row_ident row = dgetn (row_message row) ''message_id''"

definition report_stored :: "store \<Rightarrow> string \<Rightarrow> bool" where
  "report_stored st i = (case read_ns st ''sensor_reports'' of None \<Rightarrow> False | Some v \<Rightarrow> list_ex (\<lambda>r. row_ident r = PStr i) (saved_rows v))"

definition evidence_row :: "store \<Rightarrow> string \<times> dict \<Rightarrow> bool" where
  "evidence_row st = (\<lambda>(i, row). row_ident row = PStr i \<and> (row_high row \<longrightarrow> report_stored st i) \<and> (row_high row \<or> row_normal row))"

definition reports_ok :: "report_window \<Rightarrow> bool" where
  "reports_ok w \<longleftrightarrow>
     dw_capacity (sw_window w) = 16 \<and> distinct (map fst (sw_evidence w)) \<and> map fst (dw_pending (sw_window w)) = map fst (sw_evidence w) \<and>
     (\<forall>(k, p) \<in> set (dw_pending (sw_window w)). m_id (pd_message p) = k \<and> m_source (pd_message p) = sw_node w) \<and>
     list_all (evidence_row (sw_store w)) (sw_evidence w) \<and> length (sw_evidence w) \<le> 16 \<and>
     length (filter (row_normal \<circ> snd) (sw_evidence w)) \<le> 12"

lemma dict_of_canon [simp]: "dict_of (canon v) = canon_dict (dict_of v)"
  by (cases v) (simp_all add: dict_of_def canon_dict_def)

lemma row_canon [simp]: "row_message (canon_dict r) = canon_dict (row_message r)" "row_payload (canon_dict r) = canon_dict (row_payload r)"
    "row_ident (canon_dict r) = canon (row_ident r)" "row_high (canon_dict r) = row_high r"
  by (simp_all add: row_message_def row_payload_def row_ident_def row_high_def)

lemma high_not_normal: "row_high r \<Longrightarrow> \<not> row_normal r"
  by (simp add: row_high_def row_normal_def)

lemma row_of_report [simp]: "row_message (report_row m r t x) = to_dict m" "row_payload (report_row m r t x) = m_payload m"
    "row_ident (report_row m r t x) = PStr (m_id m)"
  by (simp_all add: row_message_def row_payload_def row_ident_def report_row_def dgetn_def)

lemma row_of_aged [simp]: "row_message (age_row a r) = dset (row_message r) ''payload'' (PDict (dset (row_payload r) ''delivery_age_ms'' a))"
    "row_payload (age_row a r) = dset (row_payload r) ''delivery_age_ms'' a" "row_ident (age_row a r) = row_ident r"
    "row_high (age_row a r) = row_high r" "row_normal (age_row a r) = row_normal r"
  by (simp_all add: row_message_def row_payload_def row_ident_def row_high_def row_normal_def age_row_def)

lemma saved_reports_value: "saved_rows (canon (reports_value ev)) = map canon_dict (filter row_high (map snd ev))"
  by (simp add: reports_value_def saved_rows_def dgetn_def comp_def)

lemma stored_saved:
  assumes "save st ''sensor_reports'' (reports_value ev) now io = Inr st'"
  shows "report_stored st' i \<longleftrightarrow> (\<exists>r \<in> snd ` set ev. row_high r \<and> row_ident r = PStr i)"
proof -
  have io: "io"
    using assms by (cases io) simp_all
  have "read_ns st' ''sensor_reports'' = Some (canon (reports_value ev))"
    using load_saved [OF assms, of "\<lambda>v. True" False] by (simp add: read_ns_def)
  then show ?thesis
    by (auto simp: report_stored_def saved_reports_value list_ex_iff)
qed

lemma rows_stored:
  assumes "save st ''sensor_reports'' (reports_value ev) now io = Inr st'" "list_all (\<lambda>(i, r). row_ident r = PStr i \<and> (row_high r \<or> row_normal r)) ev"
  shows "list_all (evidence_row st') ev"
proof -
  have "evidence_row st' (i, r)" if "(i, r) \<in> set ev" for i r
  proof -
    have "r \<in> snd ` set ev" using that by force
    with assms(2) that stored_saved [OF assms(1), of i] show ?thesis
      by (auto simp: list_all_iff evidence_row_def simp del: image_iff)
  qed
  then show ?thesis by (auto simp: list_all_iff)
qed

lemma identity_metadata: "identity_and_digest h m = Inr x \<Longrightarrow> metadata_ok (m_payload m)"
  by (rule ccontr) (simp add: identity_and_digest_def Let_def split: if_split_asm)

lemma identity_importance: "identity_and_digest h m = Inr x \<Longrightarrow> dgetn (m_payload m) ''importance'' \<in> {PStr ''HIGH'', PStr ''NORMAL''}"
  by (drule identity_metadata) (simp add: metadata_ok_def)

lemma from_dict_err: "from_dict v = Inl e \<Longrightarrow> \<exists>t. e = MessageErr t"
proof -
  have opt: "\<exists>t. e = MessageErr t" if "opt_field d k = Inl e" for d k e
    using that by (auto simp: opt_field_def split: option.split_asm if_split_asm)
  have fields: "\<exists>t. e = MessageErr t" if "from_fields d t = Inl e" for d t e
    using that unfolding from_fields_def by (auto split: if_split_asm sum.split_asm dest: opt)
  show "from_dict v = Inl e \<Longrightarrow> \<exists>t. e = MessageErr t"
    by (auto simp: from_dict_def split: pyval.split_asm if_split_asm option.split_asm dest: fields)
qed

lemma not_state_err: "identity_and_digest h m \<noteq> Inl (StateErr s)" "canonical env m \<noteq> Inl (StateErr s)" "window_time w t \<noteq> Inl (StateErr s)"
    "save st ns v now io \<noteq> Inl (StateErr s)"
proof -
  show "identity_and_digest h m \<noteq> Inl (StateErr s)"
    by (cases "dumps (PDict (evidence_of (m_payload m)))") (auto simp: identity_and_digest_def Let_def dumps_def split: if_split_asm)
  show "canonical env m \<noteq> Inl (StateErr s)"
    using from_dict_err [of "PDict (to_dict m)"]
    by (cases "from_dict (PDict (to_dict m))") (auto simp: canonical_def identity_def Let_def)
  show "window_time w t \<noteq> Inl (StateErr s)"
    by (simp add: window_time_def)
  show "save st ns v now io \<noteq> Inl (StateErr s)"
    by (auto simp: save_def dumps_def Let_def split: option.split)
qed

lemma window_admit_new:
  assumes "window_admit env w m t = (v, x)" "map_of (dw_pending w) (m_id m) = None"
  shows "dw_capacity v = dw_capacity w \<and> (case x of
      Inl e \<Rightarrow> dw_pending v = dw_pending w \<and> (\<forall>s. e \<noteq> StateErr s)
    | Inr b \<Rightarrow> b \<and> (\<exists>p. pd_message p = m \<and> dw_pending v = dw_pending w @ [(m_id m, p)]))"
proof (cases "window_time w t")
  case (Inl e)
  with assms not_state_err(3) [of w t] show ?thesis by (auto simp: window_admit_def)
next
  case (Inr w1)
  then have w1: "dw_pending w1 = dw_pending w" "dw_capacity w1 = dw_capacity w"
    by (auto simp: window_time_def split: if_splits)
  have "pd_message (fresh_pending w1 m t) = m"
    by (simp add: fresh_pending_def)
  with assms Inr w1 not_state_err(2) [of env m] show ?thesis
    by (cases "canonical env m") (auto simp: window_admit_def dset_fresh split: if_splits)
qed

lemma admit_report_ok:
  assumes "admit_report env w m reading t acquired now io = (w', x)" "reports_ok w" "m_source m = sw_node w"
  shows "reports_ok w' \<and> sw_node w' = sw_node w \<and> (\<forall>i r. map_of (sw_evidence w) i = Some r \<longrightarrow> map_of (sw_evidence w') i = Some r) \<and>
    (x = Inr True \<longrightarrow> map_of (sw_evidence w') (m_id m) = Some (report_row m reading t acquired))"
proof (cases "w' = w \<and> x \<noteq> Inr True")
  case True
  with assms(2) show ?thesis by simp
next
  case False
  let ?ev = "dset (sw_evidence w) (m_id m) (report_row m reading t acquired)"
  let ?t = "max acquired (case dw_last (sw_window w) of None \<Rightarrow> 0 | Some l \<Rightarrow> l)"
  obtain y where ident: "identity_and_digest (st_digest (sw_store w)) m = Inr y"
    using assms(1) False by (cases "identity_and_digest (st_digest (sw_store w)) m") (auto simp: admit_report_def)
  have new: "map_of (sw_evidence w) (m_id m) = None"
    by (rule ccontr) (use assms(1) False ident in \<open>simp add: admit_report_def\<close>)
  have room: "length (sw_evidence w) < 16"
    by (rule ccontr) (use assms False ident new in \<open>simp add: admit_report_def reports_ok_def\<close>)
  have reserve: "length (filter (row_normal \<circ> snd) (sw_evidence w)) < 12" if "dgetn (m_payload m) ''importance'' = PStr ''NORMAL''"
    by (rule ccontr) (use assms False ident new room that in \<open>simp add: admit_report_def reports_ok_def\<close>)
  have cap: "dw_capacity (sw_window w) = 16" and same: "map fst (dw_pending (sw_window w)) = map fst (sw_evidence w)"
    using assms(2) by (simp_all add: reports_ok_def)
  have open_if: "(dgetn (m_payload m) ''importance'' = PStr ''NORMAL'' \<and> 12 \<le> length (filter (row_normal \<circ> snd) (sw_evidence w))) = False"
    using reserve by auto
  obtain win z where win: "window_admit env (sw_window w) m ?t = (win, z)" by (metis surj_pair)
  have res: "admit_report env w m reading t acquired now io = (case save (sw_store w) ''sensor_reports'' (reports_value ?ev) now io of
      Inl e \<Rightarrow> (w, Inl e)
    | Inr st \<Rightarrow> (case z of Inl e \<Rightarrow> (w\<lparr>sw_store := st, sw_window := win\<rparr>, Inl e)
         | Inr b \<Rightarrow> (w\<lparr>sw_store := st, sw_window := win, sw_evidence := ?ev, sw_alias := [m_id m]\<rparr>, Inr True)))"
    using ident new room cap by (simp add: admit_report_def Let_def win open_if cong: sum.case_cong)
  then obtain st where save: "save (sw_store w) ''sensor_reports'' (reports_value ?ev) now io = Inr st"
    using assms(1) False by (cases "save (sw_store w) ''sensor_reports'' (reports_value ?ev) now io") auto
  have ev: "?ev = sw_evidence w @ [(m_id m, report_row m reading t acquired)]"
    by (rule dset_fresh [OF new])
  have rows: "list_all (\<lambda>(i, r). row_ident r = PStr i \<and> (row_high r \<or> row_normal r)) ?ev"
    using assms(2) identity_importance [OF ident] unfolding ev
    by (auto simp: reports_ok_def list_all_iff evidence_row_def row_high_def row_normal_def)
  have rows': "list_all (evidence_row st) ?ev" by (rule rows_stored [OF save rows])
  have pend: "map_of (dw_pending (sw_window w)) (m_id m) = None"
    using new same by (metis map_of_eq_None_iff set_map)
  note admitted = window_admit_new [OF win pend]
  show ?thesis
  proof (cases z)
    case (Inl e)
    then show ?thesis
      using res save assms admitted rows' by (simp add: reports_ok_def ev)
  next
    case (Inr b)
    then obtain p where p: "pd_message p = m" "dw_pending win = dw_pending (sw_window w) @ [(m_id m, p)]" "dw_capacity win = 16"
      using admitted cap by auto
    have "length (filter (row_normal \<circ> snd) ?ev) \<le> 12"
      using assms(2) reserve by (cases "dgetn (m_payload m) ''importance'' = PStr ''NORMAL''") (simp_all add: ev reports_ok_def row_normal_def)
    moreover have "distinct (map fst ?ev)" "length ?ev \<le> 16"
      using assms(2) room by (auto simp: reports_ok_def) (simp add: ev)
    moreover have "map fst ?ev = map fst (dw_pending win)"
      using p same by (simp add: ev)
    moreover have "\<forall>(k, p) \<in> set (dw_pending win). m_id (pd_message p) = k \<and> m_source (pd_message p) = sw_node w"
      using p assms(2, 3) by (auto simp: reports_ok_def)
    moreover have "w' = w\<lparr>sw_store := st, sw_window := win, sw_evidence := ?ev, sw_alias := [m_id m]\<rparr>"
      using Inr res save assms(1) by simp
    moreover have "map_of ?ev j = Some r" if "map_of (sw_evidence w) j = Some r" for j r
      using that new by auto
    ultimately show ?thesis
      using rows' p(3) by (simp add: reports_ok_def)
  qed
qed

definition same_reports :: "report_window \<Rightarrow> report_window \<Rightarrow> bool" where
  "same_reports v w \<longleftrightarrow> sw_node v = sw_node w \<and> sw_store v = sw_store w \<and> map fst (sw_evidence v) = map fst (sw_evidence w) \<and>
     (\<forall>i. map_option row_high (map_of (sw_evidence v) i) = map_option row_high (map_of (sw_evidence w) i))"

lemma filter_dset_same: "map_of d k = Some v \<Longrightarrow> P v = P v' \<Longrightarrow> length (filter (P \<circ> snd) (dset d k v')) = length (filter (P \<circ> snd) d)"
  unfolding dset_def by (induction d) (auto split: if_splits)

lemma age_reports_ok:
  "age_reports w now owner ms = (w', x) \<Longrightarrow> reports_ok w \<Longrightarrow> reports_ok w' \<and> same_reports w' w"
proof (induction ms arbitrary: w w' x)
  case (Cons m0 ms)
  show ?case
  proof (cases "from_dict (PDict (to_dict m0))")
    case (Inl e)
    with Cons.prems show ?thesis by (simp add: same_reports_def)
  next
    case (Inr m)
    show ?thesis
    proof (cases "map_of (sw_evidence w) (m_id m)")
      case None
      with Inr Cons.prems show ?thesis by (simp add: same_reports_def)
    next
      case (Some row)
      define age where "age = report_age w row m now"
      define win where "win = (sw_window w)\<lparr>dw_pending := map (\<lambda>(k, p). (k, if k = m_id m then p\<lparr>pd_message := put_age age (pd_message p)\<rparr> else p))
        (dw_pending (sw_window w))\<rparr>"
      define ev where "ev = (if m_id m \<in> set (sw_alias w) then dset (sw_evidence w) (m_id m) (age_row age row) else sw_evidence w)"
      define v where "v = w\<lparr>sw_window := win, sw_evidence := ev\<rparr>"
      have rec: "age_reports w now owner (m0 # ms) = (case age_reports v now owner ms of
          (w', Inl e) \<Rightarrow> (w', Inl e) | (w', Inr out) \<Rightarrow> (w', Inr ((put_age age m)\<lparr>m_target := owner\<rparr> # out)))"
        by (simp add: Inr Some Let_def age_def [symmetric] win_def [symmetric] ev_def [symmetric] v_def [symmetric])
      obtain w1 y where v: "age_reports v now owner ms = (w1, y)" by (metis surj_pair)
      have keys: "map fst ev = map fst (sw_evidence w)" "map fst (dw_pending win) = map fst (dw_pending (sw_window w))" "dw_capacity win = dw_capacity (sw_window w)"
        by (auto simp: ev_def win_def keys_dset_present [OF Some])
      have row: "row_ident row = PStr (m_id m)" "row_high row \<Longrightarrow> report_stored (sw_store w) (m_id m)" "row_high row \<or> row_normal row"
        using Cons.prems(2) map_of_SomeD [OF Some] by (auto simp: reports_ok_def list_all_iff evidence_row_def)
      have "list_all (evidence_row (sw_store w)) ev"
        using Cons.prems(2) row set_dset_subset [of "sw_evidence w" "m_id m" "age_row age row"]
        by (auto simp: ev_def reports_ok_def list_all_iff evidence_row_def)
      moreover have "length (filter (row_normal \<circ> snd) ev) = length (filter (row_normal \<circ> snd) (sw_evidence w))"
        using filter_dset_same [OF Some, of row_normal "age_row age row"] by (simp add: ev_def)
      moreover have "\<forall>(k, p) \<in> set (dw_pending win). m_id (pd_message p) = k \<and> m_source (pd_message p) = sw_node w"
        using Cons.prems(2) by (auto simp: win_def reports_ok_def put_age_def)
      moreover have "length ev = length (sw_evidence w)"
        using keys(1) by (metis length_map)
      ultimately have "reports_ok v"
        using Cons.prems(2) keys by (simp add: reports_ok_def v_def)
      moreover have "same_reports v w"
        using keys(1) Some by (simp add: same_reports_def v_def ev_def)
      ultimately have "reports_ok w1 \<and> same_reports w1 w"
        using Cons.IH [OF v] by (simp add: same_reports_def)
      then show ?thesis
        using Cons.prems(1) rec v by (auto split: sum.splits)
    qed
  qed
qed (simp add: same_reports_def)

lemma due_reports_ok:
  assumes "due_reports w now owner = (w', x)" "reports_ok w"
  shows "reports_ok w' \<and> same_reports w' w"
proof -
  obtain win y where y: "window_due (sw_window w) now = (win, y)" by (metis surj_pair)
  have msg: "pd_message (fst (due_entry v t p)) = pd_message p" for v t p
    by (simp add: due_entry_def split: option.split)
  have win: "map fst (dw_pending win) = map fst (dw_pending (sw_window w))" "dw_capacity win = dw_capacity (sw_window w)"
      "\<forall>(k, p) \<in> set (dw_pending win). m_id (pd_message p) = k \<and> m_source (pd_message p) = sw_node w"
  proof (atomize (full), cases "window_time (sw_window w) now")
    case (Inl e)
    with y assms(2) show "map fst (dw_pending win) = map fst (dw_pending (sw_window w)) \<and> dw_capacity win = dw_capacity (sw_window w) \<and>
        (\<forall>(k, p) \<in> set (dw_pending win). m_id (pd_message p) = k \<and> m_source (pd_message p) = sw_node w)"
      by (simp add: window_due_def reports_ok_def)
  next
    case (Inr v)
    then have v: "dw_capacity v = dw_capacity (sw_window w)" "dw_pending v = dw_pending (sw_window w)"
      by (auto simp: window_time_def split: if_splits)
    have "\<forall>(k, p) \<in> set (dw_pending (sw_window w)). m_id (pd_message p) = k \<and> m_source (pd_message p) = sw_node w"
      using assms(2) by (simp add: reports_ok_def)
    moreover have "win = v\<lparr>dw_pending := map (\<lambda>(k, p). (k, fst (due_entry v now p))) (dw_pending v)\<rparr>"
      using y Inr by (simp add: window_due_def)
    ultimately show "map fst (dw_pending win) = map fst (dw_pending (sw_window w)) \<and> dw_capacity win = dw_capacity (sw_window w) \<and>
        (\<forall>(k, p) \<in> set (dw_pending win). m_id (pd_message p) = k \<and> m_source (pd_message p) = sw_node w)"
      using v by (auto simp: msg)
  qed
  have "reports_ok (w\<lparr>sw_window := win\<rparr>)"
    using assms(2) win by (simp add: reports_ok_def)
  with assms(1) y age_reports_ok [OF _ this] show ?thesis
    by (auto simp: due_reports_def same_reports_def split: sum.splits)
qed

lemma keys_ddel_list: "map fst (ddel d k) = filter (\<lambda>x. x \<noteq> k) (map fst d)"
  unfolding ddel_def AList.delete_eq by (induction d) auto

lemma filter_ddel_le: "length (filter P (ddel d k)) \<le> length (filter P d)"
  unfolding ddel_def AList.delete_eq filter_filter by (induction d) auto

definition receipt :: "string \<Rightarrow> string \<Rightarrow> string \<Rightarrow> message \<Rightarrow> bool" where
  "receipt node owner i a \<longleftrightarrow> m_source a = owner \<and> m_target a = node \<and> ack_key a = PStr i \<and> stage_evidence GATEWAY_DURABLE a"

lemma lookup_key_Some: "lookup_key d k = Some v \<longleftrightarrow> (\<exists>s. k = PStr s \<and> map_of d s = Some v)"
  by (cases k) (simp_all add: lookup_key_def)

lemma confirm_report_ok:
  assumes "confirm_report w a sched owner now io = (w', sched', x)" "reports_ok w"
  shows "reports_ok w' \<and> sw_node w' = sw_node w \<and>
    (\<forall>i r. map_of (sw_evidence w) i = Some r \<longrightarrow> map_of (sw_evidence w') i = Some r \<or> receipt (sw_node w) owner i a)"
proof (cases "w' = w")
  case True
  with assms(2) show ?thesis by simp
next
  case False
  have hash: "hashable (ack_key a)"
    by (rule ccontr) (use assms(1) False in \<open>simp add: confirm_report_def\<close>)
  obtain row where row: "lookup_key (sw_evidence w) (ack_key a) = Some row"
    using assms(1) False hash by (cases "lookup_key (sw_evidence w) (ack_key a)") (auto simp: confirm_report_def)
  then obtain i where i: "ack_key a = PStr i" "map_of (sw_evidence w) i = Some row"
    by (auto simp: lookup_key_Some)
  have ends: "m_source a = owner \<and> m_target a = sw_node w"
  proof (rule ccontr)
    assume "\<not> (m_source a = owner \<and> m_target a = sw_node w)"
    then have no: "(m_source a \<noteq> owner \<or> m_target a \<noteq> sw_node w) = True" by simp
    have "confirm_report w a sched owner now io = (w, sched, Inr False)"
      unfolding confirm_report_def no row by (simp add: hash)
    with assms(1) False show False by simp
  qed
  have "map fst (dw_pending (sw_window w)) = map fst (sw_evidence w)"
    using assms(2) by (simp add: reports_ok_def)
  moreover have "i \<in> set (map fst (sw_evidence w))"
    using map_of_SomeD [OF i(2)] by force
  ultimately have "i \<in> fst ` set (dw_pending (sw_window w))"
    by (simp only: list.set_map [symmetric])
  then obtain p where p: "map_of (dw_pending (sw_window w)) i = Some p"
    by (metis map_of_eq_None_iff not_None_eq)
  then have mine: "m_id (pd_message p) = i" "m_source (pd_message p) = sw_node w"
    using assms(2) map_of_SomeD [OF p] by (auto simp: reports_ok_def)
  have st: "stage_evidence GATEWAY_DURABLE a"
    by (rule ccontr) (use assms(1) False hash row ends i p in \<open>simp add: confirm_report_def lookup_key_def\<close>)
  let ?ev = "ddel (sw_evidence w) (m_id (pd_message p))"
  let ?win = "retarget i owner (sw_window w)"
  define res where "res = save (sw_store w) ''sensor_reports'' (reports_value ?ev) now io"
  define w1 where "w1 s1 win = w\<lparr>sw_store := s1, sw_window := win, sw_evidence := ?ev, sw_alias := []\<rparr>" for s1 win
  have eq: "confirm_report w a sched owner now io = (case res of Inl e \<Rightarrow> (w, sched, Inl e)
     | Inr st \<Rightarrow>
         (case window_confirm ?win a GATEWAY_DURABLE of
            (win, Inr True) \<Rightarrow>
              if dgetn (row_payload row) ''boot_id'' = PStr (sw_boot w)
              then (case mark_reported sched (dict_of (dgetn row ''reading'')) (read_trust (dict_of (dgetn row ''trust'')))
                      (Some (num_of (dgetn row ''acquired_at''))) (Some (int_of (dgetn (row_message row) ''sequence''))) of
                      (s', Inl e) \<Rightarrow> (w1 st win, s', Inl e)
                    | (s', Inr _) \<Rightarrow> (w1 st win, s', Inr True))
              else (w1 st win, sched, Inr True)
          | (win, _) \<Rightarrow> (w\<lparr>sw_store := st, sw_window := win\<rparr>, sched, Inl KeyErr)))"
    unfolding confirm_report_def Let_def w1_def res_def i(1) of_simps using hash ends i p st by (simp add: lookup_key_def)
  then obtain s1 where save: "save (sw_store w) ''sensor_reports'' (reports_value ?ev) now io = Inr s1"
    using assms(1) False by (cases res) (auto simp: res_def)
  have "map_of (map (\<lambda>(k, p). (k, if k = i then p\<lparr>pd_message := (pd_message p)\<lparr>m_target := owner\<rparr>\<rparr> else p)) ps) i
      = map_option (\<lambda>p. p\<lparr>pd_message := (pd_message p)\<lparr>m_target := owner\<rparr>\<rparr>) (map_of ps i)" for ps :: "(string \<times> pending) list"
    by (induction ps) auto
  then have conf: "window_confirm ?win a GATEWAY_DURABLE = (?win\<lparr>dw_pending := ddel (dw_pending ?win) i\<rparr>, Inr True)"
    using hash i ends st p mine by (simp add: window_confirm_def lookup_key_def retarget_def cong: option.case_cong)
  let ?w = "w\<lparr>sw_store := s1, sw_window := ?win\<lparr>dw_pending := ddel (dw_pending ?win) i\<rparr>, sw_evidence := ?ev, sw_alias := []\<rparr>"
  have w': "w' = ?w"
    using assms(1) save unfolding eq res_def
    by (auto simp: conf w1_def split: if_split_asm prod.split_asm sum.split_asm)
  have rows: "list_all (evidence_row s1) ?ev"
    using assms(2) by (intro rows_stored [OF save]) (auto simp: reports_ok_def list_all_iff evidence_row_def set_ddel)
  have keys: "map fst (dw_pending ?win) = map fst (dw_pending (sw_window w))"
    by (auto simp: retarget_def)
  have "reports_ok ?w"
    using assms(2) rows [unfolded mine(1)] keys filter_ddel_le [of "row_normal \<circ> snd" "sw_evidence w" i] length_ddel_le [of "sw_evidence w" i]
    unfolding reports_ok_def mine(1)
    by (auto simp: keys_ddel_list set_ddel retarget_def simp del: comp_apply)
  moreover have "map_of ?ev j = Some r \<or> receipt (sw_node w) owner j a" if "map_of (sw_evidence w) j = Some r" for j r
    using that ends i(1) st by (auto simp: receipt_def mine(1))
  ultimately show ?thesis by (simp add: w')
qed

lemma row_from_dict:
  assumes "from_dict (dgetn r ''message'') = Inr m"
  shows "row_ident r = PStr (m_id m) \<and> row_payload r = m_payload m"
proof -
  obtain d where d: "dgetn r ''message'' = PDict d"
    using assms by (auto elim!: from_dictD)
  with from_dict_lookup [of d m] assms show ?thesis
    by (simp add: row_ident_def row_payload_def row_message_def)
qed

lemma restore_reports_ok:
  assumes "rows_valid h node seen prs" "restore_reports env w ev (map dict_of prs) = Inr (w', ev')"
    and "map fst (dw_pending w) = map fst ev" "set (map fst ev) = set seen" "distinct (map fst ev)"
    and "\<forall>(k, p) \<in> set (dw_pending w). m_id (pd_message p) = k \<and> m_source (pd_message p) = node"
  shows "dw_capacity w' = dw_capacity w \<and> map fst (dw_pending w') = map fst ev' \<and> distinct (map fst ev') \<and>
    (\<forall>(k, p) \<in> set (dw_pending w'). m_id (pd_message p) = k \<and> m_source (pd_message p) = node) \<and>
    ev' = ev @ map (\<lambda>r. (str_of (row_ident r), r)) (map dict_of prs) \<and>
    (\<forall>r \<in> set (map dict_of prs). row_high r \<and> (\<exists>i. row_ident r = PStr i))"
  using assms
proof (induction prs arbitrary: seen w ev)
  case (Cons pr prs)
  obtain r m y where r: "pr = PDict r" "from_dict (dgetn r ''message'') = Inr m" "identity_and_digest h m = Inr y" "m_source m = node"
      "m_id m \<notin> set seen" "dgetn (m_payload m) ''importance'' = PStr ''HIGH''" "rows_valid h node (m_id m # seen) prs"
    using Cons.prems(1) by (auto split: pyval.split_asm sum.split_asm)
  note row = row_from_dict [OF r(2)]
  obtain v x where v: "window_admit env w m 0 = (v, x)" by (metis surj_pair)
  then obtain b where b: "x = Inr b" and rest: "restore_reports env v (dset ev (m_id m) r) (map dict_of prs) = Inr (w', ev')"
    using Cons.prems(2) r(1, 2) by (cases x) auto
  have ids: "m_id m \<notin> set (map fst ev)"
    using r(5) Cons.prems(4) by simp
  then have fresh: "map_of ev (m_id m) = None" "map_of (dw_pending w) (m_id m) = None"
    using Cons.prems(3) by (simp_all add: map_of_eq_None_iff) (metis list.set_map)
  then have ev: "dset ev (m_id m) r = ev @ [(m_id m, r)]"
    by (simp add: dset_fresh)
  obtain p where p: "pd_message p = m" "dw_pending v = dw_pending w @ [(m_id m, p)]" "dw_capacity v = dw_capacity w"
    using window_admit_new [OF v fresh(2)] b by auto
  have "map fst (dw_pending v) = map fst (dset ev (m_id m) r)" "set (map fst (dset ev (m_id m) r)) = set (m_id m # seen)"
      "distinct (map fst (dset ev (m_id m) r))" "\<forall>(k, p) \<in> set (dw_pending v). m_id (pd_message p) = k \<and> m_source (pd_message p) = node"
    using Cons.prems(3-6) p ids r(4) by (auto simp: ev)
  note IH = Cons.IH [OF r(7) rest this]
  have "ev' = ev @ map (\<lambda>r. (str_of (row_ident r), r)) (map dict_of (pr # prs))"
    using IH row r(1) by (simp add: ev)
  moreover have "\<forall>r \<in> set (map dict_of (pr # prs)). row_high r \<and> (\<exists>i. row_ident r = PStr i)"
    using IH row r(1, 6) by (simp add: row_high_def)
  moreover have "dw_capacity w' = dw_capacity w"
    using IH p(3) by (simp only:)
  ultimately show ?case
    using IH by blast
qed simp

lemma report_window_init_ok:
  assumes "report_window_init env node boot st 16 io = Inr w"
  shows "reports_ok w \<and> sw_node w = node \<and> sw_store w = st \<and> (\<forall>i. report_stored st i \<longrightarrow> (\<exists>r. map_of (sw_evidence w) i = Some r \<and> row_high r))"
proof -
  obtain w0 where w0: "window_init 16 5 3 (Some 60) 300 = Inr w0" "dw_capacity w0 = 16" "dw_pending w0 = []"
    by (simp add: window_init_def)
  obtain ld where ld: "load st ''sensor_reports'' (saved_valid (st_digest st) node) False io = Inr ld"
    using assms w0(1) by (cases "load st ''sensor_reports'' (saved_valid (st_digest st) node) False io") (auto simp: report_window_init_def)
  show ?thesis
  proof (cases ld)
    case None
    then have "read_ns st ''sensor_reports'' = None"
      using ld by (auto simp: load_def read_ns_def Let_def List.map_filter_def split: if_split_asm list.split_asm)
    moreover have "w = \<lparr>sw_node = node, sw_boot = boot, sw_store = st, sw_window = w0, sw_evidence = [], sw_alias = []\<rparr>"
      using assms w0(1) ld None by (simp add: report_window_init_def)
    ultimately show ?thesis
      using w0 by (simp add: reports_ok_def report_stored_def)
  next
    case (Some v)
    then obtain r where r: "st_rows st (''sensor_reports'', 0) = Some r" "r_raw r = JText v" "r_checksum r = st_digest st (r_raw r)"
        "saved_valid (st_digest st) node v"
      using load_strict_slot0 ld by blast
    then have read: "read_ns st ''sensor_reports'' = Some v"
      by (simp add: read_ns_def load_def Let_def row_value_def loads_def List.map_filter_def)
    obtain d prs where v: "v = PDict d" "dgetn d ''reports'' = PList prs" "rows_valid (st_digest st) node [] prs"
      using r(4) by (auto simp: saved_valid_def split: pyval.split_asm)
    then have rows: "saved_rows v = map dict_of prs"
      by (simp add: saved_rows_def)
    obtain win ev where len: "length prs \<le> 16" and res: "restore_reports env w0 [] (map dict_of prs) = Inr (win, ev)"
        and w: "w = \<lparr>sw_node = node, sw_boot = boot, sw_store = st, sw_window = win, sw_evidence = ev, sw_alias = map fst ev\<rparr>"
      using assms w0(1) ld Some rows by (auto simp: report_window_init_def split: if_split_asm sum.split_asm)
    have k: "dw_capacity win = 16 \<and> map fst (dw_pending win) = map fst ev \<and> distinct (map fst ev) \<and>
        (\<forall>(k, p) \<in> set (dw_pending win). m_id (pd_message p) = k \<and> m_source (pd_message p) = node) \<and>
        ev = map (\<lambda>r. (str_of (row_ident r), r)) (map dict_of prs) \<and> (\<forall>r \<in> set (map dict_of prs). row_high r \<and> (\<exists>i. row_ident r = PStr i))"
      by (rule restore_reports_ok [OF v(3) res, unfolded w0(2) append_Nil]) (simp_all add: w0)
    then have k': "dw_capacity win = 16" "map fst (dw_pending win) = map fst ev" "distinct (map fst ev)"
        "\<forall>(k, p) \<in> set (dw_pending win). m_id (pd_message p) = k \<and> m_source (pd_message p) = node"
      by blast+
    from k have ev: "ev = map (\<lambda>r. (str_of (row_ident r), r)) (map dict_of prs)"
        and high: "\<forall>r \<in> set (map dict_of prs). row_high r \<and> (\<exists>i. row_ident r = PStr i)" by blast+
    have st: "report_stored st i \<longleftrightarrow> (\<exists>r \<in> set (map dict_of prs). row_ident r = PStr i)" for i
      by (simp add: report_stored_def read rows list_ex_iff)
    have "list_all (evidence_row st) ev"
      using high unfolding ev list_all_iff by (fastforce simp: evidence_row_def st)
    moreover have "filter (row_normal \<circ> snd) ev = []"
      using high high_not_normal unfolding ev by (auto simp: filter_empty_conv)
    moreover have "length ev \<le> 16"
      using len ev by simp
    moreover have "\<exists>r. map_of ev i = Some r \<and> row_high r" if "report_stored st i" for i
    proof -
      from that st obtain r where r: "r \<in> set (map dict_of prs)" "row_ident r = PStr i" by blast
      then have "(i, r) \<in> set ev" unfolding ev by force
      moreover have "distinct (map fst ev)" using k' by simp
      ultimately show ?thesis using high r(1) by auto
    qed
    ultimately show ?thesis
      using k' by (simp add: reports_ok_def w)
  qed
qed

section \<open>Runs of a node\<close>

datatype report_event =
    Made message dict trust real real bool
  | Asked real string
  | Answered message sense string real bool
  | Rebooted string bool

text \<open>A node whose window cannot be built stays down until the next start.\<close>

fun report_step :: "lora_env \<Rightarrow> report_window \<times> bool \<Rightarrow> report_event \<Rightarrow> report_window \<times> bool" where
  "report_step env (w, up) (Made m reading t acquired now io) = ((if up then fst (admit_report env w m reading t acquired now io) else w), up)"
| "report_step env (w, up) (Asked now owner) = ((if up then fst (due_reports w now owner) else w), up)"
| "report_step env (w, up) (Answered a sched owner now io) = ((if up then fst (confirm_report w a sched owner now io) else w), up)"
| "report_step env (w, up) (Rebooted boot io) =
     (case report_window_init env (sw_node w) boot (sw_store w) 16 io of Inl e \<Rightarrow> (w, False) | Inr w' \<Rightarrow> (w', True))"

text \<open>The messages that a node reports are its own.\<close>

definition own_event :: "string \<Rightarrow> report_event \<Rightarrow> bool" where
  "own_event node e = (case e of Made m reading t acquired now io \<Rightarrow> m_source m = node | _ \<Rightarrow> True)"

definition receipt_event :: "string \<Rightarrow> string \<Rightarrow> report_event \<Rightarrow> bool" where
  "receipt_event node i e = (case e of Answered a sched owner now io \<Rightarrow> receipt node owner i a | _ \<Rightarrow> False)"

definition held :: "report_window \<times> bool \<Rightarrow> string \<Rightarrow> bool" where
  "held s i \<longleftrightarrow> report_stored (sw_store (fst s)) i \<and> (snd s \<longrightarrow> (\<exists>row. map_of (sw_evidence (fst s)) i = Some row \<and> row_high row))"

lemma high_row_stored: "reports_ok w \<Longrightarrow> map_of (sw_evidence w) i = Some r \<Longrightarrow> row_high r \<Longrightarrow> report_stored (sw_store w) i"
  by (drule map_of_SomeD) (auto simp: reports_ok_def list_all_iff evidence_row_def)

lemma report_step_ok:
  assumes "report_step env (w, up) e = (w', up')" "reports_ok w" "own_event (sw_node w) e"
  shows "reports_ok w' \<and> sw_node w' = sw_node w \<and> (held (w, up) i \<longrightarrow> held (w', up') i \<or> receipt_event (sw_node w) i e)"
proof (cases "\<not> up \<and> (\<forall>boot io. e \<noteq> Rebooted boot io)")
  case True
  with assms show ?thesis by (cases e) auto
next
  case False
  show ?thesis
  proof (cases e)
    case (Made m reading t acquired now io)
    obtain v x where v: "admit_report env w m reading t acquired now io = (v, x)" by (metis surj_pair)
    from admit_report_ok [OF v assms(2)] assms(1, 3) False high_row_stored [of v i] show ?thesis
      by (auto simp: Made v own_event_def held_def)
  next
    case (Asked now owner)
    obtain v x where v: "due_reports w now owner = (v, x)" by (metis surj_pair)
    have ok: "reports_ok v" "same_reports v w" using due_reports_ok [OF v assms(2)] by blast+
    have "\<exists>r. map_of (sw_evidence v) i = Some r \<and> row_high r" if "map_of (sw_evidence w) i = Some r" "row_high r" for r
    proof -
      have "map_option row_high (map_of (sw_evidence v) i) = Some True"
        using ok(2) that by (simp add: same_reports_def)
      then show ?thesis by auto
    qed
    with ok assms(1) False show ?thesis
      by (auto simp: Asked v held_def same_reports_def)
  next
    case (Answered a sched owner now io)
    obtain v s' x where v: "confirm_report w a sched owner now io = (v, s', x)" by (metis surj_pair)
    note ok = confirm_report_ok [OF v assms(2)]
    have "held (w, True) i \<longrightarrow> held (v, True) i \<or> receipt (sw_node w) owner i a"
    proof (cases "receipt (sw_node w) owner i a")
      case no: False
      have "map_of (sw_evidence v) i = Some r" if "map_of (sw_evidence w) i = Some r" for r
        using ok no that by blast
      with ok high_row_stored [of v i] show ?thesis by (auto simp: held_def)
    qed simp
    moreover have up: "up" using False by (simp add: Answered)
    moreover have "w' = v" "up'" using assms(1) up by (simp_all add: Answered v)
    ultimately show ?thesis
      using ok by (simp add: Answered receipt_event_def)
  next
    case (Rebooted boot io)
    show ?thesis
    proof (cases "report_window_init env (sw_node w) boot (sw_store w) 16 io")
      case (Inl x)
      with assms(1, 2) show ?thesis by (simp add: Rebooted held_def)
    next
      case (Inr v)
      with report_window_init_ok [OF Inr] assms(1) show ?thesis
        by (simp add: Rebooted held_def)
    qed
  qed
qed

lemma report_run_ok:
  assumes "reports_ok (fst s)" "\<forall>e \<in> set es. own_event (sw_node (fst s)) e"
  shows "reports_ok (fst (run (report_step env) s es)) \<and> sw_node (fst (run (report_step env) s es)) = sw_node (fst s) \<and>
    (held s i \<longrightarrow> held (run (report_step env) s es) i \<or> (\<exists>e \<in> set es. receipt_event (sw_node (fst s)) i e))"
  using assms
proof (induction es arbitrary: s)
  case (Cons e es)
  obtain w up where s: "s = (w, up)" by force
  obtain w' up' where s': "report_step env (w, up) e = (w', up')" by (metis surj_pair)
  have "reports_ok w" "own_event (sw_node w) e" using Cons.prems by (simp_all add: s)
  note ok = report_step_ok [OF s' this, of i]
  with Cons.IH [of "(w', up')"] Cons.prems(2) show ?case
    by (auto simp: s s')
qed simp

text \<open>
  C29: a HIGH report is never lost. Once a node in durable mode has admitted a HIGH report, then after any
  further reports, retries, acknowledgements, failed saves, power cuts and restarts the report is in the
  state database, and in the window of the running node, unless the gateway that owned the node at that
  moment acknowledged this very report with the durable receipt of the delivery contract.
\<close>

theorem high_report_kept:
  assumes "report_window_init env node boot st 16 io0 = Inr w0" "\<forall>e \<in> set before \<union> set es. own_event node e"
    and "run (report_step env) (w0, True) before = (w, True)"
    and "admit_report env w m reading t acquired now io = (w1, Inr True)" "m_source m = node"
    and "dgetn (m_payload m) ''importance'' = PStr ''HIGH''" "run (report_step env) (w1, True) es = (w2, up)"
    and "\<forall>e \<in> set es. \<not> receipt_event node (m_id m) e"
  shows "report_stored (sw_store w2) (m_id m) \<and> (up \<longrightarrow> dhas (sw_evidence w2) (m_id m))"
proof -
  have w0: "reports_ok w0" "sw_node w0 = node"
    using report_window_init_ok [OF assms(1)] by simp_all
  then have w: "reports_ok w" "sw_node w = node"
    using report_run_ok [of "(w0, True)" before env] assms(2, 3) by simp_all
  then have w1: "reports_ok w1" "sw_node w1 = node" "map_of (sw_evidence w1) (m_id m) = Some (report_row m reading t acquired)"
    using admit_report_ok [OF assms(4)] assms(5) by simp_all
  moreover have "row_high (report_row m reading t acquired)"
    using assms(6) by (simp add: row_high_def)
  ultimately have "held (w1, True) (m_id m)"
    using high_row_stored [OF w1(1)] by (simp add: held_def)
  then have "held (w2, up) (m_id m)"
    using report_run_ok [of "(w1, True)" es env "m_id m"] w1 assms(2, 7, 8) by auto
  then show ?thesis by (auto simp: held_def)
qed

text \<open>
  C30: the reserve of the report window. Whatever NORMAL reports pile up, a HIGH report of the node never meets
  backpressure (\<^verbatim>\<open>StateError\<close>) while fewer than a quarter of the sixteen places hold HIGH
  reports; and the window never holds more than sixteen reports, of which at most twelve NORMAL.
\<close>

theorem high_report_has_room:
  assumes "report_window_init env node boot st 16 io0 = Inr w0" "\<forall>e \<in> set es. own_event node e"
    and "run (report_step env) (w0, True) es = (w, True)"
  shows "length (sw_evidence w) \<le> 16 \<and> length (filter (row_normal \<circ> snd) (sw_evidence w)) \<le> 12 \<and>
    (dgetn (m_payload m) ''importance'' = PStr ''HIGH'' \<and> length (filter (row_high \<circ> snd) (sw_evidence w)) < 4 \<longrightarrow>
       snd (admit_report env w m reading t acquired now io) \<noteq> Inl (StateErr e))"
proof -
  have w: "reports_ok w"
    using report_window_init_ok [OF assms(1)] report_run_ok [of "(w0, True)" es env] assms(2, 3) by simp
  have rows: "length (filter (row_high \<circ> snd) ev) + length (filter (row_normal \<circ> snd) ev) = length ev"
    if "list_all (evidence_row st) ev" for st ev
    using that
  proof (induction ev)
    case (Cons r ev)
    then show ?case using high_not_normal [of "snd r"] by (auto simp: evidence_row_def)
  qed simp
  have "snd (admit_report env w m reading t acquired now io) \<noteq> Inl (StateErr e)"
    if high: "dgetn (m_payload m) ''importance'' = PStr ''HIGH''" "length (filter (row_high \<circ> snd) (sw_evidence w)) < 4"
  proof -
    have room: "length (sw_evidence w) < dw_capacity (sw_window w)"
      using w rows [of "sw_store w" "sw_evidence w"] high(2) by (simp add: reports_ok_def)
    let ?st = "sw_store w" and ?ev = "dset (sw_evidence w) (m_id m) (report_row m reading t acquired)"
    let ?t = "max acquired (case dw_last (sw_window w) of None \<Rightarrow> 0 | Some l \<Rightarrow> l)"
    show ?thesis
    proof (cases "identity_and_digest (st_digest ?st) m")
      case (Inl x)
      with not_state_err(1) show ?thesis by (auto simp: admit_report_def)
    next
      case ident: (Inr x)
      show ?thesis
      proof (cases "map_of (sw_evidence w) (m_id m)")
        case (Some r)
        with ident show ?thesis by (simp add: admit_report_def)
      next
        case new: None
        then have "map_of (dw_pending (sw_window w)) (m_id m) = None"
          using w unfolding reports_ok_def by (metis map_of_eq_None_iff set_map)
        moreover obtain win z where win: "window_admit env (sw_window w) m ?t = (win, z)" by (metis surj_pair)
        ultimately have "z \<noteq> Inl (StateErr e)"
          using window_admit_new by (cases z) fastforce+
        moreover have "save ?st ''sensor_reports'' (reports_value ?ev) now io \<noteq> Inl (StateErr e)"
          by (rule not_state_err(4))
        ultimately show ?thesis
          using ident new room high(1)
          by (cases "save ?st ''sensor_reports'' (reports_value ?ev) now io"; cases z) (simp_all add: admit_report_def Let_def win)
      qed
    qed
  qed
  with w show ?thesis by (simp add: reports_ok_def)
qed

section \<open>Witnesses\<close>

definition demo_lora :: lora_env where
  "demo_lora = \<lparr>le_bytes = (\<lambda>v. [1]), le_parse = (\<lambda>bs. Inr PNone), le_hash = (\<lambda>s. replicate 16 0), le_utf8 = length\<rparr>"

definition demo_high :: message where
  [model_defs]: "demo_high = demo_reliable\<lparr>m_payload := dset (m_payload demo_reliable) ''importance'' (PStr ''HIGH'')\<rparr>"

lemma demo_high_identity: "identity_and_digest h demo_high = Inr (''B1-b-0000000a-S'', h (JText (canon (PDict (m_payload demo_high)))))"
  by (simp add: identity_and_digest_def demo_high_def demo_reliable_def new_message_def Let_def dgetn_def is_str_def str_of_def integer_def
      int_of_def boot_chars_def sample_id_of_def demo_hex suffix_of_def metadata_ok_def nonempty_str_def number_def
      int_finite_def num_of_def dumps_def evidence_of_def json_ok_PDict dset_def)

lemma demo_high_canonical: "canonical demo_lora demo_high = Inr [1]"
proof -
  have fin: "finite_json (PDict (m_payload demo_high))"
    by (simp add: demo_high_def demo_reliable_def finite_json_PDict int_finite_def dset_def)
  then have "wf_message demo_high"
    by (simp add: wf_message_def demo_high_def demo_reliable_def new_message_def wf_opt_def)
  from from_to_dict [OF this] fin show ?thesis
    by (simp add: canonical_def identity_def demo_lora_def MAX_MESSAGE_def)
      (simp add: demo_high_def demo_reliable_def new_message_def to_dict_def opt_entry_def json_ok_PDict finite_json_json_ok dset_def)
qed

theorem retries_back_off_witness:
  "\<exists>w0 v. window_init 8 5 3 (Some 60) 300 = Inr w0 \<and> window_admit demo_lora w0 demo_high 0 = (v, Inr True) \<and>
     sends demo_lora v (m_id demo_high) [Polled 0, Polled 1, Polled 4] ! 0 + 3 \<le> sends demo_lora v (m_id demo_high) [Polled 0, Polled 1, Polled 4] ! 1"
proof -
  obtain w0 where w0: "window_init 8 5 3 (Some 60) 300 = Inr w0"
    by (simp add: window_init_def)
  then have w: "w0 = \<lparr>dw_capacity = 8, dw_attempts = 5, dw_timeout = 3, dw_recovery = Some 60, dw_longest = 300, dw_pending = [], dw_last = None\<rparr>"
    by (simp add: window_init_def)
  obtain v where v: "window_admit demo_lora w0 demo_high 0 = (v, Inr True)"
    by (simp add: window_admit_def window_time_def demo_high_canonical w)
  have ev: "v = \<lparr>dw_capacity = 8, dw_attempts = 5, dw_timeout = 3, dw_recovery = Some 60, dw_longest = 300,
      dw_pending = [(m_id demo_high, fresh_pending w0 demo_high 0)], dw_last = Some 0\<rparr>"
    using v by (auto simp: window_admit_def window_time_def demo_high_canonical w fresh_pending_def dset_def)
  have two: "sends demo_lora v (m_id demo_high) [Polled 0, Polled 1, Polled 4] = [0, 4]"
    by (simp add: ev sent_now_def window_due_def window_time_def due_entry_def fresh_pending_def)
  have "sends demo_lora v (m_id demo_high) [Polled 0, Polled 1, Polled 4] ! 0 + retry_gap w0 60 0
      \<le> sends demo_lora v (m_id demo_high) [Polled 0, Polled 1, Polled 4] ! Suc 0"
  proof (rule retries_back_off [OF w0 _ v])
    show "same_bounds w0 w0" by (simp add: same_bounds_def)
    show "Suc 0 < length (sends demo_lora v (m_id demo_high) [Polled 0, Polled 1, Polled 4])"
      unfolding two by simp
  qed
  moreover have "retry_gap w0 60 0 = 3"
    by (simp add: retry_gap_def w)
  ultimately show ?thesis
    using w0 v by auto
qed

definition demo_quality_ok :: trust where
  "demo_quality_ok = \<lparr>tr_score = 100, tr_state = HEALTHY, tr_flags = [], tr_channels = [], tr_usable = True\<rparr>"

lemma demo_start: "\<exists>w0. report_window_init demo_lora ''B1'' ''b'' (store_init (\<lambda>_. ''h'')) 16 True = Inr w0 \<and>
    sw_node w0 = ''B1'' \<and> sw_evidence w0 = [] \<and> dw_pending (sw_window w0) = [] \<and> dw_capacity (sw_window w0) = 16 \<and> dw_last (sw_window w0) = None"
  by (simp add: report_window_init_def window_init_def load_def store_init_def)

lemma demo_report_admitted:
  assumes "sw_evidence w = []" "dw_pending (sw_window w) = []" "dw_capacity (sw_window w) = 16" "dw_last (sw_window w) = None"
  shows "\<exists>w1. admit_report demo_lora w demo_high [] demo_quality_ok 0 0 True = (w1, Inr True)"
proof -
  have fin: "finite_json (PDict (m_payload demo_high))"
    by (simp add: demo_high_def demo_reliable_def finite_json_PDict int_finite_def dset_def)
  then have "json_ok (PDict (to_dict demo_high))"
    by (simp add: demo_high_def demo_reliable_def new_message_def to_dict_def opt_entry_def json_ok_PDict finite_json_json_ok dset_def)
  then have "json_ok (reports_value (dset (sw_evidence w) (m_id demo_high) (report_row demo_high [] demo_quality_ok 0)))"
    by (simp add: assms(1) reports_value_def report_row_def json_ok_PDict trust_dict_def demo_quality_ok_def dset_def)
  then obtain st where "save (sw_store w) ''sensor_reports'' (reports_value (dset (sw_evidence w) (m_id demo_high) (report_row demo_high [] demo_quality_ok 0))) 0 True = Inr st"
    using save_ok by blast
  moreover have "dgetn (m_payload demo_high) ''importance'' \<noteq> PStr ''NORMAL''"
    by (simp add: demo_high_def)
  ultimately show ?thesis
    using assms by (simp add: admit_report_def demo_high_identity Let_def window_admit_def window_time_def demo_high_canonical)
qed

lemma demo_high_fields: "m_source demo_high = ''B1''" "dgetn (m_payload demo_high) ''importance'' = PStr ''HIGH''"
  by (simp_all add: demo_high_def demo_reliable_def)

theorem high_report_kept_witness:
  "\<exists>w0 w1. report_window_init demo_lora ''B1'' ''b'' (store_init (\<lambda>_. ''h'')) 16 True = Inr w0 \<and>
     admit_report demo_lora w0 demo_high [] demo_quality_ok 0 0 True = (w1, Inr True) \<and>
     report_stored (sw_store (fst (run (report_step demo_lora) (w1, True) [Asked 1 ''A1'', Rebooted ''c'' True]))) (m_id demo_high)"
proof -
  obtain w0 where w0: "report_window_init demo_lora ''B1'' ''b'' (store_init (\<lambda>_. ''h'')) 16 True = Inr w0"
      and empty: "sw_evidence w0 = []" "dw_pending (sw_window w0) = []" "dw_capacity (sw_window w0) = 16" "dw_last (sw_window w0) = None"
    using demo_start by blast
  obtain w1 where w1: "admit_report demo_lora w0 demo_high [] demo_quality_ok 0 0 True = (w1, Inr True)"
    using demo_report_admitted [OF empty] by blast
  obtain w2 up where w2: "run (report_step demo_lora) (w1, True) [Asked 1 ''A1'', Rebooted ''c'' True] = (w2, up)" by (metis surj_pair)
  have "run (report_step demo_lora) (w0, True) [] = (w0, True)" by simp
  from high_report_kept [OF w0 _ this w1 demo_high_fields w2]
  have "report_stored (sw_store w2) (m_id demo_high)"
    by (simp add: own_event_def receipt_event_def)
  with w0 w1 w2 show ?thesis by auto
qed

theorem high_report_has_room_witness:
  "\<exists>w0. report_window_init demo_lora ''B1'' ''b'' (store_init (\<lambda>_. ''h'')) 16 True = Inr w0 \<and>
     snd (admit_report demo_lora w0 demo_high [] demo_quality_ok 0 0 False) \<noteq> Inl (StateErr ''sensor outbox full'')"
proof -
  obtain w0 where w0: "report_window_init demo_lora ''B1'' ''b'' (store_init (\<lambda>_. ''h'')) 16 True = Inr w0" and empty: "sw_evidence w0 = []"
    using demo_start by blast
  have "run (report_step demo_lora) (w0, True) [] = (w0, True)" by simp
  from high_report_has_room [OF w0 _ this, where m = demo_high and reading = "[]" and t = demo_quality_ok and acquired = 0 and now = 0 and
      io = False and e = "''sensor outbox full''"] demo_high_fields(2) empty w0
  show ?thesis by auto
qed

end
