(* ===== verification/WholeFarm.thy ===== *)
theory WholeFarm
  imports Farm Reports
begin

text \<open>
  Sensor nodes, gateways and the cloud together. The farm of theory Farm takes its steps, and each sensor
  node holds the report window of theory Reports. The field network keeps everything that a gateway
  ever answered to a node and may deliver any of it, any number of times, late, to any node, or never. A
  node may hear anything else from anybody, except that durable receipts come from gateways only.
\<close>

section \<open>The system\<close>

record world =
  wo_farm :: farm
  wo_nodes :: "string \<Rightarrow> report_window \<times> bool"
  wo_field :: "message list"

datatype world_op = WFarm farm_op | WNode string report_event | WReceipt string nat sense string real bool

definition gateway_says :: "farm \<Rightarrow> farm_op \<Rightarrow> message list" where
  "gateway_says f op =
     (case op of FGateway n gop \<Rightarrow> if from_server gop then [] else map snd (answers (fm_gateways f n) gop) | _ \<Rightarrow> [])"

definition durable_answer :: "report_event \<Rightarrow> bool" where
  "durable_answer e = (case e of Answered a sched owner now io \<Rightarrow> stage_evidence GATEWAY_DURABLE a | _ \<Rightarrow> False)"

definition at_node :: "lora_env \<Rightarrow> world \<Rightarrow> string \<Rightarrow> report_event \<Rightarrow> world" where
  "at_node env x n e = x\<lparr>wo_nodes := (wo_nodes x)(n := report_step env (wo_nodes x n) e)\<rparr>"

fun world_step :: "lora_env \<Rightarrow> world \<Rightarrow> world_op \<Rightarrow> world" where
  "world_step env x (WFarm op) = x\<lparr>wo_farm := farm_step (wo_farm x) op, wo_field := wo_field x @ gateway_says (wo_farm x) op\<rparr>"
| "world_step env x (WNode n e) = (if durable_answer e \<or> \<not> own_event n e then x else at_node env x n e)"
| "world_step env x (WReceipt n k sched owner now io) =
     (if k < length (wo_field x) then at_node env x n (Answered (wo_field x ! k) sched owner now io) else x)"

definition start_world :: "farm \<Rightarrow> (string \<Rightarrow> report_window) \<Rightarrow> world" where
  "start_world f ws = \<lparr>wo_farm = f, wo_nodes = (\<lambda>n. (ws n, True)), wo_field = []\<rparr>"

section \<open>The invariant\<close>

definition told :: "farm \<Rightarrow> string \<Rightarrow> bool" where
  "told f i \<longleftrightarrow> (\<exists>g. i \<in> promised (g_outbox (gs_gw (fm_gateways f g))))"

definition world_ok :: "world \<Rightarrow> bool" where
  "world_ok x \<longleftrightarrow> farm_ok (wo_farm x) \<and> (\<forall>n. reports_ok (fst (wo_nodes x n)) \<and> sw_node (fst (wo_nodes x n)) = n) \<and>
     (\<forall>a \<in> set (wo_field x). \<forall>i. receipt_names a i \<longrightarrow> told (wo_farm x) i)"

definition reported :: "world \<Rightarrow> string \<Rightarrow> string \<Rightarrow> bool" where
  "reported x n i \<longleftrightarrow> held (wo_nodes x n) i \<or> told (wo_farm x) i"

lemma told_later: "told f i \<Longrightarrow> farm_later f f' \<Longrightarrow> told f' i"
  unfolding told_def farm_later_def only_removes_def by blast

lemma receipt_is_named: "receipt node owner i a \<Longrightarrow> receipt_names a i"
  by (simp add: receipt_def receipt_names_def stage_evidence_def ack_key_def Let_def)

lemma answers_told:
  assumes "a \<in> set (gateway_says f op)" "receipt_names a i"
  shows "told (farm_step f op) i"
proof -
  obtain n gop where op: "op = FGateway n gop" "\<not> from_server gop" "a \<in> snd ` set (answers (fm_gateways f n) gop)"
    using assms(1) by (auto simp: gateway_says_def split: farm_op.splits if_splits)
  then have "tells_durable (answers (fm_gateways f n) gop) i"
    using assms(2) unfolding tells_durable_def receipt_names_def by fastforce
  from answer_promised [OF this] have "i \<in> promised (g_outbox (gs_gw (fm_gateways (farm_step f op) n)))"
    using op by (simp add: at_gateway_def)
  then show ?thesis by (auto simp: told_def)
qed

lemma at_node_ok:
  assumes "world_ok x" "own_event n e" "\<forall>i. receipt_event n i e \<longrightarrow> told (wo_farm x) i"
  shows "world_ok (at_node env x n e) \<and> (reported x k i \<longrightarrow> reported (at_node env x n e) k i)"
proof -
  obtain w up where w: "wo_nodes x n = (w, up)" by force
  obtain w' up' where w': "report_step env (w, up) e = (w', up')" by (metis surj_pair)
  have ok: "reports_ok w" "sw_node w = n"
    using assms(1) w unfolding world_ok_def by (metis fst_conv)+
  from report_step_ok [OF w' ok(1), of i] assms(2) ok(2)
  have s: "reports_ok w' \<and> sw_node w' = n \<and> (held (w, up) i \<longrightarrow> held (w', up') i \<or> receipt_event n i e)"
    by simp
  have "world_ok (at_node env x n e)"
    using assms(1) s by (simp add: world_ok_def at_node_def w w')
  moreover have "reported (at_node env x n e) k i" if "reported x k i"
    using that s assms(3) by (cases "k = n") (auto simp: reported_def at_node_def w w')
  ultimately show ?thesis by blast
qed

lemma world_step_ok:
  assumes "world_ok x"
  shows "world_ok (world_step env x op) \<and> (reported x n i \<longrightarrow> reported (world_step env x op) n i)"
proof (cases op)
  case (WFarm fop)
  have f: "farm_ok (farm_step (wo_farm x) fop)" "farm_later (wo_farm x) (farm_step (wo_farm x) fop)"
    using farm_step_ok [of "wo_farm x" fop] assms by (simp_all add: world_ok_def)
  have "told (farm_step (wo_farm x) fop) i" if "a \<in> set (wo_field x @ gateway_says (wo_farm x) fop)" "receipt_names a i" for a i
    using that assms told_later [OF _ f(2)] answers_told unfolding world_ok_def by auto
  with assms f(1) have "world_ok (world_step env x op)"
    by (auto simp: world_ok_def WFarm)
  with told_later [OF _ f(2)] show ?thesis
    by (auto simp: reported_def WFarm)
next
  case (WNode m e)
  show ?thesis
  proof (cases "durable_answer e \<or> \<not> own_event m e")
    case False
    then have "\<forall>i. \<not> receipt_event m i e"
      by (auto simp: receipt_event_def durable_answer_def receipt_def split: report_event.splits)
    with False at_node_ok [OF assms, of m e env n i] show ?thesis
      by (simp add: WNode)
  qed (use assms in \<open>simp add: WNode\<close>)
next
  case (WReceipt m k sched owner now io)
  show ?thesis
  proof (cases "k < length (wo_field x)")
    case True
    then have "told (wo_farm x) i" if "receipt_names (wo_field x ! k) i" for i
      using assms that nth_mem [OF True] unfolding world_ok_def by blast
    then have "\<forall>i. receipt_event m i (Answered (wo_field x ! k) sched owner now io) \<longrightarrow> told (wo_farm x) i"
      using receipt_is_named by (simp add: receipt_event_def)
    with True at_node_ok [OF assms, of m "Answered (wo_field x ! k) sched owner now io" env n i] show ?thesis
      by (simp add: WReceipt own_event_def)
  qed (use assms in \<open>simp add: WReceipt\<close>)
qed

definition world_later :: "world \<Rightarrow> world \<Rightarrow> bool" where
  "world_later x x' \<longleftrightarrow> (\<forall>n i. reported x n i \<longrightarrow> reported x' n i)"

interpretation world_runs: steady world_ok world_later "world_step env" for env
  by unfold_locales (auto simp: world_later_def world_step_ok)

lemma start_world_ok:
  assumes "farm_ok f" "\<forall>n. \<exists>boot st io. report_window_init env n boot st 16 io = Inr (ws n)"
  shows "world_ok (start_world f ws)"
  using assms report_window_init_ok unfolding world_ok_def start_world_def by fastforce

section \<open>From the field to the cloud\<close>

text \<open>
  C1: no HIGH report is lost between the sensor and the cloud. Once a node has admitted a HIGH report, then at
  every later moment it is in the node's own database, in the outbox of a gateway or in the history of the
  server on disk, over every interleaving of all nodes, gateways and the server, with frames lost, repeated
  and delayed on both networks, storage faults everywhere, and restarts of every part.
\<close>

theorem high_report_reaches_cloud:
  assumes "server_start (database_new path digest no_tables) INITIAL_POLICY_VERSION io0 c1 c2 c3 = (db, Inr s)"
    and "\<forall>g. fresh_gateway (gs g)" "\<forall>n. \<exists>boot st io. report_window_init env n boot st 16 io = Inr (ws n)"
    and "x = run (world_step env) (start_world (fresh_farm gs s) ws) before" "wo_nodes x n = (w, True)"
    and "admit_report env w m reading t acquired now io = (w1, Inr True)" "m_source m = n" "dgetn (m_payload m) ''importance'' = PStr ''HIGH''"
    and "y = run (world_step env) x (WNode n (Made m reading t acquired now io) # later_ops)"
  shows "report_stored (sw_store (fst (wo_nodes y n))) (m_id m) \<or>
    (\<exists>g. m_id m \<in> outbox_ids (g_outbox (gs_gw (fm_gateways (wo_farm y) g)))) \<or>
    m_id m \<in> set (row_ids (db_disk (cloud_db (fm_cloud (wo_farm y)))))"
proof -
  have x: "world_ok x"
    using world_runs.steady_run start_world_ok [OF fresh_farm_ok [OF assms(1, 2)] assms(3)] assms(4) by blast
  then have w: "reports_ok w" "sw_node w = n"
    using assms(5) unfolding world_ok_def by (metis fst_conv)+
  define z where "z = world_step env x (WNode n (Made m reading t acquired now io))"
  have z: "world_ok z"
    unfolding z_def using world_step_ok [OF x] by blast
  have node: "wo_nodes z n = (w1, True)"
    using assms(5-7) by (simp add: z_def durable_answer_def own_event_def at_node_def)
  have "reports_ok w1" "map_of (sw_evidence w1) (m_id m) = Some (report_row m reading t acquired)"
    using admit_report_ok [OF assms(6) w(1)] assms(7) w(2) by simp_all
  then have "held (wo_nodes z n) (m_id m)"
    using high_row_stored [of w1 "m_id m"] assms(8) by (simp add: held_def node row_high_def)
  then have "reported z n (m_id m)" by (simp add: reported_def)
  moreover have "y = run (world_step env) z later_ops"
    using assms(9) by (simp add: z_def)
  ultimately have y: "world_ok y" "reported y n (m_id m)"
    using world_runs.steady_run [OF z] unfolding world_later_def by blast+
  have "told (wo_farm y) (m_id m) \<Longrightarrow> (\<exists>g. m_id m \<in> outbox_ids (g_outbox (gs_gw (fm_gateways (wo_farm y) g)))) \<or> m_id m \<in> cloud_ids (wo_farm y)"
    using y(1) unfolding world_ok_def farm_ok_def replay_ok_def covered_def told_def by blast
  with y(2) show ?thesis
    by (auto simp: reported_def held_def cloud_ids_def)
qed

section \<open>One report on its way\<close>

text \<open>
  The report of B1, the afternoon of theory GatewayDemo in which A1 admits and acknowledges a sample with its
  id, the receipt, and a restart of the node.
\<close>

definition demo_journey :: "sense \<Rightarrow> world_op list" where
  "demo_journey sched = map WFarm (map (FGateway ''A1'') demo_ops @ FGateway ''A1'' (GSensor (\<lambda>_. ''h'') (gw_io 3 ''r4'')) # demo_trip) @
     [WNode ''B1'' (Asked 1 ''A1''), WReceipt ''B1'' 0 sched ''A1'' 5 True, WNode ''B1'' (Rebooted ''c'' True)]"

lemma demo_windows:
  "\<exists>ws. (\<forall>n. \<exists>boot st io. report_window_init demo_lora n boot st 16 io = Inr (ws n)) \<and>
     sw_evidence (ws ''B1'') = [] \<and> dw_pending (sw_window (ws ''B1'')) = [] \<and> dw_capacity (sw_window (ws ''B1'')) = 16 \<and>
     dw_last (sw_window (ws ''B1'')) = None"
proof -
  have "\<exists>w. report_window_init demo_lora n ''b'' (store_init (\<lambda>_. ''h'')) 16 True = Inr w \<and>
      sw_evidence w = [] \<and> dw_pending (sw_window w) = [] \<and> dw_capacity (sw_window w) = 16 \<and> dw_last (sw_window w) = None" for n
    by (simp add: report_window_init_def window_init_def load_def store_init_def)
  then obtain ws where "\<And>n. report_window_init demo_lora n ''b'' (store_init (\<lambda>_. ''h'')) 16 True = Inr (ws n) \<and>
      sw_evidence (ws n) = [] \<and> dw_pending (sw_window (ws n)) = [] \<and> dw_capacity (sw_window (ws n)) = 16 \<and> dw_last (sw_window (ws n)) = None"
    by metis
  then show ?thesis by blast
qed

theorem high_report_reaches_cloud_witness:
  "\<exists>sched s ws y. sense_init demo_sense_settings None None DEFAULT_POLICY = Inr sched \<and> y = run (world_step demo_lora) (start_world (fresh_farm (\<lambda>_. started demo_gateway) s) ws)
       (WNode ''B1'' (Made demo_high [] demo_quality_ok 0 0 True) # demo_journey sched) \<and>
     (report_stored (sw_store (fst (wo_nodes y ''B1''))) (m_id demo_high) \<or>
      (\<exists>g. m_id demo_high \<in> outbox_ids (g_outbox (gs_gw (fm_gateways (wo_farm y) g)))) \<or>
      m_id demo_high \<in> set (row_ids (db_disk (cloud_db (fm_cloud (wo_farm y))))))"
proof -
  obtain db s where s: "server_start (database_new ''c'' (\<lambda>_ _. ''d'') no_tables) INITIAL_POLICY_VERSION True Committed Committed Committed = (db, Inr s)"
    using first_start by blast
  obtain sched where sched: "sense_init demo_sense_settings None None DEFAULT_POLICY = Inr sched"
    using demo_sense by blast
  obtain ws where ws: "\<forall>n. \<exists>boot st io. report_window_init demo_lora n boot st 16 io = Inr (ws n)"
    and w: "sw_evidence (ws ''B1'') = []" "dw_pending (sw_window (ws ''B1'')) = []" "dw_capacity (sw_window (ws ''B1'')) = 16"
      "dw_last (sw_window (ws ''B1'')) = None"
    using demo_windows by blast
  obtain w1 where w1: "admit_report demo_lora (ws ''B1'') demo_high [] demo_quality_ok 0 0 True = (w1, Inr True)"
    using demo_report_admitted [OF w] by blast
  have x: "start_world (fresh_farm (\<lambda>_. started demo_gateway) s) ws = run (world_step demo_lora) (start_world (fresh_farm (\<lambda>_. started demo_gateway) s) ws) []"
    by simp
  have b: "wo_nodes (start_world (fresh_farm (\<lambda>_. started demo_gateway) s) ws) ''B1'' = (ws ''B1'', True)"
    by (simp add: start_world_def)
  from high_report_reaches_cloud [OF s demo_fresh ws x b w1 demo_high_fields refl, of "demo_journey sched"]
  show ?thesis using sched by blast
qed

end
