(* ===== verification/Reassembly.thy ===== *)
theory Reassembly
  imports LoraCodec
begin

text \<open>
  \<^verbatim>\<open>common/lora/reassembly.py\<close>: the receiver that collects the frames of a message in a bounded
  number of slots. Frames may come in any order, repeated, mixed with those of other messages.
\<close>

section \<open>State\<close>

record slot =
  sl_frame :: frame
  sl_deadline :: real
  sl_payload :: bytes
  sl_seen :: "nat set"
  sl_quarantined :: bool

record reassembler =
  ra_capacity :: nat
  ra_timeout :: real
  ra_sessions :: "(byte \<times> bytes) list"
  ra_slots :: "(frame_ident \<times> slot) list"
  ra_last :: "real option"
  ra_expired :: nat
  ra_duplicates :: nat
  ra_rejected :: nat

definition reassembler_init :: "int \<Rightarrow> real \<Rightarrow> (byte \<times> bytes) list \<Rightarrow> py_error + reassembler" where
  "reassembler_init capacity timeout sessions =
     (if \<not> (1 \<le> capacity \<and> capacity \<le> 16) \<or> \<not> (0 < timeout \<and> timeout \<le> 60) then Inl (ValueErr ''reassembly bounds'')
      else Inr \<lparr>ra_capacity = nat capacity, ra_timeout = timeout, ra_sessions = sessions, ra_slots = [], ra_last = None,
        ra_expired = 0, ra_duplicates = 0, ra_rejected = 0\<rparr>)"

section \<open>Receiving\<close>

definition expire_slots :: "reassembler \<Rightarrow> real \<Rightarrow> reassembler \<times> py_error option" where
  "expire_slots r now =
     (if now < 0 \<or> (case ra_last r of None \<Rightarrow> False | Some l \<Rightarrow> now < l)
      then (r\<lparr>ra_slots := []\<rparr>, Some (ValueErr ''receiver clock rollback''))
      else (r\<lparr>ra_last := Some now, ra_slots := filter (\<lambda>(k, s). now < sl_deadline s) (ra_slots r),
              ra_expired := ra_expired r + length (filter (\<lambda>(k, s). sl_deadline s \<le> now) (ra_slots r))\<rparr>, None))"

definition open_slot :: "reassembler \<Rightarrow> frame \<Rightarrow> real \<Rightarrow> slot" where
  "open_slot r f now =
     \<lparr>sl_frame = f, sl_deadline = now + ra_timeout r, sl_payload = replicate (unat (fr_total f)) 0, sl_seen = {}, sl_quarantined = False\<rparr>"

text \<open>Assignment to a slice of the same length.\<close>

definition overwrite :: "bytes \<Rightarrow> nat \<Rightarrow> bytes \<Rightarrow> bytes" where
  "overwrite bs i xs = take i bs @ xs @ drop (i + length xs) bs"

definition put_slot :: "reassembler \<Rightarrow> frame_ident \<Rightarrow> slot \<Rightarrow> reassembler" where
  "put_slot r k s = r\<lparr>ra_slots := dset (ra_slots r) k s\<rparr>"

definition fill_slot :: "lora_env \<Rightarrow> reassembler \<Rightarrow> frame \<Rightarrow> slot \<Rightarrow> reassembler \<times> (py_error + message option)" where
  "fill_slot env r f s =
     (let k = frame_key f; start = unat (fr_index f) * unat (fr_chunk f)
      in if sl_quarantined s \<or> frame_metadata f \<noteq> frame_metadata (sl_frame s)
         then (put_slot r k (s\<lparr>sl_quarantined := True\<rparr>), Inl (ValueErr ''fragment metadata conflict''))
         else if unat (fr_index f) \<in> sl_seen s \<and> slice (sl_payload s) start (length (fr_payload f)) \<noteq> fr_payload f
         then (put_slot r k (s\<lparr>sl_quarantined := True\<rparr>), Inl (ValueErr ''duplicate fragment conflict''))
         else let again = (unat (fr_index f) \<in> sl_seen s);
                  s1 = (if again then s else s\<lparr>sl_payload := overwrite (sl_payload s) start (fr_payload f), sl_seen := insert (unat (fr_index f)) (sl_seen s)\<rparr>);
                  r1 = put_slot (if again then r\<lparr>ra_duplicates := ra_duplicates r + 1\<rparr> else r) k s1
              in if card (sl_seen s1) \<noteq> unat (fr_count f) then (r1, Inr None)
                 else let r2 = r1\<lparr>ra_slots := ddel (ra_slots r1) k\<rparr>
                      in if crc32 (sl_payload s1) \<noteq> fr_message_crc f then (r2, Inl (ValueErr ''message CRC''))
                         else (r2, map_sum id Some (application env (sl_payload s1) f)))"

definition feed_frame :: "lora_env \<Rightarrow> reassembler \<Rightarrow> bytes \<Rightarrow> real \<Rightarrow> reassembler \<times> (py_error + message option)" where
  "feed_frame env r0 wire now =
     (case expire_slots r0 now of
        (r, Some e) \<Rightarrow> (r, Inl e)
      | (r, None) \<Rightarrow>
          (case decode wire of
             Inl e \<Rightarrow> (r, Inl e)
           | Inr f \<Rightarrow>
               if map_of (ra_sessions r) (fr_source f) \<notin> {None, Some (fr_session f)}
               then (r\<lparr>ra_rejected := ra_rejected r + 1\<rparr>, Inl (ValueErr ''session mismatch''))
               else (case map_of (ra_slots r) (frame_key f) of
                   Some s \<Rightarrow> fill_slot env r f s
                 | None \<Rightarrow>
                     if ra_capacity r \<le> length (ra_slots r)
                     then (r\<lparr>ra_rejected := ra_rejected r + 1\<rparr>, Inl (ValueErr ''reassembly capacity''))
                     else fill_slot env (put_slot r (frame_key f) (open_slot r f now)) f (open_slot r f now))))"

definition reserved_bytes :: "reassembler \<Rightarrow> nat" where
  "reserved_bytes r = sum_list (map (length \<circ> sl_payload \<circ> snd) (ra_slots r))"

fun feed_run :: "lora_env \<Rightarrow> reassembler \<Rightarrow> (bytes \<times> real) list \<Rightarrow> reassembler \<times> (py_error + message option) list" where
  "feed_run env r [] = (r, [])"
| "feed_run env r ((w, t) # es) =
     (case feed_frame env r w t of (r1, x) \<Rightarrow> (case feed_run env r1 es of (r2, xs) \<Rightarrow> (r2, x # xs)))"

section \<open>Bounded memory\<close>

definition slot_ok :: "slot \<Rightarrow> bool" where
  "slot_ok s \<longleftrightarrow> length (sl_payload s) = unat (fr_total (sl_frame s)) \<and> unat (fr_total (sl_frame s)) \<le> MAX_MESSAGE"

definition slots_ok :: "reassembler \<Rightarrow> bool" where
  "slots_ok r \<longleftrightarrow> length (ra_slots r) \<le> ra_capacity r \<and> (\<forall>(k, s) \<in> set (ra_slots r). slot_ok s)"

lemma slots_reserved: "slots_ok r \<Longrightarrow> reserved_bytes r \<le> ra_capacity r * MAX_MESSAGE"
proof -
  assume s: "slots_ok r"
  have "sum_list (map (length \<circ> sl_payload \<circ> snd) xs) \<le> length xs * MAX_MESSAGE" if "\<forall>(k, s) \<in> set xs. slot_ok s"
    for xs :: "(frame_ident \<times> slot) list"
    using that by (induction xs) (auto simp: slot_ok_def)
  with s have "reserved_bytes r \<le> length (ra_slots r) * MAX_MESSAGE"
    by (auto simp: slots_ok_def reserved_bytes_def)
  also have "\<dots> \<le> ra_capacity r * MAX_MESSAGE"
    using s by (simp add: slots_ok_def)
  finally show ?thesis .
qed

lemma decode_bounds:
  assumes "decode w = Inr f"
  shows "fragment_bounds (unat (fr_total f)) (unat (fr_chunk f)) (unat (fr_count f)) (unat (fr_index f))"
    "length (fr_payload f) = min (unat (fr_chunk f)) (unat (fr_total f) - unat (fr_index f) * unat (fr_chunk f))"
    "unat (fr_index f) * unat (fr_chunk f) + length (fr_payload f) \<le> unat (fr_total f)"
proof -
  show b: "fragment_bounds (unat (fr_total f)) (unat (fr_chunk f)) (unat (fr_count f)) (unat (fr_index f))"
    and l: "length (fr_payload f) = min (unat (fr_chunk f)) (unat (fr_total f) - unat (fr_index f) * unat (fr_chunk f))"
    using assms by (auto simp: decode_def Let_def frame_of_def HEADER_SIZE_def split: if_splits)
  show "unat (fr_index f) * unat (fr_chunk f) + length (fr_payload f) \<le> unat (fr_total f)"
    using l b rest_nonempty [of "unat (fr_index f)" "unat (fr_total f)" "unat (fr_chunk f)"] by (auto simp: fragment_bounds_def)
qed

lemma length_overwrite: "i + length xs \<le> length bs \<Longrightarrow> length (overwrite bs i xs) = length bs"
  by (simp add: overwrite_def)

lemma put_slot_ok:
  assumes "slots_ok r" "slot_ok s" "map_of (ra_slots r) k \<noteq> None \<or> length (ra_slots r) < ra_capacity r"
  shows "slots_ok (put_slot r k s)"
  using assms set_dset_subset [of "ra_slots r" k s] length_dset [of "ra_slots r" k s]
  by (auto simp: slots_ok_def put_slot_def)

lemma same_metadata:
  assumes "frame_metadata f = frame_metadata g"
  shows "fr_total f = fr_total g" "fr_chunk f = fr_chunk g" "fr_count f = fr_count g" "fr_message_crc f = fr_message_crc g"
  using assms by (cases f; cases g; simp add: frame_metadata_def)+

lemma ddel_ok: "slots_ok r \<Longrightarrow> slots_ok (r\<lparr>ra_slots := ddel (ra_slots r) k\<rparr>)"
  using length_ddel_le [of "ra_slots r" k] by (auto simp: slots_ok_def set_ddel)

lemma fill_slot_ok:
  assumes "fill_slot env r f s = (r', x)" "slots_ok r" "slot_ok s" "decode w = Inr f" "map_of (ra_slots r) (frame_key f) \<noteq> None"
  shows "slots_ok r' \<and> ra_capacity r' = ra_capacity r"
proof -
  let ?k = "frame_key f" and ?start = "unat (fr_index f) * unat (fr_chunk f)"
  have bad: "slots_ok (put_slot r ?k (s\<lparr>sl_quarantined := True\<rparr>))"
    using assms(3, 5) by (intro put_slot_ok [OF assms(2)]) (simp_all add: slot_ok_def)
  have dup: "slots_ok (r\<lparr>ra_duplicates := n\<rparr>)" for n
    using assms(2) by (simp add: slots_ok_def)
  have good: "slots_ok (put_slot (r\<lparr>ra_duplicates := n\<rparr>) ?k s)" for n
    using assms(3, 5) by (intro put_slot_ok [OF dup]) simp_all
  have fill: "slots_ok (put_slot r ?k (s\<lparr>sl_payload := overwrite (sl_payload s) ?start (fr_payload f), sl_seen := S\<rparr>))"
    if "frame_metadata f = frame_metadata (sl_frame s)" for S
    using assms(3, 5) decode_bounds(3) [OF assms(4)] same_metadata(1) [OF that]
    by (intro put_slot_ok [OF assms(2)]) (simp_all add: slot_ok_def length_overwrite)
  have cap: "ra_capacity (put_slot q k x) = ra_capacity q" for q k x
    by (simp add: put_slot_def)
  note fin = ddel_ok [OF good, of _ ?k] ddel_ok [OF fill, of _ ?k]
  show ?thesis
    using assms(1) bad good fill fin
    by (auto simp: fill_slot_def Let_def cap split: if_splits)
qed

lemma feed_frame_ok:
  assumes "feed_frame env r w t = (r', x)" "slots_ok r"
  shows "slots_ok r' \<and> ra_capacity r' = ra_capacity r"
proof -
  obtain r1 e where ex: "expire_slots r t = (r1, e)" by (metis surj_pair)
  have r1: "slots_ok r1" "ra_capacity r1 = ra_capacity r"
    using ex assms(2) by (auto simp: expire_slots_def slots_ok_def split: if_splits option.splits intro: order_trans [OF length_filter_le])
  show ?thesis
  proof (cases "e = None \<and> (\<exists>f. decode w = Inr f)")
    case False
    then show ?thesis
      using assms(1) ex r1 by (auto simp: feed_frame_def split: option.splits sum.splits)
  next
    case True
    then obtain f where f: "decode w = Inr f" "e = None" by auto
    have rej: "slots_ok (r1\<lparr>ra_rejected := n\<rparr>)" for n
      using r1 by (simp add: slots_ok_def)
    have new: "slot_ok (open_slot r1 f t)"
      using decode_bounds(1) [OF f(1)] by (simp add: slot_ok_def open_slot_def fragment_bounds_def)
    have put: "slots_ok (put_slot r1 (frame_key f) (open_slot r1 f t))" if "length (ra_slots r1) < ra_capacity r1"
      using put_slot_ok [OF r1(1) new] that by simp
    have old: "slot_ok s" if "map_of (ra_slots r1) (frame_key f) = Some s" for s
      using r1(1) map_of_SomeD [OF that] by (auto simp: slots_ok_def)
    show ?thesis
      using assms(1) ex f r1 rej fill_slot_ok [OF _ r1(1) old f(1)] fill_slot_ok [OF _ put new f(1)]
      by (fastforce simp: feed_frame_def put_slot_def split: if_splits option.splits)
  qed
qed

text \<open>
  C28: the receiver's memory is bounded whatever is on the air. After any sequence of byte strings at any
  times, valid, damaged, hostile or out of order, a receiver holds at most as many partial messages as
  its capacity and reserves at most 4096 bytes for each.
\<close>

theorem receiver_memory_bounded:
  assumes "reassembler_init capacity timeout sessions = Inr r0" "feed_run env r0 es = (r, outs)"
  shows "length (ra_slots r) \<le> nat capacity \<and> reserved_bytes r \<le> nat capacity * 4096"
proof -
  have run: "slots_ok r' \<and> ra_capacity r' = ra_capacity r1" if "feed_run env r1 es = (r', outs)" "slots_ok r1" for r1 r' outs es
    using that
  proof (induction es arbitrary: r1 outs)
    case (Cons e es)
    obtain w t where e: "e = (w, t)" by force
    obtain r2 x where f: "feed_frame env r1 w t = (r2, x)" by (metis surj_pair)
    from feed_frame_ok [OF f Cons.prems(2)] Cons.prems(1) Cons.IH [of r2] f e show ?case
      by (auto split: prod.splits)
  qed simp
  have "slots_ok r0" "ra_capacity r0 = nat capacity"
    using assms(1) by (auto simp: reassembler_init_def slots_ok_def split: if_splits)
  with run [OF assms(2)] slots_reserved [of r] show ?thesis
    by (simp add: slots_ok_def MAX_MESSAGE_def)
qed


section \<open>Exact reassembly\<close>

text \<open>
  What the code relies on of \<^verbatim>\<open>json\<close> and \<^verbatim>\<open>hashlib\<close>: the text of the value parses back to
  the value with its keys sorted, and the truncated hash has 16 bytes.
\<close>

definition lora_ok :: "lora_env \<Rightarrow> pyval \<Rightarrow> bool" where
  "lora_ok env v \<longleftrightarrow> le_parse env (le_bytes env v) = Inr (canon v) \<and> (\<forall>s. length (le_hash env s) = 16)"

definition same_message :: "bytes \<Rightarrow> bytes \<Rightarrow> bool" where
  "same_message v w = (case decode v of Inl e \<Rightarrow> False
     | Inr f \<Rightarrow> (case decode w of Inl e \<Rightarrow> False | Inr g \<Rightarrow> frame_key f = frame_key g))"

text \<open>A receiver that can start on the message of a frame at a time.\<close>

definition can_start :: "reassembler \<Rightarrow> bytes \<Rightarrow> real \<Rightarrow> bool" where
  "can_start r w t = (case decode w of Inl e \<Rightarrow> False
     | Inr f \<Rightarrow> map_of (ra_slots r) (frame_key f) = None \<and> length (ra_slots r) < ra_capacity r \<and>
         (case map_of (ra_sessions r) (fr_source f) of None \<Rightarrow> True | Some x \<Rightarrow> x = fr_session f) \<and>
         0 \<le> t \<and> (case ra_last r of None \<Rightarrow> True | Some l \<Rightarrow> l \<le> t) \<and> 0 < ra_timeout r)"

text \<open>The receiver has a slot for a message, with the frames of some indices in it.\<close>

definition collecting :: "reassembler \<Rightarrow> frame \<Rightarrow> bytes \<Rightarrow> real \<Rightarrow> nat set \<Rightarrow> real \<Rightarrow> bool" where
  "collecting r f raw dl S t \<longleftrightarrow>
     (\<exists>s. map_of (ra_slots r) (frame_key f) = Some s \<and> \<not> sl_quarantined s \<and> frame_metadata (sl_frame s) = frame_metadata f \<and>
        sl_seen s = S \<and> sl_deadline s = dl \<and> length (sl_payload s) = length raw \<and>
        (\<forall>j < length raw. j div unat (fr_chunk f) \<in> S \<longrightarrow> sl_payload s ! j = raw ! j)) \<and>
     map_of (ra_sessions r) (fr_source f) \<in> {None, Some (fr_session f)} \<and>
     0 \<le> t \<and> (case ra_last r of None \<Rightarrow> True | Some l \<Rightarrow> l \<le> t)"

lemma map_of_filter_Some: "map_of xs k = Some v \<Longrightarrow> P (k, v) \<Longrightarrow> map_of (filter P xs) k = Some v"
  by (induction xs) (auto split: if_splits)

lemma map_of_filter_None: "map_of xs k = None \<Longrightarrow> map_of (filter P xs) k = None"
  by (induction xs) (auto split: if_splits)

lemma expire_keeps:
  assumes "collecting r f raw dl S t0" "t0 \<le> t" "t < dl"
  shows "snd (expire_slots r t) = None \<and> collecting (fst (expire_slots r t)) f raw dl S t"
  using assms by (auto simp: collecting_def expire_slots_def split: option.splits intro: map_of_filter_Some)

lemma nth_overwrite:
  assumes "i + length xs \<le> length bs" "j < length bs"
  shows "overwrite bs i xs ! j = (if i \<le> j \<and> j < i + length xs then xs ! (j - i) else bs ! j)"
  using assms by (auto simp: overwrite_def nth_append min_def)

text \<open>The piece of a message that a frame carries.\<close>

definition piece_of :: "frame \<Rightarrow> bytes \<Rightarrow> bool" where
  "piece_of f raw \<longleftrightarrow> unat (fr_total f) = length raw \<and> 1 \<le> unat (fr_chunk f) \<and>
     unat (fr_count f) = ceil_div (length raw) (unat (fr_chunk f)) \<and> unat (fr_index f) < unat (fr_count f) \<and>
     fr_payload f = slice raw (unat (fr_index f) * unat (fr_chunk f)) (unat (fr_chunk f))"

lemma div_range: "1 \<le> c \<Longrightarrow> i * c \<le> j \<and> j < i * c + c \<longleftrightarrow> j div c = (i :: nat)"
proof
  assume "1 \<le> c" "i * c \<le> j \<and> j < i * c + c"
  then show "j div c = i"
    by (intro div_nat_eqI) (simp_all add: mult.commute)
next
  assume "1 \<le> c" "j div c = i"
  then show "i * c \<le> j \<and> j < i * c + c"
    using dividend_less_div_times [of c j] by (auto simp: add.commute)
qed

lemma pieces_cover: "1 \<le> c \<Longrightarrow> j < n \<Longrightarrow> j div c < ceil_div n c"
proof -
  assume c: "1 \<le> c" and j: "j < n"
  have "j + c \<le> n + c - 1" using j by simp
  then have "(j + c) div c \<le> (n + c - 1) div c" by (rule div_le_mono)
  with c show ?thesis by (simp add: ceil_div_def)
qed

lemma piece_fits:
  assumes "piece_of f raw"
  shows "unat (fr_index f) * unat (fr_chunk f) < length raw"
    "unat (fr_index f) * unat (fr_chunk f) + length (fr_payload f) \<le> length raw"
    "\<And>j. j < length raw \<Longrightarrow> j div unat (fr_chunk f) = unat (fr_index f) \<longleftrightarrow>
       unat (fr_index f) * unat (fr_chunk f) \<le> j \<and> j < unat (fr_index f) * unat (fr_chunk f) + length (fr_payload f)"
proof -
  let ?i = "unat (fr_index f)" and ?c = "unat (fr_chunk f)"
  have p: "1 \<le> ?c" "?i < ceil_div (length raw) ?c" "fr_payload f = slice raw (?i * ?c) ?c"
    using assms by (simp_all add: piece_of_def)
  show lt: "?i * ?c < length raw" by (rule rest_nonempty [OF p(2, 1)])
  have l: "length (fr_payload f) = min (length raw - ?i * ?c) ?c"
    by (simp add: p(3) slice_def)
  then show "?i * ?c + length (fr_payload f) \<le> length raw" using lt by simp
  show "j div ?c = ?i \<longleftrightarrow> ?i * ?c \<le> j \<and> j < ?i * ?c + length (fr_payload f)" if "j < length raw" for j
    using div_range [OF p(1), of ?i j] l lt that by (auto simp: min_def split: if_splits)
qed

text \<open>One frame of the message into its slot.\<close>

lemma fill_step:
  assumes c: "collecting r f0 raw dl S t" and key: "frame_key f = frame_key f0" and md: "frame_metadata f = frame_metadata f0"
    and p: "piece_of f raw" and s: "map_of (ra_slots r) (frame_key f) = Some s"
    and S: "S \<subseteq> {..< ceil_div (length raw) (unat (fr_chunk f))}" "S \<noteq> {..< ceil_div (length raw) (unat (fr_chunk f))}"
    and out: "fill_slot env r f s = (r', x)"
  defines "T \<equiv> insert (unat (fr_index f)) S"
  shows "if T = {..< ceil_div (length raw) (unat (fr_chunk f))}
    then x = (if crc32 raw = fr_message_crc f then map_sum id Some (application env raw f) else Inl (ValueErr ''message CRC''))
    else x = Inr None \<and> collecting r' f0 raw dl T t"
proof -
  let ?i = "unat (fr_index f)" and ?c = "unat (fr_chunk f)" and ?n = "ceil_div (length raw) (unat (fr_chunk f))"
  have c0: "unat (fr_chunk f0) = ?c" and src: "fr_source f0 = fr_source f"
    using same_metadata(2) [OF md] key by (simp_all add: frame_key_def)
  have sl: "\<not> sl_quarantined s" "frame_metadata (sl_frame s) = frame_metadata f0" "sl_seen s = S" "sl_deadline s = dl"
      "length (sl_payload s) = length raw" "\<And>j. j < length raw \<Longrightarrow> j div ?c \<in> S \<Longrightarrow> sl_payload s ! j = raw ! j"
    using c s by (auto simp: collecting_def key c0)
  have n: "unat (fr_count f) = ?n" "?i < ?n"
    using p by (simp_all add: piece_of_def)
  note fit = piece_fits [OF p]
  have pay: "fr_payload f ! (j - ?i * ?c) = raw ! j" if "?i * ?c \<le> j" "j < ?i * ?c + length (fr_payload f)" for j
    using that fit(1) p by (simp add: piece_of_def slice_def)
  have same: "slice (sl_payload s) (?i * ?c) (length (fr_payload f)) = fr_payload f" if "?i \<in> S"
  proof (rule nth_equalityI)
    show "length (slice (sl_payload s) (?i * ?c) (length (fr_payload f))) = length (fr_payload f)"
      using fit(2) sl(5) by (simp add: slice_def)
    fix j
    assume "j < length (slice (sl_payload s) (?i * ?c) (length (fr_payload f)))"
    then have j: "j < length (fr_payload f)"
      by (simp add: slice_def)
    then show "slice (sl_payload s) (?i * ?c) (length (fr_payload f)) ! j = fr_payload f ! j"
      using fit(2) fit(3) [of "?i * ?c + j"] sl(5) sl(6) [of "?i * ?c + j"] that pay [of "?i * ?c + j"] by (simp add: slice_def)
  qed
  define pl where "pl = (if ?i \<in> S then sl_payload s else overwrite (sl_payload s) (?i * ?c) (fr_payload f))"
  have pl: "length pl = length raw" "\<And>j. j < length raw \<Longrightarrow> j div ?c \<in> T \<Longrightarrow> pl ! j = raw ! j"
  proof -
    show "length pl = length raw"
      using fit(2) sl(5) by (simp add: pl_def length_overwrite)
    fix j
    assume j: "j < length raw" "j div ?c \<in> T"
    show "pl ! j = raw ! j"
    proof (cases "?i \<in> S")
      case True
      with j sl(6) show ?thesis by (simp add: pl_def T_def insert_absorb)
    next
      case False
      then have "pl ! j = (if j div ?c = ?i then fr_payload f ! (j - ?i * ?c) else sl_payload s ! j)"
        using fit(2) sl(5) j(1) by (simp only: pl_def if_False nth_overwrite fit(3) [OF j(1)])
      also have "\<dots> = raw ! j"
      proof (cases "j div ?c = ?i")
        case True
        with fit(3) [OF j(1)] have "?i * ?c \<le> j" "j < ?i * ?c + length (fr_payload f)" by simp_all
        from pay [OF this] True show ?thesis by simp
      next
        case False
        with sl(6) [OF j(1)] j(2) show ?thesis by (simp add: T_def)
      qed
      finally show ?thesis .
    qed
  qed
  define s1 where "s1 = s\<lparr>sl_payload := pl, sl_seen := T\<rparr>"
  have s1: "(if ?i \<in> S then s else s\<lparr>sl_payload := overwrite (sl_payload s) (?i * ?c) (fr_payload f), sl_seen := insert ?i S\<rparr>) = s1"
    using sl(3) by (cases s) (auto simp: s1_def pl_def T_def insert_absorb)
  have sub: "T \<subseteq> {..< ?n}"
    using S(1) n(2) by (simp add: T_def)
  have T: "card T = ?n \<longleftrightarrow> T = {..< ?n}"
    using card_subset_eq [OF finite_lessThan sub] by auto
  define q where "q = (if ?i \<in> S then r\<lparr>ra_duplicates := ra_duplicates r + 1\<rparr> else r)"
  define q1 where "q1 = put_slot q (frame_key f) s1"
  have step: "fill_slot env r f s = (if card T \<noteq> ?n then (q1, Inr None)
      else if crc32 pl \<noteq> fr_message_crc f then (q1\<lparr>ra_slots := ddel (ra_slots q1) (frame_key f)\<rparr>, Inl (ValueErr ''message CRC''))
      else (q1\<lparr>ra_slots := ddel (ra_slots q1) (frame_key f)\<rparr>, map_sum id Some (application env pl f)))"
  proof -
    have calm: "(sl_quarantined s \<or> frame_metadata f \<noteq> frame_metadata (sl_frame s)) = False"
      "(?i \<in> S \<and> slice (sl_payload s) (?i * ?c) (length (fr_payload f)) \<noteq> fr_payload f) = False"
      using sl(1, 2) md same by auto
    have parts: "sl_seen s1 = T" "sl_payload s1 = pl"
      by (simp_all add: s1_def)
    show ?thesis
      unfolding fill_slot_def Let_def sl(3) calm if_False s1 q_def [symmetric] q1_def [symmetric] parts n(1) ..
  qed
  show ?thesis
  proof (cases "T = {..< ?n}")
    case True
    have "pl = raw"
    proof (rule nth_equalityI)
      fix j
      assume "j < length pl"
      with pl(1) have j: "j < length raw" by simp
      have "1 \<le> ?c" using p by (simp add: piece_of_def)
      from pieces_cover [OF this j] True show "pl ! j = raw ! j"
        by (intro pl(2) [OF j]) simp
    qed (rule pl(1))
    with True T step out show ?thesis by (auto split: if_splits)
  next
    case False
    with T step out have "x = Inr None" "r' = q1" by (auto split: if_splits)
    moreover have "collecting q1 f0 raw dl T t"
      using c pl sl(1, 2, 4) by (auto simp: collecting_def q1_def q_def put_slot_def s1_def key c0)
    ultimately show ?thesis using False by simp
  qed
qed

lemma fill_slot_other:
  "fill_slot env r f s = (r', x) \<Longrightarrow> k \<noteq> frame_key f \<Longrightarrow>
     map_of (ra_slots r') k = map_of (ra_slots r) k \<and> ra_sessions r' = ra_sessions r \<and> ra_last r' = ra_last r"
  by (auto simp: fill_slot_def Let_def put_slot_def split: if_splits)

lemma feed_stranger:
  assumes c: "collecting r f0 raw dl S t0" "t0 \<le> t" "t < dl" and w: "\<And>f. decode w = Inr f \<Longrightarrow> frame_key f \<noteq> frame_key f0"
  shows "collecting (fst (feed_frame env r w t)) f0 raw dl S t"
proof -
  obtain r1 where r1: "expire_slots r t = (r1, None)" "collecting r1 f0 raw dl S t"
    using expire_keeps [OF c] by (metis prod.collapse)
  show ?thesis
  proof (cases "decode w")
    case (Inl e)
    with r1 show ?thesis by (simp add: feed_frame_def)
  next
    case (Inr f)
    have key: "frame_key f0 \<noteq> frame_key f" using w [OF Inr] by simp
    have fill: "collecting (fst (fill_slot env q f s)) f0 raw dl S t" if "collecting q f0 raw dl S t" for q s
    proof -
      obtain q' x where q': "fill_slot env q f s = (q', x)" by (metis surj_pair)
      from fill_slot_other [OF q' key] that show ?thesis by (simp add: collecting_def q')
    qed
    have rej: "collecting (r1\<lparr>ra_rejected := n\<rparr>) f0 raw dl S t" for n
      using r1(2) by (simp add: collecting_def)
    have put: "collecting (put_slot r1 (frame_key f) s) f0 raw dl S t" for s
      using r1(2) key by (simp add: collecting_def put_slot_def)
    show ?thesis
      using r1 Inr fill rej put by (simp add: feed_frame_def split: option.split)
  qed
qed

text \<open>A frame of the message.\<close>

definition ours :: "frame \<Rightarrow> bytes \<Rightarrow> bytes \<Rightarrow> bool" where
  "ours f0 raw w \<longleftrightarrow> (\<exists>f. decode w = Inr f \<and> frame_key f = frame_key f0 \<and> frame_metadata f = frame_metadata f0 \<and> piece_of f raw \<and>
     fr_message_crc f = crc32 raw)"

definition step_outcome :: "lora_env \<Rightarrow> frame \<Rightarrow> bytes \<Rightarrow> real \<Rightarrow> nat set \<Rightarrow> real \<Rightarrow> frame \<Rightarrow> reassembler \<times> (py_error + message option) \<Rightarrow> bool" where
  "step_outcome env f0 raw dl T t f res \<longleftrightarrow>
     (if T = {..< ceil_div (length raw) (unat (fr_chunk f0))} then snd res = map_sum id Some (application env raw f)
      else snd res = Inr None \<and> collecting (fst res) f0 raw dl T t)"

lemma fill_outcome:
  assumes "collecting r f0 raw dl S t" "frame_key f = frame_key f0" "frame_metadata f = frame_metadata f0" "piece_of f raw"
    "fr_message_crc f = crc32 raw" "map_of (ra_slots r) (frame_key f) = Some s"
    and "S \<subset> {..< ceil_div (length raw) (unat (fr_chunk f0))}"
  shows "step_outcome env f0 raw dl (insert (unat (fr_index f)) S) t f (fill_slot env r f s)"
proof -
  obtain r' x where r': "fill_slot env r f s = (r', x)" by (metis surj_pair)
  from fill_step [OF assms(1-4, 6) _ _ r'] assms(5, 7) same_metadata(2) [OF assms(3)] show ?thesis
    by (simp add: r' step_outcome_def psubset_eq split: if_splits)
qed

lemma feed_ours:
  assumes c: "collecting r f0 raw dl S t0" "t0 \<le> t" "t < dl" and w: "ours f0 raw w"
    and S: "S \<subset> {..< ceil_div (length raw) (unat (fr_chunk f0))}"
  obtains f where "decode w = Inr f" "step_outcome env f0 raw dl (insert (unat (fr_index f)) S) t f (feed_frame env r w t)"
proof -
  obtain r1 where r1: "expire_slots r t = (r1, None)" "collecting r1 f0 raw dl S t"
    using expire_keeps [OF c] by (metis prod.collapse)
  obtain f where f: "decode w = Inr f" "frame_key f = frame_key f0" "frame_metadata f = frame_metadata f0" "piece_of f raw"
      "fr_message_crc f = crc32 raw"
    using w by (auto simp: ours_def)
  obtain s where s: "map_of (ra_slots r1) (frame_key f) = Some s"
    using r1(2) f(2) by (auto simp: collecting_def)
  have "fr_source f = fr_source f0" "fr_session f = fr_session f0"
    using f(2) by (simp_all add: frame_key_def)
  with r1 f(1) s have "feed_frame env r w t = fill_slot env r1 f s"
    by (auto simp: feed_frame_def collecting_def)
  with fill_outcome [OF r1(2) f(2-5) s S] f(1) show ?thesis
    by (intro that) auto
qed

lemma feed_start:
  assumes st: "can_start r w t" and w: "ours f0 raw w" "decode w = Inr f0"
  shows "step_outcome env f0 raw (t + ra_timeout r) {unat (fr_index f0)} t f0 (feed_frame env r w t)"
proof -
  have f: "piece_of f0 raw" "fr_message_crc f0 = crc32 raw"
    using w by (auto simp: ours_def)
  obtain r1 where r1: "expire_slots r t = (r1, None)" "map_of (ra_slots r1) (frame_key f0) = None"
      "length (ra_slots r1) < ra_capacity r1" "map_of (ra_sessions r1) (fr_source f0) \<in> {None, Some (fr_session f0)}"
      "ra_last r1 = Some t" "0 \<le> t" "ra_timeout r1 = ra_timeout r"
    using st w(2) by (auto simp: can_start_def expire_slots_def map_of_filter_None split: option.splits
        intro: le_less_trans [OF length_filter_le])
  let ?s = "open_slot r1 f0 t"
  have c: "collecting (put_slot r1 (frame_key f0) ?s) f0 raw (t + ra_timeout r) {} t"
    using r1 f(1) by (auto simp: collecting_def put_slot_def open_slot_def piece_of_def)
  have "map_of (ra_slots (put_slot r1 (frame_key f0) ?s)) (frame_key f0) = Some ?s"
    by (simp add: put_slot_def)
  moreover have "{} \<subset> {..< ceil_div (length raw) (unat (fr_chunk f0))}"
    using f(1) by (auto simp: piece_of_def)
  moreover have "feed_frame env r w t = fill_slot env (put_slot r1 (frame_key f0) ?s) f0 ?s"
    using r1 w(2) by (auto simp: feed_frame_def)
  ultimately show ?thesis
    using fill_outcome [OF c refl refl f] by simp
qed

text \<open>The indices that a sequence of events brings.\<close>

definition gained :: "frame \<Rightarrow> (bytes \<times> real) list \<Rightarrow> nat set" where
  "gained f0 es = {unat (fr_index f) | f w t. (w, t) \<in> set es \<and> decode w = Inr f \<and> frame_key f = frame_key f0}"

lemma gained_Cons:
  "gained f0 ((w, t) # es) = (case decode w of Inl e \<Rightarrow> {} | Inr f \<Rightarrow> if frame_key f = frame_key f0 then {unat (fr_index f)} else {}) \<union> gained f0 es"
  by (auto simp: gained_def split: sum.splits)

lemma collect_run:
  assumes "collecting r f0 raw dl S t0" "sorted (t0 # map snd es)" "\<forall>(w, t) \<in> set es. t < dl"
    and "\<forall>(w, t) \<in> set es. ours f0 raw w \<or> \<not> (\<exists>f. decode w = Inr f \<and> frame_key f = frame_key f0)"
    and "S \<union> gained f0 es \<subset> {..< ceil_div (length raw) (unat (fr_chunk f0))}" "feed_run env r es = (r', outs)"
  shows "collecting r' f0 raw dl (S \<union> gained f0 es) (last (t0 # map snd es)) \<and> length outs = length es \<and>
    (\<forall>i < length es. ours f0 raw (fst (es ! i)) \<longrightarrow> outs ! i = Inr None)"
  using assms
proof (induction es arbitrary: r S t0 outs)
  case (Cons e es)
  obtain w t where e: "e = (w, t)" by force
  obtain r1 x where f1: "feed_frame env r w t = (r1, x)" by (metis surj_pair)
  obtain xs where xs: "feed_run env r1 es = (r', xs)" "outs = x # xs"
    using Cons.prems(6) by (auto simp: e f1 split: prod.splits)
  have t: "t0 \<le> t" "t < dl" "sorted (t # map snd es)" and S: "S \<subset> {..< ceil_div (length raw) (unat (fr_chunk f0))}"
    using Cons.prems(2, 3, 5) by (auto simp: e)
  let ?g = "gained f0 [(w, t)]"
  have g: "gained f0 (e # es) = ?g \<union> gained f0 es"
    by (simp add: e gained_Cons [of f0 w t es] gained_Cons [of f0 w t "[]"]) (simp add: gained_def)
  have step: "collecting r1 f0 raw dl (S \<union> ?g) t \<and> (ours f0 raw w \<longrightarrow> x = Inr None)"
  proof (cases "ours f0 raw w")
    case True
    obtain f where f: "decode w = Inr f" "step_outcome env f0 raw dl (insert (unat (fr_index f)) S) t f (r1, x)"
      using feed_ours [OF Cons.prems(1) t(1, 2) True S] f1 by metis
    then have "frame_key f = frame_key f0"
      using True by (simp add: ours_def)
    with f(1) have gf: "?g = {unat (fr_index f)}" by (simp add: gained_Cons) (simp add: gained_def)
    then have "insert (unat (fr_index f)) S = S \<union> ?g" by simp
    moreover have "S \<union> ?g \<noteq> {..< ceil_div (length raw) (unat (fr_chunk f0))}"
      using Cons.prems(5) unfolding g by blast
    ultimately show ?thesis
      using f(2) by (simp add: step_outcome_def)
  next
    case False
    then have no: "\<And>f. decode w = Inr f \<Longrightarrow> frame_key f \<noteq> frame_key f0"
      using Cons.prems(4) by (auto simp: e)
    then have "?g = {}" by (auto simp: gained_def)
    with feed_stranger [where env = env, OF Cons.prems(1) t(1, 2), of w] no f1 False show ?thesis by simp
  qed
  have "S \<union> ?g \<union> gained f0 es \<subset> {..< ceil_div (length raw) (unat (fr_chunk f0))}"
    using Cons.prems(5) unfolding g by (simp add: Un_assoc)
  from Cons.IH [OF conjunct1 [OF step] t(3) _ _ this xs(1)] Cons.prems(3, 4) g step show ?case
    by (auto simp: e xs(2) Un_assoc nth_Cons split: nat.splits)
qed (auto simp: gained_def)

lemma feed_run_snoc:
  "feed_run env r (es @ [(w, t)]) =
     (case feed_run env r es of (r1, xs) \<Rightarrow> (case feed_frame env r1 w t of (r2, x) \<Rightarrow> (r2, xs @ [x])))"
  by (induction es arbitrary: r) (auto split: prod.splits)

text \<open>What the sender put on the air.\<close>

lemma uint_of_fits: "fits32 v \<Longrightarrow> v = PInt (uint (of_int (int_of v) :: 32 word))"
  by (cases v) (auto simp: fits32_def uint_word_of_int_eq take_bit_int_eq_self)

lemma wire_canon:
  "wire_sequence (m\<lparr>m_payload := canon_dict (m_payload m)\<rparr>) = canon (wire_sequence m)"
  "wire_generation (m\<lparr>m_payload := canon_dict (m_payload m)\<rparr>) = canon (wire_generation m)"
  by (auto simp: wire_sequence_def wire_generation_def dgetd_def split: option.splits)

lemma checked_again: "from_dict (PDict (to_dict m)) = Inr n \<Longrightarrow> n = m"
  by (cases m; cases n)
    (auto simp: from_dict_def from_fields_def opt_field_def REQUIRED_FIELDS_def dgetn_def integer_iff split: if_splits option.splits sum.splits)

lemma application_exact:
  assumes "lora_ok env (PDict (to_dict m))" "canonical env m = Inr raw" "route (m_source m) (m_target m) (m_type m) = Inr zone"
    and "identity env (m_id m) = Inr ident" "fits32 (wire_sequence m)" "fits32 (wire_generation m)"
  shows "application env raw (cut_frame env m session ident raw chunk zone i) = Inr (m\<lparr>m_payload := canon_dict (m_payload m)\<rparr>)"
proof -
  obtain n where n: "from_dict (PDict (to_dict m)) = Inr n" and raw: "raw = le_bytes env (PDict (to_dict m))" "json_ok (PDict (to_dict m))"
    using assms(2) by (auto simp: canonical_def Let_def split: sum.splits if_splits)
  with checked_again [OF n] from_dict_canon have again: "from_dict (PDict (canon_dict (to_dict m))) = Inr (m\<lparr>m_payload := canon_dict (m_payload m)\<rparr>)"
    by blast
  have parse: "le_parse env raw = Inr (PDict (canon_dict (to_dict m)))"
    using assms(1) raw by (simp add: lora_ok_def)
  let ?f = "cut_frame env m session ident raw chunk zone i"
  have wires: "py_eq (canon (wire_sequence m)) (PInt (uint (fr_sequence ?f)))" "py_eq (canon (wire_generation m)) (PInt (uint (fr_generation ?f)))"
    using uint_of_fits [OF assms(5)] uint_of_fits [OF assms(6)] by (simp_all add: cut_frame_def)
  have "fr_logical ?f = ident"
    by (simp add: cut_frame_def)
  then show ?thesis
    using parse again wires assms(4) cut_endpoints(2-4) [OF assms(3), of env session ident raw chunk i]
    by (simp add: application_def wire_canon)
qed

lemma sent_frames:
  assumes "lora_ok env (PDict (to_dict m))" "fragment env m session mtu = Inr ws"
  obtains raw n cut where "length ws = n" "\<And>i. i < n \<Longrightarrow> decode (ws ! i) = Inr (cut i) \<and> ours (cut 0) raw (ws ! i) \<and> unat (fr_index (cut i)) = i \<and>
      application env raw (cut i) = Inr (m\<lparr>m_payload := canon_dict (m_payload m)\<rparr>)"
    "\<And>i. unat (fr_chunk (cut i)) = unat (fr_chunk (cut 0)) \<and> frame_key (cut i) = frame_key (cut 0) \<and> frame_metadata (cut i) = frame_metadata (cut 0)"
    "n = ceil_div (length raw) (unat (fr_chunk (cut 0)))"
proof -
  let ?ident = "le_hash env (m_id m)"
  have "length ?ident = 16" using assms(1) by (simp add: lora_ok_def)
  then obtain raw zone where c: "canonical env m = Inr raw" "identity env (m_id m) = Inr ?ident" "route (m_source m) (m_target m) (m_type m) = Inr zone"
      "1 \<le> length raw" "length raw \<le> 4096" "1 \<le> nat mtu - 70" "nat mtu - 70 \<le> 186" "ceil_div (length raw) (nat mtu - 70) \<le> 64"
      "length session = 16" "fits32 (wire_sequence m)" "fits32 (wire_generation m)"
      and ws: "ws = map (\<lambda>i. frame_bytes (cut_frame env m session ?ident raw (nat mtu - 70) zone i)) [0..<ceil_div (length raw) (nat mtu - 70)]"
    using fragmentE [OF assms(2)] by metis
  define chunk where "chunk = nat mtu - 70"
  define cut where "cut = cut_frame env m session ?ident raw chunk zone"
  define n where "n = ceil_div (length raw) chunk"
  note c = c [folded chunk_def, folded n_def]
  have ok: "frame_ok (cut i)" if "i < n" for i
    unfolding cut_def using c that \<open>length ?ident = 16\<close> by (intro cut_frame_ok) (simp_all add: n_def)
  have same: "unat (fr_chunk (cut i)) = chunk \<and> frame_key (cut i) = frame_key (cut 0) \<and> frame_metadata (cut i) = frame_metadata (cut 0)" for i
    using c(7) by (simp add: cut_def cut_frame_def frame_key_def frame_metadata_def of_nat_small)
  have idx: "unat (fr_index (cut i)) = i" if "i < n" for i
    using c(8) that by (simp add: cut_def cut_frame_def of_nat_small)
  have piece: "piece_of (cut i) raw" "fr_message_crc (cut i) = crc32 raw" if "i < n" for i
    using c(5-8) that idx [OF that] same [of i] by (simp_all add: piece_of_def cut_def cut_frame_def of_nat_small n_def [symmetric])
  have at: "decode (ws ! i) = Inr (cut i)" if "i < n" for i
    using decode_frame_bytes [OF ok [OF that]] that by (simp add: ws cut_def n_def chunk_def)
  have "decode (ws ! i) = Inr (cut i) \<and> ours (cut 0) raw (ws ! i) \<and> unat (fr_index (cut i)) = i \<and>
      application env raw (cut i) = Inr (m\<lparr>m_payload := canon_dict (m_payload m)\<rparr>)" if i: "i < n" for i
    using at [OF i] same [of i] piece [OF i] idx [OF i] application_exact [OF assms(1) c(1, 3, 2, 10, 11), of session chunk i]
    by (auto simp: ours_def cut_def [symmetric])
  with same show ?thesis
    by (intro that [of n cut raw]) (simp_all add: ws n_def chunk_def)
qed

text \<open>A run that starts with a frame of the message and ends with the last one missing.\<close>

lemma exact_run:
  fixes mid :: "(bytes \<times> real) list"
  defines "es \<equiv> \<lambda>v0 u0. (v0, u0) # mid"
  assumes start: "can_start r v0 u0" "decode v0 = Inr f0" "ours f0 raw v0" and ordered: "sorted (map snd (es v0 u0 @ [(w, t)]))" "t < u0 + ra_timeout r"
    and others: "\<forall>(v, u) \<in> set mid. ours f0 raw v \<or> \<not> (\<exists>f. decode v = Inr f \<and> frame_key f = frame_key f0)"
    and w: "ours f0 raw w" "decode w = Inr f"
    and missing: "gained f0 (es v0 u0) \<subset> {..< ceil_div (length raw) (unat (fr_chunk f0))}"
      "insert (unat (fr_index f)) (gained f0 (es v0 u0)) = {..< ceil_div (length raw) (unat (fr_chunk f0))}"
    and res: "feed_run env r (es v0 u0 @ [(w, t)]) = (r', outs)"
  shows "outs ! length (es v0 u0) = map_sum id Some (application env raw f)
    \<and> (\<forall>i < length (es v0 u0). ours f0 raw (fst (es v0 u0 ! i)) \<longrightarrow> outs ! i = Inr None)"
proof -
  have g: "gained f0 (es v0 u0) = {unat (fr_index f0)} \<union> gained f0 mid"
    by (simp add: es_def gained_Cons start(2))
  obtain r1 x1 where r1: "feed_frame env r v0 u0 = (r1, x1)" by (metis surj_pair)
  obtain r2 xs where r2: "feed_run env r1 mid = (r2, xs)" by (metis surj_pair)
  obtain r3 x where r3: "feed_frame env r2 w t = (r3, x)" by (metis surj_pair)
  have outs: "outs = x1 # xs @ [x]"
    using res feed_run_snoc [of env r1 mid w t] by (simp add: es_def r1 r2 r3)
  have "step_outcome env f0 raw (u0 + ra_timeout r) {unat (fr_index f0)} u0 f0 (r1, x1)"
    using feed_start [OF start(1, 3, 2), of env] by (simp add: r1)
  moreover have "{unat (fr_index f0)} \<noteq> {..< ceil_div (length raw) (unat (fr_chunk f0))}"
    using missing(1) g by blast
  ultimately have first: "x1 = Inr None" "collecting r1 f0 raw (u0 + ra_timeout r) {unat (fr_index f0)} u0"
    by (simp_all add: step_outcome_def)
  have sorted: "sorted (u0 # map snd mid)" "last (u0 # map snd mid) \<le> t" "\<forall>(w, t) \<in> set mid. t < u0 + ra_timeout r"
    using ordered last_in_set [of "map snd mid"] by (force simp: es_def sorted_append)+
  from collect_run [OF first(2) sorted(1, 3) others _ r2] missing(1) g
  have mid: "collecting r2 f0 raw (u0 + ra_timeout r) (gained f0 (es v0 u0)) (last (u0 # map snd mid))" "length xs = length mid"
    "\<And>i. i < length mid \<Longrightarrow> ours f0 raw (fst (mid ! i)) \<Longrightarrow> xs ! i = Inr None"
    by simp_all
  from feed_ours [OF mid(1) sorted(2) ordered(2) w(1) missing(1), of env] w(2) r3
  have "step_outcome env f0 raw (u0 + ra_timeout r) (insert (unat (fr_index f)) (gained f0 (es v0 u0))) t f (r3, x)"
    by auto
  then have "x = map_sum id Some (application env raw f)"
    by (simp add: step_outcome_def missing(2))
  with first(1) mid(2, 3) show ?thesis
    by (auto simp: outs es_def nth_Cons nth_append split: nat.splits)
qed

text \<open>When all wires but one have come, all indices but one are in.\<close>

lemma gained_all_but:
  fixes cut :: "nat \<Rightarrow> frame"
  assumes ws: "\<And>i. i < length ws \<Longrightarrow> decode (ws ! i) = Inr (cut i) \<and> unat (fr_index (cut i)) = i \<and> frame_key (cut i) = frame_key f0"
    and theirs: "\<And>v u. (v, u) \<in> set es \<Longrightarrow> v \<in> set ws \<or> \<not> (\<exists>f. decode v = Inr f \<and> frame_key f = frame_key f0)"
    and all: "set ws \<subseteq> insert (ws ! k) (fst ` set es)" "ws ! k \<notin> fst ` set es" "k < length ws"
  shows "gained f0 es = {..< length ws} - {k}"
proof (intro set_eqI iffI)
  fix i
  assume "i \<in> gained f0 es"
  then obtain f v u where f: "i = unat (fr_index f)" "(v, u) \<in> set es" "decode v = Inr f" "frame_key f = frame_key f0"
    by (auto simp: gained_def)
  with theirs obtain j where j: "j < length ws" "v = ws ! j" by (metis in_set_conv_nth)
  with f ws [of j] have "i = j" by simp
  moreover have "v \<noteq> ws ! k" using all(2) f(2) by force
  ultimately show "i \<in> {..< length ws} - {k}" using j by auto
next
  fix i
  assume i: "i \<in> {..< length ws} - {k}"
  with ws [of i] ws [of k] all(3) have "ws ! i \<noteq> ws ! k" by auto
  moreover have "ws ! i \<in> set ws" using i by simp
  ultimately have "ws ! i \<in> fst ` set es"
    using all(1) by blast
  then obtain u where "(ws ! i, u) \<in> set es" by force
  moreover have "i = unat (fr_index (cut i))" "decode (ws ! i) = Inr (cut i)" "frame_key (cut i) = frame_key f0"
    using i ws [of i] by simp_all
  ultimately show "i \<in> gained f0 es"
    unfolding gained_def by blast
qed

text \<open>A message of one frame.\<close>

lemma only_frame:
  assumes "lora_ok env (PDict (to_dict m))" "fragment env m session mtu = Inr ws" "can_start r w t" "w \<in> set ws" "set ws \<subseteq> {w}"
  shows "snd (feed_frame env r w t) = Inr (Some (m\<lparr>m_payload := canon_dict (m_payload m)\<rparr>))"
proof -
  let ?m = "m\<lparr>m_payload := canon_dict (m_payload m)\<rparr>"
  obtain raw cut where ws: "\<And>i. i < length ws \<Longrightarrow> decode (ws ! i) = Inr (cut i) \<and> ours (cut 0) raw (ws ! i) \<and> unat (fr_index (cut i)) = i \<and>
        application env raw (cut i) = Inr ?m"
      and n: "length ws = ceil_div (length raw) (unat (fr_chunk (cut 0)))"
    using sent_frames [OF assms(1, 2)] by metis
  have same: "ws ! i = w" if "i < length ws" for i
    using assms(5) nth_mem [OF that] by blast
  have nonempty: "0 < length ws" using assms(4) by (cases ws) auto
  have "i = 0" if "i < length ws" for i
    using ws [OF that] ws [OF nonempty] same [OF that] same [OF nonempty] by simp
  then have "\<not> Suc 0 < length ws" by blast
  with nonempty have one: "length ws = 1" by linarith
  have "step_outcome env (cut 0) raw (t + ra_timeout r) {unat (fr_index (cut 0))} t (cut 0) (feed_frame env r w t)"
    using assms(3) ws [OF nonempty] same [OF nonempty] by (intro feed_start) simp_all
  moreover have "{unat (fr_index (cut 0))} = {..< length ws}"
    using ws [OF nonempty] one by auto
  ultimately show ?thesis
    using ws [OF nonempty] one by (simp add: step_outcome_def n [symmetric])
qed

text \<open>
  C25: reassembly gives back exactly the message that was sent. The frames of a message may come in any
  order, more than once, and mixed with any other traffic, damaged bytes or frames of other
  messages: when the first of them comes to a receiver with room for it, the clock does not go
  back, all is in before the deadline of the slot, and the last event is the first copy of the only
  frame still missing, that event delivers the message (its payload in canonical key order), and every
  earlier frame of it only waits.
\<close>

theorem reassembly_is_exact:
  assumes "lora_ok env (PDict (to_dict m))" "fragment env m session mtu = Inr ws"
    and "can_start r (fst (hd (pre @ [(w, t)]))) (snd (hd (pre @ [(w, t)])))" "fst (hd (pre @ [(w, t)])) \<in> set ws"
    and "sorted (map snd (pre @ [(w, t)]))" "t < snd (hd (pre @ [(w, t)])) + ra_timeout r"
    and "\<forall>(v, u) \<in> set pre. v \<in> set ws \<or> \<not> same_message (fst (hd (pre @ [(w, t)]))) v"
    and "w \<in> set ws" "w \<notin> fst ` set pre" "set ws \<subseteq> insert w (fst ` set pre)" "feed_run env r (pre @ [(w, t)]) = (r', outs)"
  shows "outs ! length pre = Inr (Some (m\<lparr>m_payload := canon_dict (m_payload m)\<rparr>))
    \<and> (\<forall>i < length pre. fst (pre ! i) \<in> set ws \<longrightarrow> outs ! i = Inr None)"
proof -
  let ?m = "m\<lparr>m_payload := canon_dict (m_payload m)\<rparr>"
  obtain raw cut where ws: "\<And>i. i < length ws \<Longrightarrow> decode (ws ! i) = Inr (cut i) \<and> ours (cut 0) raw (ws ! i) \<and> unat (fr_index (cut i)) = i \<and>
        application env raw (cut i) = Inr ?m"
      and same: "\<And>i. unat (fr_chunk (cut i)) = unat (fr_chunk (cut 0)) \<and> frame_key (cut i) = frame_key (cut 0) \<and> frame_metadata (cut i) = frame_metadata (cut 0)"
      and n: "length ws = ceil_div (length raw) (unat (fr_chunk (cut 0)))"
    using sent_frames [OF assms(1, 2)] by metis
  obtain k where k: "k < length ws" "w = ws ! k"
    using assms(8) by (metis in_set_conv_nth)
  show ?thesis
  proof (cases pre)
    case Nil
    then show ?thesis
      using only_frame [OF assms(1, 2), of r w t] assms(3, 8, 10, 11) by (auto split: prod.splits)
  next
    case (Cons e mid)
    obtain v0 u0 where e: "e = (v0, u0)" by force
    obtain i0 where i0: "i0 < length ws" "v0 = ws ! i0"
      using assms(4) by (auto simp: Cons e in_set_conv_nth)
    define f0 where "f0 = cut i0"
    have f0: "decode v0 = Inr f0" "unat (fr_chunk f0) = unat (fr_chunk (cut 0))"
      using ws [OF i0(1)] same [of i0] by (simp_all add: f0_def i0(2))
    have key: "frame_key (cut i) = frame_key f0" for i
      using same [of i] same [of i0] by (simp add: f0_def)
    have mine: "ours f0 raw v" if "v \<in> set ws" for v
      using that ws same [of i0] by (auto simp: ours_def f0_def in_set_conv_nth)
    have theirs: "v \<in> set ws \<or> \<not> (\<exists>f. decode v = Inr f \<and> frame_key f = frame_key f0)" if "(v, u) \<in> set pre" for v u
      using assms(7) that f0(1) by (auto simp: Cons e same_message_def)
    have g: "gained f0 pre = {..< length ws} - {k}"
      using gained_all_but [of ws cut f0 pre k] ws key theirs assms(9, 10) k by blast
    have "outs ! length pre = map_sum id Some (application env raw (cut k)) \<and> (\<forall>i < length pre. ours f0 raw (fst (pre ! i)) \<longrightarrow> outs ! i = Inr None)"
      unfolding Cons e
    proof (rule exact_run)
      show "\<forall>(v, u) \<in> set mid. ours f0 raw v \<or> \<not> (\<exists>f. decode v = Inr f \<and> frame_key f = frame_key f0)"
        using theirs mine by (auto simp: Cons)
      show "gained f0 ((v0, u0) # mid) \<subset> {..< ceil_div (length raw) (unat (fr_chunk f0))}"
        using g k(1) by (auto simp: Cons e f0(2) n [symmetric])
      show "insert (unat (fr_index (cut k))) (gained f0 ((v0, u0) # mid)) = {..< ceil_div (length raw) (unat (fr_chunk f0))}"
        using g k(1) ws [OF k(1)] by (auto simp: Cons e f0(2) n [symmetric])
    qed (use assms(3, 4, 5, 6, 8, 11) f0(1) mine ws [OF k(1)] k(2) in \<open>simp_all add: Cons e\<close>)
    with ws [OF k(1)] mine show ?thesis by auto
  qed
qed

section \<open>Witnesses\<close>

definition demo_status :: message where
  [model_defs]: "demo_status = new_message NODE_STATUS ''A1'' ''A2'' [] 5 ''m1''"

text \<open>A text of three bytes, cut with the smallest MTU into three frames.\<close>

definition demo_env :: lora_env where
  "demo_env = \<lparr>le_bytes = (\<lambda>v. [1, 2, 3]), le_parse = (\<lambda>bs. Inr (canon (PDict (to_dict demo_status)))),
     le_hash = (\<lambda>s. replicate 16 9), le_utf8 = length\<rparr>"

definition demo_session :: bytes where
  [model_defs]: "demo_session = replicate 16 5"

definition demo_cut :: "nat \<Rightarrow> frame" where
  "demo_cut = cut_frame demo_env demo_status demo_session (replicate 16 9) [1, 2, 3] 1 0"

lemma demo_route: "route (m_source demo_status) (m_target demo_status) (m_type demo_status) = Inr 0"
  by (simp add: demo_status_def route_def ROLES_def link_allowed_def zone_of_def)

lemma demo_cut_ok: "i < 3 \<Longrightarrow> frame_ok (demo_cut i)"
  unfolding demo_cut_def by (intro cut_frame_ok demo_route) (simp_all add: demo_session_def ceil_div_def)

lemma demo_fragment: "fragment demo_env demo_status demo_session 71 = Inr (map (frame_bytes \<circ> demo_cut) [0..<3])"
proof -
  have wf: "from_dict (PDict (to_dict demo_status)) = Inr demo_status"
    by (intro from_to_dict) (simp add: demo_status_def wf_new_message finite_json_PDict)
  have "canonical demo_env demo_status = Inr [1, 2, 3]"
    using finite_json_json_ok wf
    by (simp add: canonical_def identity_def demo_env_def MAX_MESSAGE_def) (simp add: demo_status_def json_ok_PDict to_dict_def opt_entry_def new_message_def)
  moreover have "identity demo_env (m_id demo_status) = Inr (replicate 16 9)"
    by (simp add: identity_def demo_env_def demo_status_def)
  moreover have "fits32 (wire_sequence demo_status)" "fits32 (wire_generation demo_status)"
    by (simp_all add: fits32_def wire_sequence_def wire_generation_def demo_status_def dgetd_def)
  moreover have "ceil_div (length [1, 2, 3 :: byte]) 1 = 3"
    by (simp add: ceil_div_def)
  moreover have "encode_all (map (cut_frame demo_env demo_status (replicate 16 5) (replicate 16 9) [1, 2, 3] (Suc 0) 0) [0..<3]) =
      Inr (map (\<lambda>x. frame_bytes (demo_cut x)) [0..<3])"
  proof -
    have "map (cut_frame demo_env demo_status (replicate 16 5) (replicate 16 9) [1, 2, 3] (Suc 0) 0) [0..<3] = map demo_cut [0..<3]"
      by (simp add: demo_cut_def demo_session_def)
    then show ?thesis
      using encode_all_ok [of "map demo_cut [0..<3]"] demo_cut_ok by (simp only: map_map comp_def set_map) simp
  qed
  ultimately show ?thesis
    using demo_route
    by (simp add: fragment_def demo_session_def HEADER_SIZE_def MAX_FRAME_def MAX_FRAGMENTS_def comp_def Let_def)
qed

text \<open>The last frame first, a damaged frame, a copy, the missing frame at the end.\<close>

definition demo_receiver :: reassembler where
  "demo_receiver = \<lparr>ra_capacity = 1, ra_timeout = 3, ra_sessions = [], ra_slots = [], ra_last = None, ra_expired = 0,
     ra_duplicates = 0, ra_rejected = 0\<rparr>"

definition demo_events :: "(bytes \<times> real) list" where
  "demo_events = [(frame_bytes (demo_cut 2), 0), ([7], 0), (frame_bytes (demo_cut 0), 1), (frame_bytes (demo_cut 0), 1)]"

theorem reassembly_is_exact_witness:
  "\<exists>ws r outs. fragment demo_env demo_status demo_session 71 = Inr ws \<and>
     feed_run demo_env demo_receiver (demo_events @ [(ws ! 1, 2)]) = (r, outs) \<and> outs ! 4 = Inr (Some demo_status)"
proof -
  let ?w = "\<lambda>i. frame_bytes (demo_cut i)"
  have dec: "decode (?w i) = Inr (demo_cut i)" if "i < 3" for i
    using decode_frame_bytes [OF demo_cut_ok [OF that]] .
  have idx: "fr_index (demo_cut i) = of_nat i" for i
    by (simp add: demo_cut_def cut_frame_def)
  have junk: "decode [7] = Inl (ValueErr ''frame length'')"
    by (simp add: decode_def HEADER_SIZE_def)
  have ne: "?w 1 \<noteq> ?w 2" "?w 1 \<noteq> ?w 0" "?w 1 \<noteq> [7]"
  proof -
    have "demo_cut 1 \<noteq> demo_cut 2" "demo_cut 1 \<noteq> demo_cut 0"
      using idx [of 0] idx [of 1] idx [of 2] by auto
    moreover have "decode (?w 0) = Inr (demo_cut 0)" "decode (?w 1) = Inr (demo_cut 1)" "decode (?w 2) = Inr (demo_cut 2)"
      by (rule dec, simp)+
    ultimately show "?w 1 \<noteq> ?w 2" "?w 1 \<noteq> ?w 0" "?w 1 \<noteq> [7]"
      using junk by (metis sum.inject(2), metis sum.inject(2), metis sum.distinct(1))
  qed
  obtain r outs where r: "feed_run demo_env demo_receiver (demo_events @ [(?w 1, 2)]) = (r, outs)"
    by (metis surj_pair)
  have frag: "fragment demo_env demo_status demo_session 71 = Inr [?w 0, ?w 1, ?w 2]"
    by (simp add: demo_fragment upt_rec numeral_2_eq_2)
  have "outs ! length demo_events = Inr (Some (demo_status\<lparr>m_payload := canon_dict (m_payload demo_status)\<rparr>))
      \<and> (\<forall>i < length demo_events. fst (demo_events ! i) \<in> set [?w 0, ?w 1, ?w 2] \<longrightarrow> outs ! i = Inr None)"
  proof (rule reassembly_is_exact [OF _ frag _ _ _ _ _ _ _ _ r])
    show "lora_ok demo_env (PDict (to_dict demo_status))"
      by (simp add: lora_ok_def demo_env_def)
    show "can_start demo_receiver (fst (hd (demo_events @ [(?w 1, 2)]))) (snd (hd (demo_events @ [(?w 1, 2)])))"
      using dec [of 2] by (simp add: demo_events_def can_start_def demo_receiver_def)
    show "\<forall>(v, u) \<in> set demo_events. v \<in> set [?w 0, ?w 1, ?w 2] \<or> \<not> same_message (fst (hd (demo_events @ [(?w 1, 2)]))) v"
      using junk by (simp add: demo_events_def same_message_def split: sum.split)
    show "?w 1 \<notin> fst ` set demo_events"
      using ne by (simp add: demo_events_def)
  qed (simp_all add: demo_events_def demo_receiver_def)
  moreover have "length demo_events = 4" "demo_status\<lparr>m_payload := canon_dict (m_payload demo_status)\<rparr> = demo_status"
    by (simp_all add: demo_events_def demo_status_def new_message_def canon_dict_def)
  ultimately have "outs ! 4 = Inr (Some demo_status)" by simp
  with frag r show ?thesis by fastforce
qed

theorem receiver_memory_bounded_witness:
  "\<exists>r0 r outs. reassembler_init 1 3 [] = Inr r0 \<and> feed_run demo_env r0 demo_events = (r, outs) \<and> reserved_bytes r \<le> 4096"
proof -
  have i: "reassembler_init 1 3 [] = Inr demo_receiver"
    by (simp add: reassembler_init_def demo_receiver_def)
  obtain r outs where r: "feed_run demo_env demo_receiver demo_events = (r, outs)"
    by (metis surj_pair)
  have "length (ra_slots r) \<le> nat 1 \<and> reserved_bytes r \<le> nat 1 * 4096"
    by (rule receiver_memory_bounded [OF i r])
  with i r show ?thesis by auto
qed

theorem damaged_byte_is_rejected_witness:
  "decode (frame_bytes (demo_cut 0)) = Inr (demo_cut 0) \<and> (\<exists>e. decode ((frame_bytes (demo_cut 0))[10 := 6]) = Inl e)"
proof -
  have ok: "frame_ok (demo_cut 0)" by (rule demo_cut_ok) simp
  have "length (frame_bytes (demo_cut 0)) > 10"
    using decode_frame_bytes [OF ok] by (auto simp: decode_def HEADER_SIZE_def split: if_splits)
  moreover have "frame_bytes (demo_cut 0) ! 10 = 5"
    by (simp add: frame_bytes_def header_fields_def demo_cut_def cut_frame_def demo_session_def Let_def nth_append)
  ultimately have "\<exists>e. decode ((frame_bytes (demo_cut 0))[10 := 6]) = Inl e"
    by (intro damaged_byte_is_rejected [OF decode_frame_bytes [OF ok]]) simp_all
  with decode_frame_bytes [OF ok] show ?thesis by simp
qed

end
