(* ===== verification/SensorNode.thy ===== *)
theory SensorNode
  imports Reports SensorFlow Controller
begin

text \<open>
  \<^verbatim>\<open>sensor_node/sensor_node.py\<close> and \<^verbatim>\<open>sensor_node/runtime.py\<close>: the node that samples. The session of
  \<^verbatim>\<open>SensorNode\<close> runs four tasks, and one of them runs until it awaits the socket; every stretch between
  two awaits is one step here, so a run of steps is any interleaving of the tasks. The simulated
  sensor is an input (the value it returns), as are clocks, fresh ids and storage outcomes. The
  settings of a profile (\<^verbatim>\<open>node_settings\<close>) are parameters of the constructors.
\<close>

section \<open>State\<close>

record sensor_node =
  sn_id :: string
  sn_host :: string
  sn_gateway :: string
  sn_primary :: string
  sn_preferred :: "string option"
  sn_fixed_port :: "int option"
  sn_owner :: "string option"
  sn_generation :: int
  sn_history_size :: int
  sn_metrics :: counters
  sn_intervals :: "(real \<times> nat) list"
  sn_sequence :: int
  sn_boot :: string
  sn_trust :: sensor_trust
  sn_notifier :: notifier
  sn_sense :: sense
  sn_history :: "dict list"
  sn_window :: "report_window option"

definition DELIVERY_MODES :: "string list" where
  [model_defs]: "DELIVERY_MODES = [''legacy-write'', ''gateway-durable'']"

text \<open>The optional window of a delivery mode; \<open>None\<close> for the path of the state database is a missing path.\<close>

definition open_reports :: "lora_env \<Rightarrow> string \<Rightarrow> string \<Rightarrow> string \<Rightarrow> store option \<Rightarrow> bool \<Rightarrow> py_error + report_window option" where
  "open_reports env node boot mode disk io =
     (if mode \<notin> set DELIVERY_MODES then Inl (ValueErr ''unknown sensor delivery mode'')
      else if mode \<noteq> ''gateway-durable'' then Inr None
      else case disk of
          None \<Rightarrow> Inl (ValueErr ''reliable HIGH reports require a state database'')
        | Some st \<Rightarrow> map_sum id Some (report_window_init env node boot st 16 io))"

record node_args =
  na_id :: string
  na_host :: string
  na_port :: "int option"
  na_slow :: "real option"
  na_fast :: "real option"
  na_history :: int
  na_profile :: string
  na_mode :: string
  na_disk :: "store option"

definition sensor_node_init :: "lora_env \<Rightarrow> node_args \<Rightarrow> (string \<times> channel_cfg) list \<Rightarrow> sense_settings \<Rightarrow> dict \<Rightarrow> string \<Rightarrow> bool \<Rightarrow>
    py_error + sensor_node" where
  "sensor_node_init env args channels settings policy boot io =
     (case map_of GATEWAY_OF_SENSOR (na_id args) of
        None \<Rightarrow> Inl (ValueErr ''unknown sensor node id'')
      | Some home \<Rightarrow>
          if na_profile args \<notin> {''simulation'', ''lab''} then Inl (ValueErr ''SensorNode is the host TCP simulator'')
          else (case notifier_init (se_reminder settings) of
              Inl e \<Rightarrow> Inl e
            | Inr nt \<Rightarrow>
                (case sense_init settings (na_slow args) (na_fast args) policy of
                   Inl e \<Rightarrow> Inl e
                 | Inr se \<Rightarrow>
                     (case open_reports env (na_id args) boot (na_mode args) (na_disk args) io of
                        Inl e \<Rightarrow> Inl e
                      | Inr w \<Rightarrow> Inr \<lparr>sn_id = na_id args, sn_host = na_host args, sn_gateway = home, sn_primary = home, sn_preferred = None,
                          sn_fixed_port = na_port args, sn_owner = None, sn_generation = INITIAL_GENERATION, sn_history_size = na_history args,
                          sn_metrics = [], sn_intervals = [], sn_sequence = 0, sn_boot = boot, sn_trust = sensor_trust_init channels,
                          sn_notifier = nt, sn_sense = se, sn_history = [], sn_window = w\<rparr>))))"

definition sn_count :: "string \<Rightarrow> sensor_node \<Rightarrow> sensor_node" where
  "sn_count key n = n\<lparr>sn_metrics := inc (sn_metrics n) key\<rparr>"

text \<open>Where a message goes: the owner, or the gateway of the connection.\<close>

definition sn_target :: "sensor_node \<Rightarrow> string" where
  "sn_target n = or_name (sn_owner n) (sn_gateway n)"

definition sensor_candidates :: "sensor_node \<Rightarrow> py_error + (string \<times> string \<times> int) list" where
  "sensor_candidates n =
     (case sn_fixed_port n of
        Some port \<Rightarrow> Inr [(sn_gateway n, sn_host n, port)]
      | None \<Rightarrow>
          let first = or_name (sn_preferred n) (or_name (sn_owner n) (sn_primary n));
              order = first # filter (\<lambda>g. g \<noteq> first) (sort (map fst GATEWAY_PORTS))
          in if list_all (dhas GATEWAY_PORTS) order
             then Inr (map (\<lambda>g. (g, sn_host n, the (map_of GATEWAY_PORTS g))) order)
             else Inl KeyErr)"

section \<open>Registration and ownership\<close>

definition announce_message :: "sensor_node \<Rightarrow> string \<Rightarrow> real \<Rightarrow> string \<Rightarrow> message" where
  "announce_message n gateway now mid =
     new_message NODE_REGISTER (sn_id n) gateway
       [(''node_id'', PStr (sn_id n)), (''node_type'', PStr (kind_name SENSOR)),
        (''generation'', PInt (sn_generation n)), (''boot_id'', PStr (sn_boot n))] now mid"

text \<open>One answer read from the gateway; \<open>None\<close> is a closed connection.\<close>

definition announce_reply :: "sensor_node \<Rightarrow> string \<Rightarrow> message option \<Rightarrow> reg_verdict \<times> sensor_node" where
  "announce_reply n gateway answer =
     (case answer of
        None \<Rightarrow> (RegRefused, n)
      | Some r \<Rightarrow>
          if m_type r \<noteq> NODE_REGISTER_ACK then (RegAgain, n)
          else let owner = dgetn (m_payload r) ''owner_gateway'';
                   generation = dgetn (m_payload r) ''generation'';
                   accepted = dgetn (m_payload r) ''accepted''
               in if m_source r \<noteq> gateway \<or> m_target r \<noteq> sn_id n \<or> \<not> is_str owner \<or> \<not> dhas GATEWAY_PORTS (str_of owner) \<or>
                     \<not> is_int generation \<or> int_of generation < 0
                  then (RegRefused, n)
                  else if accepted = PBool False
                  then (RegRefused, if sn_generation n \<le> int_of generation then n\<lparr>sn_preferred := Some (str_of owner)\<rparr> else n)
                  else if accepted \<noteq> PBool True \<or> str_of owner \<noteq> gateway \<or> int_of generation < sn_generation n \<or>
                          (int_of generation = sn_generation n \<and> sn_owner n \<notin> {None, Some (str_of owner)})
                  then (RegRefused, n)
                  else (RegDone, n\<lparr>sn_preferred := Some (str_of owner), sn_owner := Some (str_of owner), sn_generation := int_of generation\<rparr>))"

text \<open>At most \<open>MAX_RETRIES + 1\<close> attempts; an input is \<open>None\<close> when the answer timed out.\<close>

fun announce_attempts :: "nat \<Rightarrow> sensor_node \<Rightarrow> string \<Rightarrow> message option option list \<Rightarrow> bool \<times> sensor_node" where
  "announce_attempts 0 n gateway answers = (False, n)"
| "announce_attempts (Suc k) n gateway [] = (False, n)"
| "announce_attempts (Suc k) n gateway (answer # answers) =
     (case answer of
        None \<Rightarrow> announce_attempts k n gateway answers
      | Some r \<Rightarrow>
          (case announce_reply n gateway r of
             (RegDone, n') \<Rightarrow> (True, n')
           | (RegRefused, n') \<Rightarrow> (False, n')
           | (RegAgain, n') \<Rightarrow> announce_attempts k n' gateway answers))"

definition announce :: "sensor_node \<Rightarrow> string \<Rightarrow> message option option list \<Rightarrow> bool \<times> sensor_node" where
  "announce n gateway answers = announce_attempts (MAX_RETRIES + 1) (n\<lparr>sn_gateway := gateway\<rparr>) gateway answers"

definition sensor_adopt :: "sensor_node \<Rightarrow> message \<Rightarrow> string \<Rightarrow> bool \<times> sensor_node" where
  "sensor_adopt n m gateway =
     (let owner = dgetn (m_payload m) ''owner_gateway''; generation = dgetn (m_payload m) ''generation''
      in if m_source m \<noteq> gateway \<or> m_target m \<noteq> sn_id n \<or> owner \<noteq> PStr gateway \<or>
            dgetd (m_payload m) ''node_id'' (PStr (sn_id n)) \<noteq> PStr (sn_id n) \<or>
            dgetn (m_payload m) ''status'' \<noteq> PStr (health_name ONLINE) \<or> \<not> is_int generation
         then (False, n)
         else if int_of generation < sn_generation n \<or>
                 (int_of generation = sn_generation n \<and> sn_owner n \<notin> {None, Some (str_of owner)})
         then (False, n)
         else (True, n\<lparr>sn_owner := Some (str_of owner), sn_generation := int_of generation\<rparr>))"

text \<open>One message of the inbound task; an exception ends the session.\<close>

definition sensor_inbound :: "sensor_node \<Rightarrow> message \<Rightarrow> string \<Rightarrow> real \<Rightarrow> bool \<Rightarrow> sensor_node \<times> py_error option" where
  "sensor_inbound n m gateway now io =
     (case sn_window n of
        Some w \<Rightarrow>
          if m_type m = PERSISTED_ACK
          then (case confirm_report w m (sn_sense n) gateway now io of
              (w', se, result) \<Rightarrow>
                let n' = n\<lparr>sn_window := Some w', sn_sense := se\<rparr>
                in (case result of
                      Inl e \<Rightarrow> (n', Some e)
                    | Inr True \<Rightarrow> (sn_count ''durable_reports_confirmed'' n', None)
                    | Inr False \<Rightarrow> (n', None)))
          else (if m_type m = NODE_STATUS then snd (sensor_adopt n m gateway) else n, None)
      | None \<Rightarrow> (if m_type m = NODE_STATUS then snd (sensor_adopt n m gateway) else n, None))"

definition sensor_keepalive :: "sensor_node \<Rightarrow> string \<Rightarrow> real \<Rightarrow> string \<Rightarrow> message" where
  "sensor_keepalive n gateway now mid =
     new_message NODE_STATUS (sn_id n) gateway
       [(''node_id'', PStr (sn_id n)), (''status'', PStr (health_name ONLINE)), (''owner_gateway'', opt_str (sn_owner n)),
        (''generation'', PInt (sn_generation n))] now mid"

section \<open>One sample\<close>

text \<open>
  \<^verbatim>\<open>_sample_loop\<close> from the reading to the sleep: the sample is taken and judged, then reported (one send in
  legacy mode, the durable window otherwise), then a notice may be sent. The locals of the
  coroutine that later stretches read are the record \<open>cycle\<close>.
\<close>

record cycle =
  cy_reading :: dict
  cy_trust :: trust
  cy_decision :: sense_decision
  cy_payload :: dict

definition trim_history :: "int \<Rightarrow> 'a list \<Rightarrow> 'a list" where
  "trim_history n xs = (if n \<le> 0 then drop (nat (- n)) xs else last_n (nat n) xs)"

definition samples_metric :: "health_state \<Rightarrow> string" where
  "samples_metric s = (case s of HEALTHY \<Rightarrow> ''trusted_samples'' | DEGRADED \<Rightarrow> ''degraded_samples'' | FAULT \<Rightarrow> ''fault_samples'')"

definition take_sample :: "sensor_node \<Rightarrow> pyval \<Rightarrow> real \<Rightarrow> real \<Rightarrow> sensor_node \<times> (py_error + cycle)" where
  "take_sample n raw at_trust at_sense =
     (let reading = dict_of raw;
          n1 = n\<lparr>sn_sequence := sn_sequence n + 1, sn_history := trim_history (sn_history_size n) (sn_history n @ [reading])\<rparr>
      in case sensor_trust_update (sn_trust n1) (PDict reading) (PFloat (Fin at_trust)) [] of
           (ts, Inl e) \<Rightarrow> (n1\<lparr>sn_trust := ts\<rparr>, Inl e)
         | (ts, Inr t) \<Rightarrow>
             (case sense_update (sn_sense n1) reading t at_sense of
                (se, d) \<Rightarrow>
                  (sn_count (samples_metric (tr_state t)) (sn_count ''sensor_samples'' (n1\<lparr>sn_trust := ts, sn_sense := se\<rparr>)),
                   Inr \<lparr>cy_reading = reading, cy_trust = t, cy_decision = d,
                        cy_payload = sensor_payload reading t d (sn_boot n1) (sn_sequence n1)\<rparr>)))"

definition HIGH_REASONS :: "string list" where
  [model_defs]: "HIGH_REASONS = [''HEALTH_CHANGE'', ''FIRST_SAMPLE'', ''EVENT'', ''CONTROL_RELEVANT_CHANGE'']"

definition report_is_high :: "sense_decision \<Rightarrow> bool" where
  "report_is_high d \<longleftrightarrow> dn_event d \<or> dn_relevant d \<or> list_ex (\<lambda>r. r \<in> set HIGH_REASONS) (dn_reasons d)"

definition sample_message :: "string \<Rightarrow> string \<Rightarrow> int \<Rightarrow> int \<Rightarrow> dict \<Rightarrow> real \<Rightarrow> string \<Rightarrow> message" where
  "sample_message node target sequence generation payload now mid =
     (new_message SENSOR_DATA node target payload now mid)\<lparr>m_sequence := Some sequence, m_generation := Some generation,
        m_protocol_version := Some 1\<rparr>"

text \<open>
  \<^const>\<open>prepare_report\<close> writes into the payload that the sample loop goes on to use. The list is what is put
  on the wire: the message of the legacy mode, whose completed write leads to \<open>legacy_sent\<close>.
\<close>

definition plain_report :: "sensor_node \<Rightarrow> cycle \<Rightarrow> real \<Rightarrow> string \<Rightarrow> message" where
  "plain_report n c now mid = sample_message (sn_id n) (sn_target n) (sn_sequence n) (sn_generation n) (cy_payload c) now mid"

definition durable_report :: "sensor_node \<Rightarrow> cycle \<Rightarrow> real \<Rightarrow> real \<Rightarrow> string \<Rightarrow> message" where
  "durable_report n c acquired now mid = prepare_report (plain_report n c now mid) acquired (report_is_high (cy_decision c))"

definition upload_sample :: "lora_env \<Rightarrow> sensor_node \<Rightarrow> cycle \<Rightarrow> real \<Rightarrow> real \<Rightarrow> string \<Rightarrow> bool \<Rightarrow>
    sensor_node \<times> (py_error + cycle \<times> message list)" where
  "upload_sample env n c acquired now mid io =
     (if \<not> dn_upload (cy_decision c) then (n, Inr (c, []))
      else case sn_window n of
          None \<Rightarrow> (n, Inr (c, [plain_report n c now mid]))
        | Some w \<Rightarrow>
            let r = durable_report n c acquired now mid;
                c' = c\<lparr>cy_payload := m_payload r\<rparr>
            in (case admit_report env w r (cy_reading c) (cy_trust c) acquired now io of
                  (w', Inr _) \<Rightarrow> (n\<lparr>sn_window := Some w'\<rparr>, Inr (c', []))
                | (w', Inl (StateErr t)) \<Rightarrow> (sn_count ''report_backpressure'' (n\<lparr>sn_window := Some w'\<rparr>), Inr (c', []))
                | (w', Inl e) \<Rightarrow> (n\<lparr>sn_window := Some w'\<rparr>, Inl e)))"

definition legacy_sent :: "sensor_node \<Rightarrow> cycle \<Rightarrow> sensor_node \<times> py_error option" where
  "legacy_sent n c =
     (let n1 = sn_count ''sensor_messages'' n
      in case mark_reported (sn_sense n1) (cy_reading c) (cy_trust c) None None of
           (se, Inl e) \<Rightarrow> (n1\<lparr>sn_sense := se\<rparr>, Some e)
         | (se, Inr _) \<Rightarrow> (n1\<lparr>sn_sense := se\<rparr>, None))"

definition notice_dict :: "(pyval \<Rightarrow> string) \<Rightarrow> notice \<Rightarrow> dict" where
  "notice_dict json no =
     [(''alert_type'', PStr (no_alert no)), (''fault_signature'', PStr (json (no_signature no))), (''notification'', PStr (no_kind no)),
      (''message'', PStr (no_message no))]"

definition flags_value :: "trust \<Rightarrow> pyval" where
  "flags_value t = PList (map (PStr \<circ> flag_name) (tr_flags t))"

text \<open>\<open>json\<close> gives the JSON text of the signature.\<close>

definition notify_sample :: "(pyval \<Rightarrow> string) \<Rightarrow> sensor_node \<Rightarrow> cycle \<Rightarrow> real \<Rightarrow> real \<Rightarrow> string \<Rightarrow> sensor_node \<times> message option" where
  "notify_sample json n c at_notice now mid =
     (case notifier_update (sn_notifier n) (cy_trust c) at_notice of
        (nt, None) \<Rightarrow> (n\<lparr>sn_notifier := nt\<rparr>, None)
      | (nt, Some no) \<Rightarrow>
          (n\<lparr>sn_notifier := nt\<rparr>,
           Some (new_message ALERT (sn_id n) (sn_target n)
             (dmerge (cy_payload c) (notice_dict json no @ [(''sensor_node_id'', PStr (sn_id n)), (''reasons'', flags_value (cy_trust c))])) now mid)))"

definition end_sample :: "sensor_node \<Rightarrow> cycle \<Rightarrow> sensor_node" where
  "end_sample n c =
     (let i = dn_interval (cy_decision c); before = (case map_of (sn_intervals n) i of None \<Rightarrow> 0 | Some k \<Rightarrow> k)
      in n\<lparr>sn_intervals := dset (sn_intervals n) i (before + 1)\<rparr>)"

section \<open>The retry task\<close>

definition retry_reports :: "sensor_node \<Rightarrow> real \<Rightarrow> sensor_node \<times> (py_error + message list)" where
  "retry_reports n now =
     (case sn_window n of
        None \<Rightarrow> (n, Inr [])
      | Some w \<Rightarrow> (case due_reports w now (sn_target n) of (w', r) \<Rightarrow> (n\<lparr>sn_window := Some w'\<rparr>, r)))"

text \<open>The exceptions that \<^verbatim>\<open>_session\<close> turns into a lost connection; \<^verbatim>\<open>StateError\<close> is a \<^verbatim>\<open>ValueError\<close>.\<close>

definition session_catches :: "py_error \<Rightarrow> bool" where
  "session_catches e = (case e of MessageErr _ \<Rightarrow> True | ValueErr _ \<Rightarrow> True | StateErr _ \<Rightarrow> True | _ \<Rightarrow> False)"

section \<open>Steps\<close>

datatype node_event =
    Announced string "message option option list"
  | Received message string real bool
  | Taken pyval real real
  | Uploading cycle real real string bool
  | WrittenLegacy cycle
  | Noticing cycle real real string
  | AlertWritten
  | SampleDone cycle
  | Retrying real
  | ReportWritten

fun node_step :: "lora_env \<Rightarrow> (pyval \<Rightarrow> string) \<Rightarrow> sensor_node \<Rightarrow> node_event \<Rightarrow> sensor_node" where
  "node_step env json n (Announced gateway answers) = snd (announce n gateway answers)"
| "node_step env json n (Received m gateway now io) = fst (sensor_inbound n m gateway now io)"
| "node_step env json n (Taken raw t u) = fst (take_sample n raw t u)"
| "node_step env json n (Uploading c acquired now mid io) = fst (upload_sample env n c acquired now mid io)"
| "node_step env json n (WrittenLegacy c) = fst (legacy_sent n c)"
| "node_step env json n (Noticing c t now mid) = fst (notify_sample json n c t now mid)"
| "node_step env json n AlertWritten = sn_count ''fault_alerts'' n"
| "node_step env json n (SampleDone c) = end_sample n c"
| "node_step env json n (Retrying now) = fst (retry_reports n now)"
| "node_step env json n ReportWritten = sn_count ''sensor_messages'' n"

section \<open>Ownership\<close>

definition not_older :: "sensor_node \<Rightarrow> sensor_node \<Rightarrow> bool" where
  "not_older n n' \<longleftrightarrow> sn_generation n \<le> sn_generation n' \<and>
     (sn_generation n' = sn_generation n \<and> sn_owner n \<noteq> None \<longrightarrow> sn_owner n' = sn_owner n)"

lemma not_older_refl [simp]: "not_older n n"
  by (simp add: not_older_def)

lemma not_older_trans: "not_older a b \<Longrightarrow> not_older b c \<Longrightarrow> not_older a c"
  by (auto simp: not_older_def)

lemma not_older_same: "sn_generation n' = sn_generation n \<Longrightarrow> sn_owner n' = sn_owner n \<Longrightarrow> not_older n n'"
  by (simp add: not_older_def)

lemma count_owner [simp]: "sn_generation (sn_count k n) = sn_generation n" "sn_owner (sn_count k n) = sn_owner n" "sn_window (sn_count k n) = sn_window n"
    "sn_sequence (sn_count k n) = sn_sequence n" "sn_boot (sn_count k n) = sn_boot n" "sn_id (sn_count k n) = sn_id n"
  by (simp_all add: sn_count_def)

lemma announce_reply_not_older: "not_older n (snd (announce_reply n gateway answer))"
  by (simp add: announce_reply_def not_older_def Let_def split: option.split)

lemma announce_attempts_not_older: "not_older n (snd (announce_attempts k n gateway answers))"
proof (induction k n gateway answers rule: announce_attempts.induct)
  case (3 k n gateway answer answers)
  show ?case
  proof (cases answer)
    case None
    with 3(1) show ?thesis by simp
  next
    case (Some r)
    obtain v n' where r: "announce_reply n gateway r = (v, n')" by (metis surj_pair)
    with announce_reply_not_older [of n gateway r] have "not_older n n'" by simp
    with 3(2) [OF Some r [symmetric]] r Some show ?thesis
      by (cases v) (auto intro: not_older_trans)
  qed
qed simp_all

lemma sensor_adopt_not_older: "not_older n (snd (sensor_adopt n m gateway))"
  by (simp add: sensor_adopt_def not_older_def Let_def)

lemma sensor_inbound_ack:
  assumes "sn_window n = Some w" "m_type m = PERSISTED_ACK" "fst (sensor_inbound n m gateway now io) = n'"
  shows "sn_generation n' = sn_generation n" "sn_owner n' = sn_owner n" "sn_sequence n' = sn_sequence n" "sn_boot n' = sn_boot n" "sn_id n' = sn_id n"
proof -
  obtain w' se r where c: "confirm_report w m (sn_sense n) gateway now io = (w', se, r)"
    by (metis prod_cases3)
  let ?n = "n\<lparr>sn_window := Some w', sn_sense := se\<rparr>"
  have "n' = ?n \<or> n' = sn_count ''durable_reports_confirmed'' ?n"
  proof (cases r)
    case (Inl e)
    with assms c show ?thesis by (simp add: sensor_inbound_def)
  next
    case (Inr b)
    with assms c show ?thesis by (cases b) (simp_all add: sensor_inbound_def)
  qed
  then show "sn_generation n' = sn_generation n" "sn_owner n' = sn_owner n" "sn_sequence n' = sn_sequence n" "sn_boot n' = sn_boot n" "sn_id n' = sn_id n"
    by auto
qed

lemma sensor_inbound_other:
  "sn_window n = None \<or> m_type m \<noteq> PERSISTED_ACK \<Longrightarrow>
     fst (sensor_inbound n m gateway now io) = (if m_type m = NODE_STATUS then snd (sensor_adopt n m gateway) else n)"
  by (auto simp: sensor_inbound_def split: option.split)

lemma sensor_inbound_not_older: "not_older n (fst (sensor_inbound n m gateway now io))"
proof (cases "sn_window n = None \<or> m_type m \<noteq> PERSISTED_ACK")
  case True
  then show ?thesis
    unfolding sensor_inbound_other [OF True] by (simp add: sensor_adopt_not_older)
next
  case False
  then obtain w where "sn_window n = Some w" "m_type m = PERSISTED_ACK" by auto
  then show ?thesis
    using sensor_inbound_ack [OF _ _ refl, of n w m gateway now io] by (simp add: not_older_same)
qed

lemma take_sample_fields:
  assumes "take_sample n raw t u = (n', x)"
  shows "sn_generation n' = sn_generation n" "sn_owner n' = sn_owner n" "sn_sequence n' = sn_sequence n + 1" "sn_boot n' = sn_boot n" "sn_id n' = sn_id n"
    "sn_window n' = sn_window n"
  using assms by (auto simp: take_sample_def Let_def split: prod.splits sum.splits)

lemma upload_sample_fields:
  assumes "upload_sample env n c acquired now mid io = (n', x)"
  shows "sn_generation n' = sn_generation n" "sn_owner n' = sn_owner n" "sn_sequence n' = sn_sequence n" "sn_boot n' = sn_boot n" "sn_id n' = sn_id n"
  using assms by (auto simp: upload_sample_def Let_def split: if_splits option.splits prod.splits sum.splits py_error.splits)

lemma other_steps_fields:
  assumes "\<forall>gateway answers. e \<noteq> Announced gateway answers" "\<forall>m gateway now io. e \<noteq> Received m gateway now io"
  shows "sn_generation (node_step env json n e) = sn_generation n" "sn_owner (node_step env json n e) = sn_owner n"
proof -
  have "sn_generation (node_step env json n e) = sn_generation n \<and> sn_owner (node_step env json n e) = sn_owner n"
  proof (cases e)
    case (Taken raw t u)
    then show ?thesis
      using take_sample_fields [of n raw t u] by (metis node_step.simps(3) surjective_pairing)
  next
    case (Uploading c acquired now mid io)
    then show ?thesis
      using upload_sample_fields [of env n c acquired now mid io] by (metis node_step.simps(4) surjective_pairing)
  qed (use assms in \<open>simp_all add: legacy_sent_def notify_sample_def end_sample_def retry_reports_def Let_def split: prod.split sum.split option.split\<close>)
  then show "sn_generation (node_step env json n e) = sn_generation n" "sn_owner (node_step env json n e) = sn_owner n"
    by simp_all
qed

lemma node_step_not_older: "not_older n (node_step env json n e)"
proof (cases e)
  case (Announced gateway answers)
  have "not_older n (n\<lparr>sn_gateway := gateway\<rparr>)"
    by (simp add: not_older_same)
  from not_older_trans [OF this announce_attempts_not_older] Announced show ?thesis
    by (simp add: announce_def)
next
  case (Received m gateway now io)
  then show ?thesis by (simp add: sensor_inbound_not_older)
qed (rule not_older_same; rule other_steps_fields; simp)+

interpretation node_runs: steady "\<lambda>_. True" not_older "node_step env json" for env json
  by unfold_locales (auto intro: node_step_not_older not_older_trans)

text \<open>
  C33: a sensor node never follows an old gateway. Over any interleaving of registrations, status messages,
  samples, receipts and retries its epoch never goes down, and while the epoch stays the same an owner,
  once accepted, stays the owner: no two gateways are followed in one epoch.
\<close>

theorem ownership_is_monotone:
  assumes "n1 = run (node_step env json) n0 es1" "n2 = run (node_step env json) n1 es2"
  shows "sn_generation n0 \<le> sn_generation n1 \<and> sn_generation n1 \<le> sn_generation n2 \<and>
    (sn_generation n2 = sn_generation n1 \<and> sn_owner n1 = Some a \<longrightarrow> sn_owner n2 = Some a)"
  using assms node_runs.steady_run [of n0 env json es1] node_runs.steady_run [of n1 env json es2]
  by (simp add: not_older_def)

section \<open>What is reported\<close>

definition fresh_boot :: "string \<Rightarrow> bool" where
  "fresh_boot boot \<longleftrightarrow> length boot = 12 \<and> set boot \<subseteq> set ''0123456789abcdef''"

lemma json_ok_trust_parts: "json_ok (PDict (map (\<lambda>(n, r). (n, result_dict r)) cs))" "json_ok (PList (map (PStr \<circ> flag_name) fs))"
    "json_ok (PList (map PStr ss))" "json_ok (reals_dict rs)"
  by (auto simp: json_ok_PDict result_dict_def reals_dict_def list_all_iff)

lemma json_ok_schedule: "json_ok (PDict (schedule_dict d))"
  by (cases "dn_score d") (auto simp: schedule_dict_def json_ok_PDict json_ok_trust_parts opt_real_def simp del: json_ok.simps(6) split: option.split)

lemma json_ok_reading: "json_ok (PDict (map (\<lambda>(k, v). (k, if number v then v else PNone)) reading))"
  by (auto simp: json_ok_PDict number_def split: pyval.splits pyfloat.splits)

lemma sensor_payload_ok: "json_ok (PDict (sensor_payload reading t d boot sq))"
  unfolding sensor_payload_def json_ok_PDict
  by (simp add: json_ok_schedule json_ok_reading json_ok_trust_parts del: json_ok.simps(6))

lemma prepared_payload:
  "m_payload (prepare_report m acquired high) = dmerge (m_payload m) [(''sample_id'', PStr (sample_id_of (m_source m) (str_of (dgetn (m_payload m) ''boot_id''))
       (nat (int_of (dgetn (m_payload m) ''sample_seq''))))), (''delivery_contract'', PStr DELIVERY_CONTRACT),
     (''importance'', PStr (if high then ''HIGH'' else ''NORMAL'')), (''policy_version'', PStr ''host-profile-v1''),
     (''device_monotonic_ms'', PFloat (Fin (acquired * 1000)))]"
  by (simp add: prepare_report_def Let_def)

lemma json_ok_dmerge: "json_ok (PDict p) \<Longrightarrow> json_ok (PDict q) \<Longrightarrow> json_ok (PDict (dmerge p q))"
proof (induction q arbitrary: p)
  case (Cons kv q)
  have p: "(k, v) \<in> set p \<Longrightarrow> json_ok v" and kv: "json_ok (snd kv)" for k v
    using Cons.prems unfolding json_ok_PDict by (force, simp add: case_prod_beta)
  have "json_ok v" if "(k, v) \<in> set (dset p (fst kv) (snd kv))" for k v
  proof -
    from that have "(k, v) \<in> insert (fst kv, snd kv) (set p)"
      by (rule subsetD [OF set_dset_subset])
    then show ?thesis
    proof
      assume "(k, v) = (fst kv, snd kv)"
      then have "v = snd kv" by auto
      with kv show ?thesis by simp
    qed (rule p)
  qed
  then have "json_ok (PDict (dset p (fst kv) (snd kv)))"
    by (auto simp: json_ok_PDict)
  moreover have "json_ok (PDict q)"
    using Cons.prems(2) by (simp add: json_ok_PDict)
  ultimately show ?case
    using Cons.IH by simp
qed simp

lemma json_ok_filter: "json_ok (PDict p) \<Longrightarrow> json_ok (PDict (filter P p))"
  by (simp add: json_ok_PDict)

lemma prepared_evidence: "json_ok (PDict p) \<Longrightarrow> m_payload m = p \<Longrightarrow> json_ok (PDict (evidence_of (m_payload (prepare_report m acquired high))))"
  unfolding evidence_of_def prepared_payload by (rule json_ok_filter, rule json_ok_dmerge) (simp_all add: json_ok_PDict)

lemma prepared_identity:
  assumes "fresh_boot boot" "1 \<le> sq" "sq \<le> 4294967295" "0 \<le> acquired"
  shows "identity_and_digest h (prepare_report (sample_message node target sq generation (sensor_payload reading t d boot sq) now mid) acquired high) =
    Inr (sample_id_of node boot (nat sq) @ ''-S'',
         h (JText (canon (PDict (evidence_of (m_payload (prepare_report (sample_message node target sq generation (sensor_payload reading t d boot sq) now mid)
           acquired high)))))))"
proof -
  let ?p = "sensor_payload reading t d boot sq"
  define m where "m = prepare_report (sample_message node target sq generation ?p now mid) acquired high"
  have p: "dgetn ?p ''boot_id'' = PStr boot" "dgetn ?p ''sample_seq'' = PInt sq"
    by (simp_all add: sensor_payload_def dgetn_def)
  have m: "m_type m = SENSOR_DATA" "m_source m = node" "m_sequence m = Some sq" "m_id m = sample_id_of node boot (nat sq) @ ''-S''"
      "dgetn (m_payload m) ''boot_id'' = PStr boot" "dgetn (m_payload m) ''sample_seq'' = PInt sq"
      "dgetn (m_payload m) ''sample_id'' = PStr (sample_id_of node boot (nat sq))"
      "dgetn (m_payload m) ''importance'' = PStr (if high then ''HIGH'' else ''NORMAL'')"
      "dgetn (m_payload m) ''policy_version'' = PStr ''host-profile-v1''" "dgetn (m_payload m) ''device_monotonic_ms'' = PFloat (Fin (acquired * 1000))"
    by (simp_all add: m_def prepare_report_def sample_message_def new_message_def Let_def dgetn_def sensor_payload_def str_of_def int_of_def)
  have "json_ok (PDict (evidence_of (m_payload m)))"
    unfolding m_def by (rule prepared_evidence [OF sensor_payload_ok]) (simp add: sample_message_def new_message_def)
  moreover have "set ''0123456789abcdef'' \<subseteq> set boot_chars"
    by (simp add: boot_chars_def)
  then have "set boot \<subseteq> set boot_chars" "length boot = 12"
    using assms(1) unfolding fresh_boot_def by (blast intro: subset_trans)+
  ultimately show ?thesis
    unfolding m_def [symmetric] using assms m
    by (simp add: identity_and_digest_def Let_def is_str_def str_of_def integer_def int_of_def suffix_of_def metadata_ok_def nonempty_str_def number_def
        num_of_def dumps_def)
qed

definition same_counts :: "sensor_node \<Rightarrow> sensor_node \<Rightarrow> bool" where
  "same_counts n n' \<longleftrightarrow> sn_id n' = sn_id n \<and> sn_boot n' = sn_boot n \<and> sn_sequence n' = sn_sequence n"

lemma announce_reply_counts: "same_counts n (snd (announce_reply n gateway answer))"
  by (simp add: announce_reply_def same_counts_def Let_def split: option.split)

lemma announce_attempts_counts: "same_counts n (snd (announce_attempts k n gateway answers))"
proof (induction k n gateway answers rule: announce_attempts.induct)
  case (3 k n gateway answer answers)
  show ?case
  proof (cases answer)
    case None
    with 3(1) show ?thesis by simp
  next
    case (Some r)
    obtain v n' where r: "announce_reply n gateway r = (v, n')" by (metis surj_pair)
    with announce_reply_counts [of n gateway r] have "same_counts n n'" by simp
    with 3(2) [OF Some r [symmetric]] r Some show ?thesis
      by (cases v) (simp_all add: same_counts_def)
  qed
qed (simp_all add: same_counts_def)

lemma sensor_adopt_counts: "same_counts n (snd (sensor_adopt n m gateway))"
  by (simp add: sensor_adopt_def same_counts_def Let_def)

lemma node_step_counts:
  "sn_id (node_step env json n e) = sn_id n" "sn_boot (node_step env json n e) = sn_boot n"
  "sn_sequence (node_step env json n e) = sn_sequence n \<or> sn_sequence (node_step env json n e) = sn_sequence n + 1"
proof -
  have "sn_id (node_step env json n e) = sn_id n \<and> sn_boot (node_step env json n e) = sn_boot n \<and>
      (sn_sequence (node_step env json n e) = sn_sequence n \<or> sn_sequence (node_step env json n e) = sn_sequence n + 1)"
  proof (cases e)
    case (Announced gateway answers)
    with announce_attempts_counts [of "n\<lparr>sn_gateway := gateway\<rparr>" "MAX_RETRIES + 1" gateway answers] show ?thesis
      by (simp add: announce_def same_counts_def)
  next
    case (Received m gateway now io)
    show ?thesis
    proof (cases "sn_window n = None \<or> m_type m \<noteq> PERSISTED_ACK")
      case True
      with sensor_adopt_counts [of n m gateway] Received show ?thesis
        by (simp add: sensor_inbound_other same_counts_def)
    next
      case False
      then obtain w where "sn_window n = Some w" "m_type m = PERSISTED_ACK" by auto
      then show ?thesis
        using sensor_inbound_ack [OF _ _ refl, of n w m gateway now io] by (simp add: Received)
    qed
next
  case (Taken raw t u)
    then show ?thesis
      using take_sample_fields [of n raw t u] by (metis node_step.simps(3) surjective_pairing)
  next
    case (Uploading c acquired now mid io)
    then show ?thesis
      using upload_sample_fields [of env n c acquired now mid io] by (metis node_step.simps(4) surjective_pairing)
  qed (simp_all add: legacy_sent_def notify_sample_def end_sample_def retry_reports_def Let_def split: prod.split sum.split option.split)
  then show "sn_id (node_step env json n e) = sn_id n" "sn_boot (node_step env json n e) = sn_boot n"
      "sn_sequence (node_step env json n e) = sn_sequence n \<or> sn_sequence (node_step env json n e) = sn_sequence n + 1"
    by simp_all
qed

lemma node_run_counts:
  "sn_id (run (node_step env json) n es) = sn_id n \<and> sn_boot (run (node_step env json) n es) = sn_boot n \<and>
   sn_sequence n \<le> sn_sequence (run (node_step env json) n es) \<and> sn_sequence (run (node_step env json) n es) \<le> sn_sequence n + int (length es)"
proof (induction es arbitrary: n)
  case (Cons e es)
  from Cons.IH [of "node_step env json n e"] node_step_counts [of env json n e] show ?case
    by auto
qed simp

lemma sensor_node_init_counts:
  "sensor_node_init env args channels settings policy boot io = Inr n \<Longrightarrow> sn_sequence n = 0 \<and> sn_boot n = boot \<and> sn_id n = na_id args"
  by (auto simp: sensor_node_init_def split: option.splits if_splits sum.splits)

lemma taken_payload:
  "take_sample n raw t u = (n', Inr c) \<Longrightarrow>
     cy_payload c = sensor_payload (cy_reading c) (cy_trust c) (cy_decision c) (sn_boot n') (sn_sequence n')"
  by (auto simp: take_sample_def Let_def split: prod.splits sum.splits)

lemma sample_id_inj:
  assumes "0 < i" "i \<le> 4294967295" "0 < j" "j \<le> 4294967295" "sample_id_of node boot (nat i) = sample_id_of node boot (nat j)"
  shows "i = j"
proof -
  have "\<not> hexs 8 (nat i) < hexs 8 (nat j)" "\<not> hexs 8 (nat j) < hexs 8 (nat i)"
    using assms(5) by (simp_all add: sample_id_of_def)
  moreover have "nat i < 16 ^ 8" "nat j < 16 ^ 8"
    using assms(1-4) by simp_all
  ultimately show ?thesis
    using hexs_less [of "nat i" 8 "nat j"] hexs_less [of "nat j" 8 "nat i"] assms(1, 3) by simp
qed

text \<open>
  C32: every reliable report is well formed and has an identity of its own. Over any interleaving of the
  node's tasks since its start, what the sample loop hands to the window passes the identity check that
  window and gateway make (canonical id, sequence, metadata, a JSON payload), and two samples of one
  start never share an identity.
\<close>

theorem reports_are_well_formed:
  assumes "sensor_node_init env args channels settings policy boot io = Inr n0" "fresh_boot boot"
    and "take_sample (run (node_step env json) n0 es) raw t u = (n1, Inr c)"
    and "take_sample (run (node_step env json) n1 es') raw' t' u' = (n2, Inr c')"
    and "length es + length es' + 2 \<le> 4294967295" "0 \<le> acquired" "0 \<le> acquired'"
  shows "\<exists>i d j d'. identity_and_digest h (durable_report n1 c acquired now mid) = Inr (i, d) \<and>
    identity_and_digest h (durable_report n2 c' acquired' now' mid') = Inr (j, d') \<and> i \<noteq> j"
proof -
  have one: "sn_boot n1 = boot" "sn_id n1 = na_id args" "1 \<le> sn_sequence n1" "sn_sequence n1 \<le> int (length es) + 1"
    using sensor_node_init_counts [OF assms(1)] node_run_counts [of env json n0 es] take_sample_fields [OF assms(3)] by auto
  then have two: "sn_boot n2 = boot" "sn_id n2 = na_id args" "sn_sequence n1 < sn_sequence n2" "sn_sequence n2 \<le> int (length es) + int (length es') + 2"
    using node_run_counts [of env json n1 es'] take_sample_fields [OF assms(4)] by auto
  have bound: "sn_sequence n2 \<le> 4294967295"
    using two(4) assms(5) by linarith
  have p: "cy_payload c = sensor_payload (cy_reading c) (cy_trust c) (cy_decision c) boot (sn_sequence n1)"
      "cy_payload c' = sensor_payload (cy_reading c') (cy_trust c') (cy_decision c') boot (sn_sequence n2)"
    using taken_payload [OF assms(3)] taken_payload [OF assms(4)] one two by simp_all
  have "sample_id_of (na_id args) boot (nat (sn_sequence n1)) \<noteq> sample_id_of (na_id args) boot (nat (sn_sequence n2))"
    using sample_id_inj [of "sn_sequence n1" "sn_sequence n2" "na_id args" boot] one two bound by auto
  moreover obtain d where "identity_and_digest h (durable_report n1 c acquired now mid) =
      Inr (sample_id_of (na_id args) boot (nat (sn_sequence n1)) @ ''-S'', d)"
    using prepared_identity [OF assms(2) one(3) _ assms(6)] two(3) bound unfolding durable_report_def plain_report_def p(1) one(2) by auto
  moreover obtain d' where "identity_and_digest h (durable_report n2 c' acquired' now' mid') =
      Inr (sample_id_of (na_id args) boot (nat (sn_sequence n2)) @ ''-S'', d')"
    using prepared_identity [OF assms(2) _ bound assms(7)] two(3) one(3) unfolding durable_report_def plain_report_def p(2) two(2) by auto
  ultimately show ?thesis by simp
qed

section \<open>Alerts of a reliable node\<close>

text \<open>
  The node and its adapter keep a notifier each. They agree at the start of a cycle, so what the node's
  notifier calls a transition was one for the adapter, which asked for a report of the same cycle.
\<close>

definition agree :: "sensor_node \<Rightarrow> bool" where
  "agree n \<longleftrightarrow> nt_signature (sn_notifier n) = nt_signature (as_notifier (sn_sense n)) \<and> nt_suspect (sn_notifier n) = nt_suspect (as_notifier (sn_sense n))"

lemma agree_init: "sensor_node_init env args channels settings policy boot io = Inr n \<Longrightarrow> agree n"
  by (auto simp: sensor_node_init_def sense_init_def notifier_init_def agree_def split: option.splits if_splits sum.splits)

lemma notifier_marks:
  "notifier_update n t now = (n', x) \<Longrightarrow> nt_signature n' = Some (fault_signature t) \<and> nt_suspect n' = suspect t"
  by (auto simp: notifier_update_def Let_def split: if_splits)

lemma notice_transition:
  "notifier_update n t now = (n', Some no) \<Longrightarrow> no_kind no \<noteq> ''reminder'' \<Longrightarrow>
     suspect t \<and> nt_signature n \<noteq> Some (fault_signature t) \<or> \<not> suspect t \<and> nt_suspect n"
  by (auto simp: notifier_update_def Let_def split: if_splits)

lemma transition_notifies:
  "notifier_update n t now = (n', x) \<Longrightarrow>
     suspect t \<and> nt_signature n \<noteq> Some (fault_signature t) \<or> \<not> suspect t \<and> nt_suspect n \<Longrightarrow> x \<noteq> None"
  by (auto simp: notifier_update_def Let_def split: if_splits)

lemma sense_update_notifier:
  assumes "sense_update a sample t now = (a', d)" "notifier_update (as_notifier a) t now = (n, x)"
  shows "as_notifier a' = n \<and> (x \<noteq> None \<longrightarrow> dn_upload d)"
  using assms by (auto simp: sense_update_def untrusted_decision_def Let_def split: prod.splits if_splits)

lemma taken_notifiers:
  assumes "take_sample n raw t u = (n', Inr c)"
  shows "sn_notifier n' = sn_notifier n \<and> (\<exists>x. notifier_update (as_notifier (sn_sense n)) (cy_trust c) u = (as_notifier (sn_sense n'), x) \<and>
    (x \<noteq> None \<longrightarrow> dn_upload (cy_decision c)))"
proof -
  obtain ts tr where tr: "sensor_trust_update (sn_trust n) (PDict (dict_of raw)) (PFloat (Fin t)) [] = (ts, Inr tr)"
    using assms by (auto simp: take_sample_def Let_def split: prod.splits sum.splits)
  obtain se d where se: "sense_update (sn_sense n) (dict_of raw) tr u = (se, d)" by (metis surj_pair)
  obtain k x where k: "notifier_update (as_notifier (sn_sense n)) tr u = (k, x)" by (metis surj_pair)
  have "cy_trust c = tr" "cy_decision c = d" "sn_sense n' = se" "sn_notifier n' = sn_notifier n"
    using assms tr se by (auto simp: take_sample_def Let_def sn_count_def)
  with sense_update_notifier [OF se k] k show ?thesis by blast
qed

lemma upload_keeps:
  assumes "upload_sample env n c acquired now mid io = (n', Inr (c', out))"
  shows "sn_notifier n' = sn_notifier n \<and> sn_sense n' = sn_sense n \<and> cy_trust c' = cy_trust c"
  using assms by (auto simp: upload_sample_def Let_def sn_count_def split: if_splits option.splits prod.splits sum.splits py_error.splits)

lemma upload_prepared:
  assumes "upload_sample env n c acquired now mid io = (n', Inr (c', out))" "sn_window n = Some w" "dn_upload (cy_decision c)"
  shows "dgetn (cy_payload c') ''delivery_contract'' = PStr DELIVERY_CONTRACT"
proof -
  have "cy_payload c' = m_payload (durable_report n c acquired now mid)"
    using assms by (auto simp: upload_sample_def Let_def split: prod.splits sum.splits py_error.splits)
  then show ?thesis
    by (simp add: durable_report_def prepared_payload)
qed

lemma unsequenced_refused: "m_sequence m = None \<Longrightarrow> identity_and_digest h m = Inl (MessageErr ''invalid reliable sample identity'')"
  by (simp add: identity_and_digest_def Let_def)

lemma noticed_alert:
  assumes "notify_sample json n c t now mid = (n', Some a)"
  shows "m_sequence a = None" "dgetn (m_payload a) ''delivery_contract'' = dgetn (cy_payload c) ''delivery_contract''"
    "\<exists>k no. notifier_update (sn_notifier n) (cy_trust c) t = (k, Some no) \<and> dgetn (m_payload a) ''notification'' = PStr (no_kind no)"
  using assms by (auto simp: notify_sample_def new_message_def notice_dict_def split: prod.splits option.splits)

lemma cycle_agrees:
  assumes "take_sample n raw t u = (n1, Inr c)" "upload_sample env n1 c acquired now mid io = (n2, Inr (c', out))"
    and "notify_sample json n2 c' v now' mid' = (n3, x)"
  shows "agree n3"
proof -
  obtain y where y: "notifier_update (as_notifier (sn_sense n)) (cy_trust c) u = (as_notifier (sn_sense n1), y)"
    using taken_notifiers [OF assms(1)] by metis
  obtain k z where k: "notifier_update (sn_notifier n2) (cy_trust c') v = (k, z)" by (metis surj_pair)
  have "sn_notifier n3 = k" "sn_sense n3 = sn_sense n2"
    using assms(3) k by (auto simp: notify_sample_def split: option.splits)
  moreover have "sn_sense n2 = sn_sense n1" "cy_trust c' = cy_trust c"
    using upload_keeps [OF assms(2)] by simp_all
  ultimately show ?thesis
    using notifier_marks [OF y] notifier_marks [OF k] unfolding agree_def by metis
qed

text \<open>
  C34: in gateway-durable mode no alert of a quality change gets through. The report of the cycle marks the
  payload that the alert is built from with the durable contract, while the alert has no sequence number and
  a fresh id, so every gateway refuses it: nothing is stored, uploaded or acknowledged, and the node does
  not send it again. The cycle also leaves the two notifiers in agreement, so this repeats.
\<close>

theorem reliable_alert_is_refused:
  assumes "agree n" "take_sample n raw t u = (n1, Inr c)" "sn_window n1 = Some w"
    and "upload_sample env n1 c acquired now mid io = (n2, Inr (c', out))"
    and "notify_sample json n2 c' v now' mid' = (n3, Some a)" "dgetn (m_payload a) ''notification'' \<noteq> PStr ''reminder''"
  shows "sensor_receive g h a ing gio = (gcount ''sensor_durable_rejected'' g, [], Finished) \<and> agree n3"
proof -
  obtain y where y: "notifier_update (as_notifier (sn_sense n)) (cy_trust c) u = (as_notifier (sn_sense n1), y)"
      "y \<noteq> None \<longrightarrow> dn_upload (cy_decision c)" "sn_notifier n1 = sn_notifier n"
    using taken_notifiers [OF assms(2)] by metis
  obtain k no where k: "notifier_update (sn_notifier n2) (cy_trust c') v = (k, Some no)" "dgetn (m_payload a) ''notification'' = PStr (no_kind no)"
    using noticed_alert(3) [OF assms(5)] by blast
  have same: "nt_signature (sn_notifier n2) = nt_signature (as_notifier (sn_sense n))" "nt_suspect (sn_notifier n2) = nt_suspect (as_notifier (sn_sense n))"
      "cy_trust c' = cy_trust c"
    using assms(1) upload_keeps [OF assms(4)] y(3) unfolding agree_def by metis+
  have "no_kind no \<noteq> ''reminder''"
    using assms(6) k(2) by simp
  then have "y \<noteq> None"
    using notice_transition [OF k(1)] transition_notifies [OF y(1)] unfolding same by blast
  then have "dgetn (m_payload a) ''delivery_contract'' = PStr DELIVERY_CONTRACT"
    using y(2) upload_prepared [OF assms(4, 3)] noticed_alert(2) [OF assms(5)] by simp
  then have "sensor_receive g h a ing gio = (gcount ''sensor_durable_rejected'' g, [], Finished)"
    using noticed_alert(1) [OF assms(5)] by (simp add: sensor_receive_def unsequenced_refused Let_def)
  with cycle_agrees [OF assms(2, 4, 5)] show ?thesis by simp
qed

text \<open>A failed write of the report database is no \<^verbatim>\<open>StateError\<close>: it leaves the sample loop and the session.\<close>

lemma storage_fault_escapes:
  assumes "sn_window n = Some w" "dn_upload (cy_decision c)" "identity_and_digest (st_digest (sw_store w)) (durable_report n c acquired now mid) = Inr x"
    and "map_of (sw_evidence w) (m_id (durable_report n c acquired now mid)) = None" "length (sw_evidence w) < dw_capacity (sw_window w)"
    and "dgetn (m_payload (durable_report n c acquired now mid)) ''importance'' = PStr ''HIGH''"
    and "json_ok (reports_value (dset (sw_evidence w) (m_id (durable_report n c acquired now mid))
      (report_row (durable_report n c acquired now mid) (cy_reading c) (cy_trust c) acquired)))"
  shows "snd (upload_sample env n c acquired now mid False) = Inl StorageErr \<and> \<not> session_catches StorageErr"
  using assms by (simp add: upload_sample_def admit_report_def save_def dumps_def Let_def session_catches_def)

section \<open>Witnesses\<close>

definition demo_node_args :: node_args where
  "demo_node_args = \<lparr>na_id = ''B1'', na_host = ''h'', na_port = None, na_slow = None, na_fast = None, na_history = 8, na_profile = ''lab'',
     na_mode = ''gateway-durable'', na_disk = Some (store_init (\<lambda>_. ''h''))\<rparr>"

definition demo_node_init :: "py_error + sensor_node" where
  "demo_node_init = sensor_node_init demo_lora demo_node_args [(''temperature'', demo_channel)] demo_sense_settings DEFAULT_POLICY ''0123456789ab'' True"

definition demo_missing :: trust where
  "demo_missing = trust_of [(''temperature'', verdict [] False)]"

definition demo_cycle :: cycle where
  "demo_cycle =
     (let d = \<lparr>dn_state = ''STABLE'', dn_interval = 20, dn_score = None, dn_event = False, dn_upload = True, dn_relevant = False,
            dn_reasons = [''SENSOR_FAULT''], dn_health = HEALTHY, dn_core = None\<rparr>
      in \<lparr>cy_reading = [(''temperature'', PNone)], cy_trust = demo_missing, cy_decision = d,
           cy_payload = sensor_payload [(''temperature'', PNone)] demo_missing d ''0123456789ab'' 1\<rparr>)"

lemma demo_missing: "tr_state demo_missing = HEALTHY" "\<not> tr_usable demo_missing" "suspect demo_missing" "\<not> healthy demo_missing"
    "tr_score demo_missing = 100" "tr_flags demo_missing = []"
    "tr_channels demo_missing = [(''temperature'', \<lparr>cr_score = 100, cr_state = HEALTHY, cr_flags = [], cr_valid = False\<rparr>)]"
  by (simp_all add: demo_missing_def suspect_def healthy_def trust_of_def verdict_def state_of_score_def PENALTIES_def Let_def)

lemma demo_node: "\<exists>n w. demo_node_init = Inr n \<and> sn_window n = Some w \<and> sw_evidence w = [] \<and> dw_pending (sw_window w) = [] \<and>
    dw_capacity (sw_window w) = 16 \<and> dw_last (sw_window w) = None \<and> sn_sequence n = 0 \<and> sn_boot n = ''0123456789ab'' \<and> sn_id n = ''B1'' \<and>
    sn_owner n = None \<and> sn_gateway n = ''A1'' \<and> sn_generation n = INITIAL_GENERATION \<and>
    sn_trust n = sensor_trust_init [(''temperature'', demo_channel)] \<and> sn_notifier n = \<lparr>nt_reminder = 300, nt_signature = None, nt_last = None, nt_suspect = False\<rparr> \<and>
    as_notifier (sn_sense n) = sn_notifier n \<and> as_settings (sn_sense n) = demo_sense_settings \<and> rg_reported (as_relevance (sn_sense n)) = []"
  by (simp add: demo_node_init_def demo_node_args_def sensor_node_init_def open_reports_def report_window_init_def window_init_def load_def store_init_def
      sense_init_def scaled_settings_def demo_sense_settings_def notifier_init_def relevance_init_def set_policy_def THRESHOLDS_def DEFAULT_POLICY_def
      dhas_def dgetn_def number_def GATEWAY_OF_SENSOR_def DELIVERY_MODES_def)

lemma demo_trust_missing:
  "\<exists>ct. sensor_trust_update (sensor_trust_init [(''temperature'', demo_channel)]) (PDict [(''temperature'', PNone)]) (PFloat (Fin 0)) [] =
     ([(''temperature'', ct)], Inr demo_missing)"
  by (simp add: sensor_trust_update_def sensor_trust_init_def demo_channel_def finite_number_def dict_of_def dgetn_def num_of_def
      channel_update_def channel_init_def no_value_def demo_missing_def)

lemma no_relevance: "rg_reported g = [] \<Longrightarrow> evaluate_relevance g sample trusted = []"
proof -
  assume "rg_reported g = []"
  then have "foldl (field_reasons g sample trusted) [] ts = []" for ts
    by (induction ts) (auto simp: field_reasons_def)
  then show ?thesis by (simp add: evaluate_relevance_def)
qed

lemma demo_taken:
  assumes "demo_node_init = Inr n"
  shows "\<exists>n1. take_sample n (PDict [(''temperature'', PNone)]) 0 0 = (n1, Inr demo_cycle) \<and> sn_window n1 = sn_window n \<and> sn_id n1 = ''B1'' \<and>
    sn_sequence n1 = 1 \<and> sn_target n1 = ''A1'' \<and> sn_generation n1 = INITIAL_GENERATION \<and> sn_notifier n1 = sn_notifier n \<and>
    (\<exists>ct. sn_trust n1 = [(''temperature'', ct)])"
proof -
  have n: "sn_trust n = sensor_trust_init [(''temperature'', demo_channel)]" "sn_sequence n = 0" "sn_boot n = ''0123456789ab''" "sn_id n = ''B1''"
      "sn_owner n = None" "sn_gateway n = ''A1''" "sn_generation n = INITIAL_GENERATION" "as_settings (sn_sense n) = demo_sense_settings"
      "as_notifier (sn_sense n) = \<lparr>nt_reminder = 300, nt_signature = None, nt_last = None, nt_suspect = False\<rparr>" "rg_reported (as_relevance (sn_sense n)) = []"
    using demo_node unfolding assms by auto
  obtain ct where ts: "sensor_trust_update (sensor_trust_init [(''temperature'', demo_channel)]) (PDict [(''temperature'', PNone)]) (PFloat (Fin 0)) [] =
      ([(''temperature'', ct)], Inr demo_missing)"
    using demo_trust_missing by blast
  obtain k no where k: "notifier_update (as_notifier (sn_sense n)) demo_missing 0 = (k, Some no)"
    unfolding n by (simp add: notifier_update_def demo_missing Let_def)
  have "\<exists>se. sense_update (sn_sense n) [(''temperature'', PNone)] demo_missing 0 = (se, cy_decision demo_cycle)"
    by (simp add: sense_update_def k demo_missing untrusted_decision_def no_relevance n(8, 10) demo_cycle_def demo_sense_settings_def Let_def)
  then obtain se where se: "sense_update (sn_sense n) [(''temperature'', PNone)] demo_missing 0 = (se, cy_decision demo_cycle)" by blast
  show ?thesis
    using ts se n(1-7)
    by (simp add: take_sample_def dict_of_def sn_target_def sn_count_def or_name_def Let_def) (simp add: demo_cycle_def Let_def)
qed

lemma taken_missing: "sn_trust n = [(k, ct)] \<Longrightarrow> \<exists>n' c. take_sample n (PDict [(k, PNone)]) t u = (n', Inr c)"
  by (simp add: take_sample_def sensor_trust_update_def finite_number_def dict_of_def dgetn_def channel_update_def no_value_def num_of_def Let_def
      split: prod.split)

lemma demo_first_digits: "hexs 8 1 = ''00000001''"
  by code_simp

lemma demo_report:
  assumes "sn_id n = ''B1''" "sn_sequence n = 1" "sn_target n = ''A1''" "sn_generation n = INITIAL_GENERATION"
  defines "r \<equiv> durable_report n demo_cycle 0 0 ''m''"
  shows "\<exists>x. identity_and_digest h r = Inr x" "m_id r = ''B1-0123456789ab-00000001-S''"
    "dgetn (m_payload r) ''importance'' = PStr ''NORMAL''" "canonical demo_lora r = Inr [1]"
proof -
  have boot: "fresh_boot ''0123456789ab''"
    by (simp add: fresh_boot_def)
  have payload: "cy_payload demo_cycle = sensor_payload [(''temperature'', PNone)] demo_missing (cy_decision demo_cycle) ''0123456789ab'' 1"
    by (simp add: demo_cycle_def Let_def)
  have r: "r = prepare_report (sample_message ''B1'' ''A1'' 1 INITIAL_GENERATION (cy_payload demo_cycle) 0 ''m'') 0 (report_is_high (cy_decision demo_cycle))"
    by (simp add: r_def durable_report_def plain_report_def assms)
  have low: "report_is_high (cy_decision demo_cycle) = False"
    by (simp add: report_is_high_def demo_cycle_def HIGH_REASONS_def Let_def)
  show "\<exists>x. identity_and_digest h r = Inr x"
    unfolding r payload using prepared_identity [OF boot, where sq = 1 and acquired = 0] by auto
  show mid: "m_id r = ''B1-0123456789ab-00000001-S''"
    unfolding r payload
    by (simp add: prepare_report_def sample_message_def new_message_def sensor_payload_def dgetn_def Let_def sample_id_of_def str_of_def int_of_def
        demo_first_digits [unfolded One_nat_def])
  show imp: "dgetn (m_payload r) ''importance'' = PStr ''NORMAL''"
    unfolding r low by (simp add: prepared_payload)
  have "finite_json (PDict (m_payload r))"
    unfolding r low payload prepared_payload
    by (simp add: sample_message_def new_message_def sensor_payload_def dset_def demo_missing schedule_dict_def demo_cycle_def finite_json_PDict
        result_dict_def int_finite_def number_def Let_def)
  moreover have "m_source r = ''B1''" "m_target r = ''A1''" "m_protocol_version r = Some 1" "m_sequence r = Some 1" "m_attempt r = None"
      "m_generation r = Some INITIAL_GENERATION"
    unfolding r by (simp_all add: prepare_report_def sample_message_def new_message_def Let_def)
  ultimately have wf: "wf_message r" and fin: "finite_json (PDict (m_payload r))"
    by (simp_all add: wf_message_def wf_opt_def INITIAL_GENERATION_def mid)
  have "json_ok (PDict (to_dict r))"
    using finite_json_json_ok [OF fin] unfolding json_ok_PDict [of "to_dict r"] by (auto simp: to_dict_def opt_entry_def split: option.splits)
  with from_to_dict [OF wf] show "canonical demo_lora r = Inr [1]"
    by (simp add: canonical_def identity_def demo_lora_def MAX_MESSAGE_def mid)
qed

lemma demo_uploaded:
  assumes "sn_window n = Some w" "sw_evidence w = []" "dw_pending (sw_window w) = []" "dw_capacity (sw_window w) = 16" "dw_last (sw_window w) = None"
    and "sn_id n = ''B1''" "sn_sequence n = 1" "sn_target n = ''A1''" "sn_generation n = INITIAL_GENERATION"
  shows "\<exists>n' c' w'. upload_sample demo_lora n demo_cycle 0 0 ''m'' True = (n', Inr (c', [])) \<and> n' = n\<lparr>sn_window := Some w'\<rparr> \<and> cy_trust c' = demo_missing"
proof -
  define r where "r = durable_report n demo_cycle 0 0 ''m''"
  obtain x where x: "identity_and_digest (st_digest (sw_store w)) r = Inr x"
    using demo_report(1) [OF assms(6-9)] unfolding r_def by blast
  have r: "dgetn (m_payload r) ''importance'' = PStr ''NORMAL''" "canonical demo_lora r = Inr [1]"
    using demo_report(3, 4) [OF assms(6-9)] unfolding r_def by simp_all
  have "\<not> row_high (report_row r (cy_reading demo_cycle) (cy_trust demo_cycle) 0)"
    by (simp add: row_high_def r(1))
  then have "json_ok (reports_value (dset (sw_evidence w) (m_id r) (report_row r (cy_reading demo_cycle) (cy_trust demo_cycle) 0)))"
    by (simp add: assms(2) reports_value_def dset_def json_ok_PDict)
  then obtain st where st: "save (sw_store w) ''sensor_reports'' (reports_value (dset (sw_evidence w) (m_id r)
      (report_row r (cy_reading demo_cycle) (cy_trust demo_cycle) 0))) 0 True = Inr st"
    using save_ok by blast
  have "\<exists>w'. admit_report demo_lora w r (cy_reading demo_cycle) (cy_trust demo_cycle) 0 0 True = (w', Inr True)"
    using assms(2-5) x r st by (simp add: admit_report_def Let_def window_admit_def window_time_def)
  then obtain w' where "admit_report demo_lora w r (cy_reading demo_cycle) (cy_trust demo_cycle) 0 0 True = (w', Inr True)" by blast
  moreover have "dn_upload (cy_decision demo_cycle)" "cy_trust (demo_cycle\<lparr>cy_payload := m_payload r\<rparr>) = demo_missing"
    by (simp_all add: demo_cycle_def Let_def)
  ultimately have "upload_sample demo_lora n demo_cycle 0 0 ''m'' True = (n\<lparr>sn_window := Some w'\<rparr>, Inr (demo_cycle\<lparr>cy_payload := m_payload r\<rparr>, []))"
    using assms(1) by (simp add: upload_sample_def r_def [symmetric] Let_def)
  with \<open>cy_trust (demo_cycle\<lparr>cy_payload := m_payload r\<rparr>) = demo_missing\<close> show ?thesis by blast
qed

theorem ownership_is_monotone_witness:
  "\<exists>n. demo_node_init = Inr n \<and> sn_generation n \<le> sn_generation (run (node_step demo_lora (\<lambda>_. ''s'')) n
     [Announced ''A1'' [Some (Some (new_message NODE_REGISTER_ACK ''A1'' ''B1''
        [(''owner_gateway'', PStr ''A1''), (''generation'', PInt 5), (''accepted'', PBool True)] 0 ''r''))]])"
proof -
  obtain n where "demo_node_init = Inr n"
    using demo_node by blast
  moreover have "n = run (node_step demo_lora (\<lambda>_. ''s'')) n []" by simp
  ultimately show ?thesis
    using ownership_is_monotone [OF _ refl] by blast
qed

theorem reports_are_well_formed_witness:
  "\<exists>n n1 n2. demo_node_init = Inr n \<and> take_sample n (PDict [(''temperature'', PNone)]) 0 0 = (n1, Inr demo_cycle) \<and>
     (\<exists>c i d j e. take_sample n1 (PDict [(''temperature'', PNone)]) 1 1 = (n2, Inr c) \<and>
       identity_and_digest (\<lambda>_. ''h'') (durable_report n1 demo_cycle 0 0 ''m'') = Inr (i, d) \<and>
       identity_and_digest (\<lambda>_. ''h'') (durable_report n2 c 1 1 ''k'') = Inr (j, e) \<and> i \<noteq> j)"
proof -
  obtain n where n: "demo_node_init = Inr n"
    using demo_node by blast
  obtain n1 where 1: "take_sample n (PDict [(''temperature'', PNone)]) 0 0 = (n1, Inr demo_cycle)"
    using demo_taken [OF n] by blast
  obtain ct where "sn_trust n1 = [(''temperature'', ct)]"
    using demo_taken [OF n] 1 by auto
  then obtain n2 c where 2: "take_sample n1 (PDict [(''temperature'', PNone)]) 1 1 = (n2, Inr c)"
    using taken_missing [where t = 1 and u = 1] by blast
  have boot: "fresh_boot ''0123456789ab''"
    by (simp add: fresh_boot_def)
  have "take_sample (run (node_step demo_lora (\<lambda>_. ''s'')) n []) (PDict [(''temperature'', PNone)]) 0 0 = (n1, Inr demo_cycle)"
    "take_sample (run (node_step demo_lora (\<lambda>_. ''s'')) n1 []) (PDict [(''temperature'', PNone)]) 1 1 = (n2, Inr c)"
    using 1 2 by simp_all
  from reports_are_well_formed [OF n [unfolded demo_node_init_def] boot this, where acquired = 0 and acquired' = 1 and now = 0 and now' = 1 and
      mid = "''m''" and mid' = "''k''" and h = "\<lambda>_. ''h''"]
  show ?thesis using n 1 2 by auto
qed

theorem reliable_alert_is_refused_witness:
  "\<exists>n n1 n2 c' n3 a. demo_node_init = Inr n \<and> take_sample n (PDict [(''temperature'', PNone)]) 0 0 = (n1, Inr demo_cycle) \<and>
     upload_sample demo_lora n1 demo_cycle 0 0 ''m'' True = (n2, Inr (c', [])) \<and>
     notify_sample (\<lambda>_. ''s'') n2 c' 0 0 ''k'' = (n3, Some a) \<and>
     (\<forall>g ing gio. sensor_receive g (\<lambda>_. ''h'') a ing gio = (gcount ''sensor_durable_rejected'' g, [], Finished))"
proof -
  obtain n w where n: "demo_node_init = Inr n" and w: "sn_window n = Some w" "sw_evidence w = []" "dw_pending (sw_window w) = []"
      "dw_capacity (sw_window w) = 16" "dw_last (sw_window w) = None"
    and nt: "sn_notifier n = \<lparr>nt_reminder = 300, nt_signature = None, nt_last = None, nt_suspect = False\<rparr>"
    using demo_node by blast
  obtain n1 where 1: "take_sample n (PDict [(''temperature'', PNone)]) 0 0 = (n1, Inr demo_cycle)"
    and n1: "sn_window n1 = Some w" "sn_id n1 = ''B1''" "sn_sequence n1 = 1" "sn_target n1 = ''A1''" "sn_generation n1 = INITIAL_GENERATION"
      "sn_notifier n1 = sn_notifier n"
    using demo_taken [OF n] w(1) by auto
  obtain n2 c' w' where 2: "upload_sample demo_lora n1 demo_cycle 0 0 ''m'' True = (n2, Inr (c', []))" "n2 = n1\<lparr>sn_window := Some w'\<rparr>" "cy_trust c' = demo_missing"
    using demo_uploaded [OF n1(1) w(2-5) n1(2-5)] by blast
  obtain k no where k: "notifier_update (sn_notifier n2) (cy_trust c') 0 = (k, Some no)" "no_kind no = ''transition''"
    unfolding 2(2, 3) by (simp add: n1(6) nt notifier_update_def demo_missing Let_def)
  obtain n3 a where 3: "notify_sample (\<lambda>_. ''s'') n2 c' 0 0 ''k'' = (n3, Some a)"
    using k by (simp add: notify_sample_def)
  have "dgetn (m_payload a) ''notification'' \<noteq> PStr ''reminder''"
    using noticed_alert(3) [OF 3] k by auto
  from reliable_alert_is_refused [OF agree_init [OF n [unfolded demo_node_init_def]] 1 n1(1) 2(1) 3 this, where h = "\<lambda>_. ''h''"]
  show ?thesis using n 1 2(1) 3 by blast
qed

end
