(* ===== verification/SensorRuntime.thy ===== *)
theory SensorRuntime
  imports SensorNode
begin

text \<open>
  \<^verbatim>\<open>sensor_node/runtime.py\<close>: the duty-cycled node. One call of \<^verbatim>\<open>sample_once\<close> takes a sample, judges it and,
  when there is something to say, wakes the radio, talks and puts it to sleep again. The transport
  is the caller's: whether each of its calls returns, and what it heard, are inputs, and the calls made
  are part of the result. The constructor raises at once for a physical device, which is left out.
  The window changes only inside the call, so the call is one step.
\<close>

section \<open>State\<close>

record runtime =
  rt_id :: string
  rt_owner :: string
  rt_generation :: int
  rt_boot :: string
  rt_trust :: sensor_trust
  rt_sense :: sense
  rt_notifier :: notifier
  rt_samples :: int
  rt_messages :: nat
  rt_backpressure :: nat
  rt_window :: "report_window option"

definition runtime_init :: "lora_env \<Rightarrow> string \<Rightarrow> string \<Rightarrow> int \<Rightarrow> string \<Rightarrow> string \<Rightarrow> store option \<Rightarrow> bool \<Rightarrow>
    (string \<times> channel_cfg) list \<Rightarrow> sense_settings \<Rightarrow> dict \<Rightarrow> bool \<Rightarrow> py_error + runtime" where
  "runtime_init env node owner generation boot mode disk confirms channels settings policy io =
     (case (sense_init settings None None policy, notifier_init (se_reminder settings)) of
        (Inl e, _) \<Rightarrow> Inl e
      | (_, Inl e) \<Rightarrow> Inl e
      | (Inr se, Inr nt) \<Rightarrow>
          let rt = \<lparr>rt_id = node, rt_owner = owner, rt_generation = generation, rt_boot = boot, rt_trust = sensor_trust_init channels,
                rt_sense = se, rt_notifier = nt, rt_samples = 0, rt_messages = 0, rt_backpressure = 0, rt_window = None\<rparr>
          in if mode \<notin> set DELIVERY_MODES then Inl (ValueErr ''unknown delivery mode'')
             else if mode \<noteq> ''gateway-durable'' then Inr rt
             else (case disk of
                 None \<Rightarrow> Inl (ValueErr ''reliable runtime requires state database and explicit confirmation adapter'')
               | Some st \<Rightarrow>
                   if \<not> confirms then Inl (ValueErr ''reliable runtime requires state database and explicit confirmation adapter'')
                   else map_sum id (\<lambda>w. rt\<lparr>rt_window := Some w\<rparr>) (report_window_init env node boot st 16 io)))"

section \<open>The radio\<close>

datatype radio_call = Wake | Transmit message | Listen | Sleep

datatype hearing = Heard message | Silence | Broken

datatype interruption = RadioFailed | Raised py_error

text \<open>
  What the transport does in one call of \<^verbatim>\<open>sample_once\<close>: whether the wake-up works; for each report whether the
  send returns, what is heard, and the time and outcome of the save that a receipt causes; whether the
  legacy message and the alert are sent. Reports beyond the list fail.
\<close>

record radio =
  ra_wake :: bool
  ra_reports :: "(bool \<times> hearing \<times> real \<times> bool) list"
  ra_legacy :: bool
  ra_alert :: bool

fun send_reports :: "runtime \<Rightarrow> message list \<Rightarrow> (bool \<times> hearing \<times> real \<times> bool) list \<Rightarrow> runtime \<times> radio_call list \<times> interruption option" where
  "send_reports rt [] inputs = (rt, [], None)"
| "send_reports rt (m # ms) [] = (rt, [Transmit m], Some RadioFailed)"
| "send_reports rt (m # ms) ((sent, ear, now, io) # inputs) =
     (if \<not> sent then (rt, [Transmit m], Some RadioFailed)
      else let rt1 = rt\<lparr>rt_messages := rt_messages rt + 1\<rparr>;
               continue = (\<lambda>rt2. case send_reports rt2 ms inputs of (rt3, calls, stop) \<Rightarrow> (rt3, Transmit m # Listen # calls, stop))
           in case ear of
                Broken \<Rightarrow> (rt1, [Transmit m, Listen], Some RadioFailed)
              | Silence \<Rightarrow> continue rt1
              | Heard answer \<Rightarrow>
                  (case rt_window rt1 of
                     None \<Rightarrow> continue rt1
                   | Some w \<Rightarrow>
                       (case confirm_report w answer (rt_sense rt1) (rt_owner rt1) now io of
                          (w', se, Inl e) \<Rightarrow> (rt1\<lparr>rt_window := Some w', rt_sense := se\<rparr>, [Transmit m, Listen], Some (Raised e))
                        | (w', se, Inr _) \<Rightarrow> continue (rt1\<lparr>rt_window := Some w', rt_sense := se\<rparr>))))"

section \<open>One sample\<close>

definition runtime_is_high :: "sense_decision \<Rightarrow> bool" where
  "runtime_is_high d \<longleftrightarrow> dn_event d \<or> dn_relevant d \<or> ''HEALTH_CHANGE'' \<in> set (dn_reasons d) \<or> ''FIRST_SAMPLE'' \<in> set (dn_reasons d)"

definition runtime_message :: "runtime \<Rightarrow> dict \<Rightarrow> real \<Rightarrow> string \<Rightarrow> message" where
  "runtime_message rt payload now mid = sample_message (rt_id rt) (rt_owner rt) (rt_samples rt) (rt_generation rt) payload now mid"

text \<open>Until the reports are due: the state, the locals, the notice and the reports to send.\<close>

definition runtime_sense :: "runtime \<Rightarrow> dict \<Rightarrow> real \<Rightarrow> runtime \<times> (py_error + cycle \<times> notice option)" where
  "runtime_sense rt reading t =
     (let rt1 = rt\<lparr>rt_samples := rt_samples rt + 1\<rparr>
      in case sensor_trust_update (rt_trust rt1) (PDict reading) (PFloat (Fin t)) [] of
           (ts, Inl e) \<Rightarrow> (rt1\<lparr>rt_trust := ts\<rparr>, Inl e)
         | (ts, Inr tr) \<Rightarrow>
             (case (sense_update (rt_sense rt1) reading tr t, notifier_update (rt_notifier rt1) tr t) of
                ((se, d), (nt, notice)) \<Rightarrow>
                  (rt1\<lparr>rt_trust := ts, rt_sense := se, rt_notifier := nt\<rparr>,
                   Inr (\<lparr>cy_reading = reading, cy_trust = tr, cy_decision = d,
                         cy_payload = sensor_payload reading tr d (rt_boot rt1) (rt_samples rt1)\<rparr>, notice))))"

definition runtime_admit :: "lora_env \<Rightarrow> runtime \<Rightarrow> report_window \<Rightarrow> cycle \<Rightarrow> real \<Rightarrow> real \<Rightarrow> string \<Rightarrow> bool \<Rightarrow> runtime \<times> (py_error + cycle)" where
  "runtime_admit env rt w c t now mid io =
     (if \<not> dn_upload (cy_decision c) then (rt, Inr c)
      else let r = prepare_report (runtime_message rt (cy_payload c) now mid) t (runtime_is_high (cy_decision c));
               c' = c\<lparr>cy_payload := m_payload r\<rparr>
           in (case admit_report env w r (cy_reading c) (cy_trust c) t now io of
                 (w', Inr _) \<Rightarrow> (rt\<lparr>rt_window := Some w'\<rparr>, Inr c')
               | (w', Inl (StateErr x)) \<Rightarrow> (rt\<lparr>rt_window := Some w', rt_backpressure := rt_backpressure rt + 1\<rparr>, Inr c')
               | (w', Inl e) \<Rightarrow> (rt\<lparr>rt_window := Some w'\<rparr>, Inl e)))"

definition runtime_outgoing :: "lora_env \<Rightarrow> runtime \<Rightarrow> cycle \<Rightarrow> real \<Rightarrow> real \<Rightarrow> string \<Rightarrow> bool \<Rightarrow> runtime \<times> (py_error + cycle \<times> message list)" where
  "runtime_outgoing env rt c t now mid io =
     (case rt_window rt of
        None \<Rightarrow> (rt, Inr (c, []))
      | Some w \<Rightarrow>
          (case runtime_admit env rt w c t now mid io of
             (rt1, Inl e) \<Rightarrow> (rt1, Inl e)
           | (rt1, Inr c') \<Rightarrow>
               (case rt_window rt1 of
                  None \<Rightarrow> (rt1, Inr (c', []))
                | Some w1 \<Rightarrow>
                    (case due_reports w1 t (rt_owner rt1) of
                       (w2, Inl e) \<Rightarrow> (rt1\<lparr>rt_window := Some w2\<rparr>, Inl e)
                     | (w2, Inr ms) \<Rightarrow> (rt1\<lparr>rt_window := Some w2\<rparr>, Inr (c', ms))))))"

definition legacy_upload :: "runtime \<Rightarrow> cycle \<Rightarrow> real \<Rightarrow> string \<Rightarrow> bool \<Rightarrow> runtime \<times> radio_call list \<times> interruption option" where
  "legacy_upload rt c now mid ok =
     (let call = Transmit (runtime_message rt (cy_payload c) now mid)
      in if \<not> ok then (rt, [call], Some RadioFailed)
         else let rt1 = rt\<lparr>rt_messages := rt_messages rt + 1\<rparr>
              in (case mark_reported (rt_sense rt1) (cy_reading c) (cy_trust c) None None of
                    (se, Inl e) \<Rightarrow> (rt1\<lparr>rt_sense := se\<rparr>, [call], Some (Raised e))
                  | (se, Inr _) \<Rightarrow> (rt1\<lparr>rt_sense := se\<rparr>, [call], None)))"

definition runtime_alert :: "(pyval \<Rightarrow> string) \<Rightarrow> runtime \<Rightarrow> cycle \<Rightarrow> notice \<Rightarrow> real \<Rightarrow> string \<Rightarrow> message" where
  "runtime_alert json rt c notice now mid =
     new_message ALERT (rt_id rt) (rt_owner rt)
       (dmerge (cy_payload c) (notice_dict json notice @ [(''sensor_node_id'', PStr (rt_id rt))])) now mid"

definition runtime_talk :: "(pyval \<Rightarrow> string) \<Rightarrow> runtime \<Rightarrow> cycle \<Rightarrow> notice option \<Rightarrow> message list \<Rightarrow> radio \<Rightarrow> real \<Rightarrow> string \<times> string \<Rightarrow>
    runtime \<times> radio_call list \<times> interruption option" where
  "runtime_talk json rt c notice outgoing ra now ids =
     (if \<not> ra_wake ra then (rt, [Wake], Some RadioFailed)
      else case (if rt_window rt \<noteq> None then send_reports rt outgoing (ra_reports ra)
                 else if dn_upload (cy_decision c) then legacy_upload rt c now (fst ids) (ra_legacy ra)
                 else (rt, [], None)) of
          (rt1, calls, Some x) \<Rightarrow> (rt1, Wake # calls, Some x)
        | (rt1, calls, None) \<Rightarrow>
            (case notice of
               None \<Rightarrow> (rt1, Wake # calls, None)
             | Some no \<Rightarrow> (rt1, Wake # calls @ [Transmit (runtime_alert json rt1 c no now (snd ids))],
                 if ra_alert ra then None else Some RadioFailed)))"

definition sample_once :: "lora_env \<Rightarrow> (pyval \<Rightarrow> string) \<Rightarrow> runtime \<Rightarrow> dict \<Rightarrow> real \<Rightarrow> radio \<Rightarrow> real \<Rightarrow> string \<times> string \<Rightarrow> bool \<Rightarrow>
    runtime \<times> radio_call list \<times> (interruption + sense_decision)" where
  "sample_once env json rt reading t ra now ids io =
     (case runtime_sense rt reading t of
        (rt1, Inl e) \<Rightarrow> (rt1, [], Inl (Raised e))
      | (rt1, Inr (c, notice)) \<Rightarrow>
          (case runtime_outgoing env rt1 c t now (fst ids) io of
             (rt2, Inl e) \<Rightarrow> (rt2, [], Inl (Raised e))
           | (rt2, Inr (c', outgoing)) \<Rightarrow>
               if dn_upload (cy_decision c') \<and> rt_window rt2 = None \<or> outgoing \<noteq> [] \<or> notice \<noteq> None
               then (case runtime_talk json rt2 c' notice outgoing ra now ids of
                   (rt3, calls, Some x) \<Rightarrow> (rt3, calls @ [Sleep], Inl x)
                 | (rt3, calls, None) \<Rightarrow> (rt3, calls @ [Sleep], Inr (cy_decision c')))
               else (rt2, [], Inr (cy_decision c'))))"

section \<open>The radio is put to sleep\<close>

definition talk :: "radio_call list \<Rightarrow> bool" where
  "talk calls \<longleftrightarrow> Wake \<notin> set calls \<and> Sleep \<notin> set calls"

lemma send_reports_talk: "send_reports rt ms inputs = (rt', calls, x) \<Longrightarrow> talk calls"
proof (induction rt ms inputs arbitrary: rt' calls x rule: send_reports.induct)
  case (3 rt m ms sent ear now io inputs)
  then show ?case
    by (auto simp: talk_def Let_def split: if_splits hearing.splits option.splits prod.splits sum.splits)
qed (auto simp: talk_def)

lemma legacy_upload_talk: "legacy_upload rt c now mid ok = (rt', calls, x) \<Longrightarrow> talk calls"
  by (auto simp: legacy_upload_def talk_def Let_def split: if_splits prod.splits sum.splits)

lemma runtime_talk_calls: "runtime_talk json rt c notice outgoing ra now ids = (rt', calls, x) \<Longrightarrow> \<exists>middle. calls = Wake # middle \<and> talk middle"
  by (auto simp: runtime_talk_def talk_def split: if_splits prod.splits option.splits
      dest!: send_reports_talk [unfolded talk_def] legacy_upload_talk [unfolded talk_def])

text \<open>
  a radio that was woken is put to sleep. Whatever fails in a call of \<open>sample_once\<close> (the wake-up, a
  send, a confirmation, the database, the adapter), the radio is either left asleep or it is woken
  once, first, and put to sleep once, last.
\<close>

theorem radio_sleeps_again:
  assumes "sample_once env json rt reading t ra now ids io = (rt', calls, x)"
  shows "calls = [] \<or> (\<exists>middle. calls = Wake # middle @ [Sleep] \<and> Wake \<notin> set middle \<and> Sleep \<notin> set middle)"
  using assms
  by (auto simp: sample_once_def talk_def split: prod.splits sum.splits if_splits option.splits dest!: runtime_talk_calls)

definition demo_runtime :: "py_error + runtime" where
  "demo_runtime = runtime_init demo_lora ''B1'' ''A1'' 0 ''0123456789ab'' ''legacy-write'' None False [(''temperature'', demo_channel)]
     demo_sense_settings DEFAULT_POLICY True"

theorem radio_sleeps_again_witness:
  "\<exists>rt rt' calls x. demo_runtime = Inr rt \<and>
     sample_once demo_lora (\<lambda>_. ''s'') rt [(''temperature'', PInt 20)] 0 \<lparr>ra_wake = True, ra_reports = [], ra_legacy = False, ra_alert = True\<rparr> 0 (''i'', ''k'') True =
       (rt', calls, x) \<and>
     (calls = [] \<or> (\<exists>middle. calls = Wake # middle @ [Sleep] \<and> Wake \<notin> set middle \<and> Sleep \<notin> set middle))"
proof -
  obtain rt where rt: "demo_runtime = Inr rt"
    by (auto simp: demo_runtime_def runtime_init_def sense_init_def scaled_settings_def demo_sense_settings_def notifier_init_def relevance_init_def
        set_policy_def THRESHOLDS_def DEFAULT_POLICY_def dhas_def dgetn_def number_def DELIVERY_MODES_def)
  obtain rt' calls x where "sample_once demo_lora (\<lambda>_. ''s'') rt [(''temperature'', PInt 20)] 0
      \<lparr>ra_wake = True, ra_reports = [], ra_legacy = False, ra_alert = True\<rparr> 0 (''i'', ''k'') True = (rt', calls, x)"
    by (metis prod_cases3)
  with radio_sleeps_again [OF this] rt show ?thesis by blast
qed

end
