(* ===== verification/FieldContract.thy ===== *)
theory FieldContract
  imports Prelude Interfaces Config Messages Ownership
begin

text \<open>
  \<^verbatim>\<open>common/field_contract.py\<close>: what a controller behind a radio link may execute. The receiver
  opens a window by a challenge of its own before a command arrives; a command names the window, the
  sessions of both ends, the epoch and a sequence number. Commands are the dictionaries that
  \<^verbatim>\<open>accept\<close> reads, local clocks may be any value.
\<close>

section \<open>Numbers in challenges\<close>

text \<open>The decimal text of \<^verbatim>\<open>f'{n}'\<close>.\<close>

fun decimal :: "nat \<Rightarrow> string" where
  "decimal n = (if n < 10 then [char_of (48 + n)] else decimal (n div 10) @ [char_of (48 + n mod 10)])"

declare decimal.simps [simp del]

lemma digit_inj:
  assumes "a < 10" "b < 10" "(char_of (48 + a) :: char) = char_of (48 + b)"
  shows "a = (b :: nat)"
proof -
  have "of_char (char_of (48 + a) :: char) = (of_char (char_of (48 + b) :: char) :: nat)"
    using assms(3) by simp
  with assms(1, 2) show ?thesis by simp
qed

lemma decimal_inj: "decimal m = decimal n \<Longrightarrow> m = n"
proof (induction m arbitrary: n rule: less_induct)
  case (less m)
  have empty: "decimal k \<noteq> []" for k
    by (subst decimal.simps) simp
  consider "m < 10" "n < 10" | "m < 10" "10 \<le> n" | "10 \<le> m" "n < 10" | "10 \<le> m" "10 \<le> n"
    by linarith
  then show ?case
  proof cases
    case 1
    then have "(char_of (48 + m) :: char) = char_of (48 + n)"
      using less.prems by (simp add: decimal.simps [of m] decimal.simps [of n])
    with 1 show ?thesis by (rule digit_inj)
  next
    case 4
    then have eq: "decimal (m div 10) = decimal (n div 10)" "(char_of (48 + m mod 10) :: char) = char_of (48 + n mod 10)"
      using less.prems by (simp_all add: decimal.simps [of m] decimal.simps [of n])
    have "m mod 10 = n mod 10"
      by (rule digit_inj [OF _ _ eq(2)]) simp_all
    moreover have "m div 10 = n div 10"
      using less.IH [OF _ eq(1)] 4 by simp
    ultimately show ?thesis by (metis div_mult_mod_eq)
  qed (use less.prems empty [of "m div 10"] empty [of "n div 10"] in \<open>auto simp: decimal.simps [of m] decimal.simps [of n]\<close>)
qed

section \<open>Uplinks\<close>

definition ZONE_OF_SENSOR :: "(string \<times> string) list" where
  [model_defs]: "ZONE_OF_SENSOR = [(''B1'', ''Zone1''), (''B2'', ''Zone2'')]"

record zone_uplink =
  up_source :: string
  up_zone :: string
  up_sequence :: pyval
  up_boot :: pyval
  up_payload :: pyval

definition uplink_valid :: "zone_uplink \<Rightarrow> bool" where
  "uplink_valid u \<longleftrightarrow> map_of ZONE_OF_SENSOR (up_source u) = Some (up_zone u) \<and> integer (up_sequence u) 1 \<and> nonempty_str (up_boot u) \<and>
     (case up_payload u of PDict _ \<Rightarrow> True | _ \<Rightarrow> False)"

definition uplink_may_process :: "zone_uplink \<Rightarrow> ownership \<Rightarrow> registry \<Rightarrow> bool" where
  "uplink_may_process u own reg \<longleftrightarrow> uplink_valid u \<and> may_control own reg (up_source u) \<and>
     may_control own reg (the (map_of CONTROLLER_OF_SENSOR (up_source u)))"

section \<open>The guard\<close>

record field_guard =
  fg_session :: string
  fg_max_ttl :: real
  fg_retry :: real
  fg_owner :: "string option"
  fg_gateway_session :: "string option"
  fg_generation :: int
  fg_sequence :: int
  fg_window_sequence :: nat
  fg_window :: "(string \<times> real) option"

definition field_guard_init :: "pyval \<Rightarrow> pyval \<Rightarrow> pyval \<Rightarrow> py_error + field_guard" where
  "field_guard_init session max_ttl retry =
     (if \<not> nonempty_str session then Inl (ValueErr ''receiver session required'')
      else if \<not> (number max_ttl \<and> 0 < num_of max_ttl) \<or> \<not> (number retry \<and> 0 < num_of retry) then Inl (ValueErr ''invalid freshness bounds'')
      else Inr \<lparr>fg_session = str_of session, fg_max_ttl = num_of max_ttl, fg_retry = num_of retry, fg_owner = None, fg_gateway_session = None,
             fg_generation = 0, fg_sequence = 0, fg_window_sequence = 0, fg_window = None\<rparr>)"

definition field_bind :: "field_guard \<Rightarrow> string \<Rightarrow> pyval \<Rightarrow> pyval \<Rightarrow> bool \<times> field_guard" where
  "field_bind g owner generation session =
     (if \<not> dhas GATEWAY_PORTS owner \<or> \<not> integer generation 1 \<or> int_of generation < fg_generation g \<or> \<not> nonempty_str session then (False, g)
      else if int_of generation = fg_generation g \<and> fg_owner g \<notin> {None, Some owner} then (False, g)
      else let g1 = (if (Some owner, int_of generation, Some (str_of session)) \<noteq> (fg_owner g, fg_generation g, fg_gateway_session g)
                     then g\<lparr>fg_sequence := 0, fg_window := None\<rparr> else g)
           in (True, g1\<lparr>fg_owner := Some owner, fg_generation := int_of generation, fg_gateway_session := Some (str_of session)\<rparr>))"

definition challenge_of :: "field_guard \<Rightarrow> nat \<Rightarrow> string" where
  "challenge_of g n = fg_session g @ '':'' @ decimal n"

definition field_open :: "field_guard \<Rightarrow> pyval \<Rightarrow> field_guard \<times> (py_error + string)" where
  "field_open g now =
     (if fg_owner g = None \<or> \<not> number now then (g, Inl (ValueErr ''confirmed binding and local receive window required''))
      else let n = fg_window_sequence g + 1
           in (g\<lparr>fg_window_sequence := n, fg_window := Some (challenge_of g n, num_of now)\<rparr>, Inr (challenge_of g n)))"

text \<open>The reason of a refusal, \<open>None\<close> when the command is accepted.\<close>

definition field_accept :: "field_guard \<Rightarrow> dict \<Rightarrow> pyval \<Rightarrow> field_guard \<times> string option" where
  "field_accept g command now =
     (let generation = dgetn command ''generation''; ttl = dgetn command ''ttl_s''; sq = dgetn command ''command_sequence''
      in if \<not> py_eq generation (PInt (fg_generation g)) \<or> \<not> integer generation 1 then (g, Some ''STALE_GENERATION'')
         else if dgetn command ''source'' \<noteq> opt_str (fg_owner g) then (g, Some ''NOT_OWNER'')
         else if dgetn command ''gateway_session'' \<noteq> opt_str (fg_gateway_session g) \<or> dgetn command ''receiver_session'' \<noteq> PStr (fg_session g)
         then (g, Some ''STALE_SESSION'')
         else (case fg_window g of
             None \<Rightarrow> (g, Some ''STALE_WINDOW'')
           | Some (challenge, opened) \<Rightarrow>
               if dgetn command ''receive_window'' \<noteq> PStr challenge then (g, Some ''STALE_WINDOW'')
               else if \<not> number ttl \<or> \<not> (0 < num_of ttl \<and> num_of ttl \<le> fg_max_ttl g) \<or> \<not> number now then (g, Some ''EXPIRED_LOCAL_TTL'')
               else if \<not> (0 \<le> num_of now - opened \<and> num_of now - opened \<le> min (num_of ttl) (fg_retry g)) then (g, Some ''EXPIRED_LOCAL_TTL'')
               else if \<not> nonempty_str (dgetn command ''command_id'') then (g, Some ''INVALID_COMMAND_ID'')
               else if \<not> integer sq 1 \<or> int_of sq \<le> fg_sequence g then (g, Some ''STALE_SEQUENCE'')
               else (g\<lparr>fg_sequence := int_of sq\<rparr>, None)))"

section \<open>No command twice\<close>

datatype field_event = Bound string pyval pyval | Opened pyval | Offered dict pyval

fun field_step :: "field_guard \<Rightarrow> field_event \<Rightarrow> bool \<times> field_guard" where
  "field_step g (Bound owner generation session) = (False, snd (field_bind g owner generation session))"
| "field_step g (Opened now) = (False, fst (field_open g now))"
| "field_step g (Offered command now) = (case field_accept g command now of (g', r) \<Rightarrow> (r = None, g'))"

definition field_ident :: "field_event \<Rightarrow> pyval \<times> pyval" where
  "field_ident e = (case e of Offered command now \<Rightarrow> (dgetn command ''receive_window'', dgetn command ''command_sequence'') | _ \<Rightarrow> (PNone, PNone))"

definition field_inv :: "field_guard \<Rightarrow> bool" where
  "field_inv g \<longleftrightarrow> (case fg_window g of None \<Rightarrow> True | Some (challenge, opened) \<Rightarrow> challenge = challenge_of g (fg_window_sequence g))"

text \<open>The windows and sequence numbers that the guard has left behind.\<close>

definition field_seen :: "field_guard \<Rightarrow> pyval \<times> pyval \<Rightarrow> bool" where
  "field_seen g i \<longleftrightarrow>
     (\<exists>n. fst i = PStr (challenge_of g n) \<and>
       (n < fg_window_sequence g \<or> n = fg_window_sequence g \<and> (fg_window g = None \<or> int_of (snd i) \<le> fg_sequence g)))"

lemma challenge_inj: "challenge_of g m = challenge_of g n \<Longrightarrow> m = n"
  by (simp add: challenge_of_def decimal_inj)

lemma challenge_cong: "fg_session g' = fg_session g \<Longrightarrow> challenge_of g' n = challenge_of g n"
  by (simp add: challenge_of_def)

text \<open>From an invariant state the guard is a receiver that admits an identity at most once.\<close>

definition field_recv :: "field_guard \<Rightarrow> field_event \<Rightarrow> bool \<times> field_guard" where
  "field_recv g e = (if field_inv g then field_step g e else (False, g))"

lemma field_acceptD:
  assumes "field_accept g command now = (g', None)"
  obtains challenge opened where "fg_window g = Some (challenge, opened)" "dgetn command ''receive_window'' = PStr challenge"
    "fg_sequence g < int_of (dgetn command ''command_sequence'')" "g' = g\<lparr>fg_sequence := int_of (dgetn command ''command_sequence'')\<rparr>"
  using assms by (auto simp: field_accept_def Let_def split: if_splits option.splits)

lemma field_accept_refused: "field_accept g command now = (g', Some r) \<Longrightarrow> g' = g"
  by (auto simp: field_accept_def Let_def split: if_splits option.splits)

lemma field_step_inv: "field_inv g \<Longrightarrow> field_inv (snd (field_step g e))"
proof (cases e)
  case (Offered command now)
  assume "field_inv g"
  moreover obtain g' r where a: "field_accept g command now = (g', r)" by (metis surj_pair)
  ultimately show ?thesis
    using Offered by (cases r) (auto simp: field_inv_def challenge_of_def dest: field_accept_refused elim: field_acceptD)
qed (auto simp: field_inv_def field_bind_def field_open_def challenge_of_def Let_def split: if_split_asm option.split)

interpretation field_once: admit_once field_seen field_ident field_recv
proof
  fix g e
  assume a: "fst (field_recv g e)"
  then obtain command now g' where e: "e = Offered command now" "field_inv g" "field_accept g command now = (g', None)"
    by (cases e) (auto simp: field_recv_def split: if_splits prod.splits)
  obtain challenge opened where c: "fg_window g = Some (challenge, opened)" "dgetn command ''receive_window'' = PStr challenge"
    "fg_sequence g < int_of (dgetn command ''command_sequence'')" "g' = g\<lparr>fg_sequence := int_of (dgetn command ''command_sequence'')\<rparr>"
    using field_acceptD [OF e(3)] by blast
  have ch: "challenge = challenge_of g (fg_window_sequence g)"
    using e(2) c(1) by (simp add: field_inv_def)
  show "\<not> field_seen g (field_ident e)"
    using c ch challenge_inj [of g] by (auto simp: field_seen_def field_ident_def e(1))
  show "field_seen (snd (field_recv g e)) (field_ident e)"
    using c ch e by (auto simp: field_seen_def field_ident_def field_recv_def challenge_of_def)
next
  fix g i e
  assume s: "field_seen g i"
  show "field_seen (snd (field_recv g e)) i"
  proof (cases "field_inv g")
    case True
    show ?thesis
    proof (cases e)
      case (Bound owner generation session)
      with s True show ?thesis
        by (auto simp: field_recv_def field_bind_def field_seen_def challenge_of_def Let_def)
    next
      case (Opened now)
      with s True show ?thesis
        by (auto simp: field_recv_def field_open_def field_seen_def challenge_of_def Let_def)
    next
      case (Offered command now)
      obtain g' r where a: "field_accept g command now = (g', r)" by (metis surj_pair)
      show ?thesis
      proof (cases r)
        case None
        with a obtain challenge opened where "fg_window g = Some (challenge, opened)" "fg_sequence g < int_of (dgetn command ''command_sequence'')"
            "g' = g\<lparr>fg_sequence := int_of (dgetn command ''command_sequence'')\<rparr>"
          by (auto elim: field_acceptD)
        with s True a Offered None show ?thesis
          by (auto simp: field_recv_def field_seen_def challenge_of_def)
      next
        case (Some x)
        with field_accept_refused a have "g' = g" by blast
        with s True a Offered show ?thesis by (simp add: field_recv_def)
      qed
    qed
  qed (use s in \<open>simp add: field_recv_def\<close>)
qed

lemma admitted_recv: "field_inv g \<Longrightarrow> admitted field_step g es = admitted field_recv g es"
  by (induction es arbitrary: g) (simp_all add: field_recv_def field_step_inv)

text \<open>
  C35: no radio command is executed twice. Over any sequence of bindings, windows and offered commands,
  with gateway sessions coming back in any order, the guard never accepts two commands with the
  same window and sequence number.
\<close>

theorem field_command_accepted_once:
  assumes "field_guard_init session max_ttl retry = Inr g"
  shows "distinct (map field_ident (admitted field_step g es))"
proof -
  have "field_inv g"
    using assms by (auto simp: field_guard_init_def field_inv_def split: if_splits)
  with field_once.distinct_admitted [of g es] show ?thesis
    by (simp add: admitted_recv)
qed

definition demo_radio_command :: dict where
  "demo_radio_command = [(''generation'', PInt 1), (''source'', PStr ''A1''), (''gateway_session'', PStr ''g''), (''receiver_session'', PStr ''r''),
     (''receive_window'', PStr ''r:1''), (''ttl_s'', PInt 5), (''command_id'', PStr ''c''), (''command_sequence'', PInt 1)]"

definition demo_radio_events :: "field_event list" where
  "demo_radio_events = [Bound ''A1'' (PInt 1) (PStr ''g''), Opened (PInt 0), Offered demo_radio_command (PInt 1), Offered demo_radio_command (PInt 2),
     Bound ''A1'' (PInt 1) (PStr ''h''), Opened (PInt 3), Bound ''A1'' (PInt 1) (PStr ''g''), Offered demo_radio_command (PInt 4)]"

theorem field_command_accepted_once_witness:
  "\<exists>g. field_guard_init (PStr ''r'') (PInt 10) (PInt 10) = Inr g \<and> distinct (map field_ident (admitted field_step g demo_radio_events)) \<and>
     admitted field_step g demo_radio_events = [Offered demo_radio_command (PInt 1)]"
proof -
  obtain g where g: "field_guard_init (PStr ''r'') (PInt 10) (PInt 10) = Inr g"
      "g = \<lparr>fg_session = ''r'', fg_max_ttl = 10, fg_retry = 10, fg_owner = None, fg_gateway_session = None,
             fg_generation = 0, fg_sequence = 0, fg_window_sequence = 0, fg_window = None\<rparr>"
    by (simp add: field_guard_init_def nonempty_str_def number_def num_of_def int_finite_def str_of_def)
  have one: "decimal (Suc 0) = ''1''"
    by code_simp
  have "admitted field_step g demo_radio_events = [Offered demo_radio_command (PInt 1)]"
    unfolding g(2) demo_radio_events_def
    by (simp add: field_bind_def field_open_def field_accept_def challenge_of_def one GATEWAY_PORTS_def integer_def int_of_def nonempty_str_def str_of_def
        demo_radio_command_def dgetn_def number_def num_of_def int_finite_def Let_def)
  with field_command_accepted_once [OF g(1), of demo_radio_events] g(1) show ?thesis by blast
qed

end
