(* ===== verification/Settings.thy ===== *)
theory Settings
  imports Sense "HOL-Library.Monad_Syntax"
begin

text \<open>
  The settings file: \<^verbatim>\<open>common/settings.py\<close> (validation, merging of profiles, the settings of a
  sensor node) and what the constructors of the sensor node read from it
  (\<^verbatim>\<open>sensor_node/adaptive_scheduler.py\<close>, \<^verbatim>\<open>sensor_node/scheduler_config.py\<close>,
  \<^verbatim>\<open>sensor_node/adaptive_sense.py\<close>). A settings value is what \<^verbatim>\<open>json.loads\<close> returns, a profile
  and the overrides of the physical board are the values of their files. A check is the exception it
  raises, if any; the texts of \<^verbatim>\<open>TypeError\<close> are not modelled.
\<close>

section \<open>Reading values\<close>

definition getk :: "pyval \<Rightarrow> string \<Rightarrow> py_error + pyval" where
  "getk v k =
     (case v of
        PDict d \<Rightarrow> (case map_of d k of None \<Rightarrow> Inl KeyErr | Some x \<Rightarrow> Inr x)
      | _ \<Rightarrow> Inl (TypeErr ''no item of that name''))"

primrec get_path :: "pyval \<Rightarrow> string list \<Rightarrow> py_error + pyval" where
  "get_path v [] = Inr v"
| "get_path v (k # ks) = (case getk v k of Inl e \<Rightarrow> Inl e | Inr x \<Rightarrow> get_path x ks)"

text \<open>Checks run in order; the first exception leaves the validator.\<close>

primrec checks :: "py_error option list \<Rightarrow> py_error option" where
  "checks [] = None"
| "checks (c # cs) = (case c of Some e \<Rightarrow> Some e | None \<Rightarrow> checks cs)"

definition raise_unless :: "string \<Rightarrow> bool \<Rightarrow> py_error option" where
  "raise_unless what b = (if b then None else Some (ValueErr what))"

definition on_path :: "pyval \<Rightarrow> string list \<Rightarrow> (pyval \<Rightarrow> py_error option) \<Rightarrow> py_error option" where
  "on_path v ks f = (case get_path v ks of Inl e \<Rightarrow> Some e | Inr x \<Rightarrow> f x)"

text \<open>\<^verbatim>\<open>for key, value in v.items()\<close> and \<^verbatim>\<open>for value in v.values()\<close>.\<close>

definition on_items :: "(string \<Rightarrow> pyval \<Rightarrow> py_error option) \<Rightarrow> pyval \<Rightarrow> py_error option" where
  "on_items f v = (case v of PDict d \<Rightarrow> checks (map (\<lambda>(k, x). f k x) (items d)) | _ \<Rightarrow> Some AttributeErr)"

definition on_values :: "(pyval \<Rightarrow> py_error option) \<Rightarrow> pyval \<Rightarrow> py_error option" where
  "on_values f = on_items (\<lambda>k. f)"

text \<open>
  A number that is no bool and finite, and satisfies \<open>P\<close>; \<^verbatim>\<open>math.isfinite\<close> raises for an int beyond
  the float range.
\<close>

definition number_check :: "string \<Rightarrow> (real \<Rightarrow> bool) \<Rightarrow> pyval \<Rightarrow> py_error option" where
  "number_check what P v =
     (case v of
        PInt i \<Rightarrow> if int_finite i then raise_unless what (P (of_int i)) else Some OverflowErr
      | _ \<Rightarrow> raise_unless what (number v \<and> P (num_of v)))"

definition positive :: "string \<Rightarrow> pyval \<Rightarrow> py_error option" where
  "positive name = number_check (name @ '' must be a finite positive number'') (\<lambda>r. 0 < r)"

definition int_check :: "string \<Rightarrow> (int \<Rightarrow> bool) \<Rightarrow> pyval \<Rightarrow> py_error option" where
  "int_check what P v = raise_unless what (case v of PInt i \<Rightarrow> P i | _ \<Rightarrow> False)"

text \<open>
  \<^verbatim>\<open><\<close> and \<^verbatim>\<open><=\<close> of two numbers, bools among them. Special floats never reach a comparison: the
  finiteness of the whole file is checked before.
\<close>

definition comparable :: "pyval \<Rightarrow> bool" where
  "comparable v = (case v of PInt _ \<Rightarrow> True | PFloat _ \<Rightarrow> True | PBool _ \<Rightarrow> True | _ \<Rightarrow> False)"

definition compare_check ::
  "string \<Rightarrow> (real \<Rightarrow> real \<Rightarrow> bool) \<Rightarrow> pyval \<Rightarrow> pyval \<Rightarrow> py_error option" where
  "compare_check what R a b =
     (if comparable a \<and> comparable b then raise_unless what (R (num_of a) (num_of b)) else Some (TypeErr ''comparison''))"

section \<open>The validator\<close>

definition header_error :: "pyval \<Rightarrow> py_error option" where
  "header_error cfg =
     (case cfg of
        PDict d \<Rightarrow>
          checks (raise_unless ''unsupported configuration schema'' (py_eq (dgetn d ''schema_version'') (PInt 1)) #
            map (\<lambda>s. raise_unless (''missing configuration section '' @ s) (is_dict (dgetn d s))) [''system'', ''node'', ''policy'', ''experiment''] @
            [raise_unless ''configuration contains nonfinite value'' (json_ok cfg)])
      | _ \<Rightarrow> Some AttributeErr)"

definition SYSTEM_TIMES :: "string list" where
  [model_defs]: "SYSTEM_TIMES = [''HEARTBEAT_INTERVAL'', ''HEARTBEAT_TIMEOUT'', ''NODE_TIMEOUT'', ''NODE_STATUS_INTERVAL'', ''ACK_TIMEOUT'',
     ''COMMAND_TTL'', ''SERVER_RECEIPT_TIMEOUT'']"

definition port_check :: "pyval \<Rightarrow> py_error option" where
  "port_check = int_check ''invalid network port'' (\<lambda>i. 1 \<le> i \<and> i \<le> 65535)"

definition system_error :: "pyval \<Rightarrow> py_error option" where
  "system_error sys =
     checks (map (\<lambda>k. on_path sys [k] (positive k)) SYSTEM_TIMES @
       [on_path sys [''NODE_STATUS_INTERVAL''] (\<lambda>a. on_path sys [''NODE_TIMEOUT''] (compare_check ''node keepalive must be shorter than timeout'' (<) a)),
        on_path sys [''SERVER_PORT''] (\<lambda>p. on_path sys [''GATEWAY_PORTS''] (\<lambda>g. on_items (\<lambda>_ _. None) g)),
        on_path sys [''SERVER_PORT''] port_check,
        on_path sys [''GATEWAY_PORTS''] (on_values port_check),
        on_path sys [''GATEWAY_PORTS''] (\<lambda>g. raise_unless ''complete gateway topology required'' (set (map fst (dict_of g)) = {''A1'', ''A2''}))])"

definition trust_channel_error :: "string \<Rightarrow> pyval \<Rightarrow> py_error option" where
  "trust_channel_error name c =
     (let bounds = ''invalid trust bounds '' @ name; zero = PInt 0
      in checks
       [on_items (\<lambda>key. number_check (''invalid trust '' @ name @ ''.'' @ key) (\<lambda>_. True)) c,
        on_path c [''min_value''] (\<lambda>a. on_path c [''max_value''] (compare_check bounds (<) a)),
        on_path c [''stuck_epsilon''] (compare_check bounds (\<le>) zero),
        on_path c [''spike_threshold''] (compare_check bounds (\<le>) zero),
        on_path c [''drift_threshold''] (compare_check bounds (<) zero),
        on_path c [''stuck_window''] (int_check ''invalid stuck_window'' (\<lambda>i. 2 \<le> i \<and> i \<le> 64)),
        on_path c [''drift_window''] (int_check ''invalid drift_window'' (\<lambda>i. 2 \<le> i \<and> i \<le> 64)),
        on_path c [''missing_limit''] (int_check ''invalid missing_limit'' (\<lambda>i. 1 \<le> i))])"

definition sampling_error :: "pyval \<Rightarrow> py_error option" where
  "sampling_error node =
     checks
       [on_path node [''sampling'', ''min_interval''] (\<lambda>_. None),
        on_path node [''sampling'', ''default_interval''] (\<lambda>_. None),
        on_path node [''sampling'', ''max_interval''] (\<lambda>_. None),
        on_path node [''sampling'', ''min_interval''] (positive ''min_interval''),
        on_path node [''sampling'', ''min_interval''] (\<lambda>lo. on_path node [''sampling'', ''default_interval''] (compare_check ''sampling bounds'' (\<le>) lo)),
        on_path node [''sampling'', ''default_interval''] (\<lambda>d. on_path node [''sampling'', ''max_interval''] (compare_check ''sampling bounds'' (\<le>) d))]"

definition thresholds_error :: "pyval \<Rightarrow> py_error option" where
  "thresholds_error a =
     checks
       [on_path a [''stable_threshold''] (compare_check ''adaptive thresholds'' (<) (PInt 0)),
        on_path a [''stable_threshold''] (\<lambda>s. on_path a [''active_threshold''] (compare_check ''adaptive thresholds'' (<) s)),
        on_path a [''hysteresis_fraction''] (compare_check ''adaptive thresholds'' (\<le>) (PInt 0)),
        on_path a [''hysteresis_fraction''] (\<lambda>h. compare_check ''adaptive thresholds'' (<) h (PInt 1))]"

text \<open>
  One ladder. An empty value is refused, a string or an object iterates over strings, which are refused,
  and what cannot be iterated raises.
\<close>

definition rung_values :: "pyval \<Rightarrow> real list" where
  "rung_values v = (case v of PList xs \<Rightarrow> map num_of xs | _ \<Rightarrow> [])"

definition ladder_error :: "real \<Rightarrow> real \<Rightarrow> string \<Rightarrow> pyval \<Rightarrow> py_error option" where
  "ladder_error lo hi name v =
     (let what = ''invalid '' @ name @ '' ladder'' in
      if \<not> truthy v then Some (ValueErr what)
      else (case v of
          PList xs \<Rightarrow>
            checks (map (number_check what (\<lambda>r. lo \<le> r \<and> r \<le> hi)) xs @
              [raise_unless ''ladder direction''
                ((name = ''stable'' \<longrightarrow> sorted (rung_values v)) \<and> (name = ''active'' \<longrightarrow> sorted (rev (rung_values v))))])
        | PStr s \<Rightarrow> Some (ValueErr what)
        | PDict d \<Rightarrow> Some (ValueErr what)
        | _ \<Rightarrow> Some (TypeErr ''not iterable'')))"

definition ladders_error :: "pyval \<Rightarrow> py_error option" where
  "ladders_error node =
     on_path node [''sampling'', ''min_interval''] (\<lambda>lo. on_path node [''sampling'', ''max_interval''] (\<lambda>hi.
       on_path node [''adaptive'', ''ladders''] (\<lambda>l. checks
         [on_items (ladder_error (num_of lo) (num_of hi)) l,
          on_path l [''active''] (\<lambda>a. on_path l [''stable''] (\<lambda>s. raise_unless ''ladder escalation'' (hd (rung_values a) < last (rung_values s)))),
          on_path l [''alert''] (\<lambda>x. on_path l [''active''] (\<lambda>a.
            raise_unless ''ladder escalation'' (Min (set (rung_values x)) \<le> Min (set (rung_values a)))))])))"

definition analyzer_error :: "pyval \<Rightarrow> py_error option" where
  "analyzer_error a =
     checks
       [on_path a [''channels''] (on_values (\<lambda>c. on_path c [''noise_floor''] (positive ''noise_floor''))),
        on_path a [''analyzer''] (on_items positive),
        on_path a [''analyzer'', ''roc_window_s''] (\<lambda>r. on_path a [''analyzer'', ''variety_window_s''] (compare_check ''ROC exceeds history window'' (\<le>) r)),
        on_path a [''ladder_confirmations''] (on_values (int_check ''invalid ladder confirmations'' (\<lambda>i. 1 \<le> i)))]"

definition node_error :: "pyval \<Rightarrow> py_error option" where
  "node_error node =
     checks
       [on_path node [''trust_channels''] (on_items trust_channel_error),
        on_path node [''adaptive''] (\<lambda>_. None),
        sampling_error node,
        on_path node [''adaptive''] thresholds_error,
        ladders_error node,
        on_path node [''adaptive''] analyzer_error,
        on_path node [''fault_interval_s''] (positive ''fault_interval_s''),
        on_path node [''degraded_interval_s''] (positive ''degraded_interval_s''),
        on_path node [''fault_reminder_s''] (positive ''fault_reminder_s'')]"

definition queue_error :: "pyval \<Rightarrow> py_error option" where
  "queue_error q =
     (let at_least_one = int_check ''invalid outbox bound'' (\<lambda>i. 1 \<le> i);
          reserve = (\<lambda>r t. on_path q [r] (\<lambda>v. case v of
              PInt i \<Rightarrow> if i < 0 then Some (ValueErr ''invalid critical reserve'')
                        else on_path q [t] (\<lambda>m. compare_check ''invalid critical reserve'' (<) v m)
            | _ \<Rightarrow> Some (ValueErr ''invalid critical reserve'')))
      in checks
       [on_path q [''max_messages''] at_least_one, on_path q [''max_payload_bytes''] at_least_one,
        reserve ''reserved_messages'' ''max_messages'', reserve ''reserved_payload_bytes'' ''max_payload_bytes''])"

text \<open>\<^verbatim>\<open>set(margins)\<close> also takes a list, which then has no \<^verbatim>\<open>values\<close>.\<close>

definition margins_error :: "pyval \<Rightarrow> py_error option" where
  "margins_error m =
     (let what = ''control threshold margins require soil and temperature''; fields = [''soil_moisture'', ''temperature'']
      in case m of
          PDict d \<Rightarrow> checks [raise_unless what (set (map fst d) = set fields),
            on_values (number_check ''invalid control threshold margin'' (\<lambda>r. 0 \<le> r)) m]
        | PList xs \<Rightarrow> if \<exists>x \<in> set xs. \<not> hashable x then Some (TypeErr ''unhashable type'')
                      else if set xs = set (map PStr fields) then Some AttributeErr else Some (ValueErr what)
        | PStr s \<Rightarrow> Some (ValueErr what)
        | _ \<Rightarrow> Some (TypeErr ''not iterable''))"

definition upload_error :: "pyval \<Rightarrow> py_error option" where
  "upload_error u =
     checks (map (\<lambda>k. on_path u [k] (\<lambda>v. raise_unless ''invalid upload switch'' (case v of PBool _ \<Rightarrow> True | _ \<Rightarrow> False)))
         [''upload_first_sample'', ''on_event'', ''on_state_change'', ''on_interval_change''] @
       map (\<lambda>k. on_path u [k] (number_check ''invalid upload threshold'' (\<lambda>r. 0 \<le> r))) [''heartbeat_s'', ''delta_threshold''])"

definition validate_settings :: "pyval \<Rightarrow> py_error + pyval" where
  "validate_settings cfg =
     (case checks
         [header_error cfg,
          on_path cfg [''system''] system_error,
          on_path cfg [''node''] node_error,
          on_path cfg [''policy''] (on_items (\<lambda>k. positive k)),
          on_path cfg [''offline_queue''] queue_error,
          on_path cfg [''controller'', ''recent_command_capacity'']
            (int_check ''invalid recent command window'' (\<lambda>i. 1 \<le> i \<and> i \<le> 1024)),
          on_path cfg [''node'', ''control_relevance'', ''margins''] margins_error,
          on_path cfg [''node'', ''adaptive'', ''upload''] upload_error] of
        None \<Rightarrow> Inr cfg | Some e \<Rightarrow> Inl e)"

section \<open>Profiles\<close>

text \<open>\<^verbatim>\<open>merge_settings\<close>: an object given by both sides is merged, everything else is
  replaced; \<^verbatim>\<open>deepcopy\<close> is the identity on values.\<close>

function merge_settings :: "dict \<Rightarrow> dict \<Rightarrow> dict" where
  "merge_settings base [] = base"
| "merge_settings base ((k, v) # rest) =
     merge_settings (dset base k
       (case v of PDict o1 \<Rightarrow> (case map_of base k of Some (PDict b1) \<Rightarrow> PDict (merge_settings b1 o1) | _ \<Rightarrow> v) | _ \<Rightarrow> v)) rest"
  by pat_completeness auto
termination
  by (relation "measure (\<lambda>(b, d). size (PDict d))") auto

definition RUNTIME_PROFILES :: "string list" where
  [model_defs]: "RUNTIME_PROFILES = [''simulation'', ''lab'', ''deployment'']"

text \<open>The reconnect delays; an empty value is refused, a string or an object iterates over strings.\<close>

definition backoff_error :: "pyval \<Rightarrow> py_error option" where
  "backoff_error v =
     (if \<not> truthy v then Some (ValueErr ''empty reconnect backoff'')
      else (case v of
          PList xs \<Rightarrow> checks (map (positive ''reconnect backoff'') xs)
        | PStr s \<Rightarrow> positive ''reconnect backoff'' v
        | PDict d \<Rightarrow> positive ''reconnect backoff'' v
        | _ \<Rightarrow> Some (TypeErr ''not iterable'')))"

definition connectivity_error :: "pyval \<Rightarrow> py_error option" where
  "connectivity_error cloud =
     checks
       [on_path cloud [''backoff_s''] backoff_error,
        on_path cloud [''connect_timeout_s''] (positive ''connect timeout''),
        on_path cloud [''critical_retry_cooldown_s''] (positive ''critical retry cooldown''),
        on_path cloud [''replay_interval_s''] (number_check ''replay interval must be a finite nonnegative number'' (\<lambda>r. 0 \<le> r))]"

definition profile_settings :: "dict \<Rightarrow> string \<Rightarrow> pyval \<Rightarrow> py_error + dict" where
  "profile_settings shared profile file =
     (if profile \<notin> set RUNTIME_PROFILES then Inl (ValueErr ''unknown runtime profile'')
      else (case getk file ''node'' of
          Inl e \<Rightarrow> Inl e
        | Inr n \<Rightarrow>
            let candidate = merge_settings shared [(''node'', n)]
            in (case validate_settings (PDict candidate) of
                Inl e \<Rightarrow> Inl e
              | Inr _ \<Rightarrow>
                  (case on_path file [''connectivity''] connectivity_error of
                     Some e \<Rightarrow> Inl e
                   | None \<Rightarrow> Inr (dset (dict_of file) ''node'' (dgetn candidate ''node''))))))"

text \<open>The overrides of the physical board are merged after validation and not validated themselves.\<close>

definition physical_settings :: "pyval \<Rightarrow> pyval \<Rightarrow> py_error + pyval" where
  "physical_settings node overrides =
     (case (node, overrides) of
        (PDict n, PDict ov) \<Rightarrow>
          let m = merge_settings n ov
          in (case getk (PDict m) ''trust_channels'' of
              Inl e \<Rightarrow> Inl e
            | Inr t \<Rightarrow>
                (case (getk t ''temperature'', getk t ''humidity'') of
                   (Inl e, _) \<Rightarrow> Inl e
                 | (_, Inl e) \<Rightarrow> Inl e
                 | (Inr a, Inr b) \<Rightarrow> Inr (PDict (dset m ''trust_channels'' (PDict [(''temperature'', a), (''humidity'', b)])))))
      | _ \<Rightarrow> Inl AttributeErr)"

definition node_settings :: "dict \<Rightarrow> (string \<times> pyval) option \<Rightarrow> pyval option \<Rightarrow> py_error + pyval" where
  "node_settings shared profile overrides =
     (case (case profile of
              None \<Rightarrow> getk (PDict shared) ''node''
            | Some (name, file) \<Rightarrow> (case profile_settings shared name file of Inl e \<Rightarrow> Inl e | Inr p \<Rightarrow> getk (PDict p) ''node'')) of
        Inl e \<Rightarrow> Inl e
      | Inr n \<Rightarrow> (case overrides of None \<Rightarrow> Inr n | Some ov \<Rightarrow> physical_settings n ov))"

section \<open>What the constructors read\<close>

text \<open>
  \<^verbatim>\<open>float(v)\<close> of a number or a bool. The readers below give the record the constructors of the sensor
  build; \<open>None\<close> stands for a constructor that raises and for a field that is no number, which the
  models of the sensor have no value for.
\<close>

definition float_of :: "pyval \<Rightarrow> real option" where
  "float_of v = (case v of PBool b \<Rightarrow> Some (num_of v) | _ \<Rightarrow> if number v then Some (num_of v) else None)"

definition value_at :: "pyval \<Rightarrow> string list \<Rightarrow> pyval option" where
  "value_at v ks = (case get_path v ks of Inl e \<Rightarrow> None | Inr x \<Rightarrow> Some x)"

definition real_at :: "pyval \<Rightarrow> string list \<Rightarrow> real option" where
  "real_at v ks = Option.bind (value_at v ks) float_of"

definition int_at :: "pyval \<Rightarrow> string list \<Rightarrow> nat option" where
  "int_at v ks = Option.bind (value_at v ks) (\<lambda>x. case x of PInt i \<Rightarrow> if 0 \<le> i then Some (nat i) else None | _ \<Rightarrow> None)"

definition list_at :: "pyval \<Rightarrow> string list \<Rightarrow> real list option" where
  "list_at v ks = Option.bind (value_at v ks) (\<lambda>x. case x of PList xs \<Rightarrow> those (map float_of xs) | _ \<Rightarrow> None)"

definition dict_at :: "pyval \<Rightarrow> string list \<Rightarrow> dict option" where
  "dict_at v ks = Option.bind (value_at v ks) (\<lambda>x. case x of PDict d \<Rightarrow> Some d | _ \<Rightarrow> None)"

text \<open>\<^verbatim>\<open>ChannelConfig(name=k, **c)\<close>: exactly the two other fields.\<close>

definition analyzer_channel :: "string \<times> pyval \<Rightarrow> ana_channel option" where
  "analyzer_channel = (\<lambda>(k, c).
     case c of
       PDict d \<Rightarrow>
         if set (map fst d) = {''noise_floor'', ''use''}
         then map_option (\<lambda>r. \<lparr>ac_name = k, ac_noise = r, ac_use = truthy (dgetn d ''use'')\<rparr>) (float_of (dgetn d ''noise_floor''))
         else None
     | _ \<Rightarrow> None)"

fun state_key :: "sched_state \<Rightarrow> string" where
  "state_key StableState = ''stable''"
| "state_key ActiveState = ''active''"
| "state_key AlertState = ''alert''"

definition confirmations :: "pyval \<Rightarrow> sched_state \<Rightarrow> nat option" where
  "confirmations node st =
     Option.bind (dict_at node [''adaptive'', ''ladder_confirmations'']) (\<lambda>d.
       if dhas d (state_key st) then int_at (PDict d) [state_key st] else Some 1)"

definition sched_of :: "pyval \<Rightarrow> sched_cfg option" where
  "sched_of node = do {
     lo \<leftarrow> real_at node [''sampling'', ''min_interval''];
     d \<leftarrow> real_at node [''sampling'', ''default_interval''];
     hi \<leftarrow> real_at node [''sampling'', ''max_interval''];
     s \<leftarrow> real_at node [''adaptive'', ''stable_threshold''];
     a \<leftarrow> real_at node [''adaptive'', ''active_threshold''];
     h \<leftarrow> real_at node [''adaptive'', ''hysteresis_fraction''];
     l1 \<leftarrow> list_at node [''adaptive'', ''ladders'', ''stable''];
     l2 \<leftarrow> list_at node [''adaptive'', ''ladders'', ''active''];
     l3 \<leftarrow> list_at node [''adaptive'', ''ladders'', ''alert''];
     c1 \<leftarrow> confirmations node StableState;
     c2 \<leftarrow> confirmations node ActiveState;
     c3 \<leftarrow> confirmations node AlertState;
     up \<leftarrow> dict_at node [''adaptive'', ''upload''];
     on_event \<leftarrow> map_of up ''on_event'';
     on_state \<leftarrow> map_of up ''on_state_change'';
     on_interval \<leftarrow> map_of up ''on_interval_change'';
     heartbeat \<leftarrow> real_at (PDict up) [''heartbeat_s''];
     delta \<leftarrow> real_at (PDict up) [''delta_threshold''];
     cs \<leftarrow> dict_at node [''adaptive'', ''channels''];
     channels \<leftarrow> those (map analyzer_channel (items cs));
     an \<leftarrow> dict_at node [''adaptive'', ''analyzer''];
     variety \<leftarrow> real_at (PDict an) [''variety_window_s''];
     roc \<leftarrow> real_at (PDict an) [''roc_window_s''];
     tau \<leftarrow> real_at (PDict an) [''baseline_tau_s''];
     event \<leftarrow> real_at node [''adaptive'', ''event_threshold''];
     event_time \<leftarrow> real_at node [''adaptive'', ''event_min_duration_s''];
     if set (map fst an) \<noteq> {''variety_window_s'', ''roc_window_s'', ''baseline_tau_s''} then None
     else Some \<lparr>sc_min = lo, sc_default = d, sc_max = hi, sc_stable = s, sc_active = a, sc_hysteresis = h,
       sc_ladder = (\<lambda>st. case st of StableState \<Rightarrow> l1 | ActiveState \<Rightarrow> l2 | AlertState \<Rightarrow> l3),
       sc_confirm = (\<lambda>st. case st of StableState \<Rightarrow> c1 | ActiveState \<Rightarrow> c2 | AlertState \<Rightarrow> c3),
       sc_first = truthy (dgetd up ''upload_first_sample'' (PBool True)), sc_on_event = truthy on_event, sc_on_state = truthy on_state,
       sc_on_interval = truthy on_interval, sc_heartbeat = heartbeat, sc_delta = delta, sc_channels = channels, sc_variety = variety,
       sc_roc = roc, sc_tau = tau, sc_event_threshold = event, sc_event_duration = event_time\<rparr> }"

definition trust_cfg_of :: "pyval \<Rightarrow> channel_cfg option" where
  "trust_cfg_of c = do {
     lo \<leftarrow> real_at c [''min_value'']; hi \<leftarrow> real_at c [''max_value'']; eps \<leftarrow> real_at c [''stuck_epsilon''];
     sw \<leftarrow> int_at c [''stuck_window'']; spike \<leftarrow> real_at c [''spike_threshold'']; dw \<leftarrow> int_at c [''drift_window''];
     drift \<leftarrow> real_at c [''drift_threshold'']; missing \<leftarrow> int_at c [''missing_limit''];
     Some \<lparr>cc_min = lo, cc_max = hi, cc_stuck_epsilon = eps, cc_stuck_window = sw, cc_spike = spike, cc_drift_window = dw,
       cc_drift = drift, cc_missing = missing\<rparr> }"

definition trust_channels_of :: "pyval \<Rightarrow> (string \<times> channel_cfg) list option" where
  "trust_channels_of node =
     Option.bind (dict_at node [''trust_channels'']) (\<lambda>d. those (map (\<lambda>(k, c). map_option (Pair k) (trust_cfg_of c)) (items d)))"

definition sense_settings_of :: "pyval \<Rightarrow> sense_settings option" where
  "sense_settings_of node = do {
     c \<leftarrow> sched_of node;
     fault \<leftarrow> real_at node [''fault_interval_s''];
     degraded \<leftarrow> real_at node [''degraded_interval_s''];
     reminder \<leftarrow> real_at node [''fault_reminder_s''];
     margins \<leftarrow> dict_at node [''control_relevance'', ''margins''];
     Some \<lparr>se_sched = c, se_fault_interval = fault, se_degraded_interval = degraded, se_reminder = reminder, se_margins = items margins\<rparr> }"

section \<open>What an accepted file promises\<close>

lemma checks_None [simp]: "checks cs = None \<longleftrightarrow> (\<forall>c \<in> set cs. c = None)"
  by (induction cs) (auto split: option.splits)

declare checks.simps [simp del]

lemma raise_unless_None [simp]: "raise_unless what b = None \<longleftrightarrow> b"
  by (simp add: raise_unless_def)

lemma on_path_None: "on_path v ks f = None \<longleftrightarrow> (\<exists>x. value_at v ks = Some x \<and> f x = None)"
  by (auto simp: on_path_def value_at_def split: sum.splits)

lemma on_items_None: "on_items f v = None \<longleftrightarrow> (\<exists>d. v = PDict d \<and> (\<forall>k x. map_of d k = Some x \<longrightarrow> f k x = None))"
  by (cases v) (fastforce simp: on_items_def mem_items [symmetric])+

lemma number_check_None: "number_check what P v = None \<longleftrightarrow> number v \<and> P (num_of v)"
  by (auto simp: number_check_def number_def num_of_def split: pyval.splits)

lemma int_check_None: "int_check what P v = None \<longleftrightarrow> (\<exists>i. v = PInt i \<and> P i)"
  by (auto simp: int_check_def split: pyval.splits)

lemma compare_check_None: "compare_check what R a b = None \<longleftrightarrow> comparable a \<and> comparable b \<and> R (num_of a) (num_of b)"
  by (auto simp: compare_check_def)

lemmas check_rules = on_path_None on_items_None number_check_None int_check_None compare_check_None

lemma value_at_Nil [simp]: "value_at v [] = Some v"
  by (simp add: value_at_def)

lemma value_at_Cons: "value_at v (k # ks) = Option.bind (value_at v [k]) (\<lambda>x. value_at x ks)"
  by (auto simp: value_at_def split: sum.splits)

lemma value_at_one [simp]: "value_at (PDict d) [k] = map_of d k"
  by (simp add: value_at_def getk_def split: option.split)

lemma float_of_number: "number v \<Longrightarrow> float_of v = Some (num_of v)"
  by (cases v) (simp_all add: float_of_def number_def)

lemma float_of_Some: "float_of v = Some r \<Longrightarrow> r = num_of v"
  by (auto simp: float_of_def split: pyval.splits if_splits)

lemma those_Some: "those xs = Some ys \<longleftrightarrow> xs = map Some ys"
  by (induction xs arbitrary: ys) (auto split: option.splits)

lemma those_floats: "those (map float_of xs) = Some rs \<Longrightarrow> rs = map num_of xs"
  by (induction xs arbitrary: rs) (auto split: option.splits dest: float_of_Some)

lemma sched_of_fields:
  assumes "sched_of node = Some c"
  shows "real_at node [''sampling'', ''min_interval''] = Some (sc_min c)"
    "real_at node [''sampling'', ''default_interval''] = Some (sc_default c)"
    "real_at node [''sampling'', ''max_interval''] = Some (sc_max c)"
    "real_at node [''adaptive'', ''stable_threshold''] = Some (sc_stable c)"
    "real_at node [''adaptive'', ''active_threshold''] = Some (sc_active c)"
    "real_at node [''adaptive'', ''hysteresis_fraction''] = Some (sc_hysteresis c)"
    "list_at node [''adaptive'', ''ladders'', state_key st] = Some (sc_ladder c st)"
    "confirmations node st = Some (sc_confirm c st)"
proof -
  note [simp] = bind_eq_Some_conv
  note d = assms [unfolded sched_of_def]
  show "real_at node [''sampling'', ''min_interval''] = Some (sc_min c)"
    "real_at node [''sampling'', ''default_interval''] = Some (sc_default c)"
    "real_at node [''sampling'', ''max_interval''] = Some (sc_max c)"
    "real_at node [''adaptive'', ''stable_threshold''] = Some (sc_stable c)"
    "real_at node [''adaptive'', ''active_threshold''] = Some (sc_active c)"
    "real_at node [''adaptive'', ''hysteresis_fraction''] = Some (sc_hysteresis c)"
    using d by (clarsimp split: if_splits)+
  show "list_at node [''adaptive'', ''ladders'', state_key st] = Some (sc_ladder c st)" "confirmations node st = Some (sc_confirm c st)"
    using d by (cases st; clarsimp split: if_splits)+
qed

lemma real_at_Some: "real_at v ks = Some r \<Longrightarrow> \<exists>x. value_at v ks = Some x \<and> r = num_of x"
  by (auto simp: real_at_def bind_eq_Some_conv dest: float_of_Some)

lemma accepted_parts:
  assumes "validate_settings cfg = Inr out"
  obtains d node where "out = cfg" "cfg = PDict d" "map_of d ''node'' = Some node" "node_error node = None"
    "on_path node [''adaptive'', ''upload''] upload_error = None" "on_path node [''control_relevance'', ''margins''] margins_error = None"
    "on_path cfg [''offline_queue''] queue_error = None"
proof -
  have "out = cfg" "header_error cfg = None" "on_path cfg [''node''] node_error = None"
    "on_path cfg [''node'', ''adaptive'', ''upload''] upload_error = None"
    "on_path cfg [''node'', ''control_relevance'', ''margins''] margins_error = None"
    "on_path cfg [''offline_queue''] queue_error = None"
    using assms by (auto simp: validate_settings_def split: option.splits)
  moreover from this obtain d where "cfg = PDict d" by (auto simp: header_error_def split: pyval.splits)
  ultimately show thesis
    by (force intro: that [of d] simp: on_path_None value_at_Cons [of "PDict d" _ "_ # _"])
qed

lemma node_bounds:
  assumes "node_error node = None" "sched_of node = Some c"
  shows "0 < sc_min c" "sc_min c \<le> sc_default c" "sc_default c \<le> sc_max c" "0 < sc_stable c" "sc_stable c < sc_active c"
    "0 \<le> sc_hysteresis c" "sc_hysteresis c < 1"
proof -
  have s: "sampling_error node = None" "on_path node [''adaptive''] thresholds_error = None"
    using assms(1) by (simp_all add: node_error_def)
  note f = sched_of_fields(1-6) [OF assms(2), THEN real_at_Some]
  show "0 < sc_min c" "sc_min c \<le> sc_default c" "sc_default c \<le> sc_max c"
    using s(1) f(1-3) by (auto simp: sampling_error_def check_rules positive_def)
  show "0 < sc_stable c" "sc_stable c < sc_active c" "0 \<le> sc_hysteresis c" "sc_hysteresis c < 1"
    using s(2) f(4-6) by (auto simp: thresholds_error_def check_rules value_at_Cons [of node _ "_ # _"] num_of_def)
qed

lemma list_at_Some: "list_at v ks = Some rs \<longleftrightarrow> (\<exists>xs. value_at v ks = Some (PList xs) \<and> those (map float_of xs) = Some rs)"
proof -
  have "(case x of PList xs \<Rightarrow> those (map float_of xs) | _ \<Rightarrow> None) = Some rs \<longleftrightarrow> (\<exists>xs. x = PList xs \<and> those (map float_of xs) = Some rs)" for x
    by (cases x) auto
  then show ?thesis by (auto simp: list_at_def bind_eq_Some_conv)
qed

lemma dict_at_Some: "dict_at v ks = Some d \<longleftrightarrow> value_at v ks = Some (PDict d)"
proof -
  have "(case x of PDict d \<Rightarrow> Some d | _ \<Rightarrow> None) = Some d \<longleftrightarrow> x = PDict d" for x
    by (cases x) auto
  then show ?thesis by (simp add: dict_at_def bind_eq_Some_conv)
qed

lemma int_at_Some: "int_at v ks = Some n \<longleftrightarrow> value_at v ks = Some (PInt (int n))"
proof -
  have "(case x of PInt i \<Rightarrow> if 0 \<le> i then Some (nat i) else None | _ \<Rightarrow> None) = Some n \<longleftrightarrow> x = PInt (int n)" for x
    by (cases x) auto
  then show ?thesis by (simp add: int_at_def bind_eq_Some_conv)
qed

lemmas reads = list_at_Some dict_at_Some int_at_Some

lemma get_path_append: "get_path v (ks @ ls) = (case get_path v ks of Inl e \<Rightarrow> Inl e | Inr x \<Rightarrow> get_path x ls)"
  by (induction ks arbitrary: v) (auto split: sum.split)

lemma value_at_append: "value_at v (ks @ ls) = Option.bind (value_at v ks) (\<lambda>x. value_at x ls)"
  by (simp add: value_at_def get_path_append split: sum.split)

lemma value_at_last: "value_at v (ks @ [k]) = Some x \<Longrightarrow> \<exists>d. value_at v ks = Some (PDict d) \<and> map_of d k = Some x"
  by (clarsimp simp: value_at_append bind_eq_Some_conv) (auto simp: value_at_def getk_def split: sum.splits pyval.splits option.splits)

lemma accepted_ladder:
  assumes "ladders_error node = None" "value_at node ([''adaptive'', ''ladders''] @ [name]) = Some (PList xs)"
    "real_at node [''sampling'', ''min_interval''] = Some lo" "real_at node [''sampling'', ''max_interval''] = Some hi"
  shows "xs \<noteq> []" "\<forall>v \<in> set xs. number v \<and> lo \<le> num_of v \<and> num_of v \<le> hi"
proof -
  obtain d where d: "value_at node [''adaptive'', ''ladders''] = Some (PDict d)" "map_of d name = Some (PList xs)"
    using value_at_last [OF assms(2)] by blast
  have "ladder_error lo hi name (PList xs) = None"
    using assms(1) d(1) real_at_Some [OF assms(3)] real_at_Some [OF assms(4)] d(2)
    by (auto simp: ladders_error_def check_rules)
  then show "xs \<noteq> []" "\<forall>v \<in> set xs. number v \<and> lo \<le> num_of v \<and> num_of v \<le> hi"
    by (auto simp: ladder_error_def Let_def number_check_None split: if_splits)
qed

lemma node_ladders:
  assumes "node_error node = None" "sched_of node = Some c"
  shows "ladder_ok c"
proof -
  have l: "ladders_error node = None" "on_path node [''adaptive''] analyzer_error = None"
    using assms(1) by (simp_all add: node_error_def)
  have "sc_ladder c st \<noteq> [] \<and> (\<forall>r \<in> set (sc_ladder c st). sc_min c \<le> r \<and> r \<le> sc_max c) \<and> 1 \<le> sc_confirm c st" for st
  proof -
    note f = sched_of_fields [OF assms(2)]
    obtain xs where xs: "value_at node ([''adaptive'', ''ladders''] @ [state_key st]) = Some (PList xs)" "those (map float_of xs) = Some (sc_ladder c st)"
      using f(7) [of st] by (auto simp: reads)
    have "\<exists>d. value_at node [''adaptive'', ''ladder_confirmations''] = Some (PDict d) \<and> (\<forall>k x. map_of d k = Some x \<longrightarrow> (\<exists>i. x = PInt i \<and> 1 \<le> i))"
      using l(2) by (auto simp: analyzer_error_def on_values_def check_rules value_at_Cons [of node _ "_ # _"])
    then have "1 \<le> sc_confirm c st"
      using f(8) [of st] by (fastforce simp: confirmations_def reads bind_eq_Some_conv split: if_splits)
    with accepted_ladder [OF l(1) xs(1) f(1) f(3)] those_floats [OF xs(2)] show ?thesis
      by simp
  qed
  then show ?thesis by (simp add: ladder_ok_def)
qed

lemma trust_cfg_accepted:
  assumes "trust_channel_error name c = None"
  shows "\<exists>t. trust_cfg_of c = Some t \<and> cfg_ok t"
proof -
  have b: "\<And>k x. value_at c [k] = Some x \<Longrightarrow> float_of x = Some (num_of x)"
    using assms by (auto simp: trust_channel_error_def Let_def check_rules float_of_number)
  have z: "num_of (PInt 0) = 0" by (simp add: num_of_def)
  note r = assms [unfolded trust_channel_error_def Let_def checks_None list.set ball_simps check_rules z]
  from r obtain x1 x2 x3 x4 x5 where x: "value_at c [''min_value''] = Some x1" "value_at c [''max_value''] = Some x2"
      "value_at c [''stuck_epsilon''] = Some x3" "value_at c [''spike_threshold''] = Some x4" "value_at c [''drift_threshold''] = Some x5"
      "num_of x1 < num_of x2" "0 \<le> num_of x3" "0 \<le> num_of x4" "0 < num_of x5"
    by blast
  from r obtain i j m where i: "value_at c [''stuck_window''] = Some (PInt i)" "value_at c [''drift_window''] = Some (PInt j)"
      "value_at c [''missing_limit''] = Some (PInt m)" "2 \<le> i" "i \<le> 64" "2 \<le> j" "j \<le> 64" "1 \<le> m"
    by blast
  show ?thesis
    using x i by (simp add: trust_cfg_of_def real_at_def int_at_def cfg_ok_def b) arith
qed

definition node_accepted :: "pyval \<Rightarrow> bool" where
  "node_accepted node \<longleftrightarrow> node_error node = None \<and> on_path node [''adaptive'', ''upload''] upload_error = None \<and>
     on_path node [''control_relevance'', ''margins''] margins_error = None"

lemma accepted_node: "validate_settings (PDict d) = Inr out \<Longrightarrow> map_of d ''node'' = Some node \<Longrightarrow> node_accepted node"
  by (erule accepted_parts) (simp add: node_accepted_def)

lemma node_settings_accepted:
  assumes "validate_settings (PDict shared) = Inr out" "node_settings shared profile None = Inr node"
  shows "node_accepted node"
proof (cases profile)
  case None
  with assms show ?thesis
    by (auto simp: node_settings_def getk_def intro: accepted_node split: option.splits)
next
  case (Some p)
  then obtain name content d where p: "profile_settings shared name content = Inr d" "map_of d ''node'' = Some node"
    using assms(2) by (cases p) (auto simp: node_settings_def getk_def split: sum.splits option.splits)
  then obtain c out' where c: "validate_settings (PDict c) = Inr out'" "node = dgetn c ''node''"
    by (auto simp: profile_settings_def Let_def split: if_splits sum.splits option.splits)
  from c(1) obtain n where "map_of c ''node'' = Some n" by (rule accepted_parts) auto
  with c show ?thesis by (auto intro: accepted_node)
qed

lemma accepted_trust_channels:
  assumes "node_error node = None"
  shows "\<exists>cs. trust_channels_of node = Some cs \<and> (\<forall>(k, c) \<in> set cs. cfg_ok c)"
proof -
  have "on_path node [''trust_channels''] (on_items trust_channel_error) = None"
    using assms by (simp add: node_error_def)
  then obtain d where d: "value_at node [''trust_channels''] = Some (PDict d)" "\<forall>k x. map_of d k = Some x \<longrightarrow> trust_channel_error k x = None"
    by (auto simp: check_rules)
  have "\<exists>cs. those (map (\<lambda>(k, c). map_option (Pair k) (trust_cfg_of c)) xs) = Some cs \<and> (\<forall>(k, c) \<in> set cs. cfg_ok c)"
    if "\<forall>(k, x) \<in> set xs. trust_channel_error k x = None" for xs
    using that by (induction xs) (auto dest!: trust_cfg_accepted)
  moreover have "\<forall>(k, x) \<in> set (items d). trust_channel_error k x = None"
    using d(2) by (simp add: case_prod_unfold mem_items [symmetric] split_paired_All)
  ultimately show ?thesis
    using d(1) by (simp add: trust_channels_of_def dict_at_def)
qed

lemma accepted_sense:
  assumes "node_accepted node" "sense_settings_of node = Some s"
  shows "ladder_ok (se_sched s)" "0 < sc_min (se_sched s)" "0 < se_fault_interval s" "0 < se_degraded_interval s" "0 < se_reminder s"
    "\<forall>(k, v) \<in> set (se_margins s). number v \<and> 0 \<le> num_of v"
proof -
  obtain m where f: "sched_of node = Some (se_sched s)" "real_at node [''fault_interval_s''] = Some (se_fault_interval s)"
    "real_at node [''degraded_interval_s''] = Some (se_degraded_interval s)" "real_at node [''fault_reminder_s''] = Some (se_reminder s)"
    "value_at node [''control_relevance'', ''margins''] = Some (PDict m)" "se_margins s = items m"
    using assms(2) by (auto simp: sense_settings_of_def bind_eq_Some_conv reads)
  have n: "node_error node = None" "on_path node [''control_relevance'', ''margins''] margins_error = None"
    using assms(1) by (simp_all add: node_accepted_def)
  show "ladder_ok (se_sched s)" "0 < sc_min (se_sched s)"
    using node_ladders [OF n(1) f(1)] node_bounds [OF n(1) f(1)] by blast+
  show "0 < se_fault_interval s" "0 < se_degraded_interval s" "0 < se_reminder s"
    using n(1) f(2-4) [THEN real_at_Some] by (auto simp: node_error_def check_rules positive_def)
  show "\<forall>(k, v) \<in> set (se_margins s). number v \<and> 0 \<le> num_of v"
  proof -
    have "margins_error (PDict m) = None" using n(2) f(5) by (simp add: on_path_None)
    then have "\<And>k x. map_of m k = Some x \<Longrightarrow> number x \<and> 0 \<le> num_of x"
      by (simp add: margins_error_def Let_def on_values_def check_rules)
    then show ?thesis unfolding f(6) by (auto simp: mem_items)
  qed
qed

lemma accepted_sense_init:
  assumes "node_accepted node" "sense_settings_of node = Some s" "\<forall>(f, k) \<in> set THRESHOLDS. \<exists>v. map_of policy k = Some v \<and> number v"
  shows "\<exists>a. sense_init s None None policy = Inr a"
proof -
  have "\<exists>g. set_policy \<lparr>rg_margins = se_margins s, rg_thresholds = [], rg_reported = []\<rparr> policy = (g, None)"
  proof -
    have "\<not> (\<exists>(f, k) \<in> set THRESHOLDS. \<not> dhas policy k)" "\<not> (\<exists>(f, k) \<in> set THRESHOLDS. \<not> number (dgetn policy k))"
      using assms(3) by (auto simp: THRESHOLDS_def)
    moreover have "\<not> (\<exists>(n, v) \<in> set (se_margins s). \<not> number v \<or> num_of v < 0)"
      using accepted_sense(6) [OF assms(1, 2)] by fastforce
    ultimately show ?thesis unfolding set_policy_def by auto
  qed
  then show ?thesis
    using accepted_sense(5) [OF assms(1, 2)] by (auto simp: sense_init_def scaled_settings_def notifier_init_def relevance_init_def)
qed


section \<open>The shipped file\<close>

text \<open>\<^verbatim>\<open>config/software.json\<close>, and the overrides of \<^verbatim>\<open>config/profiles/deployment.json\<close>.\<close>

definition shipped_system :: pyval where
  "shipped_system =
     PDict [(''ACK_TIMEOUT'', PFloat (Fin 2)), (''ACTIVE'', PStr ''ACTIVE''), (''COMMAND_TTL'', PFloat (Fin 10)),
     (''CONTROLLER'', PStr ''CONTROLLER''), (''CONTROLLER_OF'', PDict [(''A1'', PStr ''C1''), (''A2'', PStr ''C2'')]),
     (''CONTROLLER_OF_SENSOR'', PDict [(''B1'', PStr ''C1''), (''B2'', PStr ''C2'')]), (''COOLDOWN'', PDict
     [(''IRRIGATION'', PFloat (Fin 60)), (''VENTILATION'', PFloat (Fin 30))]), (''DEFAULT_DB_PATH'', PStr
     ''smart_agriculture.db''), (''FALLBACK_GATEWAYS'', PDict [(''A1'', PList [PStr ''A2'']), (''A2'', PList [PStr
     ''A1''])]), (''GATEWAY_OF_CONTROLLER'', PDict [(''C1'', PStr ''A1''), (''C2'', PStr ''A2'')]), (''GATEWAY_OF_SENSOR'',
     PDict [(''B1'', PStr ''A1''), (''B2'', PStr ''A2'')]), (''GATEWAY_PORTS'', PDict [(''A1'', PInt 9201), (''A2'', PInt
     9202)]), (''GATEWAY_QUEUE_DB_TEMPLATE'', PStr ''gateway_queue_{gateway_id}.db''), (''HEARTBEAT_INTERVAL'', PFloat (Fin
     3)), (''HEARTBEAT_TIMEOUT'', PFloat (Fin 10)), (''INITIAL_GENERATION'', PInt 1), (''INITIAL_POLICY_VERSION'', PInt 1),
     (''MAX_DURATION'', PDict [(''IRRIGATION'', PInt 30), (''VENTILATION'', PInt 30)]), (''MAX_RETRIES'', PInt 3),
     (''NODE_STATUS_INTERVAL'', PFloat (Fin 5)), (''NODE_TIMEOUT'', PFloat (Fin 15)), (''OFFLINE'', PStr ''OFFLINE''),
     (''ONLINE'', PStr ''ONLINE''), (''PEER_OF'', PDict [(''A1'', PStr ''A2''), (''A2'', PStr ''A1'')]),
     (''RETRY_SCAN_INTERVAL'', PFloat (Fin (1 / 5))), (''SAMPLE_INTERVAL_FAST'', PFloat (Fin 2)),
     (''SAMPLE_INTERVAL_SLOW'', PFloat (Fin 5)), (''SENSOR'', PStr ''SENSOR''), (''SENSOR_OF'', PDict [(''A1'', PStr
     ''B1''), (''A2'', PStr ''B2'')]), (''SENSOR_OF_CONTROLLER'', PDict [(''C1'', PStr ''B1''), (''C2'', PStr ''B2'')]),
     (''SERVER_HOST'', PStr ''127.0.0.1''), (''SERVER_POLICY_FIRST_DELAY'', PFloat (Fin 1)), (''SERVER_POLICY_INTERVAL'',
     PFloat (Fin 10)), (''SERVER_PORT'', PInt 9100), (''SIMULATION_TIME_SCALE'', PFloat (Fin (1 / 5))), (''STANDBY'', PStr
     ''STANDBY''), (''UNKNOWN'', PStr ''UNKNOWN''), (''SERVER_RECEIPT_TIMEOUT'', PFloat (Fin 2))]"

definition shipped_trust :: pyval where
  "shipped_trust =
     PDict [(''temperature'', PDict [(''min_value'', PFloat (Fin (- 10))), (''max_value'', PFloat (Fin 60)),
     (''stuck_epsilon'', PFloat (Fin (1 / 100))), (''stuck_window'', PInt 20), (''spike_threshold'', PInt 5),
     (''drift_window'', PInt 24), (''drift_threshold'', PFloat (Fin (1 / 20))), (''missing_limit'', PInt 3)]),
     (''humidity'', PDict [(''min_value'', PFloat (Fin 0)), (''max_value'', PFloat (Fin 100)), (''stuck_epsilon'', PFloat
     (Fin (1 / 100))), (''stuck_window'', PInt 20), (''spike_threshold'', PInt 20), (''drift_window'', PInt 24),
     (''drift_threshold'', PFloat (Fin (1 / 5))), (''missing_limit'', PInt 3)]), (''soil_moisture'', PDict [(''min_value'',
     PFloat (Fin 0)), (''max_value'', PFloat (Fin 100)), (''stuck_epsilon'', PFloat (Fin (1 / 100))), (''stuck_window'',
     PInt 20), (''spike_threshold'', PInt 20), (''drift_window'', PInt 24), (''drift_threshold'', PFloat (Fin (1 / 10))),
     (''missing_limit'', PInt 3)]), (''light'', PDict [(''min_value'', PFloat (Fin 0)), (''max_value'', PFloat (Fin
     120000)), (''stuck_epsilon'', PFloat (Fin (1 / 100))), (''stuck_window'', PInt 20), (''spike_threshold'', PInt 10000),
     (''drift_window'', PInt 24), (''drift_threshold'', PInt 100), (''missing_limit'', PInt 3)])]"

definition shipped_adaptive :: dict where
  "shipped_adaptive =
     [(''stable_threshold'', PInt 2), (''active_threshold'', PInt 6), (''hysteresis_fraction'', PFloat (Fin (1 /
     5))), (''event_threshold'', PInt 6), (''event_min_duration_s'', PInt 10), (''analyzer'', PDict [(''variety_window_s'',
     PInt 120), (''roc_window_s'', PInt 40), (''baseline_tau_s'', PInt 120)]), (''channels'', PDict [(''temperature'',
     PDict [(''noise_floor'', PFloat (Fin (1 / 2))), (''use'', PBool True)]), (''humidity'', PDict [(''noise_floor'', PInt
     2), (''use'', PBool True)]), (''soil_moisture'', PDict [(''noise_floor'', PInt 1), (''use'', PBool True)]),
     (''light'', PDict [(''noise_floor'', PInt 100), (''use'', PBool True)])]), (''ladders'', PDict [(''stable'', PList
     [PInt 20, PInt 40, PInt 60]), (''active'', PList [PInt 15, PInt 10, PInt 5]), (''alert'', PList [PInt 5])]),
     (''ladder_confirmations'', PDict [(''stable'', PInt 3), (''active'', PInt 2), (''alert'', PInt 1)]), (''upload'',
     PDict [(''upload_first_sample'', PBool True), (''on_event'', PBool True), (''on_state_change'', PBool True),
     (''on_interval_change'', PBool True), (''heartbeat_s'', PInt 60), (''delta_threshold'', PInt 2)])]"

definition node_with :: "dict \<Rightarrow> dict" where
  "node_with adaptive =
     [(''trust_channels'', shipped_trust), (''sampling'', PDict [(''min_interval'', PInt 5), (''default_interval'', PInt 20), (''max_interval'', PInt 60)]),
      (''adaptive'', PDict adaptive), (''fault_interval_s'', PInt 20), (''degraded_interval_s'', PInt 10), (''fault_reminder_s'', PFloat (Fin 300)),
      (''control_relevance'', PDict [(''margins'', PDict [(''soil_moisture'', PInt 0), (''temperature'', PInt 0)])])]"

definition settings_with :: "dict \<Rightarrow> dict" where
  "settings_with adaptive =
     [(''schema_version'', PInt 1), (''system'', shipped_system), (''node'', PDict (node_with adaptive)),
      (''policy'', PDict [(''soil_moisture_threshold'', PFloat (Fin 25)), (''temperature_threshold'', PFloat (Fin 32)),
        (''irrigation_duration'', PInt 10), (''ventilation_duration'', PInt 5)]),
      (''experiment'', PDict [(''seed'', PInt 42), (''sample_interval_s'', PFloat (Fin (1 / 5))),
        (''heartbeat_interval_s'', PFloat (Fin (1 / 10))), (''heartbeat_timeout_s'', PFloat (Fin (3 / 5))), (''duration_s'', PInt 4)]),
      (''offline_queue'', PDict [(''max_messages'', PInt 10000), (''max_payload_bytes'', PInt 16777216),
        (''reserved_messages'', PInt 1000), (''reserved_payload_bytes'', PInt 1677722)]),
      (''controller'', PDict [(''recent_command_capacity'', PInt 64)])]"

abbreviation shipped_settings :: dict where
  "shipped_settings \<equiv> settings_with shipped_adaptive"

lemmas validator_simps = check_rules positive_def py_eq_def comparable_def number_def num_of_def int_finite_def getk_def items_def

lemma shipped_system_ok: "system_error shipped_system = None"
  by (simp add: system_error_def shipped_system_def SYSTEM_TIMES_def port_check_def on_values_def validator_simps insert_commute)

lemma shipped_trust_ok: "on_items trust_channel_error shipped_trust = None"
  by (simp add: shipped_trust_def trust_channel_error_def Let_def validator_simps)

lemma is_dict_PDict [simp]: "is_dict (PDict d)"
  by (simp add: is_dict_def)

lemma json_ok_parts: "json_ok shipped_system" "is_dict shipped_system" "json_ok shipped_trust"
  by (simp_all add: shipped_system_def shipped_trust_def json_ok_PDict is_dict_def)

lemma settings_with_accepted:
  assumes "json_ok (PDict a)" "thresholds_error (PDict a) = None" "ladders_error (PDict (node_with a)) = None"
    "analyzer_error (PDict a) = None" "on_path (PDict a) [''upload''] upload_error = None"
  shows "validate_settings (PDict (settings_with a)) = Inr (PDict (settings_with a))"
proof -
  have "header_error (PDict (settings_with a)) = None"
    using assms(1) json_ok_parts by (simp add: header_error_def settings_with_def node_with_def py_eq_def json_ok_PDict)
  moreover have "node_error (PDict (node_with a)) = None"
    using assms(2-4) shipped_trust_ok
    by (simp add: node_error_def on_path_None value_at_Cons [of _ _ "_ # _"] positive_def sampling_error_def number_check_None compare_check_None,
        simp add: node_with_def number_def num_of_def int_finite_def comparable_def)
  moreover have "queue_error (PDict [(''max_messages'', PInt 10000), (''max_payload_bytes'', PInt 16777216), (''reserved_messages'', PInt 1000),
      (''reserved_payload_bytes'', PInt 1677722)]) = None"
    by (simp add: queue_error_def Let_def check_rules num_of_def comparable_def)
  moreover have "margins_error (PDict [(''soil_moisture'', PInt 0), (''temperature'', PInt 0)]) = None"
    by (simp add: margins_error_def on_values_def validator_simps)
  ultimately have "checks
         [header_error (PDict (settings_with a)),
          on_path (PDict (settings_with a)) [''system''] system_error,
          on_path (PDict (settings_with a)) [''node''] node_error,
          on_path (PDict (settings_with a)) [''policy''] (on_items (\<lambda>k. positive k)),
          on_path (PDict (settings_with a)) [''offline_queue''] queue_error,
          on_path (PDict (settings_with a)) [''controller'', ''recent_command_capacity'']
            (int_check ''invalid recent command window'' (\<lambda>i. 1 \<le> i \<and> i \<le> 1024)),
          on_path (PDict (settings_with a)) [''node'', ''control_relevance'', ''margins''] margins_error,
          on_path (PDict (settings_with a)) [''node'', ''adaptive'', ''upload''] upload_error] = None"
    using assms(5) shipped_system_ok
    by (simp add: settings_with_def node_with_def on_path_None value_at_Cons [of _ _ "_ # _"] positive_def check_rules number_def num_of_def int_finite_def)
  then show ?thesis unfolding validate_settings_def by (simp only: option.case)
qed

lemma shipped_rungs:
  "ladder_error 5 60 ''stable'' (PList [PInt 20, PInt 40, PInt 60]) = None"
  "ladder_error 5 60 ''active'' (PList [PInt 15, PInt 10, PInt 5]) = None"
  "ladder_error 5 60 ''alert'' (PList [PInt 5]) = None"
  by (simp_all add: ladder_error_def rung_values_def Let_def validator_simps)

lemma shipped_ladders_ok:
  assumes "map_of a ''ladders'' = map_of shipped_adaptive ''ladders''"
  shows "ladders_error (PDict (node_with a)) = None"
proof -
  have "map_of a ''ladders'' = Some (PDict [(''stable'', PList [PInt 20, PInt 40, PInt 60]), (''active'', PList [PInt 15, PInt 10, PInt 5]),
      (''alert'', PList [PInt 5])])"
    using assms by (simp add: shipped_adaptive_def)
  moreover have "\<And>i. num_of (PInt i) = of_int i" by (simp add: num_of_def)
  moreover have "{x. x = 15 \<or> x = 10 \<or> x = 5} = {15, 10, 5 :: real}" by auto
  then have "Min {x. x = 15 \<or> x = 10 \<or> x = 5} = (5 :: real)" by simp
  ultimately show ?thesis
    by (simp add: ladders_error_def node_with_def value_at_Cons [of _ _ "_ # _"] on_path_None on_items_None rung_values_def shipped_rungs)
qed

lemma shipped_thresholds_ok:
  assumes "\<forall>k. k \<noteq> ''event_threshold'' \<longrightarrow> map_of a k = map_of shipped_adaptive k"
  shows "thresholds_error (PDict a) = None" "analyzer_error (PDict a) = None" "on_path (PDict a) [''upload''] upload_error = None"
  using assms
  by (simp_all add: shipped_adaptive_def thresholds_error_def analyzer_error_def upload_error_def on_values_def value_at_Cons [of _ _ "_ # _"] validator_simps)

lemma shipped_json_ok: "json_ok (PDict shipped_adaptive)" "json_ok (PDict (ddel shipped_adaptive ''event_threshold''))"
  by (simp_all add: shipped_adaptive_def ddel_def json_ok_PDict)

lemma shipped_accepted: "validate_settings (PDict shipped_settings) = Inr (PDict shipped_settings)"
  by (intro settings_with_accepted shipped_json_ok shipped_thresholds_ok shipped_ladders_ok) simp_all

text \<open>
  The validator does not look at the event threshold: a file without it is accepted, and the adapter of
  a sensor cannot be built from it.
\<close>

lemma event_threshold_unchecked:
  "\<exists>cfg node. validate_settings (PDict cfg) = Inr (PDict cfg) \<and> node_settings cfg None None = Inr node \<and> sense_settings_of node = None"
proof (intro exI conjI)
  let ?a = "ddel shipped_adaptive ''event_threshold''"
  show "validate_settings (PDict (settings_with ?a)) = Inr (PDict (settings_with ?a))"
    by (intro settings_with_accepted shipped_json_ok shipped_thresholds_ok shipped_ladders_ok) simp_all
  show "node_settings (settings_with ?a) None None = Inr (PDict (node_with ?a))"
    by (simp add: node_settings_def getk_def settings_with_def)
  have "real_at (PDict (node_with ?a)) [''adaptive'', ''event_threshold''] = None"
    by (simp add: real_at_def node_with_def value_at_Cons [of _ _ "_ # _"])
  then have "sched_of (PDict (node_with ?a)) = None"
    unfolding sched_of_def by (auto simp: bind_eq_None_conv)
  then show "sense_settings_of (PDict (node_with ?a)) = None"
    by (simp add: sense_settings_of_def)
qed

text \<open>The overrides of the physical board are not validated: a negative sampling interval gets through.\<close>

lemma physical_overrides_unchecked:
  "\<exists>ov node. node_settings shipped_settings None (Some ov) = Inr node \<and> node_error node \<noteq> None"
proof -
  let ?ov = "PDict [(''sampling'', PDict [(''min_interval'', PInt (- 5))])]"
  have "physical_settings (PDict (node_with shipped_adaptive)) ?ov =
      Inr (PDict (dset (merge_settings (node_with shipped_adaptive) (dict_of ?ov)) ''trust_channels''
        (PDict (filter (\<lambda>(k, v). k \<in> {''temperature'', ''humidity''}) (dict_of shipped_trust)))))" (is "_ = Inr ?node")
    by (simp add: physical_settings_def node_with_def shipped_trust_def dict_of_def getk_def)
  then have "node_settings shipped_settings None (Some ?ov) = Inr ?node"
    by (simp add: node_settings_def getk_def settings_with_def)
  moreover have "sampling_error ?node \<noteq> None"
    by (simp add: sampling_error_def on_path_None value_at_Cons [of _ _ "_ # _"] positive_def number_check_None node_with_def dict_of_def num_of_def)
  then have "node_error ?node \<noteq> None" by (simp add: node_error_def)
  ultimately show ?thesis by blast
qed

lemma shipped_sense: "\<exists>s. sense_settings_of (PDict (node_with shipped_adaptive)) = Some s"
proof -
  have f: "\<And>i. int_finite i \<Longrightarrow> float_of (PInt i) = Some (of_int i)" "\<And>r. float_of (PFloat (Fin r)) = Some r"
    by (simp_all add: float_of_def number_def num_of_def)
  note [simp] = real_at_def list_at_def dict_at_def int_at_def value_at_Cons [of _ _ "_ # _"] f int_finite_def
  have "sched_of (PDict (node_with shipped_adaptive)) \<noteq> None"
    by (simp add: sched_of_def node_with_def shipped_adaptive_def confirmations_def analyzer_channel_def items_def insert_commute)
  then show ?thesis by (auto simp: sense_settings_of_def node_with_def)
qed


end
